(* ===== verification/Prelude.thy ===== *)
theory Prelude
  imports
    Complex_Main
    "HOL-Library.AList"
    "HOL-Library.List_Lexorder"
    "HOL-Library.Char_ord"
begin

text \<open>
  Shared vocabulary of the development.

  \<^item> Results: a fallible operation returns \<open>'e + 'a\<close>, \<open>Inl\<close> for a raised exception. The
    functions \<open>bindr\<close> and \<open>mapr\<close> sequence such operations and map one over a list, as
    a Python comprehension whose element expression may raise.
  \<^item> Strings: a Python \<open>str\<close> is represented by its UTF-8 bytes (a \<^typ>\<open>string\<close>). The string
    operations used by the modelled code (replacing and splitting at ASCII characters,
    concatenation, equality, ordering, prefix tests) commute with that encoding, and the
    byte order of UTF-8 is the code point order used by \<open>sorted\<close>. Where the code counts code
    points, \<open>py_len\<close> and \<open>py_take\<close> do so.
  \<^item> Dictionaries: association lists with \<^const>\<open>map_of\<close>, \<^const>\<open>AList.update\<close> (which keeps the
    position of an existing key and appends a new one, as \<open>dict\<close> does) and \<^const>\<open>AList.delete\<close>.
\<close>

section \<open>Results of fallible operations\<close>

named_theorems result_simps \<open>rewriting of sequenced results\<close>

definition bindr :: "'e + 'a \<Rightarrow> ('a \<Rightarrow> 'e + 'b) \<Rightarrow> 'e + 'b" where
  "bindr m f = (case m of Inl e \<Rightarrow> Inl e | Inr a \<Rightarrow> f a)"

text \<open>In code equations the sequencing is a case distinction, which is evaluated lazily.\<close>

lemma bindr_case [code_unfold]: "bindr m f = (case m of Inl e \<Rightarrow> Inl e | Inr a \<Rightarrow> f a)"
  by (simp add: bindr_def)

lemma bindr_Inl [simp, result_simps]: "bindr (Inl e) f = Inl e"
  by (simp add: bindr_def)

lemma bindr_Inr [simp, result_simps]: "bindr (Inr a) f = f a"
  by (simp add: bindr_def)

lemma bindr_eq_Inr: "bindr m f = Inr b \<longleftrightarrow> (\<exists>a. m = Inr a \<and> f a = Inr b)"
  by (cases m) auto

lemma bindr_eq_Inl: "bindr m f = Inl e \<longleftrightarrow> m = Inl e \<or> (\<exists>a. m = Inr a \<and> f a = Inl e)"
  by (cases m) auto

lemma bindr_cong [fundef_cong]:
  assumes "m = m'" and "\<And>a. m' = Inr a \<Longrightarrow> f a = g a"
  shows "bindr m f = bindr m' g"
  using assms by (cases m') auto

lemma bindr_assoc: "bindr (bindr m f) g = bindr m (\<lambda>a. bindr (f a) g)"
  by (cases m) auto

fun mapr :: "('a \<Rightarrow> 'e + 'b) \<Rightarrow> 'a list \<Rightarrow> 'e + 'b list" where
  "mapr f [] = Inr []"
| "mapr f (x # xs) = bindr (f x) (\<lambda>y. bindr (mapr f xs) (\<lambda>ys. Inr (y # ys)))"

lemma mapr_cong [fundef_cong]:
  assumes "xs = ys" and "\<And>x. x \<in> set ys \<Longrightarrow> f x = g x"
  shows "mapr f xs = mapr g ys"
  unfolding assms(1) using assms(2) by (induction ys) auto

lemma mapr_Inr_length: "mapr f xs = Inr ys \<Longrightarrow> length ys = length xs"
  by (induction xs arbitrary: ys) (auto simp: bindr_eq_Inr)

lemma mapr_Inr_nth: "mapr f xs = Inr ys \<Longrightarrow> i < length xs \<Longrightarrow> f (xs ! i) = Inr (ys ! i)"
proof (induction xs arbitrary: ys i)
  case (Cons x xs)
  then show ?case by (cases i) (auto simp: bindr_eq_Inr)
qed simp

lemma mapr_Inr_iff: "mapr f xs = Inr ys \<longleftrightarrow> list_all2 (\<lambda>x y. f x = Inr y) xs ys"
  by (induction xs arbitrary: ys) (auto simp: bindr_eq_Inr list_all2_Cons1)

lemma mapr_Inl_in: "mapr f xs = Inl e \<Longrightarrow> \<exists>x\<in>set xs. f x = Inl e"
  by (induction xs) (auto simp: bindr_eq_Inl)

lemma mapr_append:
  "mapr f (xs @ ys) = bindr (mapr f xs) (\<lambda>us. bindr (mapr f ys) (\<lambda>vs. Inr (us @ vs)))"
  by (induction xs) (auto simp: bindr_def split: sum.splits)

text \<open>A guard: raise the error unless the condition holds.\<close>

definition unless_raise :: "bool \<Rightarrow> 'e \<Rightarrow> 'e + unit" where
  "unless_raise ok e = (if ok then Inr () else Inl e)"

lemma unless_raise_simps [simp]:
  "unless_raise True e = Inr ()" "unless_raise False e = Inl e"
  by (simp_all add: unless_raise_def)

lemma unless_raise_eq_Inr [simp]: "unless_raise b e = Inr u \<longleftrightarrow> b"
  by (simp add: unless_raise_def)

lemma unless_raise_eq_Inl [simp]: "unless_raise b e = Inl e' \<longleftrightarrow> \<not> b \<and> e' = e"
  by (auto simp: unless_raise_def)

section \<open>Dictionaries\<close>

lemma map_of_size:
  "map_of xs k = Some v \<Longrightarrow> size v < Suc (size_list (size_prod (\<lambda>_. 0) size) xs)"
  "map_of xs k = Some v \<Longrightarrow> size v < Suc (size_list (\<lambda>x. Suc (size (snd x))) xs)"
  by (induction xs) (auto split: if_splits)

lemma in_zip_size: "(a, b) \<in> set (zip xs ys) \<Longrightarrow> size a \<le> size_list size xs"
  by (drule set_zip_leftD) (auto intro: size_list_estimation')

lemma in_alist_size: "(a, b) \<in> set xs \<Longrightarrow> size b \<le> size_list (size_prod (\<lambda>_. 0) size) xs"
  by (rule size_list_estimation') auto

lemma map_of_delete_neq [simp]: "k \<noteq> k' \<Longrightarrow> map_of (AList.delete k xs) k' = map_of xs k'"
  by (simp add: delete_conv)

lemma map_of_delete_eq [simp]: "map_of (AList.delete k xs) k = None"
  by (simp add: delete_conv)

lemma map_of_update_eq [simp]: "map_of (AList.update k v xs) k = Some v"
  by (simp add: update_conv)

lemma map_of_update_neq [simp]:
  "k \<noteq> k' \<Longrightarrow> map_of (AList.update k v xs) k' = map_of xs k'"
  by (simp add: update_conv)

lemma map_of_None_iff: "map_of xs k = None \<longleftrightarrow> k \<notin> fst ` set xs"
  by (simp add: map_of_eq_None_iff)

section \<open>Strings\<close>

text \<open>\<open>s.replace(c, t)\<close> for a one-character \<open>c\<close>.\<close>

definition str_replace1 :: "char \<Rightarrow> string \<Rightarrow> string \<Rightarrow> string" where
  "str_replace1 c t s = concat (map (\<lambda>x. if x = c then t else [x]) s)"

lemma str_replace1_Nil [simp]: "str_replace1 c t [] = []"
  by (simp add: str_replace1_def)

lemma str_replace1_Cons [simp]:
  "str_replace1 c t (x # s) = (if x = c then t else [x]) @ str_replace1 c t s"
  by (simp add: str_replace1_def)

lemma str_replace1_append [simp]:
  "str_replace1 c t (s @ s') = str_replace1 c t s @ str_replace1 c t s'"
  by (simp add: str_replace1_def)

text \<open>\<open>s.replace(ab, t)\<close> for a two-character pattern, scanning from the left.\<close>

fun str_replace2 :: "char \<Rightarrow> char \<Rightarrow> string \<Rightarrow> string \<Rightarrow> string" where
  "str_replace2 a b t (x # y # s) =
     (if x = a \<and> y = b then t @ str_replace2 a b t s else x # str_replace2 a b t (y # s))"
| "str_replace2 a b t s = s"

text \<open>\<open>s.split(c)\<close> for a one-character separator; the result is never empty.\<close>

fun str_split :: "char \<Rightarrow> string \<Rightarrow> string list" where
  "str_split c [] = [[]]"
| "str_split c (x # s) =
     (if x = c then [] # str_split c s
      else (case str_split c s of [] \<Rightarrow> [[x]] | w # ws \<Rightarrow> (x # w) # ws))"

lemma str_split_nonempty [simp]: "str_split c s \<noteq> []"
  by (cases s) (auto split: list.splits)

lemma str_split_no_sep: "c \<notin> set s \<Longrightarrow> str_split c s = [s]"
  by (induction s) auto

lemma str_split_append_sep:
  "c \<notin> set s \<Longrightarrow> str_split c (s @ c # t) = s # str_split c t"
  by (induction s) auto

lemma str_split_parts: "w \<in> set (str_split c s) \<Longrightarrow> c \<notin> set w"
  by (induction s arbitrary: w) (fastforce split: if_splits list.splits)+

text \<open>\<open>s.split(c, 1)[0]\<close>: the part before the first separator.\<close>

definition str_before :: "char \<Rightarrow> string \<Rightarrow> string" where
  "str_before c s = takeWhile (\<lambda>x. x \<noteq> c) s"

text \<open>
  \<open>s.strip()\<close> removes Unicode white space at both ends: the ASCII characters below and the
  UTF-8 encodings of U+0085, U+00A0, U+1680, U+2000 to U+200A, U+2028, U+2029, U+202F,
  U+205F and U+3000.
\<close>

definition py_spaces :: "string list" where
  "py_spaces =
     [[CHR 0x09], [CHR 0x0A], [CHR 0x0B], [CHR 0x0C], [CHR 0x0D], [CHR 0x1C], [CHR 0x1D],
      [CHR 0x1E], [CHR 0x1F], [CHR 0x20], [CHR 0xC2, CHR 0x85], [CHR 0xC2, CHR 0xA0],
      [CHR 0xE1, CHR 0x9A, CHR 0x80]] @
     map (\<lambda>c. [CHR 0xE2, CHR 0x80, c])
       [CHR 0x80, CHR 0x81, CHR 0x82, CHR 0x83, CHR 0x84, CHR 0x85, CHR 0x86, CHR 0x87,
        CHR 0x88, CHR 0x89, CHR 0x8A, CHR 0xA8, CHR 0xA9, CHR 0xAF] @
     [[CHR 0xE2, CHR 0x81, CHR 0x9F], [CHR 0xE3, CHR 0x80, CHR 0x80]]"

definition strip_prefix1 :: "string list \<Rightarrow> string \<Rightarrow> string option" where
  "strip_prefix1 ws s =
     (case filter (\<lambda>w. take (length w) s = w \<and> w \<noteq> []) ws of
        [] \<Rightarrow> None | w # _ \<Rightarrow> Some (drop (length w) s))"

lemma strip_prefix1_shorter: "strip_prefix1 ws s = Some t \<Longrightarrow> length t < length s"
proof -
  assume "strip_prefix1 ws s = Some t"
  then obtain w vs where "filter (\<lambda>w. take (length w) s = w \<and> w \<noteq> []) ws = w # vs"
    and t: "t = drop (length w) s"
    by (auto simp: strip_prefix1_def split: list.splits)
  then have "w \<in> set (filter (\<lambda>w. take (length w) s = w \<and> w \<noteq> []) ws)" by simp
  then have "take (length w) s = w" "w \<noteq> []" by auto
  then show ?thesis using t by (cases s) auto
qed

function lstrip_with :: "string list \<Rightarrow> string \<Rightarrow> string" where
  "lstrip_with ws s = (case strip_prefix1 ws s of None \<Rightarrow> s | Some t \<Rightarrow> lstrip_with ws t)"
  by pat_completeness auto
termination
  by (relation "measure (\<lambda>(ws, s). length s)") (auto dest: strip_prefix1_shorter)

declare lstrip_with.simps [simp del]

definition str_strip :: "string \<Rightarrow> string" where
  "str_strip s = rev (lstrip_with (map rev py_spaces) (rev (lstrip_with py_spaces s)))"

definition str_prefix :: "string \<Rightarrow> string \<Rightarrow> bool" where
  "str_prefix p s \<longleftrightarrow> take (length p) s = p"

definition str_suffix :: "string \<Rightarrow> string \<Rightarrow> bool" where
  "str_suffix p s \<longleftrightarrow> str_prefix (rev p) (rev s)"

text \<open>
  Code points: every byte of a UTF-8 sequence but the first has the form 10xxxxxx. \<open>py_len\<close> is
  \<open>len(s)\<close> and \<open>py_take n s\<close> is \<open>s[:n]\<close> on the represented strings.
\<close>

definition utf8_continuation :: "char \<Rightarrow> bool" where
  "utf8_continuation c \<longleftrightarrow> digit7 c \<and> \<not> digit6 c"

definition py_len :: "string \<Rightarrow> nat" where
  "py_len s = length (filter (\<lambda>c. \<not> utf8_continuation c) s)"

fun py_take :: "nat \<Rightarrow> string \<Rightarrow> string" where
  "py_take n [] = []"
| "py_take n (c # s) =
     (if utf8_continuation c then c # py_take n s
      else (case n of 0 \<Rightarrow> [] | Suc m \<Rightarrow> c # py_take m s))"

lemma py_len_simps [simp]:
  "py_len [] = 0"
  "py_len (c # s) = (if utf8_continuation c then py_len s else Suc (py_len s))"
  by (simp_all add: py_len_def)

lemma py_len_le_length: "py_len s \<le> length s"
  by (simp add: py_len_def)

lemma py_len_py_take: "py_len (py_take n s) \<le> n"
  by (induction n s rule: py_take.induct) (auto split: nat.splits)

lemma py_take_all: "py_len s \<le> n \<Longrightarrow> py_take n s = s"
  by (induction n s rule: py_take.induct) (auto split: nat.splits if_splits)

text \<open>Decimal rendering of integers, as \<open>str(int)\<close>.\<close>

definition digit_char :: "nat \<Rightarrow> char" where
  "digit_char n = ''0123456789'' ! n"

fun str_of_nat :: "nat \<Rightarrow> string" where
  "str_of_nat n =
     (if n < 10 then [digit_char n] else str_of_nat (n div 10) @ [digit_char (n mod 10)])"

declare str_of_nat.simps [simp del]

definition str_of_int :: "int \<Rightarrow> string" where
  "str_of_int i = (if i < 0 then ''-'' @ str_of_nat (nat (- i)) else str_of_nat (nat i))"

text \<open>Character classes of the patterns used by the validated identifiers.\<close>

definition is_digit :: "char \<Rightarrow> bool" where
  "is_digit c \<longleftrightarrow> CHR ''0'' \<le> c \<and> c \<le> CHR ''9''"

definition is_lower :: "char \<Rightarrow> bool" where
  "is_lower c \<longleftrightarrow> CHR ''a'' \<le> c \<and> c \<le> CHR ''z''"

definition is_upper :: "char \<Rightarrow> bool" where
  "is_upper c \<longleftrightarrow> CHR ''A'' \<le> c \<and> c \<le> CHR ''Z''"

definition is_alnum :: "char \<Rightarrow> bool" where
  "is_alnum c \<longleftrightarrow> is_digit c \<or> is_lower c \<or> is_upper c"

definition is_hex :: "char \<Rightarrow> bool" where
  "is_hex c \<longleftrightarrow> is_digit c \<or> (CHR ''a'' \<le> c \<and> c \<le> CHR ''f'')"

definition lower_char :: "char \<Rightarrow> char" where
  "lower_char c = (if is_upper c then char_of ((of_char c :: nat) + 32) else c)"

text \<open>\<open>first\<close> matches once and \<open>rest\<close> between \<open>lo\<close> and \<open>hi\<close> times, to the end of the string.\<close>

definition match_ident :: "(char \<Rightarrow> bool) \<Rightarrow> (char \<Rightarrow> bool) \<Rightarrow> nat \<Rightarrow> nat \<Rightarrow> string \<Rightarrow> bool" where
  "match_ident p q lo hi s =
     (case s of [] \<Rightarrow> False
      | c # r \<Rightarrow> p c \<and> list_all q r \<and> lo \<le> length r \<and> length r \<le> hi)"

section \<open>Sorting and lists\<close>

text \<open>\<open>sorted(set(xs))\<close> for strings.\<close>

definition sorted_strs :: "string list \<Rightarrow> string list" where
  "sorted_strs xs = sort (remdups xs)"

lemma set_sorted_strs [simp]: "set (sorted_strs xs) = set xs"
  by (simp add: sorted_strs_def)

lemma distinct_sorted_strs [simp]: "distinct (sorted_strs xs)"
  by (simp add: sorted_strs_def)

lemma sorted_sorted_strs [simp]: "sorted (sorted_strs xs)"
  by (simp add: sorted_strs_def)

lemma sorted_strs_cong: "set xs = set ys \<Longrightarrow> sorted_strs xs = sorted_strs ys"
  by (intro sorted_distinct_set_unique) auto

text \<open>\<open>xs.index(x)\<close>, where the caller knows that \<open>x\<close> occurs.\<close>

fun index_of :: "'a \<Rightarrow> 'a list \<Rightarrow> nat" where
  "index_of x [] = 0"
| "index_of x (y # ys) = (if x = y then 0 else Suc (index_of x ys))"

lemma index_of_less: "x \<in> set xs \<Longrightarrow> index_of x xs < length xs"
  by (induction xs) auto

lemma nth_index_of: "x \<in> set xs \<Longrightarrow> xs ! index_of x xs = x"
  by (induction xs) auto

lemma index_of_nth: "distinct xs \<Longrightarrow> i < length xs \<Longrightarrow> index_of (xs ! i) xs = i"
proof (induction xs arbitrary: i)
  case (Cons x xs)
  then show ?case by (cases i) auto
qed simp

text \<open>\<open>xs.insert(i, x)\<close> and \<open>xs.pop(i)\<close> for an index in range; \<open>insert\<close> clips at the end.\<close>

definition list_insert :: "nat \<Rightarrow> 'a \<Rightarrow> 'a list \<Rightarrow> 'a list" where
  "list_insert i x xs = take i xs @ x # drop i xs"

definition list_pop :: "nat \<Rightarrow> 'a list \<Rightarrow> 'a list" where
  "list_pop i xs = take i xs @ drop (Suc i) xs"

lemma list_insert_pop: "i < length xs \<Longrightarrow> list_insert i (xs ! i) (list_pop i xs) = xs"
  by (simp add: list_insert_def list_pop_def id_take_nth_drop [symmetric] min_def)

lemma find_index_append:
  "\<forall>x\<in>set xs. \<not> P x \<Longrightarrow> P y \<Longrightarrow> List.find P (xs @ y # ys) = Some y"
  by (induction xs) auto

end
