(* ===== verification/PyJson.thy ===== *)
theory PyJson
  imports Prelude
begin

text \<open>
  JSON values as the Python code handles them (\<open>backend/capability_v2/revision/canonical.py\<close>).

  An object is an association list in insertion order. Python's \<open>==\<close> is \<open>py_eq\<close>: it compares
  objects as finite maps, lists element by element, and numbers by value across \<open>bool\<close>, \<open>int\<close>
  and \<open>float\<close> (\<open>True == 1 == 1.0\<close>). A finite float is its exact rational value, with the
  negative zero kept apart because it prints differently; \<open>normalize_json\<close> rejects the
  infinities and NaN. \<open>JOpaque\<close> is any other Python object (\<open>object()\<close>); it is equal to no
  separately created value and \<open>normalize_json\<close> rejects it.

  The Unicode normal form, the SHA-256 digest and \<open>repr\<close> of floats are fields of \<open>hostlib\<close>, an
  argument of the definitions that use them, so every theorem holds whatever they compute.
\<close>

section \<open>Values\<close>

datatype pyfloat = Fin rat | NegZero | Inf bool | NaN

datatype json =
    JNull
  | JBool bool
  | JInt int
  | JFloat pyfloat
  | JStr string
  | JList "json list"
  | JObj "(string \<times> json) list"
  | JOpaque

type_synonym jobj = "(string \<times> json) list"

record hostlib =
  nfc :: "string \<Rightarrow> string"
  sha256_hex :: "string \<Rightarrow> string"
  float_repr :: "pyfloat \<Rightarrow> string"

datatype py_exn =
    ValueError string
  | TypeError string
  | KeyError string
  | RuntimeError string
  | LookupError string
  | OtherError string

fun is_obj :: "json \<Rightarrow> bool" where
  "is_obj (JObj _) = True"
| "is_obj _ = False"

fun is_list :: "json \<Rightarrow> bool" where
  "is_list (JList _) = True"
| "is_list _ = False"

fun is_str :: "json \<Rightarrow> bool" where
  "is_str (JStr _) = True"
| "is_str _ = False"

text \<open>\<open>value.get(key)\<close> on an object; \<open>None\<close> is absence.\<close>

fun jget :: "json \<Rightarrow> string \<Rightarrow> json option" where
  "jget (JObj xs) k = map_of xs k"
| "jget _ k = None"

text \<open>\<open>value.get(key)\<close> where the code does not tell an absent key from \<open>None\<close>.\<close>

definition jget_null :: "json \<Rightarrow> string \<Rightarrow> json" where
  "jget_null v k = (case jget v k of None \<Rightarrow> JNull | Some x \<Rightarrow> x)"

fun jkeys :: "json \<Rightarrow> string list" where
  "jkeys (JObj xs) = map fst xs"
| "jkeys _ = []"

fun jlist :: "json \<Rightarrow> json list" where
  "jlist (JList xs) = xs"
| "jlist _ = []"

text \<open>Truthiness, as in \<open>if value:\<close>.\<close>

fun truthy :: "json \<Rightarrow> bool" where
  "truthy JNull = False"
| "truthy (JBool b) = b"
| "truthy (JInt i) = (i \<noteq> 0)"
| "truthy (JFloat (Fin q)) = (q \<noteq> 0)"
| "truthy (JFloat NegZero) = False"
| "truthy (JFloat (Inf _)) = True"
| "truthy (JFloat NaN) = True"
| "truthy (JStr s) = (s \<noteq> [])"
| "truthy (JList xs) = (xs \<noteq> [])"
| "truthy (JObj xs) = (xs \<noteq> [])"
| "truthy JOpaque = True"

lemma jget_in_jkeys: "k \<in> set (jkeys v) \<longleftrightarrow> jget v k \<noteq> None"
  by (cases v) (auto simp: map_of_eq_None_iff)

lemma jget_not_obj: "\<not> is_obj v \<Longrightarrow> jget v k = None"
  by (cases v) auto

lemma jget_size: "jget v k = Some x \<Longrightarrow> size x < size v"
  by (cases v) (auto dest: map_of_size)

lemma jlist_size: "x \<in> set (jlist v) \<Longrightarrow> size x < size v"
  by (cases v) (auto simp: less_Suc_eq_le intro: size_list_estimation')

section \<open>Well-formed values\<close>

text \<open>No duplicate keys in an object, and no infinity, NaN or opaque object: what \<open>normalize_json\<close> returns.\<close>

fun json_ok :: "json \<Rightarrow> bool" where
  "json_ok (JFloat (Inf _)) = False"
| "json_ok (JFloat NaN) = False"
| "json_ok JOpaque = False"
| "json_ok (JList xs) = list_all json_ok xs"
| "json_ok (JObj xs) = (distinct (map fst xs) \<and> list_all (\<lambda>(k, v). json_ok v) xs)"
| "json_ok _ = True"

lemma json_ok_jget: "json_ok v \<Longrightarrow> jget v k = Some x \<Longrightarrow> json_ok x"
  by (cases v) (auto simp: list_all_iff dest: map_of_SomeD)

lemma json_ok_map_of: "json_ok (JObj xs) \<Longrightarrow> map_of xs k = Some x \<Longrightarrow> json_ok x"
  by (auto simp: list_all_iff dest: map_of_SomeD)

lemma json_ok_list: "json_ok (JList xs) \<Longrightarrow> x \<in> set xs \<Longrightarrow> json_ok x"
  by (auto simp: list_all_iff)

section \<open>Python equality\<close>

fun num_val :: "json \<Rightarrow> rat option" where
  "num_val (JBool b) = Some (if b then 1 else 0)"
| "num_val (JInt i) = Some (of_int i)"
| "num_val (JFloat (Fin q)) = Some q"
| "num_val (JFloat NegZero) = Some 0"
| "num_val _ = None"

function py_eq :: "json \<Rightarrow> json \<Rightarrow> bool" where
  "py_eq x y =
     (case (x, y) of
        (JObj xs, JObj ys) \<Rightarrow> length xs = length ys \<and>
          list_all (\<lambda>(k, v). case map_of ys k of None \<Rightarrow> False | Some w \<Rightarrow> py_eq v w) xs
      | (JList xs, JList ys) \<Rightarrow> length xs = length ys \<and> list_all (\<lambda>(v, w). py_eq v w) (zip xs ys)
      | (JStr s, JStr t) \<Rightarrow> s = t
      | (JNull, JNull) \<Rightarrow> True
      | (JFloat (Inf a), JFloat (Inf b)) \<Rightarrow> a = b
      | _ \<Rightarrow> (case (num_val x, num_val y) of (Some a, Some b) \<Rightarrow> a = b | _ \<Rightarrow> False))"
  by pat_completeness auto
termination
  by (relation "measure (\<lambda>(x, y). size x)")
     (auto dest: in_zip_size in_alist_size simp: less_Suc_eq_le)

declare py_eq.simps [simp del]

text \<open>The cases of \<open>py_eq\<close>, one per pair of shapes.\<close>

lemma py_eq_obj:
  "py_eq (JObj xs) (JObj ys) \<longleftrightarrow>
     length xs = length ys \<and> (\<forall>(k, v) \<in> set xs. \<exists>w. map_of ys k = Some w \<and> py_eq v w)"
  by (subst py_eq.simps) (auto simp: list_all_iff split: option.splits)

lemma py_eq_list: "py_eq (JList xs) (JList ys) \<longleftrightarrow> list_all2 py_eq xs ys"
  by (subst py_eq.simps) (auto simp: list_all_iff list_all2_iff)

lemma py_eq_scalar [simp]:
  "py_eq JNull y \<longleftrightarrow> y = JNull"
  "py_eq x JNull \<longleftrightarrow> x = JNull"
  "py_eq (JStr s) y \<longleftrightarrow> y = JStr s"
  "py_eq x (JStr s) \<longleftrightarrow> x = JStr s"
  by (subst py_eq.simps; cases x; cases y; auto split: pyfloat.splits)+

lemma py_eq_shape [simp]:
  "py_eq (JObj xs) (JList us) = False" "py_eq (JList us) (JObj xs) = False"
  "py_eq (JObj xs) (JBool b) = False" "py_eq (JBool b) (JObj xs) = False"
  "py_eq (JObj xs) (JInt i) = False" "py_eq (JInt i) (JObj xs) = False"
  "py_eq (JObj xs) (JFloat q) = False" "py_eq (JFloat q) (JObj xs) = False"
  "py_eq (JList us) (JBool b) = False" "py_eq (JBool b) (JList us) = False"
  "py_eq (JList us) (JInt i) = False" "py_eq (JInt i) (JList us) = False"
  "py_eq (JList us) (JFloat q) = False" "py_eq (JFloat q) (JList us) = False"
  by (subst py_eq.simps; cases q; simp)+

text \<open>Numbers compare by value, whatever their Python type.\<close>

lemma py_eq_num:
  "num_val x = Some a \<Longrightarrow> py_eq x y \<longleftrightarrow> num_val y = Some a"
  "num_val y = Some b \<Longrightarrow> py_eq x y \<longleftrightarrow> num_val x = Some b"
  by (subst py_eq.simps; cases x rule: num_val.cases; cases y rule: num_val.cases; auto)+

section \<open>Python equality is an equivalence on well-formed values\<close>

lemma size_child_obj: "map_of xs k = Some v \<Longrightarrow> size v < size (JObj xs)"
  by (auto dest: map_of_size)

lemma size_child_list: "i < length us \<Longrightarrow> size (us ! i) < size (JList us)"
  by (auto simp: less_Suc_eq_le intro!: size_list_estimation')

lemma json_ok_nth: "json_ok (JList us) \<Longrightarrow> i < length us \<Longrightarrow> json_ok (us ! i)"
  by (simp add: list_all_length)

lemma py_eq_list_nth:
  "py_eq (JList us) (JList vs) \<longleftrightarrow>
     length us = length vs \<and> (\<forall>i < length us. py_eq (us ! i) (vs ! i))"
  by (auto simp: py_eq_list list_all2_conv_all_nth)

lemma json_ok_keys: "json_ok (JObj xs) \<Longrightarrow> distinct (map fst xs)"
  by simp

lemma same_keys_of_length:
  assumes "distinct (map fst xs)" "distinct (map fst ys)" "length xs = length ys"
    and "set (map fst xs) \<subseteq> set (map fst ys)"
  shows "set (map fst xs) = set (map fst ys)"
proof (rule card_subset_eq)
  show "card (set (map fst xs)) = card (set (map fst ys))"
    using assms(1-3) by (metis distinct_card length_map)
qed (use assms(4) in auto)

lemma py_eq_obj_map_of:
  assumes "distinct (map fst xs)" "distinct (map fst ys)"
  shows "py_eq (JObj xs) (JObj ys) \<longleftrightarrow> (\<forall>k. rel_option py_eq (map_of xs k) (map_of ys k))"
    (is "?L \<longleftrightarrow> ?R")
proof
  assume L: ?L
  then have len: "length xs = length ys"
    and ex: "\<And>k v. (k, v) \<in> set xs \<Longrightarrow> \<exists>w. map_of ys k = Some w \<and> py_eq v w"
    by (auto simp: py_eq_obj)
  have "set (map fst xs) \<subseteq> set (map fst ys)"
    using ex by (force dest: map_of_SomeD)
  then have keys: "set (map fst xs) = set (map fst ys)"
    by (rule same_keys_of_length [OF assms len])
  show ?R
  proof
    fix k
    show "rel_option py_eq (map_of xs k) (map_of ys k)"
    proof (cases "map_of xs k")
      case None
      then have "map_of ys k = None" using keys by (simp add: map_of_eq_None_iff)
      with None show ?thesis by simp
    next
      case (Some v)
      then have "(k, v) \<in> set xs" by (rule map_of_SomeD)
      with ex Some show ?thesis by fastforce
    qed
  qed
next
  assume R: ?R
  have "set (map fst xs) = set (map fst ys)"
  proof (rule set_eqI)
    fix k
    have "map_of xs k = None \<longleftrightarrow> map_of ys k = None"
      using R [rule_format, of k] by (auto simp: rel_option_iff split: option.splits)
    then show "k \<in> set (map fst xs) \<longleftrightarrow> k \<in> set (map fst ys)"
      by (auto simp: map_of_eq_None_iff)
  qed
  then have "length xs = length ys"
    using assms by (metis distinct_card length_map)
  moreover have "\<exists>w. map_of ys k = Some w \<and> py_eq v w" if "(k, v) \<in> set xs" for k v
    using R [rule_format, of k] that assms(1) by (auto simp: option_rel_Some1)
  ultimately show ?L by (auto simp: py_eq_obj)
qed

lemma py_eq_obj_ok:
  assumes "json_ok (JObj xs)" "json_ok (JObj ys)"
  shows "py_eq (JObj xs) (JObj ys) \<longleftrightarrow> (\<forall>k. rel_option py_eq (map_of xs k) (map_of ys k))"
  using assms by (intro py_eq_obj_map_of json_ok_keys)

lemma py_eq_refl [simp]: "json_ok x \<Longrightarrow> py_eq x x"
proof (induction x rule: measure_induct_rule [where f = size])
  case (less x)
  show ?case
  proof (cases x)
    case (JList us)
    then show ?thesis
      using less.IH [OF size_child_list [of _ us, folded JList]] json_ok_nth less.prems
      by (simp add: py_eq_list_nth del: json_ok.simps)
  next
    case (JObj xs)
    have "rel_option py_eq (map_of xs k) (map_of xs k)" for k
    proof (cases "map_of xs k")
      case (Some v)
      then have "py_eq v v"
        using less.IH less.prems JObj size_child_obj json_ok_map_of by blast
      with Some show ?thesis by simp
    qed simp
    then show ?thesis using less.prems JObj by (simp only: py_eq_obj_ok) blast
  next
    case (JFloat q)
    then show ?thesis using less.prems by (cases q) (auto simp: py_eq_num)
  qed (use less.prems in \<open>auto simp: py_eq_num\<close>)
qed

lemma py_eq_sym: "json_ok x \<Longrightarrow> json_ok y \<Longrightarrow> py_eq x y \<Longrightarrow> py_eq y x"
proof (induction x arbitrary: y rule: measure_induct_rule [where f = size])
  case (less x)
  show ?case
  proof (cases x)
    case (JList us)
    then obtain vs where y: "y = JList vs"
      using less.prems by (cases y) auto
    have len: "length us = length vs" and el: "\<And>i. i < length us \<Longrightarrow> py_eq (us ! i) (vs ! i)"
      using less.prems(3) by (simp_all add: JList y py_eq_list_nth)
    have "py_eq (vs ! i) (us ! i)" if "i < length vs" for i
      using less.IH [of "us ! i" "vs ! i"] size_child_list [of i us] el [of i] that len
        json_ok_nth [of us i] json_ok_nth [of vs i] less.prems(1,2) by (simp only: JList y)
    then show ?thesis using len by (simp add: JList y py_eq_list_nth)
  next
    case (JObj xs)
    then obtain ys where y: "y = JObj ys"
      using less.prems by (cases y) auto
    have "rel_option py_eq (map_of ys k) (map_of xs k)" for k
    proof -
      have "rel_option py_eq (map_of xs k) (map_of ys k)"
        using less.prems by (simp only: JObj y py_eq_obj_ok)
      then show ?thesis
      proof (cases "map_of xs k"; cases "map_of ys k")
        fix a b assume ab: "map_of xs k = Some a" "map_of ys k = Some b"
        have "py_eq b a"
          using less.IH [of a b] size_child_obj [OF ab(1)] json_ok_map_of [OF _ ab(1)]
            json_ok_map_of [OF _ ab(2)] less.prems(1,2)
            \<open>rel_option py_eq (map_of xs k) (map_of ys k)\<close> by (simp add: JObj y ab)
        then show ?thesis by (simp add: ab)
      qed auto
    qed
    then show ?thesis using less.prems(1,2) by (simp only: JObj y py_eq_obj_ok) blast
  next
    case (JFloat q)
    then show ?thesis using less.prems by (cases q) (auto simp: py_eq_num)
  qed (use less.prems in \<open>auto simp: py_eq_num\<close>)
qed

lemma py_eq_commute: "json_ok x \<Longrightarrow> json_ok y \<Longrightarrow> py_eq x y \<longleftrightarrow> py_eq y x"
  by (blast intro: py_eq_sym)

lemma py_eq_trans:
  "json_ok x \<Longrightarrow> json_ok y \<Longrightarrow> json_ok z \<Longrightarrow> py_eq x y \<Longrightarrow> py_eq y z \<Longrightarrow> py_eq x z"
proof (induction x arbitrary: y z rule: measure_induct_rule [where f = size])
  case (less x)
  show ?case
  proof (cases x)
    case (JList us)
    then obtain vs where y: "y = JList vs" using less.prems by (cases y) auto
    then obtain ws where z: "z = JList ws" using less.prems by (cases z) auto
    have len: "length us = length vs" "length vs = length ws"
      and uv: "\<And>i. i < length us \<Longrightarrow> py_eq (us ! i) (vs ! i)"
      and vw: "\<And>i. i < length vs \<Longrightarrow> py_eq (vs ! i) (ws ! i)"
      using less.prems(4,5) by (simp_all add: JList y z py_eq_list_nth)
    have "py_eq (us ! i) (ws ! i)" if i: "i < length us" for i
    proof (rule less.IH)
      show "size (us ! i) < size x" using size_child_list [OF i] by (simp only: JList)
      show "json_ok (us ! i)" "json_ok (vs ! i)" "json_ok (ws ! i)"
        using less.prems(1-3) i len by (simp_all only: JList y z json_ok_nth)
      show "py_eq (us ! i) (vs ! i)" "py_eq (vs ! i) (ws ! i)"
        using uv vw i len by simp_all
    qed
    then show ?thesis using len by (simp add: JList z py_eq_list_nth)
  next
    case (JObj xs)
    then obtain ys where y: "y = JObj ys" using less.prems by (cases y) auto
    then obtain zs where z: "z = JObj zs" using less.prems by (cases z) auto
    have "rel_option py_eq (map_of xs k) (map_of zs k)" for k
    proof -
      have xy: "rel_option py_eq (map_of xs k) (map_of ys k)"
        using less.prems(1,2,4) by (simp only: JObj y py_eq_obj_ok)
      have yz: "rel_option py_eq (map_of ys k) (map_of zs k)"
        using less.prems(2,3,5) by (simp only: y z py_eq_obj_ok)
      show ?thesis
      proof (cases "map_of xs k")
        case None
        with xy yz show ?thesis by (cases "map_of ys k"; cases "map_of zs k") auto
      next
        case (Some a)
        with xy yz obtain b c where bc: "map_of ys k = Some b" "map_of zs k = Some c"
          "py_eq a b" "py_eq b c"
          by (auto simp: option_rel_Some1)
        have "py_eq a c"
        proof (rule less.IH)
          show "size a < size x" using size_child_obj [OF Some] by (simp only: JObj)
          show "json_ok a" "json_ok b" "json_ok c"
            using json_ok_map_of [OF _ Some] json_ok_map_of [OF _ bc(1)]
              json_ok_map_of [OF _ bc(2)] less.prems(1-3) by (simp_all only: JObj y z)
        qed (rule bc)+
        then show ?thesis by (simp add: Some bc)
      qed
    qed
    then show ?thesis using less.prems(1,3) by (simp only: JObj z py_eq_obj_ok) blast
  next
    case (JFloat q)
    then show ?thesis using less.prems by (cases q) (auto simp: py_eq_num)
  qed (use less.prems in \<open>auto simp: py_eq_num\<close>)
qed

lemmas py_eq_equivalence = py_eq_refl py_eq_sym py_eq_trans

section \<open>Normalisation\<close>

text \<open>The loop of \<open>normalize_json\<close> over the items of an object.\<close>

fun norm_items ::
  "(json \<Rightarrow> py_exn + json) \<Rightarrow> (string \<Rightarrow> string) \<Rightarrow> jobj \<Rightarrow> jobj \<Rightarrow> py_exn + jobj"
where
  "norm_items f n acc [] = Inr acc"
| "norm_items f n acc ((key, item) # r) =
     (let canonical_key = n key in
      if canonical_key \<in> set (map fst acc)
      then Inl (ValueError ''revision object contains duplicate normalized keys'')
      else bindr (f item) (\<lambda>v. norm_items f n (acc @ [(canonical_key, v)]) r))"

lemma norm_items_cong [fundef_cong]:
  assumes "xs = ys" "n = n'" "acc = acc'" and "\<And>k v. (k, v) \<in> set ys \<Longrightarrow> f v = g v"
  shows "norm_items f n acc xs = norm_items g n' acc' ys"
  unfolding assms(1-3) using assms(4)
proof (induction ys arbitrary: acc')
  case (Cons y ys)
  obtain k v where y: "y = (k, v)" by fastforce
  have "f v = g v" using Cons.prems [of k v] y by simp
  moreover have "norm_items f n' a ys = norm_items g n' a ys" for a
    using Cons.prems by (intro Cons.IH) auto
  ultimately show ?case by (simp add: y Let_def)
qed simp

function normalize_json :: "hostlib \<Rightarrow> json \<Rightarrow> py_exn + json" where
  "normalize_json h v =
     (case v of
        JNull \<Rightarrow> Inr v
      | JBool _ \<Rightarrow> Inr v
      | JInt _ \<Rightarrow> Inr v
      | JFloat q \<Rightarrow>
          (case q of
             Inf _ \<Rightarrow> Inl (ValueError ''revision content cannot contain NaN or infinity'')
           | NaN \<Rightarrow> Inl (ValueError ''revision content cannot contain NaN or infinity'')
           | _ \<Rightarrow> Inr v)
      | JStr s \<Rightarrow> Inr (JStr (nfc h s))
      | JObj xs \<Rightarrow> bindr (norm_items (normalize_json h) (nfc h) [] xs) (\<lambda>ys. Inr (JObj ys))
      | JList xs \<Rightarrow> bindr (mapr (normalize_json h) xs) (\<lambda>ys. Inr (JList ys))
      | JOpaque \<Rightarrow> Inl (TypeError ''unsupported revision value: object''))"
  by pat_completeness auto
termination
  by (relation "measure (\<lambda>(h, v). size v)")
     (auto dest: in_alist_size simp: less_Suc_eq_le intro: size_list_estimation')

declare normalize_json.simps [simp del]

lemma normalize_simps [simp]:
  "normalize_json h JNull = Inr JNull"
  "normalize_json h (JBool b) = Inr (JBool b)"
  "normalize_json h (JInt i) = Inr (JInt i)"
  "normalize_json h (JFloat (Fin q)) = Inr (JFloat (Fin q))"
  "normalize_json h (JFloat NegZero) = Inr (JFloat NegZero)"
  "normalize_json h (JFloat (Inf b)) =
     Inl (ValueError ''revision content cannot contain NaN or infinity'')"
  "normalize_json h (JFloat NaN) =
     Inl (ValueError ''revision content cannot contain NaN or infinity'')"
  "normalize_json h (JStr s) = Inr (JStr (nfc h s))"
  "normalize_json h (JList vs) = bindr (mapr (normalize_json h) vs) (\<lambda>ys. Inr (JList ys))"
  "normalize_json h (JObj xs) =
     bindr (norm_items (normalize_json h) (nfc h) [] xs) (\<lambda>ys. Inr (JObj ys))"
  "normalize_json h JOpaque = Inl (TypeError ''unsupported revision value: object'')"
  by (simp_all add: normalize_json.simps)

text \<open>Values in normal form: well formed, with every string and key fixed by the normal form.\<close>

fun json_nfc :: "hostlib \<Rightarrow> json \<Rightarrow> bool" where
  "json_nfc h (JStr s) = (nfc h s = s)"
| "json_nfc h (JList xs) = list_all (json_nfc h) xs"
| "json_nfc h (JObj xs) = list_all (\<lambda>(k, v). nfc h k = k \<and> json_nfc h v) xs"
| "json_nfc h _ = True"

definition normal :: "hostlib \<Rightarrow> json \<Rightarrow> bool" where
  "normal h v \<longleftrightarrow> json_ok v \<and> json_nfc h v"

definition nfc_idem :: "hostlib \<Rightarrow> bool" where
  "nfc_idem h \<longleftrightarrow> (\<forall>s. nfc h (nfc h s) = nfc h s)"

lemma norm_items_Inr:
  assumes "norm_items f n acc xs = Inr ys"
  shows "\<exists>zs. ys = acc @ zs \<and> list_all2 (\<lambda>(k, v) (k', w). k' = n k \<and> f v = Inr w) xs zs \<and>
           (distinct (map fst acc) \<longrightarrow> distinct (map fst ys))"
  using assms
proof (induction xs arbitrary: acc)
  case (Cons x xs)
  obtain k v where x: "x = (k, v)" by fastforce
  from Cons.prems x obtain w where w: "f v = Inr w" "n k \<notin> set (map fst acc)"
    and rest: "norm_items f n (acc @ [(n k, w)]) xs = Inr ys"
    by (auto simp: Let_def bindr_eq_Inr split: if_splits)
  from Cons.IH [OF rest] w show ?case by (fastforce simp: x)
qed simp

lemma norm_items_fix:
  assumes "distinct (map fst (acc @ xs))"
    and "\<And>k v. (k, v) \<in> set xs \<Longrightarrow> n k = k \<and> f v = Inr v"
  shows "norm_items f n acc xs = Inr (acc @ xs)"
  using assms
proof (induction xs arbitrary: acc)
  case (Cons x xs)
  obtain k v where x: "x = (k, v)" by fastforce
  have "norm_items f n (acc @ [(k, v)]) xs = Inr ((acc @ [(k, v)]) @ xs)"
    by (rule Cons.IH) (use Cons.prems x in auto)
  moreover have "n k = k" "f v = Inr v" using Cons.prems(2) x by auto
  ultimately show ?case using Cons.prems(1) by (auto simp: x Let_def)
qed simp

lemma normalize_json_ok: "normalize_json h v = Inr w \<Longrightarrow> json_ok w"
proof (induction v arbitrary: w rule: measure_induct_rule [where f = size])
  case (less v)
  show ?case
  proof (cases v)
    case (JList us)
    then obtain ws where w: "w = JList ws" and m: "mapr (normalize_json h) us = Inr ws"
      using less.prems by (auto simp: bindr_eq_Inr)
    have "json_ok (ws ! i)" if "i < length ws" for i
      using less.IH [of "us ! i" "ws ! i"] mapr_Inr_nth [OF m, of i] mapr_Inr_length [OF m] that
        size_child_list [of i us] by (simp only: JList)
    then show ?thesis by (simp add: w list_all_length)
  next
    case (JObj xs)
    then obtain ys where w: "w = JObj ys"
      and m: "norm_items (normalize_json h) (nfc h) [] xs = Inr ys"
      using less.prems by (auto simp: bindr_eq_Inr)
    from norm_items_Inr [OF m]
    have all2: "list_all2 (\<lambda>(k, v) (k', w). k' = nfc h k \<and> normalize_json h v = Inr w) xs ys"
      and dist: "distinct (map fst ys)" by auto
    have "json_ok b" if ab: "(a, b) \<in> set ys" for a b
    proof -
      obtain i where i: "i < length ys" "ys ! i = (a, b)" using ab by (auto simp: in_set_conv_nth)
      then obtain k c where kc: "xs ! i = (k, c)" by fastforce
      have c: "normalize_json h c = Inr b" and len: "i < length xs"
        using all2 i kc by (auto simp: list_all2_conv_all_nth)
      have "(k, c) \<in> set xs" using kc len by (metis nth_mem)
      then have "size c < size v" by (auto dest: in_alist_size simp: JObj less_Suc_eq_le)
      then show ?thesis using less.IH c by blast
    qed
    then show ?thesis using dist by (auto simp: w list_all_iff)
  next
    case (JFloat q)
    then show ?thesis using less.prems by (cases q) auto
  qed (use less.prems in auto)
qed

lemma normalize_json_nfc: "nfc_idem h \<Longrightarrow> normalize_json h v = Inr w \<Longrightarrow> json_nfc h w"
proof (induction v arbitrary: w rule: measure_induct_rule [where f = size])
  case (less v)
  show ?case
  proof (cases v)
    case (JList us)
    then obtain ws where w: "w = JList ws" and m: "mapr (normalize_json h) us = Inr ws"
      using less.prems by (auto simp: bindr_eq_Inr)
    have "json_nfc h (ws ! i)" if "i < length ws" for i
      using less.IH [of "us ! i" "ws ! i"] mapr_Inr_nth [OF m, of i] mapr_Inr_length [OF m] that
        size_child_list [of i us] less.prems(1) by (simp only: JList)
    then show ?thesis by (simp add: w list_all_length)
  next
    case (JObj xs)
    then obtain ys where w: "w = JObj ys"
      and m: "norm_items (normalize_json h) (nfc h) [] xs = Inr ys"
      using less.prems by (auto simp: bindr_eq_Inr)
    from norm_items_Inr [OF m]
    have all2: "list_all2 (\<lambda>(k, v) (k', w). k' = nfc h k \<and> normalize_json h v = Inr w) xs ys"
      by auto
    have "nfc h a = a \<and> json_nfc h b" if ab: "(a, b) \<in> set ys" for a b
    proof -
      obtain i where i: "i < length ys" "ys ! i = (a, b)" using ab by (auto simp: in_set_conv_nth)
      then obtain k c where kc: "xs ! i = (k, c)" by fastforce
      have c: "normalize_json h c = Inr b" and a: "a = nfc h k" and len: "i < length xs"
        using all2 i kc by (auto simp: list_all2_conv_all_nth)
      have "(k, c) \<in> set xs" using kc len by (metis nth_mem)
      then have "size c < size v" by (auto dest: in_alist_size simp: JObj less_Suc_eq_le)
      then show ?thesis using less.IH c a less.prems(1) by (auto simp: nfc_idem_def)
    qed
    then show ?thesis by (auto simp: w list_all_iff)
  next
    case (JFloat q)
    then show ?thesis using less.prems by (cases q) auto
  qed (use less.prems in \<open>auto simp: nfc_idem_def\<close>)
qed

lemma normalize_json_fix: "normal h v \<Longrightarrow> normalize_json h v = Inr v"
proof (induction v rule: measure_induct_rule [where f = size])
  case (less v)
  show ?case
  proof (cases v)
    case (JList us)
    have "mapr (normalize_json h) us = Inr us"
      unfolding mapr_Inr_iff list_all2_conv_all_nth
      using less JList size_child_list [of _ us]
      by (auto simp: normal_def list_all_length)
    then show ?thesis by (simp add: JList)
  next
    case (JObj xs)
    have "normalize_json h b = Inr b" if "(a, b) \<in> set xs" for a b
      using less.IH [of b] less.prems that in_alist_size [OF that]
      by (auto simp: JObj normal_def list_all_iff less_Suc_eq_le)
    then have "norm_items (normalize_json h) (nfc h) [] xs = Inr ([] @ xs)"
      by (intro norm_items_fix) (use less.prems JObj in \<open>auto simp: normal_def list_all_iff\<close>)
    then show ?thesis by (simp add: JObj)
  next
    case (JFloat q)
    then show ?thesis using less.prems by (cases q) (auto simp: normal_def)
  qed (use less.prems in \<open>auto simp: normal_def\<close>)
qed

lemma normalize_normal: "nfc_idem h \<Longrightarrow> normalize_json h v = Inr w \<Longrightarrow> normal h w"
  by (simp add: normal_def normalize_json_ok normalize_json_nfc)

text \<open>A normalisable value is well formed.\<close>

lemma normalize_source_ok: "normalize_json h v = Inr w \<Longrightarrow> json_ok v"
proof (induction v arbitrary: w rule: measure_induct_rule [where f = size])
  case (less v)
  show ?case
  proof (cases v)
    case (JList us)
    then obtain ws where m: "mapr (normalize_json h) us = Inr ws"
      using less.prems by (auto simp: bindr_eq_Inr)
    have "json_ok (us ! i)" if "i < length us" for i
      using less.IH [of "us ! i"] mapr_Inr_nth [OF m that] size_child_list [OF that] JList by blast
    then show ?thesis by (simp add: JList list_all_length)
  next
    case (JObj xs)
    then obtain ys where m: "norm_items (normalize_json h) (nfc h) [] xs = Inr ys"
      using less.prems by (auto simp: bindr_eq_Inr)
    from norm_items_Inr [OF m]
    have all2: "list_all2 (\<lambda>(k, v) (k', w). k' = nfc h k \<and> normalize_json h v = Inr w) xs ys"
      and dist: "distinct (map fst ys)" by auto
    have "map fst ys = map (\<lambda>(k, v). nfc h k) xs"
      using all2 by (induction xs ys rule: list_all2_induct) auto
    then have "distinct (map (nfc h) (map fst xs))" using dist by (simp add: case_prod_unfold comp_def)
    then have "distinct (map fst xs)" by (auto simp: distinct_map inj_on_def)
    moreover have "json_ok b" if ab: "(a, b) \<in> set xs" for a b
    proof -
      obtain i where i: "i < length xs" "xs ! i = (a, b)" using ab by (auto simp: in_set_conv_nth)
      then have "\<exists>c. normalize_json h b = Inr c"
        using all2 by (fastforce simp: list_all2_conv_all_nth)
      moreover have "size b < size v" using ab by (auto dest: in_alist_size simp: JObj less_Suc_eq_le)
      ultimately show ?thesis using less.IH by blast
    qed
    ultimately show ?thesis by (auto simp: JObj list_all_iff)
  next
    case (JFloat q)
    then show ?thesis using less.prems by (cases q) auto
  qed (use less.prems in auto)
qed

lemma normalize_idem:
  "nfc_idem h \<Longrightarrow> normalize_json h v = Inr w \<Longrightarrow> normalize_json h w = Inr w"
  by (intro normalize_json_fix normalize_normal)

section \<open>Canonical serialisation\<close>

text \<open>\<open>json.dumps(value, ensure_ascii=False, sort_keys=True, separators=(",", ":"))\<close>, called on normalised
  values only: the opaque objects, which it cannot serialise, do not reach it.\<close>

definition hex_of_bits :: "bool \<Rightarrow> bool \<Rightarrow> bool \<Rightarrow> bool \<Rightarrow> char" where
  "hex_of_bits d c b a =
     (if d then if c then if b then if a then CHR ''f'' else CHR ''e'' else if a then CHR ''d'' else CHR ''c''
        else if b then if a then CHR ''b'' else CHR ''a'' else if a then CHR ''9'' else CHR ''8''
      else if c then if b then if a then CHR ''7'' else CHR ''6'' else if a then CHR ''5'' else CHR ''4''
        else if b then if a then CHR ''3'' else CHR ''2'' else if a then CHR ''1'' else CHR ''0'')"

definition json_escape_char :: "char \<Rightarrow> string" where
  "json_escape_char c =
     (if c = CHR 0x22 then [CHR 0x5C, CHR 0x22]
      else if c = CHR 0x5C then [CHR 0x5C, CHR 0x5C]
      else if c = CHR 0x0A then [CHR 0x5C, CHR ''n'']
      else if c = CHR 0x0D then [CHR 0x5C, CHR ''r'']
      else if c = CHR 0x09 then [CHR 0x5C, CHR ''t'']
      else if c = CHR 0x0C then [CHR 0x5C, CHR ''f'']
      else if c = CHR 0x08 then [CHR 0x5C, CHR ''b'']
      else if \<not> digit7 c \<and> \<not> digit6 c \<and> \<not> digit5 c
      then CHR 0x5C # ''u00'' @
        [hex_of_bits False False False (digit4 c),
         hex_of_bits (digit3 c) (digit2 c) (digit1 c) (digit0 c)]
      else [c])"

definition json_quote :: "string \<Rightarrow> string" where
  "json_quote s = CHR 0x22 # concat (map json_escape_char s) @ [CHR 0x22]"

fun str_join :: "string \<Rightarrow> string list \<Rightarrow> string" where
  "str_join sep [] = []"
| "str_join sep [x] = x"
| "str_join sep (x # y # r) = x @ sep @ str_join sep (y # r)"

function json_dumps :: "hostlib \<Rightarrow> json \<Rightarrow> string" where
  "json_dumps h v =
     (case v of
        JNull \<Rightarrow> ''null''
      | JBool b \<Rightarrow> (if b then ''true'' else ''false'')
      | JInt i \<Rightarrow> str_of_int i
      | JFloat q \<Rightarrow> float_repr h q
      | JStr s \<Rightarrow> json_quote s
      | JList xs \<Rightarrow> ''['' @ str_join '','' (map (json_dumps h) xs) @ '']''
      | JObj xs \<Rightarrow>
          CHR 0x7B # str_join '',''
            (map (\<lambda>(k, x). json_quote k @ '':'' @ json_dumps h x) (sort_key fst xs)) @ [CHR 0x7D]
      | JOpaque \<Rightarrow> [])"
  by pat_completeness auto
termination
  by (relation "measure (\<lambda>(h, v). size v)")
     (auto dest: in_alist_size simp: less_Suc_eq_le intro: size_list_estimation')

declare json_dumps.simps [simp del]

definition canonical_json_bytes :: "hostlib \<Rightarrow> json \<Rightarrow> py_exn + string" where
  "canonical_json_bytes h v = bindr (normalize_json h v) (\<lambda>w. Inr (json_dumps h w))"

lemma canonical_json_bytes_normal:
  "normal h v \<Longrightarrow> canonical_json_bytes h v = Inr (json_dumps h v)"
  by (simp add: canonical_json_bytes_def normalize_json_fix)

section \<open>A host library for concrete runs\<close>

text \<open>
  Concrete inputs below use ASCII strings, which their normal form leaves alone, and a digest that
  only has to be some function of its input.
\<close>

definition ascii_nfc :: "string \<Rightarrow> string" where
  "ascii_nfc s = s"

definition nibble :: "char \<Rightarrow> bool list" where
  "nibble c = [digit0 c, digit1 c \<noteq> digit6 c, digit2 c \<noteq> digit5 c, digit3 c \<noteq> digit4 c]"

fun nibble_hex :: "bool list \<Rightarrow> char" where
  "nibble_hex [a, b, c, d] = hex_of_bits d c b a"
| "nibble_hex _ = CHR ''0''"

fun mix :: "bool list list \<Rightarrow> string \<Rightarrow> bool list list" where
  "mix st [] = st"
| "mix [] (c # s) = []"
| "mix (x # st) (c # s) = mix (st @ [map2 (\<noteq>) x (nibble c)]) s"

definition ascii_digest :: "string \<Rightarrow> string" where
  "ascii_digest s =
     (let z = [False, False, False, False]; d = map nibble_hex (mix [z, z, z, z, z, z, z, z] s)
      in d @ d @ d @ d @ d @ d @ d @ d)"

definition ascii_float :: "pyfloat \<Rightarrow> string" where
  "ascii_float q = ''0.5''"

definition host_ascii :: hostlib where
  "host_ascii = \<lparr>nfc = ascii_nfc, sha256_hex = ascii_digest, float_repr = ascii_float\<rparr>"

lemma host_ascii_idem: "nfc_idem host_ascii"
  by (simp add: nfc_idem_def host_ascii_def ascii_nfc_def)

end
