(* ===== verification/RevisionDiff.thy ===== *)
theory RevisionDiff
  imports PyJson
begin

text \<open>
  The JSON document adapter of the revision kernel
  (\<open>backend/capability_v2/revision/diff.py\<close>): the structural difference of two documents as a
  list of \<open>change\<close> records, and the replay of such a list. Objects are compared key by key in
  sorted order; arrays whose items all carry distinct identities are compared by identity, with
  additions, removals and moves; everything else is replaced.

  The replay mutates a private deep copy of the document through references found by walking the
  path of each change; here a walk rebuilds the document around the edited node.
\<close>

section \<open>Changes\<close>

record change =
  change_type :: string
  ch_path :: string
  ch_before :: json
  ch_after :: json
  ch_identity :: "string option"
  from_index :: "nat option"
  to_index :: "nat option"
  resource_ref :: json
  breaking :: bool

definition change0 :: "string \<Rightarrow> string \<Rightarrow> change" where
  "change0 t p = \<lparr>change_type = t, ch_path = p, ch_before = JNull, ch_after = JNull,
     ch_identity = None, from_index = None, to_index = None, resource_ref = JNull,
     breaking = False\<rparr>"

text \<open>
  The field validators of \<open>Change\<close>: the two patterns and the length of the identity. The dot of
  the path pattern does not match a line feed.
\<close>

definition change_valid :: "change \<Rightarrow> bool" where
  "change_valid c \<longleftrightarrow>
     match_ident is_lower (\<lambda>x. is_lower x \<or> is_digit x \<or> x \<in> set ''_.-'') 1 63 (change_type c) \<and>
     (\<exists>r. ch_path c = CHR ''/'' # r \<and> CHR 0x0A \<notin> set r) \<and>
     (case ch_identity c of None \<Rightarrow> True | Some i \<Rightarrow> py_len i \<le> 256)"

lemma change_valid_code [code]:
  "change_valid c \<longleftrightarrow>
     match_ident is_lower (\<lambda>x. is_lower x \<or> is_digit x \<or> x \<in> set ''_.-'') 1 63 (change_type c) \<and>
     (case ch_path c of [] \<Rightarrow> False | x # r \<Rightarrow> x = CHR ''/'' \<and> CHR 0x0A \<notin> set r) \<and>
     (case ch_identity c of None \<Rightarrow> True | Some i \<Rightarrow> py_len i \<le> 256)"
  by (auto simp: change_valid_def split: list.splits)

definition mk_change :: "change \<Rightarrow> py_exn + change list" where
  "mk_change c = (if change_valid c then Inr [c] else Inl (ValueError ''change validation''))"

lemma mk_change_Inr [simp]: "mk_change c = Inr cs \<longleftrightarrow> change_valid c \<and> cs = [c]"
  by (auto simp: mk_change_def)

section \<open>Paths\<close>

definition escape :: "string \<Rightarrow> string" where
  "escape value = str_replace1 CHR ''/'' ''~1'' (str_replace1 CHR ''~'' ''~0'' value)"

definition unescape :: "string \<Rightarrow> string" where
  "unescape item = str_replace2 CHR ''~'' CHR ''0'' ''~'' (str_replace2 CHR ''~'' CHR ''1'' ''/'' item)"

definition segments :: "string \<Rightarrow> string list" where
  "segments path =
     (if path = ''/'' then [] else map unescape (str_split CHR ''/'' (drop 1 path)))"

text \<open>The path string built by descending through the given segments.\<close>

definition path_of :: "string list \<Rightarrow> string" where
  "path_of segs = concat (map (\<lambda>s. CHR ''/'' # escape s) segs)"

section \<open>Identities of array items\<close>

definition identity_fields :: "string list" where
  "identity_fields = [''stable_gid'', ''gid'', ''id'', ''key'']"

fun first_identity :: "string list \<Rightarrow> json \<Rightarrow> string option" where
  "first_identity [] item = None"
| "first_identity (field # rest) item =
     (case jget item field of
        Some (JStr value) \<Rightarrow> if value \<noteq> [] then Some value else first_identity rest item
      | _ \<Rightarrow> first_identity rest item)"

definition identity_of :: "json \<Rightarrow> string option" where
  "identity_of item = (if is_obj item then first_identity identity_fields item else None)"

text \<open>
  The identities of an array when all its items have one and no two are equal, as tested before
  an array is compared by identity.
\<close>

definition identity_keys :: "json list \<Rightarrow> string list option" where
  "identity_keys items =
     (let ids = map identity_of items in
      if None \<notin> set ids \<and> distinct ids then Some (map the ids) else None)"

section \<open>Structural difference\<close>

definition concat_r :: "('a \<Rightarrow> 'e + 'b list) \<Rightarrow> 'a list \<Rightarrow> 'e + 'b list" where
  "concat_r f xs = bindr (mapr f xs) (\<lambda>ys. Inr (concat ys))"

lemma concat_r_simps [simp]:
  "concat_r f [] = Inr []"
  "concat_r f (x # xs) = bindr (f x) (\<lambda>y. bindr (concat_r f xs) (\<lambda>ys. Inr (y @ ys)))"
  by (auto simp: concat_r_def bindr_def split: sum.splits)

lemma concat_r_cong [fundef_cong]:
  assumes "xs = ys" and "\<And>x. x \<in> set ys \<Longrightarrow> f x = g x"
  shows "concat_r f xs = concat_r g ys"
  using mapr_cong [OF assms] by (simp add: concat_r_def)

definition old_by_id :: "string list \<Rightarrow> json list \<Rightarrow> string \<Rightarrow> json option" where
  "old_by_id ids items = map_of (zip ids items)"

lemma old_by_id_size: "old_by_id ids (jlist v) i = Some x \<Longrightarrow> size x < size v"
  by (auto simp: old_by_id_def dest!: map_of_SomeD set_zip_rightD intro: jlist_size)

definition replace_change :: "json \<Rightarrow> json \<Rightarrow> string \<Rightarrow> change" where
  "replace_change old new path =
     (change0 ''replace'' (if path = [] then ''/'' else path))\<lparr>ch_before := old, ch_after := new\<rparr>"

definition add_item :: "string \<Rightarrow> json \<Rightarrow> string \<Rightarrow> nat \<Rightarrow> change" where
  "add_item path v i n =
     (change0 ''add'' path)\<lparr>ch_after := v, ch_identity := Some i, to_index := Some n\<rparr>"

definition remove_item :: "string \<Rightarrow> json \<Rightarrow> string \<Rightarrow> nat \<Rightarrow> change" where
  "remove_item path u i n =
     (change0 ''remove'' path)\<lparr>ch_before := u, ch_identity := Some i, from_index := Some n\<rparr>"

definition move_item :: "string \<Rightarrow> string \<Rightarrow> nat \<Rightarrow> nat \<Rightarrow> change" where
  "move_item path i n m =
     (change0 ''move'' path)\<lparr>ch_identity := Some i, from_index := Some n, to_index := Some m\<rparr>"

function diff_json :: "json \<Rightarrow> json \<Rightarrow> string \<Rightarrow> py_exn + change list" where
  "diff_json old new path =
     (if py_eq old new then Inr []
      else if is_obj old \<and> is_obj new then
        concat_r (\<lambda>key. let child = path @ ''/'' @ escape key in
          (case jget old key of
             None \<Rightarrow>
               (case jget new key of
                  None \<Rightarrow> Inr []
                | Some v \<Rightarrow> mk_change ((change0 ''add'' child)\<lparr>ch_after := v\<rparr>))
           | Some u \<Rightarrow>
               (case jget new key of
                  None \<Rightarrow> mk_change ((change0 ''remove'' child)\<lparr>ch_before := u\<rparr>)
                | Some v \<Rightarrow> diff_json u v child)))
          (sorted_strs (jkeys old @ jkeys new))
      else if is_list old \<and> is_list new
        \<and> identity_keys (jlist old) \<noteq> None \<and> identity_keys (jlist new) \<noteq> None then
        (let old_ids = the (identity_keys (jlist old)); new_ids = the (identity_keys (jlist new)) in
         concat_r (\<lambda>i.
           (case old_by_id old_ids (jlist old) i of
              None \<Rightarrow>
                (case old_by_id new_ids (jlist new) i of
                   None \<Rightarrow> Inr []
                 | Some v \<Rightarrow> mk_change (add_item path v i (index_of i new_ids)))
            | Some u \<Rightarrow>
                (case old_by_id new_ids (jlist new) i of
                   None \<Rightarrow> mk_change (remove_item path u i (index_of i old_ids))
                 | Some v \<Rightarrow>
                     bindr (if index_of i old_ids = index_of i new_ids then Inr []
                            else mk_change (move_item path i (index_of i old_ids) (index_of i new_ids)))
                       (\<lambda>moves. bindr (diff_json u v (path @ ''/'' @ escape i))
                         (\<lambda>cs. Inr (moves @ cs))))))
           (sorted_strs (old_ids @ new_ids)))
      else mk_change (replace_change old new path))"
  by pat_completeness auto
termination
  by (relation "measure (\<lambda>(x, y, p). size x)")
     (auto dest: jget_size old_by_id_size jget_size [OF sym] old_by_id_size [OF sym])

declare diff_json.simps [simp del]

section \<open>Replay of changes\<close>

fun find_identity :: "string \<Rightarrow> json list \<Rightarrow> nat option" where
  "find_identity i [] = None"
| "find_identity i (item # items) =
     (if identity_of item = Some i then Some 0 else map_option Suc (find_identity i items))"

text \<open>
  \<open>target\<close> and the parent walk, with the edit \<open>f\<close> applied to the node that is reached. Each step
  is \<open>child\<close>: a key of an object (a missing one raises \<open>KeyError\<close>), the first item of an array with
  the given identity, and an error below a scalar.
\<close>

fun nav_update :: "string list \<Rightarrow> (json \<Rightarrow> py_exn + json) \<Rightarrow> json \<Rightarrow> py_exn + json" where
  "nav_update [] f doc = f doc"
| "nav_update (segment # segs) f (JObj xs) =
     (case map_of xs segment of
        None \<Rightarrow> Inl (KeyError segment)
      | Some v \<Rightarrow> bindr (nav_update segs f v) (\<lambda>w. Inr (JObj (AList.update segment w xs))))"
| "nav_update (segment # segs) f (JList items) =
     (case find_identity segment items of
        None \<Rightarrow> Inl (ValueError ''changeset path identity not found'')
      | Some i \<Rightarrow> bindr (nav_update segs f (items ! i)) (\<lambda>w. Inr (JList (items[i := w]))))"
| "nav_update (segment # segs) f _ = Inl (ValueError ''changeset path traverses a scalar'')"

text \<open>A change with an identity edits the array at its path.\<close>

fun collection_op :: "change \<Rightarrow> string \<Rightarrow> json \<Rightarrow> py_exn + json" where
  "collection_op c i (JList items) =
     (let current_index = find_identity i items in
      if change_type c = ''add'' then
        (if current_index \<noteq> None then Inl (ValueError ''changeset adds an existing identity'')
         else Inr (JList (list_insert
           (case to_index c of Some n \<Rightarrow> n | None \<Rightarrow> length items) (ch_after c) items)))
      else if change_type c = ''remove'' then
        (case current_index of
           None \<Rightarrow> Inl (ValueError ''changeset removes a missing identity'')
         | Some n \<Rightarrow> Inr (JList (list_pop n items)))
      else if change_type c = ''move'' then
        (case (current_index, to_index c) of
           (Some n, Some m) \<Rightarrow> Inr (JList (list_insert m (items ! n) (list_pop n items)))
         | _ \<Rightarrow> Inl (ValueError ''changeset moves a missing identity''))
      else Inl (ValueError ''identity array changes support add, remove and move''))"
| "collection_op c i _ = Inl (ValueError ''identity change target must be an array'')"

text \<open>A change without identity edits one field of the object that contains its last segment.\<close>

fun field_op :: "change \<Rightarrow> string \<Rightarrow> json \<Rightarrow> py_exn + json" where
  "field_op c key (JObj xs) =
     (if change_type c = ''add'' then
        (if key \<in> set (map fst xs) then Inl (ValueError ''changeset adds an existing field'')
         else Inr (JObj (AList.update key (ch_after c) xs)))
      else if change_type c = ''remove'' then
        (if key \<notin> set (map fst xs) then Inl (ValueError ''changeset removes a missing field'')
         else Inr (JObj (AList.delete key xs)))
      else if change_type c = ''replace'' then
        (if key \<notin> set (map fst xs) then Inl (ValueError ''changeset replaces a missing field'')
         else Inr (JObj (AList.update key (ch_after c) xs)))
      else Inl (ValueError ''field changes do not support move''))"
| "field_op c key _ = Inl (ValueError ''field change parent must be an object'')"

definition root_op :: "change \<Rightarrow> json \<Rightarrow> py_exn + json" where
  "root_op c doc =
     (if change_type c \<noteq> ''replace'' \<or> \<not> is_obj (ch_after c)
      then Inl (ValueError ''revision root supports only object replacement'')
      else Inr (ch_after c))"

definition apply_change :: "json \<Rightarrow> change \<Rightarrow> py_exn + json" where
  "apply_change doc c =
     (let segs = segments (ch_path c) in
      case ch_identity c of
        Some i \<Rightarrow> nav_update segs (collection_op c i) doc
      | None \<Rightarrow>
          if segs = [] then root_op c doc
          else nav_update (butlast segs) (field_op c (last segs)) doc)"

fun apply_changes :: "json \<Rightarrow> change list \<Rightarrow> py_exn + json" where
  "apply_changes doc [] = Inr doc"
| "apply_changes doc (c # cs) = bindr (apply_change doc c) (\<lambda>d. apply_changes d cs)"

section \<open>The adapter interface\<close>

definition doc_normalize :: "hostlib \<Rightarrow> json \<Rightarrow> py_exn + json" where
  "doc_normalize h content =
     (if is_obj content then normalize_json h content
      else Inl (TypeError ''revision root must be an object''))"

definition doc_diff :: "hostlib \<Rightarrow> json \<Rightarrow> json \<Rightarrow> py_exn + change list" where
  "doc_diff h old new =
     bindr (doc_normalize h old) (\<lambda>b. bindr (doc_normalize h new) (\<lambda>a. diff_json b a []))"

definition doc_validate :: "hostlib \<Rightarrow> json \<Rightarrow> json \<Rightarrow> py_exn + unit" where
  "doc_validate h old new =
     bindr (doc_normalize h old) (\<lambda>_. bindr (doc_normalize h new) (\<lambda>_. Inr ()))"

definition doc_apply :: "hostlib \<Rightarrow> json \<Rightarrow> change list \<Rightarrow> py_exn + json" where
  "doc_apply h old changes =
     bindr (doc_normalize h old)
       (\<lambda>d. bindr (apply_changes d changes) (\<lambda>d'. doc_normalize h d'))"

definition doc_classify :: "string \<Rightarrow> json \<Rightarrow> json \<Rightarrow> json \<Rightarrow> string" where
  "doc_classify path base ours theirs =
     (if is_list base \<or> is_list ours \<or> is_list theirs then ''collection''
      else if is_obj base \<or> is_obj ours \<or> is_obj theirs then ''object''
      else ''field'')"

end
