(* ===== verification/RevisionMerge.thy ===== *)
theory RevisionMerge
  imports RevisionDiff
begin

text \<open>
  The three-way merge of revision documents
  (\<open>backend/capability_v2/revision/merge.py\<close>) and the adapter protocol it is called through.

  The sentinel \<open>_MISSING\<close> is \<^const>\<open>None\<close> here. \<open>deepcopy\<close> of that sentinel is not the sentinel but
  a new \<open>object()\<close>, so a value that is absent on the side whose change wins comes back as
  \<^const>\<open>JOpaque\<close>, which is not recognised as missing and stays in the merged document.
\<close>

section \<open>Adapters and conflicts\<close>

record adapter =
  ad_normalize :: "json \<Rightarrow> py_exn + json"
  ad_diff :: "json \<Rightarrow> json \<Rightarrow> py_exn + change list"
  ad_validate :: "json \<Rightarrow> json \<Rightarrow> py_exn + unit"
  ad_apply :: "json \<Rightarrow> change list \<Rightarrow> py_exn + json"
  ad_classify :: "string \<Rightarrow> json \<Rightarrow> json \<Rightarrow> json \<Rightarrow> string"

definition json_document_adapter :: "hostlib \<Rightarrow> adapter" where
  "json_document_adapter h =
     \<lparr>ad_normalize = doc_normalize h, ad_diff = doc_diff h, ad_validate = doc_validate h,
      ad_apply = doc_apply h, ad_classify = doc_classify\<rparr>"

record conflict =
  cf_path :: string
  cf_kind :: string
  cf_base :: json
  cf_ours :: json
  cf_theirs :: json

definition conflict_valid :: "conflict \<Rightarrow> bool" where
  "conflict_valid c \<longleftrightarrow>
     (case cf_path c of [] \<Rightarrow> False | x # r \<Rightarrow> x = CHR ''/'' \<and> CHR 0x0A \<notin> set r) \<and>
     1 \<le> py_len (cf_kind c) \<and> py_len (cf_kind c) \<le> 64"

definition mk_conflict :: "conflict \<Rightarrow> py_exn + conflict list" where
  "mk_conflict c =
     (if conflict_valid c then Inr [c] else Inl (ValueError ''conflict validation''))"

section \<open>The merge\<close>

definition public_value :: "json option \<Rightarrow> json" where
  "public_value v = (case v of None \<Rightarrow> JNull | Some x \<Rightarrow> x)"

definition deep_copy :: "json option \<Rightarrow> json option" where
  "deep_copy v = (case v of None \<Rightarrow> Some JOpaque | Some x \<Rightarrow> Some x)"

text \<open>Python's \<open>==\<close> where either side may be the sentinel.\<close>

definition opt_eq :: "json option \<Rightarrow> json option \<Rightarrow> bool" where
  "opt_eq x y =
     (case x of None \<Rightarrow> y = None
      | Some a \<Rightarrow> (case y of None \<Rightarrow> False | Some b \<Rightarrow> py_eq a b))"

lemma opt_eq_simps [simp]:
  "opt_eq None y \<longleftrightarrow> y = None"
  "opt_eq x None \<longleftrightarrow> x = None"
  "opt_eq (Some a) (Some b) \<longleftrightarrow> py_eq a b"
  by (auto simp: opt_eq_def split: option.splits)

definition mapping_or_missing :: "json option \<Rightarrow> bool" where
  "mapping_or_missing v = (case v of None \<Rightarrow> True | Some x \<Rightarrow> is_obj x)"

definition oget :: "json option \<Rightarrow> string \<Rightarrow> json option" where
  "oget v key = (case v of None \<Rightarrow> None | Some x \<Rightarrow> jget x key)"

definition okeys :: "json option \<Rightarrow> string list" where
  "okeys v = (case v of None \<Rightarrow> [] | Some x \<Rightarrow> jkeys x)"

definition osize :: "json option \<Rightarrow> nat" where
  "osize v = (case v of None \<Rightarrow> 0 | Some x \<Rightarrow> Suc (size x))"

lemma oget_osize: "osize (oget v key) \<le> osize v"
  by (auto simp: osize_def oget_def dest: jget_size split: option.splits)

lemma oget_osize_less: "v \<noteq> None \<Longrightarrow> osize (oget v key) < osize v"
  by (auto simp: osize_def oget_def dest: jget_size split: option.splits)

text \<open>The merged dictionary: the keys whose merged value is not the sentinel.\<close>

definition merged_items :: "(string \<times> json option \<times> conflict list) list \<Rightarrow> jobj" where
  "merged_items rs = [(k, v). (k, Some v, cs) \<leftarrow> rs]"

definition merged_conflicts :: "(string \<times> json option \<times> conflict list) list \<Rightarrow> conflict list" where
  "merged_conflicts rs = concat (map (\<lambda>(k, v, cs). cs) rs)"

function merge_value ::
  "adapter \<Rightarrow> json option \<Rightarrow> json option \<Rightarrow> json option \<Rightarrow> string \<Rightarrow>
   py_exn + json option \<times> conflict list"
where
  "merge_value ad b our their path =
     (if opt_eq our their then Inr (deep_copy our, [])
      else if opt_eq our b then Inr (deep_copy their, [])
      else if opt_eq their b then Inr (deep_copy our, [])
      else if mapping_or_missing b \<and> mapping_or_missing our \<and> mapping_or_missing their then
        bindr
          (mapr (\<lambda>key. bindr
               (merge_value ad (oget b key) (oget our key) (oget their key)
                  (path @ ''/'' @ escape key))
               (\<lambda>r. Inr (key, r)))
             (sorted_strs (okeys b @ okeys our @ okeys their)))
          (\<lambda>rs. Inr (Some (JObj (merged_items rs)), merged_conflicts rs))
      else
        (let p = (if path = [] then ''/'' else path) in
         bindr
           (mk_conflict
             \<lparr>cf_path = p,
              cf_kind = ad_classify ad p (public_value b) (public_value our) (public_value their),
              cf_base = public_value b, cf_ours = public_value our,
              cf_theirs = public_value their\<rparr>)
           (\<lambda>cs. Inr (deep_copy our, cs))))"
  by pat_completeness auto
termination
proof (relation "measure (\<lambda>(ad, b, our, their, p). osize b + osize our + osize their)",
       goal_cases)
  case (2 ad b our their path key)
  have "our \<noteq> None \<or> their \<noteq> None" using 2(1) by (cases our; cases their) auto
  then show ?case
    using oget_osize [of b key] oget_osize [of our key] oget_osize [of their key]
      oget_osize_less [of our key] oget_osize_less [of their key]
    by (auto simp: add_le_less_mono add_less_le_mono)
qed simp

declare merge_value.simps [simp del]

definition three_way_merge ::
  "adapter \<Rightarrow> json \<Rightarrow> json \<Rightarrow> json \<Rightarrow> py_exn + json option \<times> conflict list"
where
  "three_way_merge ad base ours theirs =
     bindr (ad_normalize ad base) (\<lambda>b. bindr (ad_normalize ad ours) (\<lambda>our.
       bindr (ad_normalize ad theirs) (\<lambda>their.
         bindr (merge_value ad (Some b) (Some our) (Some their) [])
           (\<lambda>(merged, cs). Inr (if cs \<noteq> [] then None else merged, cs)))))"

section \<open>Values at a path\<close>

fun look :: "string list \<Rightarrow> json \<Rightarrow> json option" where
  "look [] v = Some v"
| "look (k # ks) v = (case jget v k of None \<Rightarrow> None | Some w \<Rightarrow> look ks w)"

definition olook :: "string list \<Rightarrow> json option \<Rightarrow> json option" where
  "olook ks v = (case v of None \<Rightarrow> None | Some x \<Rightarrow> look ks x)"

definition opt_ok :: "json option \<Rightarrow> bool" where
  "opt_ok v = (case v of None \<Rightarrow> True | Some x \<Rightarrow> json_ok x)"

text \<open>A copied sentinel, read as the absence it stands for.\<close>

definition unopaque :: "json option \<Rightarrow> json option" where
  "unopaque v = (if v = Some JOpaque then None else v)"

lemma olook_simps [simp]:
  "olook ks None = None"
  "olook [] v = v"
  "olook ks (Some x) = look ks x"
  by (auto simp: olook_def split: option.splits)

lemma olook_Cons: "olook (k # ks) v = olook ks (oget v k)"
  by (auto simp: olook_def oget_def split: option.splits)

lemma oget_simps [simp]:
  "oget None k = None"
  "oget (Some x) k = jget x k"
  by (simp_all add: oget_def)

lemma opt_ok_simps [simp]: "opt_ok None" "opt_ok (Some x) = json_ok x"
  by (simp_all add: opt_ok_def)

lemma opt_ok_oget: "opt_ok v \<Longrightarrow> opt_ok (oget v k)"
  by (cases v; cases "oget v k") (auto dest: json_ok_jget)

lemma opt_ok_olook: "opt_ok v \<Longrightarrow> opt_ok (olook ks v)"
proof (induction ks arbitrary: v)
  case (Cons k ks)
  then show ?case by (simp only: olook_Cons opt_ok_oget)
qed simp

lemma json_ok_not_opaque: "opt_ok v \<Longrightarrow> v \<noteq> Some JOpaque"
  by (cases v) auto

lemma opt_eq_refl [simp]: "opt_ok x \<Longrightarrow> opt_eq x x"
  by (cases x) auto

lemma opt_eq_sym: "opt_ok x \<Longrightarrow> opt_ok y \<Longrightarrow> opt_eq x y \<Longrightarrow> opt_eq y x"
  by (cases x; cases y) (auto intro: py_eq_sym)

lemma opt_eq_trans:
  "opt_ok x \<Longrightarrow> opt_ok y \<Longrightarrow> opt_ok z \<Longrightarrow> opt_eq x y \<Longrightarrow> opt_eq y z \<Longrightarrow> opt_eq x z"
  by (cases x; cases y; cases z) (auto intro: py_eq_trans)

lemma py_eq_jget:
  assumes "json_ok x" "json_ok y" "py_eq x y"
  shows "opt_eq (jget x k) (jget y k)"
proof (cases "is_obj x \<and> is_obj y")
  case True
  then obtain xs ys where xy: "x = JObj xs" "y = JObj ys"
    by (metis is_obj.elims(2))
  then have "rel_option py_eq (map_of xs k) (map_of ys k)"
    using assms py_eq_obj_ok by blast
  then show ?thesis by (auto simp: xy opt_eq_def split: option.splits)
next
  case False
  then have "\<not> is_obj x \<and> \<not> is_obj y"
    using assms by (cases x; cases y) auto
  then have "jget x k = None" "jget y k = None" by (simp_all add: jget_not_obj)
  then show ?thesis by simp
qed

lemma opt_eq_oget: "opt_ok x \<Longrightarrow> opt_ok y \<Longrightarrow> opt_eq x y \<Longrightarrow> opt_eq (oget x k) (oget y k)"
  by (cases x; cases y) (auto intro: py_eq_jget)

lemma opt_eq_olook: "opt_ok x \<Longrightarrow> opt_ok y \<Longrightarrow> opt_eq x y \<Longrightarrow> opt_eq (olook ks x) (olook ks y)"
proof (induction ks arbitrary: x y)
  case (Cons k ks)
  then show ?case by (simp add: olook_Cons opt_ok_oget opt_eq_oget)
qed simp

lemma unopaque_copy: "opt_ok v \<Longrightarrow> unopaque (olook ks (deep_copy v)) = olook ks v"
proof (cases v)
  case None
  then show ?thesis by (cases ks) (auto simp: unopaque_def deep_copy_def)
next
  case (Some x)
  moreover assume "opt_ok v"
  ultimately show ?thesis
    using json_ok_not_opaque [OF opt_ok_olook, of v ks]
    by (auto simp: unopaque_def deep_copy_def)
qed

lemmas opt_eq_equivalence = opt_eq_refl opt_eq_sym opt_eq_trans

section \<open>What one node of the merge computes\<close>

text \<open>The four ways a call of \<open>merge_value\<close> ends.\<close>

definition node_settled :: "json option \<Rightarrow> json option \<Rightarrow> json option \<Rightarrow> bool" where
  "node_settled b our their \<longleftrightarrow> opt_eq our their \<or> opt_eq our b \<or> opt_eq their b"

definition node_open :: "json option \<Rightarrow> json option \<Rightarrow> json option \<Rightarrow> bool" where
  "node_open b our their \<longleftrightarrow> \<not> node_settled b our their \<and>
     mapping_or_missing b \<and> mapping_or_missing our \<and> mapping_or_missing their"

definition clash :: "json option \<Rightarrow> json option \<Rightarrow> json option \<Rightarrow> bool" where
  "clash b our their \<longleftrightarrow> \<not> node_settled b our their \<and>
     \<not> (mapping_or_missing b \<and> mapping_or_missing our \<and> mapping_or_missing their)"

definition merge_keys :: "json option \<Rightarrow> json option \<Rightarrow> json option \<Rightarrow> string list" where
  "merge_keys b our their = sorted_strs (okeys b @ okeys our @ okeys their)"

lemma merge_value_settled:
  "node_settled b our their \<Longrightarrow> merge_value ad b our their path =
     Inr (deep_copy (if opt_eq our their then our else if opt_eq our b then their else our), [])"
  by (subst merge_value.simps) (auto simp: node_settled_def)

lemma merge_value_open:
  "node_open b our their \<Longrightarrow> merge_value ad b our their path =
     bindr (mapr (\<lambda>key. bindr
               (merge_value ad (oget b key) (oget our key) (oget their key)
                  (path @ ''/'' @ escape key)) (\<lambda>r. Inr (key, r)))
             (merge_keys b our their))
       (\<lambda>rs. Inr (Some (JObj (merged_items rs)), merged_conflicts rs))"
  by (subst merge_value.simps) (auto simp: node_open_def node_settled_def merge_keys_def)

lemma merge_value_clash:
  "clash b our their \<Longrightarrow> merge_value ad b our their path = Inr (r, cs) \<Longrightarrow>
     r = deep_copy our \<and> (\<exists>c. cs = [c] \<and> cf_path c = (if path = [] then ''/'' else path) \<and>
       cf_base c = public_value b \<and> cf_ours c = public_value our \<and> cf_theirs c = public_value their)"
  by (subst (asm) merge_value.simps)
     (auto simp: clash_def node_settled_def Let_def bindr_eq_Inr mk_conflict_def split: if_splits)

lemma node_cases:
  obtains (settled) "node_settled b our their" | (opened) "node_open b our their"
    | (clash) "clash b our their"
  by (auto simp: node_open_def clash_def)

lemma merge_value_open_Inr:
  assumes "node_open b our their" "merge_value ad b our their path = Inr (r, cs)"
  obtains rs where
    "list_all2 (\<lambda>key (k, rc). k = key \<and>
       merge_value ad (oget b key) (oget our key) (oget their key) (path @ ''/'' @ escape key)
         = Inr rc) (merge_keys b our their) rs"
    "r = Some (JObj (merged_items rs))" "cs = merged_conflicts rs"
proof -
  from assms obtain rs where
    "mapr (\<lambda>key. bindr (merge_value ad (oget b key) (oget our key) (oget their key)
       (path @ ''/'' @ escape key)) (\<lambda>r. Inr (key, r))) (merge_keys b our their) = Inr rs"
    "r = Some (JObj (merged_items rs))" "cs = merged_conflicts rs"
    by (auto simp: merge_value_open bindr_eq_Inr)
  moreover from this(1) have "list_all2 (\<lambda>key (k, rc). k = key \<and>
       merge_value ad (oget b key) (oget our key) (oget their key) (path @ ''/'' @ escape key)
         = Inr rc) (merge_keys b our their) rs"
    unfolding mapr_Inr_iff by (rule list_all2_mono) (auto simp: bindr_eq_Inr)
  ultimately show ?thesis using that by blast
qed

lemma merge_value_Some: "merge_value ad b our their path = Inr (r, cs) \<Longrightarrow> r \<noteq> None"
  by (rule node_cases [of b our their])
     (auto simp: merge_value_settled deep_copy_def split: option.splits if_splits
           dest!: merge_value_clash elim!: merge_value_open_Inr)

text \<open>The dictionary built by the loop holds the merged child under every key it visits.\<close>

lemma merged_items_map_of:
  assumes "list_all2 (\<lambda>key (k, rc). k = key \<and> f key = Inr rc) keys rs"
    and "\<And>key r cs. f key = Inr (r, cs) \<Longrightarrow> r \<noteq> None"
  shows "map fst (merged_items rs) = keys"
    and "distinct keys \<Longrightarrow> key \<in> set keys \<Longrightarrow>
      \<exists>cs. f key = Inr (map_of (merged_items rs) key, cs) \<and> set cs \<subseteq> set (merged_conflicts rs)"
proof -
  show "map fst (merged_items rs) = keys"
    using assms
    by (induction keys rs rule: list_all2_induct) (fastforce simp: merged_items_def)+
  show "distinct keys \<Longrightarrow> key \<in> set keys \<Longrightarrow>
      \<exists>cs. f key = Inr (map_of (merged_items rs) key, cs) \<and> set cs \<subseteq> set (merged_conflicts rs)"
    using assms(1)
  proof (induction keys rs rule: list_all2_induct)
    case (Cons x keys y rs)
    obtain v cs where y: "y = (x, v, cs)" "f x = Inr (v, cs)"
      using Cons.hyps(1) by (cases y) auto
    with assms(2) obtain w where w: "v = Some w" by blast
    have "merged_items (y # rs) = (x, w) # merged_items rs"
      and "merged_conflicts (y # rs) = cs @ merged_conflicts rs"
      by (simp_all add: merged_items_def merged_conflicts_def y w)
    then show ?case using Cons y w by (cases "key = x") auto
  qed simp
qed

lemma merged_conflicts_member:
  assumes "list_all2 (\<lambda>key (k, rc). k = key \<and> f key = Inr rc) keys rs"
    and "c \<in> set (merged_conflicts rs)"
  shows "\<exists>key v ds. f key = Inr (v, ds) \<and> c \<in> set ds"
  using assms
  by (induction keys rs rule: list_all2_induct) (force simp: merged_conflicts_def)+

lemma key_in_merge_keys:
  "key \<in> set (merge_keys b our their) \<longleftrightarrow>
     \<not> (oget b key = None \<and> oget our key = None \<and> oget their key = None)"
  by (cases b; cases our; cases their)
     (auto simp: merge_keys_def okeys_def jget_in_jkeys)

lemma distinct_merge_keys [simp]: "distinct (merge_keys b our their)"
  by (simp add: merge_keys_def)

text \<open>
  The value and the conflicts of an open node, in terms of its children: what the proofs about
  the merge use instead of the loop.
\<close>

lemma open_node:
  assumes "node_open b our their" "merge_value ad b our their path = Inr (r, cs)"
  obtains xs where "r = Some (JObj xs)" "map fst xs = merge_keys b our their"
    "\<And>key. key \<in> set (merge_keys b our their) \<Longrightarrow>
       \<exists>ds. merge_value ad (oget b key) (oget our key) (oget their key)
              (path @ ''/'' @ escape key) = Inr (map_of xs key, ds) \<and> set ds \<subseteq> set cs"
    "\<And>key. key \<notin> set (merge_keys b our their) \<Longrightarrow> map_of xs key = None"
    "\<And>c. c \<in> set cs \<Longrightarrow> \<exists>key v ds.
       merge_value ad (oget b key) (oget our key) (oget their key)
         (path @ ''/'' @ escape key) = Inr (v, ds) \<and> c \<in> set ds"
proof -
  let ?f = "\<lambda>key. merge_value ad (oget b key) (oget our key) (oget their key)
       (path @ ''/'' @ escape key)"
  obtain rs where rs: "list_all2 (\<lambda>key (k, rc). k = key \<and> ?f key = Inr rc)
      (merge_keys b our their) rs"
    and r: "r = Some (JObj (merged_items rs))" and cs: "cs = merged_conflicts rs"
    using assms by (rule merge_value_open_Inr)
  have some: "\<And>key r cs. ?f key = Inr (r, cs) \<Longrightarrow> r \<noteq> None" by (rule merge_value_Some)
  show thesis
  proof (rule that [OF r])
    show "map fst (merged_items rs) = merge_keys b our their"
      by (rule merged_items_map_of(1) [OF rs]) (rule some)
    show "\<exists>ds. ?f key = Inr (map_of (merged_items rs) key, ds) \<and> set ds \<subseteq> set cs"
      if "key \<in> set (merge_keys b our their)" for key
      unfolding cs by (rule merged_items_map_of(2) [OF rs _ distinct_merge_keys that]) (rule some)
    show "map_of (merged_items rs) key = None"
      if "key \<notin> set (merge_keys b our their)" for key
      using that \<open>map fst (merged_items rs) = merge_keys b our their\<close>
      by (simp add: map_of_eq_None_iff flip: set_map)
    show "\<exists>key v ds. ?f key = Inr (v, ds) \<and> c \<in> set ds" if "c \<in> set cs" for c
      using merged_conflicts_member [OF rs] that unfolding cs by blast
  qed
qed

section \<open>The merge resolves every path\<close>

definition three_way :: "json option \<Rightarrow> json option \<Rightarrow> json option \<Rightarrow> json option \<Rightarrow> bool" where
  "three_way b our their m \<longleftrightarrow>
     (opt_eq our b \<longrightarrow> opt_eq m their) \<and> (opt_eq their b \<longrightarrow> opt_eq m our) \<and>
     (opt_eq our their \<longrightarrow> opt_eq m our)"

lemma three_way_settled:
  assumes "opt_ok b" "opt_ok our" "opt_ok their" "node_settled b our their"
    and "m = (if opt_eq our their then our else if opt_eq our b then their else our)"
  shows "three_way (olook ks b) (olook ks our) (olook ks their) (olook ks m)"
proof -
  have ok: "opt_ok (olook ks b)" "opt_ok (olook ks our)" "opt_ok (olook ks their)"
    using assms(1-3) by (simp_all only: opt_ok_olook)
  consider "opt_eq our their" "m = our" | "opt_eq our b" "m = their" | "opt_eq their b" "m = our"
    using assms(4,5) by (auto simp: node_settled_def split: if_splits)
  then show ?thesis
  proof cases
    case 1
    then have "opt_eq (olook ks our) (olook ks their)" by (intro opt_eq_olook assms)
    with 1 ok show ?thesis unfolding three_way_def by (metis opt_eq_refl)
  next
    case 2
    then have "opt_eq (olook ks our) (olook ks b)" by (intro opt_eq_olook assms)
    with 2 ok show ?thesis unfolding three_way_def by (metis opt_eq_equivalence)
  next
    case 3
    then have "opt_eq (olook ks their) (olook ks b)" by (intro opt_eq_olook assms)
    with 3 ok show ?thesis unfolding three_way_def by (metis opt_eq_equivalence)
  qed
qed

lemma merge_value_three_way:
  assumes "opt_ok b" "opt_ok our" "opt_ok their"
    and "merge_value ad b our their path = Inr (r, [])"
  shows "three_way (olook ks b) (olook ks our) (olook ks their) (unopaque (olook ks r))"
  using assms
proof (induction ks arbitrary: b our their path r)
  case Nil
  show ?case
  proof (cases rule: node_cases [of b our their])
    case settled
    then show ?thesis
      using Nil three_way_settled [OF Nil(1-3) settled refl, of "[]"]
      by (auto simp: merge_value_settled unopaque_copy [of _ "[]", simplified])
  next
    case opened
    then show ?thesis
      using Nil by (auto simp: three_way_def node_open_def node_settled_def)
  next
    case clash
    then show ?thesis using Nil merge_value_clash by blast
  qed
next
  case (Cons k ks)
  show ?case
  proof (cases rule: node_cases [of b our their])
    case settled
    let ?m = "if opt_eq our their then our else if opt_eq our b then their else our"
    have "r = deep_copy ?m" using settled Cons.prems(4) by (simp add: merge_value_settled)
    then have "unopaque (olook (k # ks) r) = olook (k # ks) ?m"
      using Cons.prems(1-3) by (simp only: unopaque_copy split: if_split) blast
    then show ?thesis
      using three_way_settled [OF Cons.prems(1-3) settled refl, of "k # ks"] by simp
  next
    case opened
    show ?thesis
    proof (rule open_node [OF opened Cons.prems(4)])
      fix xs
      assume r: "r = Some (JObj xs)" and "map fst xs = merge_keys b our their"
        and child: "\<And>key. key \<in> set (merge_keys b our their) \<Longrightarrow>
          \<exists>ds. merge_value ad (oget b key) (oget our key) (oget their key)
            (path @ ''/'' @ escape key) = Inr (map_of xs key, ds) \<and> set ds \<subseteq> set []"
        and other: "\<And>key. key \<notin> set (merge_keys b our their) \<Longrightarrow> map_of xs key = None"
      show ?thesis
      proof (cases "k \<in> set (merge_keys b our their)")
        case True
        with child have "merge_value ad (oget b k) (oget our k) (oget their k)
            (path @ ''/'' @ escape k) = Inr (map_of xs k, [])" by auto
        then show ?thesis
          using Cons.IH [OF opt_ok_oget opt_ok_oget opt_ok_oget] Cons.prems(1-3)
          by (simp only: olook_Cons r oget_simps jget.simps)
      next
        case False
        then show ?thesis
          using other [OF False] by (simp add: key_in_merge_keys olook_Cons r three_way_def unopaque_def)
      qed
    qed
  next
    case clash
    then show ?thesis using Cons merge_value_clash by blast
  qed
qed

section \<open>Where the merge reports conflicts\<close>

text \<open>A conflict at a node: its path, and the three values it records.\<close>

definition reports :: "conflict \<Rightarrow> string \<Rightarrow> json option \<Rightarrow> json option \<Rightarrow> json option \<Rightarrow> bool" where
  "reports c path b our their \<longleftrightarrow>
     cf_path c = (if path = [] then ''/'' else path) \<and> cf_base c = public_value b \<and>
     cf_ours c = public_value our \<and> cf_theirs c = public_value their"

lemma merge_value_clash_reports:
  "clash b our their \<Longrightarrow> merge_value ad b our their path = Inr (r, cs) \<Longrightarrow>
     \<exists>c. cs = [c] \<and> reports c path b our their"
  using merge_value_clash by (fastforce simp: reports_def)

lemma clash_below:
  assumes "opt_ok b" "opt_ok our" "opt_ok their" "clash (olook ks b) (olook ks our) (olook ks their)"
  shows "clash b our their \<or> (node_open b our their \<and> ks \<noteq> [])"
proof -
  have "\<not> node_settled b our their"
    using assms opt_eq_olook [of our their ks] opt_eq_olook [of our b ks] opt_eq_olook [of their b ks]
    by (auto simp: clash_def node_settled_def)
  then show ?thesis using assms(4) by (cases ks) (auto simp: clash_def node_open_def)
qed

lemma merge_value_conflict_sound:
  assumes "merge_value ad b our their path = Inr (r, cs)" "c \<in> set cs"
  shows "\<exists>ks. clash (olook ks b) (olook ks our) (olook ks their) \<and>
           reports c (path @ path_of ks) (olook ks b) (olook ks our) (olook ks their)"
  using assms
proof (induction "osize b + osize our + osize their" arbitrary: b our their path r cs
         rule: less_induct)
  case less
  show ?case
  proof (cases rule: node_cases [of b our their])
    case settled
    then show ?thesis using less.prems by (simp add: merge_value_settled)
  next
    case clash
    then obtain d where "cs = [d]" "reports d path b our their"
      using merge_value_clash_reports less.prems(1) by blast
    then show ?thesis using less.prems(2) clash by (intro exI [of _ "[]"]) (simp add: path_of_def)
  next
    case opened
    then have some: "our \<noteq> None \<or> their \<noteq> None"
      by (auto simp: node_open_def node_settled_def)
    obtain k v ds where kd: "merge_value ad (oget b k) (oget our k) (oget their k)
        (path @ ''/'' @ escape k) = Inr (v, ds)" "c \<in> set ds"
      using open_node [OF opened less.prems(1)] less.prems(2) by metis
    have "osize (oget b k) + osize (oget our k) + osize (oget their k)
        < osize b + osize our + osize their"
      using some oget_osize [of b k] oget_osize [of our k] oget_osize [of their k]
        oget_osize_less [of our k] oget_osize_less [of their k] by fastforce
    from less.hyps [OF this kd] obtain ks where
      "clash (olook ks (oget b k)) (olook ks (oget our k)) (olook ks (oget their k))"
      "reports c ((path @ ''/'' @ escape k) @ path_of ks)
         (olook ks (oget b k)) (olook ks (oget our k)) (olook ks (oget their k))"
      by blast
    then show ?thesis
      by (intro exI [of _ "k # ks"]) (simp add: olook_Cons path_of_def)
  qed
qed

lemma merge_value_conflict_complete:
  assumes "opt_ok b" "opt_ok our" "opt_ok their"
    and "merge_value ad b our their path = Inr (r, cs)"
    and "clash (olook ks b) (olook ks our) (olook ks their)"
  shows "cs \<noteq> []"
  using assms
proof (induction ks arbitrary: b our their path r cs)
  case Nil
  then show ?case using merge_value_clash by fastforce
next
  case (Cons k ks)
  from clash_below [OF Cons.prems(1-3,5)] show ?case
  proof
    assume "clash b our their"
    then show ?thesis using merge_value_clash [OF _ Cons.prems(4)] by auto
  next
    assume "node_open b our their \<and> k # ks \<noteq> []"
    then have opened: "node_open b our their" by simp
    have ck: "clash (olook ks (oget b k)) (olook ks (oget our k)) (olook ks (oget their k))"
      using Cons.prems(5) by (simp only: olook_Cons)
    then have "k \<in> set (merge_keys b our their)"
      by (auto simp: key_in_merge_keys clash_def node_settled_def)
    then obtain v ds where "merge_value ad (oget b k) (oget our k) (oget their k)
        (path @ ''/'' @ escape k) = Inr (v, ds)" "set ds \<subseteq> set cs"
      using open_node [OF opened Cons.prems(4)] by metis
    with Cons.IH [OF opt_ok_oget opt_ok_oget opt_ok_oget _ ck] Cons.prems(1-3)
    show ?thesis by fastforce
  qed
qed

lemma clash_sym:
  assumes "opt_ok b" "opt_ok our" "opt_ok their"
  shows "clash b our their \<longleftrightarrow> clash b their our"
  using assms opt_eq_sym unfolding clash_def node_settled_def by blast

lemma merge_value_conflict_iff:
  assumes "opt_ok b" "opt_ok our" "opt_ok their" "merge_value ad b our their path = Inr (r, cs)"
  shows "cs \<noteq> [] \<longleftrightarrow> (\<exists>ks. clash (olook ks b) (olook ks our) (olook ks their))"
  using merge_value_conflict_complete [OF assms] merge_value_conflict_sound [OF assms(4)]
  by (metis list.set_intros(1) neq_Nil_conv)

section \<open>Deleted keys\<close>

text \<open>
  A key of an open node that the winning side lacks: the loop stores the copied sentinel under it.
\<close>

definition deleted :: "json option \<Rightarrow> json option \<Rightarrow> json option \<Rightarrow> bool" where
  "deleted b our their \<longleftrightarrow> b \<noteq> None \<and>
     ((our = None \<and> their = None) \<or> (opt_eq our b \<and> their = None) \<or> (opt_eq their b \<and> our = None))"

lemma merge_value_deleted:
  "opt_ok b \<Longrightarrow> opt_ok our \<Longrightarrow> opt_ok their \<Longrightarrow> deleted b our their \<Longrightarrow>
     merge_value ad b our their path = Inr (Some JOpaque, [])"
  by (subst merge_value_settled)
     (auto simp: deleted_def node_settled_def deep_copy_def split: option.splits)

lemma merge_value_deletion_opaque:
  assumes "opt_ok b" "opt_ok our" "opt_ok their"
    and "merge_value ad b our their path = Inr (r, [])"
    and "node_open (olook ks b) (olook ks our) (olook ks their)"
    and "deleted (olook (ks @ [k]) b) (olook (ks @ [k]) our) (olook (ks @ [k]) their)"
  shows "olook (ks @ [k]) r = Some JOpaque"
  using assms
proof (induction ks arbitrary: b our their path r)
  case Nil
  have del: "deleted (oget b k) (oget our k) (oget their k)"
    using Nil.prems(6) by (simp add: olook_Cons)
  then have k: "k \<in> set (merge_keys b our their)"
    by (auto simp: deleted_def key_in_merge_keys)
  have opened: "node_open b our their" using Nil.prems(5) by simp
  obtain xs where r: "r = Some (JObj xs)" and
    child: "\<And>key. key \<in> set (merge_keys b our their) \<Longrightarrow>
       \<exists>ds. merge_value ad (oget b key) (oget our key) (oget their key)
              (path @ ''/'' @ escape key) = Inr (map_of xs key, ds) \<and> set ds \<subseteq> set []"
    using open_node [OF opened Nil.prems(4)] by metis
  have "map_of xs k = Some JOpaque"
    using child [OF k] merge_value_deleted [OF opt_ok_oget opt_ok_oget opt_ok_oget del]
      Nil.prems(1-3) by simp
  then show ?case by (simp add: r)
next
  case (Cons j ks)
  have not_settled: "\<not> node_settled b our their"
    using Cons.prems(5) opt_eq_olook [OF Cons.prems(2,3), of "j # ks"]
      opt_eq_olook [OF Cons.prems(2,1), of "j # ks"] opt_eq_olook [OF Cons.prems(3,1), of "j # ks"]
    by (auto simp: node_open_def node_settled_def)
  show ?case
  proof (cases "clash b our their")
    case True
    then show ?thesis using merge_value_clash [OF _ Cons.prems(4)] by simp
  next
    case False
    then have opened: "node_open b our their" using not_settled node_cases by blast
    have j: "j \<in> set (merge_keys b our their)"
      using Cons.prems(6) by (auto simp: deleted_def key_in_merge_keys olook_Cons)
    obtain xs ds where r: "r = Some (JObj xs)" and
      "merge_value ad (oget b j) (oget our j) (oget their j)
              (path @ ''/'' @ escape j) = Inr (map_of xs j, ds)" "set ds \<subseteq> set []"
      using open_node [OF opened Cons.prems(4)] j by metis
    then have child: "merge_value ad (oget b j) (oget our j) (oget their j)
              (path @ ''/'' @ escape j) = Inr (map_of xs j, [])" by simp
    have "olook (ks @ [k]) (map_of xs j) = Some JOpaque"
      using Cons.prems(1-3,5,6) by (intro Cons.IH [OF _ _ _ child])
        (simp_all add: opt_ok_oget olook_Cons)
    then show ?thesis by (simp add: r olook_def split: option.splits)
  qed
qed

lemma normalize_rejects_opaque:
  "look ks v = Some JOpaque \<Longrightarrow> \<exists>e. normalize_json h v = Inl e"
proof (induction ks arbitrary: v)
  case Nil
  then show ?case by simp
next
  case (Cons k ks)
  then obtain w where w: "jget v k = Some w" "look ks w = Some JOpaque"
    by (auto split: option.splits)
  then obtain xs where v: "v = JObj xs" and kw: "(k, w) \<in> set xs"
    by (cases v) (auto dest: map_of_SomeD)
  obtain e where e: "normalize_json h w = Inl e" using Cons.IH w(2) by blast
  have "norm_items (normalize_json h) (nfc h) acc xs \<noteq> Inr ys" for acc ys
  proof
    assume "norm_items (normalize_json h) (nfc h) acc xs = Inr ys"
    then obtain zs where
      "list_all2 (\<lambda>(k, v) (k', w). k' = nfc h k \<and> normalize_json h v = Inr w) xs zs"
      using norm_items_Inr by blast
    moreover obtain i where "i < length xs" "xs ! i = (k, w)"
      using kw by (auto simp: in_set_conv_nth)
    ultimately have "case zs ! i of (k', w') \<Rightarrow> normalize_json h w = Inr w'"
      by (auto simp: list_all2_conv_all_nth)
    with e show False by auto
  qed
  then show ?case
    by (cases "norm_items (normalize_json h) (nfc h) [] xs") (auto simp: v)
qed

text \<open>Without deletions every merged child is a value of one of the three documents.\<close>

definition keeps_keys :: "json option \<Rightarrow> json option \<Rightarrow> json option \<Rightarrow> bool" where
  "keeps_keys b our their \<longleftrightarrow>
     (\<forall>ks. olook ks b \<noteq> None \<longrightarrow> olook ks our \<noteq> None \<and> olook ks their \<noteq> None)"

lemma keeps_keys_oget:
  "keeps_keys b our their \<Longrightarrow> keeps_keys (oget b k) (oget our k) (oget their k)"
  unfolding keeps_keys_def by (metis olook_Cons)

lemma keeps_keys_not_deleted:
  "keeps_keys b our their \<Longrightarrow> b = None \<or> (our \<noteq> None \<and> their \<noteq> None)"
  unfolding keeps_keys_def by (metis olook_simps(2))

lemma merge_value_ok:
  assumes "opt_ok b" "opt_ok our" "opt_ok their" "keeps_keys b our their"
    and "\<not> (b = None \<and> our = None \<and> their = None)"
    and "merge_value ad b our their path = Inr (r, cs)"
  shows "opt_ok r"
  using assms
proof (induction "osize b + osize our + osize their" arbitrary: b our their path r cs
         rule: less_induct)
  case less
  show ?case
  proof (cases rule: node_cases [of b our their])
    case settled
    let ?m = "if opt_eq our their then our else if opt_eq our b then their else our"
    have r: "r = deep_copy ?m" using settled less.prems(6) by (simp add: merge_value_settled)
    have "?m \<noteq> None"
      using less.prems(5) keeps_keys_not_deleted [OF less.prems(4)] settled
      by (cases b; cases our; cases their) (auto simp: node_settled_def)
    moreover have "opt_ok ?m" using less.prems(2,3) by presburger
    ultimately show ?thesis unfolding r by (cases ?m) (simp_all only: deep_copy_def option.case, simp)
  next
    case clash
    then have "our \<noteq> None"
      using keeps_keys_not_deleted [OF less.prems(4)] by (auto simp: clash_def node_settled_def)
    then show ?thesis
      using merge_value_clash [OF clash less.prems(6)] less.prems(2) by (auto simp: deep_copy_def)
  next
    case opened
    then have some: "our \<noteq> None \<or> their \<noteq> None"
      by (auto simp: node_open_def node_settled_def)
    obtain xs where r: "r = Some (JObj xs)" and keys: "map fst xs = merge_keys b our their" and
      child: "\<And>key. key \<in> set (merge_keys b our their) \<Longrightarrow>
         \<exists>ds. merge_value ad (oget b key) (oget our key) (oget their key)
                (path @ ''/'' @ escape key) = Inr (map_of xs key, ds) \<and> set ds \<subseteq> set cs"
      using open_node [OF opened less.prems(6)] by metis
    have dist: "distinct (map fst xs)" by (simp add: keys)
    have "json_ok v" if kv: "(k, v) \<in> set xs" for k v
    proof -
      have k: "k \<in> set (merge_keys b our their)" using kv keys by (force simp flip: keys)
      have size: "osize (oget b k) + osize (oget our k) + osize (oget their k)
          < osize b + osize our + osize their"
        using some oget_osize [of b k] oget_osize [of our k] oget_osize [of their k]
          oget_osize_less [of our k] oget_osize_less [of their k] by fastforce
      obtain ds where "merge_value ad (oget b k) (oget our k) (oget their k)
          (path @ ''/'' @ escape k) = Inr (map_of xs k, ds)"
        using child [OF k] by blast
      from less.hyps [OF size _ _ _ _ _ this] have "opt_ok (map_of xs k)"
        using less.prems(1-4) k by (simp add: opt_ok_oget keeps_keys_oget key_in_merge_keys)
      then show ?thesis using kv dist by simp
    qed
    then show ?thesis using dist by (auto simp: r list_all_iff)
  qed
qed

section \<open>Properties of the merge\<close>

lemma doc_normalize_ok: "doc_normalize h v = Inr w \<Longrightarrow> json_ok w"
  by (auto simp: doc_normalize_def normalize_json_ok split: if_splits)

lemma three_way_merge_document:
  assumes "doc_normalize h base = Inr b" "doc_normalize h ours = Inr our"
    "doc_normalize h theirs = Inr their"
  shows "three_way_merge (json_document_adapter h) base ours theirs = Inr (r, cs) \<longleftrightarrow>
    (\<exists>m. merge_value (json_document_adapter h) (Some b) (Some our) (Some their) [] = Inr (m, cs) \<and>
         r = (if cs \<noteq> [] then None else m))"
  using assms
  by (auto simp: three_way_merge_def json_document_adapter_def bindr_eq_Inr split: prod.splits)

text \<open>
  C1. Three-way correctness, path by path. When the merge reports no conflict, then under every key
  path: where ours is the base value the merged document has their value, where theirs is the
  base value it has our value, and where both made the same change it has the common value. Values are
  compared as Python does, and a copied sentinel that \<open>deepcopy\<close> left at the path counts as the
  absence it stands for: where the value to be taken is absent, the merged document may hold such an object.
\<close>
theorem merge_three_way:
  assumes "doc_normalize h base = Inr b" "doc_normalize h ours = Inr our"
    "doc_normalize h theirs = Inr their"
    and "three_way_merge (json_document_adapter h) base ours theirs = Inr (Some m, [])"
  shows "(opt_eq (look ks our) (look ks b) \<longrightarrow> opt_eq (unopaque (look ks m)) (look ks their)) \<and>
    (opt_eq (look ks their) (look ks b) \<longrightarrow> opt_eq (unopaque (look ks m)) (look ks our)) \<and>
    (opt_eq (look ks our) (look ks their) \<longrightarrow> opt_eq (unopaque (look ks m)) (look ks our))"
proof -
  have "merge_value (json_document_adapter h) (Some b) (Some our) (Some their) [] = Inr (Some m, [])"
    using assms(4) by (simp add: three_way_merge_document [OF assms(1-3)])
  from merge_value_three_way [OF _ _ _ this, of ks] show ?thesis
    using assms(1-3) by (simp add: doc_normalize_ok three_way_def)
qed

definition merge_ex_base :: json where
  "merge_ex_base = JObj [(''name'', JStr ''a''), (''spec'', JObj [(''w'', JInt 1), (''h'', JInt 2)])]"

definition merge_ex_ours :: json where
  "merge_ex_ours = JObj [(''name'', JStr ''a''), (''spec'', JObj [(''w'', JInt 7), (''h'', JInt 2)])]"

definition merge_ex_theirs :: json where
  "merge_ex_theirs = JObj [(''name'', JStr ''b''), (''spec'', JObj [(''w'', JInt 1), (''h'', JInt 9)])]"

lemma merge_ex_normal:
  "doc_normalize host_ascii merge_ex_base = Inr merge_ex_base"
  "doc_normalize host_ascii merge_ex_ours = Inr merge_ex_ours"
  "doc_normalize host_ascii merge_ex_theirs = Inr merge_ex_theirs"
  by code_simp+

lemma merge_ex_run:
  "three_way_merge (json_document_adapter host_ascii) merge_ex_base merge_ex_ours merge_ex_theirs =
     Inr (Some (JObj [(''name'', JStr ''b''), (''spec'', JObj [(''h'', JInt 9), (''w'', JInt 7)])]), [])"
  by code_simp

theorem merge_three_way_witness:
  "opt_eq (unopaque (look [''spec'', ''w'']
      (JObj [(''name'', JStr ''b''), (''spec'', JObj [(''h'', JInt 9), (''w'', JInt 7)])])))
    (look [''spec'', ''w''] merge_ex_ours)"
  using merge_three_way [OF merge_ex_normal merge_ex_run, of "[''spec'', ''w'']"]
  by (simp add: merge_ex_base_def merge_ex_theirs_def merge_ex_ours_def py_eq_num)

text \<open>
  C2. Conflicts are exactly the clashes: the merge is refused iff at some key path the three
  values differ pairwise and one of them is present and not an object; every reported conflict
  sits at such a path and records the three values found there.
\<close>
theorem merge_conflict_iff:
  assumes "doc_normalize h base = Inr b" "doc_normalize h ours = Inr our"
    "doc_normalize h theirs = Inr their"
    and "three_way_merge (json_document_adapter h) base ours theirs = Inr (r, cs)"
  shows "(r = None \<longleftrightarrow> (\<exists>ks. clash (look ks b) (look ks our) (look ks their))) \<and>
    (\<forall>c \<in> set cs. \<exists>ks. clash (look ks b) (look ks our) (look ks their) \<and>
       reports c (path_of ks) (look ks b) (look ks our) (look ks their))"
proof -
  obtain m where m: "merge_value (json_document_adapter h) (Some b) (Some our) (Some their) [] = Inr (m, cs)"
    and r: "r = (if cs \<noteq> [] then None else m)"
    using assms(4) by (auto simp: three_way_merge_document [OF assms(1-3)])
  have ok: "opt_ok (Some b)" "opt_ok (Some our)" "opt_ok (Some their)"
    using assms(1-3) by (simp_all add: doc_normalize_ok)
  have sound: "\<exists>ks. clash (look ks b) (look ks our) (look ks their) \<and>
       reports c (path_of ks) (look ks b) (look ks our) (look ks their)" if "c \<in> set cs" for c
    using merge_value_conflict_sound [OF m that] by simp
  moreover have "cs \<noteq> []" if "clash (look ks b) (look ks our) (look ks their)" for ks
    using merge_value_conflict_complete [OF ok m, of ks] that by simp
  moreover have "r = None \<longleftrightarrow> cs \<noteq> []" using merge_value_Some [OF m] r by auto
  ultimately show ?thesis by (metis list.set_intros(1) neq_Nil_conv)
qed

lemma merge_ex_conflict:
  "three_way_merge (json_document_adapter host_ascii) merge_ex_base
     (JObj [(''name'', JStr ''c''), (''spec'', JNull)]) merge_ex_theirs =
   Inr (None,
     [\<lparr>cf_path = ''/name'', cf_kind = ''field'', cf_base = JStr ''a'', cf_ours = JStr ''c'',
       cf_theirs = JStr ''b''\<rparr>,
      \<lparr>cf_path = ''/spec'', cf_kind = ''object'', cf_base = JObj [(''w'', JInt 1), (''h'', JInt 2)],
       cf_ours = JNull, cf_theirs = JObj [(''w'', JInt 1), (''h'', JInt 9)]\<rparr>])"
  by code_simp

theorem merge_conflict_iff_witness:
  "\<exists>ks. clash (look ks merge_ex_base) (look ks (JObj [(''name'', JStr ''c''), (''spec'', JNull)]))
     (look ks merge_ex_theirs)"
proof -
  have "doc_normalize host_ascii (JObj [(''name'', JStr ''c''), (''spec'', JNull)]) =
      Inr (JObj [(''name'', JStr ''c''), (''spec'', JNull)])" by code_simp
  from merge_conflict_iff [OF merge_ex_normal(1) this merge_ex_normal(3) merge_ex_conflict]
  show ?thesis by simp
qed

text \<open>
  C3. Whether a merge is refused does not depend on which side is called ours: swapping the two
  sides keeps a conflict a conflict and a clean merge clean.
\<close>
theorem merge_refusal_symmetric:
  assumes "doc_normalize h base = Inr b" "doc_normalize h ours = Inr our"
    "doc_normalize h theirs = Inr their"
    and "three_way_merge (json_document_adapter h) base ours theirs = Inr (r, cs)"
    and "three_way_merge (json_document_adapter h) base theirs ours = Inr (r', cs')"
  shows "r = None \<longleftrightarrow> r' = None"
proof -
  note run = three_way_merge_document [OF assms(1-3), of r cs]
    and swapped = three_way_merge_document [OF assms(1,3,2), of r' cs']
  obtain m m' where
    m: "merge_value (json_document_adapter h) (Some b) (Some our) (Some their) [] = Inr (m, cs)"
      "r = (if cs \<noteq> [] then None else m)" and
    m': "merge_value (json_document_adapter h) (Some b) (Some their) (Some our) [] = Inr (m', cs')"
      "r' = (if cs' \<noteq> [] then None else m')"
    using assms(4,5) run swapped by auto
  have "r = None \<longleftrightarrow> cs \<noteq> []" "r' = None \<longleftrightarrow> cs' \<noteq> []"
    using m m' merge_value_Some by auto
  moreover have ok: "opt_ok (Some b)" "opt_ok (Some our)" "opt_ok (Some their)"
    using assms(1-3) by (simp_all add: doc_normalize_ok)
  moreover have "cs \<noteq> [] \<longleftrightarrow> (\<exists>ks. clash (olook ks (Some b)) (olook ks (Some our)) (olook ks (Some their)))"
    by (rule merge_value_conflict_iff [OF ok m(1)])
  moreover have "cs' \<noteq> [] \<longleftrightarrow> (\<exists>ks. clash (olook ks (Some b)) (olook ks (Some their)) (olook ks (Some our)))"
    by (rule merge_value_conflict_iff [OF ok(1,3,2) m'(1)])
  ultimately show ?thesis using clash_sym opt_ok_olook by metis
qed

theorem merge_refusal_symmetric_witness:
  "\<exists>cs. three_way_merge (json_document_adapter host_ascii) merge_ex_base merge_ex_theirs
     (JObj [(''name'', JStr ''c''), (''spec'', JNull)]) = Inr (None, cs)"
proof -
  let ?ours = "JObj [(''name'', JStr ''c''), (''spec'', JNull)]"
  have n: "doc_normalize host_ascii ?ours = Inr ?ours" by code_simp
  have "\<not> isl (three_way_merge (json_document_adapter host_ascii) merge_ex_base merge_ex_theirs ?ours)"
    by code_simp
  then obtain r cs where
    run: "three_way_merge (json_document_adapter host_ascii) merge_ex_base merge_ex_theirs ?ours = Inr (r, cs)"
    by (metis isl_def sum.exhaust surj_pair)
  from merge_refusal_symmetric [OF merge_ex_normal(1) n merge_ex_normal(3) merge_ex_conflict run]
  show ?thesis using run by simp
qed

text \<open>
  C4. A clean merge of documents of which neither side dropped a key of the base is a well-formed
  document, ready to be normalised, hashed and stored.
\<close>
theorem merge_result_storable:
  assumes "doc_normalize h base = Inr b" "doc_normalize h ours = Inr our"
    "doc_normalize h theirs = Inr their"
    and "three_way_merge (json_document_adapter h) base ours theirs = Inr (Some m, [])"
    and "\<And>ks. look ks b \<noteq> None \<Longrightarrow> look ks our \<noteq> None \<and> look ks their \<noteq> None"
  shows "json_ok m"
proof -
  have m: "merge_value (json_document_adapter h) (Some b) (Some our) (Some their) [] = Inr (Some m, [])"
    using assms(4) by (simp add: three_way_merge_document [OF assms(1-3)])
  have "keeps_keys (Some b) (Some our) (Some their)"
    using assms(5) by (simp add: keeps_keys_def)
  from merge_value_ok [OF _ _ _ this _ m] show ?thesis
    using assms(1-3) by (simp add: doc_normalize_ok)
qed

theorem merge_result_storable_witness:
  "json_ok (JObj [(''name'', JStr ''b''), (''spec'', JObj [(''h'', JInt 9), (''w'', JInt 7)])])"
proof (rule merge_result_storable [OF merge_ex_normal merge_ex_run])
  fix ks assume "look ks merge_ex_base \<noteq> None"
  then show "look ks merge_ex_ours \<noteq> None \<and> look ks merge_ex_theirs \<noteq> None"
    by (cases ks; cases "tl ks"; cases "tl (tl ks)")
       (auto simp: merge_ex_base_def merge_ex_ours_def merge_ex_theirs_def split: if_splits)
qed

text \<open>
  C5. A deleted key inside an object that both sides changed breaks the merge. If at some key path the
  three documents differ pairwise and each has an object or nothing there, and below it a key of
  the base was deleted by one side while the other left its value alone, or was deleted by both sides, then a
  merge without conflicts holds the copied sentinel under that key, and normalising the
  merged document, the first step of storing it, raises.
\<close>
theorem merge_deletion_unusable:
  assumes "doc_normalize h base = Inr b" "doc_normalize h ours = Inr our"
    "doc_normalize h theirs = Inr their"
    and "three_way_merge (json_document_adapter h) base ours theirs = Inr (Some m, [])"
    and "node_open (look ks b) (look ks our) (look ks their)"
    and "deleted (look (ks @ [k]) b) (look (ks @ [k]) our) (look (ks @ [k]) their)"
  shows "look (ks @ [k]) m = Some JOpaque \<and> (\<exists>e. normalize_json h m = Inl e)"
proof -
  have m: "merge_value (json_document_adapter h) (Some b) (Some our) (Some their) [] = Inr (Some m, [])"
    using assms(4) by (simp add: three_way_merge_document [OF assms(1-3)])
  from merge_value_deletion_opaque [OF _ _ _ m, of ks k] have "look (ks @ [k]) m = Some JOpaque"
    using assms(1-3,5,6) by (simp add: doc_normalize_ok)
  then show ?thesis using normalize_rejects_opaque by blast
qed

theorem merge_deletion_unusable_witness:
  "\<exists>e. normalize_json host_ascii (JObj [(''a'', JOpaque), (''n'', JInt 2)]) = Inl e"
proof -
  let ?b = "JObj [(''a'', JInt 5), (''n'', JInt 1)]" and ?o = "JObj [(''a'', JInt 5), (''n'', JInt 2)]"
    and ?t = "JObj [(''n'', JInt 1)]"
  have n: "doc_normalize host_ascii ?b = Inr ?b" "doc_normalize host_ascii ?o = Inr ?o"
    "doc_normalize host_ascii ?t = Inr ?t"
    by code_simp+
  have run: "three_way_merge (json_document_adapter host_ascii) ?b ?o ?t =
      Inr (Some (JObj [(''a'', JOpaque), (''n'', JInt 2)]), [])"
    by code_simp
  have "node_open (look [] ?b) (look [] ?o) (look [] ?t)"
    and "deleted (look ([] @ [''a'']) ?b) (look ([] @ [''a'']) ?o) (look ([] @ [''a'']) ?t)"
    by code_simp+
  from merge_deletion_unusable [OF n run this] show ?thesis by blast
qed

end
