(* ===== verification/Contracts.thy ===== *)
theory Contracts
  imports PyJson
begin

text \<open>
  The frozen contracts of the capability boundary (\<open>backend/capability_v2/contracts.py\<close>):
  enumerations as datatypes, each model class as a record with its field patterns and model
  validator as a predicate or as a constructor that raises \<open>ValueError\<close>. A time is an instant
  in microseconds, with or without a time zone.
\<close>

section \<open>Field patterns and time\<close>

definition identity_ok :: "string \<Rightarrow> bool" where
  "identity_ok s = match_ident is_alnum (\<lambda>c. is_alnum c \<or> c \<in> set ''_.:@/-'') 0 255 s"

definition capability_id_ok :: "string \<Rightarrow> bool" where
  "capability_id_ok s = match_ident is_lower (\<lambda>c. is_lower c \<or> is_digit c \<or> c \<in> set ''_.-'') 2 127 s"

definition owner_domain_ok :: "string \<Rightarrow> bool" where
  "owner_domain_ok s = match_ident is_lower (\<lambda>c. is_lower c \<or> is_digit c \<or> c \<in> set ''_.-'') 1 63 s"

definition length_between :: "nat \<Rightarrow> nat \<Rightarrow> string \<Rightarrow> bool" where
  "length_between lo hi s \<longleftrightarrow> lo \<le> py_len s \<and> py_len s \<le> hi"

fun opt_ok :: "('a \<Rightarrow> bool) \<Rightarrow> 'a option \<Rightarrow> bool" where
  "opt_ok p None = True"
| "opt_ok p (Some x) = p x"

datatype timestamp = Aware int | Naive int

fun tz_aware :: "timestamp \<Rightarrow> bool" where
  "tz_aware (Aware _) = True"
| "tz_aware (Naive _) = False"

text \<open>The instant of a time with a zone; \<open>value.astimezone(UTC)\<close> on such a value.\<close>

fun instant :: "timestamp \<Rightarrow> int" where
  "instant (Aware t) = t"
| "instant (Naive t) = t"

section \<open>Enumerations\<close>

datatype lifecycle_status = Experimental | Stable | Deprecated | Retired

datatype consumer_type = Web | Plugin | Agent | Api | Mcp | Worker | LocalRuntime

fun consumer_type_value :: "consumer_type \<Rightarrow> string" where
  "consumer_type_value Web = ''web''"
| "consumer_type_value Plugin = ''plugin''"
| "consumer_type_value Agent = ''agent''"
| "consumer_type_value Api = ''api''"
| "consumer_type_value Mcp = ''mcp''"
| "consumer_type_value Worker = ''worker''"
| "consumer_type_value LocalRuntime = ''local_runtime''"

datatype automation_level = A0 | A1 | A2 | A3 | A4 | A5 | A6

text \<open>\<open>int(level.value[1:])\<close>, the order of the automation levels.\<close>

fun automation_rank :: "automation_level \<Rightarrow> nat" where
  "automation_rank A0 = 0"
| "automation_rank A1 = 1"
| "automation_rank A2 = 2"
| "automation_rank A3 = 3"
| "automation_rank A4 = 4"
| "automation_rank A5 = 5"
| "automation_rank A6 = 6"

lemma automation_rank_inject [simp]: "automation_rank a = automation_rank b \<longleftrightarrow> a = b"
  by (cases a; cases b) simp_all

instantiation automation_level :: linorder
begin

definition less_eq_automation_level :: "automation_level \<Rightarrow> automation_level \<Rightarrow> bool" where
  "less_eq_automation_level a b \<longleftrightarrow> automation_rank a \<le> automation_rank b"

definition less_automation_level :: "automation_level \<Rightarrow> automation_level \<Rightarrow> bool" where
  "less_automation_level a b \<longleftrightarrow> automation_rank a < automation_rank b"

instance
  by standard (auto simp: less_eq_automation_level_def less_automation_level_def)

end

datatype execution_mode = CloudSync | CloudAsync | LocalExecution

datatype side_effect_level = Reads | Writes | Destructive

datatype memory_class = Small | Medium | Large

datatype collection_policy = Bounded | Paged | ArtifactCollection

datatype overload_policy = RejectLoad | Degrade | AsyncArtifact

datatype capability_status = Completed | Accepted | Rejected | Failed | OutcomeUnknown

fun capability_status_value :: "capability_status \<Rightarrow> string" where
  "capability_status_value Completed = ''completed''"
| "capability_status_value Accepted = ''accepted''"
| "capability_status_value Rejected = ''rejected''"
| "capability_status_value Failed = ''failed''"
| "capability_status_value OutcomeUnknown = ''outcome_unknown''"

datatype operation_status =
    OpAccepted | OpClaimed | OpPreparing | OpRunning | OpPostProcessing
  | OpCompleted | OpFailed | OpCancelled | OpOutcomeUnknown

fun operation_status_value :: "operation_status \<Rightarrow> string" where
  "operation_status_value OpAccepted = ''accepted''"
| "operation_status_value OpClaimed = ''claimed''"
| "operation_status_value OpPreparing = ''preparing''"
| "operation_status_value OpRunning = ''running''"
| "operation_status_value OpPostProcessing = ''post_processing''"
| "operation_status_value OpCompleted = ''completed''"
| "operation_status_value OpFailed = ''failed''"
| "operation_status_value OpCancelled = ''cancelled''"
| "operation_status_value OpOutcomeUnknown = ''outcome_unknown''"

datatype classification = Public | Internal | Confidential | Restricted

fun classification_value :: "classification \<Rightarrow> string" where
  "classification_value Public = ''public''"
| "classification_value Internal = ''internal''"
| "classification_value Confidential = ''confidential''"
| "classification_value Restricted = ''restricted''"

datatype requirement = NotUsed | Optional | Required

datatype concurrency_policy = NoConcurrency | ExpectedVersion

datatype replay_policy = MetadataOnly | Projected

datatype consistency_policy = Strong | Eventual | External

datatype confirmation_policy = NoConfirmation | UserConfirmation | AdminConfirmation | DualConfirmation

section \<open>Budgets and exposure\<close>

record execution_budget =
  eb_memory :: memory_class
  eb_max_input :: int
  eb_max_output :: int
  eb_collection :: collection_policy
  eb_page_size :: "int option"
  eb_consumer_parallel :: int
  eb_tenant_parallel :: int
  eb_overload :: overload_policy

definition default_budget :: execution_budget where
  "default_budget =
     \<lparr>eb_memory = Small, eb_max_input = 1024 * 1024, eb_max_output = 4 * 1024 * 1024,
      eb_collection = Bounded, eb_page_size = None, eb_consumer_parallel = 4,
      eb_tenant_parallel = 32, eb_overload = RejectLoad\<rparr>"

definition budget_fields_ok :: "execution_budget \<Rightarrow> bool" where
  "budget_fields_ok b \<longleftrightarrow> eb_max_input b > 0 \<and> eb_max_output b > 0 \<and>
     opt_ok (\<lambda>n. n > 0) (eb_page_size b) \<and> eb_consumer_parallel b > 0 \<and> eb_tenant_parallel b > 0"

definition page_size_matches_collection_policy :: "execution_budget \<Rightarrow> py_exn + unit" where
  "page_size_matches_collection_policy b =
     (if eb_collection b = Paged \<and> eb_page_size b = None
      then Inl (ValueError ''paged collection policy requires max_page_size'')
      else if eb_collection b \<noteq> Paged \<and> eb_page_size b \<noteq> None
      then Inl (ValueError ''max_page_size is only valid for paged collection policy'')
      else Inr ())"

definition budget_valid :: "execution_budget \<Rightarrow> bool" where
  "budget_valid b \<longleftrightarrow> budget_fields_ok b \<and> page_size_matches_collection_policy b = Inr ()"

record exposure_policy =
  ex_web :: bool
  ex_plugin :: bool
  ex_agent :: bool
  ex_api :: bool
  ex_mcp :: bool
  ex_worker :: bool
  ex_local :: bool

fun exposure_allows :: "exposure_policy \<Rightarrow> consumer_type \<Rightarrow> bool" where
  "exposure_allows x Web = ex_web x"
| "exposure_allows x Plugin = ex_plugin x"
| "exposure_allows x Agent = ex_agent x"
| "exposure_allows x Api = ex_api x"
| "exposure_allows x Mcp = ex_mcp x"
| "exposure_allows x Worker = ex_worker x"
| "exposure_allows x LocalRuntime = ex_local x"

record resource_selector =
  sel_type :: string
  sel_path :: string
  sel_required :: bool

definition selector_ok :: "resource_selector \<Rightarrow> bool" where
  "selector_ok s \<longleftrightarrow> length_between 1 128 (sel_type s) \<and> length_between 1 512 (sel_path s)"

record domain_error =
  de_code :: string
  de_meaning :: string
  de_retryable :: bool
  de_caller :: bool

definition domain_error_ok :: "domain_error \<Rightarrow> bool" where
  "domain_error_ok e \<longleftrightarrow> capability_id_ok (de_code e) \<and> length_between 1 2000 (de_meaning e)"

definition error_schema_entry :: "domain_error \<Rightarrow> json" where
  "error_schema_entry e = JObj
     [(''error_code'', JStr (de_code e)), (''message_template'', JStr (de_meaning e)),
      (''is_retryable'', JBool (de_retryable e)), (''is_caller_error'', JBool (de_caller e))]"

section \<open>Identities\<close>

record actor_identity =
  ac_user :: "string option"
  ac_service :: "string option"
  ac_method :: string
  ac_authenticated :: timestamp

definition one_actor_kind :: "actor_identity \<Rightarrow> py_exn + unit" where
  "one_actor_kind a =
     (if (ac_user a = None) = (ac_service a = None)
      then Inl (ValueError ''actor identity requires exactly one of user_id or service_id'')
      else if \<not> tz_aware (ac_authenticated a)
      then Inl (ValueError ''authenticated_at must be timezone-aware'')
      else Inr ())"

definition actor_valid :: "actor_identity \<Rightarrow> bool" where
  "actor_valid a \<longleftrightarrow> opt_ok identity_ok (ac_user a) \<and> opt_ok identity_ok (ac_service a) \<and>
     length_between 1 64 (ac_method a) \<and> one_actor_kind a = Inr ()"

record tenant_identity =
  tn_id :: string
  tn_membership :: string
  tn_roles :: "string list"

definition tenant_valid :: "tenant_identity \<Rightarrow> bool" where
  "tenant_valid t \<longleftrightarrow> identity_ok (tn_id t) \<and> length_between 1 64 (tn_membership t)"

record consumer_descriptor =
  cn_type :: consumer_type
  cn_id :: string
  cn_version :: "string option"
  cn_installation :: "string option"
  cn_mount :: "string option"
  cn_agent_run :: "string option"

definition consumer_valid :: "consumer_descriptor \<Rightarrow> bool" where
  "consumer_valid c \<longleftrightarrow> identity_ok (cn_id c) \<and> opt_ok (length_between 0 128) (cn_version c) \<and>
     opt_ok identity_ok (cn_installation c) \<and> opt_ok identity_ok (cn_mount c) \<and>
     opt_ok identity_ok (cn_agent_run c)"

record delegation_context =
  dl_id :: string
  dl_by :: string
  dl_capabilities :: "string list"
  dl_resources :: "string list"
  dl_data :: "string list"
  dl_release :: string
  dl_automation :: automation_level
  dl_expires :: timestamp

definition delegation_valid :: "delegation_context \<Rightarrow> bool" where
  "delegation_valid d \<longleftrightarrow> identity_ok (dl_id d) \<and> identity_ok (dl_by d) \<and>
     length_between 1 128 (dl_release d)"

record consumer_identity =
  ci_actor :: actor_identity
  ci_tenant :: tenant_identity
  ci_consumer :: consumer_descriptor
  ci_delegation :: "delegation_context option"

definition consumer_identity_valid :: "consumer_identity \<Rightarrow> bool" where
  "consumer_identity_valid i \<longleftrightarrow> actor_valid (ci_actor i) \<and> tenant_valid (ci_tenant i) \<and>
     consumer_valid (ci_consumer i) \<and> opt_ok delegation_valid (ci_delegation i)"

text \<open>\<open>actor.user_id or actor.service_id\<close>: the empty string is falsy.\<close>

definition str_or :: "string option \<Rightarrow> string option \<Rightarrow> string option" where
  "str_or a b = (case a of None \<Rightarrow> b | Some s \<Rightarrow> if s = [] then b else Some s)"

definition actor_id :: "consumer_identity \<Rightarrow> string" where
  "actor_id i = (case str_or (ac_user (ci_actor i)) (ac_service (ci_actor i)) of
                   None \<Rightarrow> [] | Some s \<Rightarrow> s)"

section \<open>Results\<close>

record artifact_ref =
  ar_id :: string
  ar_media :: string
  ar_sha :: string
  ar_size :: int
  ar_version :: int

record operation_ref =
  op_id :: string
  op_status :: operation_status
  op_version :: int

record evidence_ref =
  ev_kind :: string
  ev_reference :: string
  ev_digest :: "string option"
  ev_summary :: string

record capability_error =
  er_code :: string
  er_message :: string
  er_retryable :: bool
  er_details :: jobj

record correlation =
  cl_request :: string
  cl_trace :: "string option"

record cap_result =
  rs_ok :: bool
  rs_status :: capability_status
  rs_capability :: string
  rs_major :: int
  rs_data :: json
  rs_operation :: "operation_ref option"
  rs_artifacts :: "artifact_ref list"
  rs_error :: "capability_error option"
  rs_evidence :: "evidence_ref list"
  rs_warnings :: "string list"
  rs_correlation :: correlation

definition status_contract :: "cap_result \<Rightarrow> py_exn + unit" where
  "status_contract r =
     (let s = rs_status r; value = capability_status_value s in
      if s = Accepted \<and> rs_operation r = None
      then Inl (ValueError ''accepted result requires operation_ref'')
      else if s = Accepted \<and> rs_data r \<noteq> JNull
      then Inl (ValueError ''accepted result cannot contain data'')
      else if s \<in> {Completed, Accepted} \<and> \<not> rs_ok r
      then Inl (ValueError (value @ '' result must be ok''))
      else if s \<in> {Completed, Accepted} \<and> rs_error r \<noteq> None
      then Inl (ValueError (value @ '' result cannot contain error''))
      else if s \<in> {Rejected, Failed} \<and> rs_error r = None
      then Inl (ValueError ''rejected or failed result requires error'')
      else if rs_ok r \<and> s \<in> {Rejected, Failed}
      then Inl (ValueError ''failed result cannot be ok'')
      else if s = OutcomeUnknown \<and> rs_ok r
      then Inl (ValueError ''outcome_unknown result cannot be ok'')
      else if s = OutcomeUnknown \<and> (rs_operation r = None \<or> rs_error r = None)
      then Inl (ValueError ''outcome_unknown result requires operation_ref and error'')
      else Inr ())"

definition result_ok :: "cap_result \<Rightarrow> bool" where
  "result_ok r \<longleftrightarrow> status_contract r = Inr ()"

lemma result_ok_iff:
  "result_ok r \<longleftrightarrow> (case rs_status r of
       Completed \<Rightarrow> rs_ok r \<and> rs_error r = None
     | Accepted \<Rightarrow> rs_ok r \<and> rs_operation r \<noteq> None \<and> rs_data r = JNull \<and> rs_error r = None
     | Rejected \<Rightarrow> \<not> rs_ok r \<and> rs_error r \<noteq> None
     | Failed \<Rightarrow> \<not> rs_ok r \<and> rs_error r \<noteq> None
     | OutcomeUnknown \<Rightarrow> \<not> rs_ok r \<and> rs_operation r \<noteq> None \<and> rs_error r \<noteq> None)"
  by (cases "rs_status r") (simp_all add: result_ok_def status_contract_def Let_def)

text \<open>\<open>CapabilityResultV2.accepted\<close>.\<close>

definition accepted_result :: "string \<Rightarrow> int \<Rightarrow> string \<Rightarrow> operation_ref \<Rightarrow> cap_result" where
  "accepted_result capability major request operation =
     \<lparr>rs_ok = True, rs_status = Accepted, rs_capability = capability, rs_major = major,
      rs_data = JNull, rs_operation = Some operation, rs_artifacts = [], rs_error = None,
      rs_evidence = [], rs_warnings = [],
      rs_correlation = \<lparr>cl_request = request, cl_trace = None\<rparr>\<rparr>"

section \<open>Invocation envelope\<close>

record invocation =
  en_capability :: string
  en_major :: int
  en_release :: string
  en_payload :: jobj
  en_identity :: consumer_identity
  en_idempotency :: "string option"
  en_expected :: "string option"
  en_request :: string
  en_trace :: string
  en_deadline :: "timestamp option"
  en_approval :: "string option"

definition invocation_valid :: "invocation \<Rightarrow> bool" where
  "invocation_valid e \<longleftrightarrow> capability_id_ok (en_capability e) \<and> en_major e \<ge> 1 \<and>
     length_between 1 128 (en_release e) \<and> consumer_identity_valid (en_identity e) \<and>
     opt_ok (length_between 1 255) (en_idempotency e) \<and>
     opt_ok (length_between 0 255) (en_expected e) \<and> identity_ok (en_request e) \<and>
     identity_ok (en_trace e) \<and> opt_ok identity_ok (en_approval e)"

section \<open>Business rules\<close>

record machine_range =
  mc_field :: string
  mc_unit :: string
  mc_minimum :: "pyfloat option"
  mc_maximum :: "pyfloat option"
  mc_min_inclusive :: bool
  mc_max_inclusive :: bool

fun is_finite :: "pyfloat \<Rightarrow> bool" where
  "is_finite (Inf _) = False"
| "is_finite NaN = False"
| "is_finite _ = True"

fun finite_value :: "pyfloat \<Rightarrow> rat" where
  "finite_value (Fin q) = q"
| "finite_value _ = 0"

definition has_a_valid_bound :: "machine_range \<Rightarrow> py_exn + unit" where
  "has_a_valid_bound m =
     (if mc_minimum m = None \<and> mc_maximum m = None
      then Inl (ValueError ''machine range requires a bound'')
      else if \<not> (opt_ok is_finite (mc_minimum m) \<and> opt_ok is_finite (mc_maximum m))
      then Inl (ValueError ''machine range requires finite bounds'')
      else (case (mc_minimum m, mc_maximum m) of
              (Some lo, Some hi) \<Rightarrow>
                if finite_value lo > finite_value hi
                then Inl (ValueError ''machine range minimum exceeds maximum'') else Inr ()
            | _ \<Rightarrow> Inr ()))"

record business_invariant =
  bi_rule :: string
  bi_version :: int
  bi_statement :: string
  bi_applies :: string
  bi_enforcement :: string
  bi_error :: string
  bi_tests :: "string list"
  bi_range :: "machine_range option"

definition business_invariant_valid :: "business_invariant \<Rightarrow> bool" where
  "business_invariant_valid b \<longleftrightarrow> capability_id_ok (bi_rule b) \<and> bi_version b \<ge> 1 \<and>
     length_between 1 4000 (bi_statement b) \<and> length_between 1 4000 (bi_applies b) \<and>
     length_between 1 1000 (bi_enforcement b) \<and> length_between 1 255 (bi_error b) \<and>
     bi_tests b \<noteq> [] \<and> opt_ok (\<lambda>m. has_a_valid_bound m = Inr ()) (bi_range b)"

section \<open>Closed schemas\<close>

definition open_object :: "json \<Rightarrow> bool" where
  "open_object s \<longleftrightarrow> jget s ''type'' = Some (JStr ''object'') \<and>
     jget s ''additionalProperties'' \<noteq> Some (JBool False)"

fun obj_items :: "json \<Rightarrow> (string \<times> json) list" where
  "obj_items (JObj xs) = xs"
| "obj_items _ = []"

lemma obj_items_size: "(k, v) \<in> set (obj_items s) \<Longrightarrow> size v < size s"
proof (cases s)
  case (JObj xs)
  moreover assume "(k, v) \<in> set (obj_items s)"
  ultimately show ?thesis using in_alist_size [of k v xs] by (simp add: less_Suc_eq_le)
qed auto

lemma enumerate_item: "(i, x) \<in> set (enumerate n xs) \<Longrightarrow> x \<in> set xs"
  by (auto simp: in_set_enumerate_eq)

function assert_closed_schema :: "json \<Rightarrow> string \<Rightarrow> py_exn + unit" where
  "assert_closed_schema s path =
     (if open_object s
      then Inl (ValueError (path @ '' object schema must declare additionalProperties false''))
      else bindr (mapr (\<lambda>(name, child).
             if is_obj child then assert_closed_schema child (path @ ''.'' @ name)
             else bindr (mapr (\<lambda>(i, item).
                    if is_obj item
                    then assert_closed_schema item (path @ ''.'' @ name @ ''['' @ str_of_nat i @ '']'')
                    else Inr ()) (enumerate 0 (jlist child))) (\<lambda>_. Inr ()))
           (obj_items s)) (\<lambda>_. Inr ()))"
  by pat_completeness auto
termination
proof (relation "measure (\<lambda>(s, path). size s)", goal_cases)
  case (2 s path name_child name child)
  then have "(name, child) \<in> set (obj_items s)" by simp
  then show ?case using obj_items_size by simp
next
  case (3 s path name_child name child i_item i item)
  then have "(name, child) \<in> set (obj_items s)" "(i, item) \<in> set (enumerate 0 (jlist child))"
    by simp_all
  then have "size child < size s" "size item < size child"
    using obj_items_size [of name child s] jlist_size [OF enumerate_item [of i item 0]] by simp_all
  then show ?case by simp
qed simp

declare assert_closed_schema.simps [simp del]

text \<open>The mappings the check visits: values of mappings, and mappings that are items of a list.\<close>

inductive subschema :: "json \<Rightarrow> json \<Rightarrow> bool" where
  here: "subschema s s"
| child: "(k, c) \<in> set (obj_items s) \<Longrightarrow> is_obj c \<Longrightarrow> subschema c t \<Longrightarrow> subschema s t"
| item: "(k, c) \<in> set (obj_items s) \<Longrightarrow> u \<in> set (jlist c) \<Longrightarrow> is_obj u \<Longrightarrow> subschema u t \<Longrightarrow>
    subschema s t"

section \<open>Capability descriptors\<close>

text \<open>
  The fields of \<open>CapabilityDescriptorV2\<close> that the modelled operations and validators read; the
  texts of its documentation (\<open>title\<close>, \<open>description\<close>, \<open>use_when\<close> and the like) are left out.
\<close>

record descriptor =
  cd_id :: string
  cd_major :: int
  cd_owner :: string
  cd_lifecycle :: lifecycle_status
  cd_side_effect :: side_effect_level
  cd_execution :: execution_mode
  cd_exposure :: exposure_policy
  cd_automation :: automation_level
  cd_authorization :: string
  cd_selectors :: "resource_selector list"
  cd_classification :: classification
  cd_freshness :: int
  cd_delegation :: string
  cd_input :: json
  cd_output :: json
  cd_agent_output :: "json option"
  cd_schema_hash :: string
  cd_artifact :: string
  cd_operation :: requirement
  cd_concurrency :: concurrency_policy
  cd_version_path :: "string option"
  cd_idempotency :: requirement
  cd_replay :: replay_policy
  cd_consistency :: consistency_policy
  cd_timeout :: int
  cd_rate_cost :: int
  cd_budget :: execution_budget
  cd_confirmation :: confirmation_policy
  cd_evidence :: requirement
  cd_audit :: string
  cd_errors :: "domain_error list"
  cd_errors_complete :: bool
  cd_invariants :: "business_invariant list"
  cd_no_invariant_reason :: "string option"
  cd_error_schema :: "json list"
  cd_transaction :: json

definition descriptor_fields_ok :: "descriptor \<Rightarrow> bool" where
  "descriptor_fields_ok d \<longleftrightarrow> capability_id_ok (cd_id d) \<and> cd_major d \<ge> 1 \<and>
     owner_domain_ok (cd_owner d) \<and> length_between 1 255 (cd_authorization d) \<and>
     list_all selector_ok (cd_selectors d) \<and> cd_freshness d \<ge> 0 \<and>
     is_obj (cd_input d) \<and> is_obj (cd_output d) \<and> opt_ok is_obj (cd_agent_output d) \<and>
     opt_ok (length_between 1 512) (cd_version_path d) \<and>
     1 \<le> cd_timeout d \<and> cd_timeout d \<le> 86400 \<and> 1 \<le> cd_rate_cost d \<and> cd_rate_cost d \<le> 10000 \<and>
     budget_valid (cd_budget d) \<and> list_all domain_error_ok (cd_errors d) \<and>
     list_all business_invariant_valid (cd_invariants d) \<and>
     opt_ok (length_between 1 4000) (cd_no_invariant_reason d)"

definition descriptor_rules :: "descriptor \<Rightarrow> py_exn + unit" where
  "descriptor_rules d =
     bindr (unless_raise (cd_invariants d = [] \<or> cd_no_invariant_reason d = None)
              (ValueError ''business_rule_declaration_conflict'')) (\<lambda>_.
     bindr (unless_raise (cd_errors_complete d \<longrightarrow> cd_errors d \<noteq> [])
              (ValueError ''complete domain error contract cannot be empty'')) (\<lambda>_.
     bindr (unless_raise (cd_concurrency d = ExpectedVersion \<longrightarrow>
                            (case cd_version_path d of None \<Rightarrow> False | Some p \<Rightarrow> p \<noteq> []))
              (ValueError ''expected_version concurrency requires a payload path'')) (\<lambda>_.
     bindr (unless_raise (cd_concurrency d = NoConcurrency \<longrightarrow> cd_version_path d = None)
              (ValueError ''expected version payload path requires expected_version concurrency'')) (\<lambda>_.
     unless_raise (distinct (map de_code (cd_errors d)))
       (ValueError ''duplicate domain error contract'')))))"

text \<open>\<open>CapabilityDescriptorV2.public_schemas_are_closed\<close>.\<close>

definition public_schemas_are_closed :: "descriptor \<Rightarrow> py_exn + descriptor" where
  "public_schemas_are_closed d =
     bindr (assert_closed_schema (cd_input d) ''input_schema'') (\<lambda>_.
     bindr (assert_closed_schema (cd_output d) ''output_schema'') (\<lambda>_.
     bindr (case cd_agent_output d of None \<Rightarrow> Inr ()
            | Some s \<Rightarrow> assert_closed_schema s ''agent_output_schema'') (\<lambda>_.
     bindr (descriptor_rules d) (\<lambda>_.
     Inr (if cd_error_schema d = [] \<and> cd_errors d \<noteq> []
          then d\<lparr>cd_error_schema := map error_schema_entry (cd_errors d)\<rparr> else d)))))"

definition descriptor_valid :: "descriptor \<Rightarrow> bool" where
  "descriptor_valid d \<longleftrightarrow> descriptor_fields_ok d \<and> public_schemas_are_closed d = Inr d"

section \<open>Facts\<close>

lemma mapr_pairs_iff:
  "(\<exists>us. mapr (\<lambda>(a, b). f a b) xs = Inr us) \<longleftrightarrow> (\<forall>(a, b)\<in>set xs. \<exists>u. f a b = Inr u)"
  by (induction xs) (auto simp: bindr_eq_Inr)

lemma mapr_items_iff:
  "(\<exists>us. mapr (\<lambda>(i, u). if is_obj u then f i u else Inr ()) (enumerate 0 (jlist c)) = Inr us) \<longleftrightarrow>
   (\<forall>(i, u)\<in>set (enumerate 0 (jlist c)). is_obj u \<longrightarrow> f i u = Inr ())"
  unfolding mapr_pairs_iff by (intro ball_cong refl) (auto split: prod.split)

lemma item_of_list: "(i, u) \<in> set (enumerate n (jlist c)) \<Longrightarrow> \<not> is_obj c"
  by (cases c) auto

lemma assert_closed_unfold:
  "assert_closed_schema s path = Inr () \<longleftrightarrow>
     \<not> open_object s \<and>
     (\<forall>(k, c) \<in> set (obj_items s).
        (is_obj c \<longrightarrow> assert_closed_schema c (path @ ''.'' @ k) = Inr ()) \<and>
        (\<forall>(i, u) \<in> set (enumerate 0 (jlist c)). is_obj u \<longrightarrow>
           assert_closed_schema u (path @ ''.'' @ k @ ''['' @ str_of_nat i @ '']'') = Inr ()))"
proof -
  have "assert_closed_schema s path = Inr () \<longleftrightarrow> \<not> open_object s \<and>
    (\<forall>(k, c) \<in> set (obj_items s). \<exists>w.
       (if is_obj c then assert_closed_schema c (path @ ''.'' @ k)
        else bindr (mapr (\<lambda>(i, u). if is_obj u
               then assert_closed_schema u (path @ ''.'' @ k @ ''['' @ str_of_nat i @ '']'')
               else Inr ()) (enumerate 0 (jlist c))) (\<lambda>_. Inr ())) = Inr w)"
    by (subst assert_closed_schema.simps) (simp add: bindr_eq_Inr mapr_pairs_iff)
  also have "\<dots> \<longleftrightarrow> \<not> open_object s \<and> (\<forall>(k, c) \<in> set (obj_items s).
        (is_obj c \<longrightarrow> assert_closed_schema c (path @ ''.'' @ k) = Inr ()) \<and>
        (\<forall>(i, u) \<in> set (enumerate 0 (jlist c)). is_obj u \<longrightarrow>
           assert_closed_schema u (path @ ''.'' @ k @ ''['' @ str_of_nat i @ '']'') = Inr ()))"
    by (intro conj_cong refl ball_cong)
      (auto simp: bindr_eq_Inr mapr_items_iff dest: item_of_list split: prod.split)
  finally show ?thesis .
qed

lemma closed_schema_complete:
  "subschema s t \<Longrightarrow> open_object t \<Longrightarrow> assert_closed_schema s path \<noteq> Inr ()"
proof (induction arbitrary: path rule: subschema.induct)
  case (here s)
  then show ?case by (subst assert_closed_unfold) simp
next
  case (child k c s t)
  then show ?case by (subst assert_closed_unfold) (auto intro!: bexI [of _ "(k, c)"])
next
  case (item k c s u t)
  then obtain i where "i < length (jlist c)" "u = jlist c ! i" by (auto simp: in_set_conv_nth)
  then have "(i, u) \<in> set (enumerate 0 (jlist c))" by (simp add: in_set_enumerate_eq)
  then show ?case using item by (subst assert_closed_unfold) (auto intro!: bexI [of _ "(k, c)"])
qed

lemma closed_schema_sound:
  "\<forall>t. subschema s t \<longrightarrow> \<not> open_object t \<Longrightarrow> assert_closed_schema s path = Inr ()"
proof (induction "size s" arbitrary: s path rule: less_induct)
  case less
  have IH: "assert_closed_schema c p = Inr ()" if "size c < size s"
    "\<And>t. subschema c t \<Longrightarrow> subschema s t" for c p
    using less that by blast
  show ?case
    by (subst assert_closed_unfold)
      (use less.prems subschema.here in
        \<open>auto intro!: IH dest: enumerate_item intro: subschema.intros
          simp: obj_items_size less_trans [OF jlist_size obj_items_size]\<close>)
qed

text \<open>
  A schema passes the closed-schema check exactly when every mapping the check can reach,
  through values of mappings and through items of lists, that says it is an object schema
  forbids additional properties.
\<close>

theorem closed_schema_iff:
  "assert_closed_schema s path = Inr () \<longleftrightarrow> (\<forall>t. subschema s t \<longrightarrow> \<not> open_object t)"
  using closed_schema_complete closed_schema_sound by blast

theorem closed_schema_iff_witness:
  "assert_closed_schema (JObj [(''properties'', JObj [(''a'', JObj [(''type'', JStr ''object'')])])]) [] \<noteq> Inr ()"
proof -
  have "subschema (JObj [(''properties'', JObj [(''a'', JObj [(''type'', JStr ''object'')])])])
          (JObj [(''type'', JStr ''object'')])"
    by (rule subschema.child [of "''properties''" "JObj [(''a'', JObj [(''type'', JStr ''object'')])]"],
        simp, simp, rule subschema.child [of "''a''" "JObj [(''type'', JStr ''object'')]"])
      (simp_all add: subschema.here)
  then show ?thesis
    unfolding closed_schema_iff by (auto simp: open_object_def)
qed

end
