(* ===== verification/RevisionModels.thy ===== *)
theory RevisionModels
  imports RevisionMerge Contracts
begin

text \<open>
  The immutable records of the revision kernel
  (\<open>backend/capability_v2/revision/models.py\<close>): references, snapshots, commits, branches, change
  sets, diffs, approval challenges and lineage edges, each with the field patterns and model
  validators of its class as a predicate, and the sn_content-addressed documents behind the
  identifiers. A time is an instant, with or without a time zone.
\<close>

section \<open>Field patterns\<close>

definition domain_ok :: "string \<Rightarrow> bool" where
  "domain_ok s = match_ident is_lower (\<lambda>c. is_lower c \<or> is_digit c \<or> c \<in> set ''_.-'') 1 63 s"

definition branch_pattern :: "string \<Rightarrow> bool" where
  "branch_pattern s = match_ident is_alnum (\<lambda>c. is_alnum c \<or> c \<in> set ''._/-'') 0 127 s"

definition prefixed_hex :: "string \<Rightarrow> nat \<Rightarrow> string \<Rightarrow> bool" where
  "prefixed_hex p n s \<longleftrightarrow>
     str_prefix p s \<and> length s = length p + n \<and> list_all is_hex (drop (length p) s)"

definition hash_ok :: "string \<Rightarrow> bool" where
  "hash_ok s = prefixed_hex ''sha256:'' 64 s"

definition commit_id_ok :: "string \<Rightarrow> bool" where
  "commit_id_ok s = prefixed_hex ''cmt_'' 40 s"

section \<open>References\<close>

record repository_ref =
  r_tenant :: string
  r_id :: string
  r_domain :: string
  r_resource :: string

definition repository_ref_valid :: "repository_ref \<Rightarrow> bool" where
  "repository_ref_valid r \<longleftrightarrow> identity_ok (r_tenant r) \<and> identity_ok (r_id r) \<and>
     domain_ok (r_domain r) \<and> identity_ok (r_resource r)"

record branch_ref =
  br_repository :: repository_ref
  br_name :: string

definition safe_branch_name :: "string \<Rightarrow> bool" where
  "safe_branch_name s \<longleftrightarrow>
     list_all (\<lambda>segment. segment \<notin> {'''', ''.'', ''..''}) (str_split CHR ''/'' s)"

definition branch_ref_valid :: "branch_ref \<Rightarrow> bool" where
  "branch_ref_valid b \<longleftrightarrow> branch_pattern (br_name b) \<and> safe_branch_name (br_name b)"

record commit_ref =
  cr_repository :: repository_ref
  cr_commit_id :: string
  cr_content_hash :: string

record changeset_ref =
  cs_repository :: repository_ref
  cs_id :: string
  cs_base :: string

record diff_ref =
  df_repository :: repository_ref
  df_id :: string
  df_from :: string
  df_to :: string

record baseline_ref =
  bl_repository :: repository_ref
  bl_commit_id :: string

section \<open>Documents and digests\<close>

definition repository_json :: "repository_ref \<Rightarrow> json" where
  "repository_json r = JObj
     [(''tenant_id'', JStr (r_tenant r)), (''repository_id'', JStr (r_id r)),
      (''owner_domain'', JStr (r_domain r)), (''resource_id'', JStr (r_resource r))]"

definition opt_json :: "('a \<Rightarrow> json) \<Rightarrow> 'a option \<Rightarrow> json" where
  "opt_json f v = (case v of None \<Rightarrow> JNull | Some x \<Rightarrow> f x)"

definition change_json :: "change \<Rightarrow> json" where
  "change_json c = JObj
     [(''change_type'', JStr (change_type c)), (''path'', JStr (ch_path c)),
      (''before'', ch_before c), (''after'', ch_after c),
      (''identity'', opt_json JStr (ch_identity c)),
      (''from_index'', opt_json (JInt \<circ> int) (from_index c)),
      (''to_index'', opt_json (JInt \<circ> int) (to_index c)),
      (''resource_ref'', resource_ref c), (''breaking'', JBool (breaking c))]"

text \<open>\<open>hashlib.sha256(canonical_json_bytes(value)).hexdigest()\<close>.\<close>

definition digest :: "hostlib \<Rightarrow> json \<Rightarrow> py_exn + string" where
  "digest h v = bindr (canonical_json_bytes h v) (\<lambda>bytes. Inr (sha256_hex h bytes))"

definition digest_is :: "hostlib \<Rightarrow> json \<Rightarrow> string \<Rightarrow> nat \<Rightarrow> string \<Rightarrow> bool" where
  "digest_is h v prefix n ident =
     (case digest h v of Inl _ \<Rightarrow> False | Inr d \<Rightarrow> ident = prefix @ take n d)"

section \<open>Snapshots and commits\<close>

record snapshot =
  sn_id :: string
  sn_content_hash :: string
  sn_byte_size :: nat
  sn_content :: json

definition snapshot_valid :: "hostlib \<Rightarrow> snapshot \<Rightarrow> bool" where
  "snapshot_valid h s \<longleftrightarrow>
     prefixed_hex ''snp_'' 32 (sn_id s) \<and> hash_ok (sn_content_hash s) \<and> is_obj (sn_content s) \<and>
     (case canonical_json_bytes h (sn_content s) of
        Inl _ \<Rightarrow> False
      | Inr data \<Rightarrow>
          (let d = sha256_hex h data in
           sn_content_hash s = ''sha256:'' @ d \<and> sn_id s = ''snp_'' @ take 32 d \<and>
           sn_byte_size s = length data))"

record commit =
  cm_id :: string
  cm_repository :: repository_ref
  cm_parents :: "string list"
  cm_snapshot :: snapshot
  cm_content_hash :: string
  cm_author :: string
  cm_message :: string
  cm_created_at :: timestamp

definition commit_document :: "repository_ref \<Rightarrow> string list \<Rightarrow> snapshot \<Rightarrow> string \<Rightarrow> string \<Rightarrow> json" where
  "commit_document r parents s author msg = JObj
     [(''format'', JStr ''ai00.revision.commit.v1''), (''repository'', repository_json r),
      (''parents'', JList (map JStr parents)), (''snapshot_id'', JStr (sn_id s)),
      (''content_hash'', JStr (sn_content_hash s)), (''author_id'', JStr author),
      (''message'', JStr msg)]"

definition commit_valid :: "hostlib \<Rightarrow> commit \<Rightarrow> bool" where
  "commit_valid h c \<longleftrightarrow>
     snapshot_valid h (cm_snapshot c) \<and> commit_id_ok (cm_id c) \<and> length (cm_parents c) \<le> 2 \<and> hash_ok (cm_content_hash c) \<and>
     identity_ok (cm_author c) \<and> 1 \<le> py_len (cm_message c) \<and> py_len (cm_message c) \<le> 2000 \<and>
     distinct (cm_parents c) \<and> tz_aware (cm_created_at c) \<and>
     cm_content_hash c = sn_content_hash (cm_snapshot c) \<and>
     digest_is h (commit_document (cm_repository c) (cm_parents c) (cm_snapshot c)
        (cm_author c) (cm_message c)) ''cmt_'' 40 (cm_id c)"

definition commit_ref_of :: "commit \<Rightarrow> commit_ref" where
  "commit_ref_of c = \<lparr>cr_repository = cm_repository c, cr_commit_id = cm_id c,
     cr_content_hash = cm_content_hash c\<rparr>"

text \<open>Pydantic's \<open>==\<close>: field by field, with Python's equality on the sn_content.\<close>

definition snapshot_eq :: "snapshot \<Rightarrow> snapshot \<Rightarrow> bool" where
  "snapshot_eq s t \<longleftrightarrow> sn_id s = sn_id t \<and> sn_content_hash s = sn_content_hash t \<and>
     sn_byte_size s = sn_byte_size t \<and> py_eq (sn_content s) (sn_content t)"

definition commit_eq :: "commit \<Rightarrow> commit \<Rightarrow> bool" where
  "commit_eq c d \<longleftrightarrow> cm_id c = cm_id d \<and> cm_repository c = cm_repository d \<and>
     cm_parents c = cm_parents d \<and> snapshot_eq (cm_snapshot c) (cm_snapshot d) \<and>
     cm_content_hash c = cm_content_hash d \<and> cm_author c = cm_author d \<and>
     cm_message c = cm_message d \<and> cm_created_at c = cm_created_at d"

section \<open>Branches\<close>

record branch =
  b_ref :: branch_ref
  b_head :: string
  b_protected :: bool
  b_policy :: "string option"
  b_version :: nat

definition branch_valid :: "branch \<Rightarrow> bool" where
  "branch_valid b \<longleftrightarrow> commit_id_ok (b_head b) \<and>
     (case b_policy b of None \<Rightarrow> True | Some p \<Rightarrow> py_len p \<le> 128) \<and> 1 \<le> b_version b"

section \<open>Diffs and change sets\<close>

record diff_record =
  dr_ref :: diff_ref
  dr_changes :: "change list"

definition diff_document :: "repository_ref \<Rightarrow> string \<Rightarrow> string \<Rightarrow> change list \<Rightarrow> json" where
  "diff_document r from_commit to_commit cs = JObj
     [(''format'', JStr ''ai00.revision.diff.v1''), (''repository'', repository_json r),
      (''from'', JStr from_commit), (''to'', JStr to_commit),
      (''changes'', JList (map change_json cs))]"

definition diff_record_valid :: "hostlib \<Rightarrow> diff_record \<Rightarrow> bool" where
  "diff_record_valid h d \<longleftrightarrow>
     prefixed_hex ''dif_'' 32 (df_id (dr_ref d)) \<and> commit_id_ok (df_from (dr_ref d)) \<and>
     commit_id_ok (df_to (dr_ref d)) \<and>
     digest_is h (diff_document (df_repository (dr_ref d)) (df_from (dr_ref d)) (df_to (dr_ref d))
        (dr_changes d)) ''dif_'' 32 (df_id (dr_ref d))"

record changeset =
  c_ref :: changeset_ref
  c_changes :: "change list"
  c_result_hash :: string
  c_created_by :: string
  c_created_at :: timestamp

definition changeset_document ::
  "repository_ref \<Rightarrow> string \<Rightarrow> change list \<Rightarrow> string \<Rightarrow> string \<Rightarrow> json"
where
  "changeset_document r base cs result_hash author = JObj
     [(''format'', JStr ''ai00.revision.changeset.v1''), (''repository'', repository_json r),
      (''base_commit'', JStr base), (''changes'', JList (map change_json cs)),
      (''result_content_hash'', JStr result_hash), (''created_by'', JStr author)]"

definition changeset_valid :: "hostlib \<Rightarrow> changeset \<Rightarrow> bool" where
  "changeset_valid h c \<longleftrightarrow>
     prefixed_hex ''chg_'' 32 (cs_id (c_ref c)) \<and> commit_id_ok (cs_base (c_ref c)) \<and>
     hash_ok (c_result_hash c) \<and> identity_ok (c_created_by c) \<and> tz_aware (c_created_at c) \<and>
     digest_is h (changeset_document (cs_repository (c_ref c)) (cs_base (c_ref c)) (c_changes c)
        (c_result_hash c) (c_created_by c)) ''chg_'' 32 (cs_id (c_ref c))"

section \<open>Approval challenges and merge results\<close>

record challenge =
  bc_id :: string
  bc_repository :: repository_ref
  bc_branch :: string
  bc_target_head :: string
  bc_source_head :: string
  bc_policy :: string

definition challenge_document :: "repository_ref \<Rightarrow> string \<Rightarrow> string \<Rightarrow> string \<Rightarrow> string option \<Rightarrow> json" where
  "challenge_document r tbranch thead shead pol = JObj
     [(''repository'', repository_json r), (''target_branch'', JStr tbranch),
      (''target_head'', JStr thead), (''source_head'', JStr shead), (''policy'', opt_json JStr pol)]"

definition challenge_valid :: "challenge \<Rightarrow> bool" where
  "challenge_valid c \<longleftrightarrow>
     prefixed_hex ''bra_'' 32 (bc_id c) \<and> branch_pattern (bc_branch c) \<and>
     commit_id_ok (bc_target_head c) \<and> commit_id_ok (bc_source_head c) \<and>
     1 \<le> py_len (bc_policy c) \<and> py_len (bc_policy c) \<le> 128"

datatype merge_status = Merged | Conflicted | ApprovalRequired

record merge_result =
  mr_status :: merge_status
  mr_commit :: "commit option"
  mr_conflicts :: "conflict list"
  mr_approval :: "challenge option"

definition merge_result_valid :: "merge_result \<Rightarrow> bool" where
  "merge_result_valid r \<longleftrightarrow>
     (case mr_status r of
        Merged \<Rightarrow> mr_commit r \<noteq> None \<and> mr_conflicts r = [] \<and> mr_approval r = None
      | Conflicted \<Rightarrow> mr_conflicts r \<noteq> [] \<and> mr_commit r = None \<and> mr_approval r = None
      | ApprovalRequired \<Rightarrow> mr_approval r \<noteq> None \<and> mr_commit r = None \<and> mr_conflicts r = [])"

record commit_outcome =
  co_branch :: branch_ref
  co_commit :: commit

section \<open>Lineage\<close>

record lineage_edge =
  le_id :: string
  le_upstream :: commit_ref
  le_downstream :: commit_ref
  le_relation :: string
  le_created_by :: string
  le_created_at :: timestamp

definition commit_ref_json :: "commit_ref \<Rightarrow> json" where
  "commit_ref_json r = JObj
     [(''repository'', repository_json (cr_repository r)), (''commit_id'', JStr (cr_commit_id r)),
      (''content_hash'', JStr (cr_content_hash r))]"

definition lineage_document :: "commit_ref \<Rightarrow> commit_ref \<Rightarrow> string \<Rightarrow> string \<Rightarrow> json" where
  "lineage_document up down rel author = JObj
     [(''format'', JStr ''ai00.revision.lineage.v1''), (''upstream'', commit_ref_json up),
      (''downstream'', commit_ref_json down), (''relation'', JStr rel), (''created_by'', JStr author)]"

definition lineage_edge_valid :: "hostlib \<Rightarrow> lineage_edge \<Rightarrow> bool" where
  "lineage_edge_valid h e \<longleftrightarrow>
     prefixed_hex ''lin_'' 32 (le_id e) \<and> domain_ok (le_relation e) \<and> identity_ok (le_created_by e) \<and>
     r_tenant (cr_repository (le_upstream e)) = r_tenant (cr_repository (le_downstream e)) \<and>
     le_upstream e \<noteq> le_downstream e \<and> tz_aware (le_created_at e) \<and>
     digest_is h (lineage_document (le_upstream e) (le_downstream e) (le_relation e) (le_created_by e))
       ''lin_'' 32 (le_id e)"

record lineage_graph =
  lg_root :: commit_ref
  lg_direction :: string
  lg_edges :: "lineage_edge list"
  lg_truncated :: bool

end
