(* ===== verification/RevisionRepository.thy ===== *)
theory RevisionRepository
  imports RevisionModels
begin

text \<open>
  The revision store (\<open>backend/capability_v2/revision/repository.py\<close>): the operations of
  \<open>InMemoryRevisionRepository\<close> on its seven dictionaries, each under the instance lock and hence
  one atomic step. Every operation checks before it writes, so a raised error leaves the state as
  it was: the result is an error or the returned value with the new state. \<open>_copy\<close> validates and
  deep-copies a record; on values there is nothing to copy, and only \<open>protect_branch\<close> copies a
  record that has not been validated before.

  Commits are kept in insertion order, as a Python dictionary does, and the invariant uses that
  order: every parent of a commit was stored before it.
\<close>

section \<open>Errors and state\<close>

datatype rev_error =
    RepositoryExists string
  | RecordNotFound string
  | CompareAndSwap string string
  | RevisionNotFound string
  | BranchConflict string string
  | ProtectedBranch
  | SnapshotTooLarge
  | ChangeSetTooLarge
  | Raised py_exn

record repo_state =
  rs_repositories :: "string \<times> string \<Rightarrow> repository_ref option"
  rs_snapshots :: "string \<times> string \<Rightarrow> snapshot option"
  rs_commits :: "(string \<times> commit) list"
  rs_branches :: "string \<times> string \<times> string \<Rightarrow> branch option"
  rs_lineage :: "(string \<times> lineage_edge) list"
  rs_changesets :: "string \<times> string \<times> string \<Rightarrow> changeset option"
  rs_diffs :: "string \<times> string \<times> string \<Rightarrow> diff_record option"

definition empty_repo :: repo_state where
  "empty_repo = \<lparr>rs_repositories = Map.empty, rs_snapshots = Map.empty, rs_commits = [],
     rs_branches = Map.empty, rs_lineage = [], rs_changesets = Map.empty, rs_diffs = Map.empty\<rparr>"

definition repo_key :: "repository_ref \<Rightarrow> string \<times> string" where
  "repo_key r = (r_tenant r, r_id r)"

definition branch_key :: "branch_ref \<Rightarrow> string \<times> string \<times> string" where
  "branch_key b = (r_tenant (br_repository b), r_id (br_repository b), br_name b)"

definition item_key :: "repository_ref \<Rightarrow> string \<Rightarrow> string \<times> string \<times> string" where
  "item_key r i = (r_tenant r, r_id r, i)"

section \<open>Reading\<close>

definition repo_get_commit :: "repo_state \<Rightarrow> string \<Rightarrow> commit option" where
  "repo_get_commit s i = map_of (rs_commits s) i"

definition repo_get_branch :: "repo_state \<Rightarrow> branch_ref \<Rightarrow> branch option" where
  "repo_get_branch s b = rs_branches s (branch_key b)"

definition repo_get_snapshot :: "repo_state \<Rightarrow> string \<Rightarrow> string \<Rightarrow> snapshot option" where
  "repo_get_snapshot s tenant i = rs_snapshots s (tenant, i)"

definition repo_get_changeset :: "repo_state \<Rightarrow> changeset_ref \<Rightarrow> changeset option" where
  "repo_get_changeset s r = rs_changesets s (item_key (cs_repository r) (cs_id r))"

definition repo_get_diff :: "repo_state \<Rightarrow> diff_ref \<Rightarrow> diff_record option" where
  "repo_get_diff s r = rs_diffs s (item_key (df_repository r) (df_id r))"

definition repository_exists :: "repo_state \<Rightarrow> repository_ref \<Rightarrow> bool" where
  "repository_exists s r \<longleftrightarrow> rs_repositories s (repo_key r) = Some r"

definition list_lineage :: "repo_state \<Rightarrow> commit_ref \<Rightarrow> string \<Rightarrow> rev_error + lineage_edge list" where
  "list_lineage s r direction =
     (if direction \<notin> {''upstream'', ''downstream''}
      then Inl (Raised (ValueError ''lineage direction must be upstream or downstream''))
      else Inr (sort_key le_id (filter
        (\<lambda>e. if direction = ''downstream'' then le_upstream e = r else le_downstream e = r)
        (map snd (rs_lineage s)))))"

section \<open>Writing\<close>

definition repo_create_repository :: "repo_state \<Rightarrow> repository_ref \<Rightarrow> rev_error + repo_state" where
  "repo_create_repository s r =
     (if rs_repositories s (repo_key r) \<noteq> None
      then Inl (RepositoryExists ''revision repository already exists'')
      else Inr (s\<lparr>rs_repositories := (rs_repositories s)(repo_key r \<mapsto> r)\<rparr>))"

definition repo_initialize ::
  "repo_state \<Rightarrow> repository_ref \<Rightarrow> branch_ref \<Rightarrow> commit \<Rightarrow> rev_error + branch \<times> repo_state"
where
  "repo_initialize s r b c =
     (if rs_repositories s (repo_key r) \<noteq> None \<or> rs_branches s (branch_key b) \<noteq> None
      then Inl (RepositoryExists ''revision repository already exists'')
      else if br_repository b \<noteq> r \<or> cm_repository c \<noteq> r \<or> cm_parents c \<noteq> []
      then Inl (Raised (ValueError ''initial commit must be a root in the same repository''))
      else
        (let created = \<lparr>b_ref = b, b_head = cm_id c, b_protected = False, b_policy = None,
                        b_version = 1\<rparr> in
         Inr (created,
           s\<lparr>rs_repositories := (rs_repositories s)(repo_key r \<mapsto> r),
             rs_snapshots := (rs_snapshots s)((r_tenant r, sn_id (cm_snapshot c)) \<mapsto> cm_snapshot c),
             rs_commits := AList.update (cm_id c) c (rs_commits s),
             rs_branches := (rs_branches s)(branch_key b \<mapsto> created)\<rparr>)))"

definition repo_save_snapshot ::
  "repo_state \<Rightarrow> string \<Rightarrow> snapshot \<Rightarrow> rev_error + snapshot \<times> repo_state"
where
  "repo_save_snapshot s tenant x =
     (case rs_snapshots s (tenant, sn_id x) of
        Some old \<Rightarrow>
          if sn_content_hash old \<noteq> sn_content_hash x
          then Inl (Raised (RuntimeError ''snapshot identifier collision''))
          else Inr (old, s)
      | None \<Rightarrow> Inr (x, s\<lparr>rs_snapshots := (rs_snapshots s)((tenant, sn_id x) \<mapsto> x)\<rparr>))"

definition repo_create_branch :: "repo_state \<Rightarrow> branch \<Rightarrow> rev_error + repo_state" where
  "repo_create_branch s b =
     (if rs_branches s (branch_key (b_ref b)) \<noteq> None
      then Inl (RepositoryExists ''branch already exists'')
      else (case map_of (rs_commits s) (b_head b) of
          None \<Rightarrow> Inl (RecordNotFound ''branch head is outside repository'')
        | Some c \<Rightarrow>
            if cm_repository c \<noteq> br_repository (b_ref b)
            then Inl (RecordNotFound ''branch head is outside repository'')
            else Inr (s\<lparr>rs_branches := (rs_branches s)(branch_key (b_ref b) \<mapsto> b)\<rparr>)))"

definition parents_stored :: "repo_state \<Rightarrow> commit \<Rightarrow> bool" where
  "parents_stored s c \<longleftrightarrow>
     list_all (\<lambda>p. case map_of (rs_commits s) p of None \<Rightarrow> False
                | Some pc \<Rightarrow> cm_repository pc = cm_repository c) (cm_parents c)"

definition repo_append_commit ::
  "repo_state \<Rightarrow> branch_ref \<Rightarrow> commit \<Rightarrow> string option \<Rightarrow> rev_error + branch \<times> repo_state"
where
  "repo_append_commit s b c expected =
     (if cm_repository c \<noteq> br_repository b
      then Inl (RecordNotFound ''commit is outside branch repository'')
      else if cm_parents c = [] \<or> Some (hd (cm_parents c)) \<noteq> expected
      then Inl (Raised (ValueError ''commit first parent must equal the expected branch head''))
      else
        (let current = rs_branches s (branch_key b);
             actual = (case current of None \<Rightarrow> [] | Some x \<Rightarrow> b_head x);
             want = (case expected of None \<Rightarrow> [] | Some e \<Rightarrow> e);
             snapshot_key = (r_tenant (cm_repository c), sn_id (cm_snapshot c)) in
         if actual \<noteq> want then Inl (CompareAndSwap want actual)
         else if \<not> parents_stored s c
         then Inl (RecordNotFound ''commit parent is outside repository'')
         else if (case map_of (rs_commits s) (cm_id c) of None \<Rightarrow> False
                  | Some old \<Rightarrow> \<not> commit_eq old c)
         then Inl (Raised (RuntimeError ''commit identifier collision''))
         else if (case rs_snapshots s snapshot_key of None \<Rightarrow> False
                  | Some old \<Rightarrow> sn_content_hash old \<noteq> sn_content_hash (cm_snapshot c))
         then Inl (Raised (RuntimeError ''snapshot identifier collision''))
         else
           (let next = \<lparr>b_ref = b, b_head = cm_id c,
                  b_protected = (case current of None \<Rightarrow> False | Some x \<Rightarrow> b_protected x),
                  b_policy = (case current of None \<Rightarrow> None | Some x \<Rightarrow> b_policy x),
                  b_version = (case current of None \<Rightarrow> 1 | Some x \<Rightarrow> b_version x + 1)\<rparr> in
            Inr (next,
              s\<lparr>rs_snapshots := (rs_snapshots s)(snapshot_key \<mapsto> cm_snapshot c),
                rs_commits := AList.update (cm_id c) c (rs_commits s),
                rs_branches := (rs_branches s)(branch_key b \<mapsto> next)\<rparr>))))"

definition repo_protect_branch ::
  "repo_state \<Rightarrow> branch_ref \<Rightarrow> string \<Rightarrow> rev_error + branch \<times> repo_state"
where
  "repo_protect_branch s b pol =
     (case rs_branches s (branch_key b) of
        None \<Rightarrow> Inl (RecordNotFound ''branch not found'')
      | Some current \<Rightarrow>
          (let updated = current\<lparr>b_protected := True, b_policy := Some pol,
                                 b_version := b_version current + 1\<rparr> in
           if \<not> branch_valid updated then Inl (Raised (ValueError ''branch validation''))
           else Inr (updated, s\<lparr>rs_branches := (rs_branches s)(branch_key b \<mapsto> updated)\<rparr>)))"

definition same_changeset :: "changeset \<Rightarrow> changeset \<Rightarrow> bool" where
  "same_changeset c d \<longleftrightarrow> c_ref c = c_ref d \<and>
     py_eq (JList (map change_json (c_changes c))) (JList (map change_json (c_changes d))) \<and>
     c_result_hash c = c_result_hash d \<and> c_created_by c = c_created_by d"

definition commit_in :: "repo_state \<Rightarrow> repository_ref \<Rightarrow> string \<Rightarrow> bool" where
  "commit_in s r i \<longleftrightarrow>
     (case map_of (rs_commits s) i of None \<Rightarrow> False | Some c \<Rightarrow> cm_repository c = r)"

definition repo_save_changeset ::
  "repo_state \<Rightarrow> changeset \<Rightarrow> rev_error + changeset \<times> repo_state"
where
  "repo_save_changeset s c =
     (if \<not> commit_in s (cs_repository (c_ref c)) (cs_base (c_ref c))
      then Inl (RecordNotFound ''changeset base commit not found'')
      else
        (let key = item_key (cs_repository (c_ref c)) (cs_id (c_ref c)) in
         case rs_changesets s key of
           None \<Rightarrow> Inr (c, s\<lparr>rs_changesets := (rs_changesets s)(key \<mapsto> c)\<rparr>)
         | Some old \<Rightarrow>
             if \<not> same_changeset old c
             then Inl (Raised (RuntimeError ''changeset identifier collision''))
             else Inr (old, s)))"

definition same_diff :: "diff_record \<Rightarrow> diff_record \<Rightarrow> bool" where
  "same_diff c d \<longleftrightarrow> dr_ref c = dr_ref d \<and>
     py_eq (JList (map change_json (dr_changes c))) (JList (map change_json (dr_changes d)))"

definition repo_save_diff ::
  "repo_state \<Rightarrow> diff_record \<Rightarrow> rev_error + diff_record \<times> repo_state"
where
  "repo_save_diff s d =
     (if \<not> commit_in s (df_repository (dr_ref d)) (df_from (dr_ref d)) \<or>
         \<not> commit_in s (df_repository (dr_ref d)) (df_to (dr_ref d))
      then Inl (RecordNotFound ''diff commit not found'')
      else
        (let key = item_key (df_repository (dr_ref d)) (df_id (dr_ref d)) in
         case rs_diffs s key of
           None \<Rightarrow> Inr (d, s\<lparr>rs_diffs := (rs_diffs s)(key \<mapsto> d)\<rparr>)
         | Some old \<Rightarrow>
             if \<not> same_diff old d then Inl (Raised (RuntimeError ''diff identifier collision''))
             else Inr (old, s)))"

definition endpoint_stored :: "repo_state \<Rightarrow> commit_ref \<Rightarrow> bool" where
  "endpoint_stored s r \<longleftrightarrow>
     (case map_of (rs_commits s) (cr_commit_id r) of None \<Rightarrow> False
      | Some c \<Rightarrow> commit_ref_of c = r)"

definition repo_save_lineage ::
  "repo_state \<Rightarrow> lineage_edge \<Rightarrow> rev_error + lineage_edge \<times> repo_state"
where
  "repo_save_lineage s e =
     (if \<not> endpoint_stored s (le_upstream e) \<or> \<not> endpoint_stored s (le_downstream e)
      then Inl (RecordNotFound ''lineage endpoint not found'')
      else (case map_of (rs_lineage s) (le_id e) of
          None \<Rightarrow> Inr (e, s\<lparr>rs_lineage := AList.update (le_id e) e (rs_lineage s)\<rparr>)
        | Some old \<Rightarrow>
            if (le_upstream old, le_downstream old, le_relation old, le_created_by old) \<noteq>
               (le_upstream e, le_downstream e, le_relation e, le_created_by e)
            then Inl (Raised (RuntimeError ''lineage identifier collision''))
            else Inr (old, s)))"

section \<open>Invariant\<close>

declare split_paired_All [simp del] split_paired_Ex [simp del]

text \<open>Every commit is stored under its identifier, once, after all its parents.\<close>

fun parents_before :: "string list \<Rightarrow> (string \<times> commit) list \<Rightarrow> bool" where
  "parents_before seen [] = True"
| "parents_before seen ((k, c) # r) =
     (k \<notin> set seen \<and> cm_id c = k \<and> set (cm_parents c) \<subseteq> set seen \<and> parents_before (k # seen) r)"

definition commit_placed :: "hostlib \<Rightarrow> repo_state \<Rightarrow> commit \<Rightarrow> bool" where
  "commit_placed h s c \<longleftrightarrow> commit_valid h c \<and> parents_stored s c \<and>
     rs_repositories s (repo_key (cm_repository c)) = Some (cm_repository c) \<and>
     (\<exists>x. rs_snapshots s (r_tenant (cm_repository c), sn_id (cm_snapshot c)) = Some x \<and>
          sn_content_hash x = sn_content_hash (cm_snapshot c))"

definition commits_inv :: "hostlib \<Rightarrow> repo_state \<Rightarrow> bool" where
  "commits_inv h s \<longleftrightarrow> parents_before [] (rs_commits s) \<and>
     (\<forall>k c. map_of (rs_commits s) k = Some c \<longrightarrow> commit_placed h s c)"

definition branches_inv :: "repo_state \<Rightarrow> bool" where
  "branches_inv s \<longleftrightarrow> (\<forall>k b. rs_branches s k = Some b \<longrightarrow>
     branch_key (b_ref b) = k \<and> commit_in s (br_repository (b_ref b)) (b_head b) \<and> 1 \<le> b_version b)"

definition lineage_inv :: "hostlib \<Rightarrow> repo_state \<Rightarrow> bool" where
  "lineage_inv h s \<longleftrightarrow> (\<forall>k e. map_of (rs_lineage s) k = Some e \<longrightarrow>
     le_id e = k \<and> lineage_edge_valid h e \<and> endpoint_stored s (le_upstream e) \<and>
     endpoint_stored s (le_downstream e)) \<and> distinct (map fst (rs_lineage s))"

definition records_inv :: "repo_state \<Rightarrow> bool" where
  "records_inv s \<longleftrightarrow>
     (\<forall>k c. rs_changesets s k = Some c \<longrightarrow> k = item_key (cs_repository (c_ref c)) (cs_id (c_ref c)) \<and>
        commit_in s (cs_repository (c_ref c)) (cs_base (c_ref c))) \<and>
     (\<forall>k d. rs_diffs s k = Some d \<longrightarrow> k = item_key (df_repository (dr_ref d)) (df_id (dr_ref d)) \<and>
        commit_in s (df_repository (dr_ref d)) (df_from (dr_ref d)) \<and>
        commit_in s (df_repository (dr_ref d)) (df_to (dr_ref d)))"

definition repo_inv :: "hostlib \<Rightarrow> repo_state \<Rightarrow> bool" where
  "repo_inv h s \<longleftrightarrow> commits_inv h s \<and> branches_inv s \<and> lineage_inv h s \<and> records_inv s"

lemmas inv_defs = repo_inv_def commits_inv_def branches_inv_def lineage_inv_def records_inv_def

lemma empty_repo_inv: "repo_inv h empty_repo"
  by (simp add: inv_defs empty_repo_def)

section \<open>What a write keeps\<close>

text \<open>
  A later state extends an earlier one: every stored commit is still there, equal in Python's
  sense, and every repository and edge is unchanged. All facts that refer to stored commits follow
  along.
\<close>

definition extends :: "repo_state \<Rightarrow> repo_state \<Rightarrow> bool" where
  "extends s s' \<longleftrightarrow>
     (\<forall>k c. map_of (rs_commits s) k = Some c \<longrightarrow>
        (\<exists>c'. map_of (rs_commits s') k = Some c' \<and> commit_eq c c')) \<and>
     (\<forall>k r. rs_repositories s k = Some r \<longrightarrow> rs_repositories s' k = Some r) \<and>
     (\<forall>k x. rs_snapshots s k = Some x \<longrightarrow>
        (\<exists>x'. rs_snapshots s' k = Some x' \<and> sn_content_hash x' = sn_content_hash x)) \<and>
     (\<forall>k e. map_of (rs_lineage s) k = Some e \<longrightarrow> map_of (rs_lineage s') k = Some e)"

lemma extends_commit_in: "extends s s' \<Longrightarrow> commit_in s r i \<Longrightarrow> commit_in s' r i"
  by (fastforce simp: extends_def commit_in_def commit_eq_def split: option.splits)

lemma extends_endpoint: "extends s s' \<Longrightarrow> endpoint_stored s r \<Longrightarrow> endpoint_stored s' r"
  by (fastforce simp: extends_def endpoint_stored_def commit_eq_def commit_ref_of_def
      split: option.splits)

lemma extends_parents_stored: "extends s s' \<Longrightarrow> parents_stored s c \<Longrightarrow> parents_stored s' c"
  by (fastforce simp: extends_def parents_stored_def list_all_iff commit_eq_def
      split: option.splits)

lemma extends_placed:
  assumes "extends s s'" "commit_placed h s c"
  shows "commit_placed h s' c"
proof -
  have "commit_valid h c" "parents_stored s' c"
    using assms extends_parents_stored by (auto simp: commit_placed_def)
  moreover have "rs_repositories s' (repo_key (cm_repository c)) = Some (cm_repository c)"
    using assms unfolding commit_placed_def extends_def by blast
  moreover have "\<exists>x. rs_snapshots s' (r_tenant (cm_repository c), sn_id (cm_snapshot c)) = Some x \<and>
          sn_content_hash x = sn_content_hash (cm_snapshot c)"
    using assms unfolding commit_placed_def extends_def by metis
  ultimately show ?thesis by (simp add: commit_placed_def)
qed

text \<open>Valid snapshots have well-formed content, so stored commits equal themselves.\<close>

lemma commit_valid_eq_refl: "commit_valid h c \<Longrightarrow> commit_eq c c"
  by (auto simp: commit_valid_def snapshot_valid_def commit_eq_def snapshot_eq_def
        canonical_json_bytes_def bindr_def dest: normalize_source_ok split: sum.splits)

section \<open>Every operation keeps the invariant\<close>

lemma parents_before_append:
  "parents_before seen (xs @ [(k, c)]) \<longleftrightarrow>
     parents_before seen xs \<and> k \<notin> set seen \<union> fst ` set xs \<and> cm_id c = k \<and>
     set (cm_parents c) \<subseteq> set seen \<union> fst ` set xs"
  by (induction seen xs rule: parents_before.induct) auto

lemma parents_before_update_same:
  "parents_before seen xs \<Longrightarrow> map_of xs k = Some old \<Longrightarrow> cm_id c = cm_id old \<Longrightarrow>
     cm_parents c = cm_parents old \<Longrightarrow> parents_before seen (AList.update k c xs)"
  by (induction seen xs rule: parents_before.induct) (auto split: if_splits)

lemma update_append: "k \<notin> fst ` set xs \<Longrightarrow> AList.update k v xs = xs @ [(k, v)]"
  by (induction xs) auto

lemma parents_before_distinct: "parents_before seen xs \<Longrightarrow> distinct (map fst xs) \<and> set seen \<inter> fst ` set xs = {}"
  by (induction seen xs rule: parents_before.induct) auto

lemma parents_before_id: "parents_before seen xs \<Longrightarrow> map_of xs k = Some c \<Longrightarrow> cm_id c = k"
  by (induction seen xs rule: parents_before.induct) (auto split: if_splits)

text \<open>Storing a commit: the new one goes last, a repeated one keeps its place.\<close>

lemma store_commit_order:
  assumes "parents_before [] xs" "\<And>p. p \<in> set (cm_parents c) \<Longrightarrow> map_of xs p \<noteq> None"
    and "\<And>old. map_of xs (cm_id c) = Some old \<Longrightarrow> commit_eq old c"
  shows "parents_before [] (AList.update (cm_id c) c xs)"
proof (cases "map_of xs (cm_id c)")
  case None
  then show ?thesis
    using assms(1,2)
    by (fastforce simp: update_append map_of_eq_None_iff parents_before_append)
next
  case (Some old)
  then show ?thesis
    using assms(3) [OF Some] assms(1)
    by (intro parents_before_update_same [OF _ Some]) (auto simp: commit_eq_def)
qed

lemma repo_inv_commit:
  "repo_inv h s \<Longrightarrow> map_of (rs_commits s) k = Some c \<Longrightarrow>
     commit_placed h s c \<and> commit_eq c c \<and> cm_id c = k"
  by (auto simp: repo_inv_def commits_inv_def commit_placed_def parents_before_id
      intro: commit_valid_eq_refl)

lemma store_commit_extends:
  assumes "repo_inv h s"
    and "\<And>old. map_of (rs_commits s) (cm_id c) = Some old \<Longrightarrow> commit_eq old c"
    and "\<And>x. rs_snapshots s (r_tenant (cm_repository c), sn_id (cm_snapshot c)) = Some x \<Longrightarrow>
           sn_content_hash x = sn_content_hash (cm_snapshot c)"
    and "rs_commits s' = AList.update (cm_id c) c (rs_commits s)"
    and "rs_snapshots s' =
          (rs_snapshots s)((r_tenant (cm_repository c), sn_id (cm_snapshot c)) \<mapsto> cm_snapshot c)"
    and "\<And>k r. rs_repositories s k = Some r \<Longrightarrow> rs_repositories s' k = Some r"
    and "rs_lineage s' = rs_lineage s"
  shows "extends s s'"
proof -
  have "\<exists>c'. map_of (rs_commits s') k = Some c' \<and> commit_eq d c'"
    if d: "map_of (rs_commits s) k = Some d" for k d
  proof (cases "k = cm_id c")
    case True
    then show ?thesis using assms(2) d by (simp add: assms(4))
  next
    case False
    then show ?thesis using d repo_inv_commit [OF assms(1) d] by (simp add: assms(4) update_conv)
  qed
  moreover have "\<exists>x'. rs_snapshots s' k = Some x' \<and> sn_content_hash x' = sn_content_hash x"
    if "rs_snapshots s k = Some x" for k x
    using that assms(3) by (auto simp: assms(5))
  ultimately show ?thesis using assms(6,7) by (simp add: extends_def)
qed

lemma same_stores_extends:
  assumes "repo_inv h s" "rs_commits s' = rs_commits s" "rs_snapshots s' = rs_snapshots s"
    and "\<And>k r. rs_repositories s k = Some r \<Longrightarrow> rs_repositories s' k = Some r"
    and "\<And>k e. map_of (rs_lineage s) k = Some e \<Longrightarrow> map_of (rs_lineage s') k = Some e"
  shows "extends s s'"
  using assms(4,5) repo_inv_commit [OF assms(1)] unfolding extends_def assms(2,3) by blast

text \<open>
  The common part of all preservation proofs: a state that extends a good one and adds only good
  entries is good.
\<close>

lemma repo_inv_extend:
  assumes "repo_inv h s" "extends s s'" "parents_before [] (rs_commits s')"
    and "\<And>k c. map_of (rs_commits s') k = Some c \<Longrightarrow>
           map_of (rs_commits s) k = Some c \<or> commit_placed h s' c"
    and "\<And>k b. rs_branches s' k = Some b \<Longrightarrow> rs_branches s k = Some b \<or>
           branch_key (b_ref b) = k \<and> commit_in s' (br_repository (b_ref b)) (b_head b) \<and> 1 \<le> b_version b"
    and "\<And>k e. map_of (rs_lineage s') k = Some e \<Longrightarrow> map_of (rs_lineage s) k = Some e \<or>
           le_id e = k \<and> lineage_edge_valid h e \<and> endpoint_stored s' (le_upstream e) \<and>
           endpoint_stored s' (le_downstream e)"
    and "distinct (map fst (rs_lineage s'))"
    and "\<And>k c. rs_changesets s' k = Some c \<Longrightarrow> rs_changesets s k = Some c \<or>
           k = item_key (cs_repository (c_ref c)) (cs_id (c_ref c)) \<and>
           commit_in s' (cs_repository (c_ref c)) (cs_base (c_ref c))"
    and "\<And>k d. rs_diffs s' k = Some d \<Longrightarrow> rs_diffs s k = Some d \<or>
           k = item_key (df_repository (dr_ref d)) (df_id (dr_ref d)) \<and>
           commit_in s' (df_repository (dr_ref d)) (df_from (dr_ref d)) \<and>
           commit_in s' (df_repository (dr_ref d)) (df_to (dr_ref d))"
  shows "repo_inv h s'"
  unfolding repo_inv_def
proof (intro conjI)
  note ext = extends_commit_in [OF assms(2)] extends_endpoint [OF assms(2)] extends_placed [OF assms(2)]
  show "commits_inv h s'"
    using assms(1,3,4) ext(3) unfolding repo_inv_def commits_inv_def by blast
  show "branches_inv s'"
    using assms(1) assms(5) ext(1) unfolding repo_inv_def branches_inv_def by blast
  show "lineage_inv h s'"
    using assms(1) assms(6,7) ext(2) unfolding repo_inv_def lineage_inv_def by blast
  show "records_inv s'"
    unfolding records_inv_def
  proof (intro conjI allI impI)
    fix k c assume "rs_changesets s' k = Some c"
    then show "k = item_key (cs_repository (c_ref c)) (cs_id (c_ref c))"
      "commit_in s' (cs_repository (c_ref c)) (cs_base (c_ref c))"
      using assms(8) [of k c] assms(1) ext(1) unfolding repo_inv_def records_inv_def by blast+
  next
    fix k d assume "rs_diffs s' k = Some d"
    then show "k = item_key (df_repository (dr_ref d)) (df_id (dr_ref d))"
      "commit_in s' (df_repository (dr_ref d)) (df_from (dr_ref d))"
      "commit_in s' (df_repository (dr_ref d)) (df_to (dr_ref d))"
      using assms(9) [of k d] assms(1) ext(1) unfolding repo_inv_def records_inv_def by blast+
  qed
qed

lemma no_collision_initialize:
  assumes "repo_inv h s" "rs_repositories s (repo_key (cm_repository c)) = None"
    and "map_of (rs_commits s) (cm_id c) = Some old"
    and "commit_document (cm_repository old) (cm_parents old) (cm_snapshot old) (cm_author old) (cm_message old)
       = commit_document (cm_repository c) (cm_parents c) (cm_snapshot c) (cm_author c) (cm_message c)"
  shows False
proof -
  have "cm_repository old = cm_repository c"
    using assms(4) by (simp add: commit_document_def repository_json_def)
  then show False
    using repo_inv_commit [OF assms(1,3)] assms(2) by (simp add: commit_placed_def)
qed

text \<open>
  No SHA-256 collision at this write: a stored commit with the identifier of the new one was
  derived from the same document.
\<close>

definition no_collision :: "repo_state \<Rightarrow> commit \<Rightarrow> bool" where
  "no_collision s c \<longleftrightarrow>
     (case map_of (rs_commits s) (cm_id c) of None \<Rightarrow> True
      | Some old \<Rightarrow>
          commit_document (cm_repository old) (cm_parents old) (cm_snapshot old) (cm_author old) (cm_message old)
          = commit_document (cm_repository c) (cm_parents c) (cm_snapshot c) (cm_author c) (cm_message c)) \<and>
     (case rs_snapshots s (r_tenant (cm_repository c), sn_id (cm_snapshot c)) of None \<Rightarrow> True
      | Some x \<Rightarrow> sn_content_hash x = sn_content_hash (cm_snapshot c))"

lemma repo_initialize_inv:
  assumes "repo_inv h s" "commit_valid h c" "no_collision s c"
    and "repo_initialize s r b c = Inr (br, s')"
  shows "repo_inv h s' \<and> extends s s'"
proof -
  have fresh: "rs_repositories s (repo_key r) = None" "rs_branches s (branch_key b) = None"
    and r: "br_repository b = r" "cm_repository c = r" "cm_parents c = []"
    and s': "s' = s\<lparr>rs_repositories := (rs_repositories s)(repo_key r \<mapsto> r),
             rs_snapshots := (rs_snapshots s)((r_tenant r, sn_id (cm_snapshot c)) \<mapsto> cm_snapshot c),
             rs_commits := AList.update (cm_id c) c (rs_commits s),
             rs_branches := (rs_branches s)(branch_key b \<mapsto> br)\<rparr>"
    and br: "br = \<lparr>b_ref = b, b_head = cm_id c, b_protected = False, b_policy = None, b_version = 1\<rparr>"
    using assms(4) by (auto simp: repo_initialize_def Let_def split: if_splits)
  have new: "map_of (rs_commits s) (cm_id c) = None"
  proof (rule ccontr)
    assume "map_of (rs_commits s) (cm_id c) \<noteq> None"
    then obtain old where old: "map_of (rs_commits s) (cm_id c) = Some old" by blast
    show False
      by (rule no_collision_initialize [OF assms(1) _ old])
         (use fresh r old assms(3) in \<open>auto simp: no_collision_def\<close>)
  qed
  have ext: "extends s s'"
    by (rule store_commit_extends [OF assms(1), of c])
       (use new assms(3) fresh r in \<open>auto simp: s' no_collision_def\<close>)
  have "repo_inv h s'"
  proof (rule repo_inv_extend [OF assms(1) ext])
    show "parents_before [] (rs_commits s')"
      using assms(1) new r
      by (auto simp: s' repo_inv_def commits_inv_def intro!: store_commit_order)
    show "distinct (map fst (rs_lineage s'))"
      using assms(1) by (simp add: s' repo_inv_def lineage_inv_def)
  qed (use new r assms(2) in \<open>auto simp: s' br update_conv commit_placed_def parents_stored_def
        commit_in_def split: if_splits\<close>)
  with ext show ?thesis by blast
qed

lemma repo_append_commit_Inr:
  assumes "repo_append_commit s b c expected = Inr (br, s')"
  obtains cur where
    "cm_repository c = br_repository b" "cm_parents c \<noteq> []" "Some (hd (cm_parents c)) = expected"
    "rs_branches s (branch_key b) = cur"
    "(case cur of None \<Rightarrow> [] | Some x \<Rightarrow> b_head x) = hd (cm_parents c)"
    "parents_stored s c"
    "\<And>old. map_of (rs_commits s) (cm_id c) = Some old \<Longrightarrow> commit_eq old c"
    "\<And>x. rs_snapshots s (r_tenant (cm_repository c), sn_id (cm_snapshot c)) = Some x \<Longrightarrow>
       sn_content_hash x = sn_content_hash (cm_snapshot c)"
    "br = \<lparr>b_ref = b, b_head = cm_id c,
           b_protected = (case cur of None \<Rightarrow> False | Some x \<Rightarrow> b_protected x),
           b_policy = (case cur of None \<Rightarrow> None | Some x \<Rightarrow> b_policy x),
           b_version = (case cur of None \<Rightarrow> 1 | Some x \<Rightarrow> b_version x + 1)\<rparr>"
    "s' = s\<lparr>rs_snapshots := (rs_snapshots s)
             ((r_tenant (cm_repository c), sn_id (cm_snapshot c)) \<mapsto> cm_snapshot c),
           rs_commits := AList.update (cm_id c) c (rs_commits s),
           rs_branches := (rs_branches s)(branch_key b \<mapsto> br)\<rparr>"
  using assms unfolding repo_append_commit_def Let_def
  by (auto split: if_splits option.splits intro: that)

lemma repo_append_commit_inv:
  assumes "repo_inv h s" "commit_valid h c"
    and "repo_append_commit s b c expected = Inr (br, s')"
  shows "repo_inv h s' \<and> extends s s'"
proof -
  from assms(3) obtain cur where r: "cm_repository c = br_repository b"
    and ps: "parents_stored s c"
    and old: "\<And>old. map_of (rs_commits s) (cm_id c) = Some old \<Longrightarrow> commit_eq old c"
    and sn: "\<And>x. rs_snapshots s (r_tenant (cm_repository c), sn_id (cm_snapshot c)) = Some x \<Longrightarrow>
       sn_content_hash x = sn_content_hash (cm_snapshot c)"
    and br: "b_ref br = b" "b_head br = cm_id c" "1 \<le> b_version br"
    and ne: "cm_parents c \<noteq> []"
    and s': "s' = s\<lparr>rs_snapshots := (rs_snapshots s)
             ((r_tenant (cm_repository c), sn_id (cm_snapshot c)) \<mapsto> cm_snapshot c),
           rs_commits := AList.update (cm_id c) c (rs_commits s),
           rs_branches := (rs_branches s)(branch_key b \<mapsto> br)\<rparr>"
    by (rule repo_append_commit_Inr) (auto split: option.splits)
  have ext: "extends s s'"
    by (rule store_commit_extends [OF assms(1), of c]) (use old sn in \<open>auto simp: s'\<close>)
  obtain p pc where "map_of (rs_commits s) p = Some pc" "cm_repository pc = cm_repository c"
    using ps ne by (cases "cm_parents c") (auto simp: parents_stored_def split: option.splits)
  then have reg: "rs_repositories s (repo_key (cm_repository c)) = Some (cm_repository c)"
    using repo_inv_commit [OF assms(1)] by (metis commit_placed_def)
  have placed: "commit_placed h s' c"
    using extends_parents_stored [OF ext ps] assms(2) reg by (simp add: commit_placed_def s')
  have "repo_inv h s'"
  proof (rule repo_inv_extend [OF assms(1) ext])
    show "parents_before [] (rs_commits s')"
      using assms(1) ps old
      by (auto simp: s' repo_inv_def commits_inv_def parents_stored_def list_all_iff
          intro!: store_commit_order split: option.splits)
    show "distinct (map fst (rs_lineage s'))"
      using assms(1) by (simp add: s' repo_inv_def lineage_inv_def)
    show "map_of (rs_commits s) k = Some d \<or> commit_placed h s' d"
      if "map_of (rs_commits s') k = Some d" for k d
      using that placed by (auto simp: s' update_conv split: if_splits)
  qed (use r br in \<open>auto simp: s' update_conv commit_in_def split: if_splits\<close>)
  with ext show ?thesis by blast
qed

lemma repo_inv_distinct_lineage: "repo_inv h s \<Longrightarrow> distinct (map fst (rs_lineage s))"
  by (simp add: repo_inv_def lineage_inv_def)

lemma repo_inv_order: "repo_inv h s \<Longrightarrow> parents_before [] (rs_commits s)"
  by (simp add: repo_inv_def commits_inv_def)

lemma repo_create_repository_inv:
  assumes "repo_inv h s" "repo_create_repository s r = Inr s'"
  shows "repo_inv h s' \<and> extends s s'"
proof -
  have s': "s' = s\<lparr>rs_repositories := (rs_repositories s)(repo_key r \<mapsto> r)\<rparr>"
    and new: "rs_repositories s (repo_key r) = None"
    using assms(2) by (auto simp: repo_create_repository_def split: if_splits)
  have ext: "extends s s'"
    by (rule same_stores_extends [OF assms(1)]) (use new in \<open>auto simp: s'\<close>)
  have "repo_inv h s'"
    by (rule repo_inv_extend [OF assms(1) ext])
       (use repo_inv_distinct_lineage [OF assms(1)] repo_inv_order [OF assms(1)] in \<open>auto simp: s'\<close>)
  with ext show ?thesis by blast
qed

lemma repo_save_snapshot_inv:
  assumes "repo_inv h s" "repo_save_snapshot s t x = Inr (y, s')"
  shows "repo_inv h s' \<and> extends s s'"
proof -
  consider "s' = s" | "rs_snapshots s (t, sn_id x) = None"
      "s' = s\<lparr>rs_snapshots := (rs_snapshots s)((t, sn_id x) \<mapsto> x)\<rparr>"
    using assms(2) by (auto simp: repo_save_snapshot_def split: if_splits option.splits)
  then have ext: "extends s s'"
    by cases (use repo_inv_commit [OF assms(1)] in \<open>auto simp: extends_def\<close>)
  have *: "rs_commits s' = rs_commits s" "rs_branches s' = rs_branches s"
    "rs_lineage s' = rs_lineage s" "rs_changesets s' = rs_changesets s" "rs_diffs s' = rs_diffs s"
    using assms(2) by (auto simp: repo_save_snapshot_def split: if_splits option.splits)
  have "repo_inv h s'"
    by (rule repo_inv_extend [OF assms(1) ext])
       (use repo_inv_distinct_lineage [OF assms(1)] repo_inv_order [OF assms(1)] in \<open>auto simp: *\<close>)
  with ext show ?thesis by blast
qed

lemma repo_create_branch_inv:
  assumes "repo_inv h s" "branch_valid b" "repo_create_branch s b = Inr s'"
  shows "repo_inv h s' \<and> extends s s'"
proof -
  have s': "s' = s\<lparr>rs_branches := (rs_branches s)(branch_key (b_ref b) \<mapsto> b)\<rparr>"
    and head: "commit_in s (br_repository (b_ref b)) (b_head b)"
    using assms(3) by (auto simp: repo_create_branch_def commit_in_def split: if_splits option.splits)
  have ext: "extends s s'" by (rule same_stores_extends [OF assms(1)]) (auto simp: s')
  have "repo_inv h s'"
    by (rule repo_inv_extend [OF assms(1) ext])
       (use repo_inv_distinct_lineage [OF assms(1)] repo_inv_order [OF assms(1)]
         extends_commit_in [OF ext head] assms(2) in \<open>auto simp: s' branch_valid_def split: if_splits\<close>)
  with ext show ?thesis by blast
qed

lemma repo_protect_branch_inv:
  assumes "repo_inv h s" "repo_protect_branch s b pol = Inr (br, s')"
  shows "repo_inv h s' \<and> extends s s'"
proof -
  obtain cur where cur: "rs_branches s (branch_key b) = Some cur"
    using assms(2) by (cases "rs_branches s (branch_key b)") (auto simp: repo_protect_branch_def)
  then have s': "s' = s\<lparr>rs_branches := (rs_branches s)(branch_key b \<mapsto> br)\<rparr>"
    and br: "br = cur\<lparr>b_protected := True, b_policy := Some pol, b_version := b_version cur + 1\<rparr>"
    using assms(2) unfolding repo_protect_branch_def Let_def
    by (simp_all only: option.case split: if_splits) auto
  have b: "branch_key (b_ref cur) = branch_key b" "commit_in s (br_repository (b_ref cur)) (b_head cur)"
    using assms(1) cur unfolding repo_inv_def branches_inv_def by blast+
  have ext: "extends s s'" by (rule same_stores_extends [OF assms(1)]) (auto simp: s')
  have "repo_inv h s'"
    by (rule repo_inv_extend [OF assms(1) ext])
       (use repo_inv_distinct_lineage [OF assms(1)] repo_inv_order [OF assms(1)]
         extends_commit_in [OF ext b(2)] b(1) in \<open>auto simp: s' br split: if_splits\<close>)
  with ext show ?thesis by blast
qed

lemma repo_save_changeset_inv:
  assumes "repo_inv h s" "repo_save_changeset s c = Inr (d, s')"
  shows "repo_inv h s' \<and> extends s s'"
proof -
  let ?k = "item_key (cs_repository (c_ref c)) (cs_id (c_ref c))"
  have base: "commit_in s (cs_repository (c_ref c)) (cs_base (c_ref c))"
    and s': "s' = s \<or> s' = s\<lparr>rs_changesets := (rs_changesets s)(?k \<mapsto> c)\<rparr>"
    using assms(2) by (auto simp: repo_save_changeset_def Let_def split: if_splits option.splits)
  have ext: "extends s s'" by (rule same_stores_extends [OF assms(1)]) (use s' in auto)
  have "repo_inv h s'"
    by (rule repo_inv_extend [OF assms(1) ext])
       (use repo_inv_distinct_lineage [OF assms(1)] repo_inv_order [OF assms(1)]
         extends_commit_in [OF ext base] s' in \<open>auto split: if_splits\<close>)
  with ext show ?thesis by blast
qed

lemma repo_save_diff_inv:
  assumes "repo_inv h s" "repo_save_diff s c = Inr (d, s')"
  shows "repo_inv h s' \<and> extends s s'"
proof -
  let ?k = "item_key (df_repository (dr_ref c)) (df_id (dr_ref c))"
  have base: "commit_in s (df_repository (dr_ref c)) (df_from (dr_ref c))"
      "commit_in s (df_repository (dr_ref c)) (df_to (dr_ref c))"
    and s': "s' = s \<or> s' = s\<lparr>rs_diffs := (rs_diffs s)(?k \<mapsto> c)\<rparr>"
    using assms(2) by (auto simp: repo_save_diff_def Let_def split: if_splits option.splits)
  have ext: "extends s s'" by (rule same_stores_extends [OF assms(1)]) (use s' in auto)
  have "repo_inv h s'"
    by (rule repo_inv_extend [OF assms(1) ext])
       (use repo_inv_distinct_lineage [OF assms(1)] repo_inv_order [OF assms(1)]
         extends_commit_in [OF ext base(1)] extends_commit_in [OF ext base(2)] s'
        in \<open>auto split: if_splits\<close>)
  with ext show ?thesis by blast
qed

lemma repo_save_lineage_inv:
  assumes "repo_inv h s" "lineage_edge_valid h e" "repo_save_lineage s e = Inr (d, s')"
  shows "repo_inv h s' \<and> extends s s'"
proof -
  have ends: "endpoint_stored s (le_upstream e)" "endpoint_stored s (le_downstream e)"
    and s': "s' = s \<or> (map_of (rs_lineage s) (le_id e) = None \<and>
      s' = s\<lparr>rs_lineage := AList.update (le_id e) e (rs_lineage s)\<rparr>)"
    using assms(3) by (auto simp: repo_save_lineage_def split: if_splits option.splits)
  have ext: "extends s s'"
    by (rule same_stores_extends [OF assms(1)]) (use s' in \<open>auto simp: update_conv\<close>)
  have "repo_inv h s'"
    by (rule repo_inv_extend [OF assms(1) ext])
       (use repo_inv_distinct_lineage [OF assms(1)] repo_inv_order [OF assms(1)] assms(2)
         extends_endpoint [OF ext ends(1)] extends_endpoint [OF ext ends(2)] s'
        in \<open>auto simp: update_conv distinct_update split: if_splits\<close>)
  with ext show ?thesis by blast
qed

section \<open>Histories of writes\<close>

text \<open>One completed write, called with values its Pydantic argument types admit.\<close>

inductive repo_step :: "hostlib \<Rightarrow> repo_state \<Rightarrow> repo_state \<Rightarrow> bool" for h where
  create_repository: "repo_create_repository s r = Inr s' \<Longrightarrow> repo_step h s s'"
| initialize: "commit_valid h c \<Longrightarrow> no_collision s c \<Longrightarrow>
    repo_initialize s r b c = Inr (br, s') \<Longrightarrow> repo_step h s s'"
| save_snapshot: "repo_save_snapshot s t x = Inr (y, s') \<Longrightarrow> repo_step h s s'"
| create_branch: "branch_valid b \<Longrightarrow> repo_create_branch s b = Inr s' \<Longrightarrow> repo_step h s s'"
| append_commit: "commit_valid h c \<Longrightarrow> repo_append_commit s b c expected = Inr (br, s') \<Longrightarrow>
    repo_step h s s'"
| protect_branch: "repo_protect_branch s b pol = Inr (br, s') \<Longrightarrow> repo_step h s s'"
| save_changeset: "repo_save_changeset s cs = Inr (cs', s') \<Longrightarrow> repo_step h s s'"
| save_diff: "repo_save_diff s d = Inr (d', s') \<Longrightarrow> repo_step h s s'"
| save_lineage: "lineage_edge_valid h e \<Longrightarrow> repo_save_lineage s e = Inr (e', s') \<Longrightarrow>
    repo_step h s s'"

lemmas repo_writes_inv =
  repo_create_repository_inv repo_initialize_inv repo_save_snapshot_inv repo_create_branch_inv
  repo_append_commit_inv repo_protect_branch_inv repo_save_changeset_inv repo_save_diff_inv
  repo_save_lineage_inv

lemma repo_step_inv: "repo_step h s s' \<Longrightarrow> repo_inv h s \<Longrightarrow> repo_inv h s' \<and> extends s s'"
  by (induction rule: repo_step.induct) (blast dest: repo_writes_inv)+

inductive repo_reachable :: "hostlib \<Rightarrow> repo_state \<Rightarrow> bool" for h where
  empty: "repo_reachable h empty_repo"
| step: "repo_reachable h s \<Longrightarrow> repo_step h s s' \<Longrightarrow> repo_reachable h s'"

lemma repo_reachable_repo_inv: "repo_reachable h s \<Longrightarrow> repo_inv h s"
  by (induction rule: repo_reachable.induct) (auto simp: empty_repo_inv dest: repo_step_inv)

section \<open>The store as an interface\<close>

text \<open>
  What the revision service relies on: the compare-and-swap on the branch head, and for a store that
  reads commits back, that it returns the appended one.
\<close>

locale branch_heads =
  fixes get_head :: "'s \<Rightarrow> branch_ref \<Rightarrow> string option"
    and append :: "'s \<Rightarrow> branch_ref \<Rightarrow> commit \<Rightarrow> string option \<Rightarrow> rev_error + branch \<times> 's"
  assumes append_cas:
      "append s b c (Some e) = Inr (r, s') \<Longrightarrow> get_head s b = Some e \<or> (get_head s b = None \<and> e = [])"
    and append_head: "append s b c (Some e) = Inr (r, s') \<Longrightarrow> get_head s' b = Some (cm_id c)"
    and append_parent:
      "append s b c (Some e) = Inr (r, s') \<Longrightarrow> cm_parents c \<noteq> [] \<and> hd (cm_parents c) = e"
    and append_other:
      "append s b c (Some e) = Inr (r, s') \<Longrightarrow> branch_key b' \<noteq> branch_key b \<Longrightarrow>
         get_head s' b' = get_head s b'"
begin

text \<open>A writer that lost the race is refused: its expected head is stale.\<close>

lemma no_lost_update:
  assumes "append s b c (Some e) = Inr (r, s')" "cm_id c \<noteq> e"
  shows "append s' b d (Some e) \<noteq> Inr (r', s'')"
  using append_cas append_head assms by fastforce

end

locale revision_store = branch_heads +
  fixes get_commit :: "'a \<Rightarrow> string \<Rightarrow> commit option"
  assumes append_reads: "append s b c (Some e) = Inr (r, s') \<Longrightarrow> get_commit s' (cm_id c) = Some c"
begin

text \<open>The head of a branch, after an append, descends from the head before it.\<close>

lemma head_advances:
  assumes "append s b c (Some e) = Inr (r, s')" "e \<noteq> []"
  shows "\<exists>old. get_head s b = Some old \<and> get_head s' b = Some (cm_id c) \<and>
           get_commit s' (cm_id c) = Some c \<and> hd (cm_parents c) = old"
  using append_cas [OF assms(1)] append_head [OF assms(1)] append_reads [OF assms(1)]
    append_parent [OF assms(1)] assms(2) by auto

end

definition repo_get_head :: "repo_state \<Rightarrow> branch_ref \<Rightarrow> string option" where
  "repo_get_head s b = map_option b_head (repo_get_branch s b)"

interpretation memory_store: revision_store repo_get_head repo_append_commit repo_get_commit
  by unfold_locales
     (auto simp: repo_get_head_def repo_get_branch_def repo_get_commit_def
       elim!: repo_append_commit_Inr split: option.splits)

end
