(* ===== verification/RevisionService.thy ===== *)
theory RevisionService
  imports RevisionRepository "HOL-Library.Product_Lexorder"
begin

text \<open>
  The revision service (\<open>backend/capability_v2/revision/service.py\<close>): commits, branches, diffs,
  change sets, protected-branch merges and lineage over the store of RevisionRepository. The
  content adapter, the approval verifier and the two size limits are fields of \<open>service\<close>; the
  clock is the argument \<open>now\<close> of the operations that read it.

  An operation returns an error or its value with the new store. The merge also consumes an
  approval, which stays consumed when a later step raises, so it returns the verifier's state in
  every case.
\<close>

section \<open>Approval verifiers\<close>

text \<open>
  \<open>InMemoryBranchApprovalVerifier\<close>: its records, keyed by the digest of the one-time reference.
  The random reference is an argument of \<open>issue\<close>.
\<close>

type_synonym approvals = "string \<Rightarrow> challenge option"

definition approval_issue ::
  "hostlib \<Rightarrow> approvals \<Rightarrow> challenge \<Rightarrow> string \<Rightarrow> string \<Rightarrow> py_exn + string \<times> approvals"
where
  "approval_issue h st c approved_by token =
     (if str_strip approved_by = [] then Inl (ValueError ''approved_by is required'')
      else (let reference = ''bar_'' @ token in
        Inr (reference, st(sha256_hex h reference \<mapsto> c))))"

definition approval_consume ::
  "hostlib \<Rightarrow> approvals \<Rightarrow> string \<Rightarrow> challenge \<Rightarrow> bool \<times> approvals"
where
  "approval_consume h st reference c =
     (let key = sha256_hex h reference in (st key = Some c, st(key := None)))"

definition deny_consume :: "'v \<Rightarrow> string \<Rightarrow> challenge \<Rightarrow> bool \<times> 'v" where
  "deny_consume st reference c = (False, st)"

section \<open>The service\<close>

record 'v service =
  sv_host :: hostlib
  sv_adapter :: adapter
  sv_consume :: "'v \<Rightarrow> string \<Rightarrow> challenge \<Rightarrow> bool \<times> 'v"
  sv_max_snapshot_bytes :: int
  sv_max_changes :: int

definition mk_service :: "'v service \<Rightarrow> py_exn + 'v service" where
  "mk_service sv =
     (if sv_max_snapshot_bytes sv < 64
      then Inl (ValueError ''max_snapshot_bytes must be at least 64'')
      else if sv_max_changes sv < 1 \<or> sv_max_changes sv > 100000
      then Inl (ValueError ''max_changes_per_commit must be between 1 and 100000'')
      else Inr sv)"

definition lift_py :: "py_exn + 'a \<Rightarrow> rev_error + 'a" where
  "lift_py r = (case r of Inl e \<Rightarrow> Inl (Raised e) | Inr a \<Rightarrow> Inr a)"

lemma lift_py_Inr [simp]: "lift_py r = Inr a \<longleftrightarrow> r = Inr a"
  by (auto simp: lift_py_def split: sum.splits)

text \<open>\<open>except RecordNotFoundError as exc: raise RevisionNotFoundError\<close>, and the two conflicts.\<close>

fun hide_missing :: "rev_error \<Rightarrow> rev_error" where
  "hide_missing (RecordNotFound m) = RevisionNotFound m"
| "hide_missing e = e"

fun hide_store_error :: "rev_error \<Rightarrow> rev_error" where
  "hide_store_error (CompareAndSwap e a) = BranchConflict e a"
| "hide_store_error (RecordNotFound m) = RevisionNotFound m"
| "hide_store_error e = e"

fun hide_branch_error :: "rev_error \<Rightarrow> rev_error" where
  "hide_branch_error (RepositoryExists m) = RevisionNotFound m"
| "hide_branch_error (RecordNotFound m) = RevisionNotFound m"
| "hide_branch_error e = e"

definition map_error :: "('e \<Rightarrow> 'f) \<Rightarrow> 'e + 'a \<Rightarrow> 'f + 'a" where
  "map_error f r = (case r of Inl e \<Rightarrow> Inl (f e) | Inr a \<Rightarrow> Inr a)"

lemma map_error_Inr [simp]: "map_error f r = Inr a \<longleftrightarrow> r = Inr a"
  by (auto simp: map_error_def split: sum.splits)

definition check :: "bool \<Rightarrow> string \<Rightarrow> rev_error + unit" where
  "check ok m = (if ok then Inr () else Inl (Raised (ValueError m)))"

lemma check_Inr [simp]: "check ok m = Inr u \<longleftrightarrow> ok"
  by (simp add: check_def)

lemma check_True [simp]: "check True m = Inr ()"
  by (simp add: check_def)

section \<open>Building records\<close>

definition bounded_changes :: "'v service \<Rightarrow> json \<Rightarrow> json \<Rightarrow> rev_error + change list" where
  "bounded_changes sv b a =
     bindr (lift_py (ad_diff (sv_adapter sv) b a)) (\<lambda>changes.
       if int (length changes) > sv_max_changes sv then Inl ChangeSetTooLarge else Inr changes)"

definition make_snapshot :: "'v service \<Rightarrow> json \<Rightarrow> rev_error + snapshot" where
  "make_snapshot sv doc =
     bindr (lift_py (ad_normalize (sv_adapter sv) doc)) (\<lambda>normalized.
     bindr (lift_py (canonical_json_bytes (sv_host sv) normalized)) (\<lambda>data.
       if int (length data) > sv_max_snapshot_bytes sv then Inl SnapshotTooLarge
       else
         (let d = sha256_hex (sv_host sv) data;
              x = \<lparr>sn_id = ''snp_'' @ take 32 d, sn_content_hash = ''sha256:'' @ d,
                   sn_byte_size = length data, sn_content = normalized\<rparr> in
          bindr (check (snapshot_valid (sv_host sv) x) ''snapshot validation'') (\<lambda>_. Inr x))))"

definition commit_record ::
  "'v service \<Rightarrow> repository_ref \<Rightarrow> string list \<Rightarrow> snapshot \<Rightarrow> string \<Rightarrow> string \<Rightarrow> timestamp \<Rightarrow>
   rev_error + commit"
where
  "commit_record sv r parents x author msg now =
     bindr (lift_py (digest (sv_host sv) (commit_document r parents x author (str_strip msg)))) (\<lambda>d.
       (let c = \<lparr>cm_id = ''cmt_'' @ take 40 d, cm_repository = r, cm_parents = parents,
                 cm_snapshot = x, cm_content_hash = sn_content_hash x, cm_author = author,
                 cm_message = str_strip msg, cm_created_at = now\<rparr> in
        bindr (check (commit_valid (sv_host sv) c) ''commit validation'') (\<lambda>_. Inr c)))"

section \<open>Reading\<close>

definition svc_get_commit :: "repo_state \<Rightarrow> string \<Rightarrow> repository_ref option \<Rightarrow> rev_error + commit" where
  "svc_get_commit s i scope =
     (case repo_get_commit s i of
        None \<Rightarrow> Inl (RevisionNotFound ''commit not found in repository scope'')
      | Some c \<Rightarrow>
          (case scope of
             None \<Rightarrow> Inr c
           | Some r \<Rightarrow>
               if cm_repository c \<noteq> r
               then Inl (RevisionNotFound ''commit not found in repository scope'') else Inr c))"

definition svc_baseline :: "repo_state \<Rightarrow> repository_ref \<Rightarrow> string \<Rightarrow> rev_error + baseline_ref" where
  "svc_baseline s r i =
     bindr (svc_get_commit s i (Some r)) (\<lambda>_. Inr \<lparr>bl_repository = r, bl_commit_id = i\<rparr>)"

definition svc_head :: "repo_state \<Rightarrow> branch_ref \<Rightarrow> rev_error + commit" where
  "svc_head s b =
     (case repo_get_branch s b of
        None \<Rightarrow> Inl (RevisionNotFound ''branch not found'')
      | Some x \<Rightarrow> svc_get_commit s (b_head x) (Some (br_repository b)))"

fun history_loop :: "nat \<Rightarrow> repo_state \<Rightarrow> repository_ref \<Rightarrow> commit \<Rightarrow> rev_error + string list" where
  "history_loop 0 s r c = Inr []"
| "history_loop (Suc n) s r c =
     (case cm_parents c of
        [] \<Rightarrow> Inr [cm_id c]
      | p # _ \<Rightarrow> bindr (svc_get_commit s p (Some r)) (\<lambda>d.
          bindr (history_loop n s r d) (\<lambda>rest. Inr (cm_id c # rest))))"

definition svc_history :: "repo_state \<Rightarrow> branch_ref \<Rightarrow> int \<Rightarrow> rev_error + string list" where
  "svc_history s b limit =
     (if limit < 1 \<or> limit > 10000
      then Inl (Raised (ValueError ''history limit must be between 1 and 10000''))
      else bindr (svc_head s b) (\<lambda>c. history_loop (nat limit) s (br_repository b) c))"

definition svc_get_diff :: "repo_state \<Rightarrow> diff_ref \<Rightarrow> rev_error + diff_record" where
  "svc_get_diff s r =
     (case repo_get_diff s r of
        None \<Rightarrow> Inl (RevisionNotFound ''diff not found in repository scope'') | Some d \<Rightarrow> Inr d)"

definition svc_get_changeset :: "repo_state \<Rightarrow> changeset_ref \<Rightarrow> rev_error + changeset" where
  "svc_get_changeset s r =
     (case repo_get_changeset s r of
        None \<Rightarrow> Inl (RevisionNotFound ''changeset not found in repository scope'') | Some c \<Rightarrow> Inr c)"

section \<open>Committing\<close>

definition svc_initialize ::
  "'v service \<Rightarrow> repo_state \<Rightarrow> timestamp \<Rightarrow> repository_ref \<Rightarrow> string \<Rightarrow> json \<Rightarrow> string \<Rightarrow> string \<Rightarrow>
   rev_error + commit_outcome \<times> repo_state"
where
  "svc_initialize sv s now r name doc author msg =
     (let b = \<lparr>br_repository = r, br_name = name\<rparr> in
      bindr (check (branch_ref_valid b) ''branch validation'') (\<lambda>_.
      bindr (make_snapshot sv doc) (\<lambda>x.
      bindr (commit_record sv r [] x author msg now) (\<lambda>c.
      bindr (repo_initialize s r b c) (\<lambda>(_, s').
        Inr (\<lparr>co_branch = b, co_commit = c\<rparr>, s'))))))"

definition svc_create_branch ::
  "repo_state \<Rightarrow> repository_ref \<Rightarrow> string \<Rightarrow> string \<Rightarrow> rev_error + branch_ref \<times> repo_state"
where
  "svc_create_branch s r name from_commit =
     (let b = \<lparr>br_repository = r, br_name = name\<rparr> in
      bindr (check (branch_ref_valid b) ''branch validation'') (\<lambda>_.
      bindr (svc_get_commit s from_commit (Some r)) (\<lambda>c.
      bindr (map_error hide_branch_error (repo_create_branch s
        \<lparr>b_ref = b, b_head = cm_id c, b_protected = False, b_policy = None, b_version = 1\<rparr>))
        (\<lambda>s'. Inr (b, s')))))"

definition write_commit ::
  "'v service \<Rightarrow> repo_state \<Rightarrow> timestamp \<Rightarrow> branch_ref \<Rightarrow> json \<Rightarrow> string \<Rightarrow> string \<Rightarrow> string \<Rightarrow>
   string option \<Rightarrow> bool \<Rightarrow> rev_error + commit_outcome \<times> repo_state"
where
  "write_commit sv s now b doc expected author msg additional allow_protected =
     (case repo_get_branch s b of
        None \<Rightarrow> Inl (RevisionNotFound ''branch not found'')
      | Some rec \<Rightarrow>
          if b_protected rec \<and> \<not> allow_protected then Inl ProtectedBranch
          else
            bindr (svc_get_commit s expected (Some (br_repository b))) (\<lambda>current.
            bindr (lift_py (ad_validate (sv_adapter sv) (sn_content (cm_snapshot current)) doc)) (\<lambda>_.
            bindr (bounded_changes sv (sn_content (cm_snapshot current)) doc) (\<lambda>_.
            bindr (make_snapshot sv doc) (\<lambda>x.
            bindr (case additional of None \<Rightarrow> Inr [expected]
                   | Some p \<Rightarrow> bindr (svc_get_commit s p (Some (br_repository b)))
                       (\<lambda>_. Inr [expected, p])) (\<lambda>parents.
            bindr (commit_record sv (br_repository b) parents x author msg now) (\<lambda>c.
            bindr (map_error hide_store_error (repo_append_commit s b c (Some expected))) (\<lambda>(_, s').
              Inr (\<lparr>co_branch = b, co_commit = c\<rparr>, s')))))))))"

definition svc_commit ::
  "'v service \<Rightarrow> repo_state \<Rightarrow> timestamp \<Rightarrow> branch_ref \<Rightarrow> json \<Rightarrow> string \<Rightarrow> string \<Rightarrow> string \<Rightarrow>
   string option \<Rightarrow> rev_error + commit_outcome \<times> repo_state"
where
  "svc_commit sv s now b doc expected author msg additional =
     write_commit sv s now b doc expected author msg additional False"

definition svc_restore ::
  "'v service \<Rightarrow> repo_state \<Rightarrow> timestamp \<Rightarrow> branch_ref \<Rightarrow> string \<Rightarrow> string \<Rightarrow> string \<Rightarrow> string \<Rightarrow>
   rev_error + commit_outcome \<times> repo_state"
where
  "svc_restore sv s now b source expected author msg =
     bindr (svc_get_commit s source (Some (br_repository b))) (\<lambda>c.
       svc_commit sv s now b (sn_content (cm_snapshot c)) expected author msg None)"

definition svc_protect_branch :: "repo_state \<Rightarrow> branch_ref \<Rightarrow> string \<Rightarrow> rev_error + repo_state" where
  "svc_protect_branch s b approval_policy =
     (let pol = str_strip approval_policy in
      bindr (check (pol \<noteq> []) ''approval policy is required'') (\<lambda>_.
      bindr (map_error hide_missing (repo_protect_branch s b pol)) (\<lambda>(_, s'). Inr s')))"

section \<open>Diffs and change sets\<close>

definition svc_diff ::
  "'v service \<Rightarrow> repo_state \<Rightarrow> repository_ref \<Rightarrow> string \<Rightarrow> string \<Rightarrow> rev_error + diff_record \<times> repo_state"
where
  "svc_diff sv s r from_commit to_commit =
     bindr (svc_get_commit s from_commit (Some r)) (\<lambda>b.
     bindr (svc_get_commit s to_commit (Some r)) (\<lambda>a.
     bindr (bounded_changes sv (sn_content (cm_snapshot b)) (sn_content (cm_snapshot a))) (\<lambda>changes.
     bindr (lift_py (digest (sv_host sv)
        (diff_document (cm_repository b) from_commit to_commit changes))) (\<lambda>d.
       (let rec = \<lparr>dr_ref = \<lparr>df_repository = cm_repository b, df_id = ''dif_'' @ take 32 d,
                     df_from = from_commit, df_to = to_commit\<rparr>, dr_changes = changes\<rparr> in
        bindr (check (diff_record_valid (sv_host sv) rec) ''diff validation'') (\<lambda>_.
          map_error hide_missing (repo_save_diff s rec)))))))"

definition svc_create_changeset ::
  "'v service \<Rightarrow> repo_state \<Rightarrow> timestamp \<Rightarrow> repository_ref \<Rightarrow> string \<Rightarrow> json \<Rightarrow> string \<Rightarrow>
   rev_error + changeset \<times> repo_state"
where
  "svc_create_changeset sv s now r base_commit proposed_content author =
     bindr (svc_get_commit s base_commit (Some r)) (\<lambda>b.
     bindr (lift_py (ad_normalize (sv_adapter sv) proposed_content)) (\<lambda>proposed.
     bindr (lift_py (ad_validate (sv_adapter sv) (sn_content (cm_snapshot b)) proposed)) (\<lambda>_.
     bindr (bounded_changes sv (sn_content (cm_snapshot b)) proposed) (\<lambda>changes.
     bindr (lift_py (digest (sv_host sv) proposed)) (\<lambda>result_digest.
     bindr (lift_py (digest (sv_host sv)
        (changeset_document r base_commit changes (''sha256:'' @ result_digest) author))) (\<lambda>d.
       (let c = \<lparr>c_ref = \<lparr>cs_repository = r, cs_id = ''chg_'' @ take 32 d, cs_base = base_commit\<rparr>,
                 c_changes = changes, c_result_hash = ''sha256:'' @ result_digest,
                 c_created_by = author, c_created_at = now\<rparr> in
        bindr (check (changeset_valid (sv_host sv) c) ''changeset validation'') (\<lambda>_.
          map_error hide_missing (repo_save_changeset s c)))))))))"

definition svc_apply_changeset ::
  "'v service \<Rightarrow> repo_state \<Rightarrow> timestamp \<Rightarrow> branch_ref \<Rightarrow> changeset_ref + changeset \<Rightarrow> string \<Rightarrow>
   string \<Rightarrow> string \<Rightarrow> rev_error + commit_outcome \<times> repo_state"
where
  "svc_apply_changeset sv s now b cs expected author msg =
     bindr (case cs of Inl ref \<Rightarrow> svc_get_changeset s ref | Inr c \<Rightarrow> Inr c) (\<lambda>resolved.
     bindr (check (cs_repository (c_ref resolved) = br_repository b)
        ''changeset belongs to a different repository'') (\<lambda>_.
       if cs_base (c_ref resolved) \<noteq> expected
       then Inl (BranchConflict (cs_base (c_ref resolved)) expected)
       else
         bindr (svc_get_commit s expected (Some (br_repository b))) (\<lambda>base.
         bindr (lift_py (ad_apply (sv_adapter sv) (sn_content (cm_snapshot base))
            (c_changes resolved))) (\<lambda>doc.
         bindr (lift_py (digest (sv_host sv) doc)) (\<lambda>d.
         bindr (check (''sha256:'' @ d = c_result_hash resolved)
            ''changeset result hash mismatch'') (\<lambda>_.
           svc_commit sv s now b doc expected author msg None))))))"

section \<open>Ancestors and the merge base\<close>

text \<open>
  The breadth-first walk of \<open>_ancestors\<close>, with fuel: \<^const>\<open>None\<close> is running out of it.
  \<open>ancestors_fuel\<close> is enough on every reachable store.
\<close>

fun ancestors_loop ::
  "nat \<Rightarrow> repo_state \<Rightarrow> repository_ref \<Rightarrow> (string \<times> nat) list \<Rightarrow> (commit \<times> nat) list \<Rightarrow>
   (rev_error + (string \<times> nat) list) option"
where
  "ancestors_loop 0 s r distances queue = None"
| "ancestors_loop (Suc n) s r distances [] = Some (Inr distances)"
| "ancestors_loop (Suc n) s r distances ((c, distance) # queue) =
     (if (case map_of distances (cm_id c) of None \<Rightarrow> False | Some k \<Rightarrow> k \<le> distance)
      then ancestors_loop n s r distances queue
      else
        (case mapr (\<lambda>p. svc_get_commit s p (Some r)) (cm_parents c) of
           Inl e \<Rightarrow> Some (Inl e)
         | Inr ps \<Rightarrow> ancestors_loop n s r (AList.update (cm_id c) distance distances)
             (queue @ map (\<lambda>p. (p, distance + 1)) ps)))"

definition ancestors_fuel :: "repo_state \<Rightarrow> nat" where
  "ancestors_fuel s = 2 * length (rs_commits s) + 2"

definition ancestors :: "repo_state \<Rightarrow> commit \<Rightarrow> (rev_error + (string \<times> nat) list) option" where
  "ancestors s c = ancestors_loop (ancestors_fuel s) s (cm_repository c) [] [(c, 0)]"

text \<open>\<open>min(..., key=...)\<close> over a non-empty collection.\<close>

fun min_on :: "('a \<Rightarrow> 'k::linorder) \<Rightarrow> 'a \<Rightarrow> 'a list \<Rightarrow> 'a" where
  "min_on key x [] = x"
| "min_on key x (y # ys) = min_on key (if key y < key x then y else x) ys"

definition base_key :: "(string \<times> nat) list \<Rightarrow> (string \<times> nat) list \<Rightarrow> string \<Rightarrow> nat \<times> nat \<times> string" where
  "base_key ours theirs i =
     (let a = the (map_of ours i); b = the (map_of theirs i) in (max a b, a + b, i))"

definition merge_base :: "repo_state \<Rightarrow> commit \<Rightarrow> commit \<Rightarrow> (rev_error + commit) option" where
  "merge_base s ours theirs =
     (case (ancestors s ours, ancestors s theirs) of
        (Some (Inr oa), Some (Inr ta)) \<Rightarrow>
          (case filter (\<lambda>i. map_of ta i \<noteq> None) (map fst oa) of
             [] \<Rightarrow> Some (Inl (RevisionNotFound ''branches have no common ancestor''))
           | i # is \<Rightarrow>
               Some (svc_get_commit s (min_on (base_key oa ta) i is) (Some (cm_repository ours))))
      | (Some (Inl e), _) \<Rightarrow> Some (Inl e)
      | (_, Some (Inl e)) \<Rightarrow> Some (Inl e)
      | _ \<Rightarrow> None)"

section \<open>Merging branches\<close>

record 'v world =
  w_repo :: repo_state
  w_approvals :: 'v

definition merge_challenge ::
  "'v service \<Rightarrow> branch_ref \<Rightarrow> commit \<Rightarrow> commit \<Rightarrow> string option \<Rightarrow> rev_error + challenge"
where
  "merge_challenge sv target thead shead pol =
     bindr (lift_py (digest (sv_host sv) (challenge_document (br_repository target) (br_name target)
        (cm_id thead) (cm_id shead) pol))) (\<lambda>d.
       (let c = \<lparr>bc_id = ''bra_'' @ take 32 d, bc_repository = br_repository target,
                 bc_branch = br_name target, bc_target_head = cm_id thead,
                 bc_source_head = cm_id shead,
                 bc_policy = (case pol of None \<Rightarrow> ''maintainer''
                              | Some p \<Rightarrow> if p = [] then ''maintainer'' else p)\<rparr> in
        bindr (check (challenge_valid c) ''challenge validation'') (\<lambda>_. Inr c)))"

definition merged_result :: "commit \<Rightarrow> merge_result" where
  "merged_result c = \<lparr>mr_status = Merged, mr_commit = Some c, mr_conflicts = [], mr_approval = None\<rparr>"

text \<open>The end of \<open>merge\<close>: the commit on the target branch, with the source head as second parent.\<close>

definition merge_write ::
  "'v service \<Rightarrow> 'v world \<Rightarrow> timestamp \<Rightarrow> branch_ref \<Rightarrow> commit \<Rightarrow> json \<Rightarrow> string \<Rightarrow> string \<Rightarrow> string \<Rightarrow>
   (rev_error + merge_result) \<times> 'v world"
where
  "merge_write sv w now target shead merged expected author msg =
     (case write_commit sv (w_repo w) now target merged expected author msg (Some (cm_id shead)) True of
        Inl e \<Rightarrow> (Inl e, w)
      | Inr (out, s') \<Rightarrow> (Inr (merged_result (co_commit out)), w\<lparr>w_repo := s'\<rparr>))"

text \<open>The middle of \<open>merge\<close>: a protected target needs an approval for exactly this merge.\<close>

definition merge_approved ::
  "'v service \<Rightarrow> 'v world \<Rightarrow> timestamp \<Rightarrow> branch_ref \<Rightarrow> branch \<Rightarrow> commit \<Rightarrow> commit \<Rightarrow> json \<Rightarrow> string \<Rightarrow>
   string \<Rightarrow> string \<Rightarrow> string option \<Rightarrow> (rev_error + merge_result) \<times> 'v world"
where
  "merge_approved sv w now target rec thead shead merged expected author msg approval =
     (if \<not> b_protected rec then merge_write sv w now target shead merged expected author msg
      else
        (case merge_challenge sv target thead shead (b_policy rec) of
           Inl e \<Rightarrow> (Inl e, w)
         | Inr c \<Rightarrow>
             (let required = Inr \<lparr>mr_status = ApprovalRequired, mr_commit = None, mr_conflicts = [],
                                  mr_approval = Some c\<rparr> in
              case approval of
                None \<Rightarrow> (required, w)
              | Some reference \<Rightarrow>
                  (case sv_consume sv (w_approvals w) reference c of
                     (False, st) \<Rightarrow> (required, w\<lparr>w_approvals := st\<rparr>)
                   | (True, st) \<Rightarrow>
                       merge_write sv (w\<lparr>w_approvals := st\<rparr>) now target shead merged expected
                         author msg))))"

definition svc_merge ::
  "'v service \<Rightarrow> 'v world \<Rightarrow> timestamp \<Rightarrow> branch_ref \<Rightarrow> branch_ref \<Rightarrow> string \<Rightarrow> string \<Rightarrow> string \<Rightarrow>
   string option \<Rightarrow> ((rev_error + merge_result) \<times> 'v world) option"
where
  "svc_merge sv w now source target expected author msg approval =
     (if br_repository source \<noteq> br_repository target
      then Some (Inl (Raised (ValueError ''cannot merge across repositories'')), w)
      else
        (case bindr (svc_head (w_repo w) source) (\<lambda>shead.
              bindr (svc_head (w_repo w) target) (\<lambda>thead. Inr (shead, thead))) of
           Inl e \<Rightarrow> Some (Inl e, w)
         | Inr (shead, thead) \<Rightarrow>
             if cm_id thead \<noteq> expected then Some (Inl (BranchConflict expected (cm_id thead)), w)
             else
               (case merge_base (w_repo w) thead shead of
                  None \<Rightarrow> None
                | Some (Inl e) \<Rightarrow> Some (Inl e, w)
                | Some (Inr base) \<Rightarrow>
                    (case lift_py (three_way_merge (sv_adapter sv) (sn_content (cm_snapshot base))
                             (sn_content (cm_snapshot thead)) (sn_content (cm_snapshot shead))) of
                       Inl e \<Rightarrow> Some (Inl e, w)
                     | Inr (None, cs) \<Rightarrow>
                         Some (Inr \<lparr>mr_status = Conflicted, mr_commit = None, mr_conflicts = cs,
                                    mr_approval = None\<rparr>, w)
                     | Inr (Some merged, cs) \<Rightarrow>
                         (case repo_get_branch (w_repo w) target of
                            None \<Rightarrow> Some (Inl (RevisionNotFound ''branch not found''), w)
                          | Some rec \<Rightarrow>
                              Some (merge_approved sv w now target rec thead shead merged expected
                                author msg approval))))))"

section \<open>Lineage\<close>

definition ref_key :: "commit_ref \<Rightarrow> string \<times> string \<times> string" where
  "ref_key r = (r_tenant (cr_repository r), r_id (cr_repository r), cr_commit_id r)"

function lineage_check ::
  "repo_state \<Rightarrow> commit_ref \<Rightarrow> commit_ref list \<Rightarrow> (string \<times> string \<times> string) list \<Rightarrow> nat \<Rightarrow>
   rev_error + unit"
where
  "lineage_check s up [] visited examined = Inr ()"
| "lineage_check s up (current # queue) visited examined =
     (if ref_key current \<in> set visited then lineage_check s up queue visited examined
      else if current = up
      then Inl (Raised (ValueError ''lineage edge would create a cycle''))
      else
        bindr (list_lineage s current ''downstream'') (\<lambda>es.
          if es \<noteq> [] \<and> examined + length es > 10000
          then Inl (Raised (ValueError ''lineage graph exceeds safe cycle-check bound''))
          else lineage_check s up (queue @ map le_downstream es) (ref_key current # visited)
                 (examined + length es)))"
  by pat_completeness auto
termination
  by (relation "measure (\<lambda>(s, up, queue, visited, examined). length queue + 2 * (10001 - examined))")
     auto

definition svc_link_lineage ::
  "'v service \<Rightarrow> repo_state \<Rightarrow> timestamp \<Rightarrow> commit_ref \<Rightarrow> commit_ref \<Rightarrow> string \<Rightarrow> string \<Rightarrow>
   rev_error + lineage_edge \<times> repo_state"
where
  "svc_link_lineage sv s now up down rel author =
     bindr (check (r_tenant (cr_repository up) = r_tenant (cr_repository down))
        ''lineage cannot cross tenants'') (\<lambda>_.
     bindr (svc_get_commit s (cr_commit_id up) (Some (cr_repository up))) (\<lambda>_.
     bindr (svc_get_commit s (cr_commit_id down) (Some (cr_repository down))) (\<lambda>_.
     bindr (lineage_check s up [down] [] 0) (\<lambda>_.
     bindr (lift_py (digest (sv_host sv) (lineage_document up down rel author))) (\<lambda>d.
       (let e = \<lparr>le_id = ''lin_'' @ take 32 d, le_upstream = up, le_downstream = down,
                 le_relation = rel, le_created_by = author, le_created_at = now\<rparr> in
        bindr (check (lineage_edge_valid (sv_host sv) e) ''lineage validation'') (\<lambda>_.
          map_error hide_missing (repo_save_lineage s e))))))))"

definition node_key :: "commit_ref \<Rightarrow> string" where
  "node_key r = r_tenant (cr_repository r) @ '':'' @ r_id (cr_repository r) @ '':'' @ cr_commit_id r"

text \<open>
  The inner loop over the edges of one node: the visited nodes, the collected edges, the queue,
  and whether the edge limit stopped it.
\<close>

fun lineage_edges ::
  "string \<Rightarrow> nat \<Rightarrow> nat \<Rightarrow> lineage_edge list \<Rightarrow> string list \<Rightarrow> lineage_edge list \<Rightarrow>
   (commit_ref \<times> nat) list \<Rightarrow> string list \<times> lineage_edge list \<times> (commit_ref \<times> nat) list \<times> bool"
where
  "lineage_edges direction max_edges depth [] nodes edges queue = (nodes, edges, queue, False)"
| "lineage_edges direction max_edges depth (e # es) nodes edges queue =
     (if le_id e \<in> set (map le_id edges)
      then lineage_edges direction max_edges depth es nodes edges queue
      else if length edges \<ge> max_edges then (nodes, edges, [], True)
      else
        (let next = (if direction = ''downstream'' then le_downstream e else le_upstream e) in
         if node_key next \<in> set nodes
         then lineage_edges direction max_edges depth es nodes (edges @ [e]) queue
         else lineage_edges direction max_edges depth es (node_key next # nodes) (edges @ [e])
                (queue @ [(next, depth + 1)])))"

lemma lineage_edges_measure:
  "lineage_edges direction max_edges depth es nodes edges queue = (nodes', edges', queue', t) \<Longrightarrow>
     length queue' + 2 * (max_edges - length edges') \<le> length queue + 2 * (max_edges - length edges)"
  by (induction direction max_edges depth es nodes edges queue rule: lineage_edges.induct)
     (fastforce simp: Let_def split: if_splits)+

function lineage_loop ::
  "repo_state \<Rightarrow> string \<Rightarrow> nat \<Rightarrow> nat \<Rightarrow> (commit_ref \<times> nat) list \<Rightarrow> string list \<Rightarrow> lineage_edge list \<Rightarrow>
   bool \<Rightarrow> rev_error + lineage_edge list \<times> bool"
where
  "lineage_loop s direction max_depth max_edges [] nodes edges truncated = Inr (edges, truncated)"
| "lineage_loop s direction max_depth max_edges ((current, depth) # queue) nodes edges truncated =
     bindr (list_lineage s current direction) (\<lambda>direct.
       if depth \<ge> max_depth
       then lineage_loop s direction max_depth max_edges queue nodes edges (truncated \<or> direct \<noteq> [])
       else
         (case lineage_edges direction max_edges depth direct nodes edges queue of
            (nodes', edges', queue', stopped) \<Rightarrow>
              lineage_loop s direction max_depth max_edges queue' nodes' edges' (truncated \<or> stopped)))"
  by pat_completeness auto
termination
  by (relation "measure (\<lambda>(s, d, md, me, queue, nodes, edges, t). length queue + 2 * (me - length edges))")
     (auto dest!: lineage_edges_measure [OF sym])

definition svc_lineage ::
  "repo_state \<Rightarrow> commit_ref \<Rightarrow> string \<Rightarrow> int \<Rightarrow> int \<Rightarrow> rev_error + lineage_graph"
where
  "svc_lineage s start direction max_depth max_edges =
     bindr (check (direction \<in> {''upstream'', ''downstream''})
        ''lineage direction must be upstream or downstream'') (\<lambda>_.
     bindr (check (1 \<le> max_depth \<and> max_depth \<le> 20) ''lineage max_depth must be between 1 and 20'') (\<lambda>_.
     bindr (check (1 \<le> max_edges \<and> max_edges \<le> 1000) ''lineage max_edges must be between 1 and 1000'') (\<lambda>_.
     bindr (svc_get_commit s (cr_commit_id start) (Some (cr_repository start))) (\<lambda>_.
     bindr (lineage_loop s direction (nat max_depth) (nat max_edges) [(start, 0)] [node_key start] [] False)
       (\<lambda>(edges, truncated).
         Inr \<lparr>lg_root = start, lg_direction = direction, lg_edges = edges, lg_truncated = truncated\<rparr>)))))"

declare lineage_check.simps [simp del] lineage_loop.simps [simp del]

section \<open>What a successful operation did\<close>

lemma commit_record_Inr:
  "commit_record sv r parents x author msg now = Inr c \<Longrightarrow>
     commit_valid (sv_host sv) c \<and> cm_repository c = r \<and> cm_parents c = parents \<and>
     cm_snapshot c = x \<and> cm_content_hash c = sn_content_hash x \<and> cm_created_at c = now"
  by (auto simp: commit_record_def bindr_eq_Inr Let_def)

lemma write_commit_Inr:
  assumes "write_commit sv s now b doc expected author msg additional allow = Inr (out, s')"
  obtains rec c br where
    "repo_get_branch s b = Some rec" "\<not> b_protected rec \<or> allow"
    "repo_append_commit s b c (Some expected) = Inr (br, s')"
    "out = \<lparr>co_branch = b, co_commit = c\<rparr>" "commit_valid (sv_host sv) c"
    "cm_repository c = br_repository b" "make_snapshot sv doc = Inr (cm_snapshot c)"
    "cm_content_hash c = sn_content_hash (cm_snapshot c)"
    "cm_parents c = expected # (case additional of None \<Rightarrow> [] | Some p \<Rightarrow> [p])"
  using assms unfolding write_commit_def
  by (auto simp: bindr_eq_Inr split: option.splits if_splits dest!: commit_record_Inr intro: that)

lemma svc_get_commit_Inr:
  "svc_get_commit s i scope = Inr c \<longleftrightarrow>
     map_of (rs_commits s) i = Some c \<and> (case scope of None \<Rightarrow> True | Some r \<Rightarrow> cm_repository c = r)"
  by (auto simp: svc_get_commit_def repo_get_commit_def split: option.splits)

text \<open>Every successful write of the service is one write of the store.\<close>

lemma svc_commit_step:
  "svc_commit sv s now b doc expected author msg additional = Inr (out, s') \<Longrightarrow>
     repo_step (sv_host sv) s s'"
  unfolding svc_commit_def by (erule write_commit_Inr) (rule append_commit)

lemma svc_restore_step:
  "svc_restore sv s now b source expected author msg = Inr (out, s') \<Longrightarrow> repo_step (sv_host sv) s s'"
  by (auto simp: svc_restore_def bindr_eq_Inr intro: svc_commit_step)

lemma svc_apply_changeset_step:
  "svc_apply_changeset sv s now b cs expected author msg = Inr (out, s') \<Longrightarrow>
     repo_step (sv_host sv) s s'"
  by (auto simp: svc_apply_changeset_def bindr_eq_Inr split: if_splits intro: svc_commit_step)

lemma svc_initialize_step:
  assumes "svc_initialize sv s now r name doc author msg = Inr (out, s')"
    and "no_collision s (co_commit out)"
  shows "repo_step (sv_host sv) s s'"
  using assms
  by (auto simp: svc_initialize_def bindr_eq_Inr Let_def dest!: commit_record_Inr
      intro: repo_step.initialize)

lemma svc_create_branch_step:
  assumes "svc_create_branch s r name i = Inr (b, s')" "repo_inv h s"
  shows "repo_step h s s'"
proof -
  obtain c where c: "map_of (rs_commits s) i = Some c"
    and s': "repo_create_branch s \<lparr>b_ref = \<lparr>br_repository = r, br_name = name\<rparr>, b_head = cm_id c,
        b_protected = False, b_policy = None, b_version = 1\<rparr> = Inr s'"
    using assms(1) by (auto simp: svc_create_branch_def bindr_eq_Inr Let_def svc_get_commit_Inr)
  have "commit_id_ok (cm_id c)"
    using repo_inv_commit [OF assms(2) c] by (auto simp: commit_placed_def commit_valid_def)
  then show ?thesis by (intro create_branch [OF _ s']) (simp add: branch_valid_def)
qed

lemma svc_protect_branch_step: "svc_protect_branch s b pol = Inr s' \<Longrightarrow> repo_step h s s'"
  by (auto simp: svc_protect_branch_def bindr_eq_Inr Let_def intro: protect_branch)

lemma svc_diff_step: "svc_diff sv s r i j = Inr (d, s') \<Longrightarrow> repo_step h s s'"
  by (auto simp: svc_diff_def bindr_eq_Inr Let_def intro: save_diff)

lemma svc_create_changeset_step:
  "svc_create_changeset sv s now r base doc author = Inr (c, s') \<Longrightarrow> repo_step h s s'"
  by (auto simp: svc_create_changeset_def bindr_eq_Inr Let_def intro: save_changeset)

lemma svc_link_lineage_step:
  "svc_link_lineage sv s now up down rel author = Inr (e, s') \<Longrightarrow> repo_step (sv_host sv) s s'"
  by (auto simp: svc_link_lineage_def bindr_eq_Inr Let_def intro: save_lineage)

lemma merge_write_step:
  "merge_write sv w now target shead merged expected author msg = (r, w') \<Longrightarrow>
     w_repo w' = w_repo w \<or> repo_step (sv_host sv) (w_repo w) (w_repo w')"
  by (auto simp: merge_write_def split: sum.splits elim!: write_commit_Inr intro: append_commit)

lemma svc_merge_step:
  assumes "svc_merge sv w now source target expected author msg approval = Some (r, w')"
  shows "w_repo w' = w_repo w \<or> repo_step (sv_host sv) (w_repo w) (w_repo w')"
  using assms unfolding svc_merge_def merge_approved_def Let_def
  by (auto split: if_splits sum.splits option.splits prod.splits bool.splits
      dest!: merge_write_step)

lemmas svc_steps =
  svc_commit_step svc_restore_step svc_apply_changeset_step svc_initialize_step
  svc_create_branch_step svc_protect_branch_step svc_diff_step svc_create_changeset_step
  svc_link_lineage_step

section \<open>Lineage stays acyclic\<close>

definition lineage_rel :: "repo_state \<Rightarrow> (commit_ref \<times> commit_ref) set" where
  "lineage_rel s = (\<lambda>e. (le_upstream e, le_downstream e)) ` snd ` set (rs_lineage s)"

lemma lineage_rel_iff:
  assumes "repo_inv h s"
  shows "(x, y) \<in> lineage_rel s \<longleftrightarrow>
    (\<exists>k e. map_of (rs_lineage s) k = Some e \<and> x = le_upstream e \<and> y = le_downstream e)"
proof -
  have "distinct (map fst (rs_lineage s))" by (rule repo_inv_distinct_lineage [OF assms])
  then show ?thesis by (force simp: lineage_rel_def dest: map_of_SomeD)
qed

lemma lineage_ends_stored:
  "repo_inv h s \<Longrightarrow> (x, y) \<in> lineage_rel s \<Longrightarrow> endpoint_stored s x \<and> endpoint_stored s y"
  using lineage_rel_iff [of h s x y] unfolding repo_inv_def lineage_inv_def by blast

lemma stored_ref_unique:
  "endpoint_stored s x \<Longrightarrow> endpoint_stored s y \<Longrightarrow> ref_key x = ref_key y \<Longrightarrow> x = y"
  by (auto simp: endpoint_stored_def ref_key_def split: option.splits)

lemma list_lineage_downstream:
  "list_lineage s r ''downstream'' = Inr es \<Longrightarrow>
     set es = {e \<in> snd ` set (rs_lineage s). le_upstream e = r}"
  by (force simp: list_lineage_def)

lemma list_lineage_downstream_rel:
  "list_lineage s r ''downstream'' = Inr es \<Longrightarrow>
     le_downstream ` set es = {y. (r, y) \<in> lineage_rel s}"
  by (auto simp: list_lineage_downstream lineage_rel_def image_iff)

text \<open>
  A search that ends without an error has visited a set of nodes closed under the edges, none of
  them the upstream end.
\<close>

lemma lineage_check_closed:
  assumes "repo_inv h s" "lineage_check s up queue visited n = Inr u"
    and "\<And>r. r \<in> set queue \<Longrightarrow> endpoint_stored s r"
  shows "\<exists>K. set visited \<subseteq> K \<and> ref_key ` set queue \<subseteq> K \<and>
    (\<forall>k \<in> K - set visited. \<exists>r. endpoint_stored s r \<and> ref_key r = k \<and> r \<noteq> up \<and>
       (\<forall>y. (r, y) \<in> lineage_rel s \<longrightarrow> ref_key y \<in> K))"
  using assms
proof (induction s up queue visited n rule: lineage_check.induct)
  case (1 s up visited examined)
  show ?case by (intro exI [of _ "set visited"]) auto
next
  case (2 s up current queue visited examined)
  show ?case
  proof (cases "ref_key current \<in> set visited")
    case True
    then obtain K where "set visited \<subseteq> K \<and> ref_key ` set queue \<subseteq> K \<and>
      (\<forall>k \<in> K - set visited. \<exists>r. endpoint_stored s r \<and> ref_key r = k \<and> r \<noteq> up \<and>
       (\<forall>y. (r, y) \<in> lineage_rel s \<longrightarrow> ref_key y \<in> K))"
      using "2.IH"(1) [OF True "2.prems"(1)] "2.prems"(2,3) True
      by (auto simp: lineage_check.simps)
    with True show ?thesis by (intro exI [of _ K]) auto
  next
    case False
    with "2.prems"(2) obtain es where up: "current \<noteq> up"
      and es: "list_lineage s current ''downstream'' = Inr es"
      and ok: "\<not> (es \<noteq> [] \<and> examined + length es > 10000)"
      and rest: "lineage_check s up (queue @ map le_downstream es) (ref_key current # visited)
                 (examined + length es) = Inr u"
      by (auto simp: lineage_check.simps bindr_eq_Inr split: if_splits)
    note downs = list_lineage_downstream_rel [OF es]
    have stored: "endpoint_stored s r" if "r \<in> set (queue @ map le_downstream es)" for r
    proof -
      have "r \<in> set queue \<or> (current, r) \<in> lineage_rel s" using that downs by auto
      then show ?thesis using "2.prems"(3) lineage_ends_stored [OF "2.prems"(1)] by auto
    qed
    obtain K where K: "set (ref_key current # visited) \<subseteq> K"
      "ref_key ` set (queue @ map le_downstream es) \<subseteq> K"
      "\<forall>k \<in> K - set (ref_key current # visited). \<exists>r. endpoint_stored s r \<and> ref_key r = k \<and> r \<noteq> up \<and>
         (\<forall>y. (r, y) \<in> lineage_rel s \<longrightarrow> ref_key y \<in> K)"
      using "2.IH"(2) [OF False up es ok "2.prems"(1) rest stored] by blast
    have "\<forall>y. (current, y) \<in> lineage_rel s \<longrightarrow> ref_key y \<in> K"
      using K(2) downs by auto
    then have cur: "endpoint_stored s current \<and> ref_key current = ref_key current \<and> current \<noteq> up \<and>
        (\<forall>y. (current, y) \<in> lineage_rel s \<longrightarrow> ref_key y \<in> K)"
      using up "2.prems"(3) by simp
    have "\<exists>r. endpoint_stored s r \<and> ref_key r = k \<and> r \<noteq> up \<and>
        (\<forall>y. (r, y) \<in> lineage_rel s \<longrightarrow> ref_key y \<in> K)" if "k \<in> K - set visited" for k
      using K(3) cur that by (cases "k = ref_key current") auto
    then show ?thesis using K(1,2) by (intro exI [of _ K]) auto
  qed
qed

lemma lineage_check_unreachable:
  assumes "repo_inv h s" "lineage_check s up [down] [] n = Inr u"
    and "endpoint_stored s up" "endpoint_stored s down"
  shows "(down, up) \<notin> (lineage_rel s)\<^sup>*"
proof
  obtain K where start: "ref_key down \<in> K"
    and closed: "\<And>k. k \<in> K \<Longrightarrow> \<exists>r. endpoint_stored s r \<and> ref_key r = k \<and> r \<noteq> up \<and>
       (\<forall>y. (r, y) \<in> lineage_rel s \<longrightarrow> ref_key y \<in> K)"
    using lineage_check_closed [OF assms(1,2)] assms(4) by auto
  assume "(down, up) \<in> (lineage_rel s)\<^sup>*"
  then have "ref_key up \<in> K \<and> endpoint_stored s up"
  proof (induction rule: rtrancl_induct)
    case base
    then show ?case using start assms(4) by blast
  next
    case (step x y)
    then obtain r where "endpoint_stored s r" "ref_key r = ref_key x"
      "\<forall>y. (r, y) \<in> lineage_rel s \<longrightarrow> ref_key y \<in> K"
      using closed by blast
    moreover from this have "r = x" using step.IH stored_ref_unique by blast
    ultimately show ?case using step.hyps lineage_ends_stored [OF assms(1)] by blast
  qed
  then obtain r where "endpoint_stored s r" "ref_key r = ref_key up" "r \<noteq> up"
    using closed by blast
  then show False using stored_ref_unique assms(3) by blast
qed

lemma svc_link_lineage_acyclic:
  assumes "repo_inv h s" "acyclic (lineage_rel s)"
    and "svc_link_lineage sv s now up down rel author = Inr (e, s')"
  shows "acyclic (lineage_rel s')"
proof -
  obtain d where chk: "lineage_check s up [down] [] 0 = Inr ()"
    and save': "repo_save_lineage s \<lparr>le_id = ''lin_'' @ take 32 d, le_upstream = up,
      le_downstream = down, le_relation = rel, le_created_by = author, le_created_at = now\<rparr> = Inr (e, s')"
    using assms(3) by (auto simp: svc_link_lineage_def bindr_eq_Inr Let_def)
  define e' where "e' = \<lparr>le_id = ''lin_'' @ take 32 d, le_upstream = up, le_downstream = down,
      le_relation = rel, le_created_by = author, le_created_at = now\<rparr>"
  have e': "le_upstream e' = up" "le_downstream e' = down" by (simp_all add: e'_def)
  have save: "repo_save_lineage s e' = Inr (e, s')" unfolding e'_def by (rule save')
  from save e' have ends: "endpoint_stored s up" "endpoint_stored s down"
    by (auto simp: repo_save_lineage_def split: if_splits)
  from save have "s' = s \<or> (map_of (rs_lineage s) (le_id e') = None \<and>
      rs_lineage s' = rs_lineage s @ [(le_id e', e')])"
    by (auto simp: repo_save_lineage_def map_of_eq_None_iff update_append
        split: if_splits option.splits)
  then show ?thesis
  proof
    assume "s' = s" then show ?thesis using assms(2) by simp
  next
    assume "map_of (rs_lineage s) (le_id e') = None \<and> rs_lineage s' = rs_lineage s @ [(le_id e', e')]"
    then have "lineage_rel s' = insert (up, down) (lineage_rel s)"
      by (simp add: lineage_rel_def e')
    then show ?thesis
      using assms(2) lineage_check_unreachable [OF assms(1) chk ends] by simp
  qed
qed

section \<open>Reachable states of the service\<close>

lemma lineage_unchanged:
  "repo_append_commit s b c x = Inr (br, s') \<Longrightarrow> rs_lineage s' = rs_lineage s"
  "repo_initialize s r b c = Inr (br, s') \<Longrightarrow> rs_lineage s' = rs_lineage s"
  "repo_create_branch s br = Inr s' \<Longrightarrow> rs_lineage s' = rs_lineage s"
  "repo_protect_branch s b pol = Inr (br, s') \<Longrightarrow> rs_lineage s' = rs_lineage s"
  "repo_save_changeset s cs = Inr (cs', s') \<Longrightarrow> rs_lineage s' = rs_lineage s"
  "repo_save_diff s d = Inr (d', s') \<Longrightarrow> rs_lineage s' = rs_lineage s"
  by (auto simp: repo_initialize_def repo_create_branch_def repo_protect_branch_def Let_def
      repo_save_changeset_def repo_save_diff_def elim!: repo_append_commit_Inr
      split: if_splits option.splits)

text \<open>
  One completed call of the service. \<open>approvals\<close> stands for anything that happens at the approval
  service in between, such as issuing a reference.
\<close>

inductive svc_step :: "'v service \<Rightarrow> 'v world \<Rightarrow> 'v world \<Rightarrow> bool" for sv where
  approvals: "svc_step sv w (w\<lparr>w_approvals := st\<rparr>)"
| initialize: "svc_initialize sv (w_repo w) now r name doc author msg = Inr (out, s') \<Longrightarrow>
    no_collision (w_repo w) (co_commit out) \<Longrightarrow> svc_step sv w (w\<lparr>w_repo := s'\<rparr>)"
| create_branch: "svc_create_branch (w_repo w) r name i = Inr (b, s') \<Longrightarrow>
    svc_step sv w (w\<lparr>w_repo := s'\<rparr>)"
| commit: "svc_commit sv (w_repo w) now b doc expected author msg additional = Inr (out, s') \<Longrightarrow>
    svc_step sv w (w\<lparr>w_repo := s'\<rparr>)"
| restore: "svc_restore sv (w_repo w) now b source expected author msg = Inr (out, s') \<Longrightarrow>
    svc_step sv w (w\<lparr>w_repo := s'\<rparr>)"
| protect: "svc_protect_branch (w_repo w) b pol = Inr s' \<Longrightarrow> svc_step sv w (w\<lparr>w_repo := s'\<rparr>)"
| diff: "svc_diff sv (w_repo w) r i j = Inr (d, s') \<Longrightarrow> svc_step sv w (w\<lparr>w_repo := s'\<rparr>)"
| create_changeset: "svc_create_changeset sv (w_repo w) now r base doc author = Inr (c, s') \<Longrightarrow>
    svc_step sv w (w\<lparr>w_repo := s'\<rparr>)"
| apply_changeset: "svc_apply_changeset sv (w_repo w) now b cs expected author msg = Inr (out, s') \<Longrightarrow>
    svc_step sv w (w\<lparr>w_repo := s'\<rparr>)"
| merge: "svc_merge sv w now source target expected author msg approval = Some (res, w') \<Longrightarrow>
    svc_step sv w w'"
| link_lineage: "svc_link_lineage sv (w_repo w) now up down rel author = Inr (e, s') \<Longrightarrow>
    svc_step sv w (w\<lparr>w_repo := s'\<rparr>)"

inductive svc_reachable :: "'v service \<Rightarrow> 'v world \<Rightarrow> bool" for sv where
  start: "w_repo w = empty_repo \<Longrightarrow> svc_reachable sv w"
| step: "svc_reachable sv w \<Longrightarrow> svc_step sv w w' \<Longrightarrow> svc_reachable sv w'"

definition store_inv :: "hostlib \<Rightarrow> repo_state \<Rightarrow> bool" where
  "store_inv h s \<longleftrightarrow> repo_inv h s \<and> acyclic (lineage_rel s)"

lemma write_commit_lineage:
  "write_commit sv s now b doc expected author msg additional allow = Inr (out, s') \<Longrightarrow>
     rs_lineage s' = rs_lineage s"
  by (auto elim!: write_commit_Inr dest: lineage_unchanged)

lemma merge_write_lineage:
  "merge_write sv w now target shead merged expected author msg = (r, w') \<Longrightarrow>
     rs_lineage (w_repo w') = rs_lineage (w_repo w)"
  by (auto simp: merge_write_def dest: write_commit_lineage split: sum.splits)

lemma svc_merge_lineage:
  "svc_merge sv w now source target expected author msg approval = Some (r, w') \<Longrightarrow>
     rs_lineage (w_repo w') = rs_lineage (w_repo w)"
  unfolding svc_merge_def merge_approved_def Let_def
  by (auto split: if_splits sum.splits option.splits prod.splits bool.splits
      dest!: merge_write_lineage)

lemma svc_commit_lineage:
  "svc_commit sv s now b doc expected author msg additional = Inr (out, s') \<Longrightarrow>
     rs_lineage s' = rs_lineage s"
  by (simp add: svc_commit_def write_commit_lineage)

lemma svc_lineage_unchanged:
  "svc_initialize sv s now r name doc author msg = Inr (out, s') \<Longrightarrow> rs_lineage s' = rs_lineage s"
  "svc_create_branch s r name i = Inr (b, s') \<Longrightarrow> rs_lineage s' = rs_lineage s"
  "svc_restore sv s now br source expected author msg = Inr (out, s') \<Longrightarrow> rs_lineage s' = rs_lineage s"
  "svc_protect_branch s br pol = Inr s' \<Longrightarrow> rs_lineage s' = rs_lineage s"
  "svc_diff sv s r i j = Inr (d, s') \<Longrightarrow> rs_lineage s' = rs_lineage s"
  "svc_create_changeset sv s now r i doc author = Inr (c, s') \<Longrightarrow> rs_lineage s' = rs_lineage s"
  "svc_apply_changeset sv s now br cs expected author msg = Inr (out, s') \<Longrightarrow>
     rs_lineage s' = rs_lineage s"
  by (auto simp: svc_initialize_def svc_create_branch_def svc_restore_def svc_protect_branch_def
      svc_diff_def svc_create_changeset_def svc_apply_changeset_def bindr_eq_Inr Let_def
      dest: lineage_unchanged svc_commit_lineage split: if_splits)

lemma plain_write:
  "repo_step h s s' \<Longrightarrow> rs_lineage s' = rs_lineage s \<Longrightarrow> store_inv h s \<Longrightarrow>
     store_inv h s' \<and> extends s s'"
  using repo_step_inv by (fastforce simp: store_inv_def lineage_rel_def)

lemma store_inv_extends_self: "store_inv h s \<Longrightarrow> extends s s"
  using repo_inv_commit [of h s] by (auto simp: extends_def store_inv_def)

lemma svc_step_inv:
  assumes "svc_step sv w w'" "store_inv (sv_host sv) (w_repo w)"
  shows "store_inv (sv_host sv) (w_repo w') \<and> extends (w_repo w) (w_repo w')"
  using assms(1)
proof cases
  case (approvals st)
  then show ?thesis using assms(2) by (simp add: store_inv_extends_self)
next
  case (create_branch r name i b s')
  then have "repo_step (sv_host sv) (w_repo w) s'"
    using svc_create_branch_step assms(2) by (auto simp: store_inv_def)
  then show ?thesis
    using plain_write svc_lineage_unchanged(2) create_branch assms(2) by fastforce
next
  case (merge now source target expected author msg approval res)
  have "lineage_rel (w_repo w') = lineage_rel (w_repo w)"
    using svc_merge_lineage [OF merge] by (simp add: lineage_rel_def)
  then show ?thesis
    using svc_merge_step [OF merge] store_inv_extends_self [OF assms(2)] assms(2)
      repo_step_inv [of "sv_host sv" "w_repo w" "w_repo w'"]
    by (auto simp: store_inv_def)
next
  case (link_lineage now up down rel author e s')
  have "acyclic (lineage_rel s')"
    using assms(2) unfolding store_inv_def
    by (blast intro: svc_link_lineage_acyclic [OF _ _ link_lineage(2)])
  then show ?thesis
    using assms(2) repo_step_inv [OF svc_link_lineage_step [OF link_lineage(2)]] link_lineage(1)
    by (simp add: store_inv_def)
next
  case initialize
  then show ?thesis using plain_write [OF svc_initialize_step svc_lineage_unchanged(1)] assms(2) by simp
next
  case commit
  then show ?thesis using plain_write [OF svc_commit_step svc_commit_lineage] assms(2) by simp
next
  case restore
  then show ?thesis using plain_write [OF svc_restore_step svc_lineage_unchanged(3)] assms(2) by simp
next
  case protect
  then show ?thesis
    using plain_write [OF svc_protect_branch_step svc_lineage_unchanged(4)] assms(2) by simp
next
  case diff
  then show ?thesis using plain_write [OF svc_diff_step svc_lineage_unchanged(5)] assms(2) by simp
next
  case create_changeset
  then show ?thesis
    using plain_write [OF svc_create_changeset_step svc_lineage_unchanged(6)] assms(2) by simp
next
  case apply_changeset
  then show ?thesis
    using plain_write [OF svc_apply_changeset_step svc_lineage_unchanged(7)] assms(2) by simp
qed

lemma svc_reachable_store_inv: "svc_reachable sv w \<Longrightarrow> store_inv (sv_host sv) (w_repo w)"
proof (induction rule: svc_reachable.induct)
  case (start w)
  moreover have "lineage_rel empty_repo = {}" by (simp add: lineage_rel_def empty_repo_def)
  ultimately show ?case by (simp add: store_inv_def empty_repo_inv acyclic_def)
next
  case (step w w')
  then show ?case using svc_step_inv by blast
qed

section \<open>Histories\<close>

definition commit_pos :: "repo_state \<Rightarrow> string \<Rightarrow> nat" where
  "commit_pos s i = index_of i (map fst (rs_commits s))"

lemma parents_before_pos:
  "parents_before seen xs \<Longrightarrow> map_of xs k = Some c \<Longrightarrow> p \<in> set (cm_parents c) \<Longrightarrow>
     p \<in> set seen \<or> index_of p (map fst xs) < index_of k (map fst xs)"
proof (induction seen xs rule: parents_before.induct)
  case (2 seen k' c' r)
  show ?case
  proof (cases "k = k'")
    case True
    then show ?thesis using 2 by auto
  next
    case False
    then have "p \<in> set (k' # seen) \<or> index_of p (map fst r) < index_of k (map fst r)"
      using 2 by simp
    then show ?thesis using False by auto
  qed
qed simp

lemma parent_stored:
  assumes "repo_inv h s" "map_of (rs_commits s) k = Some c" "p \<in> set (cm_parents c)"
  obtains d where "map_of (rs_commits s) p = Some d" "cm_id d = p"
    "cm_repository d = cm_repository c" "commit_pos s p < commit_pos s k"
proof -
  have "parents_stored s c" using repo_inv_commit [OF assms(1,2)] by (simp add: commit_placed_def)
  then obtain d where d: "map_of (rs_commits s) p = Some d" "cm_repository d = cm_repository c"
    using assms(3) by (fastforce simp: parents_stored_def list_all_iff split: option.splits)
  moreover have "commit_pos s p < commit_pos s k"
    using parents_before_pos [OF repo_inv_order [OF assms(1)] assms(2,3)]
    by (simp add: commit_pos_def)
  ultimately show ?thesis using that repo_inv_commit [OF assms(1)] by blast
qed

text \<open>A chain of commits, each the first parent of the one before it.\<close>

fun first_parent_chain :: "repo_state \<Rightarrow> string list \<Rightarrow> bool" where
  "first_parent_chain s (i # j # r) =
     ((case map_of (rs_commits s) i of None \<Rightarrow> False
       | Some c \<Rightarrow> cm_parents c \<noteq> [] \<and> hd (cm_parents c) = j) \<and> first_parent_chain s (j # r))"
| "first_parent_chain s [i] = (map_of (rs_commits s) i \<noteq> None)"
| "first_parent_chain s [] = True"

definition is_root :: "repo_state \<Rightarrow> string \<Rightarrow> bool" where
  "is_root s i \<longleftrightarrow> (case map_of (rs_commits s) i of None \<Rightarrow> False | Some c \<Rightarrow> cm_parents c = [])"

lemma history_loop_chain:
  assumes "repo_inv h s" "map_of (rs_commits s) (cm_id c) = Some c" "0 < n"
  shows "\<exists>ids. history_loop n s (cm_repository c) c = Inr ids \<and> ids \<noteq> [] \<and> hd ids = cm_id c \<and>
    first_parent_chain s ids \<and> distinct ids \<and> length ids \<le> n \<and>
    (length ids < n \<longrightarrow> is_root s (last ids)) \<and>
    (\<forall>i \<in> set ids. commit_pos s i \<le> commit_pos s (cm_id c))"
  using assms(2,3)
proof (induction n arbitrary: c)
  case (Suc n)
  show ?case
  proof (cases "cm_parents c")
    case Nil
    then show ?thesis using Suc.prems by (simp add: is_root_def)
  next
    case (Cons p ps)
    obtain d where d: "map_of (rs_commits s) p = Some d" "cm_id d = p"
      "cm_repository d = cm_repository c" "commit_pos s p < commit_pos s (cm_id c)"
      using parent_stored [OF assms(1) Suc.prems(1), of p] Cons by auto
    then have get: "svc_get_commit s p (Some (cm_repository c)) = Inr d"
      by (simp add: svc_get_commit_Inr)
    show ?thesis
    proof (cases n)
      case 0
      then show ?thesis using Suc.prems Cons get by simp
    next
      case (Suc m)
      then obtain ids where ids: "history_loop n s (cm_repository c) d = Inr ids" "ids \<noteq> []"
        "hd ids = p" "first_parent_chain s ids" "distinct ids" "length ids \<le> n"
        "length ids < n \<longrightarrow> is_root s (last ids)"
        "\<forall>i \<in> set ids. commit_pos s i \<le> commit_pos s p"
        using Suc.IH [of d] d by auto
      have "cm_id c \<notin> set ids" using ids(8) d(4) by auto
      moreover obtain r where "ids = p # r" using ids(2,3) by (cases ids) auto
      ultimately show ?thesis
        using ids d get Cons Suc.prems by (auto intro: less_imp_le le_less_trans)
    qed
  qed
qed simp

section \<open>The ancestor walk\<close>

definition anc_rel :: "repo_state \<Rightarrow> (string \<times> string) set" where
  "anc_rel s = {(i, p). \<exists>c. map_of (rs_commits s) i = Some c \<and> p \<in> set (cm_parents c)}"

definition shortest :: "repo_state \<Rightarrow> string \<Rightarrow> string \<Rightarrow> nat \<Rightarrow> bool" where
  "shortest s i v n \<longleftrightarrow> (i, v) \<in> anc_rel s ^^ n \<and> (\<forall>m < n. (i, v) \<notin> anc_rel s ^^ m)"

text \<open>
  The state of the walk: the queue is sorted with a spread of at most one, nothing recorded lies
  beyond its head, and every parent of a recorded commit is recorded or queued, no further away
  than through that commit.
\<close>

definition walk_inv :: "repo_state \<Rightarrow> repository_ref \<Rightarrow> string \<Rightarrow> (string \<times> nat) list \<Rightarrow>
    (commit \<times> nat) list \<Rightarrow> bool" where
  "walk_inv s r i D Q \<longleftrightarrow>
     (\<forall>(c, k) \<in> set Q. map_of (rs_commits s) (cm_id c) = Some c \<and> cm_repository c = r \<and>
        (i, cm_id c) \<in> anc_rel s ^^ k \<and> k \<le> snd (hd Q) + 1) \<and>
     sorted (map snd Q) \<and> distinct (map fst D) \<and>
     (\<forall>v n. map_of D v = Some n \<longrightarrow> map_of (rs_commits s) v \<noteq> None \<and> (i, v) \<in> anc_rel s ^^ n \<and>
        (Q \<noteq> [] \<longrightarrow> n \<le> snd (hd Q)) \<and>
        (\<forall>p. (v, p) \<in> anc_rel s \<longrightarrow> (\<exists>m \<le> n + 1. map_of D p = Some m \<or>
           (\<exists>c. cm_id c = p \<and> (c, m) \<in> set Q)))) \<and>
     ((\<exists>c. cm_id c = i \<and> (c, 0) \<in> set Q) \<or> map_of D i = Some 0)"

lemma walk_inv_done:
  assumes "walk_inv s r i D []" "(i, v) \<in> anc_rel s ^^ n"
  shows "\<exists>m \<le> n. map_of D v = Some m"
  using assms(2)
proof (induction n arbitrary: v)
  case 0
  then show ?case using assms(1) by (simp add: walk_inv_def)
next
  case (Suc n)
  then obtain u where "(i, u) \<in> anc_rel s ^^ n" "(u, v) \<in> anc_rel s" by auto
  with Suc.IH obtain m where "m \<le> n" "map_of D u = Some m" by blast
  moreover have "\<exists>m' \<le> m + 1. map_of D v = Some m'"
    using assms(1) \<open>(u, v) \<in> anc_rel s\<close> \<open>map_of D u = Some m\<close> by (fastforce simp: walk_inv_def)
  ultimately show ?case by (metis Suc_eq_plus1 Suc_le_mono le_trans)
qed

lemma walk_inv_shortest:
  assumes "walk_inv s r i D []"
  shows "map_of D v = Some n \<longleftrightarrow> shortest s i v n"
proof
  assume n: "map_of D v = Some n"
  then have "(i, v) \<in> anc_rel s ^^ n" using assms by (simp add: walk_inv_def)
  moreover have "(i, v) \<notin> anc_rel s ^^ m" if "m < n" for m
    using walk_inv_done [OF assms, of v m] n that by auto
  ultimately show "shortest s i v n" by (simp add: shortest_def)
next
  assume sh: "shortest s i v n"
  then obtain m where m: "m \<le> n" "map_of D v = Some m"
    using walk_inv_done [OF assms, of v n] by (auto simp: shortest_def)
  moreover have "(i, v) \<in> anc_rel s ^^ m" using m assms by (simp add: walk_inv_def)
  ultimately show "map_of D v = Some n" using sh by (auto simp: shortest_def le_less)
qed

lemma walk_inv_Cons:
  assumes "walk_inv s r i D ((c, k) # Q)"
  shows "map_of (rs_commits s) (cm_id c) = Some c" "cm_repository c = r"
    "(i, cm_id c) \<in> anc_rel s ^^ k"
    "\<And>d j. (d, j) \<in> set Q \<Longrightarrow> map_of (rs_commits s) (cm_id d) = Some d \<and> cm_repository d = r \<and>
       (i, cm_id d) \<in> anc_rel s ^^ j \<and> k \<le> j \<and> j \<le> k + 1"
    "\<And>v n. map_of D v = Some n \<Longrightarrow> n \<le> k"
    "sorted (map snd Q)" "distinct (map fst D)"
  using assms by (auto simp: walk_inv_def)

lemma walk_inv_parent:
  "walk_inv s r i D Q \<Longrightarrow> map_of D v = Some n \<Longrightarrow> (v, p) \<in> anc_rel s \<Longrightarrow>
     \<exists>m \<le> n + 1. map_of D p = Some m \<or> (\<exists>c. cm_id c = p \<and> (c, m) \<in> set Q)"
  unfolding walk_inv_def by blast

lemma walk_inv_recorded:
  "walk_inv s r i D Q \<Longrightarrow> map_of D v = Some n \<Longrightarrow>
     map_of (rs_commits s) v \<noteq> None \<and> (i, v) \<in> anc_rel s ^^ n"
  unfolding walk_inv_def by blast

lemma walk_inv_start:
  "walk_inv s r i D Q \<Longrightarrow> (\<exists>c. cm_id c = i \<and> (c, 0) \<in> set Q) \<or> map_of D i = Some 0"
  unfolding walk_inv_def by blast

lemma walk_skip:
  assumes inv: "walk_inv s r i D ((c, k) # Q)" and k': "map_of D (cm_id c) = Some k'"
  shows "walk_inv s r i D Q"
proof -
  note q = walk_inv_Cons [OF inv]
  have k: "k' \<le> k" using q(5) k' by simp
  have hd_Q: "Q \<noteq> [] \<Longrightarrow> k \<le> snd (hd Q)"
    using q(4) [of "fst (hd Q)" "snd (hd Q)"] by simp
  have queued: "\<exists>m' \<le> m. map_of D p = Some m' \<or> (\<exists>d. cm_id d = p \<and> (d, m') \<in> set Q)"
    if "map_of D p = Some m \<or> (\<exists>d. cm_id d = p \<and> (d, m) \<in> set ((c, k) # Q))" for p m
    using that k k' by auto
  have "\<exists>m \<le> n + 1. map_of D p = Some m \<or> (\<exists>d. cm_id d = p \<and> (d, m) \<in> set Q)"
    if v: "map_of D v = Some n" "(v, p) \<in> anc_rel s" for v n p
  proof -
    obtain m where m: "m \<le> n + 1"
      "map_of D p = Some m \<or> (\<exists>d. cm_id d = p \<and> (d, m) \<in> set ((c, k) # Q))"
      using walk_inv_parent [OF inv v] by blast
    obtain m' where "m' \<le> m" "map_of D p = Some m' \<or> (\<exists>d. cm_id d = p \<and> (d, m') \<in> set Q)"
      using queued [OF m(2)] by blast
    then show ?thesis using m(1) by (intro exI [of _ m'] conjI) auto
  qed
  moreover have "(\<exists>d. cm_id d = i \<and> (d, 0) \<in> set Q) \<or> map_of D i = Some 0"
    using walk_inv_start [OF inv] k k' by auto
  moreover have "map_of (rs_commits s) v \<noteq> None \<and> (i, v) \<in> anc_rel s ^^ n \<and>
      (Q \<noteq> [] \<longrightarrow> n \<le> snd (hd Q))" if "map_of D v = Some n" for v n
  proof -
    have "map_of (rs_commits s) v \<noteq> None \<and> (i, v) \<in> anc_rel s ^^ n \<and> n \<le> k"
      using walk_inv_recorded [OF inv that] q(5) [OF that] by simp
    then show ?thesis using hd_Q by fastforce
  qed
  moreover have "map_of (rs_commits s) (cm_id d) = Some d \<and> cm_repository d = r \<and>
        (i, cm_id d) \<in> anc_rel s ^^ j \<and> j \<le> snd (hd Q) + 1" if "(d, j) \<in> set Q" for d j
  proof -
    have "k \<le> snd (hd Q)" using hd_Q that by (cases Q) auto
    then show ?thesis using q(4) [OF that] by simp
  qed
  ultimately show ?thesis using q(6,7) unfolding walk_inv_def by blast
qed

lemma walk_expand:
  assumes inv: "walk_inv s r i D ((c, k) # Q)" and new: "map_of D (cm_id c) = None"
    and ps: "map cm_id ps = cm_parents c"
      "\<And>d. d \<in> set ps \<Longrightarrow> map_of (rs_commits s) (cm_id d) = Some d \<and> cm_repository d = r"
  shows "walk_inv s r i (D @ [(cm_id c, k)]) (Q @ map (\<lambda>d. (d, k + 1)) ps)"
    (is "walk_inv s r i ?D ?Q")
proof -
  define D' where "D' = ?D"
  note q = walk_inv_Cons [OF inv]
  have parent: "(cm_id c, cm_id d) \<in> anc_rel s" if "d \<in> set ps" for d
  proof -
    have "cm_id d \<in> set (map cm_id ps)" using that by simp
    then show ?thesis using q(1) by (auto simp: anc_rel_def ps(1))
  qed
  have D: "map_of D' v = (if v = cm_id c then Some k else map_of D v)" for v
    using new by (auto simp: D'_def map_add_def split: option.splits)
  have elem: "map_of (rs_commits s) (cm_id d) = Some d \<and> cm_repository d = r \<and>
      (i, cm_id d) \<in> anc_rel s ^^ j \<and> k \<le> j \<and> j \<le> k + 1" if dj: "(d, j) \<in> set ?Q" for d j
  proof (cases "(d, j) \<in> set Q")
    case True
    then show ?thesis by (rule q(4))
  next
    case False
    then have d: "d \<in> set ps" "j = k + 1" using dj by auto
    have "(i, cm_id d) \<in> anc_rel s ^^ (k + 1)" using q(3) parent [OF d(1)] by auto
    then show ?thesis using ps(2) [OF d(1)] d(2) by simp
  qed
  have hd_Q: "k \<le> snd (hd ?Q)" if "?Q \<noteq> []"
  proof -
    have "(fst (hd ?Q), snd (hd ?Q)) \<in> set ?Q" unfolding prod.collapse by (rule hd_in_set [OF that])
    then show ?thesis using elem by blast
  qed
  have queued: "\<exists>m' \<le> m. map_of D' p = Some m' \<or> (\<exists>d. cm_id d = p \<and> (d, m') \<in> set ?Q)"
    if "map_of D p = Some m \<or> (\<exists>d. cm_id d = p \<and> (d, m) \<in> set ((c, k) # Q))" for p m
    using that new by (auto simp: D)
  have "\<exists>m \<le> n + 1. map_of D' p = Some m \<or> (\<exists>d. cm_id d = p \<and> (d, m) \<in> set ?Q)"
    if v: "map_of D' v = Some n" "(v, p) \<in> anc_rel s" for v n p
  proof (cases "v = cm_id c")
    case True
    then have "p \<in> set (cm_parents c)" "n = k" using v q(1) by (auto simp: anc_rel_def D)
    then obtain d where "d \<in> set ps" "cm_id d = p" by (auto simp flip: ps(1))
    then show ?thesis using \<open>n = k\<close> by auto
  next
    case False
    then have "map_of D v = Some n" using v by (simp add: D)
    then obtain m where m: "m \<le> n + 1"
      "map_of D p = Some m \<or> (\<exists>d. cm_id d = p \<and> (d, m) \<in> set ((c, k) # Q))"
      using walk_inv_parent [OF inv _ v(2)] by blast
    obtain m' where m': "m' \<le> m" "map_of D' p = Some m' \<or> (\<exists>d. cm_id d = p \<and> (d, m') \<in> set ?Q)"
      using queued [OF m(2)] by blast
    have "m' \<le> n + 1" using m(1) m'(1) by simp
    with m'(2) show ?thesis by blast
  qed
  moreover have "(\<exists>d. cm_id d = i \<and> (d, 0) \<in> set ?Q) \<or> map_of D' i = Some 0"
    using walk_inv_start [OF inv] new by (auto simp: D)
  moreover have "map_of (rs_commits s) v \<noteq> None \<and> (i, v) \<in> anc_rel s ^^ n \<and>
      (?Q \<noteq> [] \<longrightarrow> n \<le> snd (hd ?Q))" if v: "map_of D' v = Some n" for v n
  proof -
    have "map_of (rs_commits s) v \<noteq> None \<and> (i, v) \<in> anc_rel s ^^ n \<and> n \<le> k"
    proof (cases "v = cm_id c")
      case True then show ?thesis using v q(1,3) by (simp add: D)
    next
      case False
      then have "map_of D v = Some n" using v by (simp only: D if_False)
      then show ?thesis using walk_inv_recorded [OF inv] q(5) by blast
    qed
    then show ?thesis using hd_Q by fastforce
  qed
  moreover have "sorted (map snd ?Q)"
    using q(6) q(4) by (auto simp: sorted_append comp_def map_replicate_const)
  moreover have "distinct (map fst D')"
    using q(7) new by (auto simp: D'_def map_of_eq_None_iff)
  moreover have "map_of (rs_commits s) (cm_id d) = Some d \<and> cm_repository d = r \<and>
        (i, cm_id d) \<in> anc_rel s ^^ j \<and> j \<le> snd (hd ?Q) + 1" if dj: "(d, j) \<in> set ?Q" for d j
  proof -
    have "k \<le> snd (hd ?Q)" by (rule hd_Q) (use dj in auto)
    then show ?thesis using elem [OF dj] by simp
  qed
  ultimately have "walk_inv s r i D' ?Q" unfolding walk_inv_def by blast
  then show ?thesis by (simp only: D'_def)
qed

lemma mapr_get_parents:
  assumes "repo_inv h s" "map_of (rs_commits s) (cm_id c) = Some c" "cm_repository c = r"
  obtains ps where "mapr (\<lambda>p. svc_get_commit s p (Some r)) (cm_parents c) = Inr ps"
    "map cm_id ps = cm_parents c"
    "\<And>d. d \<in> set ps \<Longrightarrow> map_of (rs_commits s) (cm_id d) = Some d \<and> cm_repository d = r"
proof -
  define ps where "ps = map (\<lambda>p. the (map_of (rs_commits s) p)) (cm_parents c)"
  have parent: "svc_get_commit s p (Some r) = Inr (the (map_of (rs_commits s) p)) \<and>
      cm_id (the (map_of (rs_commits s) p)) = p" if p: "p \<in> set (cm_parents c)" for p
  proof -
    obtain d where "map_of (rs_commits s) p = Some d" "cm_id d = p" "cm_repository d = cm_repository c"
      using parent_stored [OF assms(1,2) p] by blast
    then show ?thesis using assms(3) by (simp add: svc_get_commit_Inr)
  qed
  show thesis
  proof (rule that [of ps])
    show "mapr (\<lambda>p. svc_get_commit s p (Some r)) (cm_parents c) = Inr ps"
      using parent by (simp add: mapr_Inr_iff ps_def list_all2_conv_all_nth)
    show "map cm_id ps = cm_parents c"
      using parent by (simp add: ps_def map_idI)
    show "map_of (rs_commits s) (cm_id d) = Some d \<and> cm_repository d = r" if "d \<in> set ps" for d
    proof -
      obtain p where "p \<in> set (cm_parents c)" "d = the (map_of (rs_commits s) p)"
        using \<open>d \<in> set ps\<close> by (auto simp: ps_def)
      then show ?thesis using parent [of p] by (simp add: svc_get_commit_Inr)
    qed
  qed
qed

lemma walk_inv_bound:
  assumes "walk_inv s r i D Q"
  shows "length D \<le> length (rs_commits s)"
proof -
  have "set (map fst D) \<subseteq> set (map fst (rs_commits s))"
  proof
    fix v assume "v \<in> set (map fst D)"
    then obtain n where "map_of D v = Some n" by (metis map_of_eq_None_iff not_None_eq set_map)
    then have "map_of (rs_commits s) v \<noteq> None" using assms unfolding walk_inv_def by blast
    then show "v \<in> set (map fst (rs_commits s))" by (simp add: map_of_eq_None_iff)
  qed
  then have "card (set (map fst D)) \<le> card (set (map fst (rs_commits s)))"
    by (intro card_mono) auto
  moreover have "card (set (map fst D)) = length D"
    using assms by (metis distinct_card length_map walk_inv_def)
  moreover have "card (set (map fst (rs_commits s))) \<le> length (rs_commits s)"
    by (metis card_length length_map)
  ultimately show ?thesis by linarith
qed

lemma ancestors_loop_done:
  assumes "repo_inv h s" "walk_inv s r i D Q"
    and "length Q + 2 * (length (rs_commits s) - length D) < fuel"
  shows "\<exists>D'. ancestors_loop fuel s r D Q = Some (Inr D') \<and> walk_inv s r i D' []"
  using assms(2,3)
proof (induction fuel arbitrary: D Q)
  case (Suc fuel)
  show ?case
  proof (cases Q)
    case Nil
    then show ?thesis using Suc.prems by simp
  next
    case (Cons a Q')
    then obtain c k where Q: "Q = (c, k) # Q'" by (cases a) auto
    note q = walk_inv_Cons [OF Suc.prems(1) [unfolded Q]]
    show ?thesis
    proof (cases "map_of D (cm_id c)")
      case (Some k')
      then show ?thesis
        using Suc.IH [OF walk_skip [OF Suc.prems(1) [unfolded Q] Some]] Suc.prems(2) q(5) [OF Some]
        by (simp add: Q)
    next
      case None
      obtain ps where ps: "mapr (\<lambda>p. svc_get_commit s p (Some r)) (cm_parents c) = Inr ps"
        "map cm_id ps = cm_parents c"
        "\<And>d. d \<in> set ps \<Longrightarrow> map_of (rs_commits s) (cm_id d) = Some d \<and> cm_repository d = r"
        using mapr_get_parents [OF assms(1) q(1,2)] by blast
      note inv' = walk_expand [OF Suc.prems(1) [unfolded Q] None ps(2,3)]
      have "length (cm_parents c) \<le> 2"
        using repo_inv_commit [OF assms(1) q(1)] by (simp add: commit_placed_def commit_valid_def)
      then have "length ps \<le> 2" using ps(2) by (metis length_map)
      moreover have "length (D @ [(cm_id c, k)]) \<le> length (rs_commits s)"
        by (rule walk_inv_bound [OF inv'])
      ultimately have "length (Q' @ map (\<lambda>d. (d, k + 1)) ps) +
          2 * (length (rs_commits s) - length (D @ [(cm_id c, k)])) < fuel"
        using Suc.prems(2) by (simp add: Q)
      note IH = Suc.IH [OF inv' this]
      have "AList.update (cm_id c) k D = D @ [(cm_id c, k)]"
        using None by (intro update_append) (simp add: map_of_eq_None_iff)
      then show ?thesis using IH None ps(1) by (simp add: Q)
    qed
  qed
qed simp

lemma ancestors_shortest:
  assumes "repo_inv h s" "map_of (rs_commits s) (cm_id c) = Some c"
  shows "\<exists>D. ancestors s c = Some (Inr D) \<and> (\<forall>v n. map_of D v = Some n \<longleftrightarrow> shortest s (cm_id c) v n)"
proof -
  have "walk_inv s (cm_repository c) (cm_id c) [] [(c, 0)]"
    using assms(2) by (simp add: walk_inv_def)
  from ancestors_loop_done [OF assms(1) this, of "ancestors_fuel s"] show ?thesis
    using walk_inv_shortest by (fastforce simp: ancestors_def ancestors_fuel_def)
qed

lemma ancestor_stored:
  assumes "repo_inv h s" "(i, v) \<in> anc_rel s ^^ n" "map_of (rs_commits s) i = Some c"
  shows "\<exists>d. map_of (rs_commits s) v = Some d \<and> cm_repository d = cm_repository c \<and> cm_id d = v"
  using assms(2)
proof (induction n arbitrary: v)
  case 0
  then show ?case using assms(3) repo_inv_commit [OF assms(1,3)] by auto
next
  case (Suc n)
  then obtain u where u: "(i, u) \<in> anc_rel s ^^ n" "(u, v) \<in> anc_rel s" by auto
  then obtain e where e: "map_of (rs_commits s) u = Some e" "cm_repository e = cm_repository c"
    using Suc.IH by blast
  then have "v \<in> set (cm_parents e)" using u(2) by (auto simp: anc_rel_def)
  then show ?case using parent_stored [OF assms(1) e(1)] e(2) by metis
qed

section \<open>The merge base\<close>

lemma min_on_in: "min_on key x xs \<in> set (x # xs)"
  by (induction xs arbitrary: x) auto

lemma min_on_le: "y \<in> set (x # xs) \<Longrightarrow> key (min_on key x xs) \<le> key y"
proof (induction xs arbitrary: x y)
  case (Cons z zs)
  let ?m = "if key z < key x then z else x"
  have "key (min_on key ?m zs) \<le> key ?m" by (rule Cons.IH) simp
  moreover have "key ?m \<le> key x" "key ?m \<le> key z" by auto
  moreover have "y \<in> set zs \<Longrightarrow> key (min_on key ?m zs) \<le> key y" by (rule Cons.IH) simp
  ultimately show ?case using Cons.prems by auto
qed simp

lemma merge_base_nearest:
  assumes "repo_inv h s" "map_of (rs_commits s) (cm_id o1) = Some o1"
    "map_of (rs_commits s) (cm_id t) = Some t"
    and common: "shortest s (cm_id o1) v n" "shortest s (cm_id t) v m"
  shows "\<exists>b nb mb. merge_base s o1 t = Some (Inr b) \<and>
    shortest s (cm_id o1) (cm_id b) nb \<and> shortest s (cm_id t) (cm_id b) mb \<and>
    (max nb mb, nb + mb, cm_id b) \<le> (max n m, n + m, v)"
proof -
  obtain oa where oa: "ancestors s o1 = Some (Inr oa)"
    "\<And>v n. map_of oa v = Some n \<longleftrightarrow> shortest s (cm_id o1) v n"
    using ancestors_shortest [OF assms(1,2)] by blast
  obtain ta where ta: "ancestors s t = Some (Inr ta)"
    "\<And>v n. map_of ta v = Some n \<longleftrightarrow> shortest s (cm_id t) v n"
    using ancestors_shortest [OF assms(1,3)] by blast
  let ?common = "filter (\<lambda>i. map_of ta i \<noteq> None) (map fst oa)"
  have v: "v \<in> set ?common"
  proof -
    have "map_of oa v = Some n" "map_of ta v = Some m" using oa(2) ta(2) common by blast+
    then show ?thesis using map_of_SomeD [of oa v n] by force
  qed
  then have "?common \<noteq> []" by (intro notI) (simp only: list.set(1) empty_iff)
  then obtain x xs where xs: "?common = x # xs" by (meson neq_Nil_conv)
  let ?b = "min_on (base_key oa ta) x xs"
  have b: "?b \<in> set ?common" using min_on_in [of "base_key oa ta" x xs] by (simp only: xs)
  then obtain mb where mb: "map_of ta ?b = Some mb" by auto
  have "?b \<in> fst ` set oa" using b by auto
  then obtain nb where nb: "map_of oa ?b = Some nb"
    by (cases "map_of oa ?b") (auto simp: map_of_eq_None_iff)
  have le: "base_key oa ta ?b \<le> base_key oa ta v"
    using min_on_le [of v x xs "base_key oa ta"] v by (simp only: xs)
  have sn: "shortest s (cm_id o1) ?b nb" "shortest s (cm_id t) ?b mb"
    using oa(2) ta(2) nb mb by blast+
  then obtain d where d: "map_of (rs_commits s) ?b = Some d" "cm_repository d = cm_repository o1"
    "cm_id d = ?b"
    using ancestor_stored [OF assms(1) _ assms(2)] unfolding shortest_def by blast
  have "merge_base s o1 t = Some (Inr d)"
    unfolding merge_base_def oa(1) ta(1)
    by (simp only: option.case sum.case prod.case xs list.case) (simp add: svc_get_commit_Inr d)
  moreover have "map_of oa v = Some n" "map_of ta v = Some m" using oa(2) ta(2) common by blast+
  then have "(max nb mb, nb + mb, ?b) \<le> (max n m, n + m, v)"
    using le by (simp add: base_key_def Let_def nb mb)
  ultimately show ?thesis using sn d(3) by auto
qed

end
