(* ===== verification/RevisionProperties.thy ===== *)
theory RevisionProperties
  imports RevisionService
begin

text \<open>
  The properties of the revision kernel over every history of service calls, with a concrete
  history as their witness.
\<close>

section \<open>A concrete history\<close>

definition ex_repository :: repository_ref where
  "ex_repository = \<lparr>r_tenant = ''t'', r_id = ''r'', r_domain = ''craft'', r_resource = ''x''\<rparr>"

definition ex_branch :: branch_ref where
  "ex_branch = \<lparr>br_repository = ex_repository, br_name = ''main''\<rparr>"

definition ex_service :: "approvals service" where
  "ex_service = \<lparr>sv_host = host_ascii, sv_adapter = json_document_adapter host_ascii,
     sv_consume = approval_consume host_ascii, sv_max_snapshot_bytes = 4096, sv_max_changes = 100\<rparr>"

definition ex_doc :: "string \<Rightarrow> json" where
  "ex_doc v = JObj [(''a'', JStr v)]"

definition outcome_repo :: "repo_state \<Rightarrow> rev_error + commit_outcome \<times> repo_state \<Rightarrow> repo_state" where
  "outcome_repo s r = (case r of Inl _ \<Rightarrow> s | Inr (_, s') \<Rightarrow> s')"

definition outcome_id :: "rev_error + commit_outcome \<times> repo_state \<Rightarrow> string" where
  "outcome_id r = (case r of Inl _ \<Rightarrow> [] | Inr (out, _) \<Rightarrow> cm_id (co_commit out))"

definition ex_init :: "rev_error + commit_outcome \<times> repo_state" where
  "ex_init = svc_initialize ex_service empty_repo (Aware 0) ex_repository ''main'' (ex_doc ''1'') ''u'' ''m''"

definition ex_commit :: "rev_error + commit_outcome \<times> repo_state" where
  "ex_commit = svc_commit ex_service (outcome_repo empty_repo ex_init) (Aware 1) ex_branch
     (ex_doc ''2'') (outcome_id ex_init) ''u'' ''n'' None"

lemma ex_init_ok: "\<not> isl ex_init"
  by code_simp

lemma ex_commit_ok: "\<not> isl ex_commit"
  by code_simp

definition ex_repo1 :: repo_state where
  "ex_repo1 = outcome_repo empty_repo ex_init"

definition ex_repo2 :: repo_state where
  "ex_repo2 = outcome_repo ex_repo1 ex_commit"

definition ex_world :: "repo_state \<Rightarrow> approvals world" where
  "ex_world s = \<lparr>w_repo = s, w_approvals = Map.empty\<rparr>"

lemma ex_reachable0: "svc_reachable ex_service (ex_world empty_repo)"
  by (rule svc_reachable.start) (simp add: ex_world_def)

lemma run_ok: "\<not> isl r \<Longrightarrow> \<exists>out. r = Inr (out, outcome_repo s r)"
  by (cases r) (auto simp: outcome_repo_def)

lemma ex_run1: "\<exists>out. ex_init = Inr (out, ex_repo1)"
  unfolding ex_repo1_def by (rule run_ok [OF ex_init_ok])

lemma ex_run2: "\<exists>out. ex_commit = Inr (out, ex_repo2)"
  unfolding ex_repo2_def by (rule run_ok [OF ex_commit_ok])

lemma ex_step1: "svc_step ex_service (ex_world empty_repo) (ex_world ex_repo1)"
proof -
  obtain out where "ex_init = Inr (out, ex_repo1)" using ex_run1 by blast
  moreover have "no_collision empty_repo (co_commit out)"
    by (simp add: no_collision_def empty_repo_def)
  ultimately have "svc_step ex_service (ex_world empty_repo)
      ((ex_world empty_repo)\<lparr>w_repo := ex_repo1\<rparr>)"
    by (intro svc_step.initialize) (simp_all add: ex_world_def ex_init_def)
  then show ?thesis by (simp add: ex_world_def)
qed

lemma ex_step2: "svc_step ex_service (ex_world ex_repo1) (ex_world ex_repo2)"
proof -
  obtain out where "ex_commit = Inr (out, ex_repo2)" using ex_run2 by blast
  then have "svc_step ex_service (ex_world ex_repo1) ((ex_world ex_repo1)\<lparr>w_repo := ex_repo2\<rparr>)"
    by (intro svc_step.commit) (simp add: ex_world_def ex_commit_def ex_repo1_def)
  then show ?thesis by (simp add: ex_world_def)
qed

lemma ex_reachable1: "svc_reachable ex_service (ex_world ex_repo1)"
  by (rule svc_reachable.step [OF ex_reachable0 ex_step1])

lemma ex_reachable2: "svc_reachable ex_service (ex_world ex_repo2)"
  by (rule svc_reachable.step [OF ex_reachable1 ex_step2])

section \<open>Properties\<close>

text \<open>
  C6. In every reachable state of the service: each commit is stored under its own identifier,
  valid and content-addressed, after its parents, which belong to the same registered repository;
  its snapshot is stored; each branch points at a commit of its repository; each change set, diff
  and lineage edge refers to stored commits; and the lineage graph has no cycle. A step is a whole call of
  the service, and creating a repository is a step only when its root commit and snapshot do not collide
  under SHA-256 with other stored ones.
\<close>
theorem revision_store_invariant:
  assumes "svc_reachable sv w"
  shows "repo_inv (sv_host sv) (w_repo w) \<and> acyclic (lineage_rel (w_repo w))"
  using svc_reachable_store_inv [OF assms] by (simp add: store_inv_def)

theorem revision_store_invariant_witness:
  "repo_inv host_ascii ex_repo2 \<and> acyclic (lineage_rel ex_repo2)"
  using revision_store_invariant [OF ex_reachable2] by (simp add: ex_service_def ex_world_def)

text \<open>
  C7. Stored history never changes: whatever the service does next, a stored commit stays stored
  under its identifier with the same parents, content, author, message and time.
\<close>
theorem revision_history_immutable:
  assumes "svc_reachable sv w" "svc_step sv w w'" "repo_get_commit (w_repo w) i = Some c"
  shows "\<exists>c'. repo_get_commit (w_repo w') i = Some c' \<and> commit_eq c c'"
  using svc_step_inv [OF assms(2) svc_reachable_store_inv [OF assms(1)]] assms(3)
  unfolding extends_def repo_get_commit_def by blast

theorem revision_history_immutable_witness:
  "\<exists>c c'. repo_get_commit ex_repo1 (outcome_id ex_init) = Some c \<and>
     repo_get_commit ex_repo2 (outcome_id ex_init) = Some c' \<and> commit_eq c c'"
proof -
  have "repo_get_commit ex_repo1 (outcome_id ex_init) \<noteq> None" by code_simp
  then obtain c where c: "repo_get_commit ex_repo1 (outcome_id ex_init) = Some c" by auto
  then show ?thesis
    using revision_history_immutable [OF ex_reachable1 ex_step2, of "outcome_id ex_init" c]
    by (auto simp: ex_world_def)
qed

text \<open>
  C8. No lost update: after a commit on a branch, a second writer that still expects the old head
  is refused, whatever it wants to commit.
\<close>
theorem revision_no_lost_update:
  assumes "svc_reachable sv w"
    and "svc_commit sv (w_repo w) now b doc expected author msg additional = Inr (out, s')"
  shows "\<exists>e. svc_commit sv s' now' b doc' expected author' msg' additional' = Inl e"
proof (rule ccontr)
  assume "\<nexists>e. svc_commit sv s' now' b doc' expected author' msg' additional' = Inl e"
  then obtain out' s'' where second:
    "svc_commit sv s' now' b doc' expected author' msg' additional' = Inr (out', s'')"
    by (metis sum.exhaust surj_pair)
  obtain c br where first: "repo_append_commit (w_repo w) b c (Some expected) = Inr (br, s')"
    and parents: "expected \<in> set (cm_parents c)"
    using assms(2) unfolding svc_commit_def by (rule write_commit_Inr) auto
  obtain d br' where snd: "repo_append_commit s' b d (Some expected) = Inr (br', s'')"
    using second unfolding svc_commit_def by (rule write_commit_Inr)
  have inv: "repo_inv (sv_host sv) s'"
    using svc_step_inv [OF svc_step.commit [OF assms(2)] svc_reachable_store_inv [OF assms(1)]]
    by (simp add: store_inv_def)
  have stored: "map_of (rs_commits s') (cm_id c) = Some c"
    using memory_store.append_reads [OF first] by (simp add: repo_get_commit_def)
  have "cm_id c \<noteq> expected"
    using parent_stored [OF inv stored parents] by blast
  then show False using memory_store.no_lost_update [OF first] snd by blast
qed

theorem revision_no_lost_update_witness:
  "\<exists>e. svc_commit ex_service ex_repo2 (Aware 2) ex_branch (ex_doc ''3'') (outcome_id ex_init)
     ''v'' ''late'' None = Inl e"
proof -
  obtain out where "ex_commit = Inr (out, ex_repo2)" using ex_run2 by blast
  then show ?thesis
    using revision_no_lost_update [OF ex_reachable1, of "Aware 1" ex_branch "ex_doc ''2''"
        "outcome_id ex_init" "''u''" "''n''" None out ex_repo2 "Aware 2" "ex_doc ''3''" "''v''" "''late''" None]
    by (simp add: ex_world_def ex_commit_def ex_repo1_def)
qed

text \<open>
  C11. History: for a branch of a reachable store and a limit in range, \<open>history\<close> returns, without
  an error, the chain of first parents from the head: no commit twice, at most \<open>limit\<close> long, and
  shorter only when it has reached the root commit.
\<close>
theorem revision_history_first_parents:
  assumes "svc_reachable sv w" "repo_get_branch (w_repo w) b = Some br"
    and "br_repository (b_ref br) = br_repository b" "1 \<le> limit" "limit \<le> 10000"
  shows "\<exists>ids. svc_history (w_repo w) b limit = Inr ids \<and> ids \<noteq> [] \<and> hd ids = b_head br \<and>
    first_parent_chain (w_repo w) ids \<and> distinct ids \<and> int (length ids) \<le> limit \<and>
    (int (length ids) < limit \<longrightarrow> is_root (w_repo w) (last ids))"
proof -
  let ?s = "w_repo w"
  have inv: "repo_inv (sv_host sv) ?s"
    using svc_reachable_store_inv [OF assms(1)] by (simp add: store_inv_def)
  then have "commit_in ?s (br_repository b) (b_head br)"
    using assms(2,3) unfolding repo_inv_def branches_inv_def repo_get_branch_def by metis
  then obtain c where c: "map_of (rs_commits ?s) (b_head br) = Some c" "cm_repository c = br_repository b"
    by (auto simp: commit_in_def split: option.splits)
  have id: "cm_id c = b_head br" using repo_inv_commit [OF inv c(1)] by simp
  have head: "svc_head ?s b = Inr c"
    using assms(2) c by (simp add: svc_head_def svc_get_commit_Inr)
  have "0 < nat limit" using assms(4) by simp
  from history_loop_chain [OF inv _ this, of c] obtain ids where
    "history_loop (nat limit) ?s (br_repository b) c = Inr ids" "ids \<noteq> []" "hd ids = b_head br"
    "first_parent_chain ?s ids" "distinct ids" "length ids \<le> nat limit"
    "length ids < nat limit \<longrightarrow> is_root ?s (last ids)"
    using c id by auto
  then show ?thesis using head assms(4,5) by (auto simp: svc_history_def)
qed

theorem revision_history_first_parents_witness:
  "\<exists>ids. svc_history ex_repo2 ex_branch 5 = Inr ids \<and> distinct ids \<and> is_root ex_repo2 (last ids)"
proof -
  have "(case repo_get_branch ex_repo2 ex_branch of None \<Rightarrow> False
      | Some br \<Rightarrow> br_repository (b_ref br) = br_repository ex_branch)" by code_simp
  then obtain br where br: "repo_get_branch (w_repo (ex_world ex_repo2)) ex_branch = Some br"
    "br_repository (b_ref br) = br_repository ex_branch"
    by (auto simp: ex_world_def split: option.splits)
  have "(case svc_history ex_repo2 ex_branch 5 of Inl e \<Rightarrow> False | Inr ids \<Rightarrow> length ids = 2)" by code_simp
  then show ?thesis
    using revision_history_first_parents [OF ex_reachable2 br, of 5] by (auto simp: ex_world_def)
qed

text \<open>
  C10. The merge base: two stored commits with a common ancestor have a merge base, it is a common
  ancestor of both, and no common ancestor is nearer, where nearness is the larger distance, then
  the sum of the distances, then the identifier; distances are lengths of shortest parent paths.
  The bounded walk behind it always finishes.
\<close>
theorem revision_merge_base_nearest:
  assumes "svc_reachable sv w" "repo_get_commit (w_repo w) (cm_id ours) = Some ours"
    "repo_get_commit (w_repo w) (cm_id theirs) = Some theirs"
    and "shortest (w_repo w) (cm_id ours) v n" "shortest (w_repo w) (cm_id theirs) v m"
  shows "\<exists>b nb mb. merge_base (w_repo w) ours theirs = Some (Inr b) \<and>
    shortest (w_repo w) (cm_id ours) (cm_id b) nb \<and> shortest (w_repo w) (cm_id theirs) (cm_id b) mb \<and>
    (max nb mb, nb + mb, cm_id b) \<le> (max n m, n + m, v)"
  using merge_base_nearest [OF _ _ _ assms(4,5)] assms(1-3) svc_reachable_store_inv
  unfolding store_inv_def repo_get_commit_def by blast

theorem revision_merge_base_nearest_witness:
  "\<exists>c b. repo_get_commit ex_repo2 (outcome_id ex_commit) = Some c \<and> merge_base ex_repo2 c c = Some (Inr b)"
proof -
  have "map_option cm_id (repo_get_commit ex_repo2 (outcome_id ex_commit)) = Some (outcome_id ex_commit)"
    by code_simp
  then obtain c where c: "repo_get_commit ex_repo2 (outcome_id ex_commit) = Some c"
    "cm_id c = outcome_id ex_commit" by auto
  have near: "shortest ex_repo2 (cm_id c) (cm_id c) 0" by (simp add: shortest_def)
  have "repo_get_commit ex_repo2 (cm_id c) = Some c" using c by simp
  then show ?thesis
    using revision_merge_base_nearest [OF ex_reachable2, of c c "cm_id c" 0 0] near c(1)
    by (auto simp: ex_world_def)
qed

section \<open>Protected branches\<close>

lemma branches_after_append:
  assumes "repo_append_commit s b c (Some e) = Inr (br, s')"
  shows "rs_branches s' = (rs_branches s)(branch_key b \<mapsto> br) \<and> b_head br = cm_id c \<and>
    (\<forall>cur. rs_branches s (branch_key b) = Some cur \<longrightarrow>
       b_protected br = b_protected cur \<and> b_policy br = b_policy cur)"
  using assms by (rule repo_append_commit_Inr) auto

text \<open>A plain commit writes to an unprotected branch, so it leaves every protected one alone.\<close>

definition keeps_protected :: "repo_state \<Rightarrow> repo_state \<Rightarrow> bool" where
  "keeps_protected s s' \<longleftrightarrow> (\<forall>k b. rs_branches s k = Some b \<longrightarrow> b_protected b \<longrightarrow>
     (\<exists>b'. rs_branches s' k = Some b' \<and> b_protected b' \<and> b_head b' = b_head b))"

lemma keeps_protected_same: "rs_branches s' = rs_branches s \<Longrightarrow> keeps_protected s s'"
  by (simp add: keeps_protected_def)

lemma svc_commit_keeps_protected:
  assumes "svc_commit sv s now b doc expected author msg additional = Inr (out, s')"
  shows "keeps_protected s s'"
  using assms unfolding svc_commit_def
proof (rule write_commit_Inr)
  fix rec c br
  assume rec: "repo_get_branch s b = Some rec" "\<not> b_protected rec \<or> False"
    and app: "repo_append_commit s b c (Some expected) = Inr (br, s')"
  show ?thesis
    using branches_after_append [OF app] rec by (auto simp: keeps_protected_def repo_get_branch_def)
qed

lemma branches_unchanged:
  "repo_save_changeset s cs = Inr (cs', s') \<Longrightarrow> rs_branches s' = rs_branches s"
  "repo_save_diff s d = Inr (d', s') \<Longrightarrow> rs_branches s' = rs_branches s"
  "repo_save_lineage s e = Inr (e', s') \<Longrightarrow> rs_branches s' = rs_branches s"
  by (auto simp: repo_save_changeset_def repo_save_diff_def repo_save_lineage_def Let_def
      split: if_splits option.splits)

lemma new_branch_keeps_protected:
  "repo_create_branch s b = Inr s' \<Longrightarrow> keeps_protected s s'"
  "repo_initialize s r br c = Inr (out, s') \<Longrightarrow> keeps_protected s s'"
  by (auto simp: repo_create_branch_def repo_initialize_def keeps_protected_def Let_def
      split: if_splits option.splits)

lemma protect_keeps_protected:
  assumes "repo_protect_branch s b pol = Inr (br, s')"
  shows "keeps_protected s s'"
proof -
  obtain cur where cur: "rs_branches s (branch_key b) = Some cur"
    using assms by (cases "rs_branches s (branch_key b)") (auto simp: repo_protect_branch_def)
  with assms have "rs_branches s' = (rs_branches s)(branch_key b \<mapsto> br)" "b_protected br" "b_head br = b_head cur"
    unfolding repo_protect_branch_def Let_def by (simp_all only: option.case split: if_splits) auto
  with cur show ?thesis by (auto simp: keeps_protected_def)
qed

lemma svc_plain_keeps_protected:
  "svc_initialize sv s now r name doc author msg = Inr (out, s') \<Longrightarrow> keeps_protected s s'"
  "svc_create_branch s r name i = Inr (b, s') \<Longrightarrow> keeps_protected s s'"
  "svc_restore sv s now br source expected author msg = Inr (out, s') \<Longrightarrow> keeps_protected s s'"
  "svc_protect_branch s br pol = Inr s' \<Longrightarrow> keeps_protected s s'"
  "svc_diff sv s r i j = Inr (d, s') \<Longrightarrow> keeps_protected s s'"
  "svc_create_changeset sv s now r i doc author = Inr (c, s') \<Longrightarrow> keeps_protected s s'"
  "svc_apply_changeset sv s now br cs expected author msg = Inr (out, s') \<Longrightarrow> keeps_protected s s'"
  "svc_link_lineage sv s now up down rel author = Inr (e, s') \<Longrightarrow> keeps_protected s s'"
  by (auto simp: svc_initialize_def svc_create_branch_def svc_restore_def svc_protect_branch_def
      svc_diff_def svc_create_changeset_def svc_apply_changeset_def svc_link_lineage_def
      bindr_eq_Inr Let_def split: if_splits
      intro: svc_commit_keeps_protected new_branch_keeps_protected protect_keeps_protected
        keeps_protected_same dest: branches_unchanged)

text \<open>What a merge into a protected branch needed.\<close>

text \<open>
  The verifier, asked at its state \<open>st\<close> with a reference, accepted the challenge for moving this
  branch from one head to the merge with another under the branch's policy, and was left in \<open>st'\<close>.
\<close>

definition approved_by ::
  "'v service \<Rightarrow> 'v \<Rightarrow> 'v \<Rightarrow> string \<Rightarrow> branch_ref \<Rightarrow> string option \<Rightarrow> string \<Rightarrow> string \<Rightarrow> bool" where
  "approved_by sv st st' reference target policy thead shead \<longleftrightarrow>
     (\<exists>c. sv_consume sv st reference c = (True, st') \<and> bc_repository c = br_repository target \<and>
        bc_branch c = br_name target \<and> bc_target_head c = thead \<and> bc_source_head c = shead \<and>
        bc_policy c = (case policy of None \<Rightarrow> ''maintainer'' | Some p \<Rightarrow> if p = [] then ''maintainer'' else p))"

lemma merge_write_branches:
  assumes "merge_write sv w now target shead merged expected author msg = (r, w')"
  shows "rs_branches (w_repo w') = rs_branches (w_repo w) \<or>
    (\<exists>br c. rs_branches (w_repo w') = (rs_branches (w_repo w))(branch_key target \<mapsto> br) \<and>
       b_head br = cm_id c \<and> cm_parents c = [expected, cm_id shead] \<and> r = Inr (merged_result c) \<and>
       w_approvals w' = w_approvals w \<and>
       (\<forall>cur. rs_branches (w_repo w) (branch_key target) = Some cur \<longrightarrow>
          b_protected br = b_protected cur))"
proof (cases "write_commit sv (w_repo w) now target merged expected author msg (Some (cm_id shead)) True")
  case (Inl e)
  then show ?thesis using assms by (auto simp: merge_write_def)
next
  case (Inr a)
  obtain out s' where a: "a = (out, s')" by fastforce
  from Inr [unfolded a] obtain c br where
    app: "repo_append_commit (w_repo w) target c (Some expected) = Inr (br, s')"
    and c: "out = \<lparr>co_branch = target, co_commit = c\<rparr>" "cm_parents c = [expected, cm_id shead]"
    by (rule write_commit_Inr) auto
  have "w_repo w' = s'" "r = Inr (merged_result c)" "w_approvals w' = w_approvals w"
    using assms Inr a c by (auto simp: merge_write_def)
  then show ?thesis using branches_after_append [OF app] c(2) by auto
qed

lemma svc_merge_Some:
  assumes "svc_merge sv w now source target expected author msg approval = Some (r, w')"
  shows "w' = w \<and> (\<forall>res. r = Inr res \<longrightarrow> mr_status res \<noteq> Merged) \<or> (\<exists>shead thead rec merged.
    svc_head (w_repo w) source = Inr shead \<and> svc_head (w_repo w) target = Inr thead \<and>
    cm_id thead = expected \<and> repo_get_branch (w_repo w) target = Some rec \<and>
    merge_approved sv w now target rec thead shead merged expected author msg approval = (r, w'))"
  using assms unfolding svc_merge_def
  by (auto split: if_splits sum.splits option.splits prod.splits simp: bindr_eq_Inr)

lemma merge_approved_cases:
  assumes "merge_approved sv w now target rec thead shead merged expected author msg approval = (r, w')"
  shows "w_repo w' = w_repo w \<and> (\<forall>res. r = Inr res \<longrightarrow> mr_status res \<noteq> Merged) \<or> (\<exists>w0. w_repo w0 = w_repo w \<and>
    (b_protected rec \<longrightarrow> (\<exists>reference. approval = Some reference \<and> approved_by sv (w_approvals w) (w_approvals w0)
       reference target (b_policy rec) (cm_id thead) (cm_id shead))) \<and>
    merge_write sv w0 now target shead merged expected author msg = (r, w'))"
proof (cases "b_protected rec")
  case False
  then show ?thesis using assms by (auto simp: merge_approved_def)
next
  case True
  show ?thesis
  proof (cases "merge_challenge sv target thead shead (b_policy rec)")
    case (Inl e)
    then show ?thesis using assms True by (auto simp: merge_approved_def)
  next
    case (Inr c)
    then have c: "bc_repository c = br_repository target" "bc_branch c = br_name target"
      "bc_target_head c = cm_id thead" "bc_source_head c = cm_id shead"
      "bc_policy c = (case b_policy rec of None \<Rightarrow> ''maintainer'' | Some p \<Rightarrow> if p = [] then ''maintainer'' else p)"
      by (auto simp: merge_challenge_def bindr_eq_Inr Let_def)
    show ?thesis
    proof (cases approval)
      case None
      then show ?thesis using assms True Inr by (auto simp: merge_approved_def)
    next
      case (Some reference)
      obtain ok st where consume: "sv_consume sv (w_approvals w) reference c = (ok, st)" by fastforce
      show ?thesis
      proof (cases ok)
        case False
        then show ?thesis using assms True Inr Some consume by (auto simp: merge_approved_def)
      next
        case True
        then have "approved_by sv (w_approvals w) st reference target (b_policy rec) (cm_id thead) (cm_id shead)"
          using c consume by (auto simp: approved_by_def)
        then show ?thesis
          using assms \<open>b_protected rec\<close> Inr Some consume True
          by (intro disjI2 exI [of _ "w\<lparr>w_approvals := st\<rparr>"]) (simp add: merge_approved_def)
      qed
    qed
  qed
qed

text \<open>How a merge moved the head of a protected branch.\<close>

definition merged_with_approval ::
  "'v service \<Rightarrow> 'v world \<Rightarrow> 'v world \<Rightarrow> branch_ref \<Rightarrow> branch_ref \<Rightarrow> string option \<Rightarrow> branch \<Rightarrow> commit \<Rightarrow> bool" where
  "merged_with_approval sv w w' source target approval b c \<longleftrightarrow>
     (\<exists>shead reference. svc_head (w_repo w) source = Inr shead \<and> cm_parents c = [b_head b, cm_id shead] \<and>
        approval = Some reference \<and>
        approved_by sv (w_approvals w) (w_approvals w') reference target (b_policy b) (b_head b) (cm_id shead))"

lemma svc_merge_keeps_protected:
  assumes "svc_merge sv w now source target expected author msg approval = Some (r, w')"
    and "repo_inv h (w_repo w)" "rs_branches (w_repo w) k = Some b" "b_protected b"
  shows "\<exists>b'. rs_branches (w_repo w') k = Some b' \<and> b_protected b' \<and>
    (b_head b' = b_head b \<or> (\<exists>c. branch_key target = k \<and> r = Inr (merged_result c) \<and>
       b_head b' = cm_id c \<and> merged_with_approval sv w w' source target approval b c))"
proof (cases "rs_branches (w_repo w') = rs_branches (w_repo w)")
  case True
  then show ?thesis using assms(3,4) by simp
next
  case False
  then obtain shead thead rec merged where
    head: "svc_head (w_repo w) source = Inr shead" "svc_head (w_repo w) target = Inr thead" "cm_id thead = expected"
    and rec: "repo_get_branch (w_repo w) target = Some rec"
    and run: "merge_approved sv w now target rec thead shead merged expected author msg approval = (r, w')"
    using svc_merge_Some [OF assms(1)] by auto
  obtain w0 where w0: "w_repo w0 = w_repo w"
    "b_protected rec \<longrightarrow> (\<exists>reference. approval = Some reference \<and> approved_by sv (w_approvals w) (w_approvals w0)
       reference target (b_policy rec) (cm_id thead) (cm_id shead))"
    "merge_write sv w0 now target shead merged expected author msg = (r, w')"
    using merge_approved_cases [OF run] False by auto
  obtain br c where bw: "rs_branches (w_repo w') = (rs_branches (w_repo w))(branch_key target \<mapsto> br)"
    "b_head br = cm_id c" "cm_parents c = [expected, cm_id shead]" "r = Inr (merged_result c)"
    "w_approvals w' = w_approvals w0"
    "\<forall>cur. rs_branches (w_repo w) (branch_key target) = Some cur \<longrightarrow> b_protected br = b_protected cur"
    using merge_write_branches [OF w0(3)] False by (auto simp: w0(1))
  show ?thesis
  proof (cases "k = branch_key target")
    case True
    then have b: "rec = b" using rec assms(3) by (simp add: repo_get_branch_def)
    have "map_of (rs_commits (w_repo w)) (b_head b) = Some thead"
      using head(2) rec b by (simp add: svc_head_def svc_get_commit_Inr)
    then have "cm_id thead = b_head b" using repo_inv_commit [OF assms(2)] by blast
    then have "merged_with_approval sv w w' source target approval b c"
      using w0(2) bw(3,5) head b assms(4) by (auto simp: merged_with_approval_def)
    then show ?thesis using True bw(1,2,4,6) assms(3,4) by auto
  next
    case False
    then show ?thesis using bw(1) assms(3,4) by simp
  qed
qed

text \<open>
  C9. A protected branch stays protected, and its head moves only through a merge: no other call
  of the service changes it. The merge that moved it was called with an approval reference, the verifier
  accepted that reference for the challenge naming this branch, its policy, its head at that moment and
  the head of the source branch, the state the verifier was left in is the one the system
  goes on with, and the new head is the commit whose parents are exactly those two heads.
\<close>
theorem revision_protected_branch:
  assumes "svc_reachable sv w" "svc_step sv w w'"
    and "rs_branches (w_repo w) k = Some b" "b_protected b"
  shows "\<exists>b'. rs_branches (w_repo w') k = Some b' \<and> b_protected b' \<and>
    (b_head b' = b_head b \<or>
     (\<exists>now source target expected author msg reference c shead.
        svc_merge sv w now source target expected author msg (Some reference) = Some (Inr (merged_result c), w') \<and>
        branch_key target = k \<and> svc_head (w_repo w) source = Inr shead \<and>
        b_head b' = cm_id c \<and> cm_parents c = [b_head b, cm_id shead] \<and>
        approved_by sv (w_approvals w) (w_approvals w') reference target (b_policy b) (b_head b) (cm_id shead)))"
proof -
  have inv: "repo_inv (sv_host sv) (w_repo w)"
    using svc_reachable_store_inv [OF assms(1)] by (simp add: store_inv_def)
  have "keeps_protected (w_repo w) (w_repo w') \<or>
      (\<exists>now source target expected author msg approval r.
         svc_merge sv w now source target expected author msg approval = Some (r, w'))"
    using assms(2)
    by cases (auto intro: svc_plain_keeps_protected svc_commit_keeps_protected keeps_protected_same)
  then show ?thesis
  proof
    assume "keeps_protected (w_repo w) (w_repo w')"
    then show ?thesis using assms(3,4) unfolding keeps_protected_def by blast
  next
    assume "\<exists>now source target expected author msg approval r.
         svc_merge sv w now source target expected author msg approval = Some (r, w')"
    then obtain now source target expected author msg approval r where
      merge: "svc_merge sv w now source target expected author msg approval = Some (r, w')" by blast
    from svc_merge_keeps_protected [OF merge inv assms(3,4)] merge show ?thesis
      unfolding merged_with_approval_def by blast
  qed
qed

definition ex_protected :: repo_state where
  "ex_protected = (case svc_protect_branch ex_repo1 ex_branch ''maintainer'' of
     Inl _ \<Rightarrow> ex_repo1 | Inr s \<Rightarrow> s)"

definition ex_dev :: repo_state where
  "ex_dev = (case svc_create_branch ex_protected ex_repository ''dev'' (outcome_id ex_init) of
     Inl _ \<Rightarrow> ex_protected | Inr (_, s) \<Rightarrow> s)"

definition ex_dev_branch :: branch_ref where
  "ex_dev_branch = \<lparr>br_repository = ex_repository, br_name = ''dev''\<rparr>"

definition ex_work :: "rev_error + commit_outcome \<times> repo_state" where
  "ex_work = svc_commit ex_service ex_dev (Aware 1) ex_dev_branch (ex_doc ''2'') (outcome_id ex_init) ''u'' ''n'' None"

definition ex_ahead :: repo_state where
  "ex_ahead = outcome_repo ex_dev ex_work"

lemma ex_reachable_protected: "svc_reachable ex_service (ex_world ex_protected)"
proof (rule svc_reachable.step [OF ex_reachable1])
  have "\<not> isl (svc_protect_branch ex_repo1 ex_branch ''maintainer'')" by code_simp
  then have "svc_protect_branch ex_repo1 ex_branch ''maintainer'' = Inr ex_protected"
    by (cases "svc_protect_branch ex_repo1 ex_branch ''maintainer''") (auto simp: ex_protected_def)
  then have "svc_step ex_service (ex_world ex_repo1) ((ex_world ex_repo1)\<lparr>w_repo := ex_protected\<rparr>)"
    by (intro svc_step.protect) (simp add: ex_world_def)
  then show "svc_step ex_service (ex_world ex_repo1) (ex_world ex_protected)"
    by (simp add: ex_world_def)
qed

lemma ex_step_dev: "svc_step ex_service (ex_world ex_protected) (ex_world ex_dev)"
proof -
  have "\<not> isl (svc_create_branch ex_protected ex_repository ''dev'' (outcome_id ex_init))" by code_simp
  then obtain b where "svc_create_branch ex_protected ex_repository ''dev'' (outcome_id ex_init) = Inr (b, ex_dev)"
    by (cases "svc_create_branch ex_protected ex_repository ''dev'' (outcome_id ex_init)")
       (auto simp: ex_dev_def)
  then have "svc_step ex_service (ex_world ex_protected) ((ex_world ex_protected)\<lparr>w_repo := ex_dev\<rparr>)"
    by (intro svc_step.create_branch) (simp add: ex_world_def)
  then show ?thesis by (simp add: ex_world_def)
qed

lemma ex_step_work: "svc_step ex_service (ex_world ex_dev) (ex_world ex_ahead)"
proof -
  have "\<not> isl ex_work" by code_simp
  then obtain out where "ex_work = Inr (out, ex_ahead)" using run_ok unfolding ex_ahead_def by blast
  then have "svc_step ex_service (ex_world ex_dev) ((ex_world ex_dev)\<lparr>w_repo := ex_ahead\<rparr>)"
    by (intro svc_step.commit) (simp add: ex_world_def ex_work_def)
  then show ?thesis by (simp add: ex_world_def)
qed

text \<open>The merge of \<open>dev\<close> into the protected branch: the challenge it answers, approved once.\<close>

definition ex_asked :: challenge where
  "ex_asked = (case svc_merge ex_service (ex_world ex_ahead) (Aware 2) ex_dev_branch ex_branch (outcome_id ex_init)
     ''u'' ''merge'' None of Some (Inr res, _) \<Rightarrow> the (mr_approval res))"

definition ex_asking :: "approvals world" where
  "ex_asking = (ex_world ex_ahead)\<lparr>w_approvals := snd (projr (approval_issue host_ascii Map.empty ex_asked ''boss'' ''x''))\<rparr>"

definition ex_merge :: "((rev_error + merge_result) \<times> approvals world) option" where
  "ex_merge = svc_merge ex_service ex_asking (Aware 3) ex_dev_branch ex_branch (outcome_id ex_init) ''u'' ''merge''
     (Some ''bar_x'')"

definition ex_merged :: "approvals world" where
  "ex_merged = snd (the ex_merge)"

lemma ex_reachable_asking: "svc_reachable ex_service ex_asking"
proof -
  have "svc_reachable ex_service (ex_world ex_ahead)"
    by (rule svc_reachable.step [OF svc_reachable.step [OF ex_reachable_protected ex_step_dev] ex_step_work])
  then show ?thesis unfolding ex_asking_def by (rule svc_reachable.step [OF _ svc_step.approvals])
qed

lemma ex_step_merge: "svc_step ex_service ex_asking ex_merged"
proof -
  have "ex_merge \<noteq> None" by code_simp
  then have "ex_merge = Some (fst (the ex_merge), ex_merged)" by (auto simp: ex_merged_def)
  then show ?thesis unfolding ex_merge_def by (rule svc_step.merge)
qed

theorem revision_protected_branch_witness:
  "\<exists>b' source target reference (c :: commit) shead.
     rs_branches (w_repo ex_merged) (branch_key ex_branch) = Some b' \<and> b_head b' = cm_id c \<and>
     svc_head (w_repo ex_asking) source = Inr shead \<and> cm_parents c = [outcome_id ex_init, cm_id shead] \<and>
     approved_by ex_service (w_approvals ex_asking) (w_approvals ex_merged) reference target
       (Some ''maintainer'') (outcome_id ex_init) (cm_id shead)"
proof -
  have "(case rs_branches (w_repo ex_asking) (branch_key ex_branch) of None \<Rightarrow> False
      | Some b \<Rightarrow> b_protected b \<and> b_head b = outcome_id ex_init \<and> b_policy b = Some ''maintainer'')"
    by code_simp
  then obtain b where b: "rs_branches (w_repo ex_asking) (branch_key ex_branch) = Some b" "b_protected b"
    "b_head b = outcome_id ex_init" "b_policy b = Some ''maintainer''"
    by (auto split: option.splits)
  have "(case rs_branches (w_repo ex_merged) (branch_key ex_branch) of None \<Rightarrow> False
      | Some b' \<Rightarrow> b_head b' \<noteq> outcome_id ex_init)"
    by code_simp
  then obtain b' where "rs_branches (w_repo ex_merged) (branch_key ex_branch) = Some b'" "b_head b' \<noteq> outcome_id ex_init"
    by (auto split: option.splits)
  with revision_protected_branch [OF ex_reachable_asking ex_step_merge b(1,2), unfolded b(3,4)]
  show ?thesis by fastforce
qed

section \<open>One-time approvals\<close>

text \<open>What happens at the in-memory verifier, and its records afterwards.\<close>

datatype approval_event = ApprovalIssued challenge string string | ApprovalTried string challenge

fun approval_next :: "hostlib \<Rightarrow> approval_event \<Rightarrow> approvals \<Rightarrow> approvals" where
  "approval_next h (ApprovalIssued c approver token) st =
     (case approval_issue h st c approver token of Inl _ \<Rightarrow> st | Inr (_, st') \<Rightarrow> st')"
| "approval_next h (ApprovalTried reference c) st = snd (approval_consume h st reference c)"

definition approvals_after :: "hostlib \<Rightarrow> approval_event list \<Rightarrow> approvals" where
  "approvals_after h es = fold (approval_next h) es Map.empty"

text \<open>An event touches a digest when it issued or tried a reference with that digest.\<close>

fun touches :: "hostlib \<Rightarrow> string \<Rightarrow> approval_event \<Rightarrow> bool" where
  "touches h key (ApprovalIssued c approver token) \<longleftrightarrow>
     str_strip approver \<noteq> [] \<and> sha256_hex h (''bar_'' @ token) = key"
| "touches h key (ApprovalTried reference c) \<longleftrightarrow> sha256_hex h reference = key"

lemma approvals_after_snoc:
  "approvals_after h (es @ [e]) key =
     (if touches h key e then (case e of ApprovalIssued c _ _ \<Rightarrow> Some c | ApprovalTried _ _ \<Rightarrow> None)
      else approvals_after h es key)"
  by (cases e) (auto simp: approvals_after_def approval_issue_def approval_consume_def Let_def)

lemma recorded_iff:
  "approvals_after h es key = Some c \<longleftrightarrow>
     (\<exists>before approver token later. es = before @ ApprovalIssued c approver token # later \<and>
        touches h key (ApprovalIssued c approver token) \<and> \<not> list_ex (touches h key) later)"
  (is "_ \<longleftrightarrow> ?issued es")
proof (induction es rule: rev_induct)
  case Nil
  then show ?case by (simp add: approvals_after_def)
next
  case (snoc e es)
  have split: "?issued (es @ [e]) \<longleftrightarrow> (if touches h key e then (\<exists>approver token. e = ApprovalIssued c approver token) else ?issued es)"
  proof
    assume "?issued (es @ [e])"
    then obtain before approver token later where
      "es @ [e] = before @ ApprovalIssued c approver token # later"
      "touches h key (ApprovalIssued c approver token)" "\<not> list_ex (touches h key) later" by blast
    then show "if touches h key e then (\<exists>approver token. e = ApprovalIssued c approver token) else ?issued es"
      by (cases later rule: rev_cases) auto
  next
    assume now: "if touches h key e then (\<exists>approver token. e = ApprovalIssued c approver token) else ?issued es"
    show "?issued (es @ [e])"
    proof (cases "touches h key e")
      case True
      then show ?thesis using now by fastforce
    next
      case False
      with now obtain before approver token later where "es = before @ ApprovalIssued c approver token # later"
        "touches h key (ApprovalIssued c approver token)" "\<not> list_ex (touches h key) later" by auto
      with False show ?thesis
        by (intro exI [of _ before] exI [of _ approver] exI [of _ token] exI [of _ "later @ [e]"]) simp
    qed
  qed
  have issue: "(case e of ApprovalIssued c _ _ \<Rightarrow> Some c | ApprovalTried _ _ \<Rightarrow> None) = Some c \<longleftrightarrow>
      (\<exists>approver token. e = ApprovalIssued c approver token)" by (cases e) auto
  show ?case unfolding split approvals_after_snoc
    by (cases "touches h key e") (simp_all only: if_True if_False issue snoc.IH)
qed

text \<open>
  C12. An approval reference works once and only for what it was issued for: after any sequence of
  issues and tries at the in-memory verifier, it accepts a reference for a challenge exactly when
  the last event that concerned the reference's digest is a successful issue of a reference with that digest
  for this very challenge. So a reference is refused once it was tried, accepted or not, until it is
  issued again, and one that was never issued is refused.
\<close>
theorem approval_one_time:
  "fst (approval_consume h (approvals_after h es) reference c) \<longleftrightarrow>
     (\<exists>before approver token later. es = before @ ApprovalIssued c approver token # later \<and>
        str_strip approver \<noteq> [] \<and> sha256_hex h (''bar_'' @ token) = sha256_hex h reference \<and>
        \<not> list_ex (touches h (sha256_hex h reference)) later)"
  unfolding approval_consume_def Let_def fst_conv recorded_iff by simp

section \<open>Change sets and restores\<close>

lemma make_snapshot_hash:
  assumes "sv_adapter sv = json_document_adapter (sv_host sv)" "nfc_idem (sv_host sv)"
    and "make_snapshot sv doc = Inr x" "digest (sv_host sv) doc = Inr d"
  shows "sn_content_hash x = ''sha256:'' @ d"
proof -
  let ?h = "sv_host sv"
  obtain n where n: "normalize_json ?h doc = Inr n" "d = sha256_hex ?h (json_dumps ?h n)"
    using assms(4) by (auto simp: digest_def canonical_json_bytes_def bindr_eq_Inr)
  have nn: "normalize_json ?h n = Inr n" by (rule normalize_idem [OF assms(2) n(1)])
  obtain m where "ad_normalize (sv_adapter sv) doc = Inr m" using assms(3)
    by (auto simp: make_snapshot_def bindr_eq_Inr)
  then have m: "m = n" "ad_normalize (sv_adapter sv) doc = Inr n"
    using n(1) assms(1) by (auto simp: json_document_adapter_def doc_normalize_def split: if_splits)
  show ?thesis
    using assms(3) nn n(2) m(2)
    by (auto simp: make_snapshot_def bindr_eq_Inr canonical_json_bytes_def Let_def split: if_splits)
qed

lemma svc_commit_heads:
  assumes "svc_commit sv s now b doc expected author msg None = Inr (out, s')"
  obtains c where "out = \<lparr>co_branch = b, co_commit = c\<rparr>" "make_snapshot sv doc = Inr (cm_snapshot c)"
    "cm_content_hash c = sn_content_hash (cm_snapshot c)" "cm_parents c = [expected]"
    "repo_get_head s b = Some expected" "repo_get_head s' b = Some (cm_id c)"
proof -
  obtain rec c br where rec: "repo_get_branch s b = Some rec"
    and app: "repo_append_commit s b c (Some expected) = Inr (br, s')"
    and c: "out = \<lparr>co_branch = b, co_commit = c\<rparr>" "make_snapshot sv doc = Inr (cm_snapshot c)"
      "cm_content_hash c = sn_content_hash (cm_snapshot c)" "cm_parents c = [expected]"
    using assms unfolding svc_commit_def by (rule write_commit_Inr) auto
  have "repo_get_head s b \<noteq> None" using rec by (simp add: repo_get_head_def)
  then have "repo_get_head s b = Some expected" using memory_store.append_cas [OF app] by auto
  from that [OF c this memory_store.append_head [OF app]] show thesis .
qed

text \<open>
  C13. Applying a change set, given by value or by a reference to a stored one, produces what was
  proposed: if \<open>apply_changeset\<close> commits, the content hash of the new commit is the result hash recorded in the
  change set, the head of the branch was the change set's base commit, which is the only parent of the new
  commit, and the new commit is the head now. (For the document adapter of the code, and a Unicode
  normalisation that is idempotent.)
\<close>
theorem apply_changeset_result:
  assumes "sv_adapter sv = json_document_adapter (sv_host sv)" "nfc_idem (sv_host sv)"
    and "svc_apply_changeset sv s now b given expected author msg = Inr (out, s')"
  shows "\<exists>cs. (case given of Inl ref \<Rightarrow> svc_get_changeset s ref | Inr c \<Rightarrow> Inr c) = Inr cs \<and>
    cm_content_hash (co_commit out) = c_result_hash cs \<and>
    cm_parents (co_commit out) = [cs_base (c_ref cs)] \<and>
    repo_get_head s b = Some (cs_base (c_ref cs)) \<and> repo_get_head s' b = Some (cm_id (co_commit out))"
proof -
  obtain cs doc d where cs: "(case given of Inl ref \<Rightarrow> svc_get_changeset s ref | Inr c \<Rightarrow> Inr c) = Inr cs"
    and doc: "digest (sv_host sv) doc = Inr d" "''sha256:'' @ d = c_result_hash cs"
    and run: "svc_commit sv s now b doc expected author msg None = Inr (out, s')"
    and e: "cs_base (c_ref cs) = expected"
    using assms(3) by (auto simp: svc_apply_changeset_def bindr_eq_Inr split: if_splits)
  from svc_commit_heads [OF run] obtain c where out: "out = \<lparr>co_branch = b, co_commit = c\<rparr>"
    "make_snapshot sv doc = Inr (cm_snapshot c)" "cm_content_hash c = sn_content_hash (cm_snapshot c)"
    "cm_parents c = [expected]" "repo_get_head s b = Some expected" "repo_get_head s' b = Some (cm_id c)"
    by blast
  show ?thesis using make_snapshot_hash [OF assms(1,2) out(2) doc(1)] out doc(2) e cs by auto
qed

definition ex_changeset :: "rev_error + changeset \<times> repo_state" where
  "ex_changeset = svc_create_changeset ex_service ex_repo1 (Aware 5) ex_repository
     (outcome_id ex_init) (ex_doc ''2'') ''u''"

lemma ex_adapter:
  "sv_adapter ex_service = json_document_adapter (sv_host ex_service)" "nfc_idem (sv_host ex_service)"
  by (simp_all add: ex_service_def host_ascii_idem)

theorem apply_changeset_result_witness:
  "\<exists>cs s1 out s2. ex_changeset = Inr (cs, s1) \<and>
     svc_apply_changeset ex_service s1 (Aware 6) ex_branch (Inl (c_ref cs)) (outcome_id ex_init) ''u'' ''apply'' = Inr (out, s2) \<and>
     repo_get_head s2 ex_branch = Some (cm_id (co_commit out))"
proof -
  have "(case ex_changeset of Inl _ \<Rightarrow> False | Inr (cs, s1) \<Rightarrow>
      \<not> isl (svc_apply_changeset ex_service s1 (Aware 6) ex_branch (Inl (c_ref cs)) (outcome_id ex_init) ''u'' ''apply''))"
    by code_simp
  then obtain cs s1 out s2 where run: "ex_changeset = Inr (cs, s1)"
    "svc_apply_changeset ex_service s1 (Aware 6) ex_branch (Inl (c_ref cs)) (outcome_id ex_init) ''u'' ''apply'' = Inr (out, s2)"
    by (auto dest!: run_ok [where s = ex_repo1] split: sum.splits prod.splits)
  from apply_changeset_result [OF ex_adapter run(2)] run show ?thesis by blast
qed

text \<open>
  C14. A restore brings back the content on top of the current head: the commit it makes has the
  content hash of the source commit, the head the branch had is its only parent, and it is the head now.
  (For the document adapter of the code, and a Unicode normalisation that is idempotent.)
\<close>
theorem restore_result:
  assumes "sv_adapter sv = json_document_adapter (sv_host sv)" "nfc_idem (sv_host sv)"
    and "svc_reachable sv w" "repo_get_commit (w_repo w) source = Some c"
    and "svc_restore sv (w_repo w) now b source expected author msg = Inr (out, s')"
  shows "cm_content_hash (co_commit out) = cm_content_hash c \<and>
    (\<exists>head. repo_get_head (w_repo w) b = Some head \<and> cm_parents (co_commit out) = [head]) \<and>
    repo_get_head s' b = Some (cm_id (co_commit out))"
proof -
  have run: "svc_commit sv (w_repo w) now b (sn_content (cm_snapshot c)) expected author msg None = Inr (out, s')"
    using assms(4,5) by (auto simp: svc_restore_def bindr_eq_Inr svc_get_commit_Inr repo_get_commit_def)
  have "commit_valid (sv_host sv) c"
    using svc_reachable_store_inv [OF assms(3)] assms(4) repo_inv_commit
    unfolding store_inv_def commit_placed_def repo_get_commit_def by blast
  then obtain d where d: "digest (sv_host sv) (sn_content (cm_snapshot c)) = Inr d"
    "cm_content_hash c = ''sha256:'' @ d"
    by (auto simp: commit_valid_def snapshot_valid_def digest_def bindr_def Let_def split: sum.splits)
  from svc_commit_heads [OF run] obtain e where out: "out = \<lparr>co_branch = b, co_commit = e\<rparr>"
    "make_snapshot sv (sn_content (cm_snapshot c)) = Inr (cm_snapshot e)"
    "cm_content_hash e = sn_content_hash (cm_snapshot e)" "cm_parents e = [expected]"
    "repo_get_head (w_repo w) b = Some expected" "repo_get_head s' b = Some (cm_id e)" by blast
  show ?thesis using make_snapshot_hash [OF assms(1,2) out(2) d(1)] out d(2) by simp
qed

definition ex_restore :: "rev_error + commit_outcome \<times> repo_state" where
  "ex_restore = svc_restore ex_service ex_repo2 (Aware 3) ex_branch (outcome_id ex_init)
     (outcome_id ex_commit) ''u'' ''back''"

theorem restore_result_witness:
  "\<exists>c out s'. repo_get_commit ex_repo2 (outcome_id ex_init) = Some c \<and> ex_restore = Inr (out, s') \<and>
     cm_content_hash (co_commit out) = cm_content_hash c"
proof -
  have "repo_get_commit ex_repo2 (outcome_id ex_init) \<noteq> None" by code_simp
  then obtain c where c: "repo_get_commit (w_repo (ex_world ex_repo2)) (outcome_id ex_init) = Some c"
    by (auto simp: ex_world_def)
  have "\<not> isl ex_restore" by code_simp
  then obtain out where out: "ex_restore = Inr (out, outcome_repo ex_repo2 ex_restore)"
    using run_ok by blast
  have "svc_restore ex_service (w_repo (ex_world ex_repo2)) (Aware 3) ex_branch (outcome_id ex_init)
     (outcome_id ex_commit) ''u'' ''back'' = Inr (out, outcome_repo ex_repo2 ex_restore)"
    using out by (simp add: ex_restore_def ex_world_def)
  from restore_result [OF ex_adapter ex_reachable2 c this] c out show ?thesis
    by (simp add: ex_world_def) blast
qed

section \<open>Merging a head into itself\<close>

text \<open>
  C15. Merging a branch whose head is already the head of the target does not answer that there is
  nothing to do: it always ends in an error or an approval request, since the commit it builds
  names the same parent twice, which the commit validator rejects.
\<close>
theorem merge_same_head_never_merges:
  assumes "svc_head (w_repo w) source = Inr common" "svc_head (w_repo w) target = Inr common"
    and "svc_merge sv w now source target expected author msg approval = Some (r, w')"
  shows "\<not> (\<exists>res. r = Inr res \<and> mr_status res = Merged)"
proof
  assume "\<exists>res. r = Inr res \<and> mr_status res = Merged"
  then obtain res where r: "r = Inr res" and merged: "mr_status res = Merged" by blast
  obtain shead thead rec doc where
    head: "svc_head (w_repo w) source = Inr shead" "svc_head (w_repo w) target = Inr thead" "cm_id thead = expected"
    and run: "merge_approved sv w now target rec thead shead doc expected author msg approval = (Inr res, w')"
    using svc_merge_Some [OF assms(3)] merged r by auto
  obtain w0 where "merge_write sv w0 now target shead doc expected author msg = (Inr res, w')"
    using merge_approved_cases [OF run] merged by auto
  then obtain out s' where
    "write_commit sv (w_repo w0) now target doc expected author msg (Some (cm_id shead)) True = Inr (out, s')"
    by (auto simp: merge_write_def split: sum.splits)
  then obtain c where "commit_valid (sv_host sv) c" "cm_parents c = [expected, cm_id shead]"
    by (rule write_commit_Inr) auto
  then show False using head assms(1,2) by (simp add: commit_valid_def)
qed

theorem merge_same_head_never_merges_witness:
  "\<exists>r w'. svc_merge ex_service (ex_world ex_repo2) (Aware 4) ex_branch ex_branch (outcome_id ex_commit)
     ''u'' ''again'' None = Some (r, w') \<and> \<not> (\<exists>res. r = Inr res \<and> mr_status res = Merged)"
proof -
  have "svc_merge ex_service (ex_world ex_repo2) (Aware 4) ex_branch ex_branch (outcome_id ex_commit)
     ''u'' ''again'' None \<noteq> None" by code_simp
  then obtain r w' where run: "svc_merge ex_service (ex_world ex_repo2) (Aware 4) ex_branch ex_branch
      (outcome_id ex_commit) ''u'' ''again'' None = Some (r, w')" by (metis not_None_eq surj_pair)
  have "\<not> isl (svc_head (w_repo (ex_world ex_repo2)) ex_branch)" by code_simp
  then obtain common where head: "svc_head (w_repo (ex_world ex_repo2)) ex_branch = Inr common"
    by (cases "svc_head (w_repo (ex_world ex_repo2)) ex_branch") auto
  from merge_same_head_never_merges [OF head head run] run show ?thesis by blast
qed

end
