(* ===== verification/PayloadValidation.thy ===== *)
theory PayloadValidation
  imports Contracts
begin

text \<open>
  The JSON payload validator of the capability boundary
  (\<open>backend/capabilities/validation_next.py\<close>). A schema is a JSON value. Regular expressions are
  evaluated by the obj of \<open>regexlib\<close>, where \<open>None\<close> is a pattern that does not compile. The
  keywords \<open>properties\<close> and \<open>patternProperties\<close> are mappings (or falsy) in a schema; a schema
  with another value there raises \<open>AttributeError\<close> here as soon as an object is checked.
\<close>

section \<open>Python conversions\<close>

record regexlib =
  rx_search :: "string \<Rightarrow> string \<Rightarrow> bool option"
  rx_fullmatch :: "string \<Rightarrow> string \<Rightarrow> bool option"

text \<open>\<open>str(value)\<close> of a scalar.\<close>

fun py_str :: "hostlib \<Rightarrow> json \<Rightarrow> string" where
  "py_str h JNull = ''None''"
| "py_str h (JBool b) = (if b then ''True'' else ''False'')"
| "py_str h (JInt i) = str_of_int i"
| "py_str h (JFloat f) = float_repr h f"
| "py_str h (JStr s) = s"
| "py_str h _ = ''<object>''"

text \<open>\<open>int(text)\<close>: white space, a sign, and digits with single underscores between them.\<close>

definition digit_val :: "char \<Rightarrow> int" where
  "digit_val c = int (index_of c ''0123456789'')"

fun parse_digits :: "int \<Rightarrow> string \<Rightarrow> int option" where
  "parse_digits acc [] = Some acc"
| "parse_digits acc (c # s) =
     (if is_digit c then parse_digits (acc * 10 + digit_val c) s
      else if c = CHR ''_'' then
        (case s of [] \<Rightarrow> None
         | d # r \<Rightarrow> if is_digit d then parse_digits (acc * 10 + digit_val d) r else None)
      else None)"

definition parse_int :: "string \<Rightarrow> int option" where
  "parse_int text =
     (let unsigned = (\<lambda>s. case s of [] \<Rightarrow> None
                           | c # r \<Rightarrow> if is_digit c then parse_digits (digit_val c) r else None) in
      case str_strip text of
        [] \<Rightarrow> None
      | c # r \<Rightarrow> if c = CHR ''-'' then map_option uminus (unsigned r)
                 else if c = CHR ''+'' then unsigned r else unsigned (c # r))"

definition py_trunc :: "rat \<Rightarrow> int" where
  "py_trunc q = (if q < 0 then - \<lfloor>- q\<rfloor> else \<lfloor>q\<rfloor>)"

fun py_int :: "json \<Rightarrow> py_exn + int" where
  "py_int (JInt i) = Inr i"
| "py_int (JBool b) = Inr (if b then 1 else 0)"
| "py_int (JFloat (Fin q)) = Inr (py_trunc q)"
| "py_int (JFloat NegZero) = Inr 0"
| "py_int (JFloat (Inf _)) = Inl (OtherError ''OverflowError'')"
| "py_int (JFloat NaN) = Inl (ValueError ''cannot convert float NaN to integer'')"
| "py_int (JStr s) = (case parse_int s of None \<Rightarrow> Inl (ValueError ''invalid literal'') | Some i \<Rightarrow> Inr i)"
| "py_int _ = Inl (TypeError ''int() argument'')"

text \<open>The order of numbers: \<open>a < b\<close>, a \<open>TypeError\<close> when the right operand is no number.\<close>

datatype number = MinusInf | Val rat | PlusInf | NotANumber

fun number_of :: "json \<Rightarrow> number option" where
  "number_of (JBool b) = Some (Val (if b then 1 else 0))"
| "number_of (JInt i) = Some (Val (of_int i))"
| "number_of (JFloat (Fin q)) = Some (Val q)"
| "number_of (JFloat NegZero) = Some (Val 0)"
| "number_of (JFloat (Inf neg)) = Some (if neg then MinusInf else PlusInf)"
| "number_of (JFloat NaN) = Some NotANumber"
| "number_of _ = None"

fun number_less :: "number \<Rightarrow> number \<Rightarrow> bool" where
  "number_less (Val a) (Val b) = (a < b)"
| "number_less MinusInf (Val b) = True"
| "number_less MinusInf PlusInf = True"
| "number_less (Val a) PlusInf = True"
| "number_less _ _ = False"

definition py_less :: "json \<Rightarrow> json \<Rightarrow> py_exn + bool" where
  "py_less a b = (case (number_of a, number_of b) of
     (Some x, Some y) \<Rightarrow> Inr (number_less x y)
   | _ \<Rightarrow> Inl (TypeError ''unorderable types''))"

definition is_substring :: "string \<Rightarrow> string \<Rightarrow> bool" where
  "is_substring p s \<longleftrightarrow> (\<exists>i\<in>set [0..<Suc (length s)]. str_prefix p (drop i s))"

text \<open>\<open>for x in value\<close>.\<close>

fun py_iter :: "json \<Rightarrow> py_exn + json list" where
  "py_iter (JList xs) = Inr xs"
| "py_iter (JObj xs) = Inr (map (JStr \<circ> fst) xs)"
| "py_iter (JStr s) = Inr (map (\<lambda>c. JStr [c]) s)"
| "py_iter _ = Inl (TypeError ''object is not iterable'')"

fun hashable :: "json \<Rightarrow> bool" where
  "hashable (JList _) = False"
| "hashable (JObj _) = False"
| "hashable _ = True"

text \<open>\<open>x in container\<close>.\<close>

fun py_in :: "json \<Rightarrow> json \<Rightarrow> py_exn + bool" where
  "py_in x (JList ys) = Inr (list_ex (py_eq x) ys)"
| "py_in x (JObj ys) =
     (if hashable x then Inr (case x of JStr s \<Rightarrow> s \<in> set (map fst ys) | _ \<Rightarrow> False)
      else Inl (TypeError ''unhashable type''))"
| "py_in x (JStr s) =
     (case x of JStr p \<Rightarrow> Inr (is_substring p s) | _ \<Rightarrow> Inl (TypeError ''requires string''))"
| "py_in x _ = Inl (TypeError ''argument is not iterable'')"

section \<open>Type keywords\<close>

fun is_type1 :: "json \<Rightarrow> string \<Rightarrow> bool" where
  "is_type1 v t =
     (if t = ''object'' then is_obj v
      else if t = ''array'' then is_list v
      else if t = ''string'' then is_str v
      else if t = ''integer'' then (case v of JInt _ \<Rightarrow> True | _ \<Rightarrow> False)
      else if t = ''number'' then (case v of JInt _ \<Rightarrow> True | JFloat _ \<Rightarrow> True | _ \<Rightarrow> False)
      else if t = ''boolean'' then (case v of JBool _ \<Rightarrow> True | _ \<Rightarrow> False)
      else if t = ''null'' then v = JNull
      else False)"

text \<open>\<open>any(...)\<close> stops at the first true element; an element that raises ends it.\<close>

fun any_r :: "('a \<Rightarrow> 'e + bool) \<Rightarrow> 'a list \<Rightarrow> 'e + bool" where
  "any_r f [] = Inr False"
| "any_r f (x # xs) = bindr (f x) (\<lambda>b. if b then Inr True else any_r f xs)"

lemma any_r_cong [fundef_cong]:
  "xs = ys \<Longrightarrow> (\<And>x. x \<in> set ys \<Longrightarrow> f x = g x) \<Longrightarrow> any_r f xs = any_r g ys"
  by (induction ys arbitrary: xs) (auto simp: bindr_def split: sum.split)

fun is_type :: "json \<Rightarrow> json \<Rightarrow> py_exn + bool" where
  "is_type v (JList ts) = any_r (is_type v) ts"
| "is_type v (JStr t) = Inr (is_type1 v t)"
| "is_type v (JObj _) = Inl (TypeError ''unhashable type'')"
| "is_type v _ = Inr False"

fun join_with :: "string \<Rightarrow> string list \<Rightarrow> string" where
  "join_with sep [] = []"
| "join_with sep [s] = s"
| "join_with sep (s # t # ss) = s @ sep @ join_with sep (t # ss)"

definition type_label :: "hostlib \<Rightarrow> json \<Rightarrow> py_exn + string" where
  "type_label h expected =
     (case expected of
        JList ts \<Rightarrow>
          if list_all is_str ts then Inr (''one of '' @ join_with '', '' (map (py_str h) ts))
          else Inl (TypeError ''sequence item: expected str instance'')
      | _ \<Rightarrow> Inr ((if expected \<in> {JStr ''object'', JStr ''array'', JStr ''integer''}
                   then ''an '' else ''a '') @ py_str h expected))"

section \<open>Checks of one keyword\<close>

type_synonym check = "py_exn + unit"

definition refuse_if :: "py_exn + bool \<Rightarrow> string \<Rightarrow> check" where
  "refuse_if cond message = bindr cond (\<lambda>b. unless_raise (\<not> b) (ValueError message))"

definition check_const :: "json \<Rightarrow> json \<Rightarrow> string \<Rightarrow> check" where
  "check_const schema v label = (case jget schema ''const'' of
     None \<Rightarrow> Inr ()
   | Some c \<Rightarrow> unless_raise (py_eq v c) (ValueError (label @ '' does not match the required constant'')))"

definition check_enum :: "json \<Rightarrow> json \<Rightarrow> string \<Rightarrow> check" where
  "check_enum schema v label =
     (let e = jget_null schema ''enum'' in
      if truthy e
      then bindr (py_in v e) (\<lambda>b. unless_raise b (ValueError (label @ '' is not an allowed value'')))
      else Inr ())"

definition check_type :: "hostlib \<Rightarrow> json \<Rightarrow> json \<Rightarrow> string \<Rightarrow> check" where
  "check_type h schema v label =
     (let expected = jget_null schema ''type'' in
      if truthy expected
      then bindr (is_type v expected) (\<lambda>b.
             if b then Inr ()
             else bindr (type_label h expected) (\<lambda>t. Inl (ValueError (label @ '' must be '' @ t))))
      else Inr ())"

definition int_keyword :: "json \<Rightarrow> string \<Rightarrow> py_exn + int" where
  "int_keyword schema k = (case jget schema k of None \<Rightarrow> Inr 0 | Some v \<Rightarrow> py_int v)"

definition above_keyword :: "json \<Rightarrow> string \<Rightarrow> int \<Rightarrow> py_exn + bool" where
  "above_keyword schema k n =
     (case jget schema k of None \<Rightarrow> Inr False | Some v \<Rightarrow> bindr (py_int v) (\<lambda>m. Inr (n > m)))"

definition below_keyword :: "json \<Rightarrow> string \<Rightarrow> int \<Rightarrow> py_exn + bool" where
  "below_keyword schema k n = bindr (int_keyword schema k) (\<lambda>m. Inr (n < m))"

definition rx_result :: "bool option \<Rightarrow> py_exn + bool" where
  "rx_result r = (case r of None \<Rightarrow> Inl (OtherError ''re.error'') | Some b \<Rightarrow> Inr b)"

definition check_string :: "hostlib \<Rightarrow> regexlib \<Rightarrow> json \<Rightarrow> json \<Rightarrow> string \<Rightarrow> check" where
  "check_string h rx schema v label = (case v of
     JStr s \<Rightarrow>
       bindr (refuse_if (below_keyword schema ''minLength'' (int (py_len s)))
                (label @ '' is shorter than minLength'')) (\<lambda>_.
       bindr (refuse_if (above_keyword schema ''maxLength'' (int (py_len s)))
                (label @ '' is longer than maxLength'')) (\<lambda>_.
       case jget schema ''pattern'' of
         None \<Rightarrow> Inr ()
       | Some p \<Rightarrow> bindr (rx_result (rx_search rx (py_str h p) s)) (\<lambda>b.
           unless_raise b (ValueError (label @ '' does not match the required pattern'')))))
   | _ \<Rightarrow> Inr ())"

definition compare_keyword :: "(json \<Rightarrow> py_exn + bool) \<Rightarrow> json \<Rightarrow> string \<Rightarrow> py_exn + bool" where
  "compare_keyword f schema k = (case jget schema k of None \<Rightarrow> Inr False | Some m \<Rightarrow> f m)"

definition check_number :: "json \<Rightarrow> json \<Rightarrow> string \<Rightarrow> check" where
  "check_number schema v label =
     (if is_type1 v ''number'' then
        bindr (refuse_if (compare_keyword (\<lambda>m. py_less v m) schema ''minimum'')
                 (label @ '' is below minimum'')) (\<lambda>_.
        refuse_if (compare_keyword (\<lambda>m. py_less m v) schema ''maximum'')
          (label @ '' exceeds maximum''))
      else Inr ())"

definition check_items :: "json \<Rightarrow> json list \<Rightarrow> string \<Rightarrow> check" where
  "check_items schema vs label =
     bindr (refuse_if (below_keyword schema ''minItems'' (int (length vs)))
              (label @ '' has fewer items than allowed'')) (\<lambda>_.
     refuse_if (above_keyword schema ''maxItems'' (int (length vs)))
       (label @ '' has more items than allowed''))"

text \<open>A mapping keyword: \<open>schema.get(key) or {}\<close>.\<close>

definition mapping_keyword :: "json \<Rightarrow> string \<Rightarrow> py_exn + jobj" where
  "mapping_keyword schema k =
     (case jget_null schema k of
        JObj xs \<Rightarrow> Inr xs
      | v \<Rightarrow> if truthy v then Inl (OtherError ''AttributeError'') else Inr [])"

definition check_size :: "json \<Rightarrow> jobj \<Rightarrow> string \<Rightarrow> check" where
  "check_size schema obj label =
     bindr (refuse_if (above_keyword schema ''maxProperties'' (int (length obj)))
              (label @ '' has more properties than allowed'')) (\<lambda>_.
     refuse_if (bindr (case jget schema ''minProperties'' of
                         None \<Rightarrow> Inr False
                       | Some m \<Rightarrow> bindr (py_int m) (\<lambda>k. Inr (int (length obj) < k))) Inr)
       (label @ '' has fewer properties than allowed''))"

definition check_required :: "hostlib \<Rightarrow> json \<Rightarrow> jobj \<Rightarrow> string \<Rightarrow> check" where
  "check_required h schema obj label =
     (let r = jget_null schema ''required'' in
      if truthy r then
        bindr (py_iter r) (\<lambda>names.
        bindr (mapr (\<lambda>name. bindr (py_in name (JObj obj)) (\<lambda>b.
                 unless_raise b (ValueError (label @ '' missing required field: '' @ py_str h name))))
               names) (\<lambda>_. Inr ()))
      else Inr ())"

definition check_unknown ::
  "regexlib \<Rightarrow> json \<Rightarrow> jobj \<Rightarrow> jobj \<Rightarrow> jobj \<Rightarrow> string \<Rightarrow> check" where
  "check_unknown rx schema props patterns obj label =
     (if jget schema ''additionalProperties'' = Some (JBool False) then
        bindr (mapr (\<lambda>(p, _). rx_result (rx_fullmatch rx p [])) patterns) (\<lambda>_.
        bindr (mapr (\<lambda>name. any_r (\<lambda>(p, _). rx_result (rx_fullmatch rx p name)) patterns)
                 (filter (\<lambda>n. n \<notin> set (map fst props)) (map fst obj))) (\<lambda>known.
        let names = filter (\<lambda>n. n \<notin> set (map fst props)) (map fst obj);
            unknown = sort (map fst (filter (\<lambda>(n, k). \<not> k) (zip names known))) in
        case unknown of
          [] \<Rightarrow> Inr ()
        | n # _ \<Rightarrow> Inl (ValueError (label @ '' contains unknown field: '' @ n))))
      else Inr ())"

text \<open>A branch that raises \<open>ValueError\<close> does not match; other exceptions are not caught.\<close>

fun catch_value_error :: "check \<Rightarrow> py_exn + bool" where
  "catch_value_error (Inr u) = Inr True"
| "catch_value_error (Inl (ValueError _)) = Inr False"
| "catch_value_error (Inl e) = Inl e"

text \<open>A schema that is not a mapping: \<open>'allOf' in schema\<close> and \<open>schema.get\<close> fail.\<close>

fun not_a_mapping :: "json \<Rightarrow> check" where
  "not_a_mapping (JStr s) =
     (if list_ex (\<lambda>k. is_substring k s) [''allOf'', ''anyOf'', ''oneOf'', ''const'']
      then Inl (TypeError ''string indices'') else Inl (OtherError ''AttributeError''))"
| "not_a_mapping (JList xs) =
     (if list_ex (\<lambda>k. JStr k \<in> set xs) [''allOf'', ''anyOf'', ''oneOf'', ''const'']
      then Inl (TypeError ''list indices'') else Inl (OtherError ''AttributeError''))"
| "not_a_mapping _ = Inl (TypeError ''argument is not iterable'')"

text \<open>The iterable of branches of a keyword, or none.\<close>

definition branches :: "json \<Rightarrow> string \<Rightarrow> py_exn + json list" where
  "branches schema k = (case jget schema k of None \<Rightarrow> Inr [] | Some b \<Rightarrow> py_iter b)"

lemma branches_smaller:
  assumes "branches schema k = Inr bs" and "b \<in> set bs" and "is_obj b"
  shows "size b < size schema"
proof -
  from assms(1,2) obtain v where v: "jget schema k = Some v" "py_iter v = Inr bs"
    by (auto simp: branches_def split: option.splits)
  with assms(2,3) have "v = JList bs" by (cases v) auto
  then have "b \<in> set (jlist v)" using assms(2) by simp
  from jlist_size [OF this] jget_size [OF v(1)] show ?thesis by simp
qed

lemma mapping_smaller:
  "mapping_keyword schema k = Inr xs \<Longrightarrow> map_of xs n = Some s \<Longrightarrow> size s < size schema"
proof -
  assume "mapping_keyword schema k = Inr xs" "map_of xs n = Some s"
  then have "jget schema k = Some (JObj xs)"
    by (auto simp: mapping_keyword_def jget_null_def split: json.splits option.splits if_splits)
  moreover have "size s < size (JObj xs)" using \<open>map_of xs n = Some s\<close> jget_size [of "JObj xs"] by simp
  ultimately show ?thesis using jget_size less_trans by blast
qed

text \<open>The schema of a field that no property names: the first matching pattern.\<close>

fun pattern_schema :: "regexlib \<Rightarrow> jobj \<Rightarrow> string \<Rightarrow> py_exn + json option" where
  "pattern_schema rx [] name = Inr None"
| "pattern_schema rx ((p, s) # ps) name =
     bindr (rx_result (rx_fullmatch rx p name)) (\<lambda>b.
       if b then Inr (Some s) else pattern_schema rx ps name)"

lemma pattern_schema_in: "pattern_schema rx ps name = Inr (Some s) \<Longrightarrow> \<exists>p. (p, s) \<in> set ps"
  by (induction ps) (auto 4 3 simp: bindr_eq_Inr split: if_splits)

text \<open>The schema that applies to one field of an object.\<close>

definition field_schema :: "regexlib \<Rightarrow> jobj \<Rightarrow> jobj \<Rightarrow> string \<Rightarrow> py_exn + json option" where
  "field_schema rx props patterns name =
     (case map_of props name of
        Some (JObj f) \<Rightarrow> Inr (Some (JObj f))
      | _ \<Rightarrow> pattern_schema rx patterns name)"

lemma field_schema_smaller:
  assumes "mapping_keyword schema ''properties'' = Inr props"
    and "mapping_keyword schema ''patternProperties'' = Inr patterns"
    and "field_schema rx props patterns name = Inr (Some s)"
  shows "size s < size schema"
proof (cases "\<exists>f. map_of props name = Some (JObj f)")
  case True
  then show ?thesis using assms mapping_smaller by (auto simp: field_schema_def)
next
  case False
  then have "pattern_schema rx patterns name = Inr (Some s)"
    using assms(3) by (auto simp: field_schema_def split: option.splits json.splits)
  from pattern_schema_in [OF this] obtain p where p: "(p, s) \<in> set patterns" by blast
  then have "jget schema ''patternProperties'' = Some (JObj patterns)"
    using assms(2)
    by (auto simp: mapping_keyword_def jget_null_def split: json.splits option.splits if_splits)
  from jget_size [OF this] obj_items_size [of p s "JObj patterns"] p show ?thesis by simp
qed

section \<open>The validator\<close>

text \<open>The checks of a schema that look at the value alone.\<close>

definition check_scalars :: "hostlib \<Rightarrow> regexlib \<Rightarrow> json \<Rightarrow> json \<Rightarrow> string \<Rightarrow> check" where
  "check_scalars h rx schema v label =
     bindr (check_const schema v label) (\<lambda>_.
     bindr (check_enum schema v label) (\<lambda>_.
     bindr (check_type h schema v label) (\<lambda>_.
     bindr (check_string h rx schema v label) (\<lambda>_.
     check_number schema v label))))"

definition check_object ::
  "hostlib \<Rightarrow> regexlib \<Rightarrow> json \<Rightarrow> jobj \<Rightarrow> jobj \<Rightarrow> jobj \<Rightarrow> string \<Rightarrow> check" where
  "check_object h rx schema props patterns obj label =
     bindr (check_size schema obj label) (\<lambda>_.
     bindr (check_required h schema obj label) (\<lambda>_.
     check_unknown rx schema props patterns obj label))"

function validate :: "hostlib \<Rightarrow> regexlib \<Rightarrow> json \<Rightarrow> json \<Rightarrow> string \<Rightarrow> check" where
  "validate h rx schema v label =
     bindr (branches schema ''allOf'') (\<lambda>all.
     bindr (mapr (\<lambda>b. if is_obj b then validate h rx b v label else not_a_mapping b) all) (\<lambda>_.
     bindr (branches schema ''anyOf'') (\<lambda>any.
     bindr (mapr (\<lambda>b. catch_value_error
              (if is_obj b then validate h rx b v label else not_a_mapping b)) any) (\<lambda>anys.
     bindr (unless_raise (jget schema ''anyOf'' = None \<or> True \<in> set anys)
              (ValueError (label @ '' does not match any allowed schema''))) (\<lambda>_.
     bindr (branches schema ''oneOf'') (\<lambda>one.
     bindr (mapr (\<lambda>b. catch_value_error
              (if is_obj b then validate h rx b v label else not_a_mapping b)) one) (\<lambda>ones.
     bindr (unless_raise (jget schema ''oneOf'' = None \<or> length (filter id ones) = 1)
              (ValueError (label @ '' must match exactly one allowed schema''))) (\<lambda>_.
     bindr (check_scalars h rx schema v label) (\<lambda>_.
     case v of
       JList vs \<Rightarrow>
         bindr (check_items schema vs label) (\<lambda>_.
         case jget schema ''items'' of
           Some (JObj s) \<Rightarrow>
             bindr (mapr (\<lambda>(i, x). validate h rx (JObj s) x (label @ ''['' @ str_of_nat i @ '']''))
                      (enumerate 0 vs)) (\<lambda>_. Inr ())
         | _ \<Rightarrow> Inr ())
     | JObj obj \<Rightarrow>
         (case mapping_keyword schema ''properties'' of
            Inl e \<Rightarrow> Inl e
          | Inr props \<Rightarrow>
         (case mapping_keyword schema ''patternProperties'' of
            Inl e \<Rightarrow> Inl e
          | Inr patterns \<Rightarrow>
         bindr (check_object h rx schema props patterns obj label) (\<lambda>_.
         bindr (mapr (\<lambda>(name, x).
                  (case field_schema rx props patterns name of
                     Inl e \<Rightarrow> Inl e
                   | Inr None \<Rightarrow> Inr ()
                   | Inr (Some s) \<Rightarrow>
                       if is_obj s then validate h rx s x (label @ ''.'' @ name)
                       else not_a_mapping s))
                obj) (\<lambda>_. Inr ()))))
     | _ \<Rightarrow> Inr ())))))))))"
  by pat_completeness auto
termination
  by (relation "measure (\<lambda>(h, rx, schema, v, label). size schema)")
    (auto dest: branches_smaller jget_size field_schema_smaller)

declare validate.simps [simp del]

text \<open>\<open>validate_payload\<close>: an empty schema accepts everything.\<close>

definition validate_payload :: "hostlib \<Rightarrow> regexlib \<Rightarrow> json \<Rightarrow> json \<Rightarrow> string \<Rightarrow> check" where
  "validate_payload h rx schema v label =
     (if truthy schema then validate h rx schema v label else Inr ())"

section \<open>Closed object schemas\<close>

text \<open>The shape of the object schemas of the catalog.\<close>

definition object_schema :: "(string \<times> jobj) list \<Rightarrow> string list \<Rightarrow> json" where
  "object_schema props req = JObj
     [(''type'', JStr ''object''), (''additionalProperties'', JBool False),
      (''required'', JList (map JStr req)),
      (''properties'', JObj (map (\<lambda>(n, s). (n, JObj s)) props))]"

lemma mapr_const_Inr: "(\<And>x. x \<in> set xs \<Longrightarrow> f x = Inr (g x)) \<Longrightarrow> mapr f xs = Inr (map g xs)"
  by (induction xs) auto

lemma mapr_check_iff: "(\<exists>us. mapr f xs = Inr us) \<longleftrightarrow> (\<forall>x\<in>set xs. f x = Inr (u :: unit))"
  by (induction xs) (auto simp: bindr_eq_Inr)

lemma check_required_names:
  assumes "jget schema ''required'' = Some (JList (map JStr req))"
  shows "check_required h schema obj label = Inr () \<longleftrightarrow> set req \<subseteq> set (map fst obj)"
proof (cases "req = []")
  case False
  have in_obj: "py_in (JStr n) (JObj obj) = Inr (n \<in> set (map fst obj))" for n by simp
  show ?thesis using assms False
    by (auto simp: check_required_def jget_null_def bindr_eq_Inr mapr_check_iff [where u = "()"] in_obj)
qed (use assms in \<open>simp add: check_required_def jget_null_def\<close>)

lemma check_unknown_names:
  assumes "jget schema ''additionalProperties'' = Some (JBool False)"
  shows "check_unknown rx schema props [] obj label = Inr () \<longleftrightarrow>
           set (map fst obj) \<subseteq> set (map fst props)"
proof -
  let ?names = "filter (\<lambda>n. n \<notin> set (map fst props)) (map fst obj)"
  have known: "mapr (\<lambda>name. any_r (\<lambda>(p, _). rx_result (rx_fullmatch rx p name)) [])
                 ?names = Inr (map (\<lambda>_. False) ?names)"
    by (rule mapr_const_Inr) simp
  have unknown: "map fst (filter (\<lambda>(n, k). \<not> k) (zip xs (map (\<lambda>_. False) xs))) = xs" for xs :: "string list"
    by (induction xs) auto
  have "check_unknown rx schema props [] obj label = (case sort ?names of
      [] \<Rightarrow> Inr () | n # _ \<Rightarrow> Inl (ValueError (label @ '' contains unknown field: '' @ n)))"
    unfolding check_unknown_def assms
    by (simp only: known unknown Let_def mapr.simps bindr_Inr simp_thms if_True)
  then have "check_unknown rx schema props [] obj label = Inr () \<longleftrightarrow> sort ?names = []"
    by (simp split: list.split)
  also have "\<dots> \<longleftrightarrow> ?names = []" by (metis set_empty set_sort)
  finally show ?thesis by (auto simp: filter_empty_conv)
qed

lemma object_schema_get:
  "jget (object_schema props req) k =
     (if k = ''type'' then Some (JStr ''object'')
      else if k = ''additionalProperties'' then Some (JBool False)
      else if k = ''required'' then Some (JList (map JStr req))
      else if k = ''properties'' then Some (JObj (map (\<lambda>(n, s). (n, JObj s)) props))
      else None)"
  by (simp add: object_schema_def)

lemma map_of_schemas: "map_of (map (\<lambda>(n, s). (n, JObj s)) props) n = map_option JObj (map_of props n)"
  by (induction props) auto

lemma field_schema_props:
  "n \<in> set (map fst props) \<Longrightarrow>
   field_schema rx (map (\<lambda>(n, s). (n, JObj s)) props) [] n = Inr (Some (JObj (the (map_of props n))))"
  by (auto simp: field_schema_def map_of_schemas dest!: weak_map_of_SomeI split: option.splits)

text \<open>
  Validation of an object schema of the catalog's shape is what it promises: the value is
  an object with every required field, without a field the schema does not name, and every
  field is valid for its own schema, at its own path.
\<close>

theorem object_schema_validates:
  "validate h rx (object_schema props req) v label = Inr () \<longleftrightarrow>
     (\<exists>obj. v = JObj obj \<and> set req \<subseteq> set (map fst obj) \<and> set (map fst obj) \<subseteq> set (map fst props) \<and>
        (\<forall>(n, x) \<in> set obj.
           validate h rx (JObj (the (map_of props n))) x (label @ ''.'' @ n) = Inr ()))"
proof -
  let ?s = "object_schema props req" and ?props = "map (\<lambda>(n, s). (n, JObj s)) props"
  have none [simp]: "branches ?s ''allOf'' = Inr []" "branches ?s ''anyOf'' = Inr []"
    "branches ?s ''oneOf'' = Inr []" "check_const ?s u label = Inr ()" "check_enum ?s u label = Inr ()"
    "check_size ?s obj label = Inr ()" "mapping_keyword ?s ''patternProperties'' = Inr []"
    "mapping_keyword ?s ''properties'' = Inr ?props" for obj u
    by (simp_all add: branches_def check_const_def check_enum_def check_size_def mapping_keyword_def
        jget_null_def above_keyword_def refuse_if_def object_schema_get)
  have type: "check_type h ?s u label = Inr () \<longleftrightarrow> is_obj u" for u
    by (auto simp: check_type_def jget_null_def object_schema_get bindr_eq_Inr)
  have scalars: "check_scalars h rx ?s u label = Inr () \<longleftrightarrow> is_obj u" for u
  proof (cases "is_obj u")
    case True
    then have "check_string h rx ?s u label = Inr ()" "check_number ?s u label = Inr ()"
      by (cases u; simp add: check_string_def check_number_def)+
    then show ?thesis using True by (simp add: check_scalars_def bindr_eq_Inr type)
  qed (simp add: check_scalars_def bindr_eq_Inr type)
  have keys: "set (map fst ?props) = set (map fst props)" by force
  have names: "check_object h rx ?s ?props [] obj label = Inr () \<longleftrightarrow>
      set req \<subseteq> set (map fst obj) \<and> set (map fst obj) \<subseteq> set (map fst props)" for obj
    unfolding check_object_def keys [symmetric]
    using check_required_names [of ?s req h obj label] check_unknown_names [of ?s rx ?props obj label]
    by (auto simp: object_schema_get bindr_eq_Inr)
  let ?field = "\<lambda>n x. case field_schema rx ?props [] n of
       Inl e \<Rightarrow> Inl e | Inr None \<Rightarrow> Inr ()
     | Inr (Some s) \<Rightarrow> if is_obj s then validate h rx s x (label @ ''.'' @ n) else not_a_mapping s"
  have field: "?field n x = validate h rx (JObj (the (map_of props n))) x (label @ ''.'' @ n)"
    if "(n, x) \<in> set obj" "set (map fst obj) \<subseteq> set (map fst props)" for n x obj
  proof -
    have "n \<in> set (map fst props)" using that by force
    then show ?thesis by (simp add: field_schema_props)
  qed
  have "validate h rx ?s v label = Inr () \<longleftrightarrow> (\<exists>obj. v = JObj obj \<and>
      check_object h rx ?s ?props [] obj label = Inr () \<and>
      (\<forall>(n, x) \<in> set obj. ?field n x = Inr ()))"
    by (subst validate.simps, cases v)
      (simp_all add: object_schema_get bindr_eq_Inr scalars mapr_check_iff [where u = "()"] case_prod_unfold)
  then show ?thesis
    unfolding names using field by (metis (no_types, lifting) case_prodI2 case_prodD)
qed

definition no_regex :: regexlib where
  "no_regex = \<lparr>rx_search = (\<lambda>_ _. None), rx_fullmatch = (\<lambda>_ _. None)\<rparr>"

theorem object_schema_validates_witness:
  "validate host_ascii no_regex (object_schema [(''a'', [])] [''a'']) (JObj [(''a'', JInt 3)]) ''payload''
     = Inr () \<and>
   validate host_ascii no_regex (object_schema [(''a'', [])] [''a'']) (JObj [(''b'', JInt 3)]) ''payload''
     \<noteq> Inr ()"
proof -
  have "validate host_ascii no_regex (JObj []) (JInt 3) ''payload.a'' = Inr ()" by code_simp
  then show ?thesis
    by (simp only: object_schema_validates) simp
qed

end
