(* ===== verification/Outcomes.thy ===== *)
theory Outcomes
  imports PayloadValidation
begin

text \<open>
  Durable outcomes and the audit outbox (\<open>backend/capability_v2/outcomes.py\<close>): the outcome
  records, \<open>durable_result\<close>, the in-memory store and the SQL store. The SQL store is the list of
  rows of its two tables with the keys their migration declares
  (\<open>operation_id\<close> primary and \<open>idempotency_scope\<close> unique, \<open>event_id\<close> primary and \<open>operation_id\<close>
  unique); a statement that violates a key raises, and an operation that raises is rolled
  back. A time column holds an instant without its zone, a result column the JSON document of
  the result, which is validated again when it is read.
\<close>

section \<open>Records\<close>

datatype outcome_status = OutStarted | OutAccepted | OutCompleted | OutFailed | OutUnknown

fun outcome_status_value :: "outcome_status \<Rightarrow> string" where
  "outcome_status_value OutStarted = ''started''"
| "outcome_status_value OutAccepted = ''accepted''"
| "outcome_status_value OutCompleted = ''completed''"
| "outcome_status_value OutFailed = ''failed''"
| "outcome_status_value OutUnknown = ''outcome_unknown''"

record outcome =
  oc_operation :: string
  oc_request :: string
  oc_scope :: string
  oc_hash :: string
  oc_capability :: string
  oc_major :: int
  oc_tenant :: string
  oc_consumer_scope :: string
  oc_actor :: string
  oc_consumer_type :: string
  oc_consumer :: string
  oc_instance :: "string option"
  oc_policy :: string
  oc_status :: outcome_status
  oc_result :: "cap_result option"
  oc_started :: timestamp
  oc_completed :: "timestamp option"

record audit_event =
  au_id :: string
  au_operation :: string
  au_type :: string
  au_payload :: jobj
  au_created :: timestamp
  au_delivered :: "timestamp option"

datatype outcome_error = OutcomeConflict string | IntegrityError string | InvalidRow | MissingKey

definition audit_id :: "string \<Rightarrow> string" where
  "audit_id operation = ''audit_'' @ operation"

text \<open>The payload of the audit events of \<open>complete\<close> and \<open>reconcile_completed\<close>.\<close>

definition audit_payload :: "outcome \<Rightarrow> outcome_status \<Rightarrow> jobj" where
  "audit_payload r status =
     [(''capability_id'', JStr (oc_capability r)), (''major_version'', JInt (oc_major r)),
      (''request_id'', JStr (oc_request r)), (''tenant_id'', JStr (oc_tenant r)),
      (''consumer_scope'', JStr (oc_consumer_scope r)), (''actor_id'', JStr (oc_actor r)),
      (''consumer_type'', JStr (oc_consumer_type r)), (''consumer_id'', JStr (oc_consumer r)),
      (''consumer_instance_id'', case oc_instance r of None \<Rightarrow> JNull | Some i \<Rightarrow> JStr i),
      (''policy_version'', JStr (oc_policy r)), (''payload_hash'', JStr (oc_hash r)),
      (''status'', JStr (outcome_status_value status))]"

text \<open>\<open>mark_unknown\<close> leaves the consumer scope out; the SQL store adds the operation.\<close>

definition unknown_payload :: "outcome \<Rightarrow> jobj" where
  "unknown_payload r = AList.delete ''consumer_scope'' (audit_payload r OutUnknown)"

definition audit_of :: "outcome \<Rightarrow> jobj \<Rightarrow> timestamp \<Rightarrow> audit_event" where
  "audit_of r payload now =
     \<lparr>au_id = audit_id (oc_operation r), au_operation = oc_operation r,
      au_type = ''capability.outcome'', au_payload = payload, au_created = now,
      au_delivered = None\<rparr>"

section \<open>Durable results\<close>

text \<open>
  A letter of \<open>[a-z]\<close> under \<open>re.IGNORECASE\<close>: an ASCII letter or one of U+0130, U+0131, U+017F and
  U+212A; the rest of the string follows.
\<close>

fun ci_letter :: "string \<Rightarrow> string option" where
  "ci_letter [] = None"
| "ci_letter (c # s) =
     (if is_lower c \<or> is_upper c then Some s
      else if c = CHR 0xC4 then
        (case s of d # r \<Rightarrow> if d = CHR 0xB0 \<or> d = CHR 0xB1 then Some r else None | [] \<Rightarrow> None)
      else if c = CHR 0xC5 then
        (case s of d # r \<Rightarrow> if d = CHR 0xBF then Some r else None | [] \<Rightarrow> None)
      else if c = CHR 0xE2 then
        (case s of d # e # r \<Rightarrow> if d = CHR 0x84 \<and> e = CHR 0xAA then Some r else None | _ \<Rightarrow> None)
      else None)"

definition scheme_char :: "string \<Rightarrow> string option" where
  "scheme_char s = (case ci_letter s of
     Some r \<Rightarrow> Some r
   | None \<Rightarrow> (case s of c # r \<Rightarrow> if is_digit c \<or> c \<in> set ''+.-'' then Some r else None | [] \<Rightarrow> None))"

lemma ci_letter_shorter: "ci_letter s = Some r \<Longrightarrow> length r < length s"
  by (induction s rule: ci_letter.induct) (auto split: if_splits list.splits)

lemma scheme_char_shorter: "scheme_char s = Some r \<Longrightarrow> length r < length s"
  by (auto simp: scheme_char_def ci_letter_shorter split: option.splits list.splits if_splits)

function skip_scheme :: "string \<Rightarrow> string" where
  "skip_scheme s = (case scheme_char s of None \<Rightarrow> s | Some r \<Rightarrow> skip_scheme r)"
  by pat_completeness auto
termination
  by (relation "measure length") (auto dest: scheme_char_shorter)

declare skip_scheme.simps [simp del]

text \<open>\<open>^[a-z][a-z0-9+.-]*:\<close> ignoring case; the optional rest of the pattern always matches.\<close>

definition has_scheme :: "string \<Rightarrow> bool" where
  "has_scheme s = (case ci_letter s of None \<Rightarrow> False
                   | Some r \<Rightarrow> str_prefix '':'' (skip_scheme r))"

text \<open>A Windows path: a drive letter, a colon and a slash.\<close>

fun drive_path :: "string \<Rightarrow> bool" where
  "drive_path (c # d # e # s) =
     ((is_lower c \<or> is_upper c) \<and> d = CHR '':'' \<and> (e = CHR 0x5C \<or> e = CHR ''/''))"
| "drive_path _ = False"

definition durable_error :: "capability_error \<Rightarrow> capability_error" where
  "durable_error e = e\<lparr>er_message := ''Capability invocation failed.'', er_details := []\<rparr>"

definition durable_evidence :: "evidence_ref list \<Rightarrow> evidence_ref list" where
  "durable_evidence items =
     map (\<lambda>e. e\<lparr>ev_summary := []\<rparr>)
       (filter (\<lambda>e. has_scheme (ev_reference e) \<and> \<not> drive_path (ev_reference e)) items)"

definition durable_result :: "cap_result \<Rightarrow> bool \<Rightarrow> cap_result" where
  "durable_result r preserve =
     r\<lparr>rs_data := (if preserve then rs_data r else JNull),
       rs_error := map_option durable_error (rs_error r),
       rs_evidence := durable_evidence (rs_evidence r), rs_warnings := []\<rparr>"

lemma durable_error_idem [simp]: "durable_error (durable_error e) = durable_error e"
  by (simp add: durable_error_def)

lemma durable_evidence_idem [simp]: "durable_evidence (durable_evidence es) = durable_evidence es"
  by (induction es) (auto simp: durable_evidence_def)

lemma durable_result_idem:
  "durable_result (durable_result r preserve) preserve = durable_result r preserve"
  by (simp add: durable_result_def option.map_comp comp_def)

lemma durable_result_ok: "result_ok r \<Longrightarrow> result_ok (durable_result r preserve)"
  by (cases "rs_status r") (simp_all add: result_ok_iff durable_result_def)

section \<open>The in-memory store\<close>

record outcome_memory =
  om_records :: "(string \<times> outcome) list"
  om_scopes :: "(string \<times> string) list"
  om_outbox :: "(string \<times> audit_event) list"

definition om_empty :: outcome_memory where
  "om_empty = \<lparr>om_records = [], om_scopes = [], om_outbox = []\<rparr>"

definition om_begin :: "outcome_memory \<Rightarrow> outcome \<Rightarrow> outcome_error + outcome \<times> outcome_memory" where
  "om_begin s r =
     (case map_of (om_scopes s) (oc_scope r) of
        Some existing_id \<Rightarrow>
          (case map_of (om_records s) existing_id of
             None \<Rightarrow> Inl MissingKey
           | Some existing \<Rightarrow>
               if oc_hash existing \<noteq> oc_hash r
               then Inl (OutcomeConflict ''idempotency_payload_conflict'')
               else Inr (existing, s))
      | None \<Rightarrow>
          Inr (r, s\<lparr>om_records := AList.update (oc_operation r) r (om_records s),
                    om_scopes := AList.update (oc_scope r) (oc_operation r) (om_scopes s)\<rparr>))"

definition om_put :: "outcome_memory \<Rightarrow> outcome \<Rightarrow> audit_event \<Rightarrow> outcome_memory" where
  "om_put s r event =
     s\<lparr>om_records := AList.update (oc_operation r) r (om_records s),
       om_outbox := AList.update (au_id event) event (om_outbox s)\<rparr>"

definition om_get :: "outcome_memory \<Rightarrow> string \<Rightarrow> outcome_error + outcome" where
  "om_get s operation = (case map_of (om_records s) operation of
     None \<Rightarrow> Inl (OutcomeConflict ''outcome_not_found'') | Some r \<Rightarrow> Inr r)"

text \<open>The two clock readings of a completion are the arguments \<open>now\<close> and \<open>later\<close>.\<close>

definition finished :: "outcome \<Rightarrow> outcome_status \<Rightarrow> cap_result \<Rightarrow> timestamp \<Rightarrow> outcome" where
  "finished r status result now =
     r\<lparr>oc_status := status, oc_result := Some result, oc_completed := Some now\<rparr>"

definition om_complete ::
  "outcome_memory \<Rightarrow> string \<Rightarrow> cap_result \<Rightarrow> bool \<Rightarrow> timestamp \<Rightarrow> timestamp \<Rightarrow>
   outcome_error + outcome \<times> outcome_memory" where
  "om_complete s operation result preserve now later =
     bindr (om_get s operation) (\<lambda>r.
       let durable = durable_result result preserve in
       if oc_status r \<noteq> OutStarted then
         (if oc_result r = Some durable then Inr (r, s)
          else Inl (OutcomeConflict ''outcome_already_final''))
       else
         let status = (if rs_ok result then OutCompleted else OutFailed);
             done = finished r status durable now in
         Inr (done, om_put s done (audit_of r (audit_payload r status) later)))"

definition om_find :: "outcome_memory \<Rightarrow> string \<Rightarrow> outcome option" where
  "om_find s scope = (case map_of (om_scopes s) scope of
     None \<Rightarrow> None
   | Some operation \<Rightarrow> if operation = [] then None else map_of (om_records s) operation)"

definition om_mark_unknown ::
  "outcome_memory \<Rightarrow> string \<Rightarrow> cap_result \<Rightarrow> timestamp \<Rightarrow> timestamp \<Rightarrow>
   outcome_error + outcome \<times> outcome_memory" where
  "om_mark_unknown s operation result now later =
     bindr (om_get s operation) (\<lambda>r.
       let unknown = finished r OutUnknown (durable_result result False) now in
       Inr (unknown, om_put s unknown (audit_of r (unknown_payload r) later)))"

definition om_reconcile ::
  "outcome_memory \<Rightarrow> string \<Rightarrow> cap_result \<Rightarrow> timestamp \<Rightarrow>
   outcome_error + outcome \<times> outcome_memory" where
  "om_reconcile s operation result now =
     bindr (om_get s operation) (\<lambda>r.
       if oc_status r = OutCompleted then Inr (r, s)
       else if oc_status r \<notin> {OutStarted, OutUnknown}
       then Inl (OutcomeConflict ''outcome_already_final'')
       else
         let done = finished r OutCompleted (durable_result result False) now in
         Inr (done, om_put s done (audit_of r (audit_payload r OutCompleted) now)))"

definition om_pending :: "outcome_memory \<Rightarrow> audit_event list" where
  "om_pending s = filter (\<lambda>e. au_delivered e = None) (map snd (om_outbox s))"

text \<open>\<open>sender e\<close> is whether the callback returns without an exception.\<close>

fun om_deliver_events ::
  "(audit_event \<Rightarrow> bool) \<Rightarrow> timestamp \<Rightarrow> audit_event list \<Rightarrow> outcome_memory \<Rightarrow> nat \<times> outcome_memory"
  where
  "om_deliver_events sender now [] s = (0, s)"
| "om_deliver_events sender now (e # es) s =
     (if \<not> sender e then om_deliver_events sender now es s
      else (case map_of (om_outbox s) (au_id e) of
              Some current \<Rightarrow>
                if au_delivered current = None then
                  (case om_deliver_events sender now es
                          (s\<lparr>om_outbox := AList.update (au_id e)
                               (current\<lparr>au_delivered := Some now\<rparr>) (om_outbox s)\<rparr>) of
                     (n, s') \<Rightarrow> (Suc n, s'))
                else om_deliver_events sender now es s
            | None \<Rightarrow> om_deliver_events sender now es s))"

definition om_deliver :: "outcome_memory \<Rightarrow> (audit_event \<Rightarrow> bool) \<Rightarrow> timestamp \<Rightarrow> nat \<times> outcome_memory" where
  "om_deliver s sender now = om_deliver_events sender now (om_pending s) s"

definition om_snapshot :: "outcome_memory \<Rightarrow> outcome list" where
  "om_snapshot s = sort_key oc_operation (map snd (om_records s))"

section \<open>The SQL store\<close>

fun to_column :: "timestamp \<Rightarrow> timestamp" where
  "to_column (Aware t) = Naive t"
| "to_column (Naive t) = Naive t"

fun as_utc :: "timestamp \<Rightarrow> timestamp" where
  "as_utc (Naive t) = Aware t"
| "as_utc (Aware t) = Aware t"

record audit_row =
  aw_event :: audit_event
  aw_attempts :: nat
  aw_error :: "string option"

record outcome_tables =
  ot_outcomes :: "outcome list"
  ot_outbox :: "audit_row list"

definition ot_empty :: outcome_tables where
  "ot_empty = \<lparr>ot_outcomes = [], ot_outbox = []\<rparr>"

definition row_of :: "outcome \<Rightarrow> outcome" where
  "row_of r = r\<lparr>oc_started := to_column (oc_started r),
                oc_completed := map_option to_column (oc_completed r)\<rparr>"

text \<open>\<open>_record_from_row\<close>: the stored result is validated again.\<close>

definition record_from_row :: "outcome \<Rightarrow> outcome_error + outcome" where
  "record_from_row row =
     (if opt_ok result_ok (oc_result row)
      then Inr (row\<lparr>oc_started := as_utc (oc_started row),
                    oc_completed := map_option as_utc (oc_completed row)\<rparr>)
      else Inl InvalidRow)"

definition row_by_operation :: "outcome_tables \<Rightarrow> string \<Rightarrow> outcome option" where
  "row_by_operation s operation = List.find (\<lambda>r. oc_operation r = operation) (ot_outcomes s)"

definition row_by_scope :: "outcome_tables \<Rightarrow> string \<Rightarrow> outcome option" where
  "row_by_scope s scope = List.find (\<lambda>r. oc_scope r = scope) (ot_outcomes s)"

definition ot_begin :: "outcome_tables \<Rightarrow> outcome \<Rightarrow> outcome_error + outcome \<times> outcome_tables" where
  "ot_begin s r =
     (case row_by_scope s (oc_scope r) of
        Some row \<Rightarrow> bindr (record_from_row row) (\<lambda>existing.
          if oc_hash existing \<noteq> oc_hash r
          then Inl (OutcomeConflict ''idempotency_payload_conflict'')
          else Inr (existing, s))
      | None \<Rightarrow>
          if row_by_operation s (oc_operation r) \<noteq> None
          then Inl (IntegrityError ''PRIMARY'')
          else Inr (r, s\<lparr>ot_outcomes := ot_outcomes s @
                           [row_of (r\<lparr>oc_result := None, oc_completed := None\<rparr>)]\<rparr>))"

definition ot_select :: "outcome_tables \<Rightarrow> string \<Rightarrow> outcome_error + outcome" where
  "ot_select s operation = (case row_by_operation s operation of
     None \<Rightarrow> Inl (OutcomeConflict ''outcome_not_found'') | Some row \<Rightarrow> record_from_row row)"

text \<open>\<open>UPDATE ... SET status, result_json, completed_at WHERE operation_id = ... AND status IN ...\<close>,
  with the number of rows it changes.\<close>

definition ot_update ::
  "outcome_tables \<Rightarrow> string \<Rightarrow> outcome_status list \<Rightarrow> outcome_status \<Rightarrow> cap_result \<Rightarrow> timestamp \<Rightarrow>
   nat \<times> outcome_tables" where
  "ot_update s operation guard status result now =
     (let hit = (\<lambda>r. oc_operation r = operation \<and> oc_status r \<in> set guard) in
      (length (filter hit (ot_outcomes s)),
       s\<lparr>ot_outcomes := map (\<lambda>r. if hit r then finished r status result (to_column now) else r)
                           (ot_outcomes s)\<rparr>))"

definition event_row :: "audit_event \<Rightarrow> audit_row" where
  "event_row e = \<lparr>aw_event = e\<lparr>au_created := to_column (au_created e)\<rparr>, aw_attempts = 0, aw_error = None\<rparr>"

definition ot_insert_event :: "outcome_tables \<Rightarrow> audit_event \<Rightarrow> outcome_error + outcome_tables" where
  "ot_insert_event s e =
     (if list_ex (\<lambda>w. au_id (aw_event w) = au_id e \<or> au_operation (aw_event w) = au_operation e)
           (ot_outbox s)
      then Inl (IntegrityError ''audit_outbox'')
      else Inr (s\<lparr>ot_outbox := ot_outbox s @ [event_row e]\<rparr>))"

text \<open>\<open>INSERT ... ON DUPLICATE KEY UPDATE payload_json, delivered_at = NULL\<close>.\<close>

definition ot_upsert_event :: "outcome_tables \<Rightarrow> audit_event \<Rightarrow> outcome_tables" where
  "ot_upsert_event s e =
     (let same = (\<lambda>w. au_id (aw_event w) = au_id e \<or> au_operation (aw_event w) = au_operation e) in
      if list_ex same (ot_outbox s)
      then s\<lparr>ot_outbox := map (\<lambda>w. if same w
               then w\<lparr>aw_event := (aw_event w)\<lparr>au_payload := au_payload e, au_delivered := None\<rparr>\<rparr>
               else w) (ot_outbox s)\<rparr>
      else s\<lparr>ot_outbox := ot_outbox s @ [event_row e]\<rparr>)"

definition ot_complete ::
  "outcome_tables \<Rightarrow> string \<Rightarrow> cap_result \<Rightarrow> bool \<Rightarrow> timestamp \<Rightarrow> timestamp \<Rightarrow>
   outcome_error + outcome \<times> outcome_tables" where
  "ot_complete s operation result preserve now later =
     bindr (ot_select s operation) (\<lambda>r.
       let durable = durable_result result preserve in
       if oc_status r \<noteq> OutStarted then
         (if oc_result r = Some durable then Inr (r, s)
          else Inl (OutcomeConflict ''outcome_already_final''))
       else
         let status = (if rs_ok result then OutCompleted else OutFailed) in
         (case ot_update s operation [OutStarted] status durable now of (n, s1) \<Rightarrow>
            if n \<noteq> 1 then Inl (OutcomeConflict ''outcome_completion_race'')
            else bindr (ot_insert_event s1 (audit_of r (audit_payload r status) now)) (\<lambda>s2.
                   Inr (finished r status durable now, s2))))"

definition ot_find :: "outcome_tables \<Rightarrow> string \<Rightarrow> outcome_error + outcome option" where
  "ot_find s scope = (case row_by_scope s scope of
     None \<Rightarrow> Inr None | Some row \<Rightarrow> bindr (record_from_row row) (\<lambda>r. Inr (Some r)))"

definition ot_mark_unknown ::
  "outcome_tables \<Rightarrow> string \<Rightarrow> cap_result \<Rightarrow> timestamp \<Rightarrow> timestamp \<Rightarrow>
   outcome_error + outcome \<times> outcome_tables" where
  "ot_mark_unknown s operation result now later =
     bindr (ot_select s operation) (\<lambda>r.
       case ot_update s operation [OutStarted] OutUnknown (durable_result result False) now of
         (n, s1) \<Rightarrow>
           if n \<noteq> 1 then Inl (OutcomeConflict ''outcome_unknown_update_failed'')
           else bindr (ot_insert_event s1
                        (audit_of r ((''operation_id'', JStr operation) # unknown_payload r) now)) (\<lambda>s2.
                bindr (ot_select s2 operation) (\<lambda>r'. Inr (r', s2))))"

definition ot_reconcile ::
  "outcome_tables \<Rightarrow> string \<Rightarrow> cap_result \<Rightarrow> timestamp \<Rightarrow>
   outcome_error + outcome \<times> outcome_tables" where
  "ot_reconcile s operation result now =
     bindr (ot_select s operation) (\<lambda>r.
       let durable = durable_result result False in
       if oc_status r = OutCompleted then Inr (r, s)
       else if oc_status r \<notin> {OutStarted, OutUnknown}
       then Inl (OutcomeConflict ''outcome_already_final'')
       else (case ot_update s operation [OutStarted, OutUnknown] OutCompleted durable now of (n, s1) \<Rightarrow>
         if n \<noteq> 1 then Inl (OutcomeConflict ''outcome_completion_race'')
         else Inr (finished r OutCompleted durable now,
                   ot_upsert_event s1 (audit_of r (audit_payload r OutCompleted) now))))"

definition ot_pending :: "outcome_tables \<Rightarrow> int \<Rightarrow> audit_event list" where
  "ot_pending s limit =
     take (nat (max 1 (min limit 1000)))
       (map (\<lambda>w. (aw_event w)\<lparr>au_created := as_utc (au_created (aw_event w))\<rparr>)
         (sort_key (\<lambda>w. instant (au_created (aw_event w)))
           (filter (\<lambda>w. au_delivered (aw_event w) = None) (ot_outbox s))))"

text \<open>\<open>sender e\<close> is \<open>None\<close> on success, otherwise the name of the exception's class.\<close>

fun ot_deliver_events ::
  "(audit_event \<Rightarrow> string option) \<Rightarrow> timestamp \<Rightarrow> audit_event list \<Rightarrow> outcome_tables \<Rightarrow>
   nat \<times> outcome_tables" where
  "ot_deliver_events sender now [] s = (0, s)"
| "ot_deliver_events sender now (e # es) s =
     (let hit = (\<lambda>w. au_id (aw_event w) = au_id e \<and> au_delivered (aw_event w) = None);
          changed = (\<lambda>f. s\<lparr>ot_outbox := map (\<lambda>w. if hit w then f w else w) (ot_outbox s)\<rparr>) in
      case sender e of
        Some error \<Rightarrow> ot_deliver_events sender now es
          (changed (\<lambda>w. w\<lparr>aw_attempts := Suc (aw_attempts w), aw_error := Some (py_take 128 error)\<rparr>))
      | None \<Rightarrow>
          (case ot_deliver_events sender now es
                  (changed (\<lambda>w. w\<lparr>aw_event := (aw_event w)\<lparr>au_delivered := Some (to_column now)\<rparr>,
                                  aw_attempts := Suc (aw_attempts w), aw_error := None\<rparr>)) of
             (n, s') \<Rightarrow> (n + (if length (filter hit (ot_outbox s)) = 1 then 1 else 0), s')))"

definition ot_deliver ::
  "outcome_tables \<Rightarrow> (audit_event \<Rightarrow> string option) \<Rightarrow> timestamp \<Rightarrow> int \<Rightarrow> nat \<times> outcome_tables" where
  "ot_deliver s sender now limit = ot_deliver_events sender now (ot_pending s limit) s"

end
