(* ===== verification/OutcomeLedger.thy ===== *)
theory OutcomeLedger
  imports Outcomes
begin

text \<open>
  The contract of an outcome store, as the code's \<open>OutcomeStore\<close> protocol uses it, and its two
  implementations. The contract is stated over the view of a store, the finite map from
  operations to outcomes, and the set of audited operations.
\<close>

section \<open>The interface\<close>

record 's outcome_api =
  api_begin :: "'s \<Rightarrow> outcome \<Rightarrow> outcome_error + outcome \<times> 's"
  api_complete :: "'s \<Rightarrow> string \<Rightarrow> cap_result \<Rightarrow> bool \<Rightarrow> timestamp \<Rightarrow> timestamp \<Rightarrow> outcome_error + outcome \<times> 's"
  api_get :: "'s \<Rightarrow> string \<Rightarrow> outcome_error + outcome"
  api_find :: "'s \<Rightarrow> string \<Rightarrow> outcome_error + outcome option"
  api_unknown :: "'s \<Rightarrow> string \<Rightarrow> cap_result \<Rightarrow> timestamp \<Rightarrow> timestamp \<Rightarrow> outcome_error + outcome \<times> 's"
  api_reconcile :: "'s \<Rightarrow> string \<Rightarrow> cap_result \<Rightarrow> timestamp \<Rightarrow> outcome_error + outcome \<times> 's"

definition memory_api :: "outcome_memory outcome_api" where
  "memory_api = \<lparr>api_begin = om_begin, api_complete = om_complete, api_get = om_get,
     api_find = (\<lambda>s scope. Inr (om_find s scope)), api_unknown = om_mark_unknown,
     api_reconcile = om_reconcile\<rparr>"

definition sql_api :: "outcome_tables outcome_api" where
  "sql_api = \<lparr>api_begin = ot_begin, api_complete = ot_complete, api_get = ot_select,
     api_find = ot_find, api_unknown = ot_mark_unknown, api_reconcile = ot_reconcile\<rparr>"

text \<open>A record that an operation may begin with, and a result it may store.\<close>

definition new_outcome :: "outcome \<Rightarrow> bool" where
  "new_outcome r \<longleftrightarrow> oc_operation r \<noteq> [] \<and> oc_status r = OutStarted \<and> oc_result r = None \<and>
     oc_completed r = None \<and> tz_aware (oc_started r)"

definition outcome_ok :: "outcome \<Rightarrow> bool" where
  "outcome_ok r \<longleftrightarrow> oc_operation r \<noteq> [] \<and> tz_aware (oc_started r) \<and> opt_ok tz_aware (oc_completed r) \<and>
     opt_ok result_ok (oc_result r) \<and> (oc_status r = OutStarted \<longleftrightarrow> oc_result r = None)"

type_synonym ledger = "string \<Rightarrow> outcome option"

locale outcome_store =
  fixes api :: "'s outcome_api"
    and view :: "'s \<Rightarrow> ledger"
    and audited :: "'s \<Rightarrow> string \<Rightarrow> bool"
    and inv :: "'s \<Rightarrow> bool"
  assumes key: "inv s \<Longrightarrow> view s operation = Some r \<Longrightarrow> oc_operation r = operation"
    and stored_ok: "inv s \<Longrightarrow> view s operation = Some r \<Longrightarrow> outcome_ok r"
    and scope_unique: "inv s \<Longrightarrow> view s a = Some r \<Longrightarrow> view s b = Some r' \<Longrightarrow> oc_scope r = oc_scope r' \<Longrightarrow> a = b"
    and audit: "inv s \<Longrightarrow> audited s operation \<longleftrightarrow>
      (\<exists>r. view s operation = Some r \<and> oc_status r \<noteq> OutStarted)"
    and get: "inv s \<Longrightarrow> api_get api s operation =
      (case view s operation of None \<Rightarrow> Inl (OutcomeConflict ''outcome_not_found'') | Some r \<Rightarrow> Inr r)"
    and find_some: "inv s \<Longrightarrow> view s operation = Some r \<Longrightarrow> api_find api s (oc_scope r) = Inr (Some r)"
    and find_none: "inv s \<Longrightarrow> (\<And>operation r. view s operation = Some r \<Longrightarrow> oc_scope r \<noteq> scope) \<Longrightarrow>
      api_find api s scope = Inr None"
    and begin_known: "inv s \<Longrightarrow> view s operation = Some e \<Longrightarrow> oc_scope e = oc_scope r \<Longrightarrow>
      api_begin api s r =
        (if oc_hash e \<noteq> oc_hash r then Inl (OutcomeConflict ''idempotency_payload_conflict'')
         else Inr (e, s))"
    and begin_new: "inv s \<Longrightarrow> new_outcome r \<Longrightarrow> view s (oc_operation r) = None \<Longrightarrow>
      (\<And>operation e. view s operation = Some e \<Longrightarrow> oc_scope e \<noteq> oc_scope r) \<Longrightarrow>
      \<exists>s'. api_begin api s r = Inr (r, s') \<and> inv s' \<and> view s' = (view s)(oc_operation r \<mapsto> r)"
    and missing: "inv s \<Longrightarrow> view s operation = None \<Longrightarrow>
      api_complete api s operation result preserve now later = Inl (OutcomeConflict ''outcome_not_found'') \<and>
      api_unknown api s operation result now later = Inl (OutcomeConflict ''outcome_not_found'') \<and>
      api_reconcile api s operation result now = Inl (OutcomeConflict ''outcome_not_found'')"
    and complete_started: "inv s \<Longrightarrow> view s operation = Some r \<Longrightarrow> oc_status r = OutStarted \<Longrightarrow>
      result_ok result \<Longrightarrow> tz_aware now \<Longrightarrow> tz_aware later \<Longrightarrow>
      done = finished r (if rs_ok result then OutCompleted else OutFailed)
               (durable_result result preserve) now \<Longrightarrow>
      \<exists>s'. api_complete api s operation result preserve now later = Inr (done, s') \<and> inv s' \<and>
           view s' = (view s)(operation \<mapsto> done)"
    and complete_final: "inv s \<Longrightarrow> view s operation = Some r \<Longrightarrow> oc_status r \<noteq> OutStarted \<Longrightarrow>
      api_complete api s operation result preserve now later =
        (if oc_result r = Some (durable_result result preserve) then Inr (r, s)
         else Inl (OutcomeConflict ''outcome_already_final''))"
    and unknown_started: "inv s \<Longrightarrow> view s operation = Some r \<Longrightarrow> oc_status r = OutStarted \<Longrightarrow>
      result_ok result \<Longrightarrow> tz_aware now \<Longrightarrow> tz_aware later \<Longrightarrow>
      done = finished r OutUnknown (durable_result result False) now \<Longrightarrow>
      \<exists>s'. api_unknown api s operation result now later = Inr (done, s') \<and> inv s' \<and>
           view s' = (view s)(operation \<mapsto> done)"
    and unknown_late: "inv s \<Longrightarrow> view s operation = Some r \<Longrightarrow> oc_status r \<noteq> OutStarted \<Longrightarrow>
      result_ok result \<Longrightarrow> tz_aware now \<Longrightarrow> tz_aware later \<Longrightarrow>
      done = finished r OutUnknown (durable_result result False) now \<Longrightarrow>
      (\<exists>e. api_unknown api s operation result now later = Inl e) \<or>
      (\<exists>s'. api_unknown api s operation result now later = Inr (done, s') \<and> inv s' \<and>
           view s' = (view s)(operation \<mapsto> done))"
    and reconcile_open: "inv s \<Longrightarrow> view s operation = Some r \<Longrightarrow> oc_status r \<in> {OutStarted, OutUnknown} \<Longrightarrow>
      result_ok result \<Longrightarrow> tz_aware now \<Longrightarrow>
      done = finished r OutCompleted (durable_result result False) now \<Longrightarrow>
      \<exists>s'. api_reconcile api s operation result now = Inr (done, s') \<and> inv s' \<and>
           view s' = (view s)(operation \<mapsto> done)"
    and reconcile_final: "inv s \<Longrightarrow> view s operation = Some r \<Longrightarrow> oc_status r \<notin> {OutStarted, OutUnknown} \<Longrightarrow>
      api_reconcile api s operation result now =
        (if oc_status r = OutCompleted then Inr (r, s)
         else Inl (OutcomeConflict ''outcome_already_final''))"

section \<open>The in-memory store\<close>

definition om_view :: "outcome_memory \<Rightarrow> ledger" where
  "om_view s = map_of (om_records s)"

definition om_audited :: "outcome_memory \<Rightarrow> string \<Rightarrow> bool" where
  "om_audited s operation \<longleftrightarrow> map_of (om_outbox s) (audit_id operation) \<noteq> None"

definition om_keys_ok :: "outcome_memory \<Rightarrow> bool" where
  "om_keys_ok s \<longleftrightarrow> (\<forall>operation r. om_view s operation = Some r \<longrightarrow>
     oc_operation r = operation \<and> outcome_ok r)"

definition om_scopes_ok :: "outcome_memory \<Rightarrow> bool" where
  "om_scopes_ok s \<longleftrightarrow> (\<forall>scope operation. map_of (om_scopes s) scope = Some operation \<longleftrightarrow>
     (\<exists>r. om_view s operation = Some r \<and> oc_scope r = scope))"

definition om_audit_ok :: "outcome_memory \<Rightarrow> bool" where
  "om_audit_ok s \<longleftrightarrow> (\<forall>operation. om_audited s operation \<longleftrightarrow>
     (\<exists>r. om_view s operation = Some r \<and> oc_status r \<noteq> OutStarted))"

definition om_inv :: "outcome_memory \<Rightarrow> bool" where
  "om_inv s \<longleftrightarrow> om_keys_ok s \<and> om_scopes_ok s \<and> om_audit_ok s \<and> distinct (map fst (om_records s)) \<and>
     distinct (map fst (om_outbox s))"

lemma om_view_put:
  "oc_operation r = operation \<Longrightarrow> om_view (om_put s r e) = (om_view s)(operation \<mapsto> r)"
  by (auto simp: om_view_def om_put_def update_conv)

lemma om_inv_put:
  assumes inv: "om_inv s" and r: "om_view s operation = Some r"
    and r': "r' = finished r status result now" "status \<noteq> OutStarted" "result_ok result" "tz_aware now"
    and e: "au_id e = audit_id operation"
  shows "om_inv (om_put s r' e)"
proof -
  have op: "oc_operation r = operation" "outcome_ok r" using inv r by (auto simp: om_inv_def om_keys_ok_def)
  then have r'_ok: "outcome_ok r'" "oc_operation r' = operation" "oc_scope r' = oc_scope r"
    "oc_status r' \<noteq> OutStarted"
    using r' by (auto simp: outcome_ok_def finished_def)
  note v = om_view_put [OF r'_ok(2), of s e]
  have "om_keys_ok (om_put s r' e)"
    using inv r'_ok v by (auto simp: om_inv_def om_keys_ok_def)
  moreover have "om_scopes_ok (om_put s r' e)"
    unfolding om_scopes_ok_def v
  proof (intro allI)
    fix scope op'
    have "map_of (om_scopes s) scope = Some op' \<longleftrightarrow> (\<exists>x. om_view s op' = Some x \<and> oc_scope x = scope)"
      using inv by (simp add: om_inv_def om_scopes_ok_def)
    then show "map_of (om_scopes (om_put s r' e)) scope = Some op' \<longleftrightarrow>
      (\<exists>x. ((om_view s)(operation \<mapsto> r')) op' = Some x \<and> oc_scope x = scope)"
      using r r'_ok by (auto simp: om_put_def)
  qed
  moreover have "om_audit_ok (om_put s r' e)"
    unfolding om_audit_ok_def v
  proof (intro allI)
    fix op'
    have "om_audited s op' \<longleftrightarrow> (\<exists>x. om_view s op' = Some x \<and> oc_status x \<noteq> OutStarted)"
      using inv by (simp add: om_inv_def om_audit_ok_def)
    then show "om_audited (om_put s r' e) op' \<longleftrightarrow>
      (\<exists>x. ((om_view s)(operation \<mapsto> r')) op' = Some x \<and> oc_status x \<noteq> OutStarted)"
      using r'_ok e by (auto simp: om_put_def om_audited_def update_conv audit_id_def)
  qed
  moreover have "distinct (map fst (om_records (om_put s r' e)))" "distinct (map fst (om_outbox (om_put s r' e)))"
    using inv by (auto simp: om_inv_def om_put_def distinct_update)
  ultimately show ?thesis by (simp add: om_inv_def)
qed

lemma om_finish:
  assumes "om_inv s" and "om_view s operation = Some r" and "status \<noteq> OutStarted"
    and "result_ok result" and "tz_aware now"
  shows "\<exists>s'. Inr (finished r status (durable_result result preserve) now,
                om_put s (finished r status (durable_result result preserve) now) (audit_of r p t)) =
              Inr (finished r status (durable_result result preserve) now, s') \<and> om_inv s' \<and>
              om_view s' = (om_view s)(operation \<mapsto> finished r status (durable_result result preserve) now)"
proof -
  have op: "oc_operation r = operation" using assms(1,2) by (auto simp: om_inv_def om_keys_ok_def)
  have "om_inv (om_put s (finished r status (durable_result result preserve) now) (audit_of r p t))"
    by (rule om_inv_put [OF assms(1,2) refl assms(3) _ assms(5)])
      (simp_all add: durable_result_ok assms(4) audit_of_def op)
  then show ?thesis using om_view_put [of _ operation] op by (auto simp: finished_def)
qed

lemma om_get_view: "om_get s operation =
  (case om_view s operation of None \<Rightarrow> Inl (OutcomeConflict ''outcome_not_found'') | Some r \<Rightarrow> Inr r)"
  by (simp add: om_get_def om_view_def)

lemma om_scope_lookup:
  assumes "om_inv s"
  shows "map_of (om_scopes s) scope = Some operation \<longleftrightarrow>
           (\<exists>r. om_view s operation = Some r \<and> oc_scope r = scope)"
  using assms by (simp add: om_inv_def om_scopes_ok_def)

lemma om_begin_new:
  assumes inv: "om_inv s" and r: "new_outcome r" "om_view s (oc_operation r) = None"
    and fresh: "\<And>operation e. om_view s operation = Some e \<Longrightarrow> oc_scope e \<noteq> oc_scope r"
  shows "\<exists>s'. om_begin s r = Inr (r, s') \<and> om_inv s' \<and> om_view s' = (om_view s)(oc_operation r \<mapsto> r)"
proof -
  let ?s = "s\<lparr>om_records := AList.update (oc_operation r) r (om_records s),
              om_scopes := AList.update (oc_scope r) (oc_operation r) (om_scopes s)\<rparr>"
  have none: "map_of (om_scopes s) (oc_scope r) = None"
    using om_scope_lookup [OF inv, of "oc_scope r"] fresh by (metis option.exhaust)
  then have run: "om_begin s r = Inr (r, ?s)" by (simp add: om_begin_def)
  have v: "om_view ?s = (om_view s)(oc_operation r \<mapsto> r)" by (simp add: om_view_def update_conv')
  have "om_keys_ok ?s" using inv r by (auto simp: om_inv_def om_keys_ok_def v new_outcome_def outcome_ok_def)
  moreover have "om_scopes_ok ?s"
    unfolding om_scopes_ok_def v
  proof (intro allI)
    fix scope op'
    show "map_of (om_scopes ?s) scope = Some op' \<longleftrightarrow>
      (\<exists>x. ((om_view s)(oc_operation r \<mapsto> r)) op' = Some x \<and> oc_scope x = scope)"
      using om_scope_lookup [OF inv, of scope op'] fresh r(2) by (auto simp: update_conv)
  qed
  moreover have "om_audit_ok ?s"
    unfolding om_audit_ok_def v
  proof (intro allI)
    fix op'
    have "om_audited s op' \<longleftrightarrow> (\<exists>x. om_view s op' = Some x \<and> oc_status x \<noteq> OutStarted)"
      using inv by (simp add: om_inv_def om_audit_ok_def)
    moreover have "om_audited ?s op' = om_audited s op'" by (simp add: om_audited_def)
    ultimately show "om_audited ?s op' \<longleftrightarrow>
      (\<exists>x. ((om_view s)(oc_operation r \<mapsto> r)) op' = Some x \<and> oc_status x \<noteq> OutStarted)"
      using r by (auto simp: new_outcome_def)
  qed
  ultimately have "om_inv ?s" using inv by (simp add: om_inv_def distinct_update)
  then show ?thesis using run v by blast
qed

interpretation memory_outcomes: outcome_store memory_api om_view om_audited om_inv
proof (unfold_locales, goal_cases)
  case (1 s operation r)
  then show ?case by (simp add: om_inv_def om_keys_ok_def)
next
  case (2 s operation r)
  then show ?case by (simp add: om_inv_def om_keys_ok_def)
next
  case (3 s a r b r')
  then show ?case using om_scope_lookup by (metis option.inject)
next
  case (4 s operation)
  then show ?case by (simp add: om_inv_def om_audit_ok_def)
next
  case (5 s operation)
  then show ?case by (simp add: memory_api_def om_get_view)
next
  case (6 s operation r)
  then have "map_of (om_scopes s) (oc_scope r) = Some operation" "operation \<noteq> []"
    using om_scope_lookup by (auto simp: om_inv_def om_keys_ok_def outcome_ok_def)
  then show ?case using 6 by (simp add: memory_api_def om_find_def om_view_def)
next
  case (7 s scope)
  then have "map_of (om_scopes s) scope = None" using om_scope_lookup by (metis option.exhaust)
  then show ?case by (simp add: memory_api_def om_find_def)
next
  case (8 s operation e r)
  then have "map_of (om_scopes s) (oc_scope r) = Some operation" using om_scope_lookup by auto
  then show ?case using 8 by (simp add: memory_api_def om_begin_def om_view_def)
next
  case (9 s r)
  then show ?case using om_begin_new by (simp add: memory_api_def)
next
  case (10 s operation result preserve now later)
  then show ?case
    by (simp add: memory_api_def om_complete_def om_mark_unknown_def om_reconcile_def om_get_view)
next
  case (11 s operation r result now later d preserve)
  then show ?case using om_finish [of s operation r _ result now preserve _ later]
    by (simp add: memory_api_def om_complete_def om_get_view Let_def)
next
  case (12 s operation r result preserve now later)
  then show ?case by (simp add: memory_api_def om_complete_def om_get_view)
next
  case (13 s operation r result now later d)
  then show ?case using om_finish [of s operation r _ result now False _ later]
    by (simp add: memory_api_def om_mark_unknown_def om_get_view Let_def)
next
  case (14 s operation r result now later d)
  then show ?case using om_finish [of s operation r _ result now False _ later]
    by (simp add: memory_api_def om_mark_unknown_def om_get_view Let_def)
next
  case (15 s operation r result now d)
  then show ?case using om_finish [of s operation r _ result now False _ now]
    by (auto simp: memory_api_def om_reconcile_def om_get_view Let_def)
next
  case (16 s operation r result now)
  then show ?case by (simp add: memory_api_def om_reconcile_def om_get_view)
qed

section \<open>The SQL store\<close>

definition read_row :: "outcome \<Rightarrow> outcome" where
  "read_row row = row\<lparr>oc_started := as_utc (oc_started row),
                      oc_completed := map_option as_utc (oc_completed row)\<rparr>"

definition ot_view :: "outcome_tables \<Rightarrow> ledger" where
  "ot_view s operation = map_option read_row (row_by_operation s operation)"

definition event_operation :: "audit_row \<Rightarrow> string" where
  "event_operation w = au_operation (aw_event w)"

definition ot_audited :: "outcome_tables \<Rightarrow> string \<Rightarrow> bool" where
  "ot_audited s operation \<longleftrightarrow> operation \<in> set (map event_operation (ot_outbox s))"

fun naive :: "timestamp \<Rightarrow> bool" where
  "naive (Naive _) = True"
| "naive (Aware _) = False"

definition row_ok :: "outcome \<Rightarrow> bool" where
  "row_ok r \<longleftrightarrow> oc_operation r \<noteq> [] \<and> naive (oc_started r) \<and> opt_ok naive (oc_completed r) \<and>
     opt_ok result_ok (oc_result r) \<and> (oc_status r = OutStarted \<longleftrightarrow> oc_result r = None)"

definition ot_rows_ok :: "outcome list \<Rightarrow> bool" where
  "ot_rows_ok rows \<longleftrightarrow> distinct (map oc_operation rows) \<and> distinct (map oc_scope rows) \<and>
     (\<forall>r\<in>set rows. row_ok r)"

definition ot_events_ok :: "audit_row list \<Rightarrow> bool" where
  "ot_events_ok events \<longleftrightarrow> distinct (map event_operation events) \<and>
     (\<forall>w\<in>set events. au_id (aw_event w) = audit_id (event_operation w))"

definition ot_audit_ok :: "outcome_tables \<Rightarrow> bool" where
  "ot_audit_ok s \<longleftrightarrow> (\<forall>operation. ot_audited s operation \<longleftrightarrow>
     (\<exists>r\<in>set (ot_outcomes s). oc_operation r = operation \<and> oc_status r \<noteq> OutStarted))"

definition ot_inv :: "outcome_tables \<Rightarrow> bool" where
  "ot_inv s \<longleftrightarrow> ot_rows_ok (ot_outcomes s) \<and> ot_events_ok (ot_outbox s) \<and> ot_audit_ok s"

lemma find_distinct:
  "distinct (map f xs) \<Longrightarrow> List.find (\<lambda>x. f x = k) xs = Some x \<longleftrightarrow> x \<in> set xs \<and> f x = k"
  by (induction xs) auto

lemma find_None: "List.find (\<lambda>x. f x = k) xs = None \<longleftrightarrow> k \<notin> set (map f xs)"
  by (auto simp: find_None_iff)

lemma filter_distinct_key:
  "distinct (map f xs) \<Longrightarrow> x \<in> set xs \<Longrightarrow> P x \<Longrightarrow> filter (\<lambda>y. f y = f x \<and> P y) xs = [x]"
proof (induction xs)
  case (Cons y xs)
  then show ?case
  proof (cases "x = y")
    case True
    then have "filter (\<lambda>z. f z = f y \<and> P z) xs = []" using Cons.prems
      by (auto simp: filter_empty_conv) (metis image_eqI)
    then show ?thesis using True Cons.prems by simp
  next
    case False
    then have "f y \<noteq> f x" using Cons.prems by auto
    then show ?thesis using False Cons by auto
  qed
qed simp

lemma as_utc_to_column [simp]: "tz_aware t \<Longrightarrow> as_utc (to_column t) = t"
  by (cases t) auto

lemma naive_to_column [simp]: "naive (to_column t)"
  by (cases t) auto

lemma read_row_simps [simp]:
  "oc_operation (read_row r) = oc_operation r" "oc_scope (read_row r) = oc_scope r"
  "oc_status (read_row r) = oc_status r" "oc_hash (read_row r) = oc_hash r"
  "oc_result (read_row r) = oc_result r"
  by (simp_all add: read_row_def)

lemma record_from_row_ok: "row_ok r \<Longrightarrow> record_from_row r = Inr (read_row r)"
  by (simp add: record_from_row_def row_ok_def read_row_def)

lemma tz_aware_as_utc [simp]: "tz_aware (as_utc t)"
  by (cases t) auto

lemma read_row_ok: "row_ok r \<Longrightarrow> outcome_ok (read_row r)"
  by (cases "oc_completed r") (auto simp: row_ok_def outcome_ok_def read_row_def)

lemma read_row_finished:
  "tz_aware now \<Longrightarrow> read_row (finished r status result (to_column now)) =
     finished (read_row r) status result now"
  by (simp add: read_row_def finished_def)

lemma ot_view_Some:
  assumes "ot_inv s"
  shows "ot_view s operation = Some r \<longleftrightarrow>
           (\<exists>row\<in>set (ot_outcomes s). oc_operation row = operation \<and> r = read_row row)"
  using assms find_distinct [of oc_operation "ot_outcomes s" operation]
  by (auto simp: ot_view_def row_by_operation_def ot_inv_def ot_rows_ok_def)

lemma ot_select_view:
  assumes "ot_inv s"
  shows "ot_select s operation = (case ot_view s operation of
           None \<Rightarrow> Inl (OutcomeConflict ''outcome_not_found'') | Some r \<Rightarrow> Inr r)"
proof (cases "row_by_operation s operation")
  case (Some row)
  then have "row \<in> set (ot_outcomes s)" by (auto simp: row_by_operation_def find_Some_iff)
  then have "row_ok row" using assms by (auto simp: ot_inv_def ot_rows_ok_def)
  then show ?thesis using Some by (simp add: ot_select_def ot_view_def record_from_row_ok)
qed (simp add: ot_select_def ot_view_def)

lemma ot_scope_row:
  assumes "ot_inv s"
  shows "row_by_scope s scope = Some row \<longleftrightarrow> row \<in> set (ot_outcomes s) \<and> oc_scope row = scope"
  using assms find_distinct [of oc_scope "ot_outcomes s" scope]
  by (auto simp: row_by_scope_def ot_inv_def ot_rows_ok_def)

lemma ot_scope_none:
  assumes "ot_inv s" and "\<And>operation r. ot_view s operation = Some r \<Longrightarrow> oc_scope r \<noteq> scope"
  shows "row_by_scope s scope = None"
proof (rule ccontr)
  assume "row_by_scope s scope \<noteq> None"
  then obtain row where "row \<in> set (ot_outcomes s)" "oc_scope row = scope"
    using ot_scope_row [OF assms(1)] by blast
  then show False using assms(2) [of "oc_operation row" "read_row row"] ot_view_Some [OF assms(1)] by auto
qed

text \<open>One update statement changes exactly the row of the operation, when its status allows it.\<close>

definition finish_rows :: "outcome_tables \<Rightarrow> string \<Rightarrow> outcome_status list \<Rightarrow> outcome_status \<Rightarrow>
    cap_result \<Rightarrow> timestamp \<Rightarrow> outcome list" where
  "finish_rows s operation guard status result now =
     map (\<lambda>r. if oc_operation r = operation \<and> oc_status r \<in> set guard
              then finished r status result (to_column now) else r) (ot_outcomes s)"

lemma ot_update_one:
  assumes "ot_inv s" and "row \<in> set (ot_outcomes s)" and "oc_status row \<in> set guard"
  shows "ot_update s (oc_operation row) guard status result now =
           (1, s\<lparr>ot_outcomes := finish_rows s (oc_operation row) guard status result now\<rparr>)"
proof -
  have "filter (\<lambda>y. oc_operation y = oc_operation row \<and> oc_status y \<in> set guard) (ot_outcomes s) = [row]"
    using assms filter_distinct_key [of oc_operation "ot_outcomes s" row "\<lambda>y. oc_status y \<in> set guard"]
    by (simp add: ot_inv_def ot_rows_ok_def)
  then show ?thesis by (simp add: ot_update_def finish_rows_def)
qed

lemma finish_rows_keys:
  "map oc_operation (finish_rows s op guard status result now) = map oc_operation (ot_outcomes s)"
  "map oc_scope (finish_rows s op guard status result now) = map oc_scope (ot_outcomes s)"
  by (simp_all add: finish_rows_def finished_def comp_def if_distrib cong: if_cong)

lemma finish_rows_ok:
  assumes "ot_inv s" and "status \<noteq> OutStarted" and "result_ok result"
  shows "ot_rows_ok (finish_rows s op guard status result now)"
proof -
  have "row_ok r" if "r \<in> set (finish_rows s op guard status result now)" for r
    using that assms by (auto simp: finish_rows_def ot_inv_def ot_rows_ok_def row_ok_def finished_def)
  then show ?thesis using assms(1) by (simp add: ot_rows_ok_def finish_rows_keys ot_inv_def)
qed

lemma finish_rows_view:
  assumes inv: "ot_inv s" and row: "row \<in> set (ot_outcomes s)" and guard: "oc_status row \<in> set guard"
    and now: "tz_aware now"
    and outcomes: "ot_outcomes t = finish_rows s (oc_operation row) guard status result now"
  shows "ot_view t = (ot_view s)(oc_operation row \<mapsto> finished (read_row row) status result now)"
proof
  fix op
  have t_op: "row_by_operation t op = List.find (\<lambda>r. oc_operation r = op)
      (finish_rows s (oc_operation row) guard status result now)"
    by (simp add: row_by_operation_def outcomes)
  show "ot_view t op = ((ot_view s)(oc_operation row \<mapsto> finished (read_row row) status result now)) op"
  proof (cases "op = oc_operation row")
    case True
    have "finished row status result (to_column now) \<in> set (ot_outcomes t)"
      using row guard by (force simp: outcomes finish_rows_def)
    moreover have "distinct (map oc_operation (ot_outcomes t))"
      using inv by (simp add: outcomes finish_rows_keys ot_inv_def ot_rows_ok_def)
    ultimately have "row_by_operation t op = Some (finished row status result (to_column now))"
      using True find_distinct [of oc_operation "ot_outcomes t" op]
      by (auto simp: row_by_operation_def finished_def)
    then show ?thesis using True now by (simp add: ot_view_def read_row_finished)
  next
    case False
    have "List.find (\<lambda>r. oc_operation r = op) (map (\<lambda>r. if oc_operation r = oc_operation row \<and> oc_status r \<in> set guard
            then finished r status result (to_column now) else r) rows) =
          List.find (\<lambda>r. oc_operation r = op) rows" for rows
      using False by (induction rows) (auto simp: finished_def)
    then have "row_by_operation t op = row_by_operation s op"
      by (simp only: row_by_operation_def outcomes finish_rows_def)
    then show ?thesis using False by (simp add: ot_view_def)
  qed
qed

lemma finish_audit:
  assumes inv: "ot_inv s" and row: "row \<in> set (ot_outcomes s)" and guard: "oc_status row \<in> set guard"
    and status: "status \<noteq> OutStarted"
    and outcomes: "ot_outcomes t = finish_rows s (oc_operation row) guard status result now"
    and events: "set (map event_operation (ot_outbox t)) =
                   insert (oc_operation row) (set (map event_operation (ot_outbox s)))"
  shows "ot_audit_ok t"
  unfolding ot_audit_ok_def
proof (intro allI)
  fix op
  have s_op: "ot_audited s op \<longleftrightarrow>
      (\<exists>r\<in>set (ot_outcomes s). oc_operation r = op \<and> oc_status r \<noteq> OutStarted)"
    using inv by (simp add: ot_inv_def ot_audit_ok_def)
  have t_op: "ot_audited t op \<longleftrightarrow> op = oc_operation row \<or> ot_audited s op"
    using events by (simp add: ot_audited_def)
  have uniq: "r = row" if "r \<in> set (ot_outcomes s)" "oc_operation r = oc_operation row" for r
    using that row inv by (auto simp: ot_inv_def ot_rows_ok_def distinct_map dest: inj_onD)
  have "(\<exists>r\<in>set (ot_outcomes t). oc_operation r = op \<and> oc_status r \<noteq> OutStarted) \<longleftrightarrow>
        op = oc_operation row \<or>
        (\<exists>r\<in>set (ot_outcomes s). oc_operation r = op \<and> oc_status r \<noteq> OutStarted)"
  proof (cases "op = oc_operation row")
    case True
    have "finished row status result (to_column now) \<in> set (ot_outcomes t)"
      using row guard by (force simp: outcomes finish_rows_def)
    moreover have "oc_operation (finished row status result (to_column now)) = op"
      "oc_status (finished row status result (to_column now)) = status"
      using True by (simp_all add: finished_def)
    ultimately have "\<exists>r\<in>set (ot_outcomes t). oc_operation r = op \<and> oc_status r \<noteq> OutStarted"
      using status by (intro bexI [of _ "finished row status result (to_column now)"]) simp_all
    then show ?thesis using True by simp
  next
    case False
    then show ?thesis
      by (auto simp: outcomes finish_rows_def finished_def split: if_splits)
  qed
  then show "ot_audited t op \<longleftrightarrow>
      (\<exists>r\<in>set (ot_outcomes t). oc_operation r = op \<and> oc_status r \<noteq> OutStarted)"
    using s_op t_op by simp
qed

text \<open>A finished operation whose event is inserted.\<close>

lemma event_row_simps [simp]:
  "event_operation (event_row (audit_of r p t)) = oc_operation r"
  "au_id (aw_event (event_row (audit_of r p t))) = audit_id (oc_operation r)"
  by (simp_all add: event_operation_def event_row_def audit_of_def)

lemma ot_insert_fresh:
  assumes inv: "ot_inv s" and fresh: "\<not> ot_audited s (oc_operation r)" and box: "ot_outbox t = ot_outbox s"
  shows "ot_insert_event t (audit_of r p now) =
           Inr (t\<lparr>ot_outbox := ot_outbox s @ [event_row (audit_of r p now)]\<rparr>)"
proof -
  have "au_id (aw_event w) \<noteq> audit_id (oc_operation r) \<and> au_operation (aw_event w) \<noteq> oc_operation r"
    if "w \<in> set (ot_outbox s)" for w
  proof -
    have "event_operation w \<noteq> oc_operation r" using that fresh by (force simp: ot_audited_def)
    moreover have "au_id (aw_event w) = audit_id (event_operation w)"
      using that inv by (simp add: ot_inv_def ot_events_ok_def)
    ultimately show ?thesis by (simp add: event_operation_def audit_id_def)
  qed
  then show ?thesis using box by (auto simp: ot_insert_event_def list_ex_iff audit_of_def)
qed

lemma ot_finish_insert:
  assumes inv: "ot_inv s" and row: "row \<in> set (ot_outcomes s)" and started: "oc_status row = OutStarted"
    and status: "status \<noteq> OutStarted" and result: "result_ok result" and now: "tz_aware now"
    and op: "operation = oc_operation row"
  shows "\<exists>s2. ot_insert_event (s\<lparr>ot_outcomes := finish_rows s operation [OutStarted] status result now\<rparr>)
               (audit_of (read_row row) p now) = Inr s2 \<and> ot_inv s2 \<and>
             ot_view s2 = (ot_view s)(operation \<mapsto> finished (read_row row) status result now)"
proof -
  let ?s1 = "s\<lparr>ot_outcomes := finish_rows s operation [OutStarted] status result now\<rparr>"
  let ?s2 = "?s1\<lparr>ot_outbox := ot_outbox s @ [event_row (audit_of (read_row row) p now)]\<rparr>"
  have "oc_status r = OutStarted" if "r \<in> set (ot_outcomes s)" "oc_operation r = operation" for r
    using that row started inv op by (auto simp: ot_inv_def ot_rows_ok_def distinct_map dest: inj_onD)
  then have fresh: "\<not> ot_audited s operation"
    using inv by (auto simp: ot_inv_def ot_audit_ok_def)
  have run: "ot_insert_event ?s1 (audit_of (read_row row) p now) = Inr ?s2"
    using ot_insert_fresh [OF inv, of "read_row row" ?s1] fresh op by simp
  have "ot_events_ok (ot_outbox ?s2)"
    using inv fresh op by (auto simp: ot_inv_def ot_events_ok_def ot_audited_def)
  moreover have "ot_audit_ok ?s2"
    by (rule finish_audit [OF inv row, of "[OutStarted]" status]) (simp_all add: started status op)
  ultimately have "ot_inv ?s2"
    using finish_rows_ok [OF inv status result] by (simp add: ot_inv_def)
  moreover have "ot_view ?s2 = (ot_view s)(operation \<mapsto> finished (read_row row) status result now)"
    unfolding op by (rule finish_rows_view [OF inv row, of "[OutStarted]" now]) (simp_all add: started now op)
  ultimately show ?thesis using run by blast
qed

text \<open>A finished operation whose event is inserted or replaced.\<close>

lemma ot_upsert_keys:
  assumes "ot_inv s" and "ot_outbox t = ot_outbox s"
  shows "ot_events_ok (ot_outbox (ot_upsert_event t (audit_of r p now))) \<and>
     set (map event_operation (ot_outbox (ot_upsert_event t (audit_of r p now)))) =
       insert (oc_operation r) (set (map event_operation (ot_outbox s))) \<and>
     ot_outcomes (ot_upsert_event t (audit_of r p now)) = ot_outcomes t"
proof -
  let ?e = "audit_of r p now"
  let ?same = "\<lambda>w. au_id (aw_event w) = au_id ?e \<or> au_operation (aw_event w) = au_operation ?e"
  define f :: "audit_row \<Rightarrow> audit_row" where "f = (\<lambda>w. if ?same w
      then w\<lparr>aw_event := (aw_event w)\<lparr>au_payload := au_payload ?e, au_delivered := None\<rparr>\<rparr> else w)"
  have ev: "ot_events_ok (ot_outbox s)" using assms by (simp add: ot_inv_def)
  have f_op: "event_operation (f w) = event_operation w" "au_id (aw_event (f w)) = au_id (aw_event w)" for w
    by (simp_all add: event_operation_def f_def)
  have same: "?same w \<longleftrightarrow> event_operation w = oc_operation r" if "w \<in> set (ot_outbox s)" for w
    using that ev by (auto simp: ot_events_ok_def audit_of_def audit_id_def event_operation_def)
  show ?thesis
  proof (cases "list_ex ?same (ot_outbox s)")
    case True
    then have up: "ot_upsert_event t ?e = t\<lparr>ot_outbox := map f (ot_outbox s)\<rparr>"
      using assms(2) by (simp add: ot_upsert_event_def Let_def f_def)
    have ops: "map event_operation (map f (ot_outbox s)) = map event_operation (ot_outbox s)"
      using f_op by (simp add: comp_def)
    have "oc_operation r \<in> set (map event_operation (ot_outbox s))"
      using True same by (auto simp: list_ex_iff intro: rev_image_eqI)
    moreover have "ot_events_ok (map f (ot_outbox s))"
      using ev f_op ops by (simp add: ot_events_ok_def del: map_map)
    ultimately show ?thesis unfolding up using ops by (simp del: map_map add: insert_absorb)
  next
    case False
    then have up: "ot_upsert_event t ?e = t\<lparr>ot_outbox := ot_outbox s @ [event_row ?e]\<rparr>"
      using assms(2) by (simp add: ot_upsert_event_def Let_def)
    have "oc_operation r \<notin> set (map event_operation (ot_outbox s))"
      using False same by (auto simp: list_ex_iff)
    then show ?thesis unfolding up using ev by (auto simp: ot_events_ok_def)
  qed
qed

lemma ot_finish_upsert:
  assumes inv: "ot_inv s" and row: "row \<in> set (ot_outcomes s)"
    and guard: "oc_status row \<in> set guard"
    and status: "status \<noteq> OutStarted" and result: "result_ok result" and now: "tz_aware now"
    and op: "operation = oc_operation row"
    and s2_def: "s2 = ot_upsert_event (s\<lparr>ot_outcomes := finish_rows s operation guard status result now\<rparr>)
               (audit_of (read_row row) p now)"
  shows "ot_inv s2 \<and> ot_view s2 = (ot_view s)(operation \<mapsto> finished (read_row row) status result now)"
proof -
  have keys: "ot_events_ok (ot_outbox s2)"
    "set (map event_operation (ot_outbox s2)) = insert operation (set (map event_operation (ot_outbox s)))"
    "ot_outcomes s2 = finish_rows s operation guard status result now"
    using ot_upsert_keys [OF inv, of "s\<lparr>ot_outcomes := finish_rows s operation guard status result now\<rparr>"
        "read_row row" p now] op by (simp_all add: s2_def)
  have "ot_audit_ok s2"
    by (rule finish_audit [OF inv row guard status]) (use keys op in simp_all)
  then have "ot_inv s2"
    using keys finish_rows_ok [OF inv status result] by (simp add: ot_inv_def)
  moreover have "ot_view s2 = (ot_view s)(operation \<mapsto> finished (read_row row) status result now)"
    unfolding op by (rule finish_rows_view [OF inv row guard now]) (use keys op in simp)
  ultimately show ?thesis by blast
qed

lemma ot_begin_new:
  assumes inv: "ot_inv s" and r: "new_outcome r" "ot_view s (oc_operation r) = None"
    and fresh: "\<And>operation e. ot_view s operation = Some e \<Longrightarrow> oc_scope e \<noteq> oc_scope r"
  shows "\<exists>s'. ot_begin s r = Inr (r, s') \<and> ot_inv s' \<and> ot_view s' = (ot_view s)(oc_operation r \<mapsto> r)"
proof -
  let ?row = "row_of (r\<lparr>oc_result := None, oc_completed := None\<rparr>)"
  let ?s = "s\<lparr>ot_outcomes := ot_outcomes s @ [?row]\<rparr>"
  have none: "row_by_scope s (oc_scope r) = None" using ot_scope_none [OF inv] fresh by blast
  have no_op: "row_by_operation s (oc_operation r) = None" using r(2) by (simp add: ot_view_def)
  have run: "ot_begin s r = Inr (r, ?s)" using none no_op by (simp add: ot_begin_def)
  have read: "read_row ?row = r"
    using r(1) by (cases r) (simp add: row_of_def read_row_def new_outcome_def)
  have row: "row_ok ?row" "oc_operation ?row = oc_operation r" "oc_scope ?row = oc_scope r"
    "oc_status ?row = OutStarted"
    using r(1) by (auto simp: row_ok_def row_of_def new_outcome_def)
  have "ot_rows_ok (ot_outcomes ?s)"
    using inv row none no_op
    by (auto simp: ot_inv_def ot_rows_ok_def row_by_scope_def row_by_operation_def find_None)
  moreover have "ot_audit_ok ?s"
    using inv row by (auto simp: ot_inv_def ot_audit_ok_def ot_audited_def)
  ultimately have "ot_inv ?s" using inv by (simp add: ot_inv_def)
  moreover have "ot_view ?s = (ot_view s)(oc_operation r \<mapsto> r)"
  proof
    fix op
    have "List.find P (xs @ [y]) = (case List.find P xs of Some x \<Rightarrow> Some x | None \<Rightarrow> if P y then Some y else None)"
      for P :: "outcome \<Rightarrow> bool" and xs y by (induction xs) auto
    then show "ot_view ?s op = ((ot_view s)(oc_operation r \<mapsto> r)) op"
      using row read no_op by (auto simp: ot_view_def row_by_operation_def split: option.splits)
  qed
  ultimately show ?thesis using run by blast
qed

text \<open>The SQL store does not touch an outcome that is not open.\<close>

lemma ot_unknown_late:
  assumes inv: "ot_inv s" and r: "ot_view s operation = Some r" "oc_status r \<noteq> OutStarted"
  shows "ot_mark_unknown s operation result now after =
           Inl (OutcomeConflict ''outcome_unknown_update_failed'')"
proof -
  obtain row where row: "row \<in> set (ot_outcomes s)" "oc_operation row = operation" "r = read_row row"
    using ot_view_Some [OF inv] r(1) by blast
  have "\<not> (oc_operation x = operation \<and> oc_status x \<in> set [OutStarted])" if "x \<in> set (ot_outcomes s)" for x
  proof
    assume "oc_operation x = operation \<and> oc_status x \<in> set [OutStarted]"
    moreover from this have "x = row"
      using that row inv by (auto simp: ot_inv_def ot_rows_ok_def distinct_map dest: inj_onD)
    ultimately show False using row r(2) by simp
  qed
  then have "filter (\<lambda>x. oc_operation x = operation \<and> oc_status x \<in> set [OutStarted]) (ot_outcomes s) = []"
    by (auto simp: filter_empty_conv)
  then show ?thesis using r inv by (simp add: ot_mark_unknown_def ot_select_view ot_update_def)
qed

interpretation sql_outcomes: outcome_store sql_api ot_view ot_audited ot_inv
proof (unfold_locales, goal_cases)
  case (1 s operation r)
  then show ?case using ot_view_Some by auto
next
  case (2 s operation r)
  then show ?case using ot_view_Some read_row_ok by (auto simp: ot_inv_def ot_rows_ok_def)
next
  case (3 s a r b r')
  then obtain x y where "x \<in> set (ot_outcomes s)" "y \<in> set (ot_outcomes s)" "oc_scope x = oc_scope y"
    "oc_operation x = a" "oc_operation y = b"
    using ot_view_Some by fastforce
  then show ?case using 3(1) by (auto simp: ot_inv_def ot_rows_ok_def distinct_map dest: inj_onD)
next
  case (4 s operation)
  then show ?case using ot_view_Some by (auto simp: ot_inv_def ot_audit_ok_def)
next
  case (5 s operation)
  then show ?case by (simp add: sql_api_def ot_select_view)
next
  case (6 s operation r)
  then obtain row where row: "row \<in> set (ot_outcomes s)" "r = read_row row" using ot_view_Some by blast
  then have "row_by_scope s (oc_scope r) = Some row" using ot_scope_row [OF 6(1)] by simp
  moreover have "row_ok row" using 6(1) row by (auto simp: ot_inv_def ot_rows_ok_def)
  ultimately show ?case using row by (simp add: sql_api_def ot_find_def record_from_row_ok)
next
  case (7 s scope)
  then show ?case using ot_scope_none by (simp add: sql_api_def ot_find_def)
next
  case (8 s operation e r)
  then obtain row where row: "row \<in> set (ot_outcomes s)" "e = read_row row" using ot_view_Some by blast
  then have "row_by_scope s (oc_scope r) = Some row" using ot_scope_row [OF 8(1)] 8(3) by simp
  moreover have "row_ok row" using 8(1) row by (auto simp: ot_inv_def ot_rows_ok_def)
  ultimately show ?case using row by (simp add: sql_api_def ot_begin_def record_from_row_ok)
next
  case (9 s r)
  then show ?case using ot_begin_new by (simp add: sql_api_def)
next
  case (10 s operation result preserve now later)
  then show ?case
    by (simp add: sql_api_def ot_complete_def ot_mark_unknown_def ot_reconcile_def ot_select_view)
next
  case (11 s operation r result now later d preserve)
  then obtain row where row: "row \<in> set (ot_outcomes s)" "oc_operation row = operation" "r = read_row row"
    using ot_view_Some by blast
  let ?st = "if rs_ok result then OutCompleted else OutFailed"
  have st: "oc_status row = OutStarted" using 11(3) row by simp
  from ot_finish_insert [OF 11(1) row(1) st _ durable_result_ok [OF 11(4)] 11(5), of ?st operation preserve
      "audit_payload r ?st"]
  show ?case using 11 row st ot_update_one [OF 11(1) row(1), of "[OutStarted]"]
    by (auto simp: sql_api_def ot_complete_def ot_select_view finish_rows_def [symmetric])
next
  case (12 s operation r result preserve now later)
  then show ?case by (simp add: sql_api_def ot_complete_def ot_select_view)
next
  case (13 s operation r result now later d)
  then obtain row where row: "row \<in> set (ot_outcomes s)" "oc_operation row = operation" "r = read_row row"
    using ot_view_Some by blast
  have st: "oc_status row = OutStarted" using 13(3) row by simp
  from ot_finish_insert [OF 13(1) row(1) st _ durable_result_ok [OF 13(4)] 13(5), of OutUnknown operation False
      "(''operation_id'', JStr operation) # unknown_payload r"] row(2)
  obtain s2 where s2: "ot_insert_event (s\<lparr>ot_outcomes := finish_rows s operation [OutStarted] OutUnknown
        (durable_result result False) now\<rparr>)
      (audit_of (read_row row) ((''operation_id'', JStr operation) # unknown_payload r) now) = Inr s2"
    "ot_inv s2"
    "ot_view s2 = (ot_view s)(operation \<mapsto> finished (read_row row) OutUnknown (durable_result result False) now)"
    by auto
  then show ?case using 13 row st ot_update_one [OF 13(1) row(1), of "[OutStarted]"]
    by (simp add: sql_api_def ot_mark_unknown_def ot_select_view)
next
  case (14 s operation r result now later d)
  then show ?case using ot_unknown_late by (simp add: sql_api_def)
next
  case (15 s operation r result now d)
  then obtain row where row: "row \<in> set (ot_outcomes s)" "oc_operation row = operation" "r = read_row row"
    using ot_view_Some by blast
  have st: "oc_status row \<in> set [OutStarted, OutUnknown]" using 15(3) row by simp
  have st': "oc_status r \<noteq> OutCompleted" "oc_status r \<in> {OutStarted, OutUnknown}" using 15(3) by auto
  let ?s2 = "ot_upsert_event (s\<lparr>ot_outcomes := finish_rows s operation [OutStarted, OutUnknown] OutCompleted
      (durable_result result False) now\<rparr>) (audit_of (read_row row) (audit_payload r OutCompleted) now)"
  have up: "ot_inv ?s2 \<and> ot_view ?s2 =
      (ot_view s)(operation \<mapsto> finished (read_row row) OutCompleted (durable_result result False) now)"
    by (rule ot_finish_upsert [OF 15(1) row(1) st _ durable_result_ok [OF 15(4)] 15(5)])
      (simp_all add: row)
  have "ot_update s operation [OutStarted, OutUnknown] OutCompleted (durable_result result False) now =
      (1, s\<lparr>ot_outcomes := finish_rows s operation [OutStarted, OutUnknown] OutCompleted
            (durable_result result False) now\<rparr>)"
    using ot_update_one [OF 15(1) row(1) st] row(2) by simp
  then have "ot_reconcile s operation result now = Inr (d, ?s2)"
    using 15(1,2,6) st' row(3) by (auto simp: ot_reconcile_def ot_select_view Let_def)
  then show ?case using up 15(6) row(3) by (simp add: sql_api_def)
next
  case (16 s operation r result now)
  then show ?case by (simp add: sql_api_def ot_reconcile_def ot_select_view)
qed

section \<open>Calls and their specification\<close>

datatype store_call =
    BeginCall outcome
  | CompleteCall string cap_result bool timestamp timestamp
  | UnknownCall string cap_result timestamp timestamp
  | ReconcileCall string cap_result timestamp

fun run_call :: "'s outcome_api \<Rightarrow> 's \<Rightarrow> store_call \<Rightarrow> outcome_error + outcome \<times> 's" where
  "run_call api s (BeginCall r) = api_begin api s r"
| "run_call api s (CompleteCall operation result preserve now after) =
     api_complete api s operation result preserve now after"
| "run_call api s (UnknownCall operation result now after) = api_unknown api s operation result now after"
| "run_call api s (ReconcileCall operation result now) = api_reconcile api s operation result now"

text \<open>The state after a call: a call that raises changes nothing.\<close>

definition after_call :: "'s \<Rightarrow> outcome_error + outcome \<times> 's \<Rightarrow> 's" where
  "after_call s result = (case result of Inl _ \<Rightarrow> s | Inr (_, s') \<Rightarrow> s')"

definition call_value :: "outcome_error + outcome \<times> 's \<Rightarrow> outcome_error + outcome" where
  "call_value result = (case result of Inl e \<Rightarrow> Inl e | Inr (r, _) \<Rightarrow> Inr r)"

lemma after_call_simps [simp]: "after_call s (Inl e) = s" "after_call s (Inr (r, s')) = s'"
  by (simp_all add: after_call_def)

lemma call_value_simps [simp]: "call_value (Inl e) = Inl e" "call_value (Inr (r, s')) = Inr r"
  by (simp_all add: call_value_def)

text \<open>Operations begin with a fresh identifier (a random UUID) and store valid results.\<close>

fun call_ok :: "ledger \<Rightarrow> store_call \<Rightarrow> bool" where
  "call_ok v (BeginCall r) = (new_outcome r \<and> v (oc_operation r) = None)"
| "call_ok v (CompleteCall _ result _ now after) = (result_ok result \<and> tz_aware now \<and> tz_aware after)"
| "call_ok v (UnknownCall _ result now after) = (result_ok result \<and> tz_aware now \<and> tz_aware after)"
| "call_ok v (ReconcileCall _ result now) = (result_ok result \<and> tz_aware now)"

text \<open>What a call may do to the ledger of outcomes, whatever the store is made of.\<close>

inductive ledger_spec :: "ledger \<Rightarrow> store_call \<Rightarrow> outcome_error + outcome \<Rightarrow> ledger \<Rightarrow> bool" where
  begin_new: "(\<And>a x. v a = Some x \<Longrightarrow> oc_scope x \<noteq> oc_scope r) \<Longrightarrow>
    ledger_spec v (BeginCall r) (Inr r) (v(oc_operation r \<mapsto> r))"
| begin_replay: "v a = Some x \<Longrightarrow> oc_scope x = oc_scope r \<Longrightarrow> oc_hash x = oc_hash r \<Longrightarrow>
    ledger_spec v (BeginCall r) (Inr x) v"
| begin_conflict: "v a = Some x \<Longrightarrow> oc_scope x = oc_scope r \<Longrightarrow> oc_hash x \<noteq> oc_hash r \<Longrightarrow>
    ledger_spec v (BeginCall r) (Inl (OutcomeConflict ''idempotency_payload_conflict'')) v"
| missing: "c \<in> {CompleteCall a result p t t', UnknownCall a result t t', ReconcileCall a result t} \<Longrightarrow>
    v a = None \<Longrightarrow> ledger_spec v c (Inl (OutcomeConflict ''outcome_not_found'')) v"
| complete: "v a = Some x \<Longrightarrow> oc_status x = OutStarted \<Longrightarrow>
    y = finished x (if rs_ok result then OutCompleted else OutFailed) (durable_result result p) t \<Longrightarrow>
    ledger_spec v (CompleteCall a result p t t') (Inr y) (v(a \<mapsto> y))"
| complete_again: "v a = Some x \<Longrightarrow> oc_status x \<noteq> OutStarted \<Longrightarrow>
    oc_result x = Some (durable_result result p) \<Longrightarrow>
    ledger_spec v (CompleteCall a result p t t') (Inr x) v"
| complete_final: "v a = Some x \<Longrightarrow> oc_status x \<noteq> OutStarted \<Longrightarrow>
    oc_result x \<noteq> Some (durable_result result p) \<Longrightarrow>
    ledger_spec v (CompleteCall a result p t t') (Inl (OutcomeConflict ''outcome_already_final'')) v"
| unknown: "v a = Some x \<Longrightarrow> oc_status x = OutStarted \<Longrightarrow>
    y = finished x OutUnknown (durable_result result False) t \<Longrightarrow>
    ledger_spec v (UnknownCall a result t t') (Inr y) (v(a \<mapsto> y))"
| unknown_refused: "v a = Some x \<Longrightarrow> oc_status x \<noteq> OutStarted \<Longrightarrow>
    ledger_spec v (UnknownCall a result t t') (Inl e) v"
| unknown_overwrites: "v a = Some x \<Longrightarrow> oc_status x \<noteq> OutStarted \<Longrightarrow>
    y = finished x OutUnknown (durable_result result False) t \<Longrightarrow>
    ledger_spec v (UnknownCall a result t t') (Inr y) (v(a \<mapsto> y))"
| reconcile: "v a = Some x \<Longrightarrow> oc_status x \<in> {OutStarted, OutUnknown} \<Longrightarrow>
    y = finished x OutCompleted (durable_result result False) t \<Longrightarrow>
    ledger_spec v (ReconcileCall a result t) (Inr y) (v(a \<mapsto> y))"
| reconcile_again: "v a = Some x \<Longrightarrow> oc_status x = OutCompleted \<Longrightarrow>
    ledger_spec v (ReconcileCall a result t) (Inr x) v"
| reconcile_final: "v a = Some x \<Longrightarrow> oc_status x \<notin> {OutStarted, OutUnknown, OutCompleted} \<Longrightarrow>
    ledger_spec v (ReconcileCall a result t) (Inl (OutcomeConflict ''outcome_already_final'')) v"

inductive_cases spec_beginE: "ledger_spec v (BeginCall r) res v'"
inductive_cases spec_completeE: "ledger_spec v (CompleteCall a result p t t') res v'"
inductive_cases spec_unknownE: "ledger_spec v (UnknownCall a result t t') res v'"
inductive_cases spec_reconcileE: "ledger_spec v (ReconcileCall a result t) res v'"

lemmas spec_cases = spec_beginE spec_completeE spec_unknownE spec_reconcileE

text \<open>The identity of an invocation, which no call changes.\<close>

definition same_invocation :: "outcome \<Rightarrow> outcome \<Rightarrow> bool" where
  "same_invocation x y \<longleftrightarrow> oc_operation x = oc_operation y \<and> oc_scope x = oc_scope y \<and> oc_hash x = oc_hash y"

lemma same_invocation_refl [simp]: "same_invocation x x"
  by (simp add: same_invocation_def)

lemma same_invocation_finished [simp]: "same_invocation x (finished x status result t)"
  by (simp add: same_invocation_def finished_def)

lemma same_invocation_trans: "same_invocation x y \<Longrightarrow> same_invocation y z \<Longrightarrow> same_invocation x z"
  by (simp add: same_invocation_def)

lemma spec_keeps:
  assumes "ledger_spec v c res v'" and "call_ok v c" and "v a = Some x"
  shows "\<exists>y. v' a = Some y \<and> same_invocation x y"
  using assms by (cases rule: ledger_spec.cases) (auto simp: fun_upd_def)

inductive store_run :: "'s outcome_api \<Rightarrow> ('s \<Rightarrow> ledger) \<Rightarrow> 's \<Rightarrow> 's \<Rightarrow> bool" for api view where
  store_refl: "store_run api view s s"
| store_step: "store_run api view s t \<Longrightarrow> call_ok (view t) c \<Longrightarrow>
    store_run api view s (after_call t (run_call api t c))"

context outcome_store
begin

lemma refines:
  assumes inv: "inv s" and ok: "call_ok (view s) c"
  shows "inv (after_call s (run_call api s c)) \<and>
    ledger_spec (view s) c (call_value (run_call api s c)) (view (after_call s (run_call api s c)))"
proof (cases c)
  case (BeginCall r)
  show ?thesis
  proof (cases "\<exists>a x. view s a = Some x \<and> oc_scope x = oc_scope r")
    case True
    then obtain a x where "view s a = Some x" "oc_scope x = oc_scope r" by blast
    then show ?thesis using begin_known [OF inv, of a x r] inv BeginCall
      by (auto intro: ledger_spec.begin_replay ledger_spec.begin_conflict)
  next
    case False
    then obtain s' where "api_begin api s r = Inr (r, s')" "inv s'" "view s' = (view s)(oc_operation r \<mapsto> r)"
      using begin_new [OF inv, of r] ok BeginCall by auto
    then show ?thesis using False BeginCall by (auto intro: ledger_spec.begin_new)
  qed
next
  case (CompleteCall a result p t t')
  show ?thesis
  proof (cases "view s a")
    case None
    then show ?thesis using missing [OF inv None] inv CompleteCall
      by (auto intro: ledger_spec.missing [where a = a and result = result])
  next
    case (Some x)
    show ?thesis
    proof (cases "oc_status x = OutStarted")
      case True
      then obtain s' where "api_complete api s a result p t t' =
          Inr (finished x (if rs_ok result then OutCompleted else OutFailed) (durable_result result p) t, s')"
        "inv s'" "view s' = (view s)(a \<mapsto>
          finished x (if rs_ok result then OutCompleted else OutFailed) (durable_result result p) t)"
        using complete_started [OF inv Some True _ _ _ refl, of result t t' p] ok CompleteCall by auto
      then show ?thesis using CompleteCall Some True by (auto intro!: ledger_spec.complete)
    next
      case False
      then show ?thesis using complete_final [OF inv Some False] CompleteCall Some inv
        by (auto intro: ledger_spec.complete_again ledger_spec.complete_final)
    qed
  qed
next
  case (UnknownCall a result t t')
  show ?thesis
  proof (cases "view s a")
    case None
    then show ?thesis using missing [OF inv None] inv UnknownCall
      by (auto intro: ledger_spec.missing [where a = a and result = result])
  next
    case (Some x)
    show ?thesis
    proof (cases "oc_status x = OutStarted")
      case True
      then obtain s' where "api_unknown api s a result t t' =
          Inr (finished x OutUnknown (durable_result result False) t, s')"
        "inv s'" "view s' = (view s)(a \<mapsto> finished x OutUnknown (durable_result result False) t)"
        using unknown_started [OF inv Some True _ _ _ refl, of result t t'] ok UnknownCall by auto
      then show ?thesis using UnknownCall Some True by (auto intro!: ledger_spec.unknown)
    next
      case False
      then show ?thesis using unknown_late [OF inv Some False _ _ _ refl, of result t t'] ok UnknownCall Some inv
        by (auto intro: ledger_spec.unknown_refused ledger_spec.unknown_overwrites)
    qed
  qed
next
  case (ReconcileCall a result t)
  show ?thesis
  proof (cases "view s a")
    case None
    then show ?thesis using missing [OF inv None] inv ReconcileCall
      by (auto intro: ledger_spec.missing [where a = a and result = result])
  next
    case (Some x)
    show ?thesis
    proof (cases "oc_status x \<in> {OutStarted, OutUnknown}")
      case True
      then obtain s' where "api_reconcile api s a result t =
          Inr (finished x OutCompleted (durable_result result False) t, s')"
        "inv s'" "view s' = (view s)(a \<mapsto> finished x OutCompleted (durable_result result False) t)"
        using reconcile_open [OF inv Some True _ _ refl, of result t] ok ReconcileCall by auto
      then show ?thesis using ReconcileCall Some True by (auto intro!: ledger_spec.reconcile)
    next
      case False
      then show ?thesis using reconcile_final [OF inv Some False] ReconcileCall Some inv
        by (auto intro: ledger_spec.reconcile_again ledger_spec.reconcile_final)
    qed
  qed
qed

lemma run_keeps:
  assumes "store_run api view s t" and "inv s"
  shows "inv t \<and> (\<forall>a x. view s a = Some x \<longrightarrow> (\<exists>y. view t a = Some y \<and> same_invocation x y))"
  using assms
proof (induction rule: store_run.induct)
  case (store_refl s)
  then show ?case by auto
next
  case (store_step s t c)
  then have "inv t" by blast
  note r = refines [OF this store_step.hyps(2)]
  have "\<exists>z. view (after_call t (run_call api t c)) a = Some z \<and> same_invocation x z"
    if x: "view s a = Some x" for a x
  proof -
    obtain y where y: "view t a = Some y" "same_invocation x y" using store_step x by blast
    obtain z where "view (after_call t (run_call api t c)) a = Some z" "same_invocation y z"
      using spec_keeps [OF conjunct2 [OF r] store_step.hyps(2) y(1)] by blast
    then show ?thesis using y(2) same_invocation_trans by blast
  qed
  then show ?case using r by blast
qed

end

end
