(* ===== verification/Reliability.thy ===== *)
theory Reliability
  imports OutcomeLedger
begin

text \<open>
  Approvals, rate limits and the coordination of durable invocations
  (\<open>backend/capability_v2/reliability.py\<close>). The coordinator works on any store that offers the
  operations of \<open>outcome_api\<close> and any limiter that offers \<open>consume\<close>; its guarantees are proved in
  the context of the store's contract. The random parts of tokens and of operation
  identifiers are arguments.
\<close>

section \<open>ASCII JSON\<close>

text \<open>
  \<open>json.dumps\<close> with its default \<open>ensure_ascii\<close>: every other character than the printable ASCII
  ones is escaped as one UTF-16 unit or a surrogate pair. The bits are taken from the UTF-8
  bytes.
\<close>

definition unit_escape :: "bool list \<Rightarrow> string" where
  "unit_escape bs = CHR 0x5C # CHR ''u'' #
     [hex_of_bits (bs ! 0) (bs ! 1) (bs ! 2) (bs ! 3), hex_of_bits (bs ! 4) (bs ! 5) (bs ! 6) (bs ! 7),
      hex_of_bits (bs ! 8) (bs ! 9) (bs ! 10) (bs ! 11), hex_of_bits (bs ! 12) (bs ! 13) (bs ! 14) (bs ! 15)]"

definition low6 :: "char \<Rightarrow> bool list" where
  "low6 c = [digit5 c, digit4 c, digit3 c, digit2 c, digit1 c, digit0 c]"

text \<open>The four low bits of a five-bit number less one.\<close>

definition minus_one :: "bool list \<Rightarrow> bool list" where
  "minus_one bs = (let d3 = bs ! 1; d2 = bs ! 2; d1 = bs ! 3; d0 = bs ! 4;
       b0 = (\<not> d0); b1 = (\<not> d1 \<and> b0); b2 = (\<not> d2 \<and> b1) in
     [d3 \<noteq> b2, d2 \<noteq> b1, d1 \<noteq> b0, \<not> d0])"

fun ascii_escape :: "string \<Rightarrow> string" where
  "ascii_escape [] = []"
| "ascii_escape (c # s) =
     (if \<not> digit7 c then
        (if c = CHR 0x7F then unit_escape (replicate 9 False @ replicate 7 True) else json_escape_char c) @
        ascii_escape s
      else if \<not> digit5 c then
        (case s of d # r \<Rightarrow>
           unit_escape (replicate 5 False @ drop 1 (low6 c) @ low6 d) @ ascii_escape r
         | [] \<Rightarrow> [])
      else if \<not> digit4 c then
        (case s of d # e # r \<Rightarrow> unit_escape (drop 2 (low6 c) @ low6 d @ low6 e) @ ascii_escape r
         | _ \<Rightarrow> [])
      else
        (case s of d # e # f # r \<Rightarrow>
           (let bs = drop 3 (low6 c) @ low6 d @ low6 e @ low6 f;
                v = minus_one (take 5 bs) @ drop 5 bs in
            unit_escape ([True, True, False, True, True, False] @ take 10 v) @
            unit_escape ([True, True, False, True, True, True] @ drop 10 v) @ ascii_escape r)
         | _ \<Rightarrow> []))"

definition ascii_quote :: "string \<Rightarrow> string" where
  "ascii_quote s = CHR 0x22 # ascii_escape s @ [CHR 0x22]"

definition ascii_opt :: "string option \<Rightarrow> string" where
  "ascii_opt v = (case v of None \<Rightarrow> ''null'' | Some s \<Rightarrow> ascii_quote s)"

section \<open>Fingerprints and hashes\<close>

definition payload_hash :: "hostlib \<Rightarrow> jobj \<Rightarrow> string" where
  "payload_hash h payload = ''sha256:'' @ sha256_hex h (json_dumps h (JObj payload))"

text \<open>The document of a consumer, with its keys in sorted order.\<close>

definition consumer_document :: "invocation \<Rightarrow> string" where
  "consumer_document e =
     (let i = en_identity e; c = ci_consumer i;
          field = (\<lambda>k v. ascii_quote k @ '':'' @ v) in
      CHR 0x7B # str_join '',''
        [field ''actor'' (ascii_opt (str_or (ac_user (ci_actor i)) (ac_service (ci_actor i)))),
         field ''agent_run'' (ascii_opt (cn_agent_run c)), field ''id'' (ascii_quote (cn_id c)),
         field ''installation'' (ascii_opt (cn_installation c)), field ''mount'' (ascii_opt (cn_mount c)),
         field ''tenant'' (ascii_quote (tn_id (ci_tenant i))),
         field ''type'' (ascii_quote (consumer_type_value (cn_type c))),
         field ''version'' (ascii_opt (cn_version c))] @ [CHR 0x7D])"

definition consumer_fingerprint :: "hostlib \<Rightarrow> invocation \<Rightarrow> string" where
  "consumer_fingerprint h e = ''consumer:'' @ sha256_hex h (consumer_document e)"

definition idempotency_material :: "hostlib \<Rightarrow> invocation \<Rightarrow> string" where
  "idempotency_material h e =
     (let key = (case en_idempotency e of None \<Rightarrow> en_request e
                 | Some k \<Rightarrow> if k = [] then en_request e else k) in
      tn_id (ci_tenant (en_identity e)) @ ''|'' @ consumer_fingerprint h e @ ''|'' @
      en_release e @ ''|'' @ en_capability e @ ''|'' @ str_of_int (en_major e) @ ''|'' @ key)"

definition idempotency_scope :: "hostlib \<Rightarrow> invocation \<Rightarrow> string" where
  "idempotency_scope h e = ''idem:'' @ sha256_hex h (idempotency_material h e)"

definition secret_hash :: "hostlib \<Rightarrow> string \<Rightarrow> string" where
  "secret_hash h token = sha256_hex h token"

section \<open>Approvals\<close>

record approval =
  ap_id :: string
  ap_token :: string
  ap_capability :: string
  ap_major :: int
  ap_release :: string
  ap_consumer :: string
  ap_resources :: "string list"
  ap_policy :: string
  ap_confirmation :: confirmation_policy
  ap_payload :: string
  ap_expires :: timestamp
  ap_consumed :: "timestamp option"

datatype reliability_error = ReliabilityError string | StoreError outcome_error

text \<open>The fields a presented approval must share with the stored one.\<close>

definition same_approval :: "approval \<Rightarrow> approval \<Rightarrow> bool" where
  "same_approval a b \<longleftrightarrow> ap_capability a = ap_capability b \<and> ap_major a = ap_major b \<and>
     ap_release a = ap_release b \<and> ap_consumer a = ap_consumer b \<and>
     ap_resources a = ap_resources b \<and> ap_policy a = ap_policy b \<and>
     ap_payload a = ap_payload b \<and> ap_confirmation a = ap_confirmation b"

type_synonym approval_memory = "(string \<times> approval) list"

definition am_save :: "approval_memory \<Rightarrow> approval \<Rightarrow> reliability_error + approval_memory" where
  "am_save s a =
     (if map_of s (ap_token a) \<noteq> None then Inl (ReliabilityError ''approval_token_exists'')
      else Inr (AList.update (ap_token a) a s))"

definition am_consume ::
  "approval_memory \<Rightarrow> string \<Rightarrow> approval \<Rightarrow> timestamp \<Rightarrow> bool \<times> approval_memory" where
  "am_consume s token expected now =
     (case map_of s token of
        None \<Rightarrow> (False, s)
      | Some current \<Rightarrow>
          if ap_consumed current \<noteq> None \<or> instant (ap_expires current) \<le> instant now then (False, s)
          else if \<not> same_approval current expected then (False, s)
          else (True, AList.update token (current\<lparr>ap_consumed := Some now\<rparr>) s))"

text \<open>The SQL store: rows with \<open>approval_id\<close> primary and \<open>token_hash\<close> unique.\<close>

type_synonym approval_table = "approval list"

definition at_save :: "approval_table \<Rightarrow> approval \<Rightarrow> reliability_error + approval_table" where
  "at_save s a =
     (if list_ex (\<lambda>r. ap_id r = ap_id a \<or> ap_token r = ap_token a) s
      then Inl (StoreError (IntegrityError ''approvals''))
      else Inr (s @ [a\<lparr>ap_expires := to_column (ap_expires a),
                       ap_consumed := map_option to_column (ap_consumed a)\<rparr>]))"

definition at_consume ::
  "approval_table \<Rightarrow> string \<Rightarrow> approval \<Rightarrow> timestamp \<Rightarrow> bool \<times> approval_table" where
  "at_consume s token expected now =
     (case List.find (\<lambda>r. ap_token r = token) s of
        None \<Rightarrow> (False, s)
      | Some row \<Rightarrow>
          if ap_consumed row \<noteq> None \<or> instant (as_utc (ap_expires row)) \<le> instant now then (False, s)
          else if \<not> same_approval row expected then (False, s)
          else
            let hit = (\<lambda>r. ap_id r = ap_id row \<and> ap_consumed r = None) in
            (length (filter hit s) = 1,
             map (\<lambda>r. if hit r then r\<lparr>ap_consumed := Some (to_column now)\<rparr> else r) s))"

text \<open>\<open>ApprovalService._challenge\<close>; an approval lives \<open>ttl\<close> microseconds.\<close>

definition later :: "timestamp \<Rightarrow> int \<Rightarrow> timestamp" where
  "later t d = (case t of Aware x \<Rightarrow> Aware (x + d) | Naive x \<Rightarrow> Naive (x + d))"

definition approval_challenge ::
  "hostlib \<Rightarrow> string \<Rightarrow> descriptor \<Rightarrow> invocation \<Rightarrow> string list \<Rightarrow> string \<Rightarrow> timestamp \<Rightarrow> approval" where
  "approval_challenge h token d e resources policy expires =
     \<lparr>ap_id = ''approval_'' @ take 24 (secret_hash h token), ap_token = secret_hash h token,
      ap_capability = cd_id d, ap_major = cd_major d, ap_release = en_release e,
      ap_consumer = consumer_fingerprint h e, ap_resources = sort resources, ap_policy = policy,
      ap_confirmation = cd_confirmation d, ap_payload = payload_hash h (en_payload e),
      ap_expires = expires, ap_consumed = None\<rparr>"

definition approval_issue_checks :: "descriptor \<Rightarrow> invocation \<Rightarrow> reliability_error + unit" where
  "approval_issue_checks d e =
     (if cd_confirmation d = DualConfirmation
      then Inl (ReliabilityError ''dual_approval_workflow_required'')
      else if cd_confirmation d = AdminConfirmation \<and>
        \<not> list_ex (\<lambda>r. r \<in> set [''super_admin'', ''team_admin'', ''system_admin''])
            (tn_roles (ci_tenant (en_identity e)))
      then Inl (ReliabilityError ''admin_approval_required'') else Inr ())"

record 'a approval_api =
  apv_save :: "'a \<Rightarrow> approval \<Rightarrow> reliability_error + 'a"
  apv_consume :: "'a \<Rightarrow> string \<Rightarrow> approval \<Rightarrow> timestamp \<Rightarrow> bool \<times> 'a"

definition memory_approvals :: "approval_memory approval_api" where
  "memory_approvals = \<lparr>apv_save = am_save, apv_consume = am_consume\<rparr>"

definition sql_approvals :: "approval_table approval_api" where
  "sql_approvals = \<lparr>apv_save = at_save, apv_consume = at_consume\<rparr>"

text \<open>\<open>ApprovalService.issue\<close>: the token is \<open>apr_\<close> and a random text; the default life is 300 s.\<close>

definition approval_service_issue ::
  "hostlib \<Rightarrow> 'a approval_api \<Rightarrow> 'a \<Rightarrow> descriptor \<Rightarrow> invocation \<Rightarrow> string list \<Rightarrow> string \<Rightarrow> int \<Rightarrow>
   string \<Rightarrow> timestamp \<Rightarrow> reliability_error + (string \<times> approval) \<times> 'a" where
  "approval_service_issue h api s d e resources policy ttl random now =
     bindr (approval_issue_checks d e) (\<lambda>_.
       let token = ''apr_'' @ random;
           challenge = approval_challenge h token d e resources policy (later now (ttl * 1000000)) in
       bindr (apv_save api s challenge) (\<lambda>s'. Inr ((token, challenge), s')))"

definition approval_service_consume ::
  "hostlib \<Rightarrow> 'a approval_api \<Rightarrow> 'a \<Rightarrow> string \<Rightarrow> descriptor \<Rightarrow> invocation \<Rightarrow> string list \<Rightarrow> string \<Rightarrow>
   timestamp \<Rightarrow> bool \<times> 'a" where
  "approval_service_consume h api s token d e resources policy now =
     (if token = [] then (False, s)
      else apv_consume api s (secret_hash h token)
             (approval_challenge h token d e resources policy (later now 1000000)) now)"

section \<open>Rate limits\<close>

text \<open>The sliding window of \<open>InMemoryRateLimiter\<close>: accepted costs per scope, oldest first.\<close>

record rate_memory =
  rm_limit :: int
  rm_window :: int
  rm_usage :: "(string \<times> (rat \<times> int) list) list"

definition live_events :: "rate_memory \<Rightarrow> string \<Rightarrow> rat \<Rightarrow> (rat \<times> int) list" where
  "live_events s scope now =
     dropWhile (\<lambda>(t, c). t \<le> now - of_int (rm_window s))
       (case map_of (rm_usage s) scope of None \<Rightarrow> [] | Some es \<Rightarrow> es)"

definition rm_consume :: "rate_memory \<Rightarrow> string \<Rightarrow> int \<Rightarrow> rat \<Rightarrow> bool \<times> rate_memory" where
  "rm_consume s scope cost now =
     (let events = live_events s scope now in
      if sum_list (map snd events) + cost > rm_limit s
      then (False, s\<lparr>rm_usage := AList.update scope events (rm_usage s)\<rparr>)
      else (True, s\<lparr>rm_usage := AList.update scope (events @ [(now, cost)]) (rm_usage s)\<rparr>))"

text \<open>The fixed windows of \<open>SqlRateLimiter\<close>: rows of scope hash, start of the window and cost used.\<close>

record rate_table =
  rt_limit :: int
  rt_window :: int
  rt_rows :: "((string \<times> int) \<times> (int \<times> int)) list"

definition window_start :: "rate_table \<Rightarrow> rat \<Rightarrow> int" where
  "window_start s now = (let epoch = py_trunc now in epoch - epoch mod rt_window s)"

definition rt_consume :: "hostlib \<Rightarrow> rate_table \<Rightarrow> string \<Rightarrow> int \<Rightarrow> rat \<Rightarrow> bool \<times> rate_table" where
  "rt_consume h s scope cost now =
     (let start = window_start s now; key = (sha256_hex h scope, start);
          expires = start + rt_window s * 2;
          used = (case map_of (rt_rows s) key of None \<Rightarrow> 0 | Some (u, _) \<Rightarrow> u) in
      if used + cost > rt_limit s then (False, s)
      else (True, s\<lparr>rt_rows := AList.update key (used + cost, expires) (rt_rows s)\<rparr>))"

section \<open>The coordinator\<close>

record invocation_lease =
  ls_operation :: string
  ls_outcome :: outcome
  ls_replay :: "cap_result option"

definition lift_store :: "outcome_error + 'a \<Rightarrow> reliability_error + 'a" where
  "lift_store r = (case r of
     Inr a \<Rightarrow> Inr a
   | Inl (OutcomeConflict code) \<Rightarrow> Inl (ReliabilityError code)
   | Inl e \<Rightarrow> Inl (StoreError e))"

definition rel_replay ::
  "hostlib \<Rightarrow> 's outcome_api \<Rightarrow> 's \<Rightarrow> invocation \<Rightarrow> reliability_error + cap_result option" where
  "rel_replay h api s e =
     (case api_find api s (idempotency_scope h e) of
        Inl err \<Rightarrow> Inl (StoreError err)
      | Inr None \<Rightarrow> Inr None
      | Inr (Some existing) \<Rightarrow>
          if oc_hash existing \<noteq> payload_hash h (en_payload e)
          then Inl (ReliabilityError ''idempotency_payload_conflict'')
          else (case oc_result existing of
                  None \<Rightarrow> Inl (ReliabilityError ''idempotency_in_progress'')
                | Some r \<Rightarrow> Inr (Some r)))"

definition new_record ::
  "hostlib \<Rightarrow> invocation \<Rightarrow> string \<Rightarrow> string \<Rightarrow> timestamp \<Rightarrow> outcome" where
  "new_record h e policy operation now =
     (let i = en_identity e; c = ci_consumer i in
      \<lparr>oc_operation = operation, oc_request = en_request e, oc_scope = idempotency_scope h e,
       oc_hash = payload_hash h (en_payload e), oc_capability = en_capability e,
       oc_major = en_major e, oc_tenant = tn_id (ci_tenant i),
       oc_consumer_scope = consumer_fingerprint h e, oc_actor = actor_id i,
       oc_consumer_type = consumer_type_value (cn_type c), oc_consumer = cn_id c,
       oc_instance = str_or (cn_agent_run c) (str_or (cn_mount c) (cn_installation c)),
       oc_policy = policy, oc_status = OutStarted, oc_result = None, oc_started = now,
       oc_completed = None\<rparr>)"

type_synonym 'l limiter = "'l \<Rightarrow> string \<Rightarrow> int \<Rightarrow> bool \<times> 'l"

text \<open>\<open>begin\<close>: the rate limit is charged before the store is asked, also when the call then fails.\<close>

definition rel_begin ::
  "hostlib \<Rightarrow> 's outcome_api \<Rightarrow> 'l limiter \<Rightarrow> 's \<times> 'l \<Rightarrow> invocation \<Rightarrow> descriptor \<Rightarrow> string \<Rightarrow>
   string \<Rightarrow> timestamp \<Rightarrow> (reliability_error + invocation_lease) \<times> 's \<times> 'l" where
  "rel_begin h api consume st e d policy uuid now =
     (case st of (s, l) \<Rightarrow>
      if cd_idempotency d = Required \<and> (en_idempotency e = None \<or> en_idempotency e = Some [])
      then (Inl (ReliabilityError ''idempotency_key_required''), s, l)
      else (case consume l (consumer_fingerprint h e) (cd_rate_cost d) of (ok, l') \<Rightarrow>
        if \<not> ok then (Inl (ReliabilityError ''rate_limit_exceeded''), s, l')
        else
          let operation = ''op_'' @ uuid in
          (case lift_store (api_begin api s (new_record h e policy operation now)) of
             Inl err \<Rightarrow> (Inl err, s, l')
           | Inr (actual, s') \<Rightarrow>
               if oc_operation actual \<noteq> operation then
                 (case oc_result actual of
                    None \<Rightarrow> (Inl (ReliabilityError ''idempotency_in_progress''), s', l')
                  | Some r \<Rightarrow>
                      (Inr \<lparr>ls_operation = oc_operation actual, ls_outcome = actual,
                            ls_replay = Some r\<rparr>, s', l'))
               else (Inr \<lparr>ls_operation = operation, ls_outcome = actual, ls_replay = None\<rparr>, s', l'))))"

definition rel_complete ::
  "'s outcome_api \<Rightarrow> 's \<Rightarrow> invocation_lease \<Rightarrow> cap_result \<Rightarrow> bool \<Rightarrow> timestamp \<Rightarrow> timestamp \<Rightarrow>
   reliability_error + outcome \<times> 's" where
  "rel_complete api s lease result preserve now after =
     lift_store (api_complete api s (ls_operation lease) result preserve now after)"

definition rel_mark_unknown ::
  "'s outcome_api \<Rightarrow> 's \<Rightarrow> invocation_lease \<Rightarrow> cap_result \<Rightarrow> timestamp \<Rightarrow> timestamp \<Rightarrow>
   reliability_error + outcome \<times> 's" where
  "rel_mark_unknown api s lease result now after =
     lift_store (api_unknown api s (ls_operation lease) result now after)"

definition rel_reconcile ::
  "'s outcome_api \<Rightarrow> 's \<Rightarrow> string \<Rightarrow> cap_result \<Rightarrow> timestamp \<Rightarrow> reliability_error + outcome \<times> 's" where
  "rel_reconcile api s operation result now =
     bindr (lift_store (api_get api s operation)) (\<lambda>r.
       if oc_capability r \<noteq> rs_capability result \<or> oc_major r \<noteq> rs_major result \<or>
          oc_request r \<noteq> cl_request (rs_correlation result)
       then Inl (ReliabilityError ''outcome_identity_mismatch'')
       else lift_store (api_reconcile api s operation result now))"

end
