(* ===== verification/CapabilityExamples.thy ===== *)
theory CapabilityExamples
  imports Contracts
begin

text \<open>Concrete consumers, a capability and an invocation, for the concrete runs of the properties.\<close>

definition xa_actor :: actor_identity where
  "xa_actor = \<lparr>ac_user = Some ''u1'', ac_service = None, ac_method = ''jwt'', ac_authenticated = Aware 0\<rparr>"

definition xa_consumer :: consumer_descriptor where
  "xa_consumer = \<lparr>cn_type = Web, cn_id = ''ai00.web'', cn_version = None, cn_installation = None,
     cn_mount = None, cn_agent_run = None\<rparr>"

definition xa_identity :: consumer_identity where
  "xa_identity = \<lparr>ci_actor = xa_actor,
     ci_tenant = \<lparr>tn_id = ''t1'', tn_membership = ''member'', tn_roles = []\<rparr>,
     ci_consumer = xa_consumer, ci_delegation = None\<rparr>"

definition xa_payload :: jobj where
  "xa_payload = [(''id'', JStr ''p1'')]"

definition xa_invocation :: invocation where
  "xa_invocation = \<lparr>en_capability = ''craft.plan.save'', en_major = 1, en_release = ''rel'',
     en_payload = xa_payload, en_identity = xa_identity, en_idempotency = Some ''k1'',
     en_expected = None, en_request = ''r1'', en_trace = ''tr1'', en_deadline = None,
     en_approval = None\<rparr>"

definition xa_schema :: json where
  "xa_schema = JObj [(''type'', JStr ''object''), (''additionalProperties'', JBool False),
     (''properties'', JObj [(''id'', JObj [(''type'', JStr ''string'')])])]"

definition xa_exposure :: exposure_policy where
  "xa_exposure = \<lparr>ex_web = True, ex_plugin = False, ex_agent = True, ex_api = False, ex_mcp = False,
     ex_worker = False, ex_local = False\<rparr>"

definition xa_descriptor :: descriptor where
  "xa_descriptor = \<lparr>cd_id = ''craft.plan.save'', cd_major = 1, cd_owner = ''craft'',
     cd_lifecycle = Stable, cd_side_effect = Writes, cd_execution = CloudSync, cd_exposure = xa_exposure, cd_automation = A2,
     cd_authorization = ''craft.use'',
     cd_selectors = [\<lparr>sel_type = ''plan'', sel_path = ''id'', sel_required = True\<rparr>],
     cd_classification = Internal, cd_freshness = 0, cd_delegation = ''none'',
     cd_input = xa_schema, cd_output = xa_schema, cd_agent_output = None, cd_schema_hash = [],
     cd_artifact = ''none'', cd_operation = NotUsed, cd_concurrency = NoConcurrency,
     cd_version_path = None, cd_idempotency = Optional, cd_replay = MetadataOnly,
     cd_consistency = Eventual, cd_timeout = 30, cd_rate_cost = 1, cd_budget = default_budget,
     cd_confirmation = NoConfirmation, cd_evidence = NotUsed, cd_audit = ''standard'', cd_errors = [],
     cd_errors_complete = False, cd_invariants = [], cd_no_invariant_reason = None,
     cd_error_schema = [], cd_transaction = JObj []\<rparr>"

definition xa_result :: cap_result where
  "xa_result = \<lparr>rs_ok = True, rs_status = Completed, rs_capability = ''craft.plan.save'', rs_major = 1,
     rs_data = JObj [(''id'', JStr ''p1'')], rs_operation = None, rs_artifacts = [], rs_error = None,
     rs_evidence = [], rs_warnings = [], rs_correlation = \<lparr>cl_request = ''r1'', cl_trace = Some ''tr1''\<rparr>\<rparr>"

lemmas xa_defs = xa_actor_def xa_consumer_def xa_identity_def xa_payload_def xa_invocation_def
  xa_schema_def xa_exposure_def xa_descriptor_def xa_result_def

end
