(* ===== verification/ApprovalsAndRates.thy ===== *)
theory ApprovalsAndRates
  imports Reliability CapabilityExamples
begin

text \<open>
  Guarantees of the approval stores and of the rate limiters: an approval is spent once, for the
  request it was issued for and before it expires, in both stores; the cost accepted in a window
  never exceeds the limit.
\<close>

section \<open>The interface of an approval store\<close>

datatype approval_call = SaveCall approval | ConsumeCall string approval timestamp

fun apv_step :: "'a approval_api \<Rightarrow> 'a \<Rightarrow> approval_call \<Rightarrow> 'a" where
  "apv_step api s (SaveCall a) = (case apv_save api s a of Inl _ \<Rightarrow> s | Inr s' \<Rightarrow> s')"
| "apv_step api s (ConsumeCall token expected now) = snd (apv_consume api s token expected now)"

definition apv_run :: "'a approval_api \<Rightarrow> 'a \<Rightarrow> approval_call list \<Rightarrow> 'a" where
  "apv_run api s calls = foldl (apv_step api) s calls"

lemma apv_run_simps [simp]:
  "apv_run api s [] = s" "apv_run api s (c # cs) = apv_run api (apv_step api s c) cs"
  by (simp_all add: apv_run_def)

text \<open>What a stored row must keep of the approval that was issued: the challenge and the expiry.\<close>

definition as_issued :: "approval \<Rightarrow> approval \<Rightarrow> bool" where
  "as_issued a b \<longleftrightarrow> same_approval a b \<and> instant (ap_expires a) = instant (ap_expires b)"

lemma as_issued_refl [simp]: "as_issued a a"
  by (simp add: as_issued_def same_approval_def)

lemma as_issued_trans: "as_issued a b \<Longrightarrow> as_issued b c \<Longrightarrow> as_issued a c"
  by (simp add: as_issued_def same_approval_def)

locale approval_store =
  fixes api :: "'a approval_api"
    and stored :: "'a \<Rightarrow> string \<Rightarrow> approval option"
    and inv :: "'a \<Rightarrow> bool"
  assumes save: "inv s \<Longrightarrow> apv_save api s a = Inr s' \<Longrightarrow>
      inv s' \<and> (\<forall>t x. stored s t = Some x \<longrightarrow> stored s' t = Some x) \<and>
      (\<exists>b. stored s' (ap_token a) = Some b \<and> as_issued a b)"
    and accepted: "inv s \<Longrightarrow> apv_consume api s token expected now = (True, s') \<Longrightarrow>
      \<exists>a b. stored s token = Some a \<and> ap_consumed a = None \<and> same_approval a expected \<and>
          instant now < instant (ap_expires a) \<and> ap_token a = token \<and> inv s' \<and>
          ap_consumed b \<noteq> None \<and> as_issued a b \<and> stored s' = (stored s)(token \<mapsto> b)"
    and refused: "inv s \<Longrightarrow> apv_consume api s token expected now = (False, s') \<Longrightarrow> s' = s"
begin

definition spent :: "'a \<Rightarrow> string \<Rightarrow> bool" where
  "spent s token \<longleftrightarrow> (\<exists>a. stored s token = Some a \<and> ap_consumed a \<noteq> None)"

lemma spent_refused: "inv s \<Longrightarrow> spent s token \<Longrightarrow> fst (apv_consume api s token expected now) = False"
  using accepted [of s token expected now] by (cases "apv_consume api s token expected now") (auto simp: spent_def)

lemma step_keeps:
  assumes "inv s"
  shows "inv (apv_step api s c) \<and> (spent s token \<longrightarrow> spent (apv_step api s c) token)"
proof (cases c)
  case (SaveCall a)
  then show ?thesis using save [OF assms, of a] assms
    by (auto simp: spent_def split: sum.split)
next
  case (ConsumeCall t e now)
  obtain ok s' where run: "apv_consume api s t e now = (ok, s')" by (cases "apv_consume api s t e now")
  show ?thesis
  proof (cases ok)
    case True
    then show ?thesis using accepted [OF assms, of t e now s'] run ConsumeCall by (auto simp: spent_def)
  next
    case False
    then show ?thesis using refused [OF assms, of t e now s'] run ConsumeCall assms by auto
  qed
qed

lemma run_keeps: "inv s \<Longrightarrow> inv (apv_run api s calls) \<and> (spent s token \<longrightarrow> spent (apv_run api s calls) token)"
proof (induction calls arbitrary: s)
  case (Cons c cs)
  then show ?case using step_keeps [OF Cons.prems, of c] by auto
qed simp

lemma consumed_once:
  assumes inv: "inv s" and ok: "apv_consume api s token expected now = (True, s')"
  shows "fst (apv_consume api (apv_run api s' calls) token expected' now') = False"
proof -
  have "inv s'" "spent s' token" using accepted [OF inv ok] by (auto simp: spent_def)
  then show ?thesis using run_keeps spent_refused by blast
qed

lemma step_keeps_issued:
  assumes inv: "inv s" and a: "stored s t = Some a"
  shows "\<exists>b. stored (apv_step api s c) t = Some b \<and> as_issued a b"
proof (cases c)
  case (SaveCall x)
  then show ?thesis using save [OF inv, of x] a by (cases "apv_save api s x") auto
next
  case (ConsumeCall u e now)
  obtain ok s' where run: "apv_consume api s u e now = (ok, s')" by (cases "apv_consume api s u e now")
  show ?thesis
  proof (cases ok)
    case True
    then show ?thesis using accepted [OF inv, of u e now s'] run ConsumeCall a by (cases "u = t") auto
  next
    case False
    then show ?thesis using refused [OF inv, of u e now s'] run ConsumeCall a by auto
  qed
qed

lemma run_keeps_issued:
  "inv s \<Longrightarrow> stored s t = Some a \<Longrightarrow> \<exists>b. stored (apv_run api s calls) t = Some b \<and> as_issued a b"
proof (induction calls arbitrary: s a)
  case (Cons c cs)
  obtain b where b: "stored (apv_step api s c) t = Some b" "as_issued a b"
    using step_keeps_issued [OF Cons.prems] by blast
  obtain b' where "stored (apv_run api (apv_step api s c) cs) t = Some b'" "as_issued b b'"
    using Cons.IH [OF _ b(1)] step_keeps [OF Cons.prems(1)] by blast
  then show ?case using b(2) as_issued_trans by auto
qed simp

lemma issued_then_consumed:
  assumes inv: "inv s"
    and issue: "approval_service_issue h api s d e resources policy ttl random issued = Inr ((token, challenge), s0)"
    and ok: "approval_service_consume h api (apv_run api s0 before) token d' e' resources' policy' now = (True, s')"
  shows "cd_id d' = cd_id d \<and> cd_major d' = cd_major d \<and> cd_confirmation d' = cd_confirmation d \<and>
    en_release e' = en_release e \<and> consumer_fingerprint h e' = consumer_fingerprint h e \<and>
    sort resources' = sort resources \<and> policy' = policy \<and>
    payload_hash h (en_payload e') = payload_hash h (en_payload e) \<and>
    instant now < instant (later issued (ttl * 1000000)) \<and>
    fst (approval_service_consume h api (apv_run api s' afterwards) token d2 e2 resources2 policy2 now2) = False"
proof -
  let ?c = "approval_challenge h token d e resources policy (later issued (ttl * 1000000))"
  have saved: "apv_save api s ?c = Inr s0"
    using issue by (auto simp: approval_service_issue_def Let_def bindr_def split: sum.splits)
  have tok: "ap_token ?c = secret_hash h token" by (simp add: approval_challenge_def)
  obtain b0 where b0: "inv s0" "stored s0 (secret_hash h token) = Some b0" "as_issued ?c b0"
    using save [OF inv saved] tok by auto
  obtain b where b: "stored (apv_run api s0 before) (secret_hash h token) = Some b" "as_issued b0 b"
    using run_keeps_issued [OF b0(1,2)] by blast
  have inv': "inv (apv_run api s0 before)" using run_keeps [OF b0(1)] by blast
  have consume: "apv_consume api (apv_run api s0 before) (secret_hash h token)
      (approval_challenge h token d' e' resources' policy' (later now 1000000)) now = (True, s')"
    using ok by (auto simp: approval_service_consume_def split: if_splits)
  have "as_issued ?c b" using as_issued_trans [OF b0(3) b(2)] .
  then show ?thesis
    using accepted [OF inv' consume] consumed_once [OF inv' consume] b(1)
    by (auto simp: approval_service_consume_def approval_challenge_def same_approval_def as_issued_def)
qed

end

section \<open>The in-memory store\<close>

definition am_inv :: "approval_memory \<Rightarrow> bool" where
  "am_inv s \<longleftrightarrow> (\<forall>t a. map_of s t = Some a \<longrightarrow> ap_token a = t)"

interpretation memory_approval: approval_store memory_approvals map_of am_inv
proof (unfold_locales, goal_cases)
  case (1 s a s')
  then have none: "map_of s (ap_token a) = None" and s': "s' = AList.update (ap_token a) a s"
    by (auto simp: memory_approvals_def am_save_def split: if_splits)
  have m: "map_of s' = (map_of s)(ap_token a \<mapsto> a)" by (simp add: s' update_conv')
  show ?case using 1(1) none unfolding am_inv_def m by (auto split: if_splits intro: as_issued_refl)
next
  case (2 s token expected now s')
  then obtain a where a: "map_of s token = Some a" "ap_consumed a = None" "same_approval a expected"
    "instant now < instant (ap_expires a)" "s' = AList.update token (a\<lparr>ap_consumed := Some now\<rparr>) s"
    by (auto simp: memory_approvals_def am_consume_def split: option.splits if_splits)
  let ?b = "a\<lparr>ap_consumed := Some now\<rparr>"
  have m: "map_of s' = (map_of s)(token \<mapsto> ?b)" using a by (simp add: update_conv')
  have tok: "ap_token a = token" using 2(1) a by (simp add: am_inv_def)
  have "am_inv s'" using 2(1) tok unfolding am_inv_def m by (auto split: if_splits)
  moreover have "as_issued a ?b" by (simp add: as_issued_def same_approval_def)
  ultimately show ?case using a m tok by (intro exI [of _ a] exI [of _ ?b]) simp
next
  case (3 s token expected now s')
  then show ?case by (auto simp: memory_approvals_def am_consume_def split: option.splits if_splits)
qed

section \<open>The SQL store\<close>

definition at_stored :: "approval_table \<Rightarrow> string \<Rightarrow> approval option" where
  "at_stored s token = List.find (\<lambda>r. ap_token r = token) s"

definition at_inv :: "approval_table \<Rightarrow> bool" where
  "at_inv s \<longleftrightarrow> distinct (map ap_id s) \<and> distinct (map ap_token s) \<and> (\<forall>a\<in>set s. naive (ap_expires a))"

lemma at_stored_iff: "at_inv s \<Longrightarrow> at_stored s token = Some a \<longleftrightarrow> a \<in> set s \<and> ap_token a = token"
  by (simp add: at_stored_def at_inv_def find_distinct)

lemma instant_as_utc [simp]: "instant (as_utc t) = instant t"
  by (cases t) auto

lemma instant_to_column [simp]: "instant (to_column t) = instant t"
  by (cases t) auto

lemma at_save_keeps:
  assumes inv: "at_inv s" and run: "at_save s a = Inr s'"
  shows "at_inv s' \<and> (\<forall>t x. at_stored s t = Some x \<longrightarrow> at_stored s' t = Some x) \<and>
    (\<exists>b. at_stored s' (ap_token a) = Some b \<and> as_issued a b)"
proof -
  let ?row = "a\<lparr>ap_expires := to_column (ap_expires a), ap_consumed := map_option to_column (ap_consumed a)\<rparr>"
  have s': "s' = s @ [?row]" and fresh: "ap_id a \<notin> set (map ap_id s)" "ap_token a \<notin> set (map ap_token s)"
    using run by (auto simp: at_save_def list_ex_iff split: if_splits)
  then have inv': "at_inv s'" using inv by (auto simp: at_inv_def)
  have "at_stored s' (ap_token a) = Some ?row" using inv' s' by (simp add: at_stored_iff)
  moreover have "as_issued a ?row" by (simp add: as_issued_def same_approval_def)
  ultimately show ?thesis using inv inv' s' by (auto simp: at_stored_iff)
qed

lemma at_consume_accepted:
  assumes inv: "at_inv s" and run: "at_consume s token expected now = (True, s')"
  shows "\<exists>a b. at_stored s token = Some a \<and> ap_consumed a = None \<and> same_approval a expected \<and>
      instant now < instant (ap_expires a) \<and> ap_token a = token \<and> at_inv s' \<and>
      ap_consumed b \<noteq> None \<and> as_issued a b \<and> at_stored s' = (at_stored s)(token \<mapsto> b)"
proof -
  obtain a where find: "List.find (\<lambda>r. ap_token r = token) s = Some a"
    using run by (auto simp: at_consume_def split: option.splits)
  then have a: "ap_consumed a = None" "same_approval a expected" "instant now < instant (ap_expires a)"
    and s': "s' = map (\<lambda>r. if ap_id r = ap_id a \<and> ap_consumed r = None
                       then r\<lparr>ap_consumed := Some (to_column now)\<rparr> else r) s"
    using run by (auto simp: at_consume_def Let_def split: if_splits)
  have mem: "a \<in> set s" "ap_token a = token"
    using find inv at_stored_iff [of s token a] by (simp_all add: at_stored_def)
  let ?f = "\<lambda>r. if ap_id r = ap_id a \<and> ap_consumed r = None
      then r\<lparr>ap_consumed := Some (to_column now)\<rparr> else r"
  let ?b = "a\<lparr>ap_consumed := Some (to_column now)\<rparr>"
  have keys: "map ap_id s' = map ap_id s" "map ap_token s' = map ap_token s" by (simp_all add: s' comp_def if_distrib cong: if_cong)
  have "\<forall>r\<in>set s'. naive (ap_expires r)" using inv by (auto simp: at_inv_def s')
  then have inv': "at_inv s'" using inv keys by (simp add: at_inv_def)
  have same_id: "r = a" if "r \<in> set s" "ap_id r = ap_id a" for r
    using that mem inv by (auto simp: at_inv_def distinct_map dest: inj_onD)
  have "at_stored s' t = ((at_stored s)(token \<mapsto> ?b)) t" for t
  proof (cases "t = token")
    case True
    have "?b \<in> set s'" using mem a by (force simp: s')
    then show ?thesis using True at_stored_iff [OF inv'] mem by auto
  next
    case False
    have "x \<in> set s' \<and> ap_token x = t \<longleftrightarrow> x \<in> set s \<and> ap_token x = t" for x
    proof
      assume x: "x \<in> set s' \<and> ap_token x = t"
      then obtain r where r: "r \<in> set s" "x = ?f r" by (auto simp: s')
      then have "ap_token r = t" using x by (simp split: if_splits)
      then have "r \<noteq> a" using mem False by auto
      then show "x \<in> set s \<and> ap_token x = t" using r same_id x by auto
    next
      assume x: "x \<in> set s \<and> ap_token x = t"
      then have "ap_id x \<noteq> ap_id a" using same_id mem False by blast
      then have eq: "?f x = x" by simp
      have "x \<in> ?f ` set s" by (rule image_eqI [of x ?f x, OF eq [symmetric]]) (use x in blast)
      then show "x \<in> set s' \<and> ap_token x = t" using x by (simp only: s' set_map)
    qed
    then have "at_stored s' t = Some x \<longleftrightarrow> at_stored s t = Some x" for x
      using at_stored_iff [OF inv'] at_stored_iff [OF inv] by simp
    then show ?thesis using False by (metis fun_upd_other not_None_eq)
  qed
  then have "at_stored s' = (at_stored s)(token \<mapsto> ?b)" by (rule ext)
  moreover have "as_issued a ?b" by (simp add: as_issued_def same_approval_def)
  ultimately show ?thesis using a mem inv' at_stored_iff [OF inv, of token a] by (intro exI [of _ a] exI [of _ ?b]) simp
qed

lemma at_consume_refused:
  assumes inv: "at_inv s" and run: "at_consume s token expected now = (False, s')"
  shows "s' = s"
proof (cases "List.find (\<lambda>r. ap_token r = token) s")
  case (Some a)
  then have mem: "a \<in> set s" using inv at_stored_iff [of s token a] by (simp add: at_stored_def)
  show ?thesis
  proof (cases "ap_consumed a = None \<and> instant (ap_expires a) > instant now \<and> same_approval a expected")
    case True
    have "filter (\<lambda>r. ap_id r = ap_id a \<and> ap_consumed r = None) s = [a]"
      using filter_distinct_key [of ap_id s a "\<lambda>r. ap_consumed r = None"] inv mem True by (simp add: at_inv_def)
    then show ?thesis using run Some True by (auto simp: at_consume_def Let_def)
  next
    case False
    then show ?thesis using run Some by (auto simp: at_consume_def Let_def split: if_splits)
  qed
qed (use run in \<open>simp add: at_consume_def\<close>)

interpretation sql_approval: approval_store sql_approvals at_stored at_inv
proof (unfold_locales, goal_cases)
  case (1 s a s')
  then show ?case using at_save_keeps by (simp add: sql_approvals_def)
next
  case (2 s token expected now s')
  then show ?case using at_consume_accepted by (simp add: sql_approvals_def)
next
  case (3 s token expected now s')
  then show ?case using at_consume_refused by (simp add: sql_approvals_def)
qed

text \<open>
  C22. When the approval service issues a token over the SQL store and, after any further calls of
  the store, accepts it for a request, then that request has the capability, major version and
  confirmation, the release, the fingerprint of the consumer, the resources up to order, the policy version
  and the payload hash the token was issued for, and comes before the token expires; and whatever is saved or
  consumed afterwards, the token is never accepted again, for any request. The stored rows are
  taken to have distinct keys, which is the invariant every call of the store keeps.
\<close>

theorem approval_bound_and_spent_once:
  assumes "at_inv s"
    and "approval_service_issue h sql_approvals s d e resources policy ttl random issued =
      Inr ((token, challenge), s0)"
    and "approval_service_consume h sql_approvals (apv_run sql_approvals s0 before) token
      d' e' resources' policy' now = (True, s')"
  shows "cd_id d' = cd_id d \<and> cd_major d' = cd_major d \<and> cd_confirmation d' = cd_confirmation d \<and>
    en_release e' = en_release e \<and> consumer_fingerprint h e' = consumer_fingerprint h e \<and>
    sort resources' = sort resources \<and> policy' = policy \<and>
    payload_hash h (en_payload e') = payload_hash h (en_payload e) \<and>
    instant now < instant (later issued (ttl * 1000000)) \<and>
    fst (approval_service_consume h sql_approvals (apv_run sql_approvals s' afterwards) token
      d2 e2 resources2 policy2 now2) = False"
  by (rule sql_approval.issued_then_consumed [OF assms])

definition xa_confirmed :: descriptor where
  "xa_confirmed = xa_descriptor\<lparr>cd_confirmation := UserConfirmation\<rparr>"

definition xa_issue :: "(string \<times> approval) \<times> approval_table" where
  "xa_issue = projr (approval_service_issue host_ascii sql_approvals [] xa_confirmed xa_invocation
     [''plan:p1'', ''plan:p0''] ''policy'' 300 ''x'' (Aware 5))"

text \<open>Before it is accepted, another token is tried with the issued challenge.\<close>

definition xa_tried :: "approval_call list" where
  "xa_tried = [ConsumeCall ''t'' (snd (fst xa_issue)) (Aware 6)]"

definition xa_spent :: "bool \<times> approval_table" where
  "xa_spent = approval_service_consume host_ascii sql_approvals (apv_run sql_approvals (snd xa_issue) xa_tried)
     ''apr_x'' xa_confirmed xa_invocation [''plan:p0'', ''plan:p1''] ''policy'' (Aware 7)"

lemma xa_issue_run: "approval_service_issue host_ascii sql_approvals [] xa_confirmed xa_invocation
     [''plan:p1'', ''plan:p0''] ''policy'' 300 ''x'' (Aware 5) = Inr ((''apr_x'', snd (fst xa_issue)), snd xa_issue)"
  by code_simp

lemma xa_spent_run: "approval_service_consume host_ascii sql_approvals (apv_run sql_approvals (snd xa_issue) xa_tried)
     ''apr_x'' xa_confirmed xa_invocation [''plan:p0'', ''plan:p1''] ''policy'' (Aware 7) = (True, snd xa_spent)"
  by code_simp

theorem approval_bound_and_spent_once_witness:
  "instant (Aware 7) < instant (later (Aware 5) (300 * 1000000)) \<and>
   fst (approval_service_consume host_ascii sql_approvals (apv_run sql_approvals (snd xa_spent) xa_tried)
     ''apr_x'' xa_confirmed xa_invocation [''plan:p0'', ''plan:p1''] ''policy'' (Aware 8)) = False"
proof -
  have "at_inv []" by (simp add: at_inv_def)
  from approval_bound_and_spent_once [OF this xa_issue_run xa_spent_run] show ?thesis by blast
qed

section \<open>The sliding window of the in-memory limiter\<close>

type_synonym rate_event = "rat \<times> int"

definition window_sum :: "int \<Rightarrow> rate_event list \<Rightarrow> rat \<Rightarrow> int" where
  "window_sum w evs x = sum_list (map snd (filter (\<lambda>(t, c). x - of_int w < t \<and> t \<le> x) evs))"

text \<open>The events a sequence of calls (scope, cost, time) gets accepted for one scope.\<close>

fun accepted_events :: "rate_memory \<Rightarrow> (string \<times> int \<times> rat) list \<Rightarrow> string \<Rightarrow> rate_event list" where
  "accepted_events s [] scope = []"
| "accepted_events s ((sc, cost, now) # calls) scope =
     (case rm_consume s sc cost now of (ok, s') \<Rightarrow>
        (if ok \<and> sc = scope then [(now, cost)] else []) @ accepted_events s' calls scope)"

definition usage_of :: "rate_memory \<Rightarrow> string \<Rightarrow> rate_event list" where
  "usage_of s scope = (case map_of (rm_usage s) scope of None \<Rightarrow> [] | Some es \<Rightarrow> es)"

text \<open>The log of a scope splits into forgotten events, outside the window, and the stored ones.\<close>

definition rate_ok :: "rate_memory \<Rightarrow> string \<Rightarrow> rate_event list \<Rightarrow> rat \<Rightarrow> bool" where
  "rate_ok s scope evs now \<longleftrightarrow>
     (\<exists>old. evs = old @ usage_of s scope \<and> (\<forall>(t, c)\<in>set old. t \<le> now - of_int (rm_window s))) \<and>
     sorted (map fst evs) \<and> (\<forall>(t, c)\<in>set evs. t \<le> now \<and> 0 \<le> c) \<and>
     (\<forall>x. window_sum (rm_window s) evs x \<le> rm_limit s)"

lemma window_sum_append [simp]: "window_sum w (xs @ ys) x = window_sum w xs x + window_sum w ys x"
  by (simp add: window_sum_def)

lemma sum_filter_mono:
  fixes xs :: "rate_event list"
  assumes "\<And>e. e \<in> set xs \<Longrightarrow> P e \<Longrightarrow> Q e" and "\<And>e. e \<in> set xs \<Longrightarrow> 0 \<le> snd e"
  shows "sum_list (map snd (filter P xs)) \<le> sum_list (map snd (filter Q xs))"
  using assms
proof (induction xs)
  case (Cons e xs)
  then have IH: "sum_list (map snd (filter P xs)) \<le> sum_list (map snd (filter Q xs))" by simp
  show ?case using IH Cons.prems(1) [of e] Cons.prems(2) [of e] by (auto split: if_splits)
qed simp

lemma dropWhile_sorted:
  "sorted (map fst es) \<Longrightarrow> dropWhile (\<lambda>(t, c). t \<le> b) es = filter (\<lambda>(t, c). \<not> t \<le> b) (es :: rate_event list)"
proof (induction es)
  case (Cons e es)
  show ?case
  proof (cases "fst e \<le> b")
    case False
    then have "\<forall>(t, c)\<in>set es. \<not> t \<le> b" using Cons.prems by auto
    then have "filter (\<lambda>(t, c). \<not> t \<le> b) es = es" by (simp add: filter_id_conv)
    then show ?thesis using False by (cases e) simp
  qed (use Cons in \<open>cases e; simp\<close>)
qed simp

lemma live_events_filter:
  assumes ok: "rate_ok s scope evs prior" and now: "prior \<le> now"
  shows "filter (\<lambda>(t, c). \<not> t \<le> now - of_int (rm_window s)) evs = live_events s scope now"
    and "\<exists>old. evs = old @ live_events s scope now \<and>
           (\<forall>(t, c)\<in>set old. t \<le> now - of_int (rm_window s))"
proof -
  let ?b = "now - of_int (rm_window s)" and ?es = "usage_of s scope"
  obtain old where old: "evs = old @ ?es" "\<forall>(t, c)\<in>set old. t \<le> prior - of_int (rm_window s)"
    and sorted: "sorted (map fst evs)"
    using ok by (auto simp: rate_ok_def)
  have es: "sorted (map fst ?es)" using sorted old(1) by (simp add: sorted_append)
  have live: "live_events s scope now = dropWhile (\<lambda>(t, c). t \<le> ?b) ?es"
    by (simp add: live_events_def usage_of_def)
  have before: "\<forall>(t, c)\<in>set old. t \<le> ?b" using old(2) now by fastforce
  then have "filter (\<lambda>(t, c). \<not> t \<le> ?b) old = []" by (auto simp: filter_empty_conv)
  then show "filter (\<lambda>(t, c). \<not> t \<le> ?b) evs = live_events s scope now"
    using live dropWhile_sorted [OF es, of ?b] by (simp add: old(1))
  have "evs = (old @ takeWhile (\<lambda>(t, c). t \<le> ?b) ?es) @ live_events s scope now"
    using old(1) live by simp
  moreover have "\<forall>(t, c)\<in>set (old @ takeWhile (\<lambda>(t, c). t \<le> ?b) ?es). t \<le> ?b"
    using before by (auto dest: set_takeWhileD)
  ultimately show "\<exists>old. evs = old @ live_events s scope now \<and> (\<forall>(t, c)\<in>set old. t \<le> ?b)" by blast
qed

lemma rate_step:
  assumes ok: "rate_ok s scope evs prior" and now: "prior \<le> now" and cost: "0 \<le> cost"
    and run: "rm_consume s sc cost now = (allowed, s')"
  shows "rate_ok s' scope (evs @ (if allowed \<and> sc = scope then [(now, cost)] else [])) now \<and>
         rm_limit s' = rm_limit s \<and> rm_window s' = rm_window s"
proof -
  let ?w = "rm_window s"
  have same: "rm_limit s' = rm_limit s" "rm_window s' = rm_window s"
    using run by (auto simp: rm_consume_def Let_def split: if_splits)
  have times: "\<forall>(t, c)\<in>set evs. t \<le> now \<and> 0 \<le> c" "sorted (map fst evs)"
    "\<And>x. window_sum ?w evs x \<le> rm_limit s"
    using ok now by (fastforce simp: rate_ok_def)+
  show ?thesis
  proof (cases "sc = scope")
    case False
    then have "usage_of s' scope = usage_of s scope"
      using run by (auto simp: rm_consume_def Let_def usage_of_def split: if_splits)
    moreover have "\<exists>old. evs = old @ usage_of s scope \<and> (\<forall>(t, c)\<in>set old. t \<le> now - of_int ?w)"
      using ok now by (fastforce simp: rate_ok_def)
    ultimately show ?thesis using False times same by (simp add: rate_ok_def)
  next
    case True
    let ?live = "live_events s scope now"
    obtain old where old: "evs = old @ ?live" "\<forall>(t, c)\<in>set old. t \<le> now - of_int ?w"
      using live_events_filter(2) [OF ok now] by blast
    show ?thesis
    proof (cases allowed)
      case False
      then have "usage_of s' scope = ?live"
        using run True by (auto simp: rm_consume_def Let_def usage_of_def split: if_splits)
      then show ?thesis using False old times same by (auto simp: rate_ok_def)
    next
      case allowed: True
      then have usage: "usage_of s' scope = ?live @ [(now, cost)]"
        and fits: "sum_list (map snd ?live) + cost \<le> rm_limit s"
        using run True by (auto simp: rm_consume_def Let_def usage_of_def split: if_splits)
      have "window_sum ?w (evs @ [(now, cost)]) x \<le> rm_limit s" for x
      proof (cases "x - of_int ?w < now \<and> now \<le> x")
        case True
        have "window_sum ?w evs x \<le> sum_list (map snd (filter (\<lambda>(t, c). \<not> t \<le> now - of_int ?w) evs))"
          unfolding window_sum_def by (rule sum_filter_mono) (use True times(1) in auto)
        also have "\<dots> = sum_list (map snd ?live)" by (simp add: live_events_filter(1) [OF ok now])
        finally show ?thesis using fits True by (simp add: window_sum_def)
      next
        case False
        then show ?thesis using times(3) [of x] by (auto simp: window_sum_def)
      qed
      moreover have "sorted (map fst (evs @ [(now, cost)]))"
        using times by (auto simp: sorted_append)
      ultimately show ?thesis using allowed True old times cost same usage
        by (auto simp: rate_ok_def)
    qed
  qed
qed

lemma accepted_bound:
  assumes "rate_ok s scope evs prior" and "sorted (prior # map (snd \<circ> snd) calls)"
    and "\<forall>(sc, cost, now)\<in>set calls. 0 \<le> cost"
  shows "window_sum (rm_window s) (evs @ accepted_events s calls scope) x \<le> rm_limit s"
  using assms
proof (induction calls arbitrary: s evs prior)
  case Nil
  then show ?case by (simp add: rate_ok_def)
next
  case (Cons call calls)
  obtain sc cost now where call: "call = (sc, cost, now)" by (cases call)
  obtain allowed s' where run: "rm_consume s sc cost now = (allowed, s')"
    by (cases "rm_consume s sc cost now")
  let ?evs = "evs @ (if allowed \<and> sc = scope then [(now, cost)] else [])"
  have step: "rate_ok s' scope ?evs now" "rm_limit s' = rm_limit s" "rm_window s' = rm_window s"
    using rate_step [OF Cons.prems(1) _ _ run] Cons.prems(2,3) call by auto
  have "window_sum (rm_window s') (?evs @ accepted_events s' calls scope) x \<le> rm_limit s'"
    by (rule Cons.IH [OF step(1)]) (use Cons.prems call in auto)
  then show ?case using step(2,3) run by (simp only: call accepted_events.simps prod.case append_assoc)
qed

text \<open>
  The sliding-window limiter keeps its promise: however calls of all scopes are
  interleaved, while the clock does not go back, the cost it accepts for one scope within any
  window of its length is at most the limit.
\<close>

theorem rate_window_bound:
  assumes "rm_usage s = []" and "0 \<le> rm_limit s" and "sorted (map (snd \<circ> snd) calls)"
    and "\<forall>(sc, cost, now)\<in>set calls. 0 \<le> cost"
  shows "window_sum (rm_window s) (accepted_events s calls scope) x \<le> rm_limit s"
proof (cases calls)
  case (Cons call rest)
  let ?t = "snd (snd call)"
  have "rate_ok s scope [] ?t" using assms(1,2) by (simp add: rate_ok_def usage_of_def window_sum_def)
  from accepted_bound [OF this _ assms(4), of x] show ?thesis using assms(3) Cons by simp
qed (use assms in \<open>simp add: window_sum_def\<close>)

definition xa_rates :: rate_memory where
  "xa_rates = \<lparr>rm_limit = 3, rm_window = 60, rm_usage = []\<rparr>"

theorem rate_window_bound_witness:
  "window_sum 60 (accepted_events xa_rates [(''a'', 2, 1), (''b'', 3, 2), (''a'', 2, 3), (''a'', 1, 4)] ''a'') 60 \<le> 3"
  using rate_window_bound [of xa_rates "[(''a'', 2, 1), (''b'', 3, 2), (''a'', 2, 3), (''a'', 1, 4)]" "''a''" 60]
  by (simp add: xa_rates_def)

end
