(* ===== verification/Operations.thy ===== *)
theory Operations
  imports Outcomes
begin

text \<open>
  The asynchronous operation state machine (\<open>backend/capability_v2/operations.py\<close>): the
  in-memory and the SQL store, the transition table, the tenant-scoped service and the
  reconciler of externally executed operations. The SQL store is the list of rows of its table
  (primary key \<open>operation_id\<close>). The random part of an operation identifier is an argument.
\<close>

section \<open>Records and stores\<close>

record operation =
  on_ref :: operation_ref
  on_kind :: string
  on_tenant :: string
  on_actor :: string
  on_consumer :: string
  on_resources :: "string list"
  on_created :: timestamp
  on_updated :: timestamp
  on_error :: "string option"

datatype operation_error =
    OperationError string
  | TransitionError string
  | AuthorizationError string
  | OperationIntegrity

abbreviation on_status :: "operation \<Rightarrow> operation_status" where
  "on_status r \<equiv> op_status (on_ref r)"

abbreviation on_version :: "operation \<Rightarrow> int" where
  "on_version r \<equiv> op_version (on_ref r)"

abbreviation on_id :: "operation \<Rightarrow> string" where
  "on_id r \<equiv> op_id (on_ref r)"

record 's operation_api =
  opa_create :: "'s \<Rightarrow> operation \<Rightarrow> operation_error + operation \<times> 's"
  opa_get :: "'s \<Rightarrow> string \<Rightarrow> operation_error + operation"
  opa_swap :: "'s \<Rightarrow> string \<Rightarrow> int \<Rightarrow> operation \<Rightarrow> operation_error + operation \<times> 's"

type_synonym operation_memory = "(string \<times> operation) list"

definition oms_create :: "operation_memory \<Rightarrow> operation \<Rightarrow> operation_error + operation \<times> operation_memory" where
  "oms_create s r =
     (if map_of s (on_id r) \<noteq> None then Inl (OperationError ''operation_exists'')
      else Inr (r, AList.update (on_id r) r s))"

definition oms_get :: "operation_memory \<Rightarrow> string \<Rightarrow> operation_error + operation" where
  "oms_get s i = (case map_of s i of None \<Rightarrow> Inl (OperationError ''operation_not_found'') | Some r \<Rightarrow> Inr r)"

definition oms_swap ::
  "operation_memory \<Rightarrow> string \<Rightarrow> int \<Rightarrow> operation \<Rightarrow> operation_error + operation \<times> operation_memory" where
  "oms_swap s i expected replacement =
     (case map_of s i of
        None \<Rightarrow> Inl (OperationError ''operation_not_found'')
      | Some current \<Rightarrow>
          if on_version current \<noteq> expected then Inl (TransitionError ''operation version conflict'')
          else Inr (replacement, AList.update i replacement s))"

definition memory_operations :: "operation_memory operation_api" where
  "memory_operations = \<lparr>opa_create = oms_create, opa_get = oms_get, opa_swap = oms_swap\<rparr>"

type_synonym operation_table = "operation list"

definition operation_row :: "operation \<Rightarrow> operation" where
  "operation_row r = r\<lparr>on_created := to_column (on_created r), on_updated := to_column (on_updated r)\<rparr>"

definition operation_from_row :: "operation \<Rightarrow> operation" where
  "operation_from_row r = r\<lparr>on_created := as_utc (on_created r), on_updated := as_utc (on_updated r)\<rparr>"

definition ops_create :: "operation_table \<Rightarrow> operation \<Rightarrow> operation_error + operation \<times> operation_table" where
  "ops_create s r =
     (if list_ex (\<lambda>x. on_id x = on_id r) s then Inl OperationIntegrity
      else Inr (r, s @ [operation_row r]))"

definition ops_get :: "operation_table \<Rightarrow> string \<Rightarrow> operation_error + operation" where
  "ops_get s i = (case List.find (\<lambda>r. on_id r = i) s of
     None \<Rightarrow> Inl (OperationError ''operation_not_found'') | Some row \<Rightarrow> Inr (operation_from_row row))"

text \<open>The update sets the status, version, error code and time of the row, nothing else.\<close>

definition ops_swap ::
  "operation_table \<Rightarrow> string \<Rightarrow> int \<Rightarrow> operation \<Rightarrow> operation_error + operation \<times> operation_table" where
  "ops_swap s i expected replacement =
     (let hit = (\<lambda>r. on_id r = i \<and> on_version r = expected) in
      if length (filter hit s) \<noteq> 1 then Inl (TransitionError ''operation version conflict'')
      else Inr (replacement, map (\<lambda>r. if hit r
             then r\<lparr>on_ref := (on_ref r)\<lparr>op_status := on_status replacement, op_version := on_version replacement\<rparr>,
                    on_error := on_error replacement, on_updated := to_column (on_updated replacement)\<rparr>
             else r) s))"

definition sql_operations :: "operation_table operation_api" where
  "sql_operations = \<lparr>opa_create = ops_create, opa_get = ops_get, opa_swap = ops_swap\<rparr>"

section \<open>Transitions\<close>

fun transitions :: "operation_status \<Rightarrow> operation_status list" where
  "transitions OpAccepted = [OpClaimed, OpCancelled, OpFailed]"
| "transitions OpClaimed = [OpPreparing, OpCancelled, OpFailed]"
| "transitions OpPreparing = [OpRunning, OpCancelled, OpFailed]"
| "transitions OpRunning = [OpPostProcessing, OpCancelled, OpFailed, OpOutcomeUnknown]"
| "transitions OpPostProcessing = [OpCompleted, OpFailed, OpOutcomeUnknown]"
| "transitions OpOutcomeUnknown = [OpCompleted, OpFailed, OpCancelled]"
| "transitions OpCompleted = []"
| "transitions OpFailed = []"
| "transitions OpCancelled = []"

section \<open>The service\<close>

definition scope_covers :: "string list \<Rightarrow> string \<Rightarrow> bool" where
  "scope_covers granted ref \<longleftrightarrow>
     ''*'' \<in> set granted \<or> ref \<in> set granted \<or> (str_before CHR '':'' ref @ '':*'') \<in> set granted"

definition scopes_allow :: "string list \<Rightarrow> string list \<Rightarrow> bool" where
  "scopes_allow granted requested \<longleftrightarrow> list_all (scope_covers granted) requested"

definition operation_create ::
  "'s operation_api \<Rightarrow> 's \<Rightarrow> string \<Rightarrow> consumer_identity \<Rightarrow> string list \<Rightarrow> string \<Rightarrow> timestamp \<Rightarrow>
   operation_error + operation_ref \<times> 's" where
  "operation_create api s kind who resources uuid now =
     (if kind = [] \<or> py_len kind > 128 then Inl (OperationError ''invalid operation kind'')
      else
        let ref = \<lparr>op_id = ''operation_'' @ uuid, op_status = OpAccepted, op_version = 1\<rparr>;
            r = \<lparr>on_ref = ref, on_kind = kind, on_tenant = tn_id (ci_tenant who), on_actor = actor_id who,
                 on_consumer = cn_id (ci_consumer who), on_resources = sorted_strs resources,
                 on_created = now, on_updated = now, on_error = None\<rparr> in
        bindr (opa_create api s r) (\<lambda>(r', s'). Inr (on_ref r', s')))"

definition authorize_operation ::
  "operation \<Rightarrow> consumer_identity \<Rightarrow> string list \<Rightarrow> operation_error + operation" where
  "authorize_operation r who granted =
     (let same_actor = (on_actor r = actor_id who) in
      if on_tenant r \<noteq> tn_id (ci_tenant who)
      then Inl (AuthorizationError ''operation belongs to another tenant'')
      else if \<not> same_actor \<and> granted = []
      then Inl (AuthorizationError ''operation access requires owner or resource grant'')
      else if on_resources r = [] \<and> \<not> same_actor
      then Inl (AuthorizationError ''private operation belongs to another actor'')
      else if granted \<noteq> [] \<and> \<not> scopes_allow granted (on_resources r)
      then Inl (AuthorizationError ''operation resource scope is not granted'')
      else Inr r)"

definition get_authorized ::
  "'s operation_api \<Rightarrow> 's \<Rightarrow> string \<Rightarrow> consumer_identity \<Rightarrow> string list \<Rightarrow> operation_error + operation" where
  "get_authorized api s i who granted =
     bindr (opa_get api s i) (\<lambda>r. authorize_operation r who granted)"

definition moved :: "operation \<Rightarrow> operation_status \<Rightarrow> string option \<Rightarrow> timestamp \<Rightarrow> operation" where
  "moved r status code now =
     r\<lparr>on_ref := (on_ref r)\<lparr>op_status := status, op_version := on_version r + 1\<rparr>,
       on_updated := now, on_error := code\<rparr>"

definition operation_transition ::
  "'s operation_api \<Rightarrow> 's \<Rightarrow> string \<Rightarrow> operation_status \<Rightarrow> int \<Rightarrow> consumer_identity \<Rightarrow> string option \<Rightarrow>
   string list \<Rightarrow> timestamp \<Rightarrow> operation_error + operation_ref \<times> 's" where
  "operation_transition api s i status expected who code granted now =
     bindr (get_authorized api s i who granted) (\<lambda>r.
       if status \<notin> set (transitions (on_status r))
       then Inl (TransitionError (''invalid operation transition: '' @ operation_status_value (on_status r) @
              '' -> '' @ operation_status_value status))
       else if status = OpFailed \<and> (code = None \<or> code = Some [])
       then Inl (TransitionError ''failed operation requires error_code'')
       else bindr (opa_swap api s i expected (moved r status code now)) (\<lambda>(r', s'). Inr (on_ref r', s')))"

section \<open>The reconciler\<close>

definition ordered_statuses :: "operation_status list" where
  "ordered_statuses = [OpAccepted, OpClaimed, OpPreparing, OpRunning]"

definition path_end :: "operation_status \<Rightarrow> operation_status \<Rightarrow> operation_status list" where
  "path_end current target =
     (if target = OpCompleted then
        (if current = OpOutcomeUnknown \<or> current = OpPostProcessing then [OpCompleted]
         else [OpPostProcessing, OpCompleted])
      else if target \<in> {OpFailed, OpOutcomeUnknown} then [target] else [])"

definition reconciliation_path ::
  "operation_status \<Rightarrow> operation_status \<Rightarrow> operation_error + operation_status list" where
  "reconciliation_path current target =
     (if current \<in> {OpCompleted, OpFailed, OpCancelled}
      then Inl (TransitionError ''terminal operation cannot be reconciled to a different state'')
      else if target = OpClaimed then
        (if current \<noteq> OpAccepted then
           (if current \<in> set (tl ordered_statuses) then Inr []
            else Inl (TransitionError ''operation cannot return to claimed''))
         else Inr [OpClaimed])
      else if current \<in> set ordered_statuses
      then Inr (drop (Suc (index_of current ordered_statuses)) ordered_statuses @ path_end OpRunning target)
      else Inr (path_end current target))"

text \<open>One swap per status of the path; every clock reading is \<open>now\<close>.\<close>

fun follow_path ::
  "'s operation_api \<Rightarrow> 's \<Rightarrow> operation \<Rightarrow> operation_status list \<Rightarrow> string option \<Rightarrow> timestamp \<Rightarrow>
   operation_error + operation \<times> 's" where
  "follow_path api s r [] code now = Inr (r, s)"
| "follow_path api s r (status # path) code now =
     (case opa_swap api s (on_id r) (on_version r)
             (moved r status (if status \<in> {OpFailed, OpOutcomeUnknown} then code else None) now) of
        Inl e \<Rightarrow> Inl e
      | Inr (r', s') \<Rightarrow> follow_path api s' r' path code now)"

definition reconcile_operation ::
  "'s operation_api \<Rightarrow> 's \<Rightarrow> string \<Rightarrow> string \<Rightarrow> operation_status \<Rightarrow> string option \<Rightarrow> timestamp \<Rightarrow>
   operation_error + operation_ref \<times> 's" where
  "reconcile_operation api s prefix i target code now =
     bindr (opa_get api s i) (\<lambda>r.
       if \<not> str_prefix prefix (on_kind r)
       then Inl (AuthorizationError ''operation kind is outside reconciler boundary'')
       else if on_status r = target then Inr (on_ref r, s)
       else if target \<notin> {OpCompleted, OpFailed, OpOutcomeUnknown, OpClaimed}
       then Inl (TransitionError ''unsupported external reconciliation target'')
       else if target = OpFailed \<and> (code = None \<or> code = Some [])
       then Inl (TransitionError ''failed operation requires error_code'')
       else bindr (reconciliation_path (on_status r) target) (\<lambda>path.
              bindr (follow_path api s r path code now) (\<lambda>(r', s'). Inr (on_ref r', s'))))"

end
