(* ===== verification/OperationProperties.thy ===== *)
theory OperationProperties
  imports Operations OutcomeLedger CapabilityExamples
begin

text \<open>
  Correctness of asynchronous operations. Both stores provide one interface, the locale
  \<open>operation_store\<close>: records are read, created once and replaced under their version. Writers that
  read, decide and swap as separate steps are modelled as an interleaved step relation; along it
  an operation follows the transition table as long as every writer expects the version it read.
\<close>

section \<open>The interface of the stores\<close>

locale operation_store =
  fixes api :: "'s operation_api"
    and view :: "'s \<Rightarrow> string \<Rightarrow> operation option"
    and inv :: "'s \<Rightarrow> bool"
  assumes key: "inv s \<Longrightarrow> view s i = Some r \<Longrightarrow> on_id r = i"
    and get: "opa_get api s i =
      (case view s i of None \<Rightarrow> Inl (OperationError ''operation_not_found'') | Some r \<Rightarrow> Inr r)"
    and create_new: "inv s \<Longrightarrow> view s (on_id r) = None \<Longrightarrow> tz_aware (on_created r) \<Longrightarrow>
      tz_aware (on_updated r) \<Longrightarrow>
      \<exists>s'. opa_create api s r = Inr (r, s') \<and> inv s' \<and> view s' = (view s)(on_id r \<mapsto> r)"
    and create_known: "inv s \<Longrightarrow> view s (on_id r) = Some x \<Longrightarrow> \<exists>e. opa_create api s r = Inl e"
    and swap_moved: "inv s \<Longrightarrow> view s i = Some r \<Longrightarrow> on_version r = expected \<Longrightarrow> on_id p = i \<Longrightarrow>
      tz_aware now \<Longrightarrow> on_created p = on_created r \<Longrightarrow> on_kind p = on_kind r \<Longrightarrow>
      on_tenant p = on_tenant r \<Longrightarrow> on_actor p = on_actor r \<Longrightarrow> on_consumer p = on_consumer r \<Longrightarrow>
      on_resources p = on_resources r \<Longrightarrow>
      \<exists>s'. opa_swap api s i expected (moved p status code now) = Inr (moved p status code now, s') \<and>
           inv s' \<and> view s' = (view s)(i \<mapsto> moved p status code now)"
    and swap_stale: "inv s \<Longrightarrow> view s i = Some r \<Longrightarrow> on_version r \<noteq> expected \<Longrightarrow>
      opa_swap api s i expected x = Inl (TransitionError ''operation version conflict'')"

section \<open>The stores provide it\<close>

definition oms_inv :: "operation_memory \<Rightarrow> bool" where
  "oms_inv s \<longleftrightarrow> (\<forall>i r. map_of s i = Some r \<longrightarrow> on_id r = i)"

interpretation memory_store: operation_store memory_operations map_of oms_inv
  by unfold_locales
    (auto simp: memory_operations_def oms_get_def oms_create_def oms_swap_def oms_inv_def
      update_conv' moved_def split: option.splits)

definition ops_view :: "operation_table \<Rightarrow> string \<Rightarrow> operation option" where
  "ops_view s = map_of (map (\<lambda>r. (on_id r, operation_from_row r)) s)"

definition ops_inv :: "operation_table \<Rightarrow> bool" where
  "ops_inv s \<longleftrightarrow> distinct (map on_id s)"

lemma find_map_of: "List.find (\<lambda>x. f x = k) xs = map_of (map (\<lambda>x. (f x, x)) xs) k"
  by (induction xs) auto

lemma map_of_map_values: "map_of (map (\<lambda>x. (f x, g x)) xs) k = map_option g (map_of (map (\<lambda>x. (f x, x)) xs) k)"
  by (induction xs) auto

lemma on_id_from_row [simp]: "on_ref (operation_from_row r) = on_ref r"
  by (simp add: operation_from_row_def)

lemma ops_view_row:
  assumes "ops_inv s" and "ops_view s i = Some r"
  obtains w where "w \<in> set s" and "on_id w = i" and "operation_from_row w = r"
    and "\<And>x. x \<in> set s \<Longrightarrow> on_id x = i \<Longrightarrow> x = w"
proof -
  from assms(2) have "(i, r) \<in> set (map (\<lambda>r. (on_id r, operation_from_row r)) s)"
    unfolding ops_view_def by (rule map_of_SomeD)
  then obtain w where w: "w \<in> set s" "on_id w = i" "operation_from_row w = r" by auto
  have "x = w" if "x \<in> set s" "on_id x = i" for x
    using assms(1) w that by (auto simp: ops_inv_def distinct_map inj_on_def)
  with w show ?thesis using that by blast
qed

lemma map_of_update_row:
  assumes "distinct (map f xs)" and "w \<in> set xs" and "f (g w) = f w"
    and "\<And>x. x \<in> set xs \<Longrightarrow> hit x \<longleftrightarrow> x = w"
  shows "map_of (map (\<lambda>x. (f x, v x)) (map (\<lambda>x. if hit x then g x else x) xs)) =
         (map_of (map (\<lambda>x. (f x, v x)) xs))(f w \<mapsto> v (g w))"
  using assms
proof (induction xs)
  case (Cons x xs)
  show ?case
  proof (cases "x = w")
    case True
    then have "w \<notin> set xs" using Cons.prems(1) by auto
    then have "map (\<lambda>x. if hit x then g x else x) xs = xs"
      using Cons.prems(4) by (intro map_idI) auto
    then show ?thesis using True Cons.prems by (simp add: fun_eq_iff)
  next
    case False
    then have "f x \<noteq> f w" "w \<in> set xs" "\<not> hit x" using Cons.prems by auto
    then show ?thesis using Cons.IH Cons.prems by (simp add: fun_eq_iff)
  qed
qed simp

lemma ops_swap_row:
  assumes "ops_inv s" and "ops_view s i = Some r"
  shows "length (filter (\<lambda>x. on_id x = i \<and> on_version x = expected) s) = 1 \<longleftrightarrow> on_version r = expected"
proof -
  obtain w where w: "w \<in> set s" "on_id w = i" "operation_from_row w = r"
    and only: "\<And>x. x \<in> set s \<Longrightarrow> on_id x = i \<Longrightarrow> x = w" using ops_view_row [OF assms] by blast
  have version: "on_version w = on_version r" using w(3) by auto
  show ?thesis
  proof (cases "on_version r = expected")
    case True
    then have "filter (\<lambda>x. on_id x = i \<and> on_version x = expected) s = [w]"
      using filter_distinct_key [of on_id s w "\<lambda>x. on_version x = expected"] assms(1) w version
      by (simp add: ops_inv_def)
    then show ?thesis using True by simp
  next
    case False
    then have "filter (\<lambda>x. on_id x = i \<and> on_version x = expected) s = []"
      using only version by (auto simp: filter_empty_conv)
    then show ?thesis using False by simp
  qed
qed

lemma ops_swap_moved:
  assumes inv: "ops_inv s" and view: "ops_view s i = Some r" and version: "on_version r = expected"
    and p: "on_id p = i" "on_created p = on_created r" "on_kind p = on_kind r" "on_tenant p = on_tenant r"
      "on_actor p = on_actor r" "on_consumer p = on_consumer r" "on_resources p = on_resources r"
    and now: "tz_aware now"
  shows "\<exists>s'. ops_swap s i expected (moved p status code now) = Inr (moved p status code now, s') \<and>
           ops_inv s' \<and> ops_view s' = (ops_view s)(i \<mapsto> moved p status code now)"
proof -
  obtain w where w: "w \<in> set s" "on_id w = i" "operation_from_row w = r"
    and only: "\<And>x. x \<in> set s \<Longrightarrow> on_id x = i \<Longrightarrow> x = w" using ops_view_row [OF inv view] by blast
  let ?q = "moved p status code now"
  define g :: "operation \<Rightarrow> operation" where "g = (\<lambda>x. x\<lparr>on_ref := (on_ref x)\<lparr>op_status := on_status ?q, op_version := on_version ?q\<rparr>,
                    on_error := on_error ?q, on_updated := to_column (on_updated ?q)\<rparr>)"
  define hit :: "operation \<Rightarrow> bool" where "hit = (\<lambda>x. on_id x = i \<and> on_version x = expected)"
  have wv: "on_version w = expected" using w(3) version by auto
  have hits: "hit x \<longleftrightarrow> x = w" if "x \<in> set s" for x
    using only [OF that] w(2) wv by (auto simp: hit_def)
  have ids: "on_id (g x) = on_id x" for x by (simp add: g_def)
  have row: "operation_from_row (g w) = ?q"
  proof -
    have r: "r = operation_from_row w" using w(3) by simp
    have "on_ref (operation_from_row (g w)) = on_ref ?q"
      using p(1) w(2) by (simp add: g_def moved_def operation_from_row_def)
    then show ?thesis
      using p(2-) now by - (rule operation.equality, simp_all add: g_def r moved_def operation_from_row_def)
  qed
  have "ops_swap s i expected ?q = Inr (?q, map (\<lambda>x. if hit x then g x else x) s)"
    using ops_swap_row [OF inv view, of expected] version
    by (simp add: ops_swap_def Let_def hit_def g_def)
  moreover have "ops_inv (map (\<lambda>x. if hit x then g x else x) s)"
    using inv by (simp add: ops_inv_def comp_def ids if_distrib [of on_id] cong: if_cong)
  moreover have "ops_view (map (\<lambda>x. if hit x then g x else x) s) = (ops_view s)(i \<mapsto> ?q)"
    unfolding ops_view_def
    using map_of_update_row [of on_id s w g hit operation_from_row] inv w hits ids row
    by (simp add: ops_inv_def)
  ultimately show ?thesis by blast
qed

interpretation sql_store: operation_store sql_operations ops_view ops_inv
proof unfold_locales
  fix s :: operation_table and i r
  assume "ops_inv s" "ops_view s i = Some r"
  then show "on_id r = i" using ops_view_row by (metis on_id_from_row)
next
  fix s :: operation_table and i
  show "opa_get sql_operations s i =
      (case ops_view s i of None \<Rightarrow> Inl (OperationError ''operation_not_found'') | Some r \<Rightarrow> Inr r)"
    by (simp add: sql_operations_def ops_get_def ops_view_def find_map_of map_of_map_values [of on_id operation_from_row]
      split: option.split)
next
  fix s :: operation_table and r
  assume a: "ops_inv s" "ops_view s (on_id r) = None" "tz_aware (on_created r)" "tz_aware (on_updated r)"
  have "\<not> list_ex (\<lambda>x. on_id x = on_id r) s"
  proof -
    have "on_id r \<notin> on_id ` set s"
      using a(2) by (simp add: ops_view_def map_of_eq_None_iff image_image)
    then show ?thesis by (auto simp: list_ex_iff intro: rev_image_eqI)
  qed
  moreover have "ops_inv (s @ [operation_row r])"
    using a(1,2) by (auto simp: ops_inv_def ops_view_def map_of_eq_None_iff image_image operation_row_def)
  moreover have "ops_view (s @ [operation_row r]) = (ops_view s)(on_id r \<mapsto> r)"
    using a by (auto simp: ops_view_def operation_row_def operation_from_row_def map_add_def fun_eq_iff split: option.splits)
  ultimately show "\<exists>s'. opa_create sql_operations s r = Inr (r, s') \<and> ops_inv s' \<and>
      ops_view s' = (ops_view s)(on_id r \<mapsto> r)"
    by (simp add: sql_operations_def ops_create_def)
next
  fix s :: operation_table and r x
  assume "ops_inv s" "ops_view s (on_id r) = Some x"
  then obtain w where "w \<in> set s" "on_id w = on_id r" using ops_view_row by metis
  then have "list_ex (\<lambda>x. on_id x = on_id r) s" by (auto simp: list_ex_iff)
  then show "\<exists>e. opa_create sql_operations s r = Inl e"
    by (simp add: sql_operations_def ops_create_def)
next
  fix s :: operation_table and i r expected x
  assume "ops_inv s" "ops_view s i = Some r" "on_version r \<noteq> expected"
  then show "opa_swap sql_operations s i expected x = Inl (TransitionError ''operation version conflict'')"
    using ops_swap_row [of s i r expected] by (simp add: sql_operations_def ops_swap_def)
qed (use ops_swap_moved in \<open>simp add: sql_operations_def\<close>)

section \<open>Interleaved writers\<close>

text \<open>
  A writer reads a record, decides on a transition the table allows, and later swaps the moved
  record in. \<open>honest\<close> writers expect the version they read, as the reconciler does.
\<close>

record intent =
  it_read :: operation
  it_status :: operation_status
  it_expected :: int
  it_code :: "string option"
  it_now :: timestamp

definition intent_moved :: "intent \<Rightarrow> operation" where
  "intent_moved p = moved (it_read p) (it_status p) (it_code p) (it_now p)"

inductive op_step :: "'s operation_api \<Rightarrow> bool \<Rightarrow> 's \<times> intent list \<Rightarrow> 's \<times> intent list \<Rightarrow> bool"
  for api honest where
  op_created: "tz_aware now \<Longrightarrow> operation_create api s kind who refs uuid now = Inr (ref, s') \<Longrightarrow>
    op_step api honest (s, ps) (s', ps)"
| op_reads: "opa_get api s i = Inr (it_read p) \<Longrightarrow>
    it_status p \<in> set (transitions (on_status (it_read p))) \<Longrightarrow> tz_aware (it_now p) \<Longrightarrow>
    (honest \<Longrightarrow> it_expected p = on_version (it_read p)) \<Longrightarrow>
    op_step api honest (s, ps) (s, p # ps)"
| op_swaps: "p \<in> set ps \<Longrightarrow>
    opa_swap api s (on_id (it_read p)) (it_expected p) (intent_moved p) = Inr (r, s') \<Longrightarrow>
    op_step api honest (s, ps) (s', ps)"

inductive_cases op_stepE: "op_step api honest sp tq"

definition same_operation :: "operation \<Rightarrow> operation \<Rightarrow> bool" where
  "same_operation r r' \<longleftrightarrow> on_id r' = on_id r \<and> on_kind r' = on_kind r \<and> on_tenant r' = on_tenant r \<and>
     on_actor r' = on_actor r \<and> on_consumer r' = on_consumer r \<and> on_resources r' = on_resources r \<and>
     on_created r' = on_created r"

definition legal :: "operation_status \<Rightarrow> operation_status \<Rightarrow> bool" where
  "legal a b \<longleftrightarrow> b \<in> set (transitions a)"

text \<open>A later record of the same operation: moved along the table once per version, or unchanged.\<close>

definition evolves :: "operation \<Rightarrow> operation \<Rightarrow> bool" where
  "evolves r r' \<longleftrightarrow> same_operation r r' \<and>
     (\<exists>n. on_version r' = on_version r + int n \<and> (legal ^^ n) (on_status r) (on_status r') \<and>
          (n = 0 \<longrightarrow> r' = r))"

lemma evolves_refl [simp]: "evolves r r"
  by (auto simp: evolves_def same_operation_def intro: exI [of _ 0])

lemma evolves_trans:
  assumes "evolves a b" and "evolves b c"
  shows "evolves a c"
proof -
  obtain m where m: "on_version b = on_version a + int m" "(legal ^^ m) (on_status a) (on_status b)"
      "m = 0 \<longrightarrow> b = a" using assms(1) unfolding evolves_def by blast
  obtain n where n: "on_version c = on_version b + int n" "(legal ^^ n) (on_status b) (on_status c)"
      "n = 0 \<longrightarrow> c = b" using assms(2) unfolding evolves_def by blast
  have "(legal ^^ (m + n)) (on_status a) (on_status c)"
    using m(2) n(2) by (auto simp: relpowp_add)
  then show ?thesis using assms m n unfolding evolves_def same_operation_def
    by (intro conjI exI [of _ "m + n"]) auto
qed

lemma evolves_moved: "legal (on_status r) status \<Longrightarrow> evolves r (moved r status code now)"
  by (auto simp: evolves_def same_operation_def moved_def intro!: exI [of _ 1])

lemma evolves_same_version: "evolves r r' \<Longrightarrow> on_version r' = on_version r \<Longrightarrow> r' = r"
  by (auto simp: evolves_def)

lemma evolves_terminal: "evolves r r' \<Longrightarrow> transitions (on_status r) = [] \<Longrightarrow> r' = r"
proof -
  assume e: "evolves r r'" and final: "transitions (on_status r) = []"
  from e obtain n where n: "(legal ^^ n) (on_status r) (on_status r')" "n = 0 \<longrightarrow> r' = r"
    by (auto simp: evolves_def)
  have "n = 0"
  proof (cases n)
    case (Suc k)
    then obtain b where "legal (on_status r) b" using n(1) relpowp_Suc_D2 [of k legal] by blast
    then show ?thesis using final by (simp add: legal_def)
  qed simp
  with n(2) show ?thesis by simp
qed

context operation_store
begin

lemma create_view:
  assumes "inv s" and "operation_create api s kind who refs uuid now = Inr (ref, s')" and "tz_aware now"
  shows "inv s' \<and> (\<exists>r. view s (on_id r) = None \<and> view s' = (view s)(on_id r \<mapsto> r))"
proof -
  from assms(2) obtain r r' where r: "opa_create api s r = Inr (r', s')"
    and times: "on_created r = now" "on_updated r = now"
    by (auto simp: operation_create_def Let_def bindr_eq_Inr split: if_splits)
  then have new: "view s (on_id r) = None"
    using create_known [OF assms(1), of r] by (cases "view s (on_id r)") auto
  then show ?thesis using create_new [OF assms(1), of r] r times assms(3) by auto
qed

definition sound :: "'s \<Rightarrow> intent list \<Rightarrow> bool" where
  "sound s ps \<longleftrightarrow> inv s \<and> (\<forall>p\<in>set ps. tz_aware (it_now p) \<and> it_expected p = on_version (it_read p) \<and>
     it_status p \<in> set (transitions (on_status (it_read p))) \<and>
     (\<exists>r. view s (on_id (it_read p)) = Some r \<and> evolves (it_read p) r))"

definition grows :: "'s \<Rightarrow> 's \<Rightarrow> bool" where
  "grows s t \<longleftrightarrow> (\<forall>i r. view s i = Some r \<longrightarrow> (\<exists>r'. view t i = Some r' \<and> evolves r r'))"

lemma grows_sound:
  assumes "sound s ps" and "grows s t" and "inv t"
  shows "sound t ps"
  using assms unfolding sound_def grows_def by (meson evolves_trans)

lemma step_sound:
  assumes "op_step api True (s, ps) (t, qs)" and sound: "sound s ps"
  shows "sound t qs \<and> grows s t"
  using assms(1)
proof (rule op_stepE)
  fix now s0 kind who refs uuid ref s' ps'
  assume eq: "(s, ps) = (s0, ps')" "(t, qs) = (s', ps')"
    and now: "tz_aware now" "operation_create api s0 kind who refs uuid now = Inr (ref, s')"
  have inv: "inv s" using sound by (simp add: sound_def)
  obtain r where r: "inv t" "view s (on_id r) = None" "view t = (view s)(on_id r \<mapsto> r)"
    using create_view [OF inv] now eq by blast
  then have "grows s t" by (auto simp: grows_def)
  then show ?thesis using grows_sound sound r eq by auto
next
  fix s0 i p ps'
  assume eq: "(s, ps) = (s0, ps')" "(t, qs) = (s0, p # ps')" and get': "opa_get api s0 i = Inr (it_read p)"
    and p: "it_status p \<in> set (transitions (on_status (it_read p)))" "tz_aware (it_now p)"
      "(True \<Longrightarrow> it_expected p = on_version (it_read p))"
  have view: "view s i = Some (it_read p)" using get' eq get [of s i] by (auto split: option.splits)
  then have "on_id (it_read p) = i" using key [OF _ view] sound by (simp add: sound_def)
  then show ?thesis using sound p view eq by (auto simp: sound_def grows_def)
next
  fix p ps' s0 r s'
  assume eq: "(s, ps) = (s0, ps')" "(t, qs) = (s', ps')" and p: "p \<in> set ps'"
    and swap: "opa_swap api s0 (on_id (it_read p)) (it_expected p) (intent_moved p) = Inr (r, s')"
  let ?i = "on_id (it_read p)"
  from sound p eq obtain x where x: "view s ?i = Some x" "evolves (it_read p) x"
    and h: "it_expected p = on_version (it_read p)" "tz_aware (it_now p)" "inv s"
      "legal (on_status (it_read p)) (it_status p)"
    by (auto simp: sound_def legal_def)
  have version: "on_version x = it_expected p"
    using swap_stale [OF h(3) x(1)] swap eq by (cases "on_version x = it_expected p") auto
  then have same: "x = it_read p" using evolves_same_version [OF x(2)] h(1) by simp
  obtain s'' where s'': "opa_swap api s ?i (it_expected p) (intent_moved p) = Inr (intent_moved p, s'')"
      "inv s''" "view s'' = (view s)(?i \<mapsto> intent_moved p)"
    using swap_moved [OF h(3) x(1) version, of "it_read p" "it_now p"] h(2) same
    by (auto simp: intent_moved_def)
  then have t: "t = s''" using swap eq by auto
  have "evolves x (intent_moved p)" using evolves_moved h(4) same by (simp add: intent_moved_def)
  then have "grows s t" using s''(3) x t by (auto simp: grows_def)
  then show ?thesis using grows_sound sound s'' t eq by auto
qed

lemma run_sound:
  assumes "(op_step api True)\<^sup>*\<^sup>* (s, []) (t, qs)" and "inv s"
  shows "sound t qs \<and> grows s t"
  using assms(1)
proof (induction "(t, qs)" arbitrary: t qs rule: rtranclp_induct)
  case base
  then show ?case using assms(2) by (auto simp: sound_def grows_def)
next
  case (step y)
  obtain u us where y: "y = (u, us)" by (cases y)
  with step have "sound u us" "grows s u" by auto
  moreover have "sound t qs" "grows u t" using step_sound step.hyps y calculation by auto
  ultimately show ?case unfolding grows_def by (meson evolves_trans)
qed

lemma run_evolves:
  "(op_step api True)\<^sup>*\<^sup>* (s, []) (t, qs) \<Longrightarrow> inv s \<Longrightarrow> view s i = Some r \<Longrightarrow>
   \<exists>r'. view t i = Some r' \<and> evolves r r'"
  using run_sound by (auto simp: grows_def)

lemma run_reachable:
  "(op_step api True)\<^sup>*\<^sup>* (s, []) (t, qs) \<Longrightarrow> inv s \<Longrightarrow> inv t"
  using run_sound by (auto simp: sound_def)

end

section \<open>One call at a time\<close>

text \<open>Who may see an operation: its tenant; its actor, unless the grants it states are too narrow;
  others with grants for every resource of an operation that has resources.\<close>

definition may_access :: "operation \<Rightarrow> consumer_identity \<Rightarrow> string list \<Rightarrow> bool" where
  "may_access r who granted \<longleftrightarrow> on_tenant r = tn_id (ci_tenant who) \<and>
     (if granted = [] then on_actor r = actor_id who
      else (on_actor r = actor_id who \<or> on_resources r \<noteq> []) \<and>
           (\<forall>x\<in>set (on_resources r). scope_covers granted x))"

lemma authorize_iff: "authorize_operation r who granted = Inr x \<longleftrightarrow> may_access r who granted \<and> x = r"
  by (auto simp: authorize_operation_def may_access_def scopes_allow_def list_all_iff Let_def)

definition code_given :: "operation_status \<Rightarrow> string option \<Rightarrow> bool" where
  "code_given status code \<longleftrightarrow> (status = OpFailed \<longrightarrow> code \<noteq> None \<and> code \<noteq> Some [])"

context operation_store
begin

lemma authorized_iff:
  "view s i = Some r \<Longrightarrow> get_authorized api s i who granted = Inr x \<longleftrightarrow> may_access r who granted \<and> x = r"
  by (simp add: get_authorized_def get authorize_iff)

lemma transition_iff:
  assumes inv: "inv s" and view: "view s i = Some r" and now: "tz_aware now"
  shows "(\<exists>s'. operation_transition api s i status expected who code granted now = Inr (ref, s')) \<longleftrightarrow>
    may_access r who granted \<and> legal (on_status r) status \<and> code_given status code \<and>
    expected = on_version r \<and> ref = \<lparr>op_id = i, op_status = status, op_version = on_version r + 1\<rparr>"
    (is "?run \<longleftrightarrow> ?ok")
proof -
  have id: "on_id r = i" using key [OF inv view] .
  have ref: "on_ref (moved r status code now) = \<lparr>op_id = i, op_status = status, op_version = on_version r + 1\<rparr>"
    using id by (simp add: moved_def)
  show ?thesis
  proof (cases "may_access r who granted \<and> legal (on_status r) status \<and> code_given status code")
    case True
    then have call: "operation_transition api s i status expected who code granted now =
        bindr (opa_swap api s i expected (moved r status code now)) (\<lambda>(r', s'). Inr (on_ref r', s'))"
      using authorized_iff [OF view, of who granted r]
      by (auto simp: operation_transition_def legal_def code_given_def)
    show ?thesis
    proof (cases "on_version r = expected")
      case same: True
      obtain s' where "opa_swap api s i expected (moved r status code now) = Inr (moved r status code now, s')"
        using swap_moved [OF inv view same id now] by blast
      then show ?thesis using True call same ref by auto
    next
      case False
      then show ?thesis using call swap_stale [OF inv view False] by auto
    qed
  next
    case False
    then have "\<not> ?run"
      using authorized_iff [OF view, of who granted]
      by (auto simp: operation_transition_def legal_def code_given_def bindr_eq_Inr split: if_splits)
    then show ?thesis using False by blast
  qed
qed

end

section \<open>Paths of the reconciler\<close>

fun legal_path :: "operation_status \<Rightarrow> operation_status list \<Rightarrow> bool" where
  "legal_path a [] = True"
| "legal_path a (b # bs) = (legal a b \<and> legal_path b bs)"

lemma reconciliation_path_legal:
  assumes "transitions current \<noteq> []" and "current \<noteq> target"
    and "target \<in> {OpCompleted, OpFailed, OpOutcomeUnknown}"
  shows "\<exists>path. reconciliation_path current target = Inr path \<and> legal_path current path \<and>
           List.last (current # path) = target"
  using assms
  by (cases current; cases target)
    (simp_all add: reconciliation_path_def path_end_def ordered_statuses_def legal_def)

context operation_store
begin

lemma follow_legal:
  assumes "inv s" and "view s i = Some r" and "legal_path (on_status r) path" and "tz_aware now"
  shows "\<exists>r' s'. follow_path api s r path code now = Inr (r', s') \<and> inv s' \<and> view s' i = Some r' \<and>
           evolves r r' \<and> on_status r' = List.last (on_status r # path)"
  using assms(1-3)
proof (induction path arbitrary: s r)
  case Nil
  then show ?case by auto
next
  case (Cons status path)
  have id: "on_id r = i" using key [OF Cons.prems(1,2)] .
  define c where "c = (if status \<in> {OpFailed, OpOutcomeUnknown} then code else None)"
  obtain s1 where s1: "opa_swap api s i (on_version r) (moved r status c now) = Inr (moved r status c now, s1)"
      "inv s1" "view s1 = (view s)(i \<mapsto> moved r status c now)"
    using swap_moved [OF Cons.prems(1,2) refl id assms(4)] by blast
  have st: "on_status (moved r status c now) = status" by (simp add: moved_def)
  then obtain r' s' where r': "follow_path api s1 (moved r status c now) path code now = Inr (r', s')"
      "inv s'" "view s' i = Some r'" "evolves (moved r status c now) r'"
      "on_status r' = List.last (status # path)"
    using Cons.IH [OF s1(2), of "moved r status c now"] s1(3) Cons.prems(3) by auto
  have "evolves r r'" using evolves_trans [OF evolves_moved r'(4)] Cons.prems(3) by simp
  then show ?case using r' s1(1) id by (auto simp: c_def)
qed

lemma reconcile_reaches:
  assumes "inv s" and view: "view s i = Some r" and "str_prefix prefix (on_kind r)" and "tz_aware now"
    and target: "target \<in> {OpCompleted, OpFailed, OpOutcomeUnknown}" and "code_given target code"
    and running: "transitions (on_status r) \<noteq> []"
  shows "\<exists>ref s' r'. reconcile_operation api s prefix i target code now = Inr (ref, s') \<and> inv s' \<and>
           view s' i = Some r' \<and> on_ref r' = ref \<and> evolves r r' \<and> on_status r' = target"
proof (cases "on_status r = target")
  case True
  then show ?thesis using assms by (auto simp: reconcile_operation_def get)
next
  case False
  obtain path where path: "reconciliation_path (on_status r) target = Inr path"
      "legal_path (on_status r) path" "List.last (on_status r # path) = target"
    using reconciliation_path_legal [OF running False target] by blast
  obtain r' s' where r': "follow_path api s r path code now = Inr (r', s')" "inv s'" "view s' i = Some r'"
      "evolves r r'" "on_status r' = target"
    using follow_legal [OF assms(1) view path(2) assms(4), of code] path(3) by auto
  have "reconcile_operation api s prefix i target code now = Inr (on_ref r', s')"
    using assms(3,6) target False path(1) r'(1)
    by (auto simp: reconcile_operation_def get view code_given_def)
  then show ?thesis using r' by blast
qed

end

section \<open>Properties\<close>

definition xa_operation :: operation where
  "xa_operation = \<lparr>on_ref = \<lparr>op_id = ''operation_1'', op_status = OpAccepted, op_version = 1\<rparr>,
     on_kind = ''artifact.build'', on_tenant = ''t1'', on_actor = ''u1'', on_consumer = ''ai00.web'',
     on_resources = [''plan:p1''], on_created = Aware 5, on_updated = Aware 5, on_error = None\<rparr>"

definition xa_operations :: operation_table where
  "xa_operations = [operation_row xa_operation]"

lemma xa_operations_inv: "ops_inv xa_operations"
  by (simp add: xa_operations_def ops_inv_def)

lemma xa_operations_view: "ops_view xa_operations ''operation_1'' = Some xa_operation"
  by (simp add: xa_operations_def xa_operation_def ops_view_def operation_row_def operation_from_row_def)



text \<open>
  A writer that states a version of its own choice can undo a final state: it reads an
  accepted operation, another writer cancels it, and the swap that expects the next version
  moves the cancelled operation to claimed.
\<close>

theorem stale_read_revives:
  assumes inv: "ops_inv s" and view: "ops_view s i = Some r" and status: "on_status r = OpAccepted"
    and now: "tz_aware now"
  shows "\<exists>t u ps x y. (op_step sql_operations False)\<^sup>*\<^sup>* (s, []) (t, ps) \<and>
    op_step sql_operations False (t, ps) (u, ps) \<and> ops_view t i = Some x \<and> on_status x = OpCancelled \<and>
    ops_view u i = Some y \<and> on_status y = OpClaimed \<and> on_version y = on_version x"
proof -
  let ?api = sql_operations
  define a where "a = \<lparr>it_read = r, it_status = OpClaimed, it_expected = on_version r + 1, it_code = None, it_now = now\<rparr>"
  define b where "b = \<lparr>it_read = r, it_status = OpCancelled, it_expected = on_version r, it_code = None, it_now = now\<rparr>"
  have id: "on_id r = i" using sql_store.key [OF inv view] .
  have read: "opa_get ?api s i = Inr r" using sql_store.get [of s i] view by simp
  have 1: "op_step ?api False (s, []) (s, [a])"
    using op_reads [of ?api s i a False "[]"] read status now by (simp add: a_def)
  have 2: "op_step ?api False (s, [a]) (s, [b, a])"
    using op_reads [of ?api s i b False "[a]"] read status now by (simp add: b_def)
  obtain t where t: "opa_swap ?api s i (on_version r) (intent_moved b) = Inr (intent_moved b, t)"
      "ops_inv t" "ops_view t = (ops_view s)(i \<mapsto> intent_moved b)"
    using sql_store.swap_moved [OF inv view refl id now, of OpCancelled None]
    by (auto simp: intent_moved_def b_def)
  have 3: "op_step ?api False (s, [b, a]) (t, [b, a])"
    using op_swaps [of b "[b, a]" ?api s] t(1) id by (simp add: b_def)
  have at: "ops_view t i = Some (intent_moved b)" "on_version (intent_moved b) = on_version r + 1"
    using t(3) by (simp_all add: intent_moved_def moved_def b_def)
  have same: "on_created r = on_created (intent_moved b)" "on_kind r = on_kind (intent_moved b)"
    "on_tenant r = on_tenant (intent_moved b)" "on_actor r = on_actor (intent_moved b)"
    "on_consumer r = on_consumer (intent_moved b)" "on_resources r = on_resources (intent_moved b)"
    by (simp_all add: intent_moved_def moved_def b_def)
  obtain u where u: "opa_swap ?api t i (on_version r + 1) (intent_moved a) = Inr (intent_moved a, u)"
      "ops_view u = (ops_view t)(i \<mapsto> intent_moved a)"
    using sql_store.swap_moved [OF t(2) at(1,2) id now same, of OpClaimed None]
    by (auto simp: intent_moved_def a_def)
  have 4: "op_step ?api False (t, [b, a]) (u, [b, a])"
    using op_swaps [of a "[b, a]" ?api t] u(1) id by (simp add: a_def)
  have "(op_step ?api False)\<^sup>*\<^sup>* (s, []) (t, [b, a])"
    using 1 2 3 by (meson converse_rtranclp_into_rtranclp rtranclp.rtrancl_refl)
  with 4 at u(2) show ?thesis
    by (intro exI [of _ t] exI [of _ u] exI [of _ "[b, a]"]) (auto simp: intent_moved_def moved_def a_def b_def)
qed

theorem stale_read_revives_witness:
  "\<exists>t u ps x y. (op_step sql_operations False)\<^sup>*\<^sup>* (xa_operations, []) (t, ps) \<and>
    op_step sql_operations False (t, ps) (u, ps) \<and> ops_view t ''operation_1'' = Some x \<and>
    on_status x = OpCancelled \<and> ops_view u ''operation_1'' = Some y \<and> on_status y = OpClaimed \<and>
    on_version y = on_version x"
  by (rule stale_read_revives [OF xa_operations_inv xa_operations_view, of "Aware 9"])
    (simp_all add: xa_operation_def)

text \<open>
  A transition over the SQL store is carried out exactly when the caller may see the
  operation (its tenant, its actor or resource grants that cover it), the table allows the
  move, a failure names an error code and the caller expects the stored version; it then
  answers with the new status and the next version.
\<close>

theorem operation_transition_exact:
  assumes "ops_inv s" and "ops_view s i = Some r" and "tz_aware now"
  shows "(\<exists>s'. operation_transition sql_operations s i status expected who code granted now = Inr (ref, s')) \<longleftrightarrow>
    may_access r who granted \<and> legal (on_status r) status \<and> code_given status code \<and>
    expected = on_version r \<and> ref = \<lparr>op_id = i, op_status = status, op_version = on_version r + 1\<rparr>"
  by (rule sql_store.transition_iff [OF assms])

theorem operation_transition_exact_witness:
  "\<exists>s'. operation_transition sql_operations xa_operations ''operation_1'' OpClaimed 1 xa_identity None []
     (Aware 9) = Inr (\<lparr>op_id = ''operation_1'', op_status = OpClaimed, op_version = 2\<rparr>, s')"
  using operation_transition_exact [OF xa_operations_inv xa_operations_view, of "Aware 9" OpClaimed 1
      xa_identity None "[]" "\<lparr>op_id = ''operation_1'', op_status = OpClaimed, op_version = 2\<rparr>"]
  by (simp add: may_access_def legal_def code_given_def xa_operation_def xa_defs actor_id_def str_or_def)

text \<open>
  C40. The reconciler always gets an operation that is not final to a final or unknown target: it
  answers without error, with the target status, after moves the table allows, for an operation
  whose kind has the reconciler's prefix, a failure that names an error code and a clock with a time zone.
\<close>

theorem reconciler_reaches_target:
  assumes "ops_inv s" and "ops_view s i = Some r" and "str_prefix prefix (on_kind r)" and "tz_aware now"
    and "target \<in> {OpCompleted, OpFailed, OpOutcomeUnknown}" and "code_given target code"
    and "transitions (on_status r) \<noteq> []"
  shows "\<exists>ref s' r' n. reconcile_operation sql_operations s prefix i target code now = Inr (ref, s') \<and>
           ops_view s' i = Some r' \<and> on_ref r' = ref \<and> on_status r' = target \<and> same_operation r r' \<and>
           on_version r' = on_version r + int n \<and> (legal ^^ n) (on_status r) target"
  using sql_store.reconcile_reaches [OF assms] by (fastforce simp: evolves_def)

theorem reconciler_reaches_target_witness:
  "\<exists>ref s' r' n. reconcile_operation sql_operations xa_operations ''artifact.'' ''operation_1'' OpCompleted
       None (Aware 9) = Inr (ref, s') \<and>
     ops_view s' ''operation_1'' = Some r' \<and> on_ref r' = ref \<and> on_status r' = OpCompleted \<and>
     same_operation xa_operation r' \<and> on_version r' = on_version xa_operation + int n \<and>
     (legal ^^ n) (on_status xa_operation) OpCompleted"
  by (rule reconciler_reaches_target [OF xa_operations_inv xa_operations_view])
    (simp_all add: xa_operation_def code_given_def str_prefix_def)

end
