(* ===== verification/Authorization.thy ===== *)
theory Authorization
  imports Reliability CapabilityExamples
begin

text \<open>
  Authorization of an invocation (\<open>backend/capability_v2/authorization.py\<close>) and the policies the
  gateway asks (\<open>policies.py\<close>): resource references selected from the payload, scopes granted to
  the consumer and to its delegation, the automation level, and the resource owner fallback. The
  grant, user and owner lookups are parameters; a lookup that raises answers \<open>None\<close>.
\<close>

section \<open>Scopes and resources\<close>

definition scope_allows :: "string list \<Rightarrow> string \<Rightarrow> bool" where
  "scope_allows scopes requested \<longleftrightarrow>
     ''*'' \<in> set scopes \<or> requested \<in> set scopes \<or> (str_before CHR '':'' requested @ '':*'') \<in> set scopes"

record authorization_grants =
  gr_permissions :: "string list"
  gr_capabilities :: "string list"
  gr_resources :: "string list"
  gr_data :: "string list"
  gr_policy :: string
  gr_tenant :: "string option"

record authorization_decision =
  dn_allowed :: bool
  dn_code :: string
  dn_policy :: string
  dn_resources :: "string list"
  dn_data :: "string list"
  dn_permissions :: "string list"

definition deny :: "string \<Rightarrow> string \<Rightarrow> string list \<Rightarrow> authorization_decision" where
  "deny code policy refs = \<lparr>dn_allowed = False, dn_code = code, dn_policy = policy, dn_resources = refs,
     dn_data = [], dn_permissions = []\<rparr>"

text \<open>The parts of a payload path: a JSON pointer, or names separated by dots.\<close>

definition path_parts :: "string \<Rightarrow> string list" where
  "path_parts path =
     (if str_prefix ''/'' path then
        map (\<lambda>part. str_replace2 CHR ''~'' CHR ''0'' ''~'' (str_replace2 CHR ''~'' CHR ''1'' ''/'' part))
          (str_split CHR ''/'' (dropWhile (\<lambda>c. c = CHR ''/'') path))
      else str_split CHR ''.'' path)"

fun select_parts :: "json \<Rightarrow> string list \<Rightarrow> json option" where
  "select_parts current [] = Some current"
| "select_parts current (part # parts) =
     (if part = [] then None
      else case current of
        JObj items \<Rightarrow> (case map_of items part of None \<Rightarrow> None | Some v \<Rightarrow> select_parts v parts)
      | _ \<Rightarrow> None)"

definition select :: "json \<Rightarrow> string \<Rightarrow> json option" where
  "select payload path = select_parts payload (path_parts path)"

fun container_or_bool :: "json \<Rightarrow> bool" where
  "container_or_bool (JObj _) = True"
| "container_or_bool (JList _) = True"
| "container_or_bool (JBool _) = True"
| "container_or_bool _ = False"

text \<open>The reference a selector finds: an error code, none, or one.\<close>

definition selector_ref :: "hostlib \<Rightarrow> jobj \<Rightarrow> resource_selector \<Rightarrow> string + string option" where
  "selector_ref h payload s =
     (case select (JObj payload) (sel_path s) of
        None \<Rightarrow> if sel_required s then Inl ''resource_selector_missing'' else Inr None
      | Some v \<Rightarrow>
          if v = JNull \<or> v = JStr [] then
            (if sel_required s then Inl ''resource_selector_missing'' else Inr None)
          else if container_or_bool v then Inl ''resource_selector_invalid''
          else Inr (Some (sel_type s @ '':'' @ py_str h v)))"

definition resource_refs :: "hostlib \<Rightarrow> descriptor \<Rightarrow> jobj \<Rightarrow> string + string list" where
  "resource_refs h d payload =
     bindr (mapr (selector_ref h payload) (cd_selectors d)) (\<lambda>found. Inr (concat (map (\<lambda>r. case r of None \<Rightarrow> [] | Some x \<Rightarrow> [x]) found)))"

section \<open>Delegation\<close>

text \<open>\<open>not value\<close> on an optional string.\<close>

definition given :: "string option \<Rightarrow> bool" where
  "given v \<longleftrightarrow> v \<noteq> None \<and> v \<noteq> Some []"

definition sensitive :: "descriptor \<Rightarrow> bool" where
  "sensitive d \<longleftrightarrow> cd_classification d = Confidential \<or> cd_classification d = Restricted"

definition delegation_checks ::
  "descriptor \<Rightarrow> invocation \<Rightarrow> string list \<Rightarrow> delegation_context \<Rightarrow> timestamp \<Rightarrow> string option" where
  "delegation_checks d e refs delegation now =
     (let c = ci_consumer (en_identity e) in
      if instant (dl_expires delegation) \<le> instant now then Some ''delegation_expired''
      else if dl_release delegation \<noteq> en_release e then Some ''delegation_catalog_mismatch''
      else if \<not> scope_allows (dl_capabilities delegation) (cd_id d) then Some ''capability_scope_denied''
      else if automation_rank (cd_automation d) > automation_rank (dl_automation delegation)
      then Some ''automation_scope_denied''
      else if list_ex (\<lambda>ref. \<not> scope_allows (dl_resources delegation) ref) refs
      then Some ''resource_scope_denied''
      else if sensitive d \<and> \<not> scope_allows (dl_data delegation) (classification_value (cd_classification d))
      then Some ''data_scope_denied''
      else if cn_type c = Agent \<and> \<not> given (cn_agent_run c) then Some ''agent_run_required''
      else if cn_type c = Plugin \<and> \<not> given (cn_installation c) then Some ''plugin_installation_required''
      else None)"

definition delegation_error ::
  "descriptor \<Rightarrow> invocation \<Rightarrow> string list \<Rightarrow> timestamp \<Rightarrow> string option" where
  "delegation_error d e refs now =
     (let i = en_identity e; c = ci_consumer i in
      if cn_type c = Plugin \<and> (\<not> given (cn_installation c) \<or> \<not> given (cn_mount c))
      then Some ''plugin_mount_required''
      else (case ci_delegation i of
              None \<Rightarrow> if cn_type c \<noteq> Agent then None else Some ''delegation_required''
            | Some delegation \<Rightarrow> delegation_checks d e refs delegation now))"

definition effective_data_scopes :: "consumer_identity \<Rightarrow> string list \<Rightarrow> string list" where
  "effective_data_scopes i granted =
     (case ci_delegation i of
        None \<Rightarrow> granted
      | Some delegation \<Rightarrow>
          if ''*'' \<in> set granted then dl_data delegation
          else if ''*'' \<in> set (dl_data delegation) then granted
          else sorted_strs (filter (\<lambda>x. x \<in> set (dl_data delegation)) granted))"

section \<open>The decision\<close>

definition authorize_with ::
  "hostlib \<Rightarrow> authorization_grants \<Rightarrow> descriptor \<Rightarrow> invocation \<Rightarrow> string list \<Rightarrow> timestamp \<Rightarrow>
   authorization_decision" where
  "authorize_with h g d e required now =
     (let i = en_identity e; policy = gr_policy g in
      if gr_tenant g \<noteq> None \<and> gr_tenant g \<noteq> Some (tn_id (ci_tenant i)) then deny ''tenant_scope_denied'' policy []
      else if \<not> set required \<subseteq> set (gr_permissions g) then deny ''permission_denied'' policy []
      else if \<not> scope_allows (gr_capabilities g) (cd_id d)
      then deny ''consumer_capability_scope_denied'' policy []
      else (case resource_refs h d (en_payload e) of
          Inl code \<Rightarrow> deny code policy []
        | Inr refs \<Rightarrow>
            if list_ex (\<lambda>ref. \<not> scope_allows (gr_resources g) ref) refs
            then deny ''resource_scope_denied'' policy refs
            else if sensitive d \<and> \<not> scope_allows (gr_data g) (classification_value (cd_classification d))
            then deny ''data_scope_denied'' policy refs
            else (case delegation_error d e refs now of
                Some code \<Rightarrow> deny code policy refs
              | None \<Rightarrow> \<lparr>dn_allowed = True, dn_code = ''allowed'', dn_policy = policy, dn_resources = refs,
                          dn_data = effective_data_scopes i (gr_data g),
                          dn_permissions = gr_permissions g\<rparr>)))"

definition authorize ::
  "hostlib \<Rightarrow> (consumer_identity \<Rightarrow> authorization_grants option) \<Rightarrow> descriptor \<Rightarrow> invocation \<Rightarrow>
   string list \<Rightarrow> timestamp \<Rightarrow> authorization_decision" where
  "authorize h grants d e required now =
     (case grants (en_identity e) of
        None \<Rightarrow> deny ''authorization_backend_failed'' ''unavailable'' []
      | Some g \<Rightarrow> authorize_with h g d e required now)"

section \<open>Policies\<close>

datatype policy_error = PolicyError string string | PolicyRaised string

text \<open>\<open>FailClosedGatewayPolicy\<close>.\<close>

definition fail_closed_authorize :: "string list \<Rightarrow> policy_error + authorization_decision option" where
  "fail_closed_authorize permissions =
     (if permissions \<noteq> []
      then Inl (PolicyError ''authorization_policy_unavailable'' ''Authorization policy is not configured.'')
      else Inr None)"

definition fail_closed_approve :: "descriptor \<Rightarrow> policy_error + unit" where
  "fail_closed_approve d =
     (if cd_confirmation d \<noteq> NoConfirmation
      then Inl (PolicyError ''approval_service_unavailable'' ''Persistent approval service is not configured.'')
      else Inr ())"

text \<open>\<open>LegacyServerGatewayPolicy\<close>: the lookups it is built from.\<close>

record policy_hooks =
  ph_user :: "string \<Rightarrow> policy_error + jobj option"
  ph_grants :: "consumer_identity \<Rightarrow> jobj \<Rightarrow> policy_error + authorization_grants"
  ph_service :: "(consumer_identity \<Rightarrow> authorization_grants option) option"
  ph_owner :: "(string \<Rightarrow> consumer_identity \<Rightarrow> jobj \<Rightarrow> bool option) option"

definition connector_bootstrap :: "descriptor \<Rightarrow> invocation \<Rightarrow> string list \<Rightarrow> bool" where
  "connector_bootstrap d e permissions \<longleftrightarrow>
     (let i = en_identity e; c = ci_consumer i; a = ci_actor i in
      cn_type c = LocalRuntime \<and> cn_id c = ''ai00.connector.bootstrap'' \<and> given (cn_installation c) \<and>
      ac_service a = Some ''ai00.connector.bootstrap'' \<and> ac_method a = ''connector_bootstrap'' \<and>
      cd_id d \<in> {''simulation.connector.pairing.request'', ''simulation.connector.pairing.complete'',
                 ''simulation.connector.pairing.activate''} \<and>
      permissions = [''simulation.use''])"

definition bootstrap_decision :: authorization_decision where
  "bootstrap_decision = \<lparr>dn_allowed = True, dn_code = ''allowed'', dn_policy = ''connector-bootstrap-v1'',
     dn_resources = [], dn_data = [''confidential''], dn_permissions = [''simulation.use'']\<rparr>"

text \<open>The user record and the grants of the actor.\<close>

definition user_active :: "jobj option \<Rightarrow> bool" where
  "user_active u \<longleftrightarrow> (case u of None \<Rightarrow> False
     | Some items \<Rightarrow> items \<noteq> [] \<and> (case map_of items ''is_active'' of None \<Rightarrow> True | Some v \<Rightarrow> truthy v))"

definition load_grants ::
  "policy_hooks \<Rightarrow> invocation \<Rightarrow> policy_error + authorization_grants \<times> jobj" where
  "load_grants hooks e =
     (case ac_user (ci_actor (en_identity e)) of
        None \<Rightarrow>
          (case ph_service hooks of
             None \<Rightarrow> Inl (PolicyError ''service_authorization_unavailable'' ''Service grants are not configured.'')
           | Some resolver \<Rightarrow>
               (case resolver (en_identity e) of
                  None \<Rightarrow> Inl (PolicyError ''service_authorization_unavailable'' ''Service authorization was denied.'')
                | Some g \<Rightarrow> Inr (g, [])))
      | Some user_id \<Rightarrow>
          bindr (ph_user hooks user_id) (\<lambda>user.
            if \<not> user_active user then Inl (PolicyError ''actor_inactive'' ''Actor is inactive.'')
            else bindr (ph_grants hooks (en_identity e) (the user)) (\<lambda>g. Inr (g, the user))))"

text \<open>\<open>tuple(ref for ref in refs if owner(ref, ...))\<close>; \<open>None\<close> when the owner lookup raises.\<close>

fun owned_refs :: "(string \<Rightarrow> bool option) \<Rightarrow> string list \<Rightarrow> string list option" where
  "owned_refs owner [] = Some []"
| "owned_refs owner (ref # refs) =
     (case owner ref of
        None \<Rightarrow> None
      | Some b \<Rightarrow> map_option (\<lambda>rest. if b then ref # rest else rest) (owned_refs owner refs))"

definition widen :: "authorization_grants \<Rightarrow> string list \<Rightarrow> authorization_grants" where
  "widen g owned = g\<lparr>gr_resources := sorted_strs (gr_resources g @ owned)\<rparr>"

definition policy_decision ::
  "hostlib \<Rightarrow> policy_hooks \<Rightarrow> descriptor \<Rightarrow> invocation \<Rightarrow> string list \<Rightarrow> timestamp \<Rightarrow>
   authorization_grants \<Rightarrow> jobj \<Rightarrow> policy_error + authorization_decision" where
  "policy_decision h hooks d e permissions now g user =
     (let decision = authorize h (\<lambda>_. Some g) d e permissions now in
      if \<not> dn_allowed decision \<and> dn_code decision = ''resource_scope_denied'' \<and> ph_owner hooks \<noteq> None then
        (case owned_refs (\<lambda>ref. the (ph_owner hooks) ref (en_identity e) user) (dn_resources decision) of
           None \<Rightarrow> Inl (PolicyError ''resource_authorization_failed'' ''Resource ownership could not be verified.'')
         | Some owned \<Rightarrow>
             Inr (if owned \<noteq> [] then authorize h (\<lambda>_. Some (widen g owned)) d e permissions now else decision))
      else Inr decision)"

definition policy_authorize ::
  "hostlib \<Rightarrow> policy_hooks \<Rightarrow> descriptor \<Rightarrow> invocation \<Rightarrow> string list \<Rightarrow> timestamp \<Rightarrow>
   policy_error + authorization_decision" where
  "policy_authorize h hooks d e permissions now =
     (if connector_bootstrap d e permissions then Inr bootstrap_decision
      else bindr (load_grants hooks e) (\<lambda>(g, user).
           bindr (policy_decision h hooks d e permissions now g user) (\<lambda>decision.
             if \<not> dn_allowed decision
             then Inl (PolicyError (dn_code decision) ''Capability authorization was denied.'')
             else Inr decision)))"

text \<open>Approval by the policy: \<open>approvals\<close> is the approval service, or \<open>None\<close>.\<close>

definition policy_approve ::
  "hostlib \<Rightarrow> 'a approval_api option \<Rightarrow> 'a \<Rightarrow> descriptor \<Rightarrow> invocation \<Rightarrow> authorization_decision option \<Rightarrow>
   timestamp \<Rightarrow> (policy_error + unit) \<times> 'a" where
  "policy_approve h approvals s d e authorization now =
     (if cd_confirmation d = NoConfirmation then (Inr (), s)
      else (case approvals of
          None \<Rightarrow> (Inl (PolicyError ''approval_service_unavailable'' ''Approval service is unavailable.''), s)
        | Some api \<Rightarrow>
            if \<not> given (en_approval e) \<or> authorization = None
            then (Inl (PolicyError ''confirmation_required'' ''Confirmation is required.''), s)
            else
              (case approval_service_consume h api s (the (en_approval e)) d e
                      (dn_resources (the authorization)) (dn_policy (the authorization)) now of
                 (ok, s') \<Rightarrow>
                   (if ok then Inr ()
                    else Inl (PolicyError ''confirmation_rejected'' ''Confirmation is invalid or expired.''), s'))))"

definition policy_issue_approval ::
  "hostlib \<Rightarrow> 'a approval_api option \<Rightarrow> 'a \<Rightarrow> descriptor \<Rightarrow> invocation \<Rightarrow> authorization_decision \<Rightarrow>
   string \<Rightarrow> timestamp \<Rightarrow> policy_error + (string \<times> approval) \<times> 'a" where
  "policy_issue_approval h approvals s d e authorization random now =
     (case approvals of
        None \<Rightarrow> Inl (PolicyError ''approval_service_unavailable'' ''Approval service is unavailable.'')
      | Some api \<Rightarrow>
          (case approval_service_issue h api s d e (dn_resources authorization) (dn_policy authorization)
                  300 random now of
             Inr r \<Rightarrow> Inr r
           | Inl (ReliabilityError code) \<Rightarrow> Inl (PolicyError code ''Approval policy denied the request.'')
           | Inl (StoreError _) \<Rightarrow> Inl (PolicyRaised ''approval store'')))"

end
