(* ===== verification/Delegation.thy ===== *)
theory Delegation
  imports Authorization
begin

text \<open>
  Delegation grants and their stores (\<open>backend/capability_v2/delegation.py\<close>) and the server-side
  construction of consumer identities (\<open>identity.py\<close>). The SQL store is the list of rows of its
  table: \<open>delegation_id\<close> is the primary key, \<open>token_hash\<close> is unique and times are stored in columns
  without a zone. Tokens, the clock and the membership lookup are arguments.
\<close>

section \<open>Grants\<close>

record delegation_grant =
  dg_id :: string
  dg_by :: string
  dg_user :: "string option"
  dg_service :: "string option"
  dg_tenant :: string
  dg_type :: consumer_type
  dg_consumer :: string
  dg_version :: "string option"
  dg_installation :: "string option"
  dg_mount :: "string option"
  dg_run :: "string option"
  dg_release :: string
  dg_capabilities :: "string list"
  dg_resources :: "string list"
  dg_data :: "string list"
  dg_automation :: automation_level
  dg_method :: string
  dg_authenticated :: timestamp
  dg_expires :: timestamp
  dg_revoked :: "timestamp option"

definition release_ok :: "string \<Rightarrow> bool" where
  "release_ok r \<longleftrightarrow> str_prefix ''rel_'' r \<and> length r = 36 \<and> list_all is_hex (drop 4 r)"

definition grant_contract :: "delegation_grant \<Rightarrow> py_exn + unit" where
  "grant_contract g =
     (if (dg_user g = None) = (dg_service g = None)
      then Inl (ValueError ''delegation requires exactly one actor'')
      else if \<not> tz_aware (dg_authenticated g)
      then Inl (ValueError ''authenticated_at must be timezone-aware'')
      else if \<not> tz_aware (dg_expires g) then Inl (ValueError ''expires_at must be timezone-aware'')
      else if \<not> opt_ok tz_aware (dg_revoked g) then Inl (ValueError ''revoked_at must be timezone-aware'')
      else if instant (dg_expires g) \<le> instant (dg_authenticated g)
      then Inl (ValueError ''delegation expiry must follow authentication'')
      else Inr ())"

definition grant_valid :: "delegation_grant \<Rightarrow> bool" where
  "grant_valid g \<longleftrightarrow> identity_ok (dg_id g) \<and> identity_ok (dg_by g) \<and> opt_ok identity_ok (dg_user g) \<and>
     opt_ok identity_ok (dg_service g) \<and> identity_ok (dg_tenant g) \<and> identity_ok (dg_consumer g) \<and>
     opt_ok (length_between 0 128) (dg_version g) \<and> opt_ok identity_ok (dg_installation g) \<and>
     opt_ok identity_ok (dg_mount g) \<and> opt_ok identity_ok (dg_run g) \<and> release_ok (dg_release g) \<and>
     length_between 1 64 (dg_method g) \<and> grant_contract g = Inr ()"

datatype identity_error =
    DelegationFailed string
  | IdentityFailed string
  | ConstraintViolated
  | ModelInvalid py_exn

section \<open>Stores of grants\<close>

text \<open>The common end of \<open>consume_active\<close>: revocation, then expiry.\<close>

definition active_grant :: "delegation_grant \<Rightarrow> timestamp \<Rightarrow> identity_error + delegation_grant" where
  "active_grant g now =
     (if dg_revoked g \<noteq> None then Inl (DelegationFailed ''delegation_revoked'')
      else if instant (dg_expires g) \<le> instant now then Inl (DelegationFailed ''delegation_expired'')
      else Inr g)"

type_synonym delegation_memory = "(string \<times> delegation_grant) list"

definition dm_save :: "delegation_memory \<Rightarrow> string \<Rightarrow> delegation_grant \<Rightarrow> identity_error + delegation_memory" where
  "dm_save s token g =
     (if map_of s token \<noteq> None \<or> list_ex (\<lambda>(_, x). dg_id x = dg_id g) s
      then Inl (DelegationFailed ''delegation_exists'')
      else Inr (AList.update token g s))"

definition dm_consume ::
  "hostlib \<Rightarrow> delegation_memory \<Rightarrow> string \<Rightarrow> timestamp \<Rightarrow> identity_error + delegation_grant" where
  "dm_consume h s token now =
     (case map_of s (secret_hash h token) of
        None \<Rightarrow> Inl (DelegationFailed ''delegation_invalid'')
      | Some g \<Rightarrow> active_grant g now)"

definition dm_revoke :: "delegation_memory \<Rightarrow> string \<Rightarrow> timestamp \<Rightarrow> identity_error + delegation_memory" where
  "dm_revoke s i now =
     (case List.find (\<lambda>(_, g). dg_id g = i) s of
        None \<Rightarrow> Inl (DelegationFailed ''delegation_not_found'')
      | Some (token, g) \<Rightarrow> Inr (AList.update token (g\<lparr>dg_revoked := Some now\<rparr>) s))"

definition dm_snapshot :: "delegation_memory \<Rightarrow> (string \<times> delegation_grant) list" where
  "dm_snapshot s = sort_key (\<lambda>(_, g). dg_id g) s"

type_synonym delegation_table = "(string \<times> delegation_grant) list"

definition grant_row :: "delegation_grant \<Rightarrow> delegation_grant" where
  "grant_row g = g\<lparr>dg_authenticated := to_column (dg_authenticated g), dg_expires := to_column (dg_expires g),
     dg_revoked := map_option to_column (dg_revoked g)\<rparr>"

definition dt_save :: "delegation_table \<Rightarrow> string \<Rightarrow> delegation_grant \<Rightarrow> identity_error + delegation_table" where
  "dt_save s token g =
     (if list_ex (\<lambda>(t, x). t = token \<or> dg_id x = dg_id g) s then Inl ConstraintViolated
      else Inr (s @ [(token, grant_row g)]))"

text \<open>\<open>_grant_from_row\<close> builds the model from the columns as they are; its validators run.\<close>

definition grant_from_row :: "delegation_grant \<Rightarrow> identity_error + delegation_grant" where
  "grant_from_row row = (case grant_contract row of
     Inl e \<Rightarrow> Inl (ModelInvalid e)
   | Inr _ \<Rightarrow> if grant_valid row then Inr row else Inl (ModelInvalid (ValueError ''field'')))"

definition dt_consume ::
  "hostlib \<Rightarrow> delegation_table \<Rightarrow> string \<Rightarrow> timestamp \<Rightarrow> identity_error + delegation_grant" where
  "dt_consume h s token now =
     (case List.find (\<lambda>(t, _). t = secret_hash h token) s of
        None \<Rightarrow> Inl (DelegationFailed ''delegation_invalid'')
      | Some (_, row) \<Rightarrow> bindr (grant_from_row row) (\<lambda>g. active_grant g now))"

definition dt_revoke :: "delegation_table \<Rightarrow> string \<Rightarrow> timestamp \<Rightarrow> identity_error + delegation_table" where
  "dt_revoke s i now =
     (let hit = (\<lambda>(_, g). dg_id g = i \<and> dg_revoked g = None) in
      if length (filter hit s) \<noteq> 1 then Inl (DelegationFailed ''delegation_not_found'')
      else Inr (map (\<lambda>(t, g). if hit (t, g) then (t, g\<lparr>dg_revoked := Some (to_column now)\<rparr>) else (t, g)) s))"

text \<open>The interface both stores provide, and \<open>issue_delegation\<close> with its random token.\<close>

record 's delegation_api =
  dga_save :: "'s \<Rightarrow> string \<Rightarrow> delegation_grant \<Rightarrow> identity_error + 's"
  dga_consume :: "'s \<Rightarrow> string \<Rightarrow> timestamp \<Rightarrow> identity_error + delegation_grant"
  dga_revoke :: "'s \<Rightarrow> string \<Rightarrow> timestamp \<Rightarrow> identity_error + 's"

definition memory_delegations :: "hostlib \<Rightarrow> delegation_memory delegation_api" where
  "memory_delegations h = \<lparr>dga_save = dm_save, dga_consume = dm_consume h, dga_revoke = dm_revoke\<rparr>"

definition sql_delegations :: "hostlib \<Rightarrow> delegation_table delegation_api" where
  "sql_delegations h = \<lparr>dga_save = dt_save, dga_consume = dt_consume h, dga_revoke = dt_revoke\<rparr>"

definition issue_delegation ::
  "hostlib \<Rightarrow> 's delegation_api \<Rightarrow> 's \<Rightarrow> delegation_grant \<Rightarrow> string \<Rightarrow>
   identity_error + (delegation_grant \<times> string) \<times> 's" where
  "issue_delegation h api s g token =
     bindr (dga_save api s (secret_hash h token) g) (\<lambda>s'. Inr ((g, token), s'))"

section \<open>Principals\<close>

record desktop_claim =
  dc_tenant :: string
  dc_installation :: string
  dc_version :: string

record principal =
  pr_user :: "string option"
  pr_service :: "string option"
  pr_method :: string
  pr_authenticated :: timestamp
  pr_desktop :: "desktop_claim option"

definition principal_contract :: "principal \<Rightarrow> py_exn + unit" where
  "principal_contract p =
     (if (pr_user p = None) = (pr_service p = None)
      then Inl (ValueError ''principal requires exactly one actor'')
      else if \<not> tz_aware (pr_authenticated p)
      then Inl (ValueError ''authenticated_at must be timezone-aware'')
      else Inr ())"

definition mk_principal :: "principal \<Rightarrow> identity_error + principal" where
  "mk_principal p =
     (if \<not> (opt_ok identity_ok (pr_user p) \<and> opt_ok identity_ok (pr_service p) \<and>
            length_between 1 64 (pr_method p))
      then Inl (ModelInvalid (ValueError ''field''))
      else (case principal_contract p of Inl e \<Rightarrow> Inl (ModelInvalid e) | Inr _ \<Rightarrow> Inr p))"

definition actor_of :: "principal \<Rightarrow> actor_identity" where
  "actor_of p = \<lparr>ac_user = pr_user p, ac_service = pr_service p, ac_method = pr_method p,
     ac_authenticated = pr_authenticated p\<rparr>"

definition plain_consumer :: "consumer_type \<Rightarrow> string \<Rightarrow> consumer_descriptor" where
  "plain_consumer t i = \<lparr>cn_type = t, cn_id = i, cn_version = None, cn_installation = None,
     cn_mount = None, cn_agent_run = None\<rparr>"

definition mk_consumer :: "consumer_descriptor \<Rightarrow> identity_error + consumer_descriptor" where
  "mk_consumer c = (if consumer_valid c then Inr c else Inl (ModelInvalid (ValueError ''consumer'')))"

text \<open>\<open>authenticated_user_consumer\<close>: the desktop claim of the signed token, or the web consumer.\<close>

definition authenticated_user_consumer :: "principal \<Rightarrow> string \<Rightarrow> identity_error + consumer_descriptor" where
  "authenticated_user_consumer p tenant =
     (case pr_desktop p of
        None \<Rightarrow> mk_consumer (plain_consumer Web ''ai00.web'')
      | Some claim \<Rightarrow>
          if \<not> given (pr_user p) \<or> dc_tenant claim \<noteq> tenant
          then Inl (IdentityFailed ''desktop_consumer_claim_invalid'')
          else mk_consumer ((plain_consumer Web ''ai00.desktop.windows-x64'')
                 \<lparr>cn_installation := Some (dc_installation claim), cn_version := Some (dc_version claim)\<rparr>))"

definition mk_identity ::
  "actor_identity \<Rightarrow> tenant_identity \<Rightarrow> consumer_descriptor \<Rightarrow> delegation_context option \<Rightarrow>
   identity_error + consumer_identity" where
  "mk_identity a t c d =
     (if actor_valid a \<and> tenant_valid t
      then Inr \<lparr>ci_actor = a, ci_tenant = t, ci_consumer = c, ci_delegation = d\<rparr>
      else Inl (ModelInvalid (ValueError ''identity'')))"

text \<open>\<open>authenticated_user_identity\<close>: the tenant is the team of the user record or a user tenant.\<close>

definition user_tenant ::
  "hostlib \<Rightarrow> jobj \<Rightarrow> bool \<Rightarrow> string option \<Rightarrow> identity_error + string" where
  "user_tenant h user desktop fallback =
     (let own = (case map_of user ''gid'' of
                   None \<Rightarrow> Inl (ModelInvalid (OtherError ''KeyError''))
                 | Some g \<Rightarrow> Inr (''user:'' @ py_str h g)) in
      if truthy (jget_null (JObj user) ''team_id'') then Inr (py_str h (jget_null (JObj user) ''team_id''))
      else if desktop then own
      else if given fallback then Inr (the fallback) else own)"

definition user_roles :: "jobj \<Rightarrow> identity_error + string list" where
  "user_roles user =
     mapr (\<lambda>v. case v of JStr s \<Rightarrow> Inr s | _ \<Rightarrow> Inl (ModelInvalid (ValueError ''active_roles'')))
       (filter truthy [jget_null (JObj user) ''org_role'', jget_null (JObj user) ''system_role''])"

definition authenticated_user_identity ::
  "hostlib \<Rightarrow> jobj \<Rightarrow> principal \<Rightarrow> string \<Rightarrow> string option \<Rightarrow> identity_error + consumer_identity" where
  "authenticated_user_identity h user p legacy_consumer fallback =
     bindr (user_tenant h user (pr_desktop p \<noteq> None) fallback) (\<lambda>tenant.
     bindr (authenticated_user_consumer p tenant) (\<lambda>c.
     bindr (user_roles user) (\<lambda>roles.
       mk_identity (actor_of p) \<lparr>tn_id = tenant, tn_membership = ''member'', tn_roles = roles\<rparr>
         (if pr_desktop p = None then c\<lparr>cn_id := legacy_consumer\<rparr> else c) None)))"

section \<open>Mount sessions\<close>

record mount_grant =
  mg_session :: string
  mg_user :: string
  mg_tenant :: string
  mg_plugin :: string
  mg_version :: string
  mg_installation :: string
  mg_method :: string
  mg_authenticated :: timestamp
  mg_expires :: timestamp
  mg_revoked :: "timestamp option"

definition mount_contract :: "mount_grant \<Rightarrow> py_exn + unit" where
  "mount_contract g =
     (if \<not> tz_aware (mg_authenticated g) \<or> \<not> tz_aware (mg_expires g)
      then Inl (ValueError ''mount timestamps must be timezone-aware'')
      else if instant (mg_expires g) \<le> instant (mg_authenticated g)
      then Inl (ValueError ''mount expiry must follow authentication'')
      else Inr ())"

type_synonym mount_memory = "(string \<times> mount_grant) list"

definition mm_issue :: "hostlib \<Rightarrow> mount_memory \<Rightarrow> mount_grant \<Rightarrow> string \<Rightarrow> string \<times> mount_memory" where
  "mm_issue h s g token = (token, AList.update (secret_hash h token) g s)"

definition mm_consume :: "hostlib \<Rightarrow> mount_memory \<Rightarrow> string \<Rightarrow> timestamp \<Rightarrow> identity_error + mount_grant" where
  "mm_consume h s token now =
     (case map_of s (secret_hash h token) of
        None \<Rightarrow> Inl (IdentityFailed ''mount_session_invalid'')
      | Some g \<Rightarrow>
          if mg_revoked g \<noteq> None then Inl (IdentityFailed ''mount_session_revoked'')
          else if instant (mg_expires g) \<le> instant now then Inl (IdentityFailed ''mount_session_expired'')
          else Inr g)"

section \<open>The identity broker\<close>

record membership =
  mb_tenant :: string
  mb_membership :: string
  mb_roles :: "string list"
  mb_active :: bool

type_synonym membership_resolver = "string option \<Rightarrow> string option \<Rightarrow> string \<Rightarrow> identity_error + membership"

definition broker_identity ::
  "membership_resolver \<Rightarrow> principal \<Rightarrow> string \<Rightarrow> consumer_descriptor \<Rightarrow> delegation_context option \<Rightarrow>
   identity_error + consumer_identity" where
  "broker_identity resolve p tenant c d =
     bindr (resolve (pr_user p) (pr_service p) tenant) (\<lambda>m.
       if mb_tenant m \<noteq> tenant \<or> \<not> mb_active m then Inl (IdentityFailed ''tenant_membership_inactive'')
       else mk_identity (actor_of p)
              \<lparr>tn_id = mb_tenant m, tn_membership = mb_membership m, tn_roles = mb_roles m\<rparr> c d)"

definition for_web :: "membership_resolver \<Rightarrow> principal \<Rightarrow> string \<Rightarrow> identity_error + consumer_identity" where
  "for_web resolve p tenant =
     bindr (authenticated_user_consumer p tenant) (\<lambda>c. broker_identity resolve p tenant c None)"

definition for_plugin_mount ::
  "hostlib \<Rightarrow> membership_resolver \<Rightarrow> mount_memory \<Rightarrow> string \<Rightarrow> timestamp \<Rightarrow>
   identity_error + consumer_identity" where
  "for_plugin_mount h resolve s token now =
     bindr (mm_consume h s token now) (\<lambda>g.
     bindr (mk_principal \<lparr>pr_user = Some (mg_user g), pr_service = None, pr_method = mg_method g,
              pr_authenticated = mg_authenticated g, pr_desktop = None\<rparr>) (\<lambda>p.
     bindr (mk_consumer \<lparr>cn_type = Plugin, cn_id = mg_plugin g, cn_version = Some (mg_version g),
              cn_installation = Some (mg_installation g), cn_mount = Some (mg_session g),
              cn_agent_run = None\<rparr>) (\<lambda>c.
     broker_identity resolve p (mg_tenant g) c None)))"

definition grant_context :: "delegation_grant \<Rightarrow> delegation_context" where
  "grant_context g = \<lparr>dl_id = dg_id g, dl_by = dg_by g, dl_capabilities = dg_capabilities g,
     dl_resources = dg_resources g, dl_data = dg_data g, dl_release = dg_release g,
     dl_automation = dg_automation g, dl_expires = dg_expires g\<rparr>"

definition for_agent_delegation ::
  "membership_resolver \<Rightarrow> 's delegation_api \<Rightarrow> 's \<Rightarrow> string \<Rightarrow> timestamp \<Rightarrow>
   identity_error + consumer_identity" where
  "for_agent_delegation resolve api s token now =
     (case dga_consume api s token now of
        Inl (DelegationFailed code) \<Rightarrow> Inl (IdentityFailed code)
      | Inl e \<Rightarrow> Inl e
      | Inr g \<Rightarrow>
          if dg_type g \<noteq> Agent then Inl (IdentityFailed ''delegation_consumer_mismatch'')
          else
            bindr (mk_principal \<lparr>pr_user = dg_user g, pr_service = dg_service g, pr_method = dg_method g,
                     pr_authenticated = dg_authenticated g, pr_desktop = None\<rparr>) (\<lambda>p.
            bindr (if delegation_valid (grant_context g) then Inr (grant_context g)
                   else Inl (ModelInvalid (ValueError ''delegation''))) (\<lambda>d.
            bindr (mk_consumer \<lparr>cn_type = Agent, cn_id = dg_consumer g, cn_version = dg_version g,
                     cn_installation = None, cn_mount = None, cn_agent_run = dg_run g\<rparr>) (\<lambda>c.
            broker_identity resolve p (dg_tenant g) c (Some d)))))"

definition for_mcp_client ::
  "membership_resolver \<Rightarrow> principal \<Rightarrow> string \<Rightarrow> string \<Rightarrow> identity_error + consumer_identity" where
  "for_mcp_client resolve p tenant client =
     bindr (mk_consumer (plain_consumer Mcp client)) (\<lambda>c. broker_identity resolve p tenant c None)"

definition require_service :: "principal \<Rightarrow> identity_error + unit" where
  "require_service p = unless_raise (pr_service p \<noteq> None) (IdentityFailed ''service_principal_required'')"

definition for_service ::
  "consumer_type \<Rightarrow> membership_resolver \<Rightarrow> principal \<Rightarrow> string \<Rightarrow> string \<Rightarrow>
   identity_error + consumer_identity" where
  "for_service t resolve p tenant i =
     bindr (require_service p) (\<lambda>_.
     bindr (mk_consumer (plain_consumer t i)) (\<lambda>c. broker_identity resolve p tenant c None))"

definition for_worker ::
  "membership_resolver \<Rightarrow> principal \<Rightarrow> string \<Rightarrow> string \<Rightarrow> identity_error + consumer_identity" where
  "for_worker = for_service Worker"

definition for_local_runtime ::
  "membership_resolver \<Rightarrow> principal \<Rightarrow> string \<Rightarrow> string \<Rightarrow> identity_error + consumer_identity" where
  "for_local_runtime = for_service LocalRuntime"

text \<open>\<open>for_domain_provider\<close>: the actor and tenant of the parent, one capability for five minutes.\<close>

definition provider_context :: "consumer_identity \<Rightarrow> string \<Rightarrow> string \<Rightarrow> timestamp \<Rightarrow> delegation_context" where
  "provider_context parent capability random now =
     \<lparr>dl_id = ''domain-provider-'' @ random,
      dl_by = (case str_or (ac_user (ci_actor parent)) (ac_service (ci_actor parent)) of
                 None \<Rightarrow> ''service'' | Some s \<Rightarrow> if s = [] then ''service'' else s),
      dl_capabilities = [capability], dl_resources = [''*''], dl_data = [''confidential''],
      dl_release = ''runtime-derived'', dl_automation = A2, dl_expires = later now 300000000\<rparr>"

definition for_domain_provider ::
  "consumer_identity \<Rightarrow> string \<Rightarrow> string \<Rightarrow> string \<Rightarrow> timestamp \<Rightarrow> identity_error + consumer_identity" where
  "for_domain_provider parent runtime capability random now =
     (if cn_type (ci_consumer parent) \<notin> {Web, Plugin, Agent}
      then Inl (IdentityFailed ''domain_provider_parent_invalid'')
      else
        bindr (mk_consumer (plain_consumer LocalRuntime runtime)) (\<lambda>c.
        let d = provider_context parent capability random now in
        if delegation_valid d then Inr (parent\<lparr>ci_consumer := c, ci_delegation := Some d\<rparr>)
        else Inl (ModelInvalid (ValueError ''delegation''))))"

end
