(* ===== verification/AuthorizationProperties.thy ===== *)
theory AuthorizationProperties
  imports Authorization
begin

text \<open>
  What authorization promises: the decision allows exactly the invocations that satisfy every
  scope of the grants and of the delegation, and the server policy, which may ask for resource
  ownership, allows nothing beyond that.
\<close>

section \<open>The delegation checks as one condition\<close>

definition delegation_covers ::
  "descriptor \<Rightarrow> invocation \<Rightarrow> string list \<Rightarrow> timestamp \<Rightarrow> delegation_context \<Rightarrow> bool" where
  "delegation_covers d e refs now dl \<longleftrightarrow> instant now < instant (dl_expires dl) \<and>
     dl_release dl = en_release e \<and> scope_allows (dl_capabilities dl) (cd_id d) \<and>
     cd_automation d \<le> dl_automation dl \<and> (\<forall>ref\<in>set refs. scope_allows (dl_resources dl) ref) \<and>
     (sensitive d \<longrightarrow> scope_allows (dl_data dl) (classification_value (cd_classification d)))"

definition delegation_holds :: "descriptor \<Rightarrow> invocation \<Rightarrow> string list \<Rightarrow> timestamp \<Rightarrow> bool" where
  "delegation_holds d e refs now \<longleftrightarrow>
     (let i = en_identity e; c = ci_consumer i in
      (cn_type c = Plugin \<longrightarrow> given (cn_installation c) \<and> given (cn_mount c)) \<and>
      (cn_type c = Agent \<longrightarrow> ci_delegation i \<noteq> None \<and> given (cn_agent_run c)) \<and>
      (\<forall>dl. ci_delegation i = Some dl \<longrightarrow> delegation_covers d e refs now dl))"

lemma delegation_checks_None:
  "delegation_checks d e refs dl now = None \<longleftrightarrow> delegation_covers d e refs now dl \<and>
     (let c = ci_consumer (en_identity e) in
      (cn_type c = Agent \<longrightarrow> given (cn_agent_run c)) \<and> (cn_type c = Plugin \<longrightarrow> given (cn_installation c)))"
  by (auto simp: delegation_checks_def delegation_covers_def Let_def list_ex_iff less_eq_automation_level_def not_le not_less)

lemma delegation_error_None: "delegation_error d e refs now = None \<longleftrightarrow> delegation_holds d e refs now"
  by (cases "ci_delegation (en_identity e)")
    (auto simp: delegation_error_def delegation_holds_def Let_def delegation_checks_None)

section \<open>The decision\<close>

definition grants_cover ::
  "hostlib \<Rightarrow> authorization_grants \<Rightarrow> descriptor \<Rightarrow> invocation \<Rightarrow> string list \<Rightarrow> string list \<Rightarrow> bool" where
  "grants_cover h g d e required refs \<longleftrightarrow>
     (gr_tenant g = None \<or> gr_tenant g = Some (tn_id (ci_tenant (en_identity e)))) \<and>
     set required \<subseteq> set (gr_permissions g) \<and> scope_allows (gr_capabilities g) (cd_id d) \<and>
     resource_refs h d (en_payload e) = Inr refs \<and> (\<forall>ref\<in>set refs. scope_allows (gr_resources g) ref) \<and>
     (sensitive d \<longrightarrow> scope_allows (gr_data g) (classification_value (cd_classification d)))"

lemma deny_simps [simp]:
  "\<not> dn_allowed (deny code policy refs)" "dn_code (deny code policy refs) = code"
  "dn_resources (deny code policy refs) = refs"
  by (simp_all add: deny_def)

lemma authorize_with_allowed:
  "dn_allowed (authorize_with h g d e required now) \<longleftrightarrow>
     (\<exists>refs. grants_cover h g d e required refs \<and> delegation_holds d e refs now)"
  by (cases "resource_refs h d (en_payload e)")
    (auto simp: authorize_with_def grants_cover_def Let_def list_ex_iff delegation_error_None [symmetric]
      split: option.split)

lemma authorize_with_decision:
  assumes "dn_allowed (authorize_with h g d e required now)"
  shows "grants_cover h g d e required (dn_resources (authorize_with h g d e required now)) \<and>
         delegation_holds d e (dn_resources (authorize_with h g d e required now)) now \<and>
         dn_data (authorize_with h g d e required now) = effective_data_scopes (en_identity e) (gr_data g) \<and>
         dn_permissions (authorize_with h g d e required now) = gr_permissions g"
proof -
  from assms obtain refs where refs: "grants_cover h g d e required refs" "delegation_holds d e refs now"
    using authorize_with_allowed by blast
  then have "authorize_with h g d e required now = \<lparr>dn_allowed = True, dn_code = ''allowed'',
      dn_policy = gr_policy g, dn_resources = refs,
      dn_data = effective_data_scopes (en_identity e) (gr_data g), dn_permissions = gr_permissions g\<rparr>"
    by (auto simp: authorize_with_def grants_cover_def Let_def list_ex_iff delegation_error_None [symmetric])
  with refs show ?thesis by simp
qed

lemma authorize_with_denied_refs:
  assumes "dn_code (authorize_with h g d e required now) = ''resource_scope_denied''"
    and "\<not> dn_allowed (authorize_with h g d e required now)"
  shows "resource_refs h d (en_payload e) = Inr (dn_resources (authorize_with h g d e required now))"
proof (cases "resource_refs h d (en_payload e)")
  case (Inl code)
  then have "code = ''resource_selector_missing'' \<or> code = ''resource_selector_invalid''"
    by (auto simp: resource_refs_def bindr_eq_Inl dest!: mapr_Inl_in)
      (auto simp: selector_ref_def split: option.splits if_splits)
  then show ?thesis using assms Inl by (auto simp: authorize_with_def Let_def split: if_splits)
next
  case (Inr refs)
  then show ?thesis using assms by (auto simp: authorize_with_def Let_def split: if_splits option.splits)
qed

section \<open>Scopes of data\<close>

lemma effective_scopes_bounded:
  assumes "x \<in> set (effective_data_scopes i granted)"
  shows "(x \<in> set granted \<or> ''*'' \<in> set granted) \<and>
         (\<forall>dl. ci_delegation i = Some dl \<longrightarrow> x \<in> set (dl_data dl) \<or> ''*'' \<in> set (dl_data dl))"
  using assms by (auto simp: effective_data_scopes_def split: option.splits if_splits)

section \<open>The owner fallback\<close>

lemma owned_refs_Some:
  "owned_refs owner refs = Some owned \<Longrightarrow> set owned = {ref \<in> set refs. owner ref = Some True}"
proof (induction refs arbitrary: owned)
  case (Cons ref refs)
  then obtain b rest where "owner ref = Some b" "owned_refs owner refs = Some rest"
    "owned = (if b then ref # rest else rest)" by (auto split: option.splits)
  with Cons.IH show ?case by (cases b) auto
qed simp

lemma scope_allows_widen:
  "scope_allows (gr_resources (widen g owned)) ref \<longleftrightarrow> scope_allows (gr_resources g) ref \<or> scope_allows owned ref"
  by (auto simp: scope_allows_def widen_def)

text \<open>A resource is in reach when the grants cover it or its owner check says so.\<close>

definition reach :: "policy_hooks \<Rightarrow> authorization_grants \<Rightarrow> invocation \<Rightarrow> jobj \<Rightarrow> string \<Rightarrow> bool" where
  "reach hooks g e user ref \<longleftrightarrow> scope_allows (gr_resources g) ref \<or>
     (\<exists>owner. ph_owner hooks = Some owner \<and>
        (\<exists>x. owner x (en_identity e) user = Some True \<and> scope_allows [x] ref))"

lemma scope_allows_some: "scope_allows xs ref \<longleftrightarrow> (\<exists>x\<in>set xs. scope_allows [x] ref)"
  by (auto simp: scope_allows_def)

lemma policy_decision_allowed:
  assumes "policy_decision h hooks d e required now g user = Inr dec" and "dn_allowed dec"
  shows "grants_cover h (g\<lparr>gr_resources := [''*'']\<rparr>) d e required (dn_resources dec) \<and>
         delegation_holds d e (dn_resources dec) now \<and>
         dn_data dec = effective_data_scopes (en_identity e) (gr_data g) \<and>
         (\<forall>ref\<in>set (dn_resources dec). reach hooks g e user ref)"
proof -
  have direct: ?thesis if dec: "dec = authorize_with h g d e required now"
    using authorize_with_decision [of h g d e required now] assms(2) dec
    by (auto simp: grants_cover_def reach_def scope_allows_def)
  show ?thesis
  proof (cases "dec = authorize_with h g d e required now")
    case False
    then obtain owner owned where owner: "ph_owner hooks = Some owner"
      and owned: "owned_refs (\<lambda>ref. owner ref (en_identity e) user)
            (dn_resources (authorize_with h g d e required now)) = Some owned"
      and dec: "dec = authorize_with h (widen g owned) d e required now"
      using assms(1) by (auto simp: policy_decision_def authorize_def Let_def split: if_splits option.splits)
    have "reach hooks g e user ref" if ref: "ref \<in> set (dn_resources dec)" for ref
    proof -
      have "scope_allows (gr_resources (widen g owned)) ref"
        using authorize_with_decision [of h "widen g owned" d e required now] assms(2) dec ref
        by (auto simp: grants_cover_def)
      then have "scope_allows (gr_resources g) ref \<or> (\<exists>x\<in>set owned. scope_allows [x] ref)"
        using scope_allows_widen scope_allows_some by blast
      then show ?thesis using owned_refs_Some [OF owned] owner by (auto simp: reach_def)
    qed
    then show ?thesis
      using authorize_with_decision [of h "widen g owned" d e required now] assms(2) dec
      by (auto simp: grants_cover_def widen_def scope_allows_def)
  qed (use direct in blast)
qed

section \<open>Properties\<close>


text \<open>
  The server policy, with its fallback to resource ownership, never allows more: outside the
  connector bootstrap, what it allows is tenant, permission, capability, delegation and data
  scope checked, every resource is in the granted scopes or covered by one the actor owns, and
  every data scope it hands on is granted and, under a delegation, delegated too.
\<close>

theorem policy_authorize_sound:
  assumes "policy_authorize h hooks d e required now = Inr dec"
    and "\<not> connector_bootstrap d e required"
  shows "\<exists>g user. load_grants hooks e = Inr (g, user) \<and>
    grants_cover h (g\<lparr>gr_resources := [''*'']\<rparr>) d e required (dn_resources dec) \<and>
    delegation_holds d e (dn_resources dec) now \<and>
    (\<forall>ref\<in>set (dn_resources dec). reach hooks g e user ref) \<and>
    (\<forall>x\<in>set (dn_data dec). (x \<in> set (gr_data g) \<or> ''*'' \<in> set (gr_data g)) \<and>
       (\<forall>dl. ci_delegation (en_identity e) = Some dl \<longrightarrow> x \<in> set (dl_data dl) \<or> ''*'' \<in> set (dl_data dl)))"
proof -
  from assms obtain g user where g: "load_grants hooks e = Inr (g, user)"
    and dec: "policy_decision h hooks d e required now g user = Inr dec" "dn_allowed dec"
    by (auto simp: policy_authorize_def bindr_eq_Inr split: if_splits)
  from policy_decision_allowed [OF dec] g show ?thesis
    using effective_scopes_bounded by fastforce
qed

definition xa_grants :: authorization_grants where
  "xa_grants = \<lparr>gr_permissions = [''craft.use''], gr_capabilities = [''*''], gr_resources = [],
     gr_data = [], gr_policy = ''p'', gr_tenant = Some ''t1''\<rparr>"

definition xa_hooks :: policy_hooks where
  "xa_hooks = \<lparr>ph_user = (\<lambda>_. Inr (Some [(''gid'', JStr ''u1'')])), ph_grants = (\<lambda>_ _. Inr xa_grants),
     ph_service = None, ph_owner = Some (\<lambda>ref _ _. Some (ref = ''plan:p1''))\<rparr>"

definition xa_decision :: authorization_decision where
  "xa_decision = \<lparr>dn_allowed = True, dn_code = ''allowed'', dn_policy = ''p'', dn_resources = [''plan:p1''],
     dn_data = [], dn_permissions = [''craft.use'']\<rparr>"

theorem policy_authorize_sound_witness:
  "\<exists>g user. load_grants xa_hooks xa_invocation = Inr (g, user) \<and>
    grants_cover host_ascii (g\<lparr>gr_resources := [''*'']\<rparr>) xa_descriptor xa_invocation [''craft.use'']
      (dn_resources xa_decision) \<and>
    delegation_holds xa_descriptor xa_invocation (dn_resources xa_decision) (Aware 9) \<and>
    (\<forall>ref\<in>set (dn_resources xa_decision). reach xa_hooks g xa_invocation user ref) \<and>
    (\<forall>x\<in>set (dn_data xa_decision). (x \<in> set (gr_data g) \<or> ''*'' \<in> set (gr_data g)) \<and>
       (\<forall>dl. ci_delegation (en_identity xa_invocation) = Some dl \<longrightarrow>
          x \<in> set (dl_data dl) \<or> ''*'' \<in> set (dl_data dl)))"
  by (rule policy_authorize_sound [of host_ascii xa_hooks xa_descriptor xa_invocation "[''craft.use'']" "Aware 9"])
    code_simp+

end
