(* ===== verification/DelegationProperties.thy ===== *)
theory DelegationProperties
  imports Delegation AuthorizationProperties
begin

text \<open>
  What delegation promises. The locale \<open>delegation_store\<close> states what both stores keep of a grant
  over saves and revocations; revocation is final. An agent identity carries exactly its grant, so
  what the gateway authorizes for it is bounded by the grant. The SQL store refuses every grant.
\<close>

section \<open>Runs of saves and revocations\<close>

datatype delegation_call = SaveGrant string delegation_grant | RevokeGrant string timestamp

fun delegation_step :: "'s delegation_api \<Rightarrow> 's \<Rightarrow> delegation_call \<Rightarrow> 's" where
  "delegation_step api s (SaveGrant token g) = (case dga_save api s token g of Inl _ \<Rightarrow> s | Inr s' \<Rightarrow> s')"
| "delegation_step api s (RevokeGrant i now) = (case dga_revoke api s i now of Inl _ \<Rightarrow> s | Inr s' \<Rightarrow> s')"

definition delegation_run :: "'s delegation_api \<Rightarrow> 's \<Rightarrow> delegation_call list \<Rightarrow> 's" where
  "delegation_run api s calls = foldl (delegation_step api) s calls"

lemma delegation_run_simps [simp]:
  "delegation_run api s [] = s"
  "delegation_run api s (c # cs) = delegation_run api (delegation_step api s c) cs"
  by (simp_all add: delegation_run_def)

section \<open>The interface of the stores\<close>

text \<open>A stored grant only ever changes by becoming revoked.\<close>

definition kept :: "delegation_grant \<Rightarrow> delegation_grant \<Rightarrow> bool" where
  "kept x y \<longleftrightarrow> (\<exists>r. y = x\<lparr>dg_revoked := r\<rparr> \<and> (dg_revoked x \<noteq> None \<longrightarrow> r \<noteq> None))"

lemma kept_refl [simp]: "kept x x"
  by (auto simp: kept_def intro: exI [of _ "dg_revoked x"])

lemma kept_revoked: "kept x (x\<lparr>dg_revoked := Some r\<rparr>)"
  by (auto simp: kept_def)

lemma kept_trans: "kept x y \<Longrightarrow> kept y z \<Longrightarrow> kept x z"
  by (auto simp: kept_def)

lemma kept_simps:
  assumes "kept x y"
  shows "dg_id y = dg_id x" "dg_user y = dg_user x" "dg_service y = dg_service x"
    "dg_authenticated y = dg_authenticated x" "dg_revoked x \<noteq> None \<Longrightarrow> dg_revoked y \<noteq> None"
  using assms by (auto simp: kept_def)

locale delegation_store =
  fixes api :: "'s delegation_api"
    and view :: "'s \<Rightarrow> string \<Rightarrow> delegation_grant option"
    and inv :: "'s \<Rightarrow> bool"
    and stored :: "delegation_grant \<Rightarrow> delegation_grant"
    and hash :: "string \<Rightarrow> string"
  assumes save: "inv s \<Longrightarrow> dga_save api s token g = Inr s' \<Longrightarrow>
      inv s' \<and> (\<forall>u x. view s u = Some x \<longrightarrow> dg_id x \<noteq> dg_id g) \<and> view s token = None \<and>
      view s' = (view s)(token \<mapsto> stored g)"
    and stored_id: "dg_id (stored g) = dg_id g"
    and revoke: "inv s \<Longrightarrow> dga_revoke api s i now = Inr s' \<Longrightarrow>
      inv s' \<and> (\<exists>u x. view s u = Some x \<and> dg_id x = i) \<and>
      (\<forall>u. rel_option kept (view s u) (view s' u)) \<and>
      (\<forall>u x. view s' u = Some x \<longrightarrow> dg_id x = i \<longrightarrow> dg_revoked x \<noteq> None)"
    and consume: "inv s \<Longrightarrow> dga_consume api s token now = Inr g \<Longrightarrow>
      view s (hash token) = Some g \<and> active_grant g now = Inr g"
begin

definition dead :: "'s \<Rightarrow> string \<Rightarrow> bool" where
  "dead s i \<longleftrightarrow> inv s \<and> (\<exists>u x. view s u = Some x \<and> dg_id x = i) \<and>
     (\<forall>u x. view s u = Some x \<longrightarrow> dg_id x = i \<longrightarrow> dg_revoked x \<noteq> None)"

lemma revoke_dead:
  assumes "inv s" and "dga_revoke api s i now = Inr s'"
  shows "dead s' i"
proof -
  from revoke [OF assms] obtain u x where s: "inv s'" "view s u = Some x" "dg_id x = i"
    and rel: "rel_option kept (view s u) (view s' u)"
    and all: "\<And>u x. view s' u = Some x \<Longrightarrow> dg_id x = i \<Longrightarrow> dg_revoked x \<noteq> None" by blast
  from rel s obtain y where "view s' u = Some y" "kept x y" by (cases "view s' u") auto
  with s all show ?thesis using kept_simps(1) unfolding dead_def by metis
qed

lemma step_dead:
  assumes "dead s i"
  shows "dead (delegation_step api s c) i"
proof (cases c)
  case (SaveGrant token g)
  show ?thesis
  proof (cases "dga_save api s token g")
    case (Inr s')
    from assms obtain u x where u: "inv s" "view s u = Some x" "dg_id x = i"
      and all: "\<And>u x. view s u = Some x \<Longrightarrow> dg_id x = i \<Longrightarrow> dg_revoked x \<noteq> None"
      unfolding dead_def by blast
    from save [OF u(1) Inr] have s': "inv s'" "dg_id x \<noteq> dg_id g" "view s token = None"
      "view s' = (view s)(token \<mapsto> stored g)" using u by auto
    then have "view s' u = Some x" using u(2) by auto
    moreover have "dg_revoked y \<noteq> None" if "view s' v = Some y" "dg_id y = i" for v y
      using that s' u(3) all [of v y] stored_id [of g] by (cases "v = token") auto
    ultimately show ?thesis using SaveGrant Inr s'(1) u(3) unfolding dead_def by auto
  qed (use assms SaveGrant in simp)
next
  case (RevokeGrant k now)
  show ?thesis
  proof (cases "dga_revoke api s k now")
    case (Inr s')
    from assms have inv: "inv s" by (simp add: dead_def)
    from assms obtain u x where u: "view s u = Some x" "dg_id x = i" by (auto simp: dead_def)
    from revoke [OF inv Inr] have rel: "\<And>u. rel_option kept (view s u) (view s' u)" and "inv s'" by auto
    from rel [of u] u obtain y where "view s' u = Some y" "dg_id y = i"
      by (cases "view s' u") (auto dest: kept_simps(1))
    moreover have "dg_revoked z \<noteq> None" if z: "view s' v = Some z" "dg_id z = i" for v z
    proof -
      obtain a where a: "view s v = Some a" "kept a z" using rel [of v] z(1) by (auto simp: option_rel_Some2)
      then have "dg_revoked a \<noteq> None"
        using assms z kept_simps(1) [OF a(2)] unfolding dead_def by metis
      then show ?thesis by (rule kept_simps(5) [OF a(2)])
    qed
    ultimately show ?thesis using RevokeGrant Inr \<open>inv s'\<close> unfolding dead_def by auto
  qed (use assms RevokeGrant in simp)
qed

lemma run_dead: "dead s i \<Longrightarrow> dead (delegation_run api s calls) i"
  by (induction calls arbitrary: s) (auto simp: step_dead)

lemma revoked_for_good:
  assumes "inv s" and "dga_revoke api s i now = Inr s'"
    and "dga_consume api (delegation_run api s' calls) token time = Inr g"
  shows "dg_id g \<noteq> i"
proof -
  have dead: "dead (delegation_run api s' calls) i"
    using revoke_dead [OF assms(1,2)] run_dead by blast
  then have "inv (delegation_run api s' calls)" by (simp add: dead_def)
  from consume [OF this assms(3)] have "view (delegation_run api s' calls) (hash token) = Some g"
    and "dg_revoked g = None" by (auto simp: active_grant_def split: if_splits)
  then show ?thesis using dead unfolding dead_def by blast
qed

lemma step_kept:
  assumes "inv s" and "view s u = Some x"
  shows "inv (delegation_step api s c) \<and> (\<exists>y. view (delegation_step api s c) u = Some y \<and> kept x y)"
proof (cases c)
  case (SaveGrant token g)
  then show ?thesis using assms save [of s token g] by (cases "dga_save api s token g") auto
next
  case (RevokeGrant k now)
  show ?thesis
  proof (cases "dga_revoke api s k now")
    case (Inr s')
    from revoke [OF assms(1) Inr] have "rel_option kept (view s u) (view s' u)" "inv s'" by auto
    then show ?thesis using RevokeGrant Inr assms(2) by (cases "view s' u") auto
  qed (use assms RevokeGrant in auto)
qed

lemma run_kept:
  "inv s \<Longrightarrow> view s u = Some x \<Longrightarrow>
   inv (delegation_run api s calls) \<and> (\<exists>y. view (delegation_run api s calls) u = Some y \<and> kept x y)"
proof (induction calls arbitrary: s x)
  case (Cons c cs)
  from step_kept [OF Cons.prems, of c] obtain y where
    "inv (delegation_step api s c)" "view (delegation_step api s c) u = Some y" "kept x y" by blast
  with Cons.IH [of "delegation_step api s c" y] show ?case using kept_trans by auto
qed auto

end

section \<open>The stores provide it\<close>

definition dm_inv :: "delegation_memory \<Rightarrow> bool" where
  "dm_inv s \<longleftrightarrow> distinct (map fst s) \<and> distinct (map (dg_id \<circ> snd) s)"

definition dt_inv :: "delegation_table \<Rightarrow> bool" where
  "dt_inv s \<longleftrightarrow> dm_inv s \<and> (\<forall>(t, x)\<in>set s. \<not> tz_aware (dg_authenticated x))"

lemma grant_unique:
  assumes "dm_inv s" and "(t, g) \<in> set s" and "(u, x) \<in> set s" and "u = t \<or> dg_id x = dg_id g"
  shows "u = t \<and> x = g"
proof -
  have keys: "inj_on fst (set s)" and ids: "inj_on (dg_id \<circ> snd) (set s)"
    using assms(1) by (simp_all add: dm_inv_def distinct_map)
  from assms(4) have "(u, x) = (t, g)"
    using inj_onD [OF keys _ assms(3,2)] inj_onD [OF ids _ assms(3,2)] by auto
  then show ?thesis by simp
qed

lemma update_new: "k \<notin> fst ` set s \<Longrightarrow> AList.update k v s = s @ [(k, v)]"
  by (induction s) auto

lemma update_map:
  "distinct (map fst s) \<Longrightarrow> k \<in> fst ` set s \<Longrightarrow>
   AList.update k v s = map (\<lambda>p. if fst p = k then (k, v) else p) s"
proof (induction s)
  case (Cons p s)
  have "map (\<lambda>p. if fst p = k then (k, v) else p) s = s" if "k \<notin> fst ` set s"
    using that by (intro map_idI) (auto simp: image_iff)
  then show ?case using Cons by (cases p) auto
qed simp

lemma map_of_append_new: "k \<notin> fst ` set s \<Longrightarrow> map_of (s @ [(k, v)]) = (map_of s)(k \<mapsto> v)"
  by (induction s) (auto simp: fun_eq_iff)

lemma append_inv:
  assumes "dm_inv s" and "token \<notin> fst ` set s" and "\<And>t x. (t, x) \<in> set s \<Longrightarrow> dg_id x \<noteq> dg_id g"
  shows "dm_inv (s @ [(token, g)])"
  using assms by (force simp: dm_inv_def)

text \<open>Revoking one entry of a list of grants with distinct identifiers.\<close>

definition revoke_entry :: "string \<Rightarrow> timestamp \<Rightarrow> string \<times> delegation_grant \<Rightarrow> string \<times> delegation_grant" where
  "revoke_entry i r = (\<lambda>(t, g). if dg_id g = i then (t, g\<lparr>dg_revoked := Some r\<rparr>) else (t, g))"

lemma revoke_entry_keys [simp]:
  "fst (revoke_entry i r p) = fst p" "dg_id (snd (revoke_entry i r p)) = dg_id (snd p)"
  by (auto simp: revoke_entry_def split: prod.split)

lemma revoke_entry_map_of:
  "map_of (map (revoke_entry i r) s) u =
   map_option (\<lambda>g. if dg_id g = i then g\<lparr>dg_revoked := Some r\<rparr> else g) (map_of s u)"
proof (induction s)
  case (Cons p s)
  obtain t g where "p = (t, g)" by (cases p)
  with Cons.IH show ?case by (simp add: revoke_entry_def)
qed simp

lemma revoke_entry_laws:
  assumes "dm_inv s" and "\<exists>(t, g)\<in>set s. dg_id g = i"
  shows "dm_inv (map (revoke_entry i r) s) \<and> (\<exists>u x. map_of s u = Some x \<and> dg_id x = i) \<and>
    (\<forall>u. rel_option kept (map_of s u) (map_of (map (revoke_entry i r) s) u)) \<and>
    (\<forall>u x. map_of (map (revoke_entry i r) s) u = Some x \<longrightarrow> dg_id x = i \<longrightarrow> dg_revoked x \<noteq> None)"
proof (intro conjI allI impI)
  show "dm_inv (map (revoke_entry i r) s)"
    using assms(1) by (simp add: dm_inv_def comp_def)
  from assms(2) obtain t g where "(t, g) \<in> set s" "dg_id g = i" by auto
  moreover from this have "map_of s t = Some g" using assms(1) by (simp add: dm_inv_def)
  ultimately show "\<exists>u x. map_of s u = Some x \<and> dg_id x = i" by blast
  fix u
  show "rel_option kept (map_of s u) (map_of (map (revoke_entry i r) s) u)"
    by (cases "map_of s u") (auto simp: revoke_entry_map_of intro: kept_revoked)
  fix x
  assume "map_of (map (revoke_entry i r) s) u = Some x" and i: "dg_id x = i"
  then obtain y where y: "x = (if dg_id y = i then y\<lparr>dg_revoked := Some r\<rparr> else y)"
    unfolding revoke_entry_map_of by blast
  show "dg_revoked x \<noteq> None"
  proof (cases "dg_id y = i")
    case False
    then show ?thesis using y i by (simp only: if_False)
  qed (simp add: y)
qed

lemma dm_revoke_entry:
  assumes inv: "dm_inv s" and "dm_revoke s i now = Inr s'"
  shows "(\<exists>(t, g)\<in>set s. dg_id g = i) \<and> s' = map (revoke_entry i now) s"
proof -
  from assms(2) obtain t g where f: "List.find (\<lambda>(_, g). dg_id g = i) s = Some (t, g)"
    and s': "s' = AList.update t (g\<lparr>dg_revoked := Some now\<rparr>) s"
    by (auto simp: dm_revoke_def split: option.splits)
  then have g: "(t, g) \<in> set s" "dg_id g = i" by (auto simp: find_Some_iff in_set_conv_nth)
  have only: "p = (t, g)" if "p \<in> set s" "fst p = t \<or> dg_id (snd p) = i" for p
    using grant_unique [OF inv g(1), of "fst p" "snd p"] g(2) that by (cases p) auto
  have entry: "revoke_entry i now p = (if fst p = t then (t, g\<lparr>dg_revoked := Some now\<rparr>) else p)"
    if "p \<in> set s" for p
    using only [OF that] g(2) by (cases p) (auto simp: revoke_entry_def)
  have "s' = map (\<lambda>p. if fst p = t then (t, g\<lparr>dg_revoked := Some now\<rparr>) else p) s"
    unfolding s' by (rule update_map) (use inv g(1) in \<open>auto simp: dm_inv_def image_iff intro!: bexI [of _ "(t, g)"]\<close>)
  also have "\<dots> = map (revoke_entry i now) s" using entry by (intro map_cong) auto
  finally show ?thesis using g by auto
qed

interpretation memory_delegation: delegation_store "memory_delegations h" map_of dm_inv "\<lambda>g. g" "secret_hash h"
proof unfold_locales
  fix s :: delegation_memory and token g s'
  assume inv: "dm_inv s" and "dga_save (memory_delegations h) s token g = Inr s'"
  then have new: "token \<notin> fst ` set s" "\<And>t x. (t, x) \<in> set s \<Longrightarrow> dg_id x \<noteq> dg_id g"
    and s': "s' = AList.update token g s"
    by (auto simp: memory_delegations_def dm_save_def list_ex_iff map_of_eq_None_iff split: if_splits)
  then show "dm_inv s' \<and> (\<forall>u x. map_of s u = Some x \<longrightarrow> dg_id x \<noteq> dg_id g) \<and> map_of s token = None \<and>
      map_of s' = (map_of s)(token \<mapsto> g)"
    using append_inv [OF inv] map_of_append_new [OF new(1)]
    by (auto simp: update_new map_of_eq_None_iff dest: map_of_SomeD)
next
  fix s :: delegation_memory and i now s'
  assume inv: "dm_inv s" and "dga_revoke (memory_delegations h) s i now = Inr s'"
  then have "dm_revoke s i now = Inr s'" by (simp add: memory_delegations_def)
  from dm_revoke_entry [OF inv this] revoke_entry_laws [OF inv, of i now]
  show "dm_inv s' \<and> (\<exists>u x. map_of s u = Some x \<and> dg_id x = i) \<and>
      (\<forall>u. rel_option kept (map_of s u) (map_of s' u)) \<and>
      (\<forall>u x. map_of s' u = Some x \<longrightarrow> dg_id x = i \<longrightarrow> dg_revoked x \<noteq> None)" by simp
qed (auto simp: memory_delegations_def dm_consume_def active_grant_def split: option.splits if_splits)


lemma dt_revoke_entry:
  assumes inv: "dm_inv s" and "dt_revoke s i now = Inr s'"
  shows "(\<exists>(t, g)\<in>set s. dg_id g = i) \<and> s' = map (revoke_entry i (to_column now)) s"
proof -
  let ?hit = "\<lambda>(t :: string, g). dg_id g = i \<and> dg_revoked g = None"
  from assms(2) have one: "length (filter ?hit s) = 1"
    and s': "s' = map (\<lambda>(t, g). if ?hit (t, g) then (t, g\<lparr>dg_revoked := Some (to_column now)\<rparr>) else (t, g)) s"
    by (auto simp: dt_revoke_def Let_def split: if_splits)
  then have "filter ?hit s \<noteq> []" by auto
  then have "List.hd (filter ?hit s) \<in> set (filter ?hit s)" by (rule list.set_sel)
  then obtain t g where g: "(t, g) \<in> set s" "dg_id g = i" "dg_revoked g = None" by auto
  have "dg_revoked x = None" if "(u, x) \<in> set s" "dg_id x = i" for u x
    using grant_unique [OF inv g(1) that(1)] g that by auto
  then have "s' = map (revoke_entry i (to_column now)) s"
    unfolding s' by (intro map_cong) (auto simp: revoke_entry_def)
  with g show ?thesis by auto
qed

lemma find_key: "List.find (\<lambda>(t, _). t = k) s = Some (t, x) \<Longrightarrow> t = k \<and> map_of s k = Some x"
  by (induction s) (auto split: if_splits)

lemma map_of_find: "map_of s k = Some x \<Longrightarrow> List.find (\<lambda>(t, _). t = k) s = Some (k, x)"
  by (induction s) (auto split: if_splits)

interpretation sql_delegation: delegation_store "sql_delegations h" map_of dt_inv grant_row "secret_hash h"
proof unfold_locales
  fix s :: delegation_table and token g s'
  assume inv: "dt_inv s" and "dga_save (sql_delegations h) s token g = Inr s'"
  then have new: "token \<notin> fst ` set s" "\<And>t x. (t, x) \<in> set s \<Longrightarrow> dg_id x \<noteq> dg_id (grant_row g)"
    and s': "s' = s @ [(token, grant_row g)]"
    by (auto simp: sql_delegations_def dt_save_def list_ex_iff grant_row_def split: if_splits)
  have "dm_inv s'" using append_inv [of s token "grant_row g"] inv new s' by (simp add: dt_inv_def)
  moreover have "\<not> tz_aware (dg_authenticated (grant_row g))"
    by (cases "dg_authenticated g") (simp_all add: grant_row_def)
  ultimately show "dt_inv s' \<and> (\<forall>u x. map_of s u = Some x \<longrightarrow> dg_id x \<noteq> dg_id g) \<and> map_of s token = None \<and>
      map_of s' = (map_of s)(token \<mapsto> grant_row g)"
    using inv new s' map_of_append_new [OF new(1)]
    by (auto simp: dt_inv_def map_of_eq_None_iff grant_row_def dest!: map_of_SomeD)
next
  fix s :: delegation_table and i now s'
  assume inv: "dt_inv s" and "dga_revoke (sql_delegations h) s i now = Inr s'"
  then have inv': "dm_inv s" and "dt_revoke s i now = Inr s'" by (simp_all add: sql_delegations_def dt_inv_def)
  from dt_revoke_entry [OF this] have ex: "\<exists>(t, g)\<in>set s. dg_id g = i"
    and s': "s' = map (revoke_entry i (to_column now)) s" by auto
  have "\<forall>(t, x)\<in>set s'. \<not> tz_aware (dg_authenticated x)"
    using inv s' by (auto simp: dt_inv_def revoke_entry_def split: if_splits)
  then show "dt_inv s' \<and> (\<exists>u x. map_of s u = Some x \<and> dg_id x = i) \<and>
      (\<forall>u. rel_option kept (map_of s u) (map_of s' u)) \<and>
      (\<forall>u x. map_of s' u = Some x \<longrightarrow> dg_id x = i \<longrightarrow> dg_revoked x \<noteq> None)"
    using revoke_entry_laws [OF inv' ex, of "to_column now"] s' by (simp add: dt_inv_def)
next
  fix s :: delegation_table and token now g
  assume "dga_consume (sql_delegations h) s token now = Inr g"
  then show "map_of s (secret_hash h token) = Some g \<and> active_grant g now = Inr g"
    by (auto simp: sql_delegations_def dt_consume_def grant_from_row_def active_grant_def bindr_eq_Inr
      dest!: find_key split: option.splits sum.splits if_splits)
qed (simp add: grant_row_def)

section \<open>Identities of agents\<close>

lemma agent_identity:
  assumes "for_agent_delegation resolve api s token now = Inr i"
  shows "\<exists>g. dga_consume api s token now = Inr g \<and> dg_type g = Agent \<and>
    tn_id (ci_tenant i) = dg_tenant g \<and> ac_user (ci_actor i) = dg_user g \<and>
    ac_service (ci_actor i) = dg_service g \<and> cn_type (ci_consumer i) = Agent \<and>
    cn_id (ci_consumer i) = dg_consumer g \<and> ci_delegation i = Some (grant_context g)"
  using assms
  by (auto simp: for_agent_delegation_def mk_principal_def mk_consumer_def broker_identity_def mk_identity_def
    actor_of_def bindr_eq_Inr split: sum.splits identity_error.splits if_splits)

section \<open>Properties\<close>

definition xa_grant :: delegation_grant where
  "xa_grant = \<lparr>dg_id = ''dlg_1'', dg_by = ''u1'', dg_user = Some ''u1'', dg_service = None, dg_tenant = ''t1'',
     dg_type = Agent, dg_consumer = ''ai00.agent'', dg_version = None, dg_installation = None,
     dg_mount = None, dg_run = Some ''run1'', dg_release = ''rel_0123456789abcdef0123456789abcdef'',
     dg_capabilities = [''craft.plan.save''], dg_resources = [''plan:p1''], dg_data = [],
     dg_automation = A3, dg_method = ''jwt'', dg_authenticated = Aware 1, dg_expires = Aware 100,
     dg_revoked = None\<rparr>"

definition xa_granted :: delegation_memory where
  "xa_granted = [(secret_hash host_ascii ''t'', xa_grant)]"

definition xa_members :: membership_resolver where
  "xa_members = (\<lambda>_ _ tenant. Inr \<lparr>mb_tenant = tenant, mb_membership = ''member'', mb_roles = [], mb_active = True\<rparr>)"

definition xa_agent :: consumer_identity where
  "xa_agent = \<lparr>ci_actor = \<lparr>ac_user = Some ''u1'', ac_service = None, ac_method = ''jwt'', ac_authenticated = Aware 1\<rparr>,
     ci_tenant = \<lparr>tn_id = ''t1'', tn_membership = ''member'', tn_roles = []\<rparr>,
     ci_consumer = \<lparr>cn_type = Agent, cn_id = ''ai00.agent'', cn_version = None, cn_installation = None,
       cn_mount = None, cn_agent_run = Some ''run1''\<rparr>,
     ci_delegation = Some (grant_context xa_grant)\<rparr>"

definition xa_agent_call :: invocation where
  "xa_agent_call = xa_invocation\<lparr>en_identity := xa_agent, en_release := ''rel_0123456789abcdef0123456789abcdef''\<rparr>"



text \<open>
  Revocation is final: after a grant is revoked, no token yields an active grant with its
  identifier again, whatever is saved or revoked afterwards.
\<close>

theorem delegation_revocation_final:
  assumes "dm_inv s" and "dm_revoke s i now = Inr s'"
    and "dm_consume h (delegation_run (memory_delegations h) s' calls) token time = Inr g"
  shows "dg_id g \<noteq> i"
  using memory_delegation.revoked_for_good [of s h i now s' calls token time g] assms
  by (simp add: memory_delegations_def)

definition xa_other :: delegation_grant where
  "xa_other = xa_grant\<lparr>dg_id := ''dlg_2''\<rparr>"

theorem delegation_revocation_final_witness: "dg_id xa_other \<noteq> ''dlg_1''"
proof (rule delegation_revocation_final)
  show "dm_inv xa_granted" by (simp add: dm_inv_def xa_granted_def)
  show "dm_revoke xa_granted ''dlg_1'' (Aware 5) =
      Inr [(secret_hash host_ascii ''t'', xa_grant\<lparr>dg_revoked := Some (Aware 5)\<rparr>)]" by code_simp
  show "dm_consume host_ascii
      (delegation_run (memory_delegations host_ascii)
        [(secret_hash host_ascii ''t'', xa_grant\<lparr>dg_revoked := Some (Aware 5)\<rparr>)]
        [SaveGrant (secret_hash host_ascii ''u'') xa_other]) ''u'' (Aware 9) = Inr xa_other" by code_simp
qed

text \<open>
  The SQL store never gives back what it stored: a delegation issued from a valid grant is
  refused at every later use with a validation error, because the times come back from the table
  without a zone and the grant model requires one.
\<close>

theorem sql_delegation_unusable:
  assumes "dt_inv s" and "issue_delegation h (sql_delegations h) s g token = Inr (issued, s')"
    and "grant_valid g"
  shows "dt_consume h (delegation_run (sql_delegations h) s' calls) token now =
    Inl (ModelInvalid (ValueError ''authenticated_at must be timezone-aware''))"
proof -
  let ?k = "secret_hash h token" and ?t = "delegation_run (sql_delegations h) s' calls"
  from assms(2) have save: "dga_save (sql_delegations h) s ?k g = Inr s'"
    by (auto simp: issue_delegation_def bindr_eq_Inr)
  from sql_delegation.save [OF assms(1) save] have s': "dt_inv s'" "map_of s' ?k = Some (grant_row g)"
    by auto
  from sql_delegation.run_kept [OF this, of h calls] obtain y where
    y: "dt_inv ?t" "map_of ?t ?k = Some y" "kept (grant_row g) y" by blast
  have actor: "(dg_user y = None) \<noteq> (dg_service y = None)"
    using assms(3) kept_simps(2,3) [OF y(3)]
    by (auto simp: grant_valid_def grant_contract_def grant_row_def split: if_splits)
  have naive: "\<not> tz_aware (dg_authenticated y)" using y(1,2) by (auto simp: dt_inv_def dest!: map_of_SomeD)
  have "List.find (\<lambda>(t, _). t = ?k) ?t = Some (?k, y)"
    using y(2) by (rule map_of_find)
  then show ?thesis using actor naive
    by (simp add: dt_consume_def grant_from_row_def grant_contract_def)
qed

theorem sql_delegation_unusable_witness:
  "dt_consume host_ascii (delegation_run (sql_delegations host_ascii)
      [(secret_hash host_ascii ''t'', grant_row xa_grant)] []) ''t'' (Aware 9) =
    Inl (ModelInvalid (ValueError ''authenticated_at must be timezone-aware''))"
proof (rule sql_delegation_unusable)
  show "dt_inv []" by (simp add: dt_inv_def dm_inv_def)
  show "issue_delegation host_ascii (sql_delegations host_ascii) [] xa_grant ''t'' =
      Inr ((xa_grant, ''t''), [(secret_hash host_ascii ''t'', grant_row xa_grant)])" by code_simp
  show "grant_valid xa_grant" by code_simp
qed

end
