(* ===== verification/Catalog.thy ===== *)
theory Catalog
  imports PayloadValidation CapabilityExamples "HOL-Library.Product_Lexorder"
begin

text \<open>
  Catalog releases (\<open>backend/capability_v2/catalog.py\<close>), their stores (\<open>catalog_store.py\<close>) and the
  provider registry (\<open>backend/capabilities/registry_next.py\<close>) behind the resolver. The JSON dump of a
  descriptor, which pydantic makes, is the parameter \<open>dump\<close>; the handler of a provider has a type of
  its own.
\<close>

section \<open>Releases\<close>

record provider_artifact =
  pa_plugin :: string
  pa_module :: string
  pa_version :: string
  pa_hash :: string

text \<open>The field patterns of an artifact; a version is three numbers and an optional suffix.\<close>

definition drop_number :: "string \<Rightarrow> string option" where
  "drop_number s = (if takeWhile is_digit s = [] then None else Some (dropWhile is_digit s))"

fun drop_dot :: "string \<Rightarrow> string option" where
  "drop_dot (c # s) = (if c = CHR ''.'' then Some s else None)"
| "drop_dot [] = None"

fun version_suffix_ok :: "string \<Rightarrow> bool" where
  "version_suffix_ok [] = True"
| "version_suffix_ok (c # s) =
     ((c = CHR ''-'' \<or> c = CHR ''+'') \<and> s \<noteq> [] \<and> list_all (\<lambda>d. is_alnum d \<or> d \<in> set ''.-'') s)"

definition version_ok :: "string \<Rightarrow> bool" where
  "version_ok s =
     (case Option.bind (Option.bind (Option.bind (Option.bind (drop_number s) drop_dot) drop_number) drop_dot)
             drop_number of
        None \<Rightarrow> False | Some rest \<Rightarrow> version_suffix_ok rest)"

definition artifact_hash_ok :: "string \<Rightarrow> bool" where
  "artifact_hash_ok s \<longleftrightarrow> str_prefix ''sha256:'' s \<and> length s = 71 \<and>
     list_all (\<lambda>c. is_digit c \<or> c \<in> set ''abcdef'') (drop 7 s)"

definition provider_artifact_ok :: "provider_artifact \<Rightarrow> bool" where
  "provider_artifact_ok p \<longleftrightarrow> capability_id_ok (pa_plugin p) \<and>
     match_ident (\<lambda>c. is_lower c \<or> is_upper c \<or> c = CHR ''_'') (\<lambda>c. is_alnum c \<or> c \<in> set ''_.'') 2 255 (pa_module p) \<and>
     version_ok (pa_version p) \<and> artifact_hash_ok (pa_hash p)"

record catalog_release =
  rl_id :: string
  rl_hash :: string
  rl_descriptors :: "descriptor list"
  rl_providers :: "provider_artifact list"
  rl_created :: timestamp

type_synonym dump = "descriptor \<Rightarrow> jobj"

definition drop_key :: "string \<Rightarrow> bool \<Rightarrow> jobj \<Rightarrow> jobj" where
  "drop_key k b doc = (if b then filter (\<lambda>(x, _). x \<noteq> k) doc else doc)"

definition absent_or_null :: "string \<Rightarrow> jobj \<Rightarrow> bool" where
  "absent_or_null k doc \<longleftrightarrow> jget_null (JObj doc) k = JNull"

definition falsy_key :: "string \<Rightarrow> jobj \<Rightarrow> bool" where
  "falsy_key k doc \<longleftrightarrow> \<not> truthy (jget_null (JObj doc) k)"

text \<open>The error projection of a legacy \<open>domain_errors\<close> entry.\<close>

definition error_entry :: "json \<Rightarrow> json" where
  "error_entry e = JObj
     [(''error_code'', jget_null e ''code''), (''message_template'', jget_null e ''meaning''),
      (''is_retryable'', case jget e ''retryable'' of None \<Rightarrow> JBool False | Some v \<Rightarrow> v),
      (''is_caller_error'', case jget e ''is_caller_error'' of None \<Rightarrow> JBool False | Some v \<Rightarrow> v)]"

definition with_error_schema :: "jobj \<Rightarrow> jobj" where
  "with_error_schema doc =
     (if falsy_key ''error_schema'' doc \<and> \<not> falsy_key ''domain_errors'' doc
      then AList.update ''error_schema''
             (JList (map error_entry (jlist (jget_null (JObj doc) ''domain_errors'')))) doc
      else doc)"

definition prune_document :: "bool \<Rightarrow> jobj \<Rightarrow> jobj" where
  "prune_document default_execution doc0 =
     (let doc1 = drop_key ''agent_output_schema'' (absent_or_null ''agent_output_schema'' doc0) doc0;
          doc2 = drop_key ''domain_errors'' (falsy_key ''domain_errors'' doc1) doc1;
          doc3 = drop_key ''domain_errors_complete'' (falsy_key ''domain_errors_complete'' doc2) doc2;
          doc4 = drop_key ''expected_version_payload_path''
                   (absent_or_null ''expected_version_payload_path'' doc3) doc3;
          doc5 = drop_key ''replay_data_policy''
                   (jget (JObj doc4) ''replay_data_policy'' = Some (JStr ''metadata_only'')) doc4 in
      drop_key ''execution_budget'' default_execution doc5)"

definition descriptor_document :: "dump \<Rightarrow> descriptor \<Rightarrow> json" where
  "descriptor_document dump d =
     JObj (prune_document (cd_budget d = default_budget) (with_error_schema (dump d)))"

definition provider_document :: "provider_artifact \<Rightarrow> json" where
  "provider_document p = JObj
     [(''plugin_id'', JStr (pa_plugin p)), (''module'', JStr (pa_module p)),
      (''version'', JStr (pa_version p)), (''artifact_hash'', JStr (pa_hash p))]"

definition descriptor_key :: "descriptor \<Rightarrow> string \<times> int" where
  "descriptor_key d = (cd_id d, cd_major d)"

definition provider_key :: "provider_artifact \<Rightarrow> string \<times> string \<times> string \<times> string" where
  "provider_key p = (pa_plugin p, pa_module p, pa_version p, pa_hash p)"

definition canonical_catalog_bytes ::
  "hostlib \<Rightarrow> dump \<Rightarrow> descriptor list \<Rightarrow> provider_artifact list \<Rightarrow> string" where
  "canonical_catalog_bytes h dump ds ps = json_dumps h (JObj
     [(''descriptors'', JList (map (descriptor_document dump) (sort_key descriptor_key ds))),
      (''provider_artifacts'', JList (map provider_document (sort_key provider_key ps)))])"

definition catalog_digest ::
  "hostlib \<Rightarrow> dump \<Rightarrow> descriptor list \<Rightarrow> provider_artifact list \<Rightarrow> string" where
  "catalog_digest h dump ds ps = sha256_hex h (canonical_catalog_bytes h dump ds ps)"

definition release_contract :: "hostlib \<Rightarrow> dump \<Rightarrow> catalog_release \<Rightarrow> py_exn + unit" where
  "release_contract h dump r =
     (let digest = catalog_digest h dump (rl_descriptors r) (rl_providers r) in
      if \<not> distinct (map descriptor_key (rl_descriptors r))
      then Inl (ValueError ''duplicate descriptor in catalog release'')
      else if \<not> distinct (map pa_plugin (rl_providers r))
      then Inl (ValueError ''duplicate provider in catalog release'')
      else if \<not> tz_aware (rl_created r)
      then Inl (ValueError ''catalog release created_at must be timezone-aware'')
      else if rl_hash r \<noteq> ''sha256:'' @ digest then Inl (ValueError ''catalog_hash_mismatch'')
      else if rl_id r \<noteq> ''rel_'' @ take 32 digest then Inl (ValueError ''release_id_mismatch'')
      else Inr ())"

definition release_descriptor :: "catalog_release \<Rightarrow> string \<Rightarrow> int \<Rightarrow> descriptor option" where
  "release_descriptor r capability major =
     List.find (\<lambda>d. cd_id d = capability \<and> cd_major d = major) (rl_descriptors r)"

section \<open>Collections without a bound\<close>

lemma jget_null_size: "jget_null v k \<noteq> JNull \<Longrightarrow> size (jget_null v k) < size v"
  by (auto simp: jget_null_def dest: jget_size split: option.splits)

lemma keyword_item_smaller: "(k, c) \<in> set (obj_items (jget_null v key)) \<Longrightarrow> size c < size v"
proof -
  assume a: "(k, c) \<in> set (obj_items (jget_null v key))"
  then have "jget_null v key \<noteq> JNull" by auto
  from jget_null_size [OF this] obj_items_size [OF a] show ?thesis by simp
qed

lemma keyword_list_smaller: "c \<in> set (jlist (jget_null v key)) \<Longrightarrow> size c < size v"
proof -
  assume a: "c \<in> set (jlist (jget_null v key))"
  then have "jget_null v key \<noteq> JNull" by auto
  from jget_null_size [OF this] jlist_size [OF a] show ?thesis by simp
qed

lemma keyword_nth_smaller:
  "i < length (jlist (jget_null v key)) \<Longrightarrow> size (jlist (jget_null v key) ! i) < size v"
  by (rule keyword_list_smaller) (rule nth_mem)

function unbounded_collection_paths :: "json \<Rightarrow> string \<Rightarrow> string list" where
  "unbounded_collection_paths schema path =
     (if jget schema ''type'' = Some (JStr ''array'') then
        (if jget schema ''maxItems'' = None then [path] else []) @
        (case jget schema ''items'' of
           Some (JObj s) \<Rightarrow> unbounded_collection_paths (JObj s) (path @ ''[]'')
         | _ \<Rightarrow> [])
      else []) @
     concat (map (\<lambda>(name, child). if is_obj child then unbounded_collection_paths child (path @ ''.'' @ name) else [])
       (obj_items (jget_null schema ''properties''))) @
     concat (map (\<lambda>(name, child). if is_obj child then unbounded_collection_paths child (path @ ''.$defs.'' @ name) else [])
       (obj_items (jget_null schema ''$defs''))) @
     concat (map (\<lambda>keyword.
       concat (map (\<lambda>(index, child).
           if is_obj child
           then unbounded_collection_paths child (path @ ''.'' @ keyword @ ''['' @ str_of_nat index @ '']'')
           else [])
         (enumerate 0 (jlist (jget_null schema keyword)))))
       [''anyOf'', ''oneOf'', ''allOf''])"
  by pat_completeness auto
termination
  by (relation "measure (\<lambda>(schema, path). size schema)")
    (auto dest: keyword_item_smaller jget_size simp: keyword_nth_smaller in_set_enumerate_eq)

declare unbounded_collection_paths.simps [simp del]

definition collection_errors :: "descriptor list \<Rightarrow> (string \<times> int \<times> string) list \<Rightarrow> string list" where
  "collection_errors ds grandfathered =
     concat (map (\<lambda>d.
       if cd_lifecycle d \<noteq> Stable \<or> eb_collection (cd_budget d) \<in> {Paged, ArtifactCollection} then []
       else map (\<lambda>path. ''unbounded stable collection: '' @ cd_id d @ ''@'' @ str_of_int (cd_major d) @ '' '' @ path)
              (filter (\<lambda>path. (cd_id d, cd_major d, path) \<notin> set grandfathered)
                (unbounded_collection_paths (cd_output d) ''output_schema''))) ds)"

definition validate_collection_boundaries ::
  "descriptor list \<Rightarrow> (string \<times> int \<times> string) list \<Rightarrow> py_exn + unit" where
  "validate_collection_boundaries ds grandfathered =
     (let errors = collection_errors ds grandfathered in
      if errors \<noteq> [] then Inl (ValueError (str_join ''; '' (sort errors))) else Inr ())"

section \<open>Building a release\<close>

definition mk_release :: "hostlib \<Rightarrow> dump \<Rightarrow> catalog_release \<Rightarrow> py_exn + catalog_release" where
  "mk_release h dump r = bindr (release_contract h dump r) (\<lambda>_. Inr r)"

definition build_release ::
  "hostlib \<Rightarrow> dump \<Rightarrow> descriptor list \<Rightarrow> provider_artifact list \<Rightarrow> timestamp \<Rightarrow>
   (string \<times> int \<times> string) list \<Rightarrow> bool \<Rightarrow> py_exn + catalog_release" where
  "build_release h dump descriptors providers created grandfathered enforce =
     (let ds = sort_key descriptor_key descriptors; ps = sort_key provider_key providers in
      if \<not> distinct (map descriptor_key ds)
      then Inl (ValueError ''duplicate descriptor in catalog release'')
      else if \<not> distinct (map pa_plugin ps)
      then Inl (ValueError ''duplicate provider in catalog release'')
      else bindr (if enforce then validate_collection_boundaries ds grandfathered else Inr ()) (\<lambda>_.
        let digest = catalog_digest h dump ds ps in
        mk_release h dump \<lparr>rl_id = ''rel_'' @ take 32 digest, rl_hash = ''sha256:'' @ digest,
          rl_descriptors = ds, rl_providers = ps, rl_created = created\<rparr>))"

section \<open>Upgrades\<close>

text \<open>The policy fields that a stable capability keeps, by name.\<close>

definition frozen_fields :: "(string \<times> (descriptor \<Rightarrow> descriptor \<Rightarrow> bool)) list" where
  "frozen_fields =
     [(''authorization_policy'', \<lambda>a b. cd_authorization a = cd_authorization b),
      (''resource_selectors'', \<lambda>a b. cd_selectors a = cd_selectors b),
      (''data_classification'', \<lambda>a b. cd_classification a = cd_classification b),
      (''required_auth_freshness_seconds'', \<lambda>a b. cd_freshness a = cd_freshness b),
      (''delegation_policy'', \<lambda>a b. cd_delegation a = cd_delegation b),
      (''artifact_policy'', \<lambda>a b. cd_artifact a = cd_artifact b),
      (''operation_policy'', \<lambda>a b. cd_operation a = cd_operation b),
      (''concurrency_policy'', \<lambda>a b. cd_concurrency a = cd_concurrency b),
      (''expected_version_payload_path'', \<lambda>a b. cd_version_path a = cd_version_path b),
      (''idempotency_policy'', \<lambda>a b. cd_idempotency a = cd_idempotency b),
      (''replay_data_policy'', \<lambda>a b. cd_replay a = cd_replay b),
      (''consistency_policy'', \<lambda>a b. cd_consistency a = cd_consistency b),
      (''confirmation_policy'', \<lambda>a b. cd_confirmation a = cd_confirmation b),
      (''evidence_policy'', \<lambda>a b. cd_evidence a = cd_evidence b),
      (''audit_policy'', \<lambda>a b. cd_audit a = cd_audit b),
      (''domain_errors'', \<lambda>a b. cd_errors a = cd_errors b),
      (''error_schema'', \<lambda>a b. list_all2 py_eq (cd_error_schema a) (cd_error_schema b)),
      (''transaction_policy'', \<lambda>a b. py_eq (cd_transaction a) (cd_transaction b)),
      (''timeout_seconds'', \<lambda>a b. cd_timeout a = cd_timeout b),
      (''rate_limit_cost'', \<lambda>a b. cd_rate_cost a = cd_rate_cost b)]"

definition consumer_flags :: "(string \<times> (exposure_policy \<Rightarrow> bool)) list" where
  "consumer_flags = [(''web'', ex_web), (''plugin'', ex_plugin), (''agent'', ex_agent), (''api'', ex_api),
     (''mcp'', ex_mcp), (''worker'', ex_worker), (''local_runtime'', ex_local)]"

definition removed_consumers :: "exposure_policy \<Rightarrow> exposure_policy \<Rightarrow> string list" where
  "removed_consumers old new = sort (map fst (filter (\<lambda>(n, flag). flag old \<and> \<not> flag new) consumer_flags))"

fun opt_py_eq :: "json option \<Rightarrow> json option \<Rightarrow> bool" where
  "opt_py_eq (Some a) (Some b) = py_eq a b"
| "opt_py_eq None None = True"
| "opt_py_eq _ _ = False"

definition descriptor_errors :: "descriptor \<Rightarrow> descriptor option \<Rightarrow> string list" where
  "descriptor_errors old found =
     (let label = cd_id old @ ''@'' @ str_of_int (cd_major old) in
      case found of
        None \<Rightarrow> [''stable capability removed: '' @ label]
      | Some new \<Rightarrow>
          if cd_schema_hash new \<noteq> cd_schema_hash old
          then [''stable capability schema changed without major version bump: '' @ label]
          else if \<not> opt_py_eq (cd_agent_output new) (cd_agent_output old)
          then [''stable capability agent projection changed without major version bump: '' @ label]
          else if cd_budget new \<noteq> cd_budget old
          then [''stable capability execution budget changed without major version bump: '' @ label]
          else
            map (\<lambda>(field, _). ''stable capability '' @ field @ '' changed without major version bump: '' @ label)
              (filter (\<lambda>(_, same). \<not> same new old) frozen_fields) @
            (if cd_owner new \<noteq> cd_owner old
             then [''stable capability owner changed without major version bump: '' @ label] else []) @
            (if cd_side_effect new \<noteq> cd_side_effect old \<or> cd_execution new \<noteq> cd_execution old
             then [''stable capability execution semantics changed without major version bump: '' @ label] else []) @
            (if cd_lifecycle new \<notin> {Stable, Deprecated}
             then [''stable capability lifecycle regressed: '' @ label] else []) @
            (let removed = removed_consumers (cd_exposure old) (cd_exposure new) in
             if removed \<noteq> []
             then [''stable capability exposure removed for '' @ str_join '','' removed @ '': '' @ label] else []))"

text \<open>A dictionary over the candidate keeps the last descriptor of a key.\<close>

definition candidate_of :: "catalog_release \<Rightarrow> string \<times> int \<Rightarrow> descriptor option" where
  "candidate_of r key = List.find (\<lambda>d. descriptor_key d = key) (rev (rl_descriptors r))"

definition compatibility_errors :: "catalog_release \<Rightarrow> catalog_release \<Rightarrow> string list" where
  "compatibility_errors previous candidate =
     sort (concat (map (\<lambda>old. descriptor_errors old (candidate_of candidate (descriptor_key old)))
       (filter (\<lambda>old. cd_lifecycle old = Stable) (rl_descriptors previous))))"

section \<open>Stores\<close>

type_synonym catalog_memory = "(string \<times> catalog_release) list"

definition cm_publish :: "catalog_memory \<Rightarrow> catalog_release \<Rightarrow> py_exn + catalog_memory" where
  "cm_publish s r =
     (if map_of s (rl_id r) \<noteq> None then Inl (ValueError ''catalog_release_exists'')
      else Inr (AList.update (rl_id r) r s))"

definition cm_get :: "catalog_memory \<Rightarrow> string \<Rightarrow> catalog_release option" where
  "cm_get s i = map_of s i"

type_synonym catalog_table = "catalog_release list"

text \<open>The SQL store: primary key \<open>release_id\<close>, unique \<open>catalog_hash\<close>, a \<open>DATETIME\<close> column.\<close>

fun column_time :: "timestamp \<Rightarrow> timestamp" where
  "column_time (Aware t) = Naive t"
| "column_time (Naive t) = Naive t"

definition ct_publish :: "catalog_table \<Rightarrow> catalog_release \<Rightarrow> py_exn + catalog_table" where
  "ct_publish s r =
     (if list_ex (\<lambda>x. rl_id x = rl_id r \<or> rl_hash x = rl_hash r) s then Inl (OtherError ''IntegrityError'')
      else Inr (s @ [r\<lparr>rl_created := column_time (rl_created r)\<rparr>]))"

definition ct_get :: "hostlib \<Rightarrow> dump \<Rightarrow> catalog_table \<Rightarrow> string \<Rightarrow> py_exn + catalog_release option" where
  "ct_get h dump s i =
     (case List.find (\<lambda>x. rl_id x = i) s of
        None \<Rightarrow> Inr None
      | Some row \<Rightarrow> bindr (mk_release h dump row) (\<lambda>r. Inr (Some r)))"

section \<open>The provider registry\<close>

record 'f registered =
  rg_capability :: string
  rg_version :: int
  rg_owner :: string
  rg_permissions :: "string list"
  rg_transactional :: bool
  rg_handler :: 'f

record 'f registry =
  rg_items :: "((string \<times> int) \<times> 'f registered) list"
  rg_artifacts :: "(string \<times> provider_artifact) list"

text \<open>\<open>native\<close> is the identity of a native descriptor: id, major version and owner.\<close>

definition register ::
  "'f registry \<Rightarrow> 'f registered \<Rightarrow> (string \<times> int \<times> string) option \<Rightarrow> py_exn + 'f registry" where
  "register s item native =
     (let key = (rg_capability item, rg_version item) in
      if map_of (rg_items s) key \<noteq> None then Inl (ValueError ''Capability already registered'')
      else if native \<noteq> None \<and> native \<noteq> Some (rg_capability item, rg_version item, rg_owner item)
      then Inl (ValueError ''native_descriptor_identity_mismatch'')
      else Inr (s\<lparr>rg_items := AList.update key item (rg_items s)\<rparr>))"

definition registry_get :: "'f registry \<Rightarrow> string \<Rightarrow> int \<Rightarrow> py_exn + 'f registered" where
  "registry_get s capability version =
     (case map_of (rg_items s) (capability, version) of
        None \<Rightarrow> Inl (KeyError ''Unknown capability'') | Some item \<Rightarrow> Inr item)"

definition bind_provider_artifact ::
  "'f registry \<Rightarrow> string \<Rightarrow> provider_artifact \<Rightarrow> py_exn + 'f registry" where
  "bind_provider_artifact s owner a =
     (if map_of (rg_artifacts s) owner \<noteq> None \<and> map_of (rg_artifacts s) owner \<noteq> Some a
      then Inl (ValueError ''Provider artifact already bound for owner'')
      else Inr (s\<lparr>rg_artifacts := AList.update owner a (rg_artifacts s)\<rparr>))"

section \<open>The resolver\<close>

type_synonym catalog_get = "string \<Rightarrow> catalog_release option"

definition verify_provider_artifact ::
  "'f registry \<Rightarrow> catalog_release \<Rightarrow> 'f registered \<Rightarrow> string + unit" where
  "verify_provider_artifact reg release item =
     (if rl_providers release = [] then Inr ()
      else (case map_of (rg_artifacts reg) (rg_owner item) of
          None \<Rightarrow> Inl ''provider_artifact_unbound''
        | Some runtime \<Rightarrow>
            (case List.find (\<lambda>p. pa_plugin p = pa_plugin runtime) (rl_providers release) of
               None \<Rightarrow> Inl ''provider_artifact_not_in_release''
             | Some expected \<Rightarrow>
                 if (pa_module expected, pa_version expected, pa_hash expected) \<noteq>
                    (pa_module runtime, pa_version runtime, pa_hash runtime)
                 then Inl ''provider_artifact_mismatch'' else Inr ())))"

definition resolve ::
  "catalog_get \<Rightarrow> 'f registry \<Rightarrow> string \<Rightarrow> string \<Rightarrow> int option \<Rightarrow> string + 'f registered" where
  "resolve get reg release_id capability major =
     (case major of
        None \<Rightarrow> Inl ''major_version_required''
      | Some m \<Rightarrow>
          (case get release_id of
             None \<Rightarrow> Inl ''catalog_release_not_found''
           | Some release \<Rightarrow>
               if release_descriptor release capability m = None then Inl ''capability_not_in_release''
               else (case registry_get reg capability m of
                   Inl _ \<Rightarrow> Inl ''provider_registration_missing''
                 | Inr item \<Rightarrow> bindr (verify_provider_artifact reg release item) (\<lambda>_. Inr item))))"

definition resolver_descriptor ::
  "catalog_get \<Rightarrow> string \<Rightarrow> string \<Rightarrow> int option \<Rightarrow> string + descriptor" where
  "resolver_descriptor get release_id capability major =
     (case major of
        None \<Rightarrow> Inl ''major_version_required''
      | Some m \<Rightarrow>
          (case get release_id of
             None \<Rightarrow> Inl ''catalog_release_not_found''
           | Some release \<Rightarrow>
               (case release_descriptor release capability m of
                  None \<Rightarrow> Inl ''capability_not_in_release'' | Some d \<Rightarrow> Inr d)))"

definition resolver_catalog :: "catalog_get \<Rightarrow> string \<Rightarrow> string + catalog_release" where
  "resolver_catalog get release_id =
     (case get release_id of None \<Rightarrow> Inl ''catalog_release_not_found'' | Some r \<Rightarrow> Inr r)"

end
