(* ===== verification/CatalogProperties.thy ===== *)
theory CatalogProperties
  imports Catalog "HOL-Library.Multiset"
begin

text \<open>What a catalog release promises: its content decides its identity, and it holds what was put in.\<close>

lemma sort_key_unique:
  "mset xs = mset ys \<Longrightarrow> distinct (map f xs) \<Longrightarrow> sort_key f xs = sort_key f ys"
  by (rule sort_key_eq_sort_key) (simp_all add: distinct_map)

lemma distinct_map_sort [simp]: "distinct (map f (sort_key g xs)) \<longleftrightarrow> distinct (map f xs)"
  by (simp add: distinct_map)

lemma find_by_key:
  "distinct (map f xs) \<Longrightarrow> x \<in> set xs \<Longrightarrow> List.find (\<lambda>y. f y = f x) xs = Some x"
  by (induction xs) force+

lemma find_in_set: "List.find p xs = Some x \<Longrightarrow> x \<in> set xs"
  by (auto simp: find_Some_iff)

lemma provider_keys_distinct: "distinct (map pa_plugin ps) \<Longrightarrow> distinct (map provider_key ps)"
  by (auto simp: distinct_map provider_key_def inj_on_def)

lemma build_release_success:
  assumes "build_release h dump ds ps created grandfathered enforce = Inr r"
  shows "distinct (map descriptor_key ds)" and "distinct (map pa_plugin ps)"
    and "rl_descriptors r = sort_key descriptor_key ds" and "rl_providers r = sort_key provider_key ps"
    and "release_contract h dump r = Inr ()"
  using assms
  by (auto simp: build_release_def Let_def mk_release_def bindr_eq_Inr split: if_splits)

text \<open>
  C39. A release is a function of its content: the same descriptors and providers, handed over in any
  order with the same time and options, give the same release with the same identifier and hash; it satisfies its own contract,
  and looking a capability up in it finds exactly the descriptor that was put in.
\<close>

theorem release_content_addressed:
  assumes "build_release h dump ds ps created grandfathered enforce = Inr r"
    and "mset ds' = mset ds" and "mset ps' = mset ps"
  shows "build_release h dump ds' ps' created grandfathered enforce = Inr r \<and>
    release_contract h dump r = Inr () \<and>
    (\<forall>d. release_descriptor r (cd_id d) (cd_major d) = Some d \<longleftrightarrow> d \<in> set ds)"
proof (intro conjI allI)
  note built = build_release_success [OF assms(1)]
  have ds: "sort_key descriptor_key ds' = sort_key descriptor_key ds"
    using sort_key_unique [of ds ds' descriptor_key] assms(2) built(1) by simp
  have ps: "sort_key provider_key ps' = sort_key provider_key ps"
    using sort_key_unique [of ps ps' provider_key] assms(3) provider_keys_distinct built(2) by simp
  show "build_release h dump ds' ps' created grandfathered enforce = Inr r"
    using assms(1) unfolding build_release_def Let_def ds ps .
  show "release_contract h dump r = Inr ()" by (rule built(5))
  fix d
  have keys: "(\<lambda>x. cd_id x = cd_id d \<and> cd_major x = cd_major d) = (\<lambda>x. descriptor_key x = descriptor_key d)"
    by (auto simp: descriptor_key_def)
  show "release_descriptor r (cd_id d) (cd_major d) = Some d \<longleftrightarrow> d \<in> set ds"
    unfolding release_descriptor_def built(3) keys
    using find_by_key [of descriptor_key "sort_key descriptor_key ds" d] built(1)
    by (auto dest: find_in_set)
qed

definition xa_dump :: dump where
  "xa_dump d = [(''id'', JStr (cd_id d)), (''major_version'', JInt (cd_major d))]"

definition xa_reader :: descriptor where
  "xa_reader = xa_descriptor\<lparr>cd_id := ''craft.plan.read'', cd_side_effect := Reads\<rparr>"

definition xa_release :: catalog_release where
  "xa_release =
     (let digest = catalog_digest host_ascii xa_dump [xa_reader, xa_descriptor] [] in
      \<lparr>rl_id = ''rel_'' @ take 32 digest, rl_hash = ''sha256:'' @ digest,
       rl_descriptors = [xa_reader, xa_descriptor], rl_providers = [], rl_created = Aware 0\<rparr>)"

theorem release_content_addressed_witness:
  "build_release host_ascii xa_dump [xa_reader, xa_descriptor] [] (Aware 0) [] True = Inr xa_release \<and>
    release_contract host_ascii xa_dump xa_release = Inr () \<and>
    (\<forall>d. release_descriptor xa_release (cd_id d) (cd_major d) = Some d \<longleftrightarrow>
       d \<in> set [xa_descriptor, xa_reader])"
proof (rule release_content_addressed)
  show "build_release host_ascii xa_dump [xa_descriptor, xa_reader] [] (Aware 0) [] True = Inr xa_release"
    by code_simp
qed simp_all

text \<open>A release read back from the SQL store never satisfies its contract: its time has lost its zone.\<close>

lemma find_append_new:
  "List.find p xs = None \<Longrightarrow> List.find p (xs @ [x]) = (if p x then Some x else None)"
  by (induction xs) (auto split: if_splits)

theorem sql_release_unreadable:
  assumes "ct_publish s r = Inr s'"
  shows "\<exists>e. ct_get h dump s' (rl_id r) = Inl e"
proof -
  let ?row = "r\<lparr>rl_created := column_time (rl_created r)\<rparr>"
  from assms have s': "s' = s @ [?row]" and new: "\<not> list_ex (\<lambda>x. rl_id x = rl_id r \<or> rl_hash x = rl_hash r) s"
    by (auto simp: ct_publish_def split: if_splits)
  have "List.find (\<lambda>x. rl_id x = rl_id r) s = None"
    using new by (auto simp: find_None_iff list_ex_iff)
  then have row: "List.find (\<lambda>x. rl_id x = rl_id r) s' = Some ?row"
    by (simp add: s' find_append_new)
  have "\<not> tz_aware (rl_created ?row)" by (cases "rl_created r") simp_all
  then have "\<exists>e. mk_release h dump ?row = Inl e"
    by (auto simp: mk_release_def release_contract_def Let_def)
  with row show ?thesis by (auto simp: ct_get_def)
qed

end
