(* ===== verification/Admission.thy ===== *)
theory Admission
  imports PayloadValidation
begin

text \<open>
  Admission of invocations (\<open>backend/capability_v2/resource_budget.py\<close>) and the metrics ring
  (\<open>metrics.py\<close>). The controller keeps three tables of counters; a task runs without interruption
  between two awaits, so a run is a sequence of steps: a request arrives, a waiting request wakes
  up, gives up or is cancelled, a lease is released. Reading the control-group files is a
  parameter; a file that cannot be read answers \<open>None\<close>.
\<close>

section \<open>Memory pressure\<close>

datatype pressure = Normal | Warning | Constrained | RejectLarge | NotReady

definition level_for_ratio :: "rat option \<Rightarrow> pressure" where
  "level_for_ratio r = (case r of
     None \<Rightarrow> Normal
   | Some x \<Rightarrow> if x < 60 / 100 then Normal else if x < 75 / 100 then Warning
               else if x < 85 / 100 then Constrained else if x < 90 / 100 then RejectLarge else NotReady)"

record memory_snapshot =
  ms_rss :: int
  ms_current :: "int option"
  ms_limit :: "int option"
  ms_ratio :: "rat option"
  ms_level :: pressure

type_synonym file_reader = "string \<Rightarrow> string option"

definition cgroup_values :: "file_reader \<Rightarrow> string \<Rightarrow> string \<Rightarrow> int option \<times> int option" where
  "cgroup_values reader current_path limit_path =
     (case (reader current_path, reader limit_path) of
        (Some c, Some l) \<Rightarrow>
          (case parse_int (str_strip c) of
             None \<Rightarrow> (None, None)
           | Some current \<Rightarrow>
               if current < 0 then (None, None)
               else if str_strip l = ''max'' then (Some current, None)
               else (case parse_int (str_strip l) of
                       None \<Rightarrow> (Some current, None)
                     | Some limit \<Rightarrow>
                         if limit \<le> 0 \<or> limit \<ge> 2 ^ 60 then (Some current, None)
                         else (Some current, Some limit)))
      | _ \<Rightarrow> (None, None))"

definition take_snapshot :: "file_reader \<Rightarrow> int \<Rightarrow> memory_snapshot" where
  "take_snapshot reader rss =
     (let v2 = cgroup_values reader ''/sys/fs/cgroup/memory.current'' ''/sys/fs/cgroup/memory.max'';
          (current, limit) =
            (if fst v2 = None
             then cgroup_values reader ''/sys/fs/cgroup/memory/memory.usage_in_bytes''
                    ''/sys/fs/cgroup/memory/memory.limit_in_bytes''
             else v2);
          ratio = (case (current, limit) of (Some c, Some l) \<Rightarrow> Some (of_int c / of_int l) | _ \<Rightarrow> None) in
      \<lparr>ms_rss = max 0 rss, ms_current = current, ms_limit = limit, ms_ratio = ratio,
       ms_level = level_for_ratio ratio\<rparr>)"

section \<open>Counters\<close>

type_synonym 'k counters = "('k \<times> int) list"

definition count_of :: "'k counters \<Rightarrow> 'k \<Rightarrow> int" where
  "count_of cs k = (case map_of cs k of None \<Rightarrow> 0 | Some n \<Rightarrow> n)"

definition increment :: "'k \<Rightarrow> 'k counters \<Rightarrow> 'k counters" where
  "increment k cs = AList.update k (count_of cs k + 1) cs"

definition decrement :: "'k \<Rightarrow> 'k counters \<Rightarrow> 'k counters" where
  "decrement k cs =
     (if count_of cs k \<le> 1 then AList.delete k cs else AList.update k (count_of cs k - 1) cs)"

record admission =
  ad_tenants :: "(string \<times> string) counters"
  ad_consumers :: "(string \<times> string) counters"
  ad_capabilities :: "string counters"

record admission_request =
  aq_capability :: string
  aq_tenant :: string
  aq_consumer :: string
  aq_budget :: execution_budget

definition in_flight :: "admission \<Rightarrow> string \<Rightarrow> int" where
  "in_flight s capability = count_of (ad_capabilities s) capability"

definition tenant_full :: "admission \<Rightarrow> admission_request \<Rightarrow> bool" where
  "tenant_full s q \<longleftrightarrow>
     eb_tenant_parallel (aq_budget q) \<le> count_of (ad_tenants s) (aq_capability q, aq_tenant q)"

definition consumer_full :: "admission \<Rightarrow> admission_request \<Rightarrow> bool" where
  "consumer_full s q \<longleftrightarrow>
     eb_consumer_parallel (aq_budget q) \<le> count_of (ad_consumers s) (aq_capability q, aq_consumer q)"

definition under_pressure :: "memory_snapshot \<Rightarrow> admission_request \<Rightarrow> bool" where
  "under_pressure m q \<longleftrightarrow> ms_level m = NotReady \<or>
     (ms_level m = RejectLarge \<and> eb_memory (aq_budget q) = Large)"

definition take_slot :: "admission \<Rightarrow> admission_request \<Rightarrow> admission" where
  "take_slot s q = s\<lparr>ad_tenants := increment (aq_capability q, aq_tenant q) (ad_tenants s),
     ad_consumers := increment (aq_capability q, aq_consumer q) (ad_consumers s),
     ad_capabilities := increment (aq_capability q) (ad_capabilities s)\<rparr>"

definition free_slot :: "admission \<Rightarrow> admission_request \<Rightarrow> admission" where
  "free_slot s q = s\<lparr>ad_tenants := decrement (aq_capability q, aq_tenant q) (ad_tenants s),
     ad_consumers := decrement (aq_capability q, aq_consumer q) (ad_consumers s),
     ad_capabilities := decrement (aq_capability q) (ad_capabilities s)\<rparr>"

definition failure_reason :: "admission \<Rightarrow> admission_request \<Rightarrow> string" where
  "failure_reason s q =
     (if tenant_full s q \<and> consumer_full s q then ''tenant_and_consumer_limit''
      else if tenant_full s q then ''tenant_limit''
      else if consumer_full s q then ''consumer_limit'' else ''admission_wait_timeout'')"

section \<open>Acquiring and releasing\<close>

text \<open>What one evaluation of the loop of \<open>acquire\<close> does; \<open>remaining\<close> is the time to the deadline.\<close>

datatype admission_result = Admitted | Waits | Refused string string

definition acquire_round :: "admission \<Rightarrow> admission_request \<Rightarrow> rat \<Rightarrow> admission_result \<times> admission" where
  "acquire_round s q remaining =
     (if tenant_full s q \<or> consumer_full s q then
        (if remaining \<le> 0 then (Refused ''capacity_unavailable'' (failure_reason s q), s) else (Waits, s))
      else (Admitted, take_slot s q))"

definition acquire_start ::
  "admission \<Rightarrow> memory_snapshot \<Rightarrow> admission_request \<Rightarrow> rat \<Rightarrow> admission_result \<times> admission" where
  "acquire_start s m q timeout =
     (if under_pressure m q then (Refused ''resource_pressure'' [], s)
      else acquire_round s q (max 0 timeout))"

text \<open>The wait timed out: \<open>capacity_failure\<close> reports the counters at that moment.\<close>

definition acquire_timeout :: "admission \<Rightarrow> admission_request \<Rightarrow> admission_result \<times> admission" where
  "acquire_timeout s q = (Refused ''capacity_unavailable'' (failure_reason s q), s)"

record admission_lease =
  al_request :: admission_request
  al_released :: bool

definition lease_release :: "admission \<Rightarrow> admission_lease \<Rightarrow> admission_lease \<times> admission" where
  "lease_release s l =
     (if al_released l then (l, s) else (l\<lparr>al_released := True\<rparr>, free_slot s (al_request l)))"

section \<open>Metrics\<close>

text \<open>The ring keeps the newest \<open>limit\<close> records.\<close>

definition metrics_record :: "nat \<Rightarrow> 'r list \<Rightarrow> 'r \<Rightarrow> 'r list" where
  "metrics_record limit records r = (let all = records @ [r] in drop (length all - limit) all)"

record metric =
  mt_capability :: string
  mt_major :: int
  mt_owner :: string
  mt_consumer_type :: string
  mt_consumer_hash :: string
  mt_output_bytes :: int
  mt_rss_before :: int
  mt_rss_after :: int
  mt_ratio :: "rat option"
  mt_in_flight :: int
  mt_cancelled :: bool
  mt_error :: "string option"

end
