(* ===== verification/WireCanonical.thy ===== *)
theory WireCanonical
  imports PayloadValidation "HOL-Library.List_Lexorder"
begin

text \<open>
  The canonical bytes of the connector protocol (\<open>backend/contracts/connector_execution_plan_v2.py\<close>),
  which the gateway hashes for every provider call: the depth bound, the values the protocol
  accepts, and the canonical text with its keys in UTF-16 order and its own float format. Strings
  are UTF-8 bytes; a lone surrogate is the three bytes a surrogate would take.
\<close>

section \<open>Accepted values\<close>

definition max_json_depth :: nat where
  "max_json_depth = 64"

definition safe_integer_max :: int where
  "safe_integer_max = 2 ^ 53 - 1"

function validate_json_depth :: "json \<Rightarrow> nat \<Rightarrow> py_exn + unit" where
  "validate_json_depth v depth =
     (case v of
        JObj items \<Rightarrow>
          if depth \<ge> max_json_depth then Inl (ValueError ''json_max_depth_exceeded'')
          else bindr (mapr (\<lambda>(k, c). validate_json_depth c (Suc depth)) items) (\<lambda>_. Inr ())
      | JList items \<Rightarrow>
          if depth \<ge> max_json_depth then Inl (ValueError ''json_max_depth_exceeded'')
          else bindr (mapr (\<lambda>c. validate_json_depth c (Suc depth)) items) (\<lambda>_. Inr ())
      | _ \<Rightarrow> Inr ())"
  by pat_completeness auto
termination
  by (relation "measure (\<lambda>(v, depth). size v)")
    (auto dest: in_alist_size simp: less_Suc_eq_le intro: size_list_estimation')

declare validate_json_depth.simps [simp del]

fun has_surrogate :: "string \<Rightarrow> bool" where
  "has_surrogate (c # d # s) = ((c = CHR 0xED \<and> digit7 d \<and> digit5 d) \<or> has_surrogate (d # s))"
| "has_surrogate _ = False"

text \<open>An integer that a binary64 number holds exactly: 53 bits and a power of two.\<close>

fun odd_part :: "nat \<Rightarrow> int \<Rightarrow> int" where
  "odd_part 0 n = n"
| "odd_part (Suc fuel) n = (if n \<noteq> 0 \<and> n mod 2 = 0 then odd_part fuel (n div 2) else n)"

definition binary64_integer :: "int \<Rightarrow> bool" where
  "binary64_integer n \<longleftrightarrow> \<bar>n\<bar> < 2 ^ 1024 \<and> odd_part 1024 \<bar>n\<bar> < 2 ^ 53"

function validate_json :: "json \<Rightarrow> py_exn + unit" where
  "validate_json v =
     (case v of
        JNull \<Rightarrow> Inr ()
      | JBool _ \<Rightarrow> Inr ()
      | JStr s \<Rightarrow> unless_raise (\<not> has_surrogate s) (ValueError ''json_surrogate_forbidden'')
      | JInt n \<Rightarrow> unless_raise (\<bar>n\<bar> \<le> safe_integer_max \<or> binary64_integer n)
                    (ValueError ''json_binary64_integer_required'')
      | JFloat (Fin _) \<Rightarrow> Inr ()
      | JFloat NegZero \<Rightarrow> Inr ()
      | JFloat _ \<Rightarrow> Inl (ValueError ''json_finite_number_required'')
      | JList items \<Rightarrow> bindr (mapr validate_json items) (\<lambda>_. Inr ())
      | JObj items \<Rightarrow>
          bindr (mapr (\<lambda>(k, c).
              bindr (unless_raise (\<not> has_surrogate k) (ValueError ''json_surrogate_forbidden'')) (\<lambda>_.
              validate_json c)) items) (\<lambda>_. Inr ())
      | JOpaque \<Rightarrow> Inl (ValueError ''json_value_required''))"
  by pat_completeness auto
termination
  by (relation "measure size")
    (auto dest: in_alist_size simp: less_Suc_eq_le intro: size_list_estimation')

declare validate_json.simps [simp del]

section \<open>Canonical text\<close>

definition byte_value :: "char \<Rightarrow> nat" where
  "byte_value c = of_char c"

text \<open>The big-endian UTF-16 code units of a text.\<close>

fun utf16_units :: "string \<Rightarrow> nat list" where
  "utf16_units [] = []"
| "utf16_units (c # s) =
     (let n = byte_value c in
      if n < 128 then n # utf16_units s
      else if n < 224 then
        (case s of d # r \<Rightarrow> ((n - 192) * 64 + (byte_value d - 128)) # utf16_units r | [] \<Rightarrow> [])
      else if n < 240 then
        (case s of d # e # r \<Rightarrow>
           ((n - 224) * 4096 + (byte_value d - 128) * 64 + (byte_value e - 128)) # utf16_units r
         | _ \<Rightarrow> [])
      else
        (case s of d # e # f # r \<Rightarrow>
           (let v = (n - 240) * 262144 + (byte_value d - 128) * 4096 + (byte_value e - 128) * 64 +
                    (byte_value f - 128) - 65536 in
            (55296 + v div 1024) # (56320 + v mod 1024) # utf16_units r)
         | _ \<Rightarrow> []))"

fun float_abs :: "pyfloat \<Rightarrow> pyfloat" where
  "float_abs (Fin q) = Fin \<bar>q\<bar>"
| "float_abs NegZero = Fin 0"
| "float_abs (Inf b) = Inf False"
| "float_abs NaN = NaN"

fun float_negative :: "pyfloat \<Rightarrow> bool" where
  "float_negative (Fin q) = (q < 0)"
| "float_negative (Inf b) = b"
| "float_negative _ = False"

definition rstrip_zeros :: "string \<Rightarrow> string" where
  "rstrip_zeros s = rev (dropWhile (\<lambda>c. c = CHR ''0'') (rev s))"

text \<open>One digit, then the others after a point.\<close>

definition scientific :: "string \<Rightarrow> string" where
  "scientific digits = take 1 digits @ (if length digits > 1 then ''.'' @ drop 1 digits else [])"

definition float_text :: "string \<Rightarrow> int \<Rightarrow> string" where
  "float_text digits exponent =
     (let position = exponent + 1 in
      if position \<le> - 6 then
        scientific digits @ ''e'' @ (if exponent \<ge> 0 then ''+'' else []) @ str_of_int exponent
      else if position \<le> 0 then ''0.'' @ replicate (nat (- position)) CHR ''0'' @ digits
      else if position \<le> 21 then
        (if position \<ge> int (length digits)
         then digits @ replicate (nat position - length digits) CHR ''0''
         else take (nat position) digits @ ''.'' @ drop (nat position) digits)
      else scientific digits @ ''e+'' @ str_of_int (position - 1))"

definition canonical_float :: "hostlib \<Rightarrow> pyfloat \<Rightarrow> py_exn + string" where
  "canonical_float h value =
     (if value = Fin 0 \<or> value = NegZero then Inr ''0''
      else
        let raw = map lower_char (float_repr h (float_abs value));
            signed = (\<lambda>text. if float_negative value then ''-'' @ text else text) in
        if CHR ''e'' \<notin> set raw then
          Inr (signed (if str_suffix ''.0'' raw then take (length raw - 2) raw else raw))
        else (case str_split CHR ''e'' raw of
            [mantissa, exponent_text] \<Rightarrow>
              (case parse_int exponent_text of
                 None \<Rightarrow> Inl (ValueError ''invalid literal'')
               | Some exponent \<Rightarrow>
                   Inr (signed (float_text (rstrip_zeros (filter (\<lambda>c. c \<noteq> CHR ''.'') mantissa)) exponent)))
          | _ \<Rightarrow> Inl (ValueError ''not enough values to unpack'')))"

function canonical_text :: "hostlib \<Rightarrow> json \<Rightarrow> py_exn + string" where
  "canonical_text h v =
     (case v of
        JNull \<Rightarrow> Inr ''null''
      | JBool b \<Rightarrow> Inr (if b then ''true'' else ''false'')
      | JInt n \<Rightarrow> if \<bar>n\<bar> \<le> safe_integer_max then Inr (str_of_int n)
                   else canonical_float h (Fin (of_int n))
      | JFloat f \<Rightarrow> canonical_float h f
      | JStr s \<Rightarrow> Inr (json_quote s)
      | JList items \<Rightarrow>
          bindr (mapr (canonical_text h) items) (\<lambda>ts. Inr (''['' @ str_join '','' ts @ '']''))
      | JObj items \<Rightarrow>
          bindr (mapr (\<lambda>(k, c). bindr (canonical_text h c) (\<lambda>t. Inr (json_quote k @ '':'' @ t)))
                   (sort_key (\<lambda>(k, c). utf16_units k) items))
            (\<lambda>ts. Inr ([CHR 0x7B] @ str_join '','' ts @ [CHR 0x7D]))
      | JOpaque \<Rightarrow> Inl (ValueError ''json_value_required''))"
  by pat_completeness auto
termination
  by (relation "measure (\<lambda>(h, v). size v)")
    (auto dest: in_alist_size simp: less_Suc_eq_le intro: size_list_estimation')

declare canonical_text.simps [simp del]

definition canonicalize_v2 :: "hostlib \<Rightarrow> json \<Rightarrow> py_exn + string" where
  "canonicalize_v2 h v =
     bindr (validate_json_depth v 0) (\<lambda>_. bindr (validate_json v) (\<lambda>_. canonical_text h v))"

end
