(* ===== verification/Gateway.thy ===== *)
theory Gateway
  imports Authorization Admission Projection Operations Catalog WireCanonical
begin

text \<open>
  The governed execution pipeline (\<open>backend/capability_v2/gateway.py\<close>). One invocation is a run of
  stages over the gateway's world: the outcome store, the rate limits, the state of the policy,
  the operation store, the admission counters, the metrics, the pending streams, and the trace of
  effects on objects outside the gateway (provider calls, transactions, iterators). What the
  event loop, the clocks and the random sources answer during the run is the argument
  \<open>invocation_env\<close>. A provider handler is a function of payload and context; a transaction it
  opens says what its commit will do.
\<close>

section \<open>Providers\<close>

record legacy_context =
  lc_user :: string
  lc_team :: string
  lc_roles :: "string list"
  lc_source :: string
  lc_request :: string
  lc_release :: string
  lc_input_hash :: string
  lc_confirmation :: "string option"
  lc_idempotency :: "string option"
  lc_permissions :: "string list"
  lc_resources :: "string list"
  lc_operation :: "string option"
  lc_outcome_operation :: "string option"
  lc_async_operation :: "string option"
  lc_agent_run :: "string option"
  lc_plugin :: "string option"
  lc_plugin_version :: "string option"
  lc_identity :: consumer_identity

text \<open>A commit succeeds, fails, or raises although the database applied it.\<close>

datatype commit_fate = CommitOk | CommitFails | CommitLost

record provider_stream =
  ps_chunks :: "string list"
  ps_output :: jobj
  ps_media :: string
  ps_max_events :: int

datatype provider_value =
    PlainData json
  | WithEvidence json "evidence_ref list"
  | Transactional json "evidence_ref list" commit_fate
  | Streaming provider_stream

datatype provider_raise =
    RaisesTimeout
  | RaisesLookup
  | RaisesValue
  | RaisesBusiness string string bool jobj
  | RaisesOther

datatype provider_reply = Returns provider_value | Throws provider_raise

record handler =
  hd_coroutine :: bool
  hd_run :: "jobj \<Rightarrow> legacy_context \<Rightarrow> provider_reply"

type_synonym provider = "handler registered"

text \<open>What the event loop makes of a provider call.\<close>

datatype delivery = InTime | TimedOut | CancelledRun

datatype effect =
    ProviderCalled jobj legacy_context
  | Committed
  | RolledBack
  | TransactionClosed
  | IteratorClosed

section \<open>The gateway and its world\<close>

record 'p policy_api =
  py_authorize :: "descriptor \<Rightarrow> invocation \<Rightarrow> string list \<Rightarrow> timestamp \<Rightarrow>
    policy_error + authorization_decision option"
  py_approve :: "'p \<Rightarrow> descriptor \<Rightarrow> invocation \<Rightarrow> authorization_decision option \<Rightarrow> timestamp \<Rightarrow>
    (policy_error + unit) \<times> 'p"
  py_issue :: "'p \<Rightarrow> descriptor \<Rightarrow> invocation \<Rightarrow> authorization_decision \<Rightarrow> string \<Rightarrow> timestamp \<Rightarrow>
    policy_error + (string \<times> approval) \<times> 'p"

definition fail_closed_policy :: "'p policy_api" where
  "fail_closed_policy =
     \<lparr>py_authorize = (\<lambda>d e permissions now. fail_closed_authorize permissions),
      py_approve = (\<lambda>s d e authorization now. (fail_closed_approve d, s)),
      py_issue = (\<lambda>s d e authorization random now. Inl (PolicyError ''approval_service_unavailable''
                    ''Approval service is not configured.''))\<rparr>"

definition server_policy :: "hostlib \<Rightarrow> policy_hooks \<Rightarrow> 'a approval_api option \<Rightarrow> 'a policy_api" where
  "server_policy h hooks approvals =
     \<lparr>py_authorize = (\<lambda>d e permissions now.
        bindr (policy_authorize h hooks d e permissions now) (\<lambda>x. Inr (Some x))),
      py_approve = policy_approve h approvals,
      py_issue = policy_issue_approval h approvals\<rparr>"

text \<open>The store of a reliability coordinator, its limiter, and whether the store can enlist an outcome
  in the provider's transaction.\<close>

record ('s, 'l) reliability_service =
  rv_api :: "'s outcome_api"
  rv_limiter :: "'l limiter"
  rv_enlists :: bool

record ('s, 'l, 'p, 'o) gateway =
  gt_catalog :: catalog_get
  gt_registry :: "handler registry"
  gt_release :: "string option"
  gt_policy :: "'p policy_api"
  gt_reliability :: "('s, 'l) reliability_service option"
  gt_operations :: "'o operation_api option"
  gt_max_streams :: nat
  gt_metrics_limit :: nat

record managed_stream =
  sm_stream :: provider_stream
  sm_descriptor :: descriptor
  sm_envelope :: invocation
  sm_lease :: "invocation_lease option"
  sm_slot :: admission_lease
  sm_before :: memory_snapshot
  sm_output :: json
  sm_started :: bool
  sm_iterator_closed :: bool
  sm_outcome_done :: bool
  sm_slot_released :: bool
  sm_metric_done :: bool

record ('s, 'l, 'p, 'o) gateway_world =
  gw_store :: 's
  gw_limits :: 'l
  gw_policy :: 'p
  gw_operations :: 'o
  gw_admission :: admission
  gw_metrics :: "metric list"
  gw_streams :: "(string \<times> managed_stream) list"
  gw_trace :: "effect list"

text \<open>
  Clock readings, random texts, memory snapshots, the counters a waiting request sees at each
  wake-up with the time it has left, and the fate of the provider call.
\<close>

record invocation_env =
  iv_now :: timestamp
  iv_approve :: timestamp
  iv_begin :: timestamp
  iv_dispatch :: timestamp
  iv_finish :: timestamp
  iv_finish_after :: timestamp
  iv_before :: memory_snapshot
  iv_after :: memory_snapshot
  iv_admission_timeout :: rat
  iv_wakeups :: "(admission \<times> rat) list"
  iv_operation_id :: string
  iv_async_id :: string
  iv_stream_id :: string
  iv_delivery :: delivery

record hosts =
  hs_lib :: hostlib
  hs_regex :: regexlib
  hs_sub :: subn

section \<open>Stages\<close>

datatype 'a stage = Answer cap_result | Raise py_exn | Go 'a

definition andthen ::
  "('w \<Rightarrow> 'a stage \<times> 'w) \<Rightarrow> ('a \<Rightarrow> 'w \<Rightarrow> 'b stage \<times> 'w) \<Rightarrow> 'w \<Rightarrow> 'b stage \<times> 'w" where
  "andthen m f w = (case m w of
     (Answer r, w') \<Rightarrow> (Answer r, w')
   | (Raise x, w') \<Rightarrow> (Raise x, w')
   | (Go a, w') \<Rightarrow> f a w')"

declare andthen_def [code_unfold]

text \<open>A stage that reads the world only.\<close>

definition decide :: "'a stage \<Rightarrow> 'w \<Rightarrow> 'a stage \<times> 'w" where
  "decide a w = (a, w)"

text \<open>The results the gateway builds; \<open>CapabilityErrorV2\<close> validates code and message.\<close>

definition error_valid :: "capability_error \<Rightarrow> bool" where
  "error_valid e \<longleftrightarrow> capability_id_ok (er_code e) \<and> length_between 1 4000 (er_message e)"

definition error_result :: "invocation \<Rightarrow> capability_status \<Rightarrow> capability_error \<Rightarrow> cap_result" where
  "error_result e status err =
     \<lparr>rs_ok = False, rs_status = status, rs_capability = en_capability e, rs_major = en_major e,
      rs_data = JNull, rs_operation = None, rs_artifacts = [], rs_error = Some err, rs_evidence = [],
      rs_warnings = [], rs_correlation = \<lparr>cl_request = en_request e, cl_trace = Some (en_trace e)\<rparr>\<rparr>"

definition rejected_with ::
  "invocation \<Rightarrow> string \<Rightarrow> string \<Rightarrow> bool \<Rightarrow> jobj \<Rightarrow> py_exn + cap_result" where
  "rejected_with e code message retryable details =
     (let err = \<lparr>er_code = code, er_message = message, er_retryable = retryable, er_details = details\<rparr> in
      if error_valid err then Inr (error_result e Rejected err)
      else Inl (ValueError ''CapabilityErrorV2''))"

definition rejected :: "invocation \<Rightarrow> string \<Rightarrow> string \<Rightarrow> py_exn + cap_result" where
  "rejected e code message = rejected_with e code message False []"

definition failed :: "invocation \<Rightarrow> string \<Rightarrow> string \<Rightarrow> py_exn + cap_result" where
  "failed e code message =
     (let err = \<lparr>er_code = code, er_message = message, er_retryable = False, er_details = []\<rparr> in
      if error_valid err then Inr (error_result e Failed err)
      else Inl (ValueError ''CapabilityErrorV2''))"

definition answer :: "py_exn + cap_result \<Rightarrow> 'a stage" where
  "answer r = (case r of Inl x \<Rightarrow> Raise x | Inr v \<Rightarrow> Answer v)"

definition max_projection_text :: nat where
  "max_projection_text = 4096"

definition show_result ::
  "hosts \<Rightarrow> descriptor \<Rightarrow> invocation \<Rightarrow> string list \<Rightarrow> cap_result \<Rightarrow> py_exn + cap_result" where
  "show_result hs d e scopes r =
     project_result (hs_lib hs) (hs_sub hs) r d (en_identity e) scopes max_projection_text"

section \<open>Resolving an envelope\<close>

datatype resolve_error = PolicyRefused string string | CatalogRefused string

definition lift_catalog :: "string + 'a \<Rightarrow> resolve_error + 'a" where
  "lift_catalog r = (case r of Inl m \<Rightarrow> Inl (CatalogRefused m) | Inr a \<Rightarrow> Inr a)"

definition deadline_check :: "invocation \<Rightarrow> timestamp \<Rightarrow> resolve_error + unit" where
  "deadline_check e now =
     (case en_deadline e of
        None \<Rightarrow> Inr ()
      | Some t \<Rightarrow>
          if \<not> tz_aware t
          then Inl (PolicyRefused ''deadline_invalid'' ''Invocation deadline must be timezone-aware.'')
          else if instant t \<le> instant now
          then Inl (PolicyRefused ''deadline_exceeded'' ''Invocation deadline has expired.'')
          else Inr ())"

definition freshness_check :: "descriptor \<Rightarrow> invocation \<Rightarrow> timestamp \<Rightarrow> resolve_error + unit" where
  "freshness_check d e now =
     (if cd_freshness d > 0 then
        (let t = ac_authenticated (ci_actor (en_identity e)) in
         if \<not> tz_aware t
         then Inl (PolicyRefused ''authentication_stale'' ''Authentication freshness cannot be verified.'')
         else if instant t < instant now - cd_freshness d * 1000000
         then Inl (PolicyRefused ''authentication_stale''
                 ''Authentication is older than the capability policy allows.'')
         else Inr ())
      else Inr ())"

definition resolve_envelope ::
  "('s, 'l, 'p, 'o) gateway \<Rightarrow> invocation \<Rightarrow> timestamp \<Rightarrow> resolve_error + descriptor \<times> provider" where
  "resolve_envelope g e now =
     (if gt_release g = None
      then Inl (PolicyRefused ''catalog_release_unbound'' ''Gateway catalog release is not bound.'')
      else if gt_release g \<noteq> Some (en_release e)
      then Inl (PolicyRefused ''catalog_resolution_failed'' ''Capability catalog resolution failed.'')
      else
        bindr (lift_catalog (resolver_descriptor (gt_catalog g) (en_release e) (en_capability e)
                 (Some (en_major e)))) (\<lambda>d.
        bindr (deadline_check e now) (\<lambda>_.
        bindr (freshness_check d e now) (\<lambda>_.
        bindr (if cd_lifecycle d = Retired
               then Inl (PolicyRefused ''capability_lifecycle_not_invocable'' ''Retired capability cannot be invoked.'')
               else Inr ()) (\<lambda>_.
        bindr (lift_catalog (resolve (gt_catalog g) (gt_registry g) (en_release e) (en_capability e)
                 (Some (en_major e)))) (\<lambda>p. Inr (d, p)))))))"

definition consumer_identity_fields :: "string list" where
  "consumer_identity_fields = [''consumer_id'', ''consumer_type'', ''consumer'', ''identity'', ''desktop_consumer'']"

definition identity_overridden :: "invocation \<Rightarrow> bool" where
  "identity_overridden e \<longleftrightarrow> list_ex (\<lambda>(k, v). k \<in> set consumer_identity_fields) (en_payload e)"

definition stage_resolve ::
  "('s, 'l, 'p, 'o) gateway \<Rightarrow> invocation_env \<Rightarrow> invocation \<Rightarrow> (descriptor \<times> provider) stage" where
  "stage_resolve g iv e =
     (if identity_overridden e
      then answer (rejected e ''consumer_identity_override_forbidden''
             ''Consumer identity comes from authenticated context.'')
      else (case resolve_envelope g e (iv_now iv) of
          Inl (PolicyRefused code message) \<Rightarrow> answer (rejected e code message)
        | Inl (CatalogRefused _) \<Rightarrow>
            answer (rejected e ''catalog_resolution_failed'' ''Capability catalog resolution failed.'')
        | Inr (d, p) \<Rightarrow>
            if \<not> exposure_allows (cd_exposure d) (cn_type (ci_consumer (en_identity e)))
            then answer (rejected e ''consumer_not_allowed'' ''Consumer is not exposed to this capability.'')
            else Go (d, p)))"

section \<open>Guards on the payload\<close>

text \<open>\<open>_json_size\<close>: the bytes of the compact JSON text; a value \<open>json\<close> cannot write raises, and so does a
  lone surrogate when the text is encoded.\<close>

fun serialisable :: "json \<Rightarrow> bool" where
  "serialisable JOpaque = False"
| "serialisable (JList items) = list_all serialisable items"
| "serialisable (JObj items) = list_all (\<lambda>(k, v). serialisable v) items"
| "serialisable _ = True"

definition json_size :: "hostlib \<Rightarrow> json \<Rightarrow> py_exn + int" where
  "json_size h v =
     (if \<not> serialisable v then Inl (TypeError ''not JSON serializable'')
      else if has_surrogate (json_dumps h v) then Inl (ValueError ''surrogates not allowed'')
      else Inr (int (length (json_dumps h v))))"

definition concurrency_error :: "hostlib \<Rightarrow> descriptor \<Rightarrow> invocation \<Rightarrow> string option" where
  "concurrency_error h d e =
     (if cd_concurrency d \<noteq> ExpectedVersion then None
      else (case en_expected e of
          None \<Rightarrow> Some ''expected_resource_version_required''
        | Some expected \<Rightarrow>
            (case select (JObj (en_payload e)) (case cd_version_path d of None \<Rightarrow> [] | Some p \<Rightarrow> p) of
               None \<Rightarrow> Some ''expected_resource_version_payload_missing''
             | Some v \<Rightarrow>
                 if container_or_bool v \<or> py_str h v \<noteq> expected
                 then Some ''expected_resource_version_mismatch'' else None)))"

definition is_write :: "descriptor \<Rightarrow> bool" where
  "is_write d \<longleftrightarrow> cd_side_effect d \<noteq> Reads"

text \<open>\<open>payload.get("idempotency_key")\<close> must be absent, null, or the envelope's key.\<close>

definition idempotency_key_ok :: "invocation \<Rightarrow> bool" where
  "idempotency_key_ok e \<longleftrightarrow>
     (let v = jget_null (JObj (en_payload e)) ''idempotency_key'' in
      v = JNull \<or> (case en_idempotency e of None \<Rightarrow> False | Some k \<Rightarrow> v = JStr k))"

fun value_or_type_error :: "py_exn \<Rightarrow> bool" where
  "value_or_type_error (ValueError m) = True"
| "value_or_type_error (TypeError m) = True"
| "value_or_type_error _ = False"

definition input_error :: "hosts \<Rightarrow> descriptor \<Rightarrow> invocation \<Rightarrow> (string \<times> string) option \<times> py_exn option" where
  "input_error hs d e =
     (case validate_payload (hs_lib hs) (hs_regex hs) (cd_input d) (JObj (en_payload e)) ''payload'' of
        Inr _ \<Rightarrow> (None, None)
      | Inl (ValueError m) \<Rightarrow> (Some (''invalid_input'', m), None)
      | Inl (TypeError m) \<Rightarrow> (Some (''invalid_input'', m), None)
      | Inl x \<Rightarrow> (None, Some x))"

definition stage_input :: "hosts \<Rightarrow> descriptor \<Rightarrow> invocation \<Rightarrow> unit stage" where
  "stage_input hs d e =
     (case input_error hs d e of
        (_, Some x) \<Rightarrow> Raise x
      | (Some (code, message), None) \<Rightarrow> answer (rejected e code message)
      | (None, None) \<Rightarrow>
          (case json_size (hs_lib hs) (JObj (en_payload e)) of
             Inl x \<Rightarrow> Raise x
           | Inr n \<Rightarrow>
               if n > eb_max_input (cd_budget d)
               then answer (rejected e ''capability_input_limit_exceeded''
                      ''Capability input exceeds its declared byte limit.'')
               else (case concurrency_error (hs_lib hs) d e of
                   Some code \<Rightarrow> answer (rejected e code ''Expected resource version is invalid.'')
                 | None \<Rightarrow> Go ())))"

definition stage_services ::
  "('s, 'l, 'p, 'o) gateway \<Rightarrow> descriptor \<Rightarrow> invocation \<Rightarrow> unit stage" where
  "stage_services g d e =
     (if \<not> idempotency_key_ok e
      then answer (rejected e ''idempotency_key_mismatch''
             ''Payload and invocation idempotency keys must match.'')
      else if cd_operation d = Required \<and> gt_operations g = None
      then answer (rejected e ''operation_service_unavailable''
             ''Durable asynchronous operations are not configured.'')
      else if is_write d \<and> gt_reliability g = None
      then answer (rejected e ''reliability_unavailable'' ''Durable write reliability is not configured.'')
      else Go ())"

section \<open>Authorization, replay and approval\<close>

definition stage_authorize ::
  "hosts \<Rightarrow> ('s, 'l, 'p, 'o) gateway \<Rightarrow> invocation_env \<Rightarrow> descriptor \<Rightarrow> provider \<Rightarrow> invocation \<Rightarrow>
   authorization_decision option stage" where
  "stage_authorize hs g iv d p e =
     (case py_authorize (gt_policy g) d e (rg_permissions p) (iv_now iv) of
        Inl (PolicyError code message) \<Rightarrow> answer (bindr (rejected e code message) (show_result hs d e []))
      | Inl (PolicyRaised _) \<Rightarrow>
          answer (failed e ''authorization_failed'' ''Capability authorization service failed.'')
      | Inr a \<Rightarrow> Go a)"

definition data_scopes_of :: "authorization_decision option \<Rightarrow> string list" where
  "data_scopes_of a = (case a of None \<Rightarrow> [] | Some x \<Rightarrow> dn_data x)"

definition resources_of :: "authorization_decision option \<Rightarrow> string list" where
  "resources_of a = (case a of None \<Rightarrow> [] | Some x \<Rightarrow> dn_resources x)"

definition permissions_of :: "authorization_decision option \<Rightarrow> string list" where
  "permissions_of a = (case a of None \<Rightarrow> [] | Some x \<Rightarrow> dn_permissions x)"

definition policy_of :: "authorization_decision option \<Rightarrow> string" where
  "policy_of a = (case a of None \<Rightarrow> ''unversioned'' | Some x \<Rightarrow> dn_policy x)"

definition strong_without_transaction :: "descriptor \<Rightarrow> provider \<Rightarrow> bool" where
  "strong_without_transaction d p \<longleftrightarrow> cd_consistency d = Strong \<and> \<not> rg_transactional p"

definition reliability_answer :: "invocation \<Rightarrow> reliability_error \<Rightarrow> 'a stage" where
  "reliability_answer e err = (case err of
     ReliabilityError code \<Rightarrow> answer (rejected e code ''Reliable invocation was rejected.'')
   | StoreError _ \<Rightarrow> answer (failed e ''reliability_failed'' ''Durable reliability service failed.''))"

definition stage_replay ::
  "hosts \<Rightarrow> ('s, 'l, 'p, 'o) gateway \<Rightarrow> descriptor \<Rightarrow> provider \<Rightarrow> invocation \<Rightarrow>
   authorization_decision option \<Rightarrow> ('s, 'l, 'p, 'o) gateway_world \<Rightarrow> unit stage" where
  "stage_replay hs g d p e a w =
     (if \<not> is_write d then Go ()
      else (case rel_replay (hs_lib hs) (rv_api (the (gt_reliability g))) (gw_store w) e of
          Inl err \<Rightarrow> reliability_answer e err
        | Inr (Some r) \<Rightarrow> answer (show_result hs d e (data_scopes_of a) r)
        | Inr None \<Rightarrow>
            if strong_without_transaction d p
            then answer (rejected e ''transaction_participant_required''
                   ''Strong writes require a transactional capability provider.'')
            else Go ()))"

definition stage_approve ::
  "hosts \<Rightarrow> ('s, 'l, 'p, 'o) gateway \<Rightarrow> invocation_env \<Rightarrow> descriptor \<Rightarrow> invocation \<Rightarrow>
   authorization_decision option \<Rightarrow> ('s, 'l, 'p, 'o) gateway_world \<Rightarrow> unit stage \<times> ('s, 'l, 'p, 'o) gateway_world" where
  "stage_approve hs g iv d e a w =
     (case py_approve (gt_policy g) (gw_policy w) d e a (iv_approve iv) of
        (Inl (PolicyError code message), s) \<Rightarrow>
          (answer (bindr (rejected e code message) (show_result hs d e (data_scopes_of a))), w\<lparr>gw_policy := s\<rparr>)
      | (Inl (PolicyRaised _), s) \<Rightarrow>
          (answer (failed e ''approval_failed'' ''Capability approval service failed.''), w\<lparr>gw_policy := s\<rparr>)
      | (Inr _, s) \<Rightarrow> (Go (), w\<lparr>gw_policy := s\<rparr>))"

section \<open>Admission and metrics\<close>

definition capability_key :: "descriptor \<Rightarrow> string" where
  "capability_key d = cd_id d @ ''@'' @ str_of_int (cd_major d)"

text \<open>\<open>mount_session_id or agent_run_id or installation_id or consumer_id\<close>.\<close>

definition consumer_key :: "invocation \<Rightarrow> string" where
  "consumer_key e =
     (let c = ci_consumer (en_identity e) in
      case str_or (cn_mount c) (str_or (cn_agent_run c) (str_or (cn_installation c) (Some (cn_id c)))) of
        None \<Rightarrow> [] | Some k \<Rightarrow> k)"

definition slot_request :: "descriptor \<Rightarrow> invocation \<Rightarrow> admission_request" where
  "slot_request d e =
     \<lparr>aq_capability = capability_key d, aq_tenant = tn_id (ci_tenant (en_identity e)),
      aq_consumer = consumer_key e, aq_budget = cd_budget d\<rparr>"

fun acquire_loop ::
  "admission \<Rightarrow> admission_request \<Rightarrow> (admission \<times> rat) list \<Rightarrow> admission_result \<times> admission" where
  "acquire_loop s q [] = acquire_timeout s q"
| "acquire_loop s q ((s', remaining) # wakeups) =
     (case acquire_round s' q remaining of
        (Waits, s2) \<Rightarrow> acquire_loop s2 q wakeups
      | r \<Rightarrow> r)"

definition acquire_slot :: "invocation_env \<Rightarrow> admission_request \<Rightarrow> admission \<Rightarrow> admission_result \<times> admission" where
  "acquire_slot iv q s =
     (case acquire_start s (iv_before iv) q (iv_admission_timeout iv) of
        (Waits, s') \<Rightarrow> acquire_loop s' q (iv_wakeups iv)
      | r \<Rightarrow> r)"

definition record_metric ::
  "hosts \<Rightarrow> ('s, 'l, 'p, 'o) gateway \<Rightarrow> memory_snapshot \<Rightarrow> memory_snapshot \<Rightarrow> descriptor \<Rightarrow> invocation \<Rightarrow> int \<Rightarrow>
   cap_result option \<Rightarrow> bool \<Rightarrow> ('s, 'l, 'p, 'o) gateway_world \<Rightarrow> ('s, 'l, 'p, 'o) gateway_world" where
  "record_metric hs g before after d e output result cancelled w =
     w\<lparr>gw_metrics := metrics_record (gt_metrics_limit g) (gw_metrics w)
        \<lparr>mt_capability = cd_id d, mt_major = cd_major d, mt_owner = cd_owner d,
         mt_consumer_type = consumer_type_value (cn_type (ci_consumer (en_identity e))),
         mt_consumer_hash = sha256_hex (hs_lib hs) (consumer_key e), mt_output_bytes = output,
         mt_rss_before = ms_rss before, mt_rss_after = ms_rss after, mt_ratio = ms_ratio after,
         mt_in_flight = in_flight (gw_admission w) (capability_key d), mt_cancelled = cancelled,
         mt_error = (if cancelled then Some ''cancelled''
                     else case result of None \<Rightarrow> None
                       | Some r \<Rightarrow> map_option er_code (rs_error r))\<rparr>\<rparr>"

definition stage_acquire ::
  "hosts \<Rightarrow> ('s, 'l, 'p, 'o) gateway \<Rightarrow> invocation_env \<Rightarrow> descriptor \<Rightarrow> invocation \<Rightarrow>
   authorization_decision option \<Rightarrow> ('s, 'l, 'p, 'o) gateway_world \<Rightarrow>
   admission_lease stage \<times> ('s, 'l, 'p, 'o) gateway_world" where
  "stage_acquire hs g iv d e a w =
     (case acquire_slot iv (slot_request d e) (gw_admission w) of
        (Refused code reason, s) \<Rightarrow>
          (let w1 = w\<lparr>gw_admission := s\<rparr> in
           (case rejected_with e code ''Capability capacity is temporarily unavailable.'' True [] of
              Inl x \<Rightarrow> (Raise x, w1)
            | Inr r \<Rightarrow> (answer (show_result hs d e (data_scopes_of a) r),
                       record_metric hs g (iv_before iv) (iv_after iv) d e 0 (Some r) False w1)))
      | (_, s) \<Rightarrow> (Go \<lparr>al_request = slot_request d e, al_released = False\<rparr>, w\<lparr>gw_admission := s\<rparr>))"

definition release_slot :: "admission_lease \<Rightarrow> ('s, 'l, 'p, 'o) gateway_world \<Rightarrow> ('s, 'l, 'p, 'o) gateway_world" where
  "release_slot l w = w\<lparr>gw_admission := snd (lease_release (gw_admission w) l)\<rparr>"

text \<open>\<open>finally: if not dispatch_ready: await admission_lease.release()\<close>.\<close>

definition holding_slot ::
  "admission_lease \<Rightarrow> (('s, 'l, 'p, 'o) gateway_world \<Rightarrow> 'a stage \<times> ('s, 'l, 'p, 'o) gateway_world) \<Rightarrow>
   ('s, 'l, 'p, 'o) gateway_world \<Rightarrow> 'a stage \<times> ('s, 'l, 'p, 'o) gateway_world" where
  "holding_slot l m w = (case m w of
     (Go a, w') \<Rightarrow> (Go a, w')
   | (Answer r, w') \<Rightarrow> (Answer r, release_slot l w')
   | (Raise x, w') \<Rightarrow> (Raise x, release_slot l w'))"

section \<open>Lease, operation and context\<close>

definition stage_begin ::
  "hosts \<Rightarrow> ('s, 'l, 'p, 'o) gateway \<Rightarrow> invocation_env \<Rightarrow> descriptor \<Rightarrow> invocation \<Rightarrow>
   authorization_decision option \<Rightarrow> ('s, 'l, 'p, 'o) gateway_world \<Rightarrow>
   invocation_lease option stage \<times> ('s, 'l, 'p, 'o) gateway_world" where
  "stage_begin hs g iv d e a w =
     (if \<not> is_write d then (Go None, w)
      else
        let rv = the (gt_reliability g) in
        (case rel_begin (hs_lib hs) (rv_api rv) (rv_limiter rv) (gw_store w, gw_limits w) e d
                (policy_of a) (iv_operation_id iv) (iv_begin iv) of
           (r, s, l) \<Rightarrow>
             (let w' = w\<lparr>gw_store := s, gw_limits := l\<rparr> in
              case r of
                Inl err \<Rightarrow> (reliability_answer e err, w')
              | Inr lease \<Rightarrow>
                  (case ls_replay lease of
                     Some r \<Rightarrow> (answer (show_result hs d e (data_scopes_of a) r), w')
                   | None \<Rightarrow> (Go (Some lease), w')))))"

text \<open>A failed creation is recorded as the outcome of the lease.\<close>

definition operation_failed ::
  "('s, 'l, 'p, 'o) gateway \<Rightarrow> invocation_env \<Rightarrow> invocation \<Rightarrow> invocation_lease option \<Rightarrow>
   ('s, 'l, 'p, 'o) gateway_world \<Rightarrow> operation_ref option stage \<times> ('s, 'l, 'p, 'o) gateway_world" where
  "operation_failed g iv e lease w =
     (case failed e ''operation_create_failed'' ''The asynchronous operation could not be created.'' of
        Inl x \<Rightarrow> (Raise x, w)
      | Inr result \<Rightarrow>
          (case lease of
             None \<Rightarrow> (Answer result, w)
           | Some l \<Rightarrow>
               (case rel_complete (rv_api (the (gt_reliability g))) (gw_store w) l result False
                       (iv_begin iv) (iv_begin iv) of
                  Inl _ \<Rightarrow> (answer (failed e ''operation_create_outcome_failed''
                             ''The asynchronous operation was not dispatched.''), w)
                | Inr (_, s) \<Rightarrow> (Answer result, w\<lparr>gw_store := s\<rparr>))))"

definition stage_operation ::
  "('s, 'l, 'p, 'o) gateway \<Rightarrow> invocation_env \<Rightarrow> descriptor \<Rightarrow> invocation \<Rightarrow>
   authorization_decision option \<Rightarrow> invocation_lease option \<Rightarrow> ('s, 'l, 'p, 'o) gateway_world \<Rightarrow>
   operation_ref option stage \<times> ('s, 'l, 'p, 'o) gateway_world" where
  "stage_operation g iv d e a lease w =
     (if cd_operation d \<noteq> Required then (Go None, w)
      else (case operation_create (the (gt_operations g)) (gw_operations w) (cd_id d) (en_identity e)
                   (resources_of a) (iv_async_id iv) (iv_begin iv) of
          Inl _ \<Rightarrow> operation_failed g iv e lease w
        | Inr (ref, s) \<Rightarrow> (Go (Some ref), w\<lparr>gw_operations := s\<rparr>)))"

definition build_context ::
  "hosts \<Rightarrow> invocation \<Rightarrow> authorization_decision option \<Rightarrow> invocation_lease option \<Rightarrow>
   operation_ref option \<Rightarrow> py_exn + legacy_context" where
  "build_context hs e a lease operation =
     bindr (canonicalize_v2 (hs_lib hs) (JObj (en_payload e))) (\<lambda>canonical.
     let i = en_identity e; c = ci_consumer i; actor = ci_actor i;
         lease_id = map_option ls_operation lease in
     Inr \<lparr>lc_user = actor_id i, lc_team = tn_id (ci_tenant i), lc_roles = tn_roles (ci_tenant i),
        lc_source = consumer_type_value (cn_type c), lc_request = en_request e, lc_release = en_release e,
        lc_input_hash = ''sha256:'' @ sha256_hex (hs_lib hs) canonical,
        lc_confirmation = en_approval e, lc_idempotency = en_idempotency e,
        lc_permissions = permissions_of a, lc_resources = resources_of a,
        lc_operation = (case operation of Some ref \<Rightarrow> Some (op_id ref) | None \<Rightarrow> lease_id),
        lc_outcome_operation = lease_id, lc_async_operation = map_option op_id operation,
        lc_agent_run = cn_agent_run c,
        lc_plugin = (if cn_type c \<in> {Plugin, Agent} then Some (cn_id c) else None),
        lc_plugin_version = cn_version c, lc_identity = i\<rparr>)"

record dispatched =
  dp_descriptor :: descriptor
  dp_provider :: provider
  dp_authorization :: "authorization_decision option"
  dp_slot :: admission_lease
  dp_lease :: "invocation_lease option"
  dp_operation :: "operation_ref option"
  dp_context :: legacy_context

definition stage_context ::
  "hosts \<Rightarrow> invocation \<Rightarrow> descriptor \<Rightarrow> provider \<Rightarrow> authorization_decision option \<Rightarrow> admission_lease \<Rightarrow>
   invocation_lease option \<Rightarrow> operation_ref option \<Rightarrow> dispatched stage" where
  "stage_context hs e d p a slot lease operation =
     (case build_context hs e a lease operation of
        Inl x \<Rightarrow> Raise x
      | Inr context \<Rightarrow> Go \<lparr>dp_descriptor = d, dp_provider = p, dp_authorization = a, dp_slot = slot,
                         dp_lease = lease, dp_operation = operation, dp_context = context\<rparr>)"

text \<open>Everything up to \<open>dispatch_ready = True\<close>.\<close>

definition leased ::
  "hosts \<Rightarrow> ('s, 'l, 'p, 'o) gateway \<Rightarrow> invocation_env \<Rightarrow> invocation \<Rightarrow> descriptor \<Rightarrow> provider \<Rightarrow>
   authorization_decision option \<Rightarrow> admission_lease \<Rightarrow> ('s, 'l, 'p, 'o) gateway_world \<Rightarrow>
   dispatched stage \<times> ('s, 'l, 'p, 'o) gateway_world" where
  "leased hs g iv e d p a slot = holding_slot slot
     (andthen (stage_begin hs g iv d e a) (\<lambda>lease.
      andthen (stage_operation g iv d e a lease) (\<lambda>operation.
      decide (stage_context hs e d p a slot lease operation))))"

definition dispatch ::
  "hosts \<Rightarrow> ('s, 'l, 'p, 'o) gateway \<Rightarrow> invocation_env \<Rightarrow> invocation \<Rightarrow> ('s, 'l, 'p, 'o) gateway_world \<Rightarrow>
   dispatched stage \<times> ('s, 'l, 'p, 'o) gateway_world" where
  "dispatch hs g iv e =
     andthen (decide (stage_resolve g iv e)) (\<lambda>(d, p).
     andthen (decide (stage_authorize hs g iv d p e)) (\<lambda>a.
     andthen (decide (stage_input hs d e)) (\<lambda>_.
     andthen (decide (stage_services g d e)) (\<lambda>_.
     andthen (\<lambda>w. decide (stage_replay hs g d p e a w) w) (\<lambda>_.
     andthen (stage_approve hs g iv d e a) (\<lambda>_.
     andthen (stage_acquire hs g iv d e a) (\<lambda>slot.
     leased hs g iv e d p a slot)))))))"

section \<open>The provider call\<close>

datatype call_error = Business string string bool jobj | Crashed | Cancelled

definition runtime_timeout :: call_error where
  "runtime_timeout = Business ''runtime_timeout'' ''Capability provider exceeded its execution deadline.'' True []"

text \<open>\<open>_provider_timeout_seconds\<close>, in microseconds.\<close>

definition provider_timeout :: "descriptor \<Rightarrow> invocation \<Rightarrow> timestamp \<Rightarrow> call_error + int" where
  "provider_timeout d e now =
     (let limit = cd_timeout d * 1000000;
          t = (case en_deadline e of None \<Rightarrow> limit | Some x \<Rightarrow> min limit (instant x - instant now)) in
      if t \<le> 0 then Inl runtime_timeout else Inr t)"

fun translate_raise :: "provider_raise \<Rightarrow> call_error" where
  "translate_raise RaisesTimeout = runtime_timeout"
| "translate_raise RaisesLookup = Business ''resource_not_found'' ''The requested resource was not found.'' False []"
| "translate_raise RaisesValue = Business ''invalid_input'' ''The provider rejected the supplied input.'' False []"
| "translate_raise (RaisesBusiness code message retryable details) = Business code message retryable details"
| "translate_raise RaisesOther = Crashed"

text \<open>
  A synchronous provider runs in a worker thread: when the call times out or is cancelled, the
  transaction the worker still returns is rolled back and closed. A coroutine is cancelled.
\<close>

definition abandoned_effects :: "handler \<Rightarrow> provider_reply \<Rightarrow> effect list" where
  "abandoned_effects hdl reply =
     (if hd_coroutine hdl then []
      else case reply of Returns (Transactional _ _ _) \<Rightarrow> [RolledBack, TransactionClosed] | _ \<Rightarrow> [])"

definition provider_call ::
  "handler \<Rightarrow> jobj \<Rightarrow> legacy_context \<Rightarrow> delivery \<Rightarrow> (call_error + provider_value) \<times> effect list" where
  "provider_call hdl payload context delivery =
     (let reply = hd_run hdl payload context; called = ProviderCalled payload context in
      case delivery of
        InTime \<Rightarrow> (case reply of Returns v \<Rightarrow> (Inr v, [called]) | Throws x \<Rightarrow> (Inl (translate_raise x), [called]))
      | TimedOut \<Rightarrow> (Inl runtime_timeout, called # abandoned_effects hdl reply)
      | CancelledRun \<Rightarrow> (Inl Cancelled, called # abandoned_effects hdl reply))"

text \<open>What the gateway keeps of a provider's value: evidence, data, transaction and stream.\<close>

definition value_transaction :: "provider_value \<Rightarrow> commit_fate option" where
  "value_transaction v = (case v of Transactional _ _ t \<Rightarrow> Some t | _ \<Rightarrow> None)"

definition value_stream :: "provider_value \<Rightarrow> provider_stream option" where
  "value_stream v = (case v of Streaming s \<Rightarrow> Some s | _ \<Rightarrow> None)"

definition stream_document :: "jobj \<Rightarrow> string \<Rightarrow> call_error + json" where
  "stream_document output stream_id =
     (case map_of output ''data'' of
        None \<Rightarrow> Inr (JObj (output @ [(''data'', JObj [(''stream_id'', JStr stream_id)])]))
      | Some (JObj inner) \<Rightarrow>
          Inr (JObj (AList.update ''data'' (JObj (AList.update ''stream_id'' (JStr stream_id) inner)) output))
      | Some _ \<Rightarrow> Inl Crashed)"

definition unpack_value ::
  "nat \<Rightarrow> nat \<Rightarrow> string \<Rightarrow> provider_value \<Rightarrow> call_error + json \<times> evidence_ref list" where
  "unpack_value pending limit stream_id v =
     (case v of
        PlainData x \<Rightarrow> Inr (x, [])
      | WithEvidence x evidence \<Rightarrow> Inr (x, evidence)
      | Transactional x evidence _ \<Rightarrow> Inr (x, evidence)
      | Streaming s \<Rightarrow>
          if pending \<ge> limit
          then Inl (Business ''stream_capacity_exceeded'' ''Gateway pending stream capacity is exhausted.'' True [])
          else if \<not> serialisable (JObj (ps_output s)) then Inl Crashed
          else bindr (stream_document (ps_output s) stream_id) (\<lambda>x. Inr (x, [])))"

text \<open>The checks on a value the provider returned, its projection by the policy and its size.\<close>

definition check_value ::
  "hosts \<Rightarrow> descriptor \<Rightarrow> bool \<Rightarrow> json \<times> evidence_ref list \<Rightarrow> call_error + json \<times> evidence_ref list \<times> int" where
  "check_value hs d transacted found =
     (case found of (value, evidence) \<Rightarrow>
      if is_write d \<and> cd_consistency d = Strong \<and> \<not> transacted
      then Inl (Business ''transaction_participant_required''
             ''Strong writes require an open transaction participant.'' False [])
      else if cd_evidence d = Required \<and> evidence = []
      then Inl (Business ''evidence_required'' ''Capability provider did not return required evidence.'' False [])
      else (case validate_payload (hs_lib hs) (hs_regex hs) (cd_output d) value ''output'' of
          Inl _ \<Rightarrow> Inl Crashed
        | Inr _ \<Rightarrow>
            (case json_size (hs_lib hs) value of
               Inl _ \<Rightarrow> Inl Crashed
             | Inr n \<Rightarrow> Inr (value, evidence, n))))"

definition output_limit_error :: call_error where
  "output_limit_error = Business ''capability_output_limit_exceeded''
     ''Capability provider exceeded its declared output byte limit.'' False []"

text \<open>
  The outcome of the call: an error, or the value with its evidence; the size of the output when it
  was computed; the transaction and the stream the provider handed over; the effects.
\<close>

record call_outcome =
  co_value :: "call_error + json \<times> evidence_ref list"
  co_bytes :: int
  co_transaction :: "commit_fate option"
  co_stream :: "provider_stream option"
  co_effects :: "effect list"

definition judge_value ::
  "hosts \<Rightarrow> descriptor \<Rightarrow> nat \<Rightarrow> nat \<Rightarrow> string \<Rightarrow> provider_value \<Rightarrow> (call_error + json \<times> evidence_ref list) \<times> int" where
  "judge_value hs d pending limit stream_id v =
     (case bindr (unpack_value pending limit stream_id v) (check_value hs d (value_transaction v \<noteq> None)) of
        Inl err \<Rightarrow> (Inl err, 0)
      | Inr (value, evidence, n) \<Rightarrow>
          (if n > eb_max_output (cd_budget d) then Inl output_limit_error else Inr (value, evidence), n))"

definition run_provider ::
  "hosts \<Rightarrow> ('s, 'l, 'p, 'o) gateway \<Rightarrow> invocation_env \<Rightarrow> invocation \<Rightarrow> dispatched \<Rightarrow> nat \<Rightarrow> call_outcome" where
  "run_provider hs g iv e dp pending =
     (case provider_timeout (dp_descriptor dp) e (iv_dispatch iv) of
        Inl err \<Rightarrow> \<lparr>co_value = Inl err, co_bytes = 0, co_transaction = None, co_stream = None, co_effects = []\<rparr>
      | Inr _ \<Rightarrow>
          (case provider_call (rg_handler (dp_provider dp)) (en_payload e) (dp_context dp) (iv_delivery iv) of
             (Inl err, effects) \<Rightarrow>
               \<lparr>co_value = Inl err, co_bytes = 0, co_transaction = None, co_stream = None, co_effects = effects\<rparr>
           | (Inr v, effects) \<Rightarrow>
               (case judge_value hs (dp_descriptor dp) pending (gt_max_streams g) (iv_stream_id iv) v of
                  (judged, n) \<Rightarrow>
                    \<lparr>co_value = judged, co_bytes = n, co_transaction = value_transaction v,
                     co_stream = value_stream v, co_effects = effects\<rparr>)))"

section \<open>The result of the call\<close>

definition completed_result :: "invocation \<Rightarrow> json \<Rightarrow> evidence_ref list \<Rightarrow> cap_result" where
  "completed_result e value evidence =
     \<lparr>rs_ok = True, rs_status = Completed, rs_capability = en_capability e, rs_major = en_major e,
      rs_data = value, rs_operation = None, rs_artifacts = [], rs_error = None, rs_evidence = evidence,
      rs_warnings = [], rs_correlation = \<lparr>cl_request = en_request e, cl_trace = Some (en_trace e)\<rparr>\<rparr>"

definition call_result :: "invocation \<Rightarrow> operation_ref option \<Rightarrow> call_outcome \<Rightarrow> py_exn + cap_result" where
  "call_result e operation co =
     (case co_value co of
        Inl (Business code message retryable details) \<Rightarrow> rejected_with e code message retryable details
      | Inl _ \<Rightarrow> failed e ''provider_failed'' ''Capability provider failed.''
      | Inr (value, evidence) \<Rightarrow>
          Inr (case operation of
                 Some ref \<Rightarrow> (accepted_result (en_capability e) (en_major e) (en_request e) ref)\<lparr>rs_evidence := evidence\<rparr>
               | None \<Rightarrow> completed_result e value evidence))"

section \<open>Finalising an invocation\<close>

definition unknown_result :: "invocation_lease \<Rightarrow> cap_result \<Rightarrow> cap_result" where
  "unknown_result lease result =
     \<lparr>rs_ok = False, rs_status = OutcomeUnknown, rs_capability = rs_capability result,
      rs_major = rs_major result, rs_data = JNull,
      rs_operation = Some \<lparr>op_id = ls_operation lease, op_status = OpOutcomeUnknown, op_version = 1\<rparr>,
      rs_artifacts = [],
      rs_error = Some \<lparr>er_code = ''outcome_persistence_failed'',
        er_message = ''The provider may have committed, but its durable outcome could not be recorded.'',
        er_retryable = False, er_details = []\<rparr>,
      rs_evidence = [], rs_warnings = [], rs_correlation = rs_correlation result\<rparr>"

definition finalize_unknown ::
  "('s, 'l) reliability_service \<Rightarrow> 's \<Rightarrow> invocation_lease \<Rightarrow> cap_result \<Rightarrow> timestamp \<Rightarrow> timestamp \<Rightarrow>
   cap_result \<times> 's" where
  "finalize_unknown rv s lease result now after =
     (let unknown = unknown_result lease result in
      (unknown, case rel_mark_unknown (rv_api rv) s lease unknown now after of
                  Inl _ \<Rightarrow> s | Inr (_, s') \<Rightarrow> s'))"

text \<open>
  \<open>_finalize_invocation\<close>. A store that enlists writes the outcome in the provider's transaction, so
  the row is there exactly when the commit took effect; another store writes it at once.
\<close>

definition finalize_invocation ::
  "('s, 'l) reliability_service \<Rightarrow> 's \<Rightarrow> invocation_lease \<Rightarrow> cap_result \<Rightarrow> commit_fate option \<Rightarrow> bool \<Rightarrow>
   timestamp \<Rightarrow> timestamp \<Rightarrow> (cap_result \<times> 's) \<times> effect list" where
  "finalize_invocation rv s lease result transaction preserve now after =
     (case rel_complete (rv_api rv) s lease result preserve now after of
        Inl _ \<Rightarrow> (finalize_unknown rv s lease result now after,
                  if transaction = None then [] else [RolledBack, TransactionClosed])
      | Inr (_, s') \<Rightarrow>
          (case transaction of
             None \<Rightarrow> ((result, s'), [])
           | Some CommitOk \<Rightarrow> ((result, s'), [Committed, TransactionClosed])
           | Some CommitLost \<Rightarrow>
               (finalize_unknown rv s' lease result now after, [Committed, RolledBack, TransactionClosed])
           | Some CommitFails \<Rightarrow>
               (finalize_unknown rv (if rv_enlists rv then s else s') lease result now after,
                [RolledBack, TransactionClosed])))"

text \<open>A call cancelled before dispatch settles its lease as failed.\<close>

definition cancel_unstarted_lease ::
  "('s, 'l) reliability_service \<Rightarrow> 's \<Rightarrow> invocation_lease \<Rightarrow> invocation \<Rightarrow> timestamp \<Rightarrow> timestamp \<Rightarrow>
   py_exn + 's" where
  "cancel_unstarted_lease rv s lease e now after =
     (if ls_replay lease \<noteq> None then Inr s
      else bindr (failed e ''cancelled_before_dispatch'' ''Invocation was cancelled before provider dispatch.'')
             (\<lambda>result. Inr (snd (fst (finalize_invocation rv s lease result None False now after)))))"

text \<open>A failed asynchronous operation is moved to failed; any exception is swallowed.\<close>

definition settle_operation ::
  "('s, 'l, 'p, 'o) gateway \<Rightarrow> invocation_env \<Rightarrow> invocation \<Rightarrow> dispatched \<Rightarrow> cap_result \<Rightarrow>
   ('s, 'l, 'p, 'o) gateway_world \<Rightarrow> cap_result \<times> ('s, 'l, 'p, 'o) gateway_world" where
  "settle_operation g iv e dp result w =
     (case dp_operation dp of
        None \<Rightarrow> (result, w)
      | Some ref \<Rightarrow>
          if rs_ok result then (result, w)
          else
            (case operation_transition (the (gt_operations g)) (gw_operations w) (op_id ref) OpFailed
                    (op_version ref) (en_identity e)
                    (Some (case rs_error result of Some err \<Rightarrow> er_code err | None \<Rightarrow> ''provider_failed''))
                    (resources_of (dp_authorization dp)) (iv_finish iv) of
               Inl _ \<Rightarrow> (result, w)
             | Inr (ref', s) \<Rightarrow> (result\<lparr>rs_operation := Some ref'\<rparr>, w\<lparr>gw_operations := s\<rparr>)))"

definition lease_reference :: "invocation_lease \<Rightarrow> operation_ref option \<Rightarrow> cap_result \<Rightarrow> cap_result" where
  "lease_reference lease operation result =
     (if operation \<noteq> None then result
      else result\<lparr>rs_operation := Some \<lparr>op_id = ls_operation lease,
             op_status = (if rs_ok result then OpCompleted else OpFailed), op_version = 1\<rparr>\<rparr>)"

section \<open>One invocation\<close>

datatype invoke_reply = Replies cap_result | Raises py_exn | WasCancelled

definition reply_of :: "py_exn + cap_result \<Rightarrow> invoke_reply" where
  "reply_of r = (case r of Inl x \<Rightarrow> Raises x | Inr v \<Rightarrow> Replies v)"

definition emit :: "effect list \<Rightarrow> ('s, 'l, 'p, 'o) gateway_world \<Rightarrow> ('s, 'l, 'p, 'o) gateway_world" where
  "emit effects w = w\<lparr>gw_trace := gw_trace w @ effects\<rparr>"

definition projection_schema :: "descriptor \<Rightarrow> invocation \<Rightarrow> json" where
  "projection_schema d e =
     (case cd_agent_output d of
        Some s \<Rightarrow> if ai_consumer (en_identity e) then s else cd_output d
      | None \<Rightarrow> cd_output d)"

text \<open>The projected result is checked against the declared contract before it leaves.\<close>

definition checked_projection ::
  "hosts \<Rightarrow> descriptor \<Rightarrow> invocation \<Rightarrow> string list \<Rightarrow> cap_result \<Rightarrow> py_exn + cap_result" where
  "checked_projection hs d e scopes result =
     bindr (show_result hs d e scopes result) (\<lambda>shown.
       if rs_ok shown \<and> rs_data shown \<noteq> JNull then
         (case validate_payload (hs_lib hs) (hs_regex hs) (projection_schema d e) (rs_data shown)
                 ''projected_output'' of
            Inr _ \<Rightarrow> Inr shown
          | Inl x \<Rightarrow>
              if value_or_type_error x
              then bindr (failed e ''projection_contract_failed''
                           ''Capability projection violated its declared output contract.'')
                     (show_result hs d e scopes)
              else Inl x)
       else Inr shown)"

definition reply_with_metric ::
  "hosts \<Rightarrow> ('s, 'l, 'p, 'o) gateway \<Rightarrow> invocation_env \<Rightarrow> invocation \<Rightarrow> dispatched \<Rightarrow> int \<Rightarrow> cap_result \<Rightarrow>
   ('s, 'l, 'p, 'o) gateway_world \<Rightarrow> invoke_reply \<times> ('s, 'l, 'p, 'o) gateway_world" where
  "reply_with_metric hs g iv e dp output result w =
     (let d = dp_descriptor dp in
      case checked_projection hs d e (data_scopes_of (dp_authorization dp)) result of
        Inl x \<Rightarrow> (Raises x, w)
      | Inr shown \<Rightarrow>
          (Replies shown, record_metric hs g (iv_before iv) (iv_after iv) d e output (Some shown) False w))"

text \<open>A result without a stream: the operation, the lease and the transaction are settled.\<close>

definition settle ::
  "hosts \<Rightarrow> ('s, 'l, 'p, 'o) gateway \<Rightarrow> invocation_env \<Rightarrow> invocation \<Rightarrow> dispatched \<Rightarrow> int \<Rightarrow>
   commit_fate option \<Rightarrow> cap_result \<Rightarrow> ('s, 'l, 'p, 'o) gateway_world \<Rightarrow>
   invoke_reply \<times> ('s, 'l, 'p, 'o) gateway_world" where
  "settle hs g iv e dp output transaction result0 w0 =
     (case settle_operation g iv e dp result0 w0 of (result, w) \<Rightarrow>
      case dp_lease dp of
        Some lease \<Rightarrow>
          (case finalize_invocation (the (gt_reliability g)) (gw_store w) lease
                  (lease_reference lease (dp_operation dp) result) transaction
                  (cd_replay (dp_descriptor dp) = Projected) (iv_finish iv) (iv_finish_after iv) of
             ((final, s), effects) \<Rightarrow>
               (let w' = release_slot (dp_slot dp) (emit effects (w\<lparr>gw_store := s\<rparr>)) in
                if rs_status final = OutcomeUnknown then (Replies final, w')
                else reply_with_metric hs g iv e dp output final w'))
      | None \<Rightarrow>
          if transaction \<noteq> None
          then (reply_of (failed e ''unexpected_transaction''
                  ''A transactional provider requires durable write reliability.''),
                emit [RolledBack, TransactionClosed] w)
          else reply_with_metric hs g iv e dp output result w)"

text \<open>A stream is kept, with its leases, until it is claimed.\<close>

definition open_stream ::
  "hosts \<Rightarrow> invocation_env \<Rightarrow> invocation \<Rightarrow> dispatched \<Rightarrow> provider_stream \<Rightarrow> json \<Rightarrow> cap_result \<Rightarrow>
   ('s, 'l, 'p, 'o) gateway_world \<Rightarrow> invoke_reply \<times> ('s, 'l, 'p, 'o) gateway_world" where
  "open_stream hs iv e dp stream value result w =
     (let d = dp_descriptor dp;
          accepted = result\<lparr>rs_status := Accepted,
            rs_operation := map_option (\<lambda>l. \<lparr>op_id = ls_operation l, op_status = OpRunning, op_version = 1\<rparr>)
                              (dp_lease dp)\<rparr> in
      case show_result hs d e (data_scopes_of (dp_authorization dp)) accepted of
        Inl x \<Rightarrow> (Raises x, w)
      | Inr shown \<Rightarrow>
          (case provider_timeout d e (iv_finish iv) of
             Inl _ \<Rightarrow> (Raises (OtherError ''CapabilityBusinessError''), w)
           | Inr _ \<Rightarrow>
               (Replies shown, w\<lparr>gw_streams := AList.update (iv_stream_id iv)
                  \<lparr>sm_stream = stream, sm_descriptor = d, sm_envelope = e, sm_lease = dp_lease dp,
                   sm_slot = dp_slot dp, sm_before = iv_before iv, sm_output = value, sm_started = False,
                   sm_iterator_closed = False, sm_outcome_done = False, sm_slot_released = False,
                   sm_metric_done = False\<rparr> (gw_streams w)\<rparr>)))"

text \<open>
  A failed call rolls its transaction back and closes its stream; the slot is released here when no
  lease is held and no stream was deferred.
\<close>

definition call_cleanup :: "call_outcome \<Rightarrow> effect list" where
  "call_cleanup co =
     (if isl (co_value co) \<and> co_transaction co \<noteq> None then [RolledBack, TransactionClosed] else []) @
     (if isl (co_value co) \<and> co_stream co \<noteq> None then [IteratorClosed] else [])"

definition deferred_stream :: "call_outcome \<Rightarrow> bool" where
  "deferred_stream co \<longleftrightarrow> \<not> isl (co_value co) \<and> co_stream co \<noteq> None"

definition clean_up ::
  "dispatched \<Rightarrow> call_outcome \<Rightarrow> ('s, 'l, 'p, 'o) gateway_world \<Rightarrow> ('s, 'l, 'p, 'o) gateway_world" where
  "clean_up dp co w =
     (let w1 = emit (call_cleanup co) w in
      if \<not> deferred_stream co \<and> dp_lease dp = None then release_slot (dp_slot dp) w1 else w1)"

definition finish_call ::
  "hosts \<Rightarrow> ('s, 'l, 'p, 'o) gateway \<Rightarrow> invocation_env \<Rightarrow> invocation \<Rightarrow> dispatched \<Rightarrow> call_outcome \<Rightarrow>
   ('s, 'l, 'p, 'o) gateway_world \<Rightarrow> invoke_reply \<times> ('s, 'l, 'p, 'o) gateway_world" where
  "finish_call hs g iv e dp co w =
     (case call_result e (dp_operation dp) co of
        Inl x \<Rightarrow> (Raises x, clean_up dp co w)
      | Inr result \<Rightarrow>
          (case (co_stream co, co_value co) of
             (Some stream, Inr (value, _)) \<Rightarrow> open_stream hs iv e dp stream value result (clean_up dp co w)
           | _ \<Rightarrow> settle hs g iv e dp (co_bytes co) (if isl (co_value co) then None else co_transaction co)
                    result (clean_up dp co w)))"

definition execute ::
  "hosts \<Rightarrow> ('s, 'l, 'p, 'o) gateway \<Rightarrow> invocation_env \<Rightarrow> invocation \<Rightarrow> dispatched \<Rightarrow>
   ('s, 'l, 'p, 'o) gateway_world \<Rightarrow> invoke_reply \<times> ('s, 'l, 'p, 'o) gateway_world" where
  "execute hs g iv e dp w =
     (let co = run_provider hs g iv e dp (length (gw_streams w)); w1 = emit (co_effects co) w in
      if co_value co = Inl Cancelled
      then (WasCancelled, record_metric hs g (iv_before iv) (iv_after iv) (dp_descriptor dp) e 0 None True
              (release_slot (dp_slot dp) w1))
      else finish_call hs g iv e dp co w1)"

definition invoke ::
  "hosts \<Rightarrow> ('s, 'l, 'p, 'o) gateway \<Rightarrow> invocation_env \<Rightarrow> invocation \<Rightarrow> ('s, 'l, 'p, 'o) gateway_world \<Rightarrow>
   invoke_reply \<times> ('s, 'l, 'p, 'o) gateway_world" where
  "invoke hs g iv e w =
     (case dispatch hs g iv e w of
        (Answer r, w') \<Rightarrow> (Replies r, w')
      | (Raise x, w') \<Rightarrow> (Raises x, w')
      | (Go dp, w') \<Rightarrow> execute hs g iv e dp w')"

section \<open>Approvals and delayed effects\<close>

definition reauthorize ::
  "('s, 'l, 'p, 'o) gateway \<Rightarrow> invocation \<Rightarrow> timestamp \<Rightarrow> resolve_error + policy_error + unit" where
  "reauthorize g e now =
     bindr (resolve_envelope g e now) (\<lambda>(d, p).
       Inr (bindr (py_authorize (gt_policy g) d e (rg_permissions p) now) (\<lambda>_. Inr ())))"

definition approval_guards ::
  "hosts \<Rightarrow> ('s, 'l, 'p, 'o) gateway \<Rightarrow> invocation \<Rightarrow> timestamp \<Rightarrow>
   policy_error + descriptor \<times> authorization_decision" where
  "approval_guards hs g e now =
     (if identity_overridden e
      then Inl (PolicyError ''consumer_identity_override_forbidden''
             ''Consumer identity comes from authenticated context.'')
      else (case resolve_envelope g e now of
          Inl (PolicyRefused code message) \<Rightarrow> Inl (PolicyError code message)
        | Inl (CatalogRefused _) \<Rightarrow>
            Inl (PolicyError ''catalog_resolution_failed'' ''Capability catalog resolution failed.'')
        | Inr (d, p) \<Rightarrow>
            if \<not> exposure_allows (cd_exposure d) (cn_type (ci_consumer (en_identity e)))
            then Inl (PolicyError ''consumer_not_allowed'' ''Consumer is not exposed.'')
            else if cd_confirmation d = NoConfirmation
            then Inl (PolicyError ''confirmation_not_required'' ''Confirmation is not required.'')
            else if is_write d \<and> strong_without_transaction d p
            then Inl (PolicyError ''transaction_participant_required''
                   ''Strong writes require a transactional capability provider.'')
            else (case py_authorize (gt_policy g) d e (rg_permissions p) now of
                Inl (PolicyError code message) \<Rightarrow> Inl (PolicyError code message)
              | Inl (PolicyRaised _) \<Rightarrow>
                  Inl (PolicyError ''authorization_failed'' ''Capability authorization service failed.'')
              | Inr None \<Rightarrow>
                  Inl (PolicyError ''authorization_failed'' ''Authorization decision is unavailable.'')
              | Inr (Some a) \<Rightarrow>
                  (case input_error hs d e of
                     (_, Some _) \<Rightarrow> Inl (PolicyRaised ''validation'')
                   | (Some (code, message), None) \<Rightarrow> Inl (PolicyError code message)
                   | (None, None) \<Rightarrow>
                       (case concurrency_error (hs_lib hs) d e of
                          Some code \<Rightarrow> Inl (PolicyError code ''Expected resource version is invalid.'')
                        | None \<Rightarrow> Inr (d, a))))))"

definition request_approval ::
  "hosts \<Rightarrow> ('s, 'l, 'p, 'o) gateway \<Rightarrow> invocation \<Rightarrow> string \<Rightarrow> timestamp \<Rightarrow> ('s, 'l, 'p, 'o) gateway_world \<Rightarrow>
   (policy_error + (string \<times> approval)) \<times> ('s, 'l, 'p, 'o) gateway_world" where
  "request_approval hs g e random now w =
     (case approval_guards hs g e now of
        Inl err \<Rightarrow> (Inl err, w)
      | Inr (d, a) \<Rightarrow>
          (case py_issue (gt_policy g) (gw_policy w) d e a random now of
             Inl (PolicyError code message) \<Rightarrow> (Inl (PolicyError code message), w)
           | Inl (PolicyRaised _) \<Rightarrow>
               (Inl (PolicyError ''approval_service_failed'' ''Approval service failed.''), w)
           | Inr (issued, s) \<Rightarrow> (Inr issued, w\<lparr>gw_policy := s\<rparr>)))"

text \<open>\<open>reconcile_committed_agent_outcome\<close> on an event whose fields are already read.\<close>

definition committed_result ::
  "string \<Rightarrow> string \<Rightarrow> int \<Rightarrow> string \<Rightarrow> json \<Rightarrow> evidence_ref list \<Rightarrow> string \<Rightarrow> cap_result" where
  "committed_result operation capability major request data evidence async_operation =
     (if async_operation \<noteq> [] then
        (accepted_result capability major request
           \<lparr>op_id = async_operation, op_status = OpRunning, op_version = 1\<rparr>)\<lparr>rs_evidence := evidence\<rparr>
      else
        \<lparr>rs_ok = True, rs_status = Completed, rs_capability = capability, rs_major = major, rs_data = data,
         rs_operation = Some \<lparr>op_id = operation, op_status = OpCompleted, op_version = 1\<rparr>, rs_artifacts = [],
         rs_error = None, rs_evidence = evidence, rs_warnings = [],
         rs_correlation = \<lparr>cl_request = request, cl_trace = None\<rparr>\<rparr>)"

definition reconcile_committed_agent_outcome ::
  "('s, 'l) reliability_service \<Rightarrow> 's \<Rightarrow> string \<Rightarrow> string \<Rightarrow> int \<Rightarrow> string \<Rightarrow> json \<Rightarrow> evidence_ref list \<Rightarrow> string \<Rightarrow>
   timestamp \<Rightarrow> reliability_error + outcome \<times> 's" where
  "reconcile_committed_agent_outcome rv s operation capability major request data evidence async_operation now =
     rel_reconcile (rv_api rv) s operation
       (committed_result operation capability major request data evidence async_operation) now"

end
