(* ===== verification/GatewayLemmas.thy ===== *)
theory GatewayLemmas
  imports Gateway
begin

text \<open>
  The shared facts about the pipeline: how a run of stages decomposes, which parts of the world each
  stage leaves alone, and what a dispatched invocation has passed.
\<close>

section \<open>Sequenced stages\<close>

lemma andthen_Go:
  "andthen m f w = (Go b, w2) \<longleftrightarrow> (\<exists>a w1. m w = (Go a, w1) \<and> f a w1 = (Go b, w2))"
  by (auto simp: andthen_def split: prod.splits stage.splits)

lemma andthen_decide [simp]:
  "andthen (decide (Go a)) f w = f a w"
  "andthen (decide (Answer r)) f w = (Answer r, w)"
  "andthen (decide (Raise x)) f w = (Raise x, w)"
  by (simp_all add: andthen_def decide_def)

lemma decide_Go [simp]: "decide a w = (Go b, w') \<longleftrightarrow> a = Go b \<and> w' = w"
  by (auto simp: decide_def)

lemma answer_not_Go [simp]: "answer r \<noteq> Go a"
  by (auto simp: answer_def split: sum.split)

lemma reliability_answer_not_Go [simp]: "reliability_answer e err \<noteq> Go a"
  by (auto simp: reliability_answer_def split: reliability_error.split)

lemma holding_slot_Go [simp]: "holding_slot l m w = (Go a, w') \<longleftrightarrow> m w = (Go a, w')"
  by (auto simp: holding_slot_def split: prod.splits stage.splits)

text \<open>
  A relation between the worlds before and after a stage, whatever the stage answers. A relation that
  is reflexive and transitive holds of a whole run when it holds of its stages.
\<close>

definition steps :: "('w \<Rightarrow> 'w \<Rightarrow> bool) \<Rightarrow> ('w \<Rightarrow> 'a \<times> 'w) \<Rightarrow> bool" where
  "steps R m \<longleftrightarrow> (\<forall>w. R w (snd (m w)))"

lemma stepsD: "steps R m \<Longrightarrow> m w = (a, w') \<Longrightarrow> R w w'"
  by (metis steps_def snd_conv)

lemma stepsI: "(\<And>w a w'. m w = (a, w') \<Longrightarrow> R w w') \<Longrightarrow> steps R m"
  by (metis steps_def prod.collapse)

lemma steps_decide:
  "reflp R \<Longrightarrow> steps R (decide a)" "reflp R \<Longrightarrow> steps R (\<lambda>w. decide (f w) w)"
  by (simp_all add: steps_def decide_def reflp_def)

lemma steps_andthen:
  assumes "transp R" and "steps R m" and "\<And>a. steps R (f a)"
  shows "steps R (andthen m f)"
proof (rule stepsI)
  fix w b w'
  assume run: "andthen m f w = (b, w')"
  obtain s w1 where s: "m w = (s, w1)" by fastforce
  note first = stepsD [OF assms(2) s]
  show "R w w'"
  proof (cases s)
    case (Go a)
    with run s have "f a w1 = (b, w')" by (simp add: andthen_def)
    from stepsD [OF assms(3) this] first assms(1) show ?thesis by (blast dest: transpD)
  qed (use run s first in \<open>simp_all add: andthen_def\<close>)
qed

lemma steps_holding:
  assumes "transp R" and "steps R m" and "\<And>w. R w (release_slot l w)"
  shows "steps R (holding_slot l m)"
proof (rule stepsI)
  fix w b w'
  assume run: "holding_slot l m w = (b, w')"
  obtain s w1 where s: "m w = (s, w1)" by fastforce
  note first = stepsD [OF assms(2) s]
  have "w' = w1 \<or> w' = release_slot l w1"
    using run s by (cases s) (simp_all add: holding_slot_def)
  with first assms(1,3) show "R w w'" by (blast dest: transpD)
qed

lemma dispatch_steps:
  assumes "reflp R" and "transp R"
    and approve: "\<And>d a. steps R (stage_approve hs g iv d e a)"
    and acquire: "\<And>d a. steps R (stage_acquire hs g iv d e a)"
    and starting: "\<And>d a. steps R (stage_begin hs g iv d e a)"
    and operation: "\<And>d a lease. steps R (stage_operation g iv d e a lease)"
    and release: "\<And>l w. R w (release_slot l w)"
  shows "steps R (dispatch hs g iv e)"
proof -
  note andthen = steps_andthen [OF assms(2)] and decide = steps_decide [OF assms(1)]
  have "steps R (leased hs g iv e d p a slot)" for d p a slot
    unfolding leased_def by (intro steps_holding assms(2) release andthen starting operation decide)
  then show ?thesis
    unfolding dispatch_def by (auto intro!: andthen approve acquire decide split: prod.split)
qed

section \<open>What the stages leave alone\<close>

abbreviation same_trace :: "('s, 'l, 'p, 'o) gateway_world \<Rightarrow> ('s, 'l, 'p, 'o) gateway_world \<Rightarrow> bool" where
  "same_trace w w' \<equiv> gw_trace w' = gw_trace w"

lemma steps_trace:
  "steps same_trace (stage_approve hs g iv d e a)"
  "steps same_trace (stage_acquire hs g iv d e a)"
  "steps same_trace (stage_begin hs g iv d e a)"
  "steps same_trace (stage_operation g iv d e a lease)"
  by (auto simp: steps_def stage_approve_def stage_acquire_def stage_begin_def stage_operation_def
      operation_failed_def record_metric_def Let_def
      split: prod.split sum.split option.split policy_error.split admission_result.split)

lemma dispatch_trace: "dispatch hs g iv e w = (s, w') \<Longrightarrow> gw_trace w' = gw_trace w"
  by (rule stepsD [OF dispatch_steps [of same_trace]])
    (simp_all add: steps_trace release_slot_def reflp_def transp_def)

section \<open>What a dispatched invocation has passed\<close>

lemma dispatchedE:
  assumes "dispatch hs g iv e w = (Go dp, w')"
  obtains d p a w1 slot w2 lease w3 operation where
    "stage_resolve g iv e = Go (d, p)" and "stage_authorize hs g iv d p e = Go a"
    and "stage_input hs d e = Go ()" and "stage_services g d e = Go ()"
    and "stage_replay hs g d p e a w = Go ()" and "stage_approve hs g iv d e a w = (Go (), w1)"
    and "stage_acquire hs g iv d e a w1 = (Go slot, w2)" and "stage_begin hs g iv d e a w2 = (Go lease, w3)"
    and "stage_operation g iv d e a lease w3 = (Go operation, w')"
    and "stage_context hs e d p a slot lease operation = Go dp"
  using assms unfolding dispatch_def leased_def
  by (auto simp: andthen_Go split: prod.splits)

lemma resolve_envelope_passed:
  assumes "resolve_envelope g e now = Inr (d, p)"
  shows "gt_release g = Some (en_release e)"
    and "resolver_descriptor (gt_catalog g) (en_release e) (en_capability e) (Some (en_major e)) = Inr d"
    and "resolve (gt_catalog g) (gt_registry g) (en_release e) (en_capability e) (Some (en_major e)) = Inr p"
    and "opt_ok (\<lambda>t. tz_aware t \<and> instant now < instant t) (en_deadline e)"
    and "cd_lifecycle d \<noteq> Retired"
proof -
  have lift: "lift_catalog r = Inr a \<longleftrightarrow> r = Inr a" for r :: "string + 'z" and a
    by (auto simp: lift_catalog_def split: sum.split)
  from assms show "gt_release g = Some (en_release e)"
    and "resolver_descriptor (gt_catalog g) (en_release e) (en_capability e) (Some (en_major e)) = Inr d"
    and "resolve (gt_catalog g) (gt_registry g) (en_release e) (en_capability e) (Some (en_major e)) = Inr p"
    and "cd_lifecycle d \<noteq> Retired"
    by (auto simp: resolve_envelope_def bindr_eq_Inr lift_catalog_def split: if_splits sum.splits)
  from assms have "deadline_check e now = Inr ()"
    by (auto simp: resolve_envelope_def bindr_eq_Inr split: if_splits)
  then show "opt_ok (\<lambda>t. tz_aware t \<and> instant now < instant t) (en_deadline e)"
    by (auto simp: deadline_check_def split: option.splits if_splits)
qed

lemma resolve_passed:
  assumes "resolve get reg release_id capability (Some major) = Inr p"
  shows "\<exists>release d. get release_id = Some release \<and> release_descriptor release capability major = Some d \<and>
    resolver_descriptor get release_id capability (Some major) = Inr d \<and>
    registry_get reg capability major = Inr p \<and> verify_provider_artifact reg release p = Inr ()"
  using assms
  by (auto simp: resolve_def resolver_descriptor_def bindr_eq_Inr split: option.splits if_splits sum.splits)

lemma stage_resolve_passed:
  assumes "stage_resolve g iv e = Go (d, p)"
  shows "\<not> identity_overridden e" and "resolve_envelope g e (iv_now iv) = Inr (d, p)"
    and "exposure_allows (cd_exposure d) (cn_type (ci_consumer (en_identity e)))"
  using assms
  by (auto simp: stage_resolve_def split: if_splits sum.splits resolve_error.splits prod.splits)

lemma stage_authorize_passed:
  "stage_authorize hs g iv d p e = Go a \<longleftrightarrow>
     py_authorize (gt_policy g) d e (rg_permissions p) (iv_now iv) = Inr a"
  by (auto simp: stage_authorize_def split: sum.splits policy_error.splits)

lemma stage_input_passed:
  assumes "stage_input hs d e = Go ()"
  shows "validate_payload (hs_lib hs) (hs_regex hs) (cd_input d) (JObj (en_payload e)) ''payload'' = Inr ()"
    and "int (length (json_dumps (hs_lib hs) (JObj (en_payload e)))) \<le> eb_max_input (cd_budget d)"
    and "concurrency_error (hs_lib hs) d e = None"
proof -
  obtain found caught where found: "input_error hs d e = (found, caught)" by fastforce
  from assms have none: "found = None" "caught = None"
    by (auto simp: stage_input_def found split: option.splits)
  from assms show "int (length (json_dumps (hs_lib hs) (JObj (en_payload e)))) \<le> eb_max_input (cd_budget d)"
    and "concurrency_error (hs_lib hs) d e = None"
    by (auto simp: stage_input_def found none json_size_def split: if_splits option.splits sum.splits)
  show "validate_payload (hs_lib hs) (hs_regex hs) (cd_input d) (JObj (en_payload e)) ''payload'' = Inr ()"
    using found [unfolded none input_error_def] by (auto split: sum.splits py_exn.splits)
qed

lemma stage_services_passed:
  "stage_services g d e = Go () \<longleftrightarrow> idempotency_key_ok e \<and>
     (cd_operation d = Required \<longrightarrow> gt_operations g \<noteq> None) \<and> (is_write d \<longrightarrow> gt_reliability g \<noteq> None)"
  by (auto simp: stage_services_def)

lemma stage_replay_passed:
  "stage_replay hs g d p e a w = Go () \<longleftrightarrow>
     (is_write d \<longrightarrow> rel_replay (hs_lib hs) (rv_api (the (gt_reliability g))) (gw_store w) e = Inr None \<and>
        \<not> strong_without_transaction d p)"
  by (auto simp: stage_replay_def split: sum.splits option.splits)

lemma stage_approve_passed:
  "stage_approve hs g iv d e a w = (Go (), w1) \<longleftrightarrow>
     (\<exists>s. py_approve (gt_policy g) (gw_policy w) d e a (iv_approve iv) = (Inr (), s) \<and> w1 = w\<lparr>gw_policy := s\<rparr>)"
  by (auto simp: stage_approve_def split: prod.splits sum.splits policy_error.splits)

lemma acquire_loop_admits:
  "acquire_loop s q wakeups = (Admitted, s') \<Longrightarrow>
     \<exists>s0. s' = take_slot s0 q \<and> \<not> tenant_full s0 q \<and> \<not> consumer_full s0 q"
  by (induction s q wakeups rule: acquire_loop.induct)
    (auto simp: acquire_timeout_def acquire_round_def split: prod.splits admission_result.splits if_splits)

lemma acquire_loop_decides: "fst (acquire_loop s q wakeups) \<noteq> Waits"
  by (induction s q wakeups rule: acquire_loop.induct)
    (auto simp: acquire_timeout_def split: prod.splits admission_result.splits)

lemma acquire_slot_decides: "fst (acquire_slot iv q s) \<noteq> Waits"
  using acquire_loop_decides
  by (auto simp: acquire_slot_def split: prod.split admission_result.split)

lemma acquire_slot_admits:
  assumes "acquire_slot iv q s = (Admitted, s')"
  shows "\<not> under_pressure (iv_before iv) q \<and>
    (\<exists>s0. s' = take_slot s0 q \<and> \<not> tenant_full s0 q \<and> \<not> consumer_full s0 q)"
  using assms acquire_loop_admits
  by (auto simp: acquire_slot_def acquire_start_def acquire_round_def
      split: prod.splits admission_result.splits if_splits)

lemma stage_acquire_passed:
  assumes "stage_acquire hs g iv d e a w = (Go slot, w')"
  shows "slot = \<lparr>al_request = slot_request d e, al_released = False\<rparr> \<and>
    (\<exists>s. acquire_slot iv (slot_request d e) (gw_admission w) = (Admitted, s) \<and> w' = w\<lparr>gw_admission := s\<rparr>)"
proof -
  obtain r s where r: "acquire_slot iv (slot_request d e) (gw_admission w) = (r, s)" by fastforce
  then have "r \<noteq> Waits" using acquire_slot_decides [of iv "slot_request d e" "gw_admission w"] by auto
  with assms r show ?thesis
    by (cases r) (auto simp: stage_acquire_def Let_def split: sum.splits)
qed

lemma stage_begin_passed:
  assumes "stage_begin hs g iv d e a w = (Go lease, w')"
  shows "(\<not> is_write d \<and> lease = None \<and> w' = w) \<or>
    (is_write d \<and> (\<exists>l s limits. lease = Some l \<and> ls_replay l = None \<and>
       rel_begin (hs_lib hs) (rv_api (the (gt_reliability g))) (rv_limiter (the (gt_reliability g)))
         (gw_store w, gw_limits w) e d (policy_of a) (iv_operation_id iv) (iv_begin iv) = (Inr l, s, limits) \<and>
       w' = w\<lparr>gw_store := s, gw_limits := limits\<rparr>))"
  using assms
  by (auto simp: stage_begin_def Let_def split: if_splits prod.splits sum.splits option.splits)

lemma operation_failed_not_Go [simp]: "operation_failed g iv e lease w \<noteq> (Go x, w')"
  by (auto simp: operation_failed_def split: sum.splits option.splits prod.splits)

lemma stage_operation_passed:
  assumes "stage_operation g iv d e a lease w = (Go operation, w')"
  shows "gw_store w' = gw_store w \<and> gw_policy w' = gw_policy w \<and> gw_admission w' = gw_admission w \<and>
    gw_trace w' = gw_trace w"
  using assms by (auto simp: stage_operation_def split: if_splits sum.splits prod.splits)

lemma stage_context_passed:
  assumes "stage_context hs e d p a slot lease operation = Go dp"
  shows "\<exists>context. build_context hs e a lease operation = Inr context \<and>
    dp = \<lparr>dp_descriptor = d, dp_provider = p, dp_authorization = a, dp_slot = slot, dp_lease = lease,
          dp_operation = operation, dp_context = context\<rparr>"
  using assms by (auto simp: stage_context_def split: sum.splits)

section \<open>The effects of an invocation\<close>

fun is_call :: "effect \<Rightarrow> bool" where
  "is_call (ProviderCalled _ _) = True"
| "is_call _ = False"

definition quiet :: "('s, 'l, 'p, 'o) gateway_world \<Rightarrow> ('s, 'l, 'p, 'o) gateway_world \<Rightarrow> bool" where
  "quiet w w' \<longleftrightarrow> (\<exists>effects. gw_trace w' = gw_trace w @ effects \<and> list_all (\<lambda>x. \<not> is_call x) effects)"

lemma quiet_same [intro]: "gw_trace w' = gw_trace w \<Longrightarrow> quiet w w'"
  by (auto simp: quiet_def)

lemma quiet_trans: "quiet w w1 \<Longrightarrow> quiet w1 w2 \<Longrightarrow> quiet w w2"
  by (auto simp: quiet_def)

lemma trace_updates [simp]:
  "gw_trace (emit effects w) = gw_trace w @ effects"
  "gw_trace (release_slot l w) = gw_trace w"
  "gw_trace (record_metric hs g before after d e n r c w) = gw_trace w"
  by (simp_all add: emit_def release_slot_def record_metric_def)

lemma settle_operation_trace: "settle_operation g iv e dp result w = (r, w') \<Longrightarrow> gw_trace w' = gw_trace w"
  by (auto simp: settle_operation_def split: option.splits if_splits sum.splits prod.splits)

lemma reply_with_metric_trace [simp]:
  "reply_with_metric hs g iv e dp n r w = (reply, w') \<Longrightarrow> gw_trace w' = gw_trace w"
  by (auto simp: reply_with_metric_def Let_def split: sum.splits)

lemma finalize_effects:
  "finalize_invocation rv s lease result transaction preserve now after = (x, effects) \<Longrightarrow>
     list_all (\<lambda>x. \<not> is_call x) effects"
  by (auto simp: finalize_invocation_def split: sum.splits prod.splits option.splits commit_fate.splits if_splits)

lemma settle_quiet:
  assumes "settle hs g iv e dp output transaction result w = (reply, w')"
  shows "quiet w w'"
proof -
  obtain r w1 where settled: "settle_operation g iv e dp result w = (r, w1)" by fastforce
  note trace = settle_operation_trace [OF settled]
  show ?thesis
  proof (cases "dp_lease dp")
    case None
    with assms settled trace show ?thesis
      by (cases "transaction = None") (auto simp: settle_def quiet_def)
  next
    case (Some lease)
    obtain final s effects where fin: "finalize_invocation (the (gt_reliability g)) (gw_store w1) lease
        (lease_reference lease (dp_operation dp) r) transaction
        (cd_replay (dp_descriptor dp) = Projected) (iv_finish iv) (iv_finish_after iv) = ((final, s), effects)"
      by (metis prod.exhaust)
    from assms settled Some fin trace finalize_effects [OF fin] show ?thesis
      by (cases "rs_status final = OutcomeUnknown") (auto simp: settle_def quiet_def Let_def)
  qed
qed

lemma open_stream_trace: "open_stream hs iv e dp stream value result w = (reply, w') \<Longrightarrow> gw_trace w' = gw_trace w"
  by (auto simp: open_stream_def Let_def split: sum.splits)

lemma clean_up_quiet: "quiet w (clean_up dp co w)"
  by (auto simp: quiet_def clean_up_def call_cleanup_def Let_def)

lemma finish_call_cases:
  assumes "finish_call hs g iv e dp co w = (reply, w')"
  obtains x where "call_result e (dp_operation dp) co = Inl x" "reply = Raises x" "w' = clean_up dp co w"
  | result stream v evidence where "call_result e (dp_operation dp) co = Inr result"
      "co_stream co = Some stream" "co_value co = Inr (v, evidence)"
      "open_stream hs iv e dp stream v result (clean_up dp co w) = (reply, w')"
  | result where "call_result e (dp_operation dp) co = Inr result" "\<not> deferred_stream co"
      "settle hs g iv e dp (co_bytes co) (if isl (co_value co) then None else co_transaction co) result
         (clean_up dp co w) = (reply, w')"
proof (cases "call_result e (dp_operation dp) co")
  case (Inl x)
  with assms that(1) show ?thesis by (auto simp: finish_call_def)
next
  case (Inr result)
  show ?thesis
  proof (cases "deferred_stream co")
    case True
    then obtain stream v evidence where "co_stream co = Some stream" "co_value co = Inr (v, evidence)"
      by (cases "co_value co") (auto simp: deferred_stream_def)
    with assms Inr that(2) show ?thesis by (auto simp: finish_call_def)
  next
    case False
    with assms Inr that(3) show ?thesis
      by (cases "co_value co"; cases "co_stream co") (auto simp: finish_call_def deferred_stream_def)
  qed
qed

lemma finish_call_quiet:
  assumes "finish_call hs g iv e dp co w = (reply, w')"
  shows "quiet w w'"
proof -
  from assms have "quiet (clean_up dp co w) w'"
    by (rule finish_call_cases) (simp_all add: quiet_same open_stream_trace settle_quiet)
  with clean_up_quiet show ?thesis by (rule quiet_trans)
qed

lemma provider_call_effects:
  "provider_call hdl payload context delivery = (r, effects) \<Longrightarrow>
     \<exists>others. effects = ProviderCalled payload context # others \<and> list_all (\<lambda>x. \<not> is_call x) others"
  by (auto simp: provider_call_def abandoned_effects_def Let_def
      split: delivery.splits provider_reply.splits provider_value.splits if_splits)

lemma run_provider_effects:
  "co_effects (run_provider hs g iv e dp n) = [] \<or>
   (\<exists>others. co_effects (run_provider hs g iv e dp n) = ProviderCalled (en_payload e) (dp_context dp) # others \<and>
      list_all (\<lambda>x. \<not> is_call x) others)"
proof (cases "provider_timeout (dp_descriptor dp) e (iv_dispatch iv)")
  case (Inr t)
  obtain r effects where call: "provider_call (rg_handler (dp_provider dp)) (en_payload e) (dp_context dp)
      (iv_delivery iv) = (r, effects)" by fastforce
  then have "co_effects (run_provider hs g iv e dp n) = effects"
    using Inr by (cases r) (auto simp: run_provider_def split: prod.split)
  with provider_call_effects [OF call] show ?thesis by simp
qed (simp add: run_provider_def)

lemma execute_trace:
  assumes "execute hs g iv e dp w = (reply, w')"
  shows "\<exists>effects. gw_trace w' = gw_trace w @ effects \<and> length (filter is_call effects) \<le> 1 \<and>
    (\<forall>x\<in>set effects. is_call x \<longrightarrow> x = ProviderCalled (en_payload e) (dp_context dp))"
proof -
  let ?co = "run_provider hs g iv e dp (length (gw_streams w))"
  have "quiet (emit (co_effects ?co) w) w'"
    using assms finish_call_quiet
    by (auto simp: execute_def Let_def split: if_splits)
  then obtain others where others: "gw_trace w' = gw_trace w @ co_effects ?co @ others"
    "list_all (\<lambda>x. \<not> is_call x) others"
    by (auto simp: quiet_def)
  have "filter is_call others = []" using others(2) by (simp add: filter_empty_conv list_all_iff)
  with run_provider_effects [of hs g iv e dp "length (gw_streams w)"] others show ?thesis
    by (intro exI [of _ "co_effects ?co @ others"]) (auto simp: list_all_iff filter_empty_conv)
qed

end
