(* ===== verification/ReliabilityProperties.thy ===== *)
theory ReliabilityProperties
  imports Reliability CapabilityExamples
begin

text \<open>
  The guarantees of durable invocations: the two outcome stores agree, an idempotency scope is
  executed at most once, a completed outcome is replayed unchanged and audited once, an approval
  is spent once and only for what it was issued for, and rate limits bound the cost of a window.
\<close>

section \<open>The two stores agree\<close>

definition late_unknown :: "ledger \<Rightarrow> store_call \<Rightarrow> bool" where
  "late_unknown v c \<longleftrightarrow> (\<exists>a result t t' x. c = UnknownCall a result t t' \<and> v a = Some x \<and>
     oc_status x \<noteq> OutStarted)"

lemma spec_deterministic:
  assumes spec: "ledger_spec v c r1 v1" "ledger_spec v c r2 v2" and late: "\<not> late_unknown v c"
    and unique: "\<And>a b x y. v a = Some x \<Longrightarrow> v b = Some y \<Longrightarrow> oc_scope x = oc_scope y \<Longrightarrow> a = b"
  shows "r1 = r2 \<and> v1 = v2"
proof (cases c)
  case (BeginCall r)
  show ?thesis
  proof (cases "\<exists>a x. v a = Some x \<and> oc_scope x = oc_scope r")
    case True
    then obtain a x where x: "v a = Some x" "oc_scope x = oc_scope r" by blast
    have only: "y = x" if "v b = Some y" "oc_scope y = oc_scope r" for b y
      using unique [OF x(1), of b y] x that by auto
    have "r' = (if oc_hash x = oc_hash r then Inr x
          else Inl (OutcomeConflict ''idempotency_payload_conflict'')) \<and> v' = v"
      if "ledger_spec v (BeginCall r) r' v'" for r' v'
      using that
    proof (rule spec_beginE)
      assume "\<And>a x. v a = Some x \<Longrightarrow> oc_scope x \<noteq> oc_scope r"
      then show ?thesis using x by blast
    next
      fix b y
      assume "v' = v" "r' = Inr y" "v b = Some y" "oc_scope y = oc_scope r" "oc_hash y = oc_hash r"
      then show ?thesis using only [of b y] by simp
    next
      fix b y
      assume "v' = v" "r' = Inl (OutcomeConflict ''idempotency_payload_conflict'')" "v b = Some y"
        "oc_scope y = oc_scope r" "oc_hash y \<noteq> oc_hash r"
      then show ?thesis using only [of b y] by simp
    qed simp
    then show ?thesis using spec BeginCall by metis
  next
    case False
    then show ?thesis using spec BeginCall by (auto elim!: spec_beginE)
  qed
next
  case (CompleteCall a result p t t')
  then show ?thesis using spec by (auto elim!: spec_completeE)
next
  case (UnknownCall a result t t')
  then have "\<And>x. v a = Some x \<Longrightarrow> oc_status x = OutStarted" using late by (auto simp: late_unknown_def)
  then show ?thesis using spec UnknownCall by (auto elim!: spec_unknownE)
next
  case (ReconcileCall a result t)
  then show ?thesis using spec by (auto elim!: spec_reconcileE)
qed


definition xa_record :: outcome where
  "xa_record = new_record host_ascii xa_invocation ''policy'' ''op_1'' (Aware 5)"

lemma xa_record_new: "new_outcome xa_record"
  by (simp add: new_outcome_def xa_record_def new_record_def Let_def)

lemma om_inv_empty: "om_inv om_empty"
  by (auto simp: om_inv_def om_keys_ok_def om_scopes_ok_def om_audit_ok_def om_view_def om_audited_def
      om_empty_def)

lemma ot_inv_empty: "ot_inv ot_empty"
  by (simp add: ot_inv_def ot_rows_ok_def ot_events_ok_def ot_audit_ok_def ot_audited_def ot_empty_def)

lemma om_view_empty: "om_view om_empty = (\<lambda>_. None)"
  by (rule ext) (simp add: om_view_def om_empty_def)

lemma ot_view_empty: "ot_view ot_empty = (\<lambda>_. None)"
  by (rule ext) (simp add: ot_view_def row_by_operation_def ot_empty_def)


section \<open>Marking a final outcome unknown\<close>

text \<open>
  Marking an outcome unknown that is already completed or failed: the in-memory store
  overwrites it with the unknown outcome, the SQL store refuses and keeps it.
\<close>

theorem mark_unknown_differs:
  assumes "om_inv m" and "ot_inv q" and "om_view m a = Some x" and "ot_view q a = Some x"
    and "oc_status x \<in> {OutCompleted, OutFailed}" and "result_ok result" and "tz_aware t"
  shows "om_view (after_call m (run_call memory_api m (UnknownCall a result t t))) a =
           Some (finished x OutUnknown (durable_result result False) t) \<and>
         run_call sql_api q (UnknownCall a result t t) =
           Inl (OutcomeConflict ''outcome_unknown_update_failed'')"
proof -
  have op: "oc_operation x = a" using assms(1,3) by (auto simp: om_inv_def om_keys_ok_def)
  have "om_get m a = Inr x" using assms(3) by (simp add: om_get_view)
  then have "run_call memory_api m (UnknownCall a result t t) =
      Inr (finished x OutUnknown (durable_result result False) t,
           om_put m (finished x OutUnknown (durable_result result False) t)
             (audit_of x (unknown_payload x) t))"
    by (simp add: memory_api_def om_mark_unknown_def Let_def)
  then have "om_view (after_call m (run_call memory_api m (UnknownCall a result t t))) a =
      Some (finished x OutUnknown (durable_result result False) t)"
    using op by (simp add: om_view_put [of _ a] finished_def)
  moreover have "run_call sql_api q (UnknownCall a result t t) =
      Inl (OutcomeConflict ''outcome_unknown_update_failed'')"
    using ot_unknown_late [OF assms(2,4)] assms(5) by (auto simp: sql_api_def)
  ultimately show ?thesis by blast
qed

definition xa_done_memory :: outcome_memory where
  "xa_done_memory = after_call (after_call om_empty (run_call memory_api om_empty (BeginCall xa_record)))
     (run_call memory_api (after_call om_empty (run_call memory_api om_empty (BeginCall xa_record)))
       (CompleteCall ''op_1'' xa_result False (Aware 7) (Aware 7)))"

definition xa_done_tables :: outcome_tables where
  "xa_done_tables = after_call (after_call ot_empty (run_call sql_api ot_empty (BeginCall xa_record)))
     (run_call sql_api (after_call ot_empty (run_call sql_api ot_empty (BeginCall xa_record)))
       (CompleteCall ''op_1'' xa_result False (Aware 7) (Aware 7)))"

lemma xa_result_ok: "result_ok xa_result"
  by (simp add: result_ok_iff xa_result_def)

lemma xa_begin_memory: "store_run memory_api om_view om_empty
    (after_call om_empty (run_call memory_api om_empty (BeginCall xa_record)))"
  by (rule store_run.store_step [OF store_run.store_refl]) (simp add: om_view_empty xa_record_new)

lemma xa_begin_tables: "store_run sql_api ot_view ot_empty
    (after_call ot_empty (run_call sql_api ot_empty (BeginCall xa_record)))"
  by (rule store_run.store_step [OF store_run.store_refl]) (simp add: ot_view_empty xa_record_new)

lemma xa_done_memory_run: "store_run memory_api om_view om_empty xa_done_memory"
  unfolding xa_done_memory_def
  by (rule store_run.store_step [OF xa_begin_memory]) (simp add: xa_result_ok)

lemma xa_done_tables_run: "store_run sql_api ot_view ot_empty xa_done_tables"
  unfolding xa_done_tables_def
  by (rule store_run.store_step [OF xa_begin_tables]) (simp add: xa_result_ok)

lemma xa_done_memory_inv: "om_inv xa_done_memory"
  using memory_outcomes.run_keeps [OF xa_done_memory_run om_inv_empty] by blast

lemma xa_done_tables_inv: "ot_inv xa_done_tables"
  using sql_outcomes.run_keeps [OF xa_done_tables_run ot_inv_empty] by blast

definition xa_done :: outcome where
  "xa_done = finished xa_record OutCompleted (durable_result xa_result False) (Aware 7)"

lemma xa_done_views: "om_view xa_done_memory ''op_1'' = Some xa_done"
  "ot_view xa_done_tables ''op_1'' = Some xa_done"
  by code_simp+

theorem mark_unknown_differs_witness:
  "run_call sql_api xa_done_tables (UnknownCall ''op_1'' (durable_result xa_result False) (Aware 9) (Aware 9)) =
     Inl (OutcomeConflict ''outcome_unknown_update_failed'')"
  using mark_unknown_differs [OF xa_done_memory_inv xa_done_tables_inv xa_done_views, of
      "durable_result xa_result False" "Aware 9"]
  by (simp add: durable_result_ok xa_result_ok xa_done_def finished_def)

section \<open>Final outcomes and their audit events\<close>

definition settled :: "outcome \<Rightarrow> bool" where
  "settled r \<longleftrightarrow> oc_status r \<in> {OutCompleted, OutFailed}"

lemma sql_call_settled:
  assumes inv: "ot_inv s" and ok: "call_ok (ot_view s) c" and r: "ot_view s a = Some x" "settled x"
  shows "ot_view (after_call s (run_call sql_api s c)) a = Some x"
proof (cases "late_unknown (ot_view s) c")
  case True
  then obtain b result t t' y where "c = UnknownCall b result t t'" "ot_view s b = Some y"
    "oc_status y \<noteq> OutStarted"
    by (auto simp: late_unknown_def)
  then show ?thesis using ot_unknown_late [OF inv] r by (simp add: sql_api_def)
next
  case False
  from conjunct2 [OF sql_outcomes.refines [OF inv ok]] show ?thesis
    using r ok False
    by (cases rule: ledger_spec.cases) (auto simp: settled_def late_unknown_def)
qed

text \<open>
  In the SQL store a completed or failed outcome is final: whatever operations follow, its
  record, with its status, stored result and times, stays as it is.
\<close>

theorem sql_outcome_final:
  assumes "store_run sql_api ot_view s t" and "ot_inv s" and "ot_view s a = Some x" and "settled x"
  shows "ot_view t a = Some x"
  using assms
proof (induction rule: store_run.induct)
  case (store_step s t c)
  then show ?case using sql_outcomes.run_keeps sql_call_settled by blast
qed

lemma xa_unknown_run: "store_run sql_api ot_view xa_done_tables
    (after_call xa_done_tables (run_call sql_api xa_done_tables
       (UnknownCall ''op_1'' (durable_result xa_result False) (Aware 9) (Aware 9))))"
  by (rule store_run.store_step [OF store_run.store_refl])
    (simp add: xa_result_ok durable_result_ok)

theorem sql_outcome_final_witness:
  "ot_view (after_call xa_done_tables (run_call sql_api xa_done_tables
       (UnknownCall ''op_1'' (durable_result xa_result False) (Aware 9) (Aware 9)))) ''op_1'' = Some xa_done"
  by (rule sql_outcome_final [OF xa_unknown_run xa_done_tables_inv xa_done_views(2)])
    (simp add: settled_def xa_done_def finished_def)

lemma length_filter_key:
  "distinct (map f xs) \<Longrightarrow> length (filter (\<lambda>x. f x = a) xs) = (if a \<in> set (map f xs) then 1 else 0)"
proof (induction xs)
  case (Cons x xs)
  then show ?case by (cases "f x = a") (auto simp: filter_empty_conv)
qed simp

text \<open>
  C34. In every state the SQL store can reach, the outbox holds exactly one audit event for an
  operation whose outcome is no longer open, and none for an operation that is still running.
\<close>

theorem audit_exactly_once:
  assumes "store_run sql_api ot_view ot_empty s"
  shows "length (filter (\<lambda>w. event_operation w = a) (ot_outbox s)) =
           (if \<exists>x. ot_view s a = Some x \<and> oc_status x \<noteq> OutStarted then 1 else 0)"
proof -
  have inv: "ot_inv s" using sql_outcomes.run_keeps [OF assms ot_inv_empty] by blast
  then have "distinct (map event_operation (ot_outbox s))" by (simp add: ot_inv_def ot_events_ok_def)
  then have "length (filter (\<lambda>w. event_operation w = a) (ot_outbox s)) =
      (if a \<in> set (map event_operation (ot_outbox s)) then 1 else 0)"
    by (rule length_filter_key)
  then show ?thesis using sql_outcomes.audit [OF inv, of a] by (simp add: ot_audited_def)
qed

theorem audit_exactly_once_witness:
  "length (filter (\<lambda>w. event_operation w = ''op_1'') (ot_outbox xa_done_tables)) = 1"
  unfolding audit_exactly_once [OF xa_done_tables_run, of "''op_1''"]
  using xa_done_views(2) by (simp add: xa_done_def finished_def)

section \<open>At most one execution per idempotency scope\<close>

lemma lift_store_simps [simp]:
  "lift_store (Inr a) = Inr a" "lift_store (Inl (OutcomeConflict code)) = Inl (ReliabilityError code)"
  by (simp_all add: lift_store_def)

context outcome_store
begin

text \<open>A lease without a replay starts a new operation.\<close>

lemma begin_lease:
  assumes inv: "inv s" and now: "tz_aware now" and fresh: "view s (''op_'' @ uuid) = None"
    and run: "rel_begin h api consume (s, l) e d policy uuid now = (Inr lease, s1, l1)"
    and first: "ls_replay lease = None"
  shows "inv s1 \<and> ls_operation lease = ''op_'' @ uuid \<and>
         view s1 (''op_'' @ uuid) = Some (new_record h e policy (''op_'' @ uuid) now)"
proof -
  let ?r = "new_record h e policy (''op_'' @ uuid) now"
  have r: "new_outcome ?r" "oc_operation ?r = ''op_'' @ uuid"
    using now by (simp_all add: new_outcome_def new_record_def Let_def)
  have cok: "call_ok (view s) (BeginCall ?r)" using r fresh by simp
  obtain actual where actual: "api_begin api s ?r = Inr (actual, s1)" "oc_operation actual = ''op_'' @ uuid"
    "ls_operation lease = ''op_'' @ uuid"
    using run first
    by (auto simp: rel_begin_def Let_def lift_store_def split: if_splits prod.splits sum.splits
        option.splits outcome_error.splits)
  have "ledger_spec (view s) (BeginCall ?r) (Inr actual) (view s1)" "inv s1"
    using refines [OF inv cok] actual(1) by simp_all
  from this(1) have "view s1 (''op_'' @ uuid) = Some ?r"
  proof (rule spec_beginE)
    fix a x
    assume "Inr actual = Inr x" "view s a = Some x"
    then show ?thesis using key [OF inv, of a x] actual(2) fresh by auto
  qed (use r in auto)
  then show ?thesis using \<open>inv s1\<close> actual by blast
qed

text \<open>A call whose scope is taken never starts an operation.\<close>

lemma begin_taken:
  assumes inv: "inv s" and taken: "view s a = Some x" "oc_scope x = idempotency_scope h e"
    and fresh: "a \<noteq> ''op_'' @ uuid"
    and run: "rel_begin h api consume (s, l) e d policy uuid now = (Inr lease, s1, l1)"
  shows "ls_operation lease = a \<and> ls_replay lease = oc_result x \<and> oc_result x \<noteq> None \<and>
         payload_hash h (en_payload e) = oc_hash x"
proof -
  let ?r = "new_record h e policy (''op_'' @ uuid) now"
  have r: "oc_scope ?r = idempotency_scope h e" "oc_hash ?r = payload_hash h (en_payload e)"
    by (simp_all add: new_record_def Let_def)
  have a: "oc_operation x = a" by (rule key [OF inv taken(1)])
  note known = begin_known [OF inv taken(1), of ?r]
  show ?thesis using run known taken(2) r a fresh
    by (auto simp: rel_begin_def Let_def split: if_splits prod.splits option.splits)
qed

lemma single_execution:
  assumes inv: "inv s" and now: "tz_aware now" and fresh: "view s (''op_'' @ uuid) = None"
    and run: "rel_begin h api consume (s, l) e d policy uuid now = (Inr lease, s1, l1)"
    and first: "ls_replay lease = None" and later: "store_run api view s1 t"
    and scope: "idempotency_scope h e' = idempotency_scope h e"
    and fresh': "view t (''op_'' @ uuid') = None"
    and run': "rel_begin h api consume' (t, l2) e' d' policy' uuid' now' = (Inr lease', s2, l3)"
  shows "ls_replay lease' \<noteq> None \<and> ls_operation lease' = ls_operation lease \<and>
         payload_hash h (en_payload e') = payload_hash h (en_payload e)"
proof -
  let ?r = "new_record h e policy (''op_'' @ uuid) now"
  note started = begin_lease [OF inv now fresh run first]
  obtain y where y: "view t (''op_'' @ uuid) = Some y" "same_invocation ?r y" "inv t"
    using run_keeps [OF later] started by blast
  have "oc_scope y = idempotency_scope h e'" "oc_hash y = payload_hash h (en_payload e)"
    using y(2) scope by (simp_all add: same_invocation_def new_record_def Let_def)
  moreover have "''op_'' @ uuid \<noteq> ''op_'' @ uuid'" using y(1) fresh' by auto
  ultimately show ?thesis
    using begin_taken [OF y(3,1) _ _ run'] started by auto
qed

end

text \<open>
  With the SQL store, an idempotency scope is executed at most once: after one call has
  obtained a lease to execute, every later call with the same scope that obtains a lease gets
  the stored result of that operation to replay, and only for the same payload.
\<close>

theorem single_execution_sql:
  assumes "ot_inv s" and "tz_aware now" and "ot_view s (''op_'' @ uuid) = None"
    and "rel_begin h sql_api consume (s, l) e d policy uuid now = (Inr lease, s1, l1)"
    and "ls_replay lease = None" and "store_run sql_api ot_view s1 t"
    and "idempotency_scope h e' = idempotency_scope h e" and "ot_view t (''op_'' @ uuid') = None"
    and "rel_begin h sql_api consume' (t, l2) e' d' policy' uuid' now' = (Inr lease', s2, l3)"
  shows "ls_replay lease' \<noteq> None \<and> ls_operation lease' = ls_operation lease \<and>
         payload_hash h (en_payload e') = payload_hash h (en_payload e)"
  by (rule sql_outcomes.single_execution [OF assms])

definition xa_lease :: invocation_lease where
  "xa_lease = \<lparr>ls_operation = ''op_1'', ls_outcome = xa_record, ls_replay = None\<rparr>"

definition xa_started_tables :: outcome_tables where
  "xa_started_tables = after_call ot_empty (run_call sql_api ot_empty (BeginCall xa_record))"

definition xa_unlimited :: "unit limiter" where
  "xa_unlimited l scope cost = (True, l)"

definition xa_replayed :: invocation_lease where
  "xa_replayed = \<lparr>ls_operation = ''op_1'', ls_outcome = xa_done, ls_replay = oc_result xa_done\<rparr>"

lemma xa_first: "rel_begin host_ascii sql_api xa_unlimited (ot_empty, ()) xa_invocation xa_descriptor
    ''policy'' ''1'' (Aware 5) = (Inr xa_lease, xa_started_tables, ())"
  by code_simp

lemma xa_second: "rel_begin host_ascii sql_api xa_unlimited (xa_done_tables, ()) xa_invocation xa_descriptor
    ''policy'' ''2'' (Aware 9) = (Inr xa_replayed, xa_done_tables, ())"
  by code_simp

lemma xa_complete: "rel_complete sql_api xa_started_tables xa_lease xa_result False (Aware 7) (Aware 7) =
    Inr (xa_done, xa_done_tables)"
  by code_simp
lemma xa_complete_run: "store_run sql_api ot_view xa_started_tables xa_done_tables"
  unfolding xa_started_tables_def xa_done_tables_def
  by (rule store_run.store_step [OF store_run.store_refl]) (simp add: xa_result_ok)

lemma xa_done_view_other: "ot_view xa_done_tables ''op_2'' = None"
  by code_simp

theorem single_execution_sql_witness:
  "ls_replay xa_replayed \<noteq> None \<and> ls_operation xa_replayed = ''op_1''"
  using single_execution_sql [OF ot_inv_empty _ _ xa_first _ xa_complete_run refl _ xa_second]
  by (simp add: ot_view_empty xa_lease_def xa_done_view_other)

section \<open>Replay returns what was recorded\<close>

context outcome_store
begin

lemma replay_recorded:
  assumes "inv s" and "view s a = Some x" and "oc_scope x = idempotency_scope h e"
    and "oc_hash x = payload_hash h (en_payload e)" and "oc_result x = Some r"
  shows "rel_replay h api s e = Inr (Some r)"
  using find_some [OF assms(1,2)] assms(3-5) by (simp add: rel_replay_def)

end

text \<open>
  What a completed invocation returned can be replayed: after the SQL store has begun an
  invocation and completed it, every later replay of the same invocation returns its durable
  result, whatever else happened to the store.
\<close>

theorem completed_replay:
  assumes inv: "ot_inv s" and now: "tz_aware now" "tz_aware t1" and fresh: "ot_view s (''op_'' @ uuid) = None"
    and run: "rel_begin h sql_api consume (s, l) e d policy uuid now = (Inr lease, s1, l1)"
    and first: "ls_replay lease = None" and result: "result_ok result"
    and finish: "rel_complete sql_api s1 lease result preserve t1 t1 = Inr (r, s2)"
    and later: "store_run sql_api ot_view s2 t"
  shows "rel_replay h sql_api t e = Inr (Some (durable_result result preserve))"
proof -
  let ?a = "''op_'' @ uuid" and ?r = "new_record h e policy (''op_'' @ uuid) now"
  let ?st = "if rs_ok result then OutCompleted else OutFailed"
  let ?done = "finished ?r ?st (durable_result result preserve) t1"
  note started = sql_outcomes.begin_lease [OF inv now(1) fresh run first]
  then have inv1: "ot_inv s1" and v1: "ot_view s1 ?a = Some ?r" by blast+
  have "oc_status ?r = OutStarted" by (simp add: new_record_def Let_def)
  from sql_outcomes.complete_started [OF inv1 v1 this result now(2) now(2) refl, of preserve]
  have s2: "ot_inv s2" "ot_view s2 ?a = Some ?done"
    using finish started by (auto simp: rel_complete_def)
  have "ot_view t ?a = Some ?done"
    by (rule sql_outcome_final [OF later s2]) (simp add: settled_def finished_def)
  moreover have "ot_inv t" using sql_outcomes.run_keeps [OF later s2(1)] by blast
  ultimately show ?thesis
    by (intro sql_outcomes.replay_recorded [where a = ?a and x = ?done])
      (simp_all add: finished_def new_record_def Let_def)
qed

theorem completed_replay_witness:
  "rel_replay host_ascii sql_api xa_done_tables xa_invocation =
     Inr (Some (durable_result xa_result False))"
  using completed_replay [OF ot_inv_empty _ _ _ xa_first _ xa_result_ok xa_complete store_run.store_refl]
  by (simp add: ot_view_empty xa_lease_def)

section \<open>Idempotency scopes separate consumers\<close>

lemma bar_parse:
  "CHR ''|'' \<notin> set a \<Longrightarrow> CHR ''|'' \<notin> set b \<Longrightarrow> a @ CHR ''|'' # x = b @ CHR ''|'' # y \<Longrightarrow> a = b \<and> x = y"
proof (induction a arbitrary: b)
  case Nil
  then show ?case by (cases b) auto
next
  case (Cons c a)
  then show ?case by (cases b) auto
qed

definition scope_key :: "invocation \<Rightarrow> string" where
  "scope_key e = (case en_idempotency e of None \<Rightarrow> en_request e
     | Some k \<Rightarrow> if k = [] then en_request e else k)"

text \<open>The fields before the key, whose patterns and renderings contain no bar.\<close>

definition bar_free :: "hostlib \<Rightarrow> invocation \<Rightarrow> bool" where
  "bar_free h e \<longleftrightarrow> CHR ''|'' \<notin> set (tn_id (ci_tenant (en_identity e))) \<and>
     CHR ''|'' \<notin> set (consumer_fingerprint h e) \<and> CHR ''|'' \<notin> set (en_release e) \<and>
     CHR ''|'' \<notin> set (en_capability e) \<and> CHR ''|'' \<notin> set (str_of_int (en_major e))"

text \<open>
  Two invocations share an idempotency scope only when they come from the same tenant and
  the same consumer, ask for the same capability version of the same release and carry the
  same key, unless the digest collides on them.
\<close>

theorem idempotency_scope_separates:
  assumes scope: "idempotency_scope h e = idempotency_scope h e'"
    and digest: "sha256_hex h (idempotency_material h e) = sha256_hex h (idempotency_material h e') \<Longrightarrow>
                 idempotency_material h e = idempotency_material h e'"
    and e: "bar_free h e" and e': "bar_free h e'"
  shows "tn_id (ci_tenant (en_identity e)) = tn_id (ci_tenant (en_identity e')) \<and>
         consumer_fingerprint h e = consumer_fingerprint h e' \<and> en_release e = en_release e' \<and>
         en_capability e = en_capability e' \<and> str_of_int (en_major e) = str_of_int (en_major e') \<and>
         scope_key e = scope_key e'"
proof -
  have material: "idempotency_material h x = tn_id (ci_tenant (en_identity x)) @ CHR ''|'' #
      (consumer_fingerprint h x @ CHR ''|'' # (en_release x @ CHR ''|'' #
      (en_capability x @ CHR ''|'' # (str_of_int (en_major x) @ CHR ''|'' # scope_key x))))" for x
    by (simp only: idempotency_material_def scope_key_def Let_def append.simps append_assoc)
  have "idempotency_material h e = idempotency_material h e'"
    using scope digest by (simp add: idempotency_scope_def)
  note eq1 = this [unfolded material]
  have b: "CHR ''|'' \<notin> set (tn_id (ci_tenant (en_identity x)))"
    "CHR ''|'' \<notin> set (consumer_fingerprint h x)" "CHR ''|'' \<notin> set (en_release x)"
    "CHR ''|'' \<notin> set (en_capability x)" "CHR ''|'' \<notin> set (str_of_int (en_major x))" if "bar_free h x" for x
    using that by (simp_all add: bar_free_def)
  note p1 = bar_parse [OF b(1) [OF e] b(1) [OF e'] eq1]
  note p2 = bar_parse [OF b(2) [OF e] b(2) [OF e'] conjunct2 [OF p1]]
  note p3 = bar_parse [OF b(3) [OF e] b(3) [OF e'] conjunct2 [OF p2]]
  note p4 = bar_parse [OF b(4) [OF e] b(4) [OF e'] conjunct2 [OF p3]]
  note p5 = bar_parse [OF b(5) [OF e] b(5) [OF e'] conjunct2 [OF p4]]
  show ?thesis using p1 p2 p3 p4 p5 by blast
qed

definition xa_retry :: invocation where
  "xa_retry = xa_invocation\<lparr>en_request := ''r2''\<rparr>"

lemma xa_retry_facts: "bar_free host_ascii xa_invocation" "bar_free host_ascii xa_retry"
  "idempotency_scope host_ascii xa_invocation = idempotency_scope host_ascii xa_retry"
  "idempotency_material host_ascii xa_invocation = idempotency_material host_ascii xa_retry"
  by code_simp+

theorem idempotency_scope_separates_witness: "scope_key xa_invocation = scope_key xa_retry"
  using idempotency_scope_separates [OF xa_retry_facts(3,4,1,2)] by blast

end
