(* ===== verification/GatewayExamples.thy ===== *)
theory GatewayExamples
  imports GatewayLemmas AuthorizationProperties ReliabilityProperties
begin

text \<open>A gateway with one capability, one provider and empty stores, for the concrete runs.\<close>

definition xa_hosts :: hosts where
  "xa_hosts = \<lparr>hs_lib = host_ascii, hs_regex = no_regex, hs_sub = (\<lambda>_ _ text. (text, 0))\<rparr>"

definition xa_provider :: provider where
  "xa_provider = \<lparr>rg_capability = ''craft.plan.save'', rg_version = 1, rg_owner = ''craft'',
     rg_permissions = [''craft.use''], rg_transactional = False,
     rg_handler = \<lparr>hd_coroutine = False, hd_run = (\<lambda>payload context. Returns (PlainData (JObj payload)))\<rparr>\<rparr>"

definition xa_published :: catalog_release where
  "xa_published = \<lparr>rl_id = ''rel'', rl_hash = [], rl_descriptors = [xa_descriptor], rl_providers = [],
     rl_created = Aware 0\<rparr>"

definition xa_reliability :: "(outcome_tables, unit) reliability_service" where
  "xa_reliability = \<lparr>rv_api = sql_api, rv_limiter = xa_unlimited, rv_enlists = True\<rparr>"

definition xa_gateway :: "(outcome_tables, unit, approval_memory, operation_table) gateway" where
  "xa_gateway = \<lparr>gt_catalog = (\<lambda>i. if i = ''rel'' then Some xa_published else None),
     gt_registry = \<lparr>rg_items = [((''craft.plan.save'', 1), xa_provider)], rg_artifacts = []\<rparr>,
     gt_release = Some ''rel'', gt_policy = server_policy host_ascii xa_hooks (Some memory_approvals),
     gt_reliability = Some xa_reliability, gt_operations = Some sql_operations,
     gt_max_streams = 2, gt_metrics_limit = 10\<rparr>"

definition xa_snapshot :: memory_snapshot where
  "xa_snapshot = \<lparr>ms_rss = 1, ms_current = None, ms_limit = None, ms_ratio = None, ms_level = Normal\<rparr>"

definition xa_env :: invocation_env where
  "xa_env = \<lparr>iv_now = Aware 5, iv_approve = Aware 5, iv_begin = Aware 5, iv_dispatch = Aware 6,
     iv_finish = Aware 7, iv_finish_after = Aware 7, iv_before = xa_snapshot, iv_after = xa_snapshot,
     iv_admission_timeout = 0, iv_wakeups = [], iv_operation_id = ''1'', iv_async_id = ''2'',
     iv_stream_id = ''s1'', iv_delivery = InTime\<rparr>"

definition xa_world :: "(outcome_tables, unit, approval_memory, operation_table) gateway_world" where
  "xa_world = \<lparr>gw_store = ot_empty, gw_limits = (), gw_policy = [], gw_operations = [],
     gw_admission = \<lparr>ad_tenants = [], ad_consumers = [], ad_capabilities = []\<rparr>, gw_metrics = [],
     gw_streams = [], gw_trace = []\<rparr>"

definition xa_ran :: "(outcome_tables, unit, approval_memory, operation_table) gateway_world" where
  "xa_ran = snd (invoke xa_hosts xa_gateway xa_env xa_invocation xa_world)"

definition xa_answered :: cap_result where
  "xa_answered = xa_result\<lparr>rs_operation := Some \<lparr>op_id = ''op_1'', op_status = OpCompleted, op_version = 1\<rparr>\<rparr>"

lemma xa_run: "invoke xa_hosts xa_gateway xa_env xa_invocation xa_world = (Replies xa_answered, xa_ran)"
proof -
  have "fst (invoke xa_hosts xa_gateway xa_env xa_invocation xa_world) = Replies xa_answered" by code_simp
  then show ?thesis by (simp add: xa_ran_def prod_eq_iff)
qed

lemma xa_started_inv: "ot_inv xa_started_tables"
  using sql_outcomes.run_keeps [OF xa_begin_tables ot_inv_empty] by (simp add: xa_started_tables_def)

lemma xa_started_view: "ot_view xa_started_tables (ls_operation xa_lease) = Some xa_record"
  by code_simp

end
