(* ===== verification/GatewayProperties.thy ===== *)
theory GatewayProperties
  imports GatewayExamples
begin

text \<open>What the gateway guarantees of one invocation.\<close>

section \<open>The guards before a provider\<close>

definition effects_of ::
  "('s, 'l, 'p, 'o) gateway_world \<Rightarrow> ('s, 'l, 'p, 'o) gateway_world \<Rightarrow> effect list" where
  "effects_of w w' = drop (length (gw_trace w)) (gw_trace w')"

lemma effects_of_append [simp]: "gw_trace w' = gw_trace w @ effects \<Longrightarrow> effects_of w w' = effects"
  by (simp add: effects_of_def)

lemma effects_of_same [simp]: "gw_trace w' = gw_trace w \<Longrightarrow> effects_of w w' = []"
  by (simp add: effects_of_def)

lemma invoke_cases:
  assumes "invoke hs g iv e w = (reply, w')"
  obtains dp w1 where "dispatch hs g iv e w = (Go dp, w1)" "execute hs g iv e dp w1 = (reply, w')"
    "gw_trace w1 = gw_trace w"
  | "\<And>dp. fst (dispatch hs g iv e w) \<noteq> Go dp" "w' = snd (dispatch hs g iv e w)" "gw_trace w' = gw_trace w"
proof -
  obtain s w1 where s: "dispatch hs g iv e w = (s, w1)" by fastforce
  have trace: "gw_trace w1 = gw_trace w" using dispatch_trace [OF s] .
  show ?thesis
  proof (cases s)
    case (Go dp)
    then have "execute hs g iv e dp w1 = (reply, w')" using assms s by (simp add: invoke_def)
    with s Go trace show ?thesis using that(1) by blast
  next
    case (Answer r)
    then have "w' = w1" using assms s by (simp add: invoke_def)
    with s Answer trace show ?thesis by (intro that(2)) simp_all
  next
    case (Raise x)
    then have "w' = w1" using assms s by (simp add: invoke_def)
    with s Raise trace show ?thesis by (intro that(2)) simp_all
  qed
qed

lemma invoke_calls:
  assumes "invoke hs g iv e w = (reply, w')" and "ProviderCalled payload context \<in> set (effects_of w w')"
  obtains dp w1 where "dispatch hs g iv e w = (Go dp, w1)" "execute hs g iv e dp w1 = (reply, w')"
    "payload = en_payload e" "context = dp_context dp" "length (filter is_call (effects_of w w')) = 1"
  using assms(1)
proof (rule invoke_cases)
  fix dp w1
  assume run: "dispatch hs g iv e w = (Go dp, w1)" "execute hs g iv e dp w1 = (reply, w')"
    "gw_trace w1 = gw_trace w"
  from execute_trace [OF run(2)] obtain effects where effects: "gw_trace w' = gw_trace w1 @ effects"
    and once: "length (filter is_call effects) \<le> 1"
    and only: "\<forall>x\<in>set effects. is_call x \<longrightarrow> x = ProviderCalled (en_payload e) (dp_context dp)"
    by blast
  have same: "effects_of w w' = effects" using effects run(3) by simp
  with assms(2) have in_effects: "ProviderCalled payload context \<in> set effects" by simp
  then have "filter is_call effects \<noteq> []" by (force simp: filter_empty_conv)
  with once have "length (filter is_call effects) = 1" by (cases "filter is_call effects") auto
  with that [OF run(1,2)] only in_effects show thesis by (fastforce simp: same)
next
  assume "gw_trace w' = gw_trace w"
  with assms(2) show thesis by simp
qed

lemma context_of:
  assumes "build_context hs e a lease operation = Inr context"
  shows "lc_permissions context = permissions_of a" and "lc_resources context = resources_of a"
    and "lc_outcome_operation context = map_option ls_operation lease"
    and "lc_identity context = en_identity e"
  using assms by (auto simp: build_context_def bindr_eq_Inr Let_def)

text \<open>
  C16. A provider is called at most once by an invocation, with the envelope's payload, and only
  behind every guard: the envelope names the bound release, which offers the capability, not
  retired, and whose provider artifact is the registered one; the deadline has not passed; the
  consumer is exposed and did not override its identity; the policy authorized the invocation, the
  payload satisfies the input schema and its byte limit, the expected resource version and the
  idempotency key agree with the payload; the policy approved it; memory pressure allows it; and a
  write runs under a lease with no outcome of its scope to replay, in a transactional provider when its
  consistency is strong. The
  context carries exactly the authorized permissions and resources.
\<close>

theorem provider_called_behind_guards:
  assumes "invoke hs g iv e w = (reply, w')" and "ProviderCalled payload context \<in> set (effects_of w w')"
  shows "\<exists>d p a release. gt_release g = Some (en_release e) \<and> gt_catalog g (en_release e) = Some release \<and>
    release_descriptor release (en_capability e) (en_major e) = Some d \<and> cd_lifecycle d \<noteq> Retired \<and>
    registry_get (gt_registry g) (en_capability e) (en_major e) = Inr p \<and>
    verify_provider_artifact (gt_registry g) release p = Inr () \<and>
    opt_ok (\<lambda>t. tz_aware t \<and> instant (iv_now iv) < instant t) (en_deadline e) \<and>
    \<not> identity_overridden e \<and> exposure_allows (cd_exposure d) (cn_type (ci_consumer (en_identity e))) \<and>
    py_authorize (gt_policy g) d e (rg_permissions p) (iv_now iv) = Inr a \<and>
    validate_payload (hs_lib hs) (hs_regex hs) (cd_input d) (JObj (en_payload e)) ''payload'' = Inr () \<and>
    int (length (json_dumps (hs_lib hs) (JObj (en_payload e)))) \<le> eb_max_input (cd_budget d) \<and>
    concurrency_error (hs_lib hs) d e = None \<and> idempotency_key_ok e \<and>
    fst (py_approve (gt_policy g) (gw_policy w) d e a (iv_approve iv)) = Inr () \<and>
    \<not> under_pressure (iv_before iv) (slot_request d e) \<and>
    (is_write d \<longrightarrow> (cd_consistency d = Strong \<longrightarrow> rg_transactional p) \<and> lc_outcome_operation context \<noteq> None \<and>
       rel_replay (hs_lib hs) (rv_api (the (gt_reliability g))) (gw_store w) e = Inr None) \<and>
    payload = en_payload e \<and> lc_identity context = en_identity e \<and>
    lc_permissions context = permissions_of a \<and> lc_resources context = resources_of a \<and>
    length (filter is_call (effects_of w w')) = 1"
proof -
  obtain dp w1 where go: "dispatch hs g iv e w = (Go dp, w1)"
    and call: "payload = en_payload e" "context = dp_context dp" "length (filter is_call (effects_of w w')) = 1"
    using assms by (rule invoke_calls)
  from go obtain d p a wa slot wb lease wc operation where
    resolved: "stage_resolve g iv e = Go (d, p)" and authorized: "stage_authorize hs g iv d p e = Go a"
    and input: "stage_input hs d e = Go ()" and services: "stage_services g d e = Go ()"
    and replay: "stage_replay hs g d p e a w = Go ()" and approved: "stage_approve hs g iv d e a w = (Go (), wa)"
    and slot: "stage_acquire hs g iv d e a wa = (Go slot, wb)" and lease: "stage_begin hs g iv d e a wb = (Go lease, wc)"
    and ctx: "stage_context hs e d p a slot lease operation = Go dp"
    by (rule dispatchedE)
  note env = resolve_envelope_passed [OF stage_resolve_passed(2) [OF resolved]]
  from resolve_passed [OF env(3)] env(2) obtain release where
    release: "gt_catalog g (en_release e) = Some release"
      "release_descriptor release (en_capability e) (en_major e) = Some d"
      "registry_get (gt_registry g) (en_capability e) (en_major e) = Inr p"
      "verify_provider_artifact (gt_registry g) release p = Inr ()"
    by auto
  from stage_context_passed [OF ctx] call(2) have built: "build_context hs e a lease operation = Inr context"
    by auto
  have pressure: "\<not> under_pressure (iv_before iv) (slot_request d e)"
    using stage_acquire_passed [OF slot] acquire_slot_admits by blast
  have "is_write d \<Longrightarrow> lease \<noteq> None" using stage_begin_passed [OF lease] by auto
  then have "is_write d \<longrightarrow> (cd_consistency d = Strong \<longrightarrow> rg_transactional p) \<and> lc_outcome_operation context \<noteq> None \<and>
       rel_replay (hs_lib hs) (rv_api (the (gt_reliability g))) (gw_store w) e = Inr None"
    using replay context_of(3) [OF built]
    by (auto simp: stage_replay_passed strong_without_transaction_def)
  moreover have "fst (py_approve (gt_policy g) (gw_policy w) d e a (iv_approve iv)) = Inr ()"
    using approved by (auto simp: stage_approve_passed)
  ultimately show ?thesis
    using env release pressure built call(1,3) stage_resolve_passed [OF resolved] stage_input_passed [OF input]
      authorized services context_of [OF built]
    by (intro exI [of _ d] exI [of _ p] exI [of _ a] exI [of _ release])
      (simp add: stage_authorize_passed stage_services_passed)
qed

lemma xa_called: "\<exists>payload context. ProviderCalled payload context \<in> set (effects_of xa_world xa_ran)"
proof -
  have "list_ex is_call (effects_of xa_world xa_ran)" by code_simp
  then obtain x where "x \<in> set (effects_of xa_world xa_ran)" "is_call x" unfolding list_ex_iff by blast
  moreover from this(2) obtain payload ctx where "x = ProviderCalled payload ctx" by (cases x) simp_all
  ultimately show ?thesis by blast
qed

theorem provider_called_behind_guards_witness:
  "\<exists>d (p :: provider) a release. gt_catalog xa_gateway (en_release xa_invocation) = Some release \<and>
     release_descriptor release (en_capability xa_invocation) (en_major xa_invocation) = Some d \<and>
     py_authorize (gt_policy xa_gateway) d xa_invocation (rg_permissions p) (iv_now xa_env) = Inr a \<and>
     fst (py_approve (gt_policy xa_gateway) (gw_policy xa_world) d xa_invocation a (iv_approve xa_env)) = Inr () \<and>
     length (filter is_call (effects_of xa_world xa_ran)) = 1"
proof -
  obtain payload ctx where "ProviderCalled payload ctx \<in> set (effects_of xa_world xa_ran)"
    using xa_called by blast
  from provider_called_behind_guards [OF xa_run this] show ?thesis by blast
qed

end
