(* ===== verification/GatewayIdempotency.thy ===== *)
theory GatewayIdempotency
  imports GatewayProperties
begin

text \<open>
  A write runs at most once per idempotency scope, over any sequence of invocations. The argument
  needs of an outcome store only that it remembers every scope it has begun; the locale states
  it, and both stores keep it.
\<close>

section \<open>Stores that remember scopes\<close>

locale scope_memory =
  fixes api :: "'s outcome_api" and scopes :: "'s \<Rightarrow> string set" and inv :: "'s \<Rightarrow> bool"
  assumes found: "inv s \<Longrightarrow> scope \<in> scopes s \<Longrightarrow> api_find api s scope \<noteq> Inr None"
    and begun: "inv s \<Longrightarrow> oc_operation r \<noteq> [] \<Longrightarrow> api_begin api s r = Inr (r', s') \<Longrightarrow>
      inv s' \<and> insert (oc_scope r) (scopes s) \<subseteq> scopes s'"
    and completed: "inv s \<Longrightarrow> api_complete api s operation result preserve now after = Inr (r, s') \<Longrightarrow>
      inv s' \<and> scopes s \<subseteq> scopes s'"
    and unknown: "inv s \<Longrightarrow> api_unknown api s operation result now after = Inr (r, s') \<Longrightarrow>
      inv s' \<and> scopes s \<subseteq> scopes s'"
begin

definition grows :: "'s \<Rightarrow> 's \<Rightarrow> bool" where
  "grows s s' \<longleftrightarrow> (inv s \<longrightarrow> inv s' \<and> scopes s \<subseteq> scopes s')"

lemma grows_refl [simp]: "grows s s"
  by (simp add: grows_def)

lemma grows_trans: "grows s t \<Longrightarrow> grows t u \<Longrightarrow> grows s u"
  by (auto simp: grows_def)

lemma known_scope: "inv s \<Longrightarrow> idempotency_scope h e \<in> scopes s \<Longrightarrow> rel_replay h api s e \<noteq> Inr None"
  using found [of s "idempotency_scope h e"]
  by (auto simp: rel_replay_def split: sum.splits option.splits)

lemma begin_grows:
  assumes "rel_begin h api limiter (s, l) e d policy uuid now = (r, s', l')"
  shows "grows s s'" and "inv s \<Longrightarrow> r = Inr lease \<Longrightarrow> idempotency_scope h e \<in> scopes s'"
proof -
  let ?r = "new_record h e policy (''op_'' @ uuid) now"
  have new: "oc_operation ?r \<noteq> []" "oc_scope ?r = idempotency_scope h e"
    by (simp_all add: new_record_def Let_def)
  from assms have cases: "(s' = s \<and> isl r) \<or> (\<exists>actual. api_begin api s ?r = Inr (actual, s'))"
    by (auto simp: rel_begin_def lift_store_def Let_def
        split: if_splits prod.splits sum.splits outcome_error.splits option.splits)
  show "grows s s'" using cases begun [OF _ new(1)] by (auto simp: grows_def)
  show "idempotency_scope h e \<in> scopes s'" if "inv s" "r = Inr lease"
    using cases begun [OF that(1) new(1)] that(2) new(2) by auto
qed

lemma complete_grows: "rel_complete api s lease result preserve now after = Inr (r, s') \<Longrightarrow> grows s s'"
  using completed
  by (auto simp: rel_complete_def lift_store_def grows_def split: sum.splits outcome_error.splits)

lemma unknown_grows: "rel_mark_unknown api s lease result now after = Inr (r, s') \<Longrightarrow> grows s s'"
  using unknown
  by (auto simp: rel_mark_unknown_def lift_store_def grows_def split: sum.splits outcome_error.splits)

lemma finalize_unknown_grows:
  "rv_api rv = api \<Longrightarrow> finalize_unknown rv s lease result now after = (r, s') \<Longrightarrow> grows s s'"
  using unknown_grows by (auto simp: finalize_unknown_def Let_def split: sum.splits prod.splits)

lemma finalize_grows:
  assumes "rv_api rv = api"
    and "finalize_invocation rv s lease result transaction preserve now after = ((r, s'), effects)"
  shows "grows s s'"
proof (cases "rel_complete api s lease result preserve now after")
  case (Inl err)
  with assms have "finalize_unknown rv s lease result now after = (r, s')"
    by (simp add: finalize_invocation_def)
  then show ?thesis by (rule finalize_unknown_grows [OF assms(1)])
next
  case (Inr pair)
  then obtain r1 s1 where r1: "rel_complete api s lease result preserve now after = Inr (r1, s1)"
    by (cases pair) simp
  then have s1: "grows s s1" by (rule complete_grows)
  from assms r1 have "s' = s1 \<or> finalize_unknown rv s1 lease result now after = (r, s') \<or>
      finalize_unknown rv s lease result now after = (r, s')"
    by (auto simp: finalize_invocation_def split: option.splits commit_fate.splits if_splits)
  with s1 show ?thesis using finalize_unknown_grows [OF assms(1)] grows_trans by blast
qed

text \<open>The growth of the store over the stages of an invocation.\<close>

definition world_grows :: "('s, 'l, 'p, 'o) gateway_world \<Rightarrow> ('s, 'l, 'p, 'o) gateway_world \<Rightarrow> bool" where
  "world_grows w w' \<longleftrightarrow> grows (gw_store w) (gw_store w')"

lemma world_grows_preorder: "reflp world_grows" "transp world_grows"
  by (auto simp: world_grows_def reflp_def transp_def intro: grows_trans)

lemma operation_failed_grows:
  assumes "gt_reliability g = Some rv" and "rv_api rv = api"
    and "operation_failed g iv e lease w = (r, w')"
  shows "world_grows w w'"
  using assms complete_grows
  by (auto simp: operation_failed_def world_grows_def split: sum.splits option.splits prod.splits)

lemma dispatch_grows:
  assumes "gt_reliability g = Some rv" and "rv_api rv = api"
  shows "steps world_grows (dispatch hs g iv e)"
proof (rule dispatch_steps [OF world_grows_preorder])
  fix d a lease
  show "steps world_grows (stage_approve hs g iv d e a)"
    by (auto simp: steps_def world_grows_def stage_approve_def split: prod.split sum.split policy_error.split)
  show "steps world_grows (stage_acquire hs g iv d e a)"
    by (auto simp: steps_def world_grows_def stage_acquire_def record_metric_def Let_def
        split: prod.split sum.split admission_result.split)
  show "steps world_grows (stage_begin hs g iv d e a)"
  proof (rule stepsI)
    fix w r w'
    assume run: "stage_begin hs g iv d e a w = (r, w')"
    obtain x s l where x: "rel_begin (hs_lib hs) api (rv_limiter rv) (gw_store w, gw_limits w) e d
        (policy_of a) (iv_operation_id iv) (iv_begin iv) = (x, s, l)"
      by (metis prod.exhaust)
    have "gw_store w' = gw_store w \<or> gw_store w' = s"
      using run x assms by (auto simp: stage_begin_def Let_def split: if_splits sum.splits option.splits)
    with begin_grows(1) [OF x] show "world_grows w w'" by (auto simp: world_grows_def)
  qed
  show "steps world_grows (stage_operation g iv d e a lease)"
    by (rule stepsI) (auto simp: stage_operation_def world_grows_def
        dest!: operation_failed_grows [OF assms] split: if_splits sum.splits prod.splits)
  show "world_grows w (release_slot l w)" for l w
    by (simp add: world_grows_def release_slot_def)
qed

lemma settle_grows:
  assumes "gt_reliability g = Some rv" and "rv_api rv = api"
    and "settle hs g iv e dp output transaction result w = (reply, w')"
  shows "world_grows w w'"
proof -
  obtain r w1 where settled: "settle_operation g iv e dp result w = (r, w1)" by fastforce
  then have same: "gw_store w1 = gw_store w"
    by (auto simp: settle_operation_def split: option.splits if_splits sum.splits)
  have metric: "reply_with_metric hs g iv e dp n r w = (reply, w') \<Longrightarrow> gw_store w' = gw_store w" for n r w
    by (auto simp: reply_with_metric_def record_metric_def Let_def split: sum.splits)
  show ?thesis
  proof (cases "dp_lease dp")
    case None
    with assms(3) settled same metric show ?thesis
      by (cases "transaction = None") (auto simp: settle_def world_grows_def emit_def)
  next
    case (Some lease)
    obtain final s effects where fin: "finalize_invocation rv (gw_store w1) lease
        (lease_reference lease (dp_operation dp) r) transaction
        (cd_replay (dp_descriptor dp) = Projected) (iv_finish iv) (iv_finish_after iv) = ((final, s), effects)"
      by (metis prod.exhaust)
    from assms(1,3) settled Some fin metric have "gw_store w' = s"
      by (cases "rs_status final = OutcomeUnknown") (auto simp: settle_def Let_def release_slot_def emit_def)
    with finalize_grows [OF assms(2) fin] same show ?thesis by (simp add: world_grows_def)
  qed
qed

lemma execute_grows:
  assumes "gt_reliability g = Some rv" and "rv_api rv = api" and "execute hs g iv e dp w = (reply, w')"
  shows "world_grows w w'"
proof -
  let ?co = "run_provider hs g iv e dp (length (gw_streams w))"
  show ?thesis
  proof (cases "co_value ?co = Inl Cancelled")
    case True
    with assms(3) show ?thesis
      by (auto simp: execute_def world_grows_def record_metric_def release_slot_def emit_def Let_def)
  next
    case False
    with assms(3) have finish: "finish_call hs g iv e dp ?co (emit (co_effects ?co) w) = (reply, w')"
      by (simp add: execute_def Let_def)
    have same: "gw_store (clean_up dp ?co (emit (co_effects ?co) w)) = gw_store w"
      by (simp add: clean_up_def release_slot_def emit_def Let_def)
    from finish show ?thesis
    proof (rule finish_call_cases)
      fix result stream v
      assume "open_stream hs iv e dp stream v result (clean_up dp ?co (emit (co_effects ?co) w)) = (reply, w')"
      then have "gw_store w' = gw_store (clean_up dp ?co (emit (co_effects ?co) w))"
        by (auto simp: open_stream_def Let_def split: sum.splits)
      with same show ?thesis by (simp add: world_grows_def)
    next
      fix result t
      assume "settle hs g iv e dp (co_bytes ?co) (if isl (co_value ?co) then None else co_transaction ?co)
        result (clean_up dp ?co (emit (co_effects ?co) w)) = (reply, w')"
      from settle_grows [OF assms(1,2) this] same show ?thesis by (simp add: world_grows_def)
    qed (simp add: same world_grows_def)
  qed
qed

lemma invoke_grows:
  assumes "gt_reliability g = Some rv" and "rv_api rv = api" and "invoke hs g iv e w = (reply, w')"
  shows "world_grows w w'"
  using assms(3)
proof (rule invoke_cases)
  fix dp w1
  assume "dispatch hs g iv e w = (Go dp, w1)" "execute hs g iv e dp w1 = (reply, w')"
  with stepsD [OF dispatch_grows [OF assms(1,2)]] execute_grows [OF assms(1,2)] world_grows_preorder(2)
  show ?thesis by (blast dest: transpD)
next
  assume "w' = snd (dispatch hs g iv e w)"
  with dispatch_grows [OF assms(1,2)] show ?thesis by (simp add: steps_def)
qed

text \<open>A leased call: its scope was unknown before and is remembered after.\<close>

lemma leased_call_scope:
  assumes "gt_reliability g = Some rv" and "rv_api rv = api" and "inv (gw_store w)"
    and run: "invoke hs g iv e w = (reply, w')"
    and call: "ProviderCalled payload c \<in> set (effects_of w w')" and leased: "lc_outcome_operation c \<noteq> None"
  shows "rel_replay (hs_lib hs) api (gw_store w) e = Inr None"
    and "idempotency_scope (hs_lib hs) e \<in> scopes (gw_store w')"
proof -
  obtain dp w1 where go: "dispatch hs g iv e w = (Go dp, w1)" and exec: "execute hs g iv e dp w1 = (reply, w')"
    and c: "c = dp_context dp"
    using run call by (rule invoke_calls)
  from go obtain d p a wa slot wb lease wc operation where
    replay: "stage_replay hs g d p e a w = Go ()" and approved: "stage_approve hs g iv d e a w = (Go (), wa)"
    and slot: "stage_acquire hs g iv d e a wa = (Go slot, wb)" and lease: "stage_begin hs g iv d e a wb = (Go lease, wc)"
    and operation: "stage_operation g iv d e a lease wc = (Go operation, w1)"
    and ctx: "stage_context hs e d p a slot lease operation = Go dp"
    by (rule dispatchedE)
  have store: "gw_store wb = gw_store w" "gw_store w1 = gw_store wc"
    using approved stage_acquire_passed [OF slot] stage_operation_passed [OF operation]
    by (auto simp: stage_approve_passed)
  from stage_context_passed [OF ctx] context_of(3) leased c have "lease \<noteq> None" by fastforce
  with stage_begin_passed [OF lease] obtain l s limits where wr: "is_write d"
    and begun: "rel_begin (hs_lib hs) api (rv_limiter rv) (gw_store wb, gw_limits wb) e d (policy_of a)
      (iv_operation_id iv) (iv_begin iv) = (Inr l, s, limits)" and wc: "wc = wb\<lparr>gw_store := s, gw_limits := limits\<rparr>"
    using assms(1,2) by auto
  show "rel_replay (hs_lib hs) api (gw_store w) e = Inr None"
    using replay wr assms(1,2) by (simp add: stage_replay_passed)
  have "idempotency_scope (hs_lib hs) e \<in> scopes (gw_store w1)" and "inv (gw_store w1)"
    using begin_grows [OF begun] assms(3) store wc by (auto simp: grows_def)
  with execute_grows [OF assms(1,2) exec] show "idempotency_scope (hs_lib hs) e \<in> scopes (gw_store w')"
    by (auto simp: world_grows_def grows_def)
qed

end

section \<open>Runs of invocations\<close>

text \<open>The invocations of a run, each with the effects it had.\<close>

fun run_gateway ::
  "hosts \<Rightarrow> ('s, 'l, 'p, 'o) gateway \<Rightarrow> (invocation_env \<times> invocation) list \<Rightarrow> ('s, 'l, 'p, 'o) gateway_world \<Rightarrow>
   (invocation \<times> effect list) list \<times> ('s, 'l, 'p, 'o) gateway_world" where
  "run_gateway hs g [] w = ([], w)"
| "run_gateway hs g ((iv, e) # calls) w =
     (case invoke hs g iv e w of (reply, w1) \<Rightarrow>
      case run_gateway hs g calls w1 of (history, w2) \<Rightarrow> ((e, effects_of w w1) # history, w2))"

fun leased_call :: "effect \<Rightarrow> bool" where
  "leased_call (ProviderCalled payload c) = (lc_outcome_operation c \<noteq> None)"
| "leased_call _ = False"

definition executed :: "hostlib \<Rightarrow> string \<Rightarrow> invocation \<times> effect list \<Rightarrow> bool" where
  "executed h scope entry \<longleftrightarrow>
     (case entry of (e, effects) \<Rightarrow> idempotency_scope h e = scope \<and> list_ex leased_call effects)"

context scope_memory
begin

lemma executed_scope:
  assumes "gt_reliability g = Some rv" and "rv_api rv = api" and "inv (gw_store w)"
    and "invoke hs g iv e w = (reply, w')" and "executed (hs_lib hs) scope (e, effects_of w w')"
  shows "scope \<notin> scopes (gw_store w)" and "scope \<in> scopes (gw_store w')"
proof -
  from assms(5) obtain x where x: "x \<in> set (effects_of w w')" "leased_call x"
    and scope: "idempotency_scope (hs_lib hs) e = scope"
    by (auto simp: executed_def list_ex_iff)
  from x(2) obtain payload c where "x = ProviderCalled payload c" "lc_outcome_operation c \<noteq> None"
    by (cases x) simp_all
  with leased_call_scope [OF assms(1-4)] x(1) scope known_scope [OF assms(3)]
  show "scope \<notin> scopes (gw_store w)" and "scope \<in> scopes (gw_store w')" by blast+
qed

lemma run_executes_once:
  assumes "gt_reliability g = Some rv" and "rv_api rv = api"
  shows "inv (gw_store w) \<Longrightarrow>
    length (filter (executed (hs_lib hs) scope) (fst (run_gateway hs g calls w))) \<le>
      (if scope \<in> scopes (gw_store w) then 0 else 1)"
proof (induction calls arbitrary: w)
  case (Cons call calls)
  obtain iv e where call: "call = (iv, e)" by fastforce
  obtain reply w1 where run: "invoke hs g iv e w = (reply, w1)" by fastforce
  have grown: "inv (gw_store w1)" "scopes (gw_store w) \<subseteq> scopes (gw_store w1)"
    using invoke_grows [OF assms run] Cons.prems by (auto simp: world_grows_def grows_def)
  note rest = Cons.IH [OF grown(1)]
  have history: "fst (run_gateway hs g (call # calls) w) =
      (e, effects_of w w1) # fst (run_gateway hs g calls w1)"
    by (simp add: call run split: prod.split)
  show ?case
    using rest grown(2) executed_scope [OF assms Cons.prems run, of scope]
    by (auto simp: history split: if_splits)
qed simp

end

section \<open>Both stores\<close>

definition om_remembers :: "outcome_memory \<Rightarrow> bool" where
  "om_remembers s \<longleftrightarrow> (\<forall>scope operation. map_of (om_scopes s) scope = Some operation \<longrightarrow>
     operation \<noteq> [] \<and> map_of (om_records s) operation \<noteq> None)"

definition om_scope_set :: "outcome_memory \<Rightarrow> string set" where
  "om_scope_set s = {scope. map_of (om_scopes s) scope \<noteq> None}"

definition ot_scope_set :: "outcome_tables \<Rightarrow> string set" where
  "ot_scope_set s = oc_scope ` set (ot_outcomes s)"

lemma om_put_remembers:
  "om_remembers s \<Longrightarrow> om_remembers (om_put s r event) \<and> om_scope_set s \<subseteq> om_scope_set (om_put s r event)"
  by (auto simp: om_remembers_def om_scope_set_def om_put_def update_conv')

interpretation memory_scopes: scope_memory memory_api om_scope_set om_remembers
proof
  fix s scope
  assume "om_remembers s" "scope \<in> om_scope_set s"
  then show "api_find memory_api s scope \<noteq> Inr None"
    by (fastforce simp: memory_api_def om_find_def om_remembers_def om_scope_set_def)
next
  fix s r r' s'
  assume "om_remembers s" "oc_operation r \<noteq> []" "api_begin memory_api s r = Inr (r', s')"
  then show "om_remembers s' \<and> insert (oc_scope r) (om_scope_set s) \<subseteq> om_scope_set s'"
    by (cases "map_of (om_scopes s) (oc_scope r)")
      (force simp: memory_api_def om_begin_def om_remembers_def om_scope_set_def update_conv'
        split: option.splits if_splits)+
next
  fix s operation result preserve now after r s'
  assume "om_remembers s" "api_complete memory_api s operation result preserve now after = Inr (r, s')"
  then show "om_remembers s' \<and> om_scope_set s \<subseteq> om_scope_set s'"
    using om_put_remembers by (auto simp: memory_api_def om_complete_def bindr_eq_Inr Let_def split: if_splits)
next
  fix s operation result now after r s'
  assume "om_remembers s" "api_unknown memory_api s operation result now after = Inr (r, s')"
  then show "om_remembers s' \<and> om_scope_set s \<subseteq> om_scope_set s'"
    using om_put_remembers by (auto simp: memory_api_def om_mark_unknown_def bindr_eq_Inr Let_def)
qed

lemma ot_update_scopes: "ot_update s operation guard status result now = (n, s') \<Longrightarrow> ot_scope_set s' = ot_scope_set s"
proof -
  assume "ot_update s operation guard status result now = (n, s')"
  then have "map oc_scope (ot_outcomes s') = map oc_scope (ot_outcomes s)"
    by (auto simp: ot_update_def Let_def finished_def)
  then show ?thesis unfolding ot_scope_set_def by (metis set_map)
qed

lemma ot_insert_scopes: "ot_insert_event s e = Inr s' \<Longrightarrow> ot_scope_set s' = ot_scope_set s"
  by (auto simp: ot_insert_event_def ot_scope_set_def split: if_splits)

lemma ot_unknown_scopes:
  assumes "ot_mark_unknown s operation result now after = Inr (r, s')"
  shows "ot_scope_set s' = ot_scope_set s"
proof -
  obtain n s1 where upd: "ot_update s operation [OutStarted] OutUnknown (durable_result result False) now = (n, s1)"
    by fastforce
  from assms obtain e where "ot_insert_event s1 e = Inr s'"
    unfolding ot_mark_unknown_def upd by (auto simp: bindr_eq_Inr split: if_splits)
  with ot_update_scopes [OF upd] ot_insert_scopes show ?thesis by simp
qed

interpretation sql_scopes: scope_memory sql_api ot_scope_set "\<lambda>_. True"
proof
  fix s scope
  assume "scope \<in> ot_scope_set s"
  then have "row_by_scope s scope \<noteq> None"
    by (auto simp: ot_scope_set_def row_by_scope_def find_None_iff)
  then show "api_find sql_api s scope \<noteq> Inr None"
    by (auto simp: sql_api_def ot_find_def bindr_eq_Inr)
next
  fix s r r' s'
  assume begun: "api_begin sql_api s r = Inr (r', s')"
  show "True \<and> insert (oc_scope r) (ot_scope_set s) \<subseteq> ot_scope_set s'"
  proof (cases "row_by_scope s (oc_scope r)")
    case None
    with begun show ?thesis by (auto simp: sql_api_def ot_begin_def ot_scope_set_def row_of_def split: if_splits)
  next
    case (Some row)
    then have "row \<in> set (ot_outcomes s)" "oc_scope row = oc_scope r"
      by (auto simp: row_by_scope_def find_Some_iff)
    moreover have "s' = s" using begun Some by (auto simp: sql_api_def ot_begin_def bindr_eq_Inr split: if_splits)
    ultimately show ?thesis by (simp add: ot_scope_set_def rev_image_eqI)
  qed
next
  fix s operation result preserve now after r s'
  assume "api_complete sql_api s operation result preserve now after = Inr (r, s')"
  then show "True \<and> ot_scope_set s \<subseteq> ot_scope_set s'"
    using ot_update_scopes ot_insert_scopes
    by (fastforce simp: sql_api_def ot_complete_def bindr_eq_Inr Let_def split: if_splits prod.splits)
next
  fix s operation result now after r s'
  assume "api_unknown sql_api s operation result now after = Inr (r, s')"
  then have "ot_scope_set s' = ot_scope_set s" by (intro ot_unknown_scopes) (simp add: sql_api_def)
  then show "True \<and> ot_scope_set s \<subseteq> ot_scope_set s'" by simp
qed

text \<open>
  C17. Over any sequence of invocations, retries and requests that share an idempotency scope with it
  included, and whatever each provider call, transaction or clock does, the gateway with the SQL
  outcome store calls a provider under a lease at most once for that scope. The invocations run one after
  the other: each is one step.
\<close>

theorem write_executed_at_most_once:
  assumes "gt_reliability g = Some rv" and "rv_api rv = sql_api"
  shows "length (filter (executed (hs_lib hs) scope) (fst (run_gateway hs g calls w))) \<le> 1"
  using sql_scopes.run_executes_once [OF assms, where w = w and hs = hs and scope = scope and calls = calls] by (auto split: if_splits)

definition xa_twice :: "(invocation_env \<times> invocation) list" where
  "xa_twice = [(xa_env, xa_invocation), (xa_env\<lparr>iv_operation_id := ''3''\<rparr>, xa_invocation)]"

theorem write_executed_at_most_once_witness:
  "length (filter (executed (hs_lib xa_hosts) (idempotency_scope host_ascii xa_invocation))
     (fst (run_gateway xa_hosts xa_gateway xa_twice xa_world))) \<le> 1 \<and>
   executed (hs_lib xa_hosts) (idempotency_scope host_ascii xa_invocation)
     (hd (fst (run_gateway xa_hosts xa_gateway xa_twice xa_world)))"
proof
  show "length (filter (executed (hs_lib xa_hosts) (idempotency_scope host_ascii xa_invocation))
     (fst (run_gateway xa_hosts xa_gateway xa_twice xa_world))) \<le> 1"
    by (rule write_executed_at_most_once [of xa_gateway xa_reliability])
      (simp_all add: xa_gateway_def xa_reliability_def)
  show "executed (hs_lib xa_hosts) (idempotency_scope host_ascii xa_invocation)
     (hd (fst (run_gateway xa_hosts xa_gateway xa_twice xa_world)))"
    by code_simp
qed

end
