(* ===== verification/GatewayOutcomes.thy ===== *)
theory GatewayOutcomes
  imports GatewayIdempotency
begin

text \<open>How an invocation ends: the provider's transaction and the durable outcome, the admission slot,
  and the lease that is left open.\<close>

section \<open>The transaction and the outcome\<close>

lemma unknown_result_ok: "result_ok (unknown_result lease result)"
  by (simp add: result_ok_iff unknown_result_def)

lemma finalize_unknown_started:
  assumes "ot_inv s" and "ot_view s (ls_operation lease) = Some r" and "oc_status r = OutStarted"
    and "rv_api rv = sql_api" and "tz_aware now" and "tz_aware after"
    and "finalize_unknown rv s lease result now after = (final, s')"
  shows "final = unknown_result lease result \<and> ot_inv s' \<and>
    ot_view s' (ls_operation lease) = Some (finished r OutUnknown (durable_result final False) now)"
proof -
  from sql_outcomes.unknown_started [OF assms(1-3) unknown_result_ok [of lease result] assms(5,6) refl]
  obtain s1 where s1: "api_unknown sql_api s (ls_operation lease) (unknown_result lease result) now after =
      Inr (finished r OutUnknown (durable_result (unknown_result lease result) False) now, s1)" "ot_inv s1"
    "ot_view s1 = (ot_view s)(ls_operation lease \<mapsto>
        finished r OutUnknown (durable_result (unknown_result lease result) False) now)"
    by blast
  with assms(4,7) show ?thesis
    by (auto simp: finalize_unknown_def rel_mark_unknown_def lift_store_def Let_def)
qed

lemma finalize_unknown_late:
  assumes "ot_inv s" and "ot_view s (ls_operation lease) = Some r" and "oc_status r \<noteq> OutStarted"
    and "rv_api rv = sql_api" and "finalize_unknown rv s lease result now after = (final, s')"
  shows "final = unknown_result lease result \<and> s' = s"
  using assms ot_unknown_late [OF assms(1-3)]
  by (fastforce simp: finalize_unknown_def rel_mark_unknown_def lift_store_def sql_api_def Let_def
      split: sum.splits outcome_error.splits)

text \<open>
  C18. A strong write is atomic with its outcome. When the lease is still open in the SQL store, the provider
  hands over an open transaction and the store enlists the outcome in it, the transaction is always closed; its changes are
  committed exactly when the durable outcome is the result of the call, and otherwise the durable
  outcome says that the result is unknown; the caller is told the result only when both are
  committed, and is told that the outcome is unknown in every other case.
\<close>

theorem finalize_atomic:
  assumes "ot_inv s" and "ot_view s (ls_operation lease) = Some r" and "oc_status r = OutStarted"
    and "rv_api rv = sql_api" and "rv_enlists rv" and "result_ok result" and "tz_aware now" and "tz_aware after"
    and "finalize_invocation rv s lease result (Some fate) preserve now after = ((final, s'), effects)"
  shows "last effects = TransactionClosed \<and>
    (Committed \<in> set effects \<longleftrightarrow> ot_view s' (ls_operation lease) =
       Some (finished r (if rs_ok result then OutCompleted else OutFailed) (durable_result result preserve) now)) \<and>
    (Committed \<notin> set effects \<longleftrightarrow> ot_view s' (ls_operation lease) =
       Some (finished r OutUnknown (durable_result final False) now)) \<and>
    (if fate = CommitOk then final = result \<and> Committed \<in> set effects
     else final = unknown_result lease result)"
proof -
  let ?final = "finished r (if rs_ok result then OutCompleted else OutFailed) (durable_result result preserve) now"
  from sql_outcomes.complete_started [OF assms(1-3,6-8) refl] obtain s1 where
    s1: "api_complete sql_api s (ls_operation lease) result preserve now after = Inr (?final, s1)" "ot_inv s1"
      "ot_view s1 = (ot_view s)(ls_operation lease \<mapsto> ?final)"
    by blast
  then have complete: "rel_complete (rv_api rv) s lease result preserve now after = Inr (?final, s1)"
    by (simp add: rel_complete_def lift_store_def assms(4))
  have view: "ot_view s1 (ls_operation lease) = Some ?final" using s1(3) by simp
  have differ: "?final \<noteq> finished r OutUnknown x now" for x
  proof
    assume "?final = finished r OutUnknown x now"
    then have "oc_status ?final = oc_status (finished r OutUnknown x now)" by (rule arg_cong)
    then show False by (simp add: finished_def split: if_splits)
  qed
  show ?thesis
  proof (cases fate)
    case CommitOk
    with assms(9) complete have "final = result" "s' = s1" "effects = [Committed, TransactionClosed]"
      by (simp_all add: finalize_invocation_def)
    with CommitOk view differ show ?thesis by simp
  next
    case CommitLost
    with assms(9) complete have late: "finalize_unknown rv s1 lease result now after = (final, s')"
      and effects: "effects = [Committed, RolledBack, TransactionClosed]"
      by (simp_all add: finalize_invocation_def)
    have "oc_status ?final \<noteq> OutStarted" by (simp add: finished_def)
    from finalize_unknown_late [OF s1(2) view this assms(4) late] view differ CommitLost effects
    show ?thesis by simp
  next
    case CommitFails
    with assms(5,9) complete have undone: "finalize_unknown rv s lease result now after = (final, s')"
      and effects: "effects = [RolledBack, TransactionClosed]"
      by (simp_all add: finalize_invocation_def)
    from finalize_unknown_started [OF assms(1-4,7,8) undone] differ differ [THEN not_sym] CommitFails effects
    show ?thesis by auto
  qed
qed

definition xa_finalized :: "(cap_result \<times> outcome_tables) \<times> effect list" where
  "xa_finalized = finalize_invocation xa_reliability xa_started_tables xa_lease xa_result (Some CommitFails) False
     (Aware 7) (Aware 7)"

theorem finalize_atomic_witness:
  "snd xa_finalized = [RolledBack, TransactionClosed] \<and>
   fst (fst xa_finalized) = unknown_result xa_lease xa_result \<and>
   ot_view (snd (fst xa_finalized)) (ls_operation xa_lease) = Some (finished xa_record OutUnknown
     (durable_result (fst (fst xa_finalized)) False) (Aware 7))"
proof -
  have started: "oc_status xa_record = OutStarted" by code_simp
  have sql: "rv_api xa_reliability = sql_api" "rv_enlists xa_reliability"
    by (simp_all add: xa_reliability_def)
  have run: "finalize_invocation xa_reliability xa_started_tables xa_lease xa_result (Some CommitFails) False
     (Aware 7) (Aware 7) = ((fst (fst xa_finalized), snd (fst xa_finalized)), snd xa_finalized)"
    by (simp add: xa_finalized_def)
  have undone: "snd xa_finalized = [RolledBack, TransactionClosed]" by code_simp
  from finalize_atomic [OF xa_started_inv xa_started_view started sql xa_result_ok _ _ run] undone
  show ?thesis by simp
qed

section \<open>A payload that has no canonical form\<close>

text \<open>
  The gateway hashes the canonical form of the payload after it has taken the lease. A payload that
  the input schema accepts and that has no canonical form - an integer that no binary64 number holds,
  a NaN, or more than 64 nested levels - makes the invocation raise there: no provider is called, the slot is
  given back, and the lease stays open, so every later invocation of the scope is refused as in
  progress.
\<close>

theorem uncanonical_payload_strands_lease:
  assumes "is_write d" and "cd_operation d \<noteq> Required"
    and "canonicalize_v2 (hs_lib hs) (JObj (en_payload e)) = Inl x"
    and "gt_reliability g = Some rv" and "rv_api rv = sql_api" and "ot_inv (gw_store w)"
    and "ot_view (gw_store w) (''op_'' @ iv_operation_id iv) = None" and "tz_aware (iv_begin iv)"
    and "stage_begin hs g iv d e a w = (Go (Some lease), w1)"
  shows "\<exists>w'. leased hs g iv e d p a slot w = (Raise x, w') \<and> gw_trace w' = gw_trace w \<and>
    gw_admission w' = snd (lease_release (gw_admission w) slot) \<and>
    rel_replay (hs_lib hs) sql_api (gw_store w') e = Inl (ReliabilityError ''idempotency_in_progress'')"
proof -
  let ?operation = "''op_'' @ iv_operation_id iv"
  let ?r = "new_record (hs_lib hs) e (policy_of a) ?operation (iv_begin iv)"
  from stage_begin_passed [OF assms(9)] assms(4,5) obtain s limits where
    begun: "rel_begin (hs_lib hs) sql_api (rv_limiter rv) (gw_store w, gw_limits w) e d (policy_of a)
      (iv_operation_id iv) (iv_begin iv) = (Inr lease, s, limits)"
    and first: "ls_replay lease = None" and w1: "w1 = w\<lparr>gw_store := s, gw_limits := limits\<rparr>"
    by auto
  note started = sql_outcomes.begin_lease [OF assms(6,8,7) begun first]
  have fields: "oc_scope ?r = idempotency_scope (hs_lib hs) e" "oc_result ?r = None"
    "oc_hash ?r = payload_hash (hs_lib hs) (en_payload e)"
    by (simp_all add: new_record_def Let_def)
  have "api_find sql_api s (idempotency_scope (hs_lib hs) e) = Inr (Some ?r)"
    using sql_outcomes.find_some [of s ?operation ?r] started fields by simp
  then have "rel_replay (hs_lib hs) sql_api s e = Inl (ReliabilityError ''idempotency_in_progress'')"
    by (simp add: rel_replay_def new_record_def Let_def)
  moreover have "leased hs g iv e d p a slot w = (Raise x, release_slot slot w1)"
    using assms(2,3,9)
    by (simp add: leased_def holding_slot_def andthen_def decide_def stage_operation_def stage_context_def
        build_context_def)
  ultimately show ?thesis by (simp add: w1 release_slot_def)
qed

definition xa_deep :: invocation where
  "xa_deep = xa_invocation\<lparr>en_payload := [(''n'', ((\<lambda>v. JList [v]) ^^ 64) JNull)]\<rparr>"

definition xa_slot :: admission_lease where
  "xa_slot = \<lparr>al_request = slot_request xa_descriptor xa_deep, al_released = False\<rparr>"

lemma go_some: "(case s of Go (Some l) \<Rightarrow> True | _ \<Rightarrow> False) \<Longrightarrow> \<exists>l. s = Go (Some l)"
  by (auto split: stage.splits option.splits)

theorem uncanonical_payload_strands_lease_witness:
  "\<exists>w'. leased xa_hosts xa_gateway xa_env xa_deep xa_descriptor xa_provider None xa_slot xa_world =
      (Raise (ValueError ''json_max_depth_exceeded''), w') \<and>
    rel_replay host_ascii sql_api (gw_store w') xa_deep = Inl (ReliabilityError ''idempotency_in_progress'')"
proof -
  have canonical: "canonicalize_v2 (hs_lib xa_hosts) (JObj (en_payload xa_deep)) =
      Inl (ValueError ''json_max_depth_exceeded'')" by code_simp
  obtain r w1 where run: "stage_begin xa_hosts xa_gateway xa_env xa_descriptor xa_deep None xa_world = (r, w1)"
    by fastforce
  have "case fst (stage_begin xa_hosts xa_gateway xa_env xa_descriptor xa_deep None xa_world) of
      Go (Some l) \<Rightarrow> True | _ \<Rightarrow> False" by code_simp
  from go_some [OF this [unfolded run fst_conv]] obtain lease where lease: "r = Go (Some lease)" ..
  have facts: "is_write xa_descriptor" "cd_operation xa_descriptor \<noteq> Required"
    "gt_reliability xa_gateway = Some xa_reliability" "rv_api xa_reliability = sql_api"
    "gw_store xa_world = ot_empty" "tz_aware (iv_begin xa_env)" "hs_lib xa_hosts = host_ascii"
    by (simp_all add: is_write_def xa_descriptor_def xa_gateway_def xa_reliability_def xa_world_def
        xa_env_def xa_hosts_def)
  from uncanonical_payload_strands_lease [OF facts(1,2) canonical facts(3,4) _ _ facts(6) run [unfolded lease]]
  show ?thesis by (fastforce simp: facts ot_inv_empty ot_view_empty)
qed

end
