(* ===== verification/AdmissionProperties.thy ===== *)
theory AdmissionProperties
  imports Admission
begin

text \<open>
  The admission controller never lets more invocations of a capability run for a tenant or a
  consumer than the budget says, and refuses one only when the slots are really in use: along
  every interleaving of arrivals, waits, wake-ups, time-outs and releases the counters equal the
  number of leases that are held.
\<close>

section \<open>Runs\<close>

record admission_system =
  sy_counts :: admission
  sy_leases :: "admission_lease list"
  sy_waiting :: "admission_request list"

definition new_lease :: "admission_request \<Rightarrow> admission_lease" where
  "new_lease q = \<lparr>al_request = q, al_released = False\<rparr>"

text \<open>\<open>B\<close> is the execution budget of each capability's descriptor.\<close>

inductive admission_step ::
  "(string \<Rightarrow> execution_budget) \<Rightarrow> admission_system \<Rightarrow> admission_system \<Rightarrow> bool" for B where
  arrives: "aq_budget q = B (aq_capability q) \<Longrightarrow>
    acquire_start (sy_counts s) m q t = (Admitted, c) \<Longrightarrow>
    admission_step B s (s\<lparr>sy_counts := c, sy_leases := new_lease q # sy_leases s\<rparr>)"
| queues: "aq_budget q = B (aq_capability q) \<Longrightarrow>
    acquire_start (sy_counts s) m q t = (Waits, c) \<Longrightarrow>
    admission_step B s (s\<lparr>sy_counts := c, sy_waiting := q # sy_waiting s\<rparr>)"
| wakes: "q \<in> set (sy_waiting s) \<Longrightarrow> acquire_round (sy_counts s) q t = (Admitted, c) \<Longrightarrow>
    admission_step B s (s\<lparr>sy_counts := c, sy_leases := new_lease q # sy_leases s,
                          sy_waiting := remove1 q (sy_waiting s)\<rparr>)"
| gives_up: "q \<in> set (sy_waiting s) \<Longrightarrow>
    admission_step B s (s\<lparr>sy_waiting := remove1 q (sy_waiting s)\<rparr>)"
| releases: "i < length (sy_leases s) \<Longrightarrow> lease_release (sy_counts s) (sy_leases s ! i) = (l, c) \<Longrightarrow>
    admission_step B s (s\<lparr>sy_counts := c, sy_leases := (sy_leases s)[i := l]\<rparr>)"

inductive_cases admission_stepE: "admission_step B s t"

definition admission_start :: admission_system where
  "admission_start = \<lparr>sy_counts = \<lparr>ad_tenants = [], ad_consumers = [], ad_capabilities = []\<rparr>,
     sy_leases = [], sy_waiting = []\<rparr>"

section \<open>Counters\<close>

lemma count_of_increment [simp]:
  "count_of (increment k cs) k' = (if k' = k then count_of cs k + 1 else count_of cs k')"
  by (simp add: count_of_def increment_def update_conv')

lemma count_of_decrement:
  assumes "0 \<le> count_of cs k"
  shows "count_of (decrement k cs) k' = (if k' = k then max 0 (count_of cs k - 1) else count_of cs k')"
  using assms by (auto simp: decrement_def count_of_def update_conv' split: option.splits)

text \<open>The number of leases held under a key.\<close>

definition held :: "(admission_request \<Rightarrow> 'k) \<Rightarrow> admission_lease list \<Rightarrow> 'k \<Rightarrow> nat" where
  "held key ls k = length (filter (\<lambda>l. \<not> al_released l \<and> key (al_request l) = k) ls)"

lemma held_Nil [simp]: "held key [] k = 0"
  by (simp add: held_def)

lemma held_Cons [simp]:
  "held key (l # ls) k = (if \<not> al_released l \<and> key (al_request l) = k then Suc (held key ls k) else held key ls k)"
  by (simp add: held_def)

lemma held_release:
  assumes "i < length ls" and "\<not> al_released (ls ! i)"
  shows "held key ls k = held key (ls[i := (ls ! i)\<lparr>al_released := True\<rparr>]) k +
           (if key (al_request (ls ! i)) = k then 1 else 0)"
  using assms
proof (induction ls arbitrary: i)
  case (Cons l ls)
  then show ?case by (cases i) auto
qed simp

definition exact :: "(admission_request \<Rightarrow> 'k) \<Rightarrow> 'k counters \<Rightarrow> admission_lease list \<Rightarrow> bool" where
  "exact key cs ls \<longleftrightarrow> (\<forall>k. count_of cs k = int (held key ls k))"

lemma exact_take: "exact key cs ls \<Longrightarrow> exact key (increment (key q) cs) (new_lease q # ls)"
  by (auto simp: exact_def new_lease_def)

lemma exact_free:
  assumes "exact key cs ls" and "i < length ls" and "\<not> al_released (ls ! i)"
  shows "exact key (decrement (key (al_request (ls ! i))) cs) (ls[i := (ls ! i)\<lparr>al_released := True\<rparr>])"
  unfolding exact_def
proof
  fix k
  let ?k = "key (al_request (ls ! i))"
  have "0 \<le> count_of cs ?k" using assms(1) by (simp add: exact_def)
  then show "count_of (decrement ?k cs) k = int (held key (ls[i := (ls ! i)\<lparr>al_released := True\<rparr>]) k)"
    using assms(1) held_release [OF assms(2,3), of key k] held_release [OF assms(2,3), of key ?k]
    by (auto simp: exact_def count_of_decrement)
qed

abbreviation tenant_key :: "admission_request \<Rightarrow> string \<times> string" where
  "tenant_key q \<equiv> (aq_capability q, aq_tenant q)"

abbreviation consumer_slot :: "admission_request \<Rightarrow> string \<times> string" where
  "consumer_slot q \<equiv> (aq_capability q, aq_consumer q)"

section \<open>The invariant\<close>

definition counts_exact :: "admission_system \<Rightarrow> bool" where
  "counts_exact s \<longleftrightarrow> exact tenant_key (ad_tenants (sy_counts s)) (sy_leases s) \<and>
     exact consumer_slot (ad_consumers (sy_counts s)) (sy_leases s) \<and>
     exact aq_capability (ad_capabilities (sy_counts s)) (sy_leases s)"

definition within_budget :: "(string \<Rightarrow> execution_budget) \<Rightarrow> admission_lease list \<Rightarrow> bool" where
  "within_budget B ls \<longleftrightarrow>
     (\<forall>c x. int (held tenant_key ls (c, x)) \<le> eb_tenant_parallel (B c) \<and>
            int (held consumer_slot ls (c, x)) \<le> eb_consumer_parallel (B c))"

definition admission_inv :: "(string \<Rightarrow> execution_budget) \<Rightarrow> admission_system \<Rightarrow> bool" where
  "admission_inv B s \<longleftrightarrow> counts_exact s \<and> within_budget B (sy_leases s) \<and>
     (\<forall>q\<in>set (sy_waiting s). aq_budget q = B (aq_capability q))"

lemma acquire_round_Admitted:
  "acquire_round s q t = (Admitted, c) \<longleftrightarrow> \<not> tenant_full s q \<and> \<not> consumer_full s q \<and> c = take_slot s q"
  by (auto simp: acquire_round_def)

lemma admitted_inv:
  assumes inv: "admission_inv B s" and budget: "aq_budget q = B (aq_capability q)"
    and round: "acquire_round (sy_counts s) q t = (Admitted, c)"
    and waiting: "set w \<subseteq> set (sy_waiting s)"
  shows "admission_inv B (s\<lparr>sy_counts := c, sy_leases := new_lease q # sy_leases s, sy_waiting := w\<rparr>)"
proof -
  from round have room: "\<not> tenant_full (sy_counts s) q" "\<not> consumer_full (sy_counts s) q"
    and c: "c = take_slot (sy_counts s) q" by (simp_all add: acquire_round_Admitted)
  have exact: "counts_exact s" and within: "within_budget B (sy_leases s)" using inv by (simp_all add: admission_inv_def)
  have "counts_exact (s\<lparr>sy_counts := c, sy_leases := new_lease q # sy_leases s, sy_waiting := w\<rparr>)"
    using exact exact_take [of tenant_key] exact_take [of consumer_slot] exact_take [of aq_capability]
    by (simp add: counts_exact_def c take_slot_def)
  moreover have "within_budget B (new_lease q # sy_leases s)"
  proof -
    have "int (held tenant_key (sy_leases s) (tenant_key q)) < eb_tenant_parallel (B (aq_capability q))"
      and "int (held consumer_slot (sy_leases s) (consumer_slot q)) < eb_consumer_parallel (B (aq_capability q))"
      using exact room budget by (simp_all add: counts_exact_def exact_def tenant_full_def consumer_full_def)
    then show ?thesis using within by (auto simp: within_budget_def new_lease_def)
  qed
  ultimately show ?thesis using inv waiting by (auto simp: admission_inv_def)
qed

lemma released_inv:
  assumes inv: "admission_inv B s" and i: "i < length (sy_leases s)"
    and rel: "lease_release (sy_counts s) (sy_leases s ! i) = (l, c)"
  shows "admission_inv B (s\<lparr>sy_counts := c, sy_leases := (sy_leases s)[i := l]\<rparr>)"
proof (cases "al_released (sy_leases s ! i)")
  case True
  then have "l = sy_leases s ! i" "c = sy_counts s" using rel by (simp_all add: lease_release_def)
  then show ?thesis using inv by simp
next
  case False
  let ?q = "al_request (sy_leases s ! i)" and ?ls = "(sy_leases s)[i := (sy_leases s ! i)\<lparr>al_released := True\<rparr>]"
  have l: "l = (sy_leases s ! i)\<lparr>al_released := True\<rparr>" and c: "c = free_slot (sy_counts s) ?q"
    using rel False by (simp_all add: lease_release_def)
  have "counts_exact (s\<lparr>sy_counts := c, sy_leases := ?ls\<rparr>)"
    using inv exact_free [OF _ i False, of tenant_key] exact_free [OF _ i False, of consumer_slot]
      exact_free [OF _ i False, of aq_capability]
    by (simp add: admission_inv_def counts_exact_def c free_slot_def)
  moreover have "held tenant_key ?ls k \<le> held tenant_key (sy_leases s) k"
    "held consumer_slot ?ls k \<le> held consumer_slot (sy_leases s) k" for k
    using held_release [OF i False, of tenant_key k] held_release [OF i False, of consumer_slot k] by simp_all
  then have "within_budget B ?ls"
    using inv unfolding admission_inv_def within_budget_def by (meson of_nat_mono order_trans)
  ultimately show ?thesis using inv l by (simp add: admission_inv_def)
qed

lemma step_inv:
  assumes "admission_step B s t" and inv: "admission_inv B s"
  shows "admission_inv B t"
  using assms(1)
proof (rule admission_stepE)
  fix q m r c
  assume q: "aq_budget q = B (aq_capability q)" "acquire_start (sy_counts s) m q r = (Admitted, c)"
    and t: "t = s\<lparr>sy_counts := c, sy_leases := new_lease q # sy_leases s\<rparr>"
  from q(2) have "acquire_round (sy_counts s) q (max 0 r) = (Admitted, c)"
    by (auto simp: acquire_start_def split: if_splits)
  from admitted_inv [OF inv q(1) this order_refl] t show ?thesis by simp
next
  fix q m r c
  assume q: "aq_budget q = B (aq_capability q)" "acquire_start (sy_counts s) m q r = (Waits, c)"
    and t: "t = s\<lparr>sy_counts := c, sy_waiting := q # sy_waiting s\<rparr>"
  from q(2) have "c = sy_counts s"
    by (auto simp: acquire_start_def acquire_round_def split: if_splits)
  then show ?thesis using inv q(1) t by (auto simp: admission_inv_def counts_exact_def)
next
  fix q r c
  assume q: "q \<in> set (sy_waiting s)" "acquire_round (sy_counts s) q r = (Admitted, c)"
    and t: "t = s\<lparr>sy_counts := c, sy_leases := new_lease q # sy_leases s,
                   sy_waiting := remove1 q (sy_waiting s)\<rparr>"
  have "aq_budget q = B (aq_capability q)" using inv q(1) by (simp add: admission_inv_def)
  from admitted_inv [OF inv this q(2) set_remove1_subset] t show ?thesis by simp
next
  fix q
  assume "t = s\<lparr>sy_waiting := remove1 q (sy_waiting s)\<rparr>"
  then show ?thesis using inv set_remove1_subset [of q "sy_waiting s"]
    by (auto simp: admission_inv_def counts_exact_def)
next
  fix i l c
  assume "i < length (sy_leases s)" "lease_release (sy_counts s) (sy_leases s ! i) = (l, c)"
    and "t = s\<lparr>sy_counts := c, sy_leases := (sy_leases s)[i := l]\<rparr>"
  then show ?thesis using released_inv [OF inv] by simp
qed

lemma start_inv:
  assumes "\<And>c. 0 \<le> eb_tenant_parallel (B c) \<and> 0 \<le> eb_consumer_parallel (B c)"
  shows "admission_inv B admission_start"
  using assms by (simp add: admission_inv_def counts_exact_def exact_def within_budget_def admission_start_def count_of_def)

lemma run_inv: "(admission_step B)\<^sup>*\<^sup>* s t \<Longrightarrow> admission_inv B s \<Longrightarrow> admission_inv B t"
  by (induction rule: rtranclp_induct) (auto simp: step_inv)

section \<open>Properties\<close>


definition xa_request :: admission_request where
  "xa_request = \<lparr>aq_capability = ''craft.plan.save@1'', aq_tenant = ''t1'', aq_consumer = ''ai00.web'',
     aq_budget = default_budget\<lparr>eb_consumer_parallel := 1\<rparr>\<rparr>"

definition xa_admitted :: admission_system where
  "xa_admitted = admission_start\<lparr>sy_counts := take_slot (sy_counts admission_start) xa_request,
     sy_leases := [new_lease xa_request]\<rparr>"


end
