(* ===== verification/GatewaySlots.thy ===== *)
theory GatewaySlots
  imports GatewayProperties AdmissionProperties
begin

text \<open>The admission slot of an invocation: who gives it back, and when it is kept.\<close>

definition same_slots :: "admission \<Rightarrow> admission \<Rightarrow> bool" where
  "same_slots a b \<longleftrightarrow> count_of (ad_tenants a) = count_of (ad_tenants b) \<and>
     count_of (ad_consumers a) = count_of (ad_consumers b) \<and>
     count_of (ad_capabilities a) = count_of (ad_capabilities b)"

definition slots_counted :: "admission \<Rightarrow> bool" where
  "slots_counted a \<longleftrightarrow> (\<forall>k. 0 \<le> count_of (ad_tenants a) k) \<and> (\<forall>k. 0 \<le> count_of (ad_consumers a) k) \<and>
     (\<forall>k. 0 \<le> count_of (ad_capabilities a) k)"

lemma same_slots_refl [simp]: "same_slots a a"
  by (simp add: same_slots_def)

lemma decrement_increment:
  assumes "\<forall>k. 0 \<le> count_of cs k"
  shows "count_of (decrement k (increment k cs)) = count_of cs"
proof
  fix k'
  have "0 \<le> count_of (increment k cs) k" using assms by (simp add: add_increasing)
  then show "count_of (decrement k (increment k cs)) k' = count_of cs k'"
    using assms by (simp add: count_of_decrement)
qed

lemma free_take: "slots_counted s \<Longrightarrow> same_slots (free_slot (take_slot s q) q) s"
  by (simp add: slots_counted_def same_slots_def free_slot_def take_slot_def decrement_increment)

abbreviation slot_of :: "descriptor \<Rightarrow> invocation \<Rightarrow> admission_lease" where
  "slot_of d e \<equiv> \<lparr>al_request = slot_request d e, al_released = False\<rparr>"

lemma release_taken:
  "slots_counted a \<Longrightarrow> gw_admission w = take_slot a (slot_request d e) \<Longrightarrow>
     same_slots (gw_admission (release_slot (slot_of d e) w)) a"
  by (simp add: release_slot_def lease_release_def free_take)

section \<open>Up to the dispatch\<close>

definition stops :: "'a stage \<Rightarrow> bool" where
  "stops s \<longleftrightarrow> (\<forall>a. s \<noteq> Go a)"

lemma stops_simps [simp]: "stops (Answer r)" "stops (Raise x)" "\<not> stops (Go a)"
  by (simp_all add: stops_def)

lemma andthen_stops:
  assumes "andthen m f w = (s, w')" and "stops s"
  shows "(\<exists>s'. stops s' \<and> m w = (s', w')) \<or> (\<exists>a w1. m w = (Go a, w1) \<and> f a w1 = (s, w'))"
  using assms by (auto simp: andthen_def split: prod.splits stage.splits)

lemma slot_at_once:
  assumes "iv_wakeups iv = []" and "acquire_slot iv q a = (r, a')"
  shows "a' = (if r = Admitted then take_slot a q else a)"
  using assms by (auto simp: acquire_slot_def acquire_start_def acquire_round_def acquire_timeout_def
      split: prod.splits admission_result.splits if_splits)

lemma acquire_stops:
  assumes "stage_acquire hs g iv d e a w = (s, w')" and "stops s" and "iv_wakeups iv = []"
  shows "gw_admission w' = gw_admission w"
proof -
  obtain r b where r: "acquire_slot iv (slot_request d e) (gw_admission w) = (r, b)" by fastforce
  note at_once = slot_at_once [OF assms(3) r]
  show ?thesis
    using assms(1,2) r at_once
    by (cases r) (auto simp: stage_acquire_def record_metric_def Let_def split: sum.splits)
qed

lemma acquired_slot:
  assumes "stage_acquire hs g iv d e a w = (Go slot, w')" and "iv_wakeups iv = []"
  shows "slot = slot_of d e" and "gw_admission w' = take_slot (gw_admission w) (slot_request d e)"
proof -
  from stage_acquire_passed [OF assms(1)] obtain b where "slot = slot_of d e"
    and b: "acquire_slot iv (slot_request d e) (gw_admission w) = (Admitted, b)" "w' = w\<lparr>gw_admission := b\<rparr>"
    by blast
  then show "slot = slot_of d e" and "gw_admission w' = take_slot (gw_admission w) (slot_request d e)"
    using slot_at_once [OF assms(2) b(1)] by simp_all
qed

lemma begin_operation_admission:
  "stage_begin hs g iv d e a w = (s, w') \<Longrightarrow> gw_admission w' = gw_admission w"
  "stage_operation g iv d e a lease w = (s', w') \<Longrightarrow> gw_admission w' = gw_admission w"
  by (auto simp: stage_begin_def stage_operation_def operation_failed_def Let_def
      split: if_splits prod.splits sum.splits option.splits)

lemma leased_admission:
  assumes "leased hs g iv e d p a slot w = (s, w')"
  shows "gw_admission w' = (if stops s then gw_admission (release_slot slot w) else gw_admission w)"
proof -
  let ?m = "andthen (stage_begin hs g iv d e a) (\<lambda>lease.
      andthen (stage_operation g iv d e a lease) (\<lambda>operation.
      decide (stage_context hs e d p a slot lease operation)))"
  obtain s1 w1 where run: "?m w = (s1, w1)" by fastforce
  have "steps (\<lambda>w w'. gw_admission w' = gw_admission w) ?m"
    by (intro steps_andthen steps_decide stepsI)
      (auto simp: transp_def reflp_def dest: begin_operation_admission)
  from stepsD [OF this run] have same: "gw_admission w1 = gw_admission w" .
  show ?thesis
    using assms run same by (cases s1) (auto simp: leased_def holding_slot_def release_slot_def)
qed

lemma decide_then:
  "andthen (decide x) f w = (s, w') \<Longrightarrow> stops s \<Longrightarrow> w' = w \<or> (\<exists>a. x = Go a \<and> f a w = (s, w'))"
  by (cases x) auto

lemma decide_then':
  "andthen (\<lambda>w. decide (h w) w) f w = (s, w') \<Longrightarrow> stops s \<Longrightarrow> w' = w \<or> (\<exists>a. h w = Go a \<and> f a w = (s, w'))"
  by (cases "h w") (auto simp: andthen_def decide_def)

lemma acquire_leased_stops:
  assumes "andthen (stage_acquire hs g iv d e a) (\<lambda>slot. leased hs g iv e d p a slot) w = (s, w')"
    and "stops s" and "iv_wakeups iv = []" and "slots_counted (gw_admission w)"
  shows "same_slots (gw_admission w') (gw_admission w)"
  using andthen_stops [OF assms(1,2)]
proof (elim disjE exE conjE)
  fix s'
  assume stop: "stops s'" and run: "stage_acquire hs g iv d e a w = (s', w')"
  show ?thesis by (simp add: acquire_stops [OF run stop assms(3)])
next
  fix slot w1
  assume got: "stage_acquire hs g iv d e a w = (Go slot, w1)" and run: "leased hs g iv e d p a slot w1 = (s, w')"
  note slot = acquired_slot [OF got assms(3)]
  from leased_admission [OF run] assms(2) release_taken [OF assms(4) slot(2)] show ?thesis
    by (simp add: slot(1))
qed

lemma approve_then_stops:
  assumes "andthen (stage_approve hs g iv d e a) (\<lambda>_. andthen (stage_acquire hs g iv d e a)
      (\<lambda>slot. leased hs g iv e d p a slot)) w = (s, w')"
    and "stops s" and "iv_wakeups iv = []" and "slots_counted (gw_admission w)"
  shows "same_slots (gw_admission w') (gw_admission w)"
proof -
  have kept: "gw_admission w1 = gw_admission w" if "stage_approve hs g iv d e a w = (r, w1)" for r w1
    using that by (auto simp: stage_approve_def split: prod.splits sum.splits policy_error.splits)
  from andthen_stops [OF assms(1,2)] show ?thesis
    using kept acquire_leased_stops [OF _ assms(2,3)] assms(4) by fastforce
qed

lemma dispatch_stops:
  assumes "dispatch hs g iv e w = (s, w')" and "stops s" and "iv_wakeups iv = []"
    and "slots_counted (gw_admission w)"
  shows "same_slots (gw_admission w') (gw_admission w)"
proof -
  note tail = approve_then_stops [OF _ assms(2-4)]
  from decide_then [OF assms(1) [unfolded dispatch_def] assms(2)] show ?thesis
    by (auto dest!: decide_then [OF _ assms(2)] decide_then' [OF _ assms(2)] tail split: prod.splits)
qed

lemma dispatch_takes:
  assumes "dispatch hs g iv e w = (Go dp, w')" and "iv_wakeups iv = []"
  shows "\<exists>d. dp_slot dp = slot_of d e \<and> gw_admission w' = take_slot (gw_admission w) (slot_request d e)"
  using assms(1)
proof (rule dispatchedE)
  fix d p a w1 slot w2 lease w3 operation
  assume approved: "stage_approve hs g iv d e a w = (Go (), w1)"
    and slot: "stage_acquire hs g iv d e a w1 = (Go slot, w2)"
    and rest: "stage_begin hs g iv d e a w2 = (Go lease, w3)"
      "stage_operation g iv d e a lease w3 = (Go operation, w')"
    and ctx: "stage_context hs e d p a slot lease operation = Go dp"
  have "gw_admission w1 = gw_admission w" using approved by (auto simp: stage_approve_passed)
  moreover note acquired_slot [OF slot assms(2)]
  moreover have "gw_admission w' = gw_admission w2"
    using begin_operation_admission(1) [OF rest(1)] begin_operation_admission(2) [OF rest(2)] by simp
  moreover have "dp_slot dp = slot" using stage_context_passed [OF ctx] by auto
  ultimately show ?thesis by auto
qed

section \<open>From the dispatch on\<close>

lemma admission_updates [simp]:
  "gw_admission (emit effects w) = gw_admission w"
  "gw_admission (record_metric hs g before after d e n r c w) = gw_admission w"
  by (simp_all add: emit_def record_metric_def)

lemma settle_admission:
  assumes "settle hs g iv e dp output transaction result w = (reply, w')"
  shows "gw_admission w' = (if dp_lease dp = None then gw_admission w else gw_admission (release_slot (dp_slot dp) w))"
proof -
  obtain r w1 where settled: "settle_operation g iv e dp result w = (r, w1)" by fastforce
  then have same: "gw_admission w1 = gw_admission w"
    by (auto simp: settle_operation_def split: option.splits if_splits sum.splits)
  have metric: "reply_with_metric hs g iv e dp n r w = (reply, w') \<Longrightarrow> gw_admission w' = gw_admission w" for n r w
    by (auto simp: reply_with_metric_def Let_def split: sum.splits)
  show ?thesis
  proof (cases "dp_lease dp")
    case None
    with assms settled same metric show ?thesis
      by (cases "transaction = None") (auto simp: settle_def)
  next
    case (Some lease)
    obtain final s effects where fin: "finalize_invocation (the (gt_reliability g)) (gw_store w1) lease
        (lease_reference lease (dp_operation dp) r) transaction
        (cd_replay (dp_descriptor dp) = Projected) (iv_finish iv) (iv_finish_after iv) = ((final, s), effects)"
      by (metis prod.exhaust)
    from assms settled Some fin metric same show ?thesis
      by (cases "rs_status final = OutcomeUnknown") (auto simp: settle_def Let_def release_slot_def)
  qed
qed

lemma execute_admission:
  assumes "execute hs g iv e dp w = (reply, w')"
  shows "gw_admission w' = gw_admission (release_slot (dp_slot dp) w) \<or>
    (gw_admission w' = gw_admission w \<and>
      ((\<exists>x. reply = Raises x) \<or> map_of (gw_streams w') (iv_stream_id iv) \<noteq> None))"
proof -
  let ?co = "run_provider hs g iv e dp (length (gw_streams w))"
  let ?w = "emit (co_effects ?co) w"
  show ?thesis
  proof (cases "co_value ?co = Inl Cancelled")
    case True
    with assms show ?thesis by (auto simp: execute_def release_slot_def Let_def)
  next
    case False
    with assms have "finish_call hs g iv e dp ?co ?w = (reply, w')" by (simp add: execute_def Let_def)
    then show ?thesis
    proof (rule finish_call_cases)
      fix x
      assume "reply = Raises x" "w' = clean_up dp ?co ?w"
      then show ?thesis by (auto simp: clean_up_def release_slot_def Let_def)
    next
      fix result stream v evidence
      assume "co_stream ?co = Some stream" "co_value ?co = Inr (v, evidence)"
        and "open_stream hs iv e dp stream v result (clean_up dp ?co ?w) = (reply, w')"
      then show ?thesis
        by (auto simp: open_stream_def clean_up_def deferred_stream_def Let_def split: sum.splits)
    next
      fix result
      assume "\<not> deferred_stream ?co" "settle hs g iv e dp (co_bytes ?co)
        (if isl (co_value ?co) then None else co_transaction ?co) result (clean_up dp ?co ?w) = (reply, w')"
      then show ?thesis
        using settle_admission by (fastforce simp: clean_up_def release_slot_def Let_def)
    qed
  qed
qed

text \<open>
  An invocation that does not wait gives its admission slot back: whatever it answers and wherever
  it stops, the counters of tenants, consumers and capabilities are as before, unless it opened a
  stream, which keeps the slot, or raised after its provider was dispatched, in which case the
  slot may be lost.
\<close>

theorem slot_given_back:
  assumes "invoke hs g iv e w = (reply, w')" and "iv_wakeups iv = []" and "slots_counted (gw_admission w)"
  shows "same_slots (gw_admission w') (gw_admission w) \<or>
    ((\<exists>x dp. reply = Raises x \<and> fst (dispatch hs g iv e w) = Go dp) \<or>
     map_of (gw_streams w') (iv_stream_id iv) \<noteq> None)"
  using assms(1)
proof (rule invoke_cases)
  fix dp w1
  assume go: "dispatch hs g iv e w = (Go dp, w1)" and run: "execute hs g iv e dp w1 = (reply, w')"
  from dispatch_takes [OF go assms(2)] obtain d where
    slot: "dp_slot dp = slot_of d e" "gw_admission w1 = take_slot (gw_admission w) (slot_request d e)"
    by blast
  from execute_admission [OF run] release_taken [OF assms(3) slot(2)] go show ?thesis
    by (auto simp: slot(1))
next
  assume stop: "\<And>dp. fst (dispatch hs g iv e w) \<noteq> Go dp" "w' = snd (dispatch hs g iv e w)"
  have "stops (fst (dispatch hs g iv e w))" using stop(1) by (simp add: stops_def)
  with dispatch_stops [OF prod.collapse [symmetric] _ assms(2,3)] stop(2) show ?thesis by blast
qed

theorem slot_given_back_witness: "same_slots (gw_admission xa_ran) (gw_admission xa_world)"
proof -
  have "iv_wakeups xa_env = []" and "slots_counted (gw_admission xa_world)"
    by (simp_all add: xa_env_def xa_world_def slots_counted_def count_of_def)
  moreover have "map_of (gw_streams xa_ran) (iv_stream_id xa_env) = None" by code_simp
  ultimately show ?thesis using slot_given_back [OF xa_run] by auto
qed

end
