(* ===== verification/GatewayStreams.thy ===== *)
theory GatewayStreams
  imports GatewayIdempotency
begin

text \<open>
  Streams the gateway keeps (\<open>claim_stream\<close> and what follows it in \<open>gateway.py\<close>). A stream waits under its
  identifier until it is claimed or expires; a claimed stream is iterated or expires; however it
  ends, it is finalised: the iterator is closed, the outcome recorded, the slot released, the
  metric written. The consumer takes a number of chunks; the iterator then ends or fails; whether
  closing the iterator succeeds is an argument for each of the two attempts.
\<close>

section \<open>Reading a stream\<close>

datatype stream_failure = OutputLimit | StreamBusiness string | StreamTimeout | StreamOther

datatype stream_end = Drained | Closed | Broken stream_failure

text \<open>The chunks delivered, the bytes counted, and the end; \<open>wanted\<close> is what the consumer asks for, one
  more request than chunks when it reads to the end.\<close>

fun drain ::
  "int \<Rightarrow> int \<Rightarrow> stream_failure option \<Rightarrow> nat \<Rightarrow> string list \<Rightarrow> int \<Rightarrow> int \<Rightarrow> string list \<times> int \<times> stream_end" where
  "drain limit max_events ending 0 chunks events bytes = ([], bytes, Closed)"
| "drain limit max_events ending (Suc wanted) [] events bytes =
     ([], bytes, case ending of None \<Rightarrow> Drained | Some f \<Rightarrow> Broken f)"
| "drain limit max_events ending (Suc wanted) (c # chunks) events bytes =
     (if events + 1 > max_events then ([], bytes, Broken OutputLimit)
      else
        let bytes' = bytes + int (length c) in
        if bytes' > limit then ([], bytes', Broken OutputLimit)
        else (case drain limit max_events ending wanted chunks (events + 1) bytes' of
                (delivered, n, how) \<Rightarrow> (c # delivered, n, how)))"

definition document_size :: "hostlib \<Rightarrow> json \<Rightarrow> int" where
  "document_size h v = (case json_size h v of Inl _ \<Rightarrow> 0 | Inr n \<Rightarrow> n)"

definition read_stream ::
  "hostlib \<Rightarrow> managed_stream \<Rightarrow> stream_failure option \<Rightarrow> nat \<Rightarrow> string list \<times> int \<times> stream_end" where
  "read_stream h sm ending wanted =
     drain (eb_max_output (cd_budget (sm_descriptor sm))) (max 1 (ps_max_events (sm_stream sm))) ending wanted
       (ps_chunks (sm_stream sm)) 0 (document_size h (sm_output sm))"

section \<open>Finalising a stream\<close>

definition stream_finalized :: "managed_stream \<Rightarrow> bool" where
  "stream_finalized sm \<longleftrightarrow> sm_iterator_closed sm \<and> sm_outcome_done sm \<and> sm_slot_released sm \<and> sm_metric_done sm"

definition failure_code :: "stream_end \<Rightarrow> string" where
  "failure_code how = (case how of
     Closed \<Rightarrow> ''cancelled''
   | Broken OutputLimit \<Rightarrow> ''capability_output_limit_exceeded''
   | Broken (StreamBusiness code) \<Rightarrow> code
   | Broken StreamTimeout \<Rightarrow> ''runtime_timeout''
   | _ \<Rightarrow> ''provider_failed'')"

definition stream_reference :: "managed_stream \<Rightarrow> operation_status \<Rightarrow> operation_ref option" where
  "stream_reference sm status =
     map_option (\<lambda>l. \<lparr>op_id = ls_operation l, op_status = status, op_version = 1\<rparr>) (sm_lease sm)"

definition stream_result :: "managed_stream \<Rightarrow> stream_end \<Rightarrow> py_exn + cap_result" where
  "stream_result sm how =
     (let e = sm_envelope sm in
      if how = Drained
      then Inr ((completed_result e (sm_output sm) [])\<lparr>rs_operation := stream_reference sm OpCompleted\<rparr>)
      else bindr (failed e (failure_code how) ''Capability stream did not complete.'') (\<lambda>r.
             Inr (r\<lparr>rs_operation := stream_reference sm (if how = Closed then OpCancelled else OpFailed)\<rparr>)))"

text \<open>The durable outcome: completion, else the unknown outcome, else it stays open for the next attempt.\<close>

definition settle_stream ::
  "('s, 'l, 'p, 'o) gateway \<Rightarrow> managed_stream \<Rightarrow> cap_result \<Rightarrow> timestamp \<Rightarrow> timestamp \<Rightarrow> 's \<Rightarrow> bool \<times> 's" where
  "settle_stream g sm result now after s =
     (case sm_lease sm of
        None \<Rightarrow> (True, s)
      | Some lease \<Rightarrow>
          (let api = rv_api (the (gt_reliability g)) in
           case rel_complete api s lease result False now after of
             Inr (_, s') \<Rightarrow> (True, s')
           | Inl _ \<Rightarrow>
               (case rel_mark_unknown api s lease (result\<lparr>rs_status := OutcomeUnknown\<rparr>) now after of
                  Inr (_, s') \<Rightarrow> (True, s')
                | Inl _ \<Rightarrow> (False, s))))"

definition finalize_attempt ::
  "hosts \<Rightarrow> ('s, 'l, 'p, 'o) gateway \<Rightarrow> invocation_env \<Rightarrow> cap_result \<Rightarrow> int \<Rightarrow> bool \<Rightarrow> bool \<Rightarrow>
   managed_stream \<times> ('s, 'l, 'p, 'o) gateway_world \<Rightarrow> managed_stream \<times> ('s, 'l, 'p, 'o) gateway_world" where
  "finalize_attempt hs g iv result bytes cancelled closes st =
     (case st of (sm, w) \<Rightarrow>
      let closed = (sm_iterator_closed sm \<or> closes);
          w1 = (if \<not> sm_iterator_closed sm \<and> closes then emit [IteratorClosed] w else w);
          (settled, s) = (if sm_outcome_done sm then (True, gw_store w1)
                          else settle_stream g sm result (iv_finish iv) (iv_finish_after iv) (gw_store w1));
          w2 = w1\<lparr>gw_store := s\<rparr>;
          w3 = (if sm_slot_released sm then w2 else release_slot (sm_slot sm) w2);
          w4 = (if sm_metric_done sm then w3
                else record_metric hs g (sm_before sm) (iv_after iv) (sm_descriptor sm) (sm_envelope sm) bytes
                       (Some result) cancelled w3) in
      (sm\<lparr>sm_iterator_closed := closed, sm_outcome_done := settled, sm_slot_released := True,
          sm_metric_done := True\<rparr>, w4))"

definition finalize_stream ::
  "hosts \<Rightarrow> ('s, 'l, 'p, 'o) gateway \<Rightarrow> invocation_env \<Rightarrow> bool \<Rightarrow> stream_end \<Rightarrow> int \<Rightarrow> bool \<Rightarrow> bool \<Rightarrow>
   managed_stream \<Rightarrow> ('s, 'l, 'p, 'o) gateway_world \<Rightarrow>
   managed_stream \<times> ('s, 'l, 'p, 'o) gateway_world" where
  "finalize_stream hs g iv only_if_unstarted how bytes closes1 closes2 sm w =
     (if stream_finalized sm \<or> (only_if_unstarted \<and> sm_started sm) then (sm, w)
      else (case stream_result sm how of
          Inl _ \<Rightarrow> (sm, w)
        | Inr result \<Rightarrow>
            (let st = finalize_attempt hs g iv result bytes (how = Closed) closes1 (sm, w) in
             if stream_finalized (fst st) then st
             else finalize_attempt hs g iv result bytes (how = Closed) closes2 st)))"

section \<open>The life of a stream\<close>

text \<open>A pending stream is claimed once; its entry is gone afterwards.\<close>

definition claim_stream ::
  "string \<Rightarrow> ('s, 'l, 'p, 'o) gateway_world \<Rightarrow> (py_exn + managed_stream) \<times> ('s, 'l, 'p, 'o) gateway_world" where
  "claim_stream i w =
     (case map_of (gw_streams w) i of
        None \<Rightarrow> (Inl (ValueError ''Capability stream is missing, expired, or already claimed''), w)
      | Some sm \<Rightarrow> (Inr sm, w\<lparr>gw_streams := AList.delete i (gw_streams w)\<rparr>))"

definition expired_end :: "bool \<Rightarrow> stream_end" where
  "expired_end at_deadline = (if at_deadline then Broken StreamTimeout else Closed)"

definition expire_stream ::
  "hosts \<Rightarrow> ('s, 'l, 'p, 'o) gateway \<Rightarrow> invocation_env \<Rightarrow> bool \<Rightarrow> bool \<Rightarrow> bool \<Rightarrow> string \<Rightarrow>
   ('s, 'l, 'p, 'o) gateway_world \<Rightarrow> ('s, 'l, 'p, 'o) gateway_world" where
  "expire_stream hs g iv at_deadline closes1 closes2 i w =
     (case claim_stream i w of
        (Inl _, w') \<Rightarrow> w'
      | (Inr sm, w') \<Rightarrow>
          snd (finalize_stream hs g iv False (expired_end at_deadline) (document_size (hs_lib hs) (sm_output sm))
                 closes1 closes2 sm w'))"

definition expire_claimed_stream ::
  "hosts \<Rightarrow> ('s, 'l, 'p, 'o) gateway \<Rightarrow> invocation_env \<Rightarrow> bool \<Rightarrow> bool \<Rightarrow> bool \<Rightarrow> managed_stream \<Rightarrow>
   ('s, 'l, 'p, 'o) gateway_world \<Rightarrow> managed_stream \<times> ('s, 'l, 'p, 'o) gateway_world" where
  "expire_claimed_stream hs g iv at_deadline closes1 closes2 sm w =
     finalize_stream hs g iv True (expired_end at_deadline) (document_size (hs_lib hs) (sm_output sm))
       closes1 closes2 sm w"

definition begin_stream_iteration :: "managed_stream \<Rightarrow> py_exn + managed_stream" where
  "begin_stream_iteration sm =
     (if stream_finalized sm then Inl (ValueError ''Capability stream expired before iteration started'')
      else Inr (sm\<lparr>sm_started := True\<rparr>))"

text \<open>The body of \<open>managed()\<close>: the chunks delivered and the stream and world after its \<open>finally\<close>.\<close>

definition consume_stream ::
  "hosts \<Rightarrow> ('s, 'l, 'p, 'o) gateway \<Rightarrow> invocation_env \<Rightarrow> stream_failure option \<Rightarrow> nat \<Rightarrow> bool \<Rightarrow> bool \<Rightarrow>
   managed_stream \<Rightarrow> ('s, 'l, 'p, 'o) gateway_world \<Rightarrow>
   py_exn + (string list \<times> managed_stream \<times> ('s, 'l, 'p, 'o) gateway_world)" where
  "consume_stream hs g iv ending wanted closes1 closes2 sm w =
     bindr (begin_stream_iteration sm) (\<lambda>sm1.
       case read_stream (hs_lib hs) sm1 ending wanted of
         (delivered, bytes, how) \<Rightarrow>
           Inr (delivered, finalize_stream hs g iv False how bytes closes1 closes2 sm1 w))"

text \<open>Closing an iterator that never started.\<close>

definition close_unstarted ::
  "hosts \<Rightarrow> ('s, 'l, 'p, 'o) gateway \<Rightarrow> invocation_env \<Rightarrow> bool \<Rightarrow> bool \<Rightarrow> managed_stream \<Rightarrow>
   ('s, 'l, 'p, 'o) gateway_world \<Rightarrow> managed_stream \<times> ('s, 'l, 'p, 'o) gateway_world" where
  "close_unstarted hs g iv closes1 closes2 sm w =
     finalize_stream hs g iv False Closed (document_size (hs_lib hs) (sm_output sm)) closes1 closes2 sm w"

section \<open>What a stream guarantees\<close>

definition total_bytes :: "string list \<Rightarrow> int" where
  "total_bytes chunks = sum_list (map (\<lambda>c. int (length c)) chunks)"

lemma drain_bounds:
  "drain limit max_events ending wanted chunks events bytes = (delivered, n, how) \<Longrightarrow>
     events \<le> max_events \<Longrightarrow> bytes \<le> limit \<Longrightarrow>
     events + int (length delivered) \<le> max_events \<and> bytes + total_bytes delivered \<le> limit \<and>
     (\<exists>rest. chunks = delivered @ rest) \<and> length delivered \<le> wanted"
proof (induction limit max_events ending wanted chunks events bytes arbitrary: delivered n how rule: drain.induct)
  case (3 limit max_events ending wanted c chunks events bytes)
  show ?case
  proof (cases "events + 1 > max_events \<or> bytes + int (length c) > limit")
    case True
    with "3.prems" show ?thesis by (auto simp: Let_def total_bytes_def split: if_splits)
  next
    case False
    obtain d m h where rest: "drain limit max_events ending wanted chunks (events + 1) (bytes + int (length c)) = (d, m, h)"
      by (metis prod.exhaust)
    with "3.prems"(1) False have "delivered = c # d" by (simp add: Let_def)
    moreover from False have "\<not> max_events < events + 1" "\<not> limit < bytes + int (length c)" by simp_all
    note "3.IH" [OF this(1) refl this(2) rest]
    ultimately show ?thesis using False by (auto simp: total_bytes_def)
  qed
qed (auto simp: total_bytes_def)

lemma drain_complete:
  "drain limit max_events ending wanted chunks events bytes = (delivered, n, Drained) \<Longrightarrow>
     delivered = chunks \<and> ending = None \<and> length chunks < wanted"
  by (induction limit max_events ending wanted chunks events bytes arbitrary: delivered n rule: drain.induct)
    (auto simp: Let_def split: if_splits prod.splits option.splits)

lemma drain_broken:
  "drain limit max_events ending wanted chunks events bytes = (delivered, n, Broken f) \<Longrightarrow>
     f = OutputLimit \<or> ending = Some f"
  by (induction limit max_events ending wanted chunks events bytes arbitrary: delivered n rule: drain.induct)
    (auto simp: Let_def split: if_splits prod.splits option.splits)

lemma codes_ok: "capability_id_ok ''cancelled''" "capability_id_ok ''capability_output_limit_exceeded''"
  "capability_id_ok ''runtime_timeout''" "capability_id_ok ''provider_failed''"
  by code_simp+

lemma message_ok: "length_between (Suc 0) 4000 ''Capability stream did not complete.''"
  by code_simp

lemma stream_result_exists:
  assumes "\<And>code. how = Broken (StreamBusiness code) \<Longrightarrow> capability_id_ok code"
  obtains result where "stream_result sm how = Inr result" "result_ok result" "rs_ok result \<longleftrightarrow> how = Drained"
proof (cases "how = Drained")
  case True
  then show ?thesis
    by (intro that) (auto simp: stream_result_def Let_def completed_result_def result_ok_iff)
next
  case False
  have code: "capability_id_ok (failure_code how)"
    using assms codes_ok by (auto simp: failure_code_def split: stream_end.split stream_failure.split)
  then obtain r where r: "failed (sm_envelope sm) (failure_code how) ''Capability stream did not complete.'' = Inr r"
    "result_ok r" "\<not> rs_ok r" "rs_status r = Failed" "rs_error r \<noteq> None"
    by (auto simp: failed_def error_valid_def message_ok Let_def error_result_def result_ok_iff)
  then show ?thesis using False
    by (intro that [of "r\<lparr>rs_operation := stream_reference sm (if how = Closed then OpCancelled else OpFailed)\<rparr>"])
      (auto simp: stream_result_def Let_def result_ok_iff)
qed

lemma settle_stream_final:
  assumes "ot_inv s" and "sm_lease sm = Some lease" and "ot_view s (ls_operation lease) = Some r"
    and "oc_status r = OutStarted" and "gt_reliability g = Some rv" and "rv_api rv = sql_api"
    and "result_ok result" and "tz_aware now" and "tz_aware after"
  shows "\<exists>s'. settle_stream g sm result now after s = (True, s') \<and> ot_view s' (ls_operation lease) =
    Some (finished r (if rs_ok result then OutCompleted else OutFailed) (durable_result result False) now)"
proof -
  from sql_outcomes.complete_started [OF assms(1,3,4,7-9) refl, of False] show ?thesis
    by (auto simp: settle_stream_def rel_complete_def lift_store_def assms(2,5,6) Let_def)
qed

lemma finalize_attempt_flags:
  assumes "finalize_attempt hs g iv result bytes cancelled closes (sm, w) = (sm', w')"
  shows "sm_slot_released sm'" and "sm_metric_done sm'"
    and "sm_outcome_done sm \<Longrightarrow> sm_outcome_done sm' \<and> gw_store w' = gw_store w"
    and "\<not> sm_outcome_done sm \<Longrightarrow> settle_stream g sm result (iv_finish iv) (iv_finish_after iv) (gw_store w) = (True, s) \<Longrightarrow>
           sm_outcome_done sm' \<and> gw_store w' = s"
  using assms
  by (auto simp: finalize_attempt_def Let_def emit_def release_slot_def record_metric_def
      split: if_splits prod.splits)

lemma finalize_stream_final:
  assumes "finalize_stream hs g iv False how bytes closes1 closes2 sm w = (sm', w')"
    and "\<not> sm_outcome_done sm" and "stream_result sm how = Inr result"
    and "settle_stream g sm result (iv_finish iv) (iv_finish_after iv) (gw_store w) = (True, s)"
  shows "sm_slot_released sm' \<and> sm_metric_done sm' \<and> sm_outcome_done sm' \<and> gw_store w' = s"
proof -
  obtain sm1 w1 where first: "finalize_attempt hs g iv result bytes (how = Closed) closes1 (sm, w) = (sm1, w1)"
    by fastforce
  note one = finalize_attempt_flags [OF first]
  have open_stream: "\<not> stream_finalized sm" using assms(2) by (simp add: stream_finalized_def)
  show ?thesis
  proof (cases "stream_finalized sm1")
    case True
    then have "sm' = sm1" "w' = w1" using assms(1,3) first open_stream by (simp_all add: finalize_stream_def)
    with one(1,2) one(4) [OF assms(2,4)] show ?thesis by simp
  next
    case False
    then have "finalize_attempt hs g iv result bytes (how = Closed) closes2 (sm1, w1) = (sm', w')"
      using assms(1,3) first open_stream by (simp add: finalize_stream_def)
    note two = finalize_attempt_flags [OF this]
    from one(4) [OF assms(2,4)] two(1-3) show ?thesis by simp
  qed
qed


definition xa_stream :: managed_stream where
  "xa_stream = \<lparr>sm_stream = \<lparr>ps_chunks = [''ab'', ''cd''], ps_output = [], ps_media = ''text/plain'', ps_max_events = 5\<rparr>,
     sm_descriptor = xa_descriptor, sm_envelope = xa_invocation, sm_lease = Some xa_lease,
     sm_slot = \<lparr>al_request = slot_request xa_descriptor xa_invocation, al_released = False\<rparr>, sm_before = xa_snapshot,
     sm_output = JObj [], sm_started = False, sm_iterator_closed = False, sm_outcome_done = False,
     sm_slot_released = False, sm_metric_done = False\<rparr>"

definition xa_streaming :: "(outcome_tables, unit, approval_memory, operation_table) gateway_world" where
  "xa_streaming = xa_world\<lparr>gw_store := xa_started_tables\<rparr>"

lemma xa_started_facts: "ot_inv (gw_store xa_streaming)" "ot_view (gw_store xa_streaming) (ls_operation xa_lease) = Some xa_record"
  by (simp_all add: xa_streaming_def xa_started_inv xa_started_view)


end
