(* ===== verification/Artifacts.thy ===== *)
theory Artifacts
  imports Authorization
begin

text \<open>
  Artifacts (\<open>backend/capability_v2/artifacts.py\<close>): upload sessions and immutable artifact records, the
  in-memory and the SQL store, the in-memory and the file system object storage, and the service
  that ties them together. Random identifiers, the name-based identifier of an artifact, the clock
  and the download policies of owning domains are arguments. The adapters of the external object
  store are further instances of \<open>storage_api\<close>. Directories, symbolic links and disk faults of the
  file system are the two functions of \<open>file_system\<close>.
\<close>

section \<open>Records\<close>

datatype artifact_error =
    ArtifactError string
  | IntegrityError string
  | ArtifactDenied string
  | ArtifactRaised py_exn

datatype upload_status = UpPending | UpUploaded | UpCompleted | UpExpired

record upload_session =
  up_id :: string
  up_tenant :: string
  up_actor :: string
  up_object :: string
  up_media :: string
  up_sha :: string
  up_size :: int
  up_resources :: "string list"
  up_status :: upload_status
  up_stored_sha :: "string option"
  up_stored_size :: "int option"
  up_artifact :: "string option"
  up_created :: timestamp
  up_expires :: timestamp

record artifact_record =
  af_ref :: artifact_ref
  af_tenant :: string
  af_actor :: string
  af_object :: string
  af_resources :: "string list"
  af_created :: timestamp

definition sha256_text :: "string \<Rightarrow> bool" where
  "sha256_text s \<longleftrightarrow> length s = 64 \<and> list_all is_hex s"

definition artifact_ref_ok :: "artifact_ref \<Rightarrow> bool" where
  "artifact_ref_ok r \<longleftrightarrow> identity_ok (ar_id r) \<and> length_between 1 255 (ar_media r) \<and>
     sha256_text (ar_sha r) \<and> 0 \<le> ar_size r \<and> 1 \<le> ar_version r"

record 's artifact_api =
  aa_create :: "'s \<Rightarrow> upload_session \<Rightarrow> artifact_error + upload_session \<times> 's"
  aa_upload :: "'s \<Rightarrow> string \<Rightarrow> artifact_error + upload_session"
  aa_mark :: "'s \<Rightarrow> string \<Rightarrow> string \<Rightarrow> int \<Rightarrow> artifact_error + upload_session \<times> 's"
  aa_finalize :: "'s \<Rightarrow> string \<Rightarrow> artifact_record \<Rightarrow> artifact_error + artifact_record \<times> 's"
  aa_artifact :: "'s \<Rightarrow> string \<Rightarrow> artifact_error + artifact_record"

definition upload_missing :: artifact_error where
  "upload_missing = ArtifactError ''upload_session_not_found''"

section \<open>The in-memory store\<close>

record artifact_memory =
  ams_uploads :: "(string \<times> upload_session) list"
  ams_artifacts :: "(string \<times> artifact_record) list"

definition ams_create ::
  "artifact_memory \<Rightarrow> upload_session \<Rightarrow> artifact_error + upload_session \<times> artifact_memory" where
  "ams_create s x =
     (if map_of (ams_uploads s) (up_id x) \<noteq> None then Inl (ArtifactError ''upload_session_exists'')
      else Inr (x, s\<lparr>ams_uploads := AList.update (up_id x) x (ams_uploads s)\<rparr>))"

definition ams_upload :: "artifact_memory \<Rightarrow> string \<Rightarrow> artifact_error + upload_session" where
  "ams_upload s i = (case map_of (ams_uploads s) i of None \<Rightarrow> Inl upload_missing | Some x \<Rightarrow> Inr x)"

definition ams_mark ::
  "artifact_memory \<Rightarrow> string \<Rightarrow> string \<Rightarrow> int \<Rightarrow> artifact_error + upload_session \<times> artifact_memory" where
  "ams_mark s i sha bytes =
     (case map_of (ams_uploads s) i of
        None \<Rightarrow> Inl upload_missing
      | Some x \<Rightarrow>
          if up_status x = UpUploaded then
            (if (up_stored_sha x, up_stored_size x) \<noteq> (Some sha, Some bytes)
             then Inl (IntegrityError ''upload metadata conflict'') else Inr (x, s))
          else if up_status x \<noteq> UpPending then Inl (IntegrityError ''upload session is not pending'')
          else
            (let x' = x\<lparr>up_status := UpUploaded, up_stored_sha := Some sha, up_stored_size := Some bytes\<rparr> in
             Inr (x', s\<lparr>ams_uploads := AList.update i x' (ams_uploads s)\<rparr>)))"

definition ams_finalize ::
  "artifact_memory \<Rightarrow> string \<Rightarrow> artifact_record \<Rightarrow> artifact_error + artifact_record \<times> artifact_memory" where
  "ams_finalize s i r =
     (case map_of (ams_uploads s) i of
        None \<Rightarrow> Inl upload_missing
      | Some x \<Rightarrow>
          if up_status x = UpCompleted then
            (if up_artifact x \<noteq> Some (ar_id (af_ref r))
             then Inl (IntegrityError ''upload already finalized with another artifact'')
             else (case map_of (ams_artifacts s) (ar_id (af_ref r)) of
                 None \<Rightarrow> Inl (ArtifactRaised (KeyError (ar_id (af_ref r))))
               | Some old \<Rightarrow> Inr (old, s)))
          else if up_status x \<noteq> UpUploaded then Inl (IntegrityError ''upload session is not uploaded'')
          else Inr (r, s\<lparr>ams_artifacts := AList.update (ar_id (af_ref r)) r (ams_artifacts s),
                 ams_uploads := AList.update i
                   (x\<lparr>up_status := UpCompleted, up_artifact := Some (ar_id (af_ref r))\<rparr>) (ams_uploads s)\<rparr>))"

definition ams_artifact :: "artifact_memory \<Rightarrow> string \<Rightarrow> artifact_error + artifact_record" where
  "ams_artifact s i = (case map_of (ams_artifacts s) i of
     None \<Rightarrow> Inl (ArtifactError ''artifact_not_found'') | Some r \<Rightarrow> Inr r)"

definition memory_artifacts :: "artifact_memory artifact_api" where
  "memory_artifacts = \<lparr>aa_create = ams_create, aa_upload = ams_upload, aa_mark = ams_mark,
     aa_finalize = ams_finalize, aa_artifact = ams_artifact\<rparr>"

section \<open>The SQL store\<close>

text \<open>
  Rows of the three tables. Upload sessions have the primary key \<open>upload_id\<close> and unique object keys,
  artifacts the primary key \<open>artifact_id\<close> and unique object keys; attachment references are unique in
  attachment, actor and tenant. Column widths are not modelled.
\<close>

record attachment =
  at_id :: string
  at_actor :: string
  at_tenant :: string
  at_media :: string
  at_name :: string
  at_size :: int
  at_checksum :: string

record artifact_tables =
  atb_uploads :: "upload_session list"
  atb_artifacts :: "artifact_record list"
  atb_attachments :: "attachment list"

definition duplicate_key :: artifact_error where
  "duplicate_key = ArtifactRaised (OtherError ''IntegrityError'')"

definition upload_from_row :: "upload_session \<Rightarrow> upload_session" where
  "upload_from_row x = x\<lparr>up_created := as_utc (up_created x), up_expires := as_utc (up_expires x)\<rparr>"

definition artifact_from_row :: "artifact_record \<Rightarrow> artifact_error + artifact_record" where
  "artifact_from_row r =
     (if artifact_ref_ok (af_ref r) then Inr (r\<lparr>af_created := as_utc (af_created r)\<rparr>)
      else Inl (ArtifactRaised (ValueError ''ArtifactRef'')))"

definition upload_row :: "artifact_tables \<Rightarrow> string \<Rightarrow> upload_session option" where
  "upload_row s i = map_option upload_from_row (List.find (\<lambda>x. up_id x = i) (atb_uploads s))"

definition atb_create ::
  "artifact_tables \<Rightarrow> upload_session \<Rightarrow> artifact_error + upload_session \<times> artifact_tables" where
  "atb_create s x =
     (if list_ex (\<lambda>y. up_id y = up_id x \<or> up_object y = up_object x) (atb_uploads s) then Inl duplicate_key
      else Inr (x, s\<lparr>atb_uploads := atb_uploads s @
             [x\<lparr>up_stored_sha := None, up_stored_size := None, up_created := to_column (up_created x),
                up_expires := to_column (up_expires x)\<rparr>]\<rparr>))"

definition atb_upload :: "artifact_tables \<Rightarrow> string \<Rightarrow> artifact_error + upload_session" where
  "atb_upload s i = (case upload_row s i of None \<Rightarrow> Inl upload_missing | Some x \<Rightarrow> Inr x)"

definition atb_mark ::
  "artifact_tables \<Rightarrow> string \<Rightarrow> string \<Rightarrow> int \<Rightarrow> artifact_error + upload_session \<times> artifact_tables" where
  "atb_mark s i sha bytes =
     (let hit = (\<lambda>x. up_id x = i \<and> up_status x = UpPending) in
      if length (filter hit (atb_uploads s)) \<noteq> 1 then
        (case upload_row s i of
           None \<Rightarrow> Inl upload_missing
         | Some x \<Rightarrow>
             if up_status x \<noteq> UpUploaded \<or> (up_stored_sha x, up_stored_size x) \<noteq> (Some sha, Some bytes)
             then Inl (IntegrityError ''upload metadata conflict'') else Inr (x, s))
      else
        (let s' = s\<lparr>atb_uploads := map (\<lambda>x. if hit x
               then x\<lparr>up_status := UpUploaded, up_stored_sha := Some sha, up_stored_size := Some bytes\<rparr>
               else x) (atb_uploads s)\<rparr> in
         bindr (atb_upload s' i) (\<lambda>x. Inr (x, s'))))"

text \<open>The last component of an object key, as \<open>PurePosixPath.name\<close>.\<close>

definition key_parts :: "string \<Rightarrow> string list" where
  "key_parts key = filter (\<lambda>p. p \<noteq> [] \<and> p \<noteq> ''.'') (str_split CHR ''/'' key)"

definition key_name :: "string \<Rightarrow> string" where
  "key_name key = (if key_parts key = [] then [] else last (key_parts key))"

definition previewable :: "artifact_ref \<Rightarrow> bool" where
  "previewable r \<longleftrightarrow> ar_size r \<le> 50 * 1024 * 1024 \<and>
     (str_prefix ''image/'' (ar_media r) \<or> str_prefix ''text/'' (ar_media r) \<or> ar_media r = ''application/pdf'')"

definition upsert_attachment :: "attachment \<Rightarrow> attachment list \<Rightarrow> attachment list" where
  "upsert_attachment a rows =
     (let same = (\<lambda>b. at_id b = at_id a \<and> at_actor b = at_actor a \<and> at_tenant b = at_tenant a) in
      if list_ex same rows then map (\<lambda>b. if same b then a else b) rows else rows @ [a])"

definition atb_finalize ::
  "artifact_tables \<Rightarrow> string \<Rightarrow> artifact_record \<Rightarrow> artifact_error + artifact_record \<times> artifact_tables" where
  "atb_finalize s i r =
     (case upload_row s i of
        None \<Rightarrow> Inl upload_missing
      | Some x \<Rightarrow>
          if up_status x = UpCompleted \<and> up_artifact x \<noteq> None \<and> up_artifact x \<noteq> Some [] then
            (case List.find (\<lambda>y. Some (ar_id (af_ref y)) = up_artifact x) (atb_artifacts s) of
               None \<Rightarrow> Inl (IntegrityError ''completed upload has no artifact'')
             | Some old \<Rightarrow> bindr (artifact_from_row old) (\<lambda>found. Inr (found, s)))
          else if up_status x \<noteq> UpUploaded then Inl (IntegrityError ''upload session is not uploaded'')
          else if list_ex (\<lambda>y. ar_id (af_ref y) = ar_id (af_ref r) \<or> af_object y = af_object r) (atb_artifacts s)
          then Inl duplicate_key
          else
            (let hit = (\<lambda>y. up_id y = i \<and> up_status y = UpUploaded); ref = af_ref r in
             if length (filter hit (atb_uploads s)) \<noteq> 1 then Inl (IntegrityError ''upload finalization race'')
             else Inr (r, s\<lparr>
               atb_artifacts := atb_artifacts s @ [r\<lparr>af_created := to_column (af_created r)\<rparr>],
               atb_attachments := (if previewable ref
                 then upsert_attachment \<lparr>at_id = ar_id ref, at_actor = af_actor r, at_tenant = af_tenant r,
                        at_media = ar_media ref, at_name = key_name (af_object r), at_size = ar_size ref,
                        at_checksum = ''sha256:'' @ ar_sha ref\<rparr> (atb_attachments s)
                 else atb_attachments s),
               atb_uploads := map (\<lambda>y. if hit y
                 then y\<lparr>up_status := UpCompleted, up_artifact := Some (ar_id ref)\<rparr> else y) (atb_uploads s)\<rparr>)))"

definition atb_artifact :: "artifact_tables \<Rightarrow> string \<Rightarrow> artifact_error + artifact_record" where
  "atb_artifact s i = (case List.find (\<lambda>y. ar_id (af_ref y) = i) (atb_artifacts s) of
     None \<Rightarrow> Inl (ArtifactError ''artifact_not_found'') | Some r \<Rightarrow> artifact_from_row r)"

definition sql_artifacts :: "artifact_tables artifact_api" where
  "sql_artifacts = \<lparr>aa_create = atb_create, aa_upload = atb_upload, aa_mark = atb_mark,
     aa_finalize = atb_finalize, aa_artifact = atb_artifact\<rparr>"

section \<open>Object storage\<close>

record 'o storage_api =
  st_read :: "'o \<Rightarrow> string \<Rightarrow> int \<Rightarrow> artifact_error + string"
  st_put :: "'o \<Rightarrow> string \<Rightarrow> string \<Rightarrow> (artifact_error + unit) \<times> 'o"
  st_stat :: "'o \<Rightarrow> string \<Rightarrow> artifact_error + string \<times> int"

type_synonym object_memory = "(string \<times> string) list"

definition obj_read :: "object_memory \<Rightarrow> string \<Rightarrow> int \<Rightarrow> artifact_error + string" where
  "obj_read s key limit = (case map_of s key of
     None \<Rightarrow> Inl (ArtifactRaised (KeyError key))
   | Some data \<Rightarrow> if int (length data) > limit then Inl (IntegrityError ''artifact exceeds read limit'') else Inr data)"

definition obj_put :: "object_memory \<Rightarrow> string \<Rightarrow> string \<Rightarrow> (artifact_error + unit) \<times> object_memory" where
  "obj_put s key data = (Inr (), AList.update key data s)"

definition obj_stat :: "hostlib \<Rightarrow> object_memory \<Rightarrow> string \<Rightarrow> artifact_error + string \<times> int" where
  "obj_stat h s key = (case map_of s key of
     None \<Rightarrow> Inl (IntegrityError ''artifact object is missing'')
   | Some data \<Rightarrow> Inr (sha256_hex h data, int (length data)))"

definition memory_objects :: "hostlib \<Rightarrow> object_memory storage_api" where
  "memory_objects h = \<lparr>st_read = obj_read, st_put = obj_put, st_stat = obj_stat h\<rparr>"

text \<open>
  Files under a root. \<open>fs_resolve\<close> is where the path of an object key leads after symbolic links,
  \<open>None\<close> when it leaves the root; \<open>fs_writable\<close> says whether the disk takes the data.
\<close>

record file_system =
  fs_resolve :: "string list \<Rightarrow> string list option"
  fs_writable :: "string list \<Rightarrow> bool"
  fs_files :: "(string list \<times> string) list"

definition path_for :: "file_system \<Rightarrow> string \<Rightarrow> artifact_error + string list" where
  "path_for s key =
     (let parts = key_parts (dropWhile (\<lambda>c. c = CHR ''/'') (str_strip key)) in
      if parts = [] \<or> ''..'' \<in> set parts then Inl (ArtifactDenied ''invalid artifact object key'')
      else (case fs_resolve s parts of
          None \<Rightarrow> Inl (ArtifactDenied ''artifact object escaped configured root'')
        | Some path \<Rightarrow> Inr path))"

definition fs_read :: "file_system \<Rightarrow> string \<Rightarrow> int \<Rightarrow> artifact_error + string" where
  "fs_read s key limit =
     bindr (path_for s key) (\<lambda>path.
       case map_of (fs_files s) path of
         None \<Rightarrow> Inl (ArtifactRaised (OtherError ''FileNotFoundError''))
       | Some data \<Rightarrow>
           if int (length data) > limit then Inl (IntegrityError ''artifact exceeds read limit'') else Inr data)"

text \<open>
  The file is created exclusively; on any exception, the one for an existing file included, the path is
  removed again.
\<close>

definition fs_put :: "file_system \<Rightarrow> string \<Rightarrow> string \<Rightarrow> (artifact_error + unit) \<times> file_system" where
  "fs_put s key data =
     (case path_for s key of
        Inl e \<Rightarrow> (Inl e, s)
      | Inr path \<Rightarrow>
          (let removed = s\<lparr>fs_files := AList.delete path (fs_files s)\<rparr> in
           if map_of (fs_files s) path \<noteq> None
           then (Inl (ArtifactRaised (OtherError ''FileExistsError'')), removed)
           else if \<not> fs_writable s path then (Inl (ArtifactRaised (OtherError ''OSError'')), removed)
           else (Inr (), s\<lparr>fs_files := AList.update path data (fs_files s)\<rparr>)))"

definition fs_stat :: "hostlib \<Rightarrow> file_system \<Rightarrow> string \<Rightarrow> artifact_error + string \<times> int" where
  "fs_stat h s key =
     bindr (path_for s key) (\<lambda>path.
       case map_of (fs_files s) path of
         None \<Rightarrow> Inl (IntegrityError ''artifact object is missing'')
       | Some data \<Rightarrow> Inr (sha256_hex h data, int (length data)))"

definition file_objects :: "hostlib \<Rightarrow> file_system storage_api" where
  "file_objects h = \<lparr>st_read = fs_read, st_put = fs_put, st_stat = fs_stat h\<rparr>"

section \<open>Access\<close>

definition artifact_scopes_allow :: "string list \<Rightarrow> string list \<Rightarrow> bool" where
  "artifact_scopes_allow granted requested = list_all (scope_allows granted) requested"

definition artifact_authorize ::
  "string \<Rightarrow> string \<Rightarrow> string list \<Rightarrow> consumer_identity \<Rightarrow> string list \<Rightarrow> artifact_error + unit" where
  "artifact_authorize tenant actor resources who granted =
     (let same_actor = (actor_id who = actor) in
      if tn_id (ci_tenant who) \<noteq> tenant then Inl (ArtifactDenied ''artifact belongs to another tenant'')
      else if \<not> same_actor \<and> granted = [] then Inl (ArtifactDenied ''artifact access requires owner or resource grant'')
      else if resources = [] \<and> \<not> same_actor then Inl (ArtifactDenied ''private artifact belongs to another actor'')
      else if granted \<noteq> [] \<and> \<not> artifact_scopes_allow granted resources
      then Inl (ArtifactDenied ''artifact resource scope is not granted'')
      else Inr ())"

definition upload_authorize :: "upload_session \<Rightarrow> consumer_identity \<Rightarrow> artifact_error + unit" where
  "upload_authorize x who = artifact_authorize (up_tenant x) (up_actor x) (up_resources x) who []"

section \<open>The service\<close>

definition new_upload ::
  "consumer_identity \<Rightarrow> string \<Rightarrow> string \<Rightarrow> int \<Rightarrow> string list \<Rightarrow> int \<Rightarrow> string \<Rightarrow> timestamp \<Rightarrow> upload_session" where
  "new_upload who media sha bytes resources expires_in uuid now =
     \<lparr>up_id = ''upload_'' @ uuid, up_tenant = tn_id (ci_tenant who), up_actor = actor_id who,
      up_object = ''capability-artifacts/'' @ tn_id (ci_tenant who) @ ''/'' @ ''upload_'' @ uuid, up_media = media,
      up_sha = sha, up_size = bytes, up_resources = sorted_strs resources, up_status = UpPending,
      up_stored_sha = None, up_stored_size = None, up_artifact = None, up_created = now,
      up_expires = Aware (instant now + expires_in)\<rparr>"

definition create_upload ::
  "'s artifact_api \<Rightarrow> 's \<Rightarrow> consumer_identity \<Rightarrow> string \<Rightarrow> string \<Rightarrow> int \<Rightarrow> string list \<Rightarrow> int \<Rightarrow> string \<Rightarrow>
   timestamp \<Rightarrow> artifact_error + upload_session \<times> 's" where
  "create_upload api s who media sha bytes resources expires_in uuid now =
     (if \<not> sha256_text sha then Inl (IntegrityError ''expected_sha256 must be lowercase SHA-256'')
      else if bytes < 0 then Inl (IntegrityError ''expected_byte_size cannot be negative'')
      else if \<not> length_between 1 255 media then Inl (IntegrityError ''invalid media_type'')
      else if expires_in \<le> 0 \<or> expires_in > 24 * 3600 * 1000000 then Inl (IntegrityError ''invalid upload expiry'')
      else aa_create api s (new_upload who media sha bytes resources expires_in uuid now))"

text \<open>The loop that copies the client's stream; an empty chunk ends it.\<close>

fun copy_stream :: "int \<Rightarrow> string list \<Rightarrow> string \<Rightarrow> artifact_error + string" where
  "copy_stream limit [] data = Inr data"
| "copy_stream limit (chunk # chunks) data =
     (if chunk = [] then Inr data
      else if int (length data) + int (length chunk) > limit
      then Inl (IntegrityError ''uploaded object exceeds expected byte size'')
      else copy_stream limit chunks (data @ chunk))"

text \<open>\<open>upload_stream\<close> up to the write: the session and the verified data.\<close>

definition upload_check ::
  "hostlib \<Rightarrow> 's artifact_api \<Rightarrow> 's \<Rightarrow> string \<Rightarrow> consumer_identity \<Rightarrow> string list \<Rightarrow> timestamp \<Rightarrow>
   artifact_error + upload_session \<times> string" where
  "upload_check h api s i who chunks now =
     bindr (aa_upload api s i) (\<lambda>x.
     bindr (upload_authorize x who) (\<lambda>_.
     bindr (unless_raise (up_status x = UpPending \<and> instant now < instant (up_expires x))
              (IntegrityError ''upload session expired or closed'')) (\<lambda>_.
     bindr (copy_stream (up_size x) chunks []) (\<lambda>data.
     bindr (unless_raise (int (length data) = up_size x) (IntegrityError ''uploaded object byte size mismatch'')) (\<lambda>_.
     bindr (unless_raise (sha256_hex h data = up_sha x) (IntegrityError ''uploaded object sha256 mismatch'')) (\<lambda>_.
       Inr (x, data)))))))"

definition upload_stream ::
  "hostlib \<Rightarrow> 's artifact_api \<Rightarrow> 'o storage_api \<Rightarrow> 's \<times> 'o \<Rightarrow> string \<Rightarrow> consumer_identity \<Rightarrow> string list \<Rightarrow>
   timestamp \<Rightarrow> (artifact_error + unit) \<times> 's \<times> 'o" where
  "upload_stream h api storage st i who chunks now =
     (case st of (s, objects) \<Rightarrow>
      case upload_check h api s i who chunks now of
        Inl e \<Rightarrow> (Inl e, s, objects)
      | Inr (x, data) \<Rightarrow>
          (case st_put storage objects (up_object x) data of
             (Inl e, objects') \<Rightarrow> (Inl e, s, objects')
           | (Inr _, objects') \<Rightarrow>
               (case aa_mark api s i (sha256_hex h data) (int (length data)) of
                  Inl e \<Rightarrow> (Inl e, s, objects')
                | Inr (_, s') \<Rightarrow> (Inr (), s', objects'))))"

definition get_upload :: "'s artifact_api \<Rightarrow> 's \<Rightarrow> string \<Rightarrow> consumer_identity \<Rightarrow> artifact_error + upload_session" where
  "get_upload api s i who =
     bindr (aa_upload api s i) (\<lambda>x. bindr (upload_authorize x who) (\<lambda>_. Inr x))"

text \<open>\<open>uuid5\<close> is the hexadecimal name-based identifier of an upload.\<close>

definition upload_ref :: "(string \<Rightarrow> string) \<Rightarrow> upload_session \<Rightarrow> artifact_ref" where
  "upload_ref uuid5 x =
     \<lparr>ar_id = ''artifact_'' @ uuid5 (up_id x), ar_media = up_media x,
      ar_sha = (case up_stored_sha x of None \<Rightarrow> [] | Some sha \<Rightarrow> sha),
      ar_size = (case up_stored_size x of None \<Rightarrow> 0 | Some n \<Rightarrow> n), ar_version = 1\<rparr>"

definition upload_record :: "(string \<Rightarrow> string) \<Rightarrow> upload_session \<Rightarrow> timestamp \<Rightarrow> artifact_record" where
  "upload_record uuid5 x now =
     \<lparr>af_ref = upload_ref uuid5 x, af_tenant = up_tenant x, af_actor = up_actor x, af_object = up_object x,
      af_resources = up_resources x, af_created = now\<rparr>"

definition finalize_check :: "upload_session \<Rightarrow> string \<Rightarrow> timestamp \<Rightarrow> artifact_error + unit" where
  "finalize_check x reported now =
     (if instant (up_expires x) \<le> instant now then Inl (IntegrityError ''upload session expired'')
      else if reported \<noteq> up_sha x then Inl (IntegrityError ''reported sha256 differs from upload contract'')
      else if up_status x \<noteq> UpUploaded then Inl (IntegrityError ''upload session is not uploaded'')
      else if (case up_stored_sha x of None \<Rightarrow> [] | Some sha \<Rightarrow> sha) \<noteq> up_sha x
      then Inl (IntegrityError ''uploaded object sha256 mismatch'')
      else if up_stored_size x \<noteq> Some (up_size x)
      then Inl (IntegrityError ''uploaded object byte size mismatch'')
      else Inr ())"

definition finalize_upload ::
  "(string \<Rightarrow> string) \<Rightarrow> 's artifact_api \<Rightarrow> 's \<Rightarrow> string \<Rightarrow> consumer_identity \<Rightarrow> string \<Rightarrow> timestamp \<Rightarrow>
   artifact_error + artifact_ref \<times> 's" where
  "finalize_upload uuid5 api s i who reported now =
     bindr (get_upload api s i who) (\<lambda>x.
       if up_status x = UpCompleted \<and> up_artifact x \<noteq> None \<and> up_artifact x \<noteq> Some []
       then bindr (aa_artifact api s (the (up_artifact x))) (\<lambda>r. Inr (af_ref r, s))
       else bindr (finalize_check x reported now) (\<lambda>_.
         if \<not> artifact_ref_ok (upload_ref uuid5 x) then Inl (ArtifactRaised (ValueError ''ArtifactRef''))
         else bindr (aa_finalize api s i (upload_record uuid5 x now)) (\<lambda>(r, s'). Inr (af_ref r, s'))))"

text \<open>\<open>shared\<close> tells whether a download policy of an owning domain admits the caller.\<close>

definition authorize_download ::
  "(artifact_record \<Rightarrow> consumer_identity \<Rightarrow> bool) \<Rightarrow> 's artifact_api \<Rightarrow> 's \<Rightarrow> string \<Rightarrow> consumer_identity \<Rightarrow>
   string list \<Rightarrow> artifact_error + artifact_record" where
  "authorize_download shared api s i who granted =
     bindr (aa_artifact api s i) (\<lambda>r.
       case artifact_authorize (af_tenant r) (af_actor r) (af_resources r) who granted of
         Inl (ArtifactDenied m) \<Rightarrow> if shared r who then Inr r else Inl (ArtifactDenied m)
       | Inl e \<Rightarrow> Inl e
       | Inr _ \<Rightarrow> Inr r)"

definition read_record ::
  "hostlib \<Rightarrow> 'o storage_api \<Rightarrow> 'o \<Rightarrow> artifact_record \<Rightarrow> artifact_ref \<Rightarrow> int \<Rightarrow> artifact_error + string" where
  "read_record h storage objects r ref limit =
     (if af_ref r \<noteq> ref \<or> ar_size ref > limit
      then Inl (IntegrityError ''artifact reference or size limit mismatch'')
      else bindr (st_read storage objects (af_object r) limit) (\<lambda>data.
        if int (length data) \<noteq> ar_size ref \<or> sha256_hex h data \<noteq> ar_sha ref
        then Inl (IntegrityError ''artifact content integrity mismatch'') else Inr data))"

definition artifact_read ::
  "hostlib \<Rightarrow> (artifact_record \<Rightarrow> consumer_identity \<Rightarrow> bool) \<Rightarrow> 's artifact_api \<Rightarrow> 'o storage_api \<Rightarrow> 's \<times> 'o \<Rightarrow>
   artifact_ref \<Rightarrow> consumer_identity \<Rightarrow> int \<Rightarrow> string list \<Rightarrow> artifact_error + string" where
  "artifact_read h shared api storage st ref who limit granted =
     bindr (authorize_download shared api (fst st) (ar_id ref) who granted) (\<lambda>r.
       read_record h storage (snd st) r ref limit)"

end
