(* ===== verification/ArtifactProperties.thy ===== *)
theory ArtifactProperties
  imports Artifacts OperationProperties
begin

text \<open>
  Correctness of artifacts. Both stores provide the locale \<open>artifact_store\<close>. The client of the stores is
  a step relation in which the three parts of an upload - check, write to the object storage, mark -
  are separate steps of any number of concurrent callers; in it every artifact stays backed by an
  object of its digest. The file system storage breaks that: a second write removes the first.
\<close>

section \<open>The interface of the stores\<close>

definition marked :: "string \<Rightarrow> int \<Rightarrow> upload_session \<Rightarrow> upload_session" where
  "marked sha n x = x\<lparr>up_status := UpUploaded, up_stored_sha := Some sha, up_stored_size := Some n\<rparr>"

definition completed :: "string \<Rightarrow> upload_session \<Rightarrow> upload_session" where
  "completed a x = x\<lparr>up_status := UpCompleted, up_artifact := Some a\<rparr>"

locale artifact_store =
  fixes api :: "'s artifact_api"
    and uploads :: "'s \<Rightarrow> string \<Rightarrow> upload_session option"
    and artifacts :: "'s \<Rightarrow> string \<Rightarrow> artifact_record option"
    and inv :: "'s \<Rightarrow> bool"
  assumes created: "inv s \<Longrightarrow> tz_aware (up_created x) \<Longrightarrow> tz_aware (up_expires x) \<Longrightarrow> up_stored_sha x = None \<Longrightarrow>
      up_stored_size x = None \<Longrightarrow> aa_create api s x = Inr (x', s') \<Longrightarrow>
      uploads s (up_id x) = None \<and> inv s' \<and> uploads s' = (uploads s)(up_id x \<mapsto> x) \<and> artifacts s' = artifacts s"
    and upload: "inv s \<Longrightarrow>
      aa_upload api s i = (case uploads s i of None \<Rightarrow> Inl upload_missing | Some x \<Rightarrow> Inr x)"
    and artifact: "inv s \<Longrightarrow> aa_artifact api s a =
      (case artifacts s a of None \<Rightarrow> Inl (ArtifactError ''artifact_not_found'') | Some r \<Rightarrow> Inr r)"
    and mark: "inv s \<Longrightarrow> aa_mark api s i sha n = Inr (x', s') \<Longrightarrow> \<exists>x. uploads s i = Some x \<and>
      (up_status x = UpUploaded \<and> s' = s \<or>
       up_status x = UpPending \<and> inv s' \<and> uploads s' = (uploads s)(i \<mapsto> marked sha n x) \<and>
       artifacts s' = artifacts s)"
    and finalized: "inv s \<Longrightarrow> uploads s i = Some x \<Longrightarrow> up_status x = UpUploaded \<Longrightarrow> artifact_ref_ok (af_ref r) \<Longrightarrow>
      tz_aware (af_created r) \<Longrightarrow> aa_finalize api s i r = Inr (r', s') \<Longrightarrow>
      r' = r \<and> inv s' \<and> uploads s' = (uploads s)(i \<mapsto> completed (ar_id (af_ref r)) x) \<and>
      artifacts s' = (artifacts s)(ar_id (af_ref r) \<mapsto> r)"

section \<open>The stores provide it\<close>

interpretation memory_artifact_store: artifact_store memory_artifacts
    "\<lambda>s. map_of (ams_uploads s)" "\<lambda>s. map_of (ams_artifacts s)" "\<lambda>_. True"
proof unfold_locales
  fix s :: artifact_memory and i sha n x' s'
  assume "aa_mark memory_artifacts s i sha n = Inr (x', s')"
  then show "\<exists>x. map_of (ams_uploads s) i = Some x \<and>
      (up_status x = UpUploaded \<and> s' = s \<or>
       up_status x = UpPending \<and> True \<and> map_of (ams_uploads s') = (map_of (ams_uploads s))(i \<mapsto> marked sha n x) \<and>
       map_of (ams_artifacts s') = map_of (ams_artifacts s))"
    by (auto simp: memory_artifacts_def ams_mark_def marked_def Let_def update_conv' split: option.splits if_splits)
qed (auto simp: memory_artifacts_def ams_create_def ams_upload_def ams_artifact_def ams_finalize_def completed_def
    update_conv' split: option.splits if_splits)

definition stored_uploads :: "artifact_tables \<Rightarrow> string \<Rightarrow> upload_session option" where
  "stored_uploads s = map_of (map (\<lambda>x. (up_id x, upload_from_row x)) (atb_uploads s))"

definition artifact_utc :: "artifact_record \<Rightarrow> artifact_record" where
  "artifact_utc r = r\<lparr>af_created := as_utc (af_created r)\<rparr>"

lemma row_of_artifact: "artifact_from_row r =
    (if artifact_ref_ok (af_ref r) then Inr (artifact_utc r) else Inl (ArtifactRaised (ValueError ''ArtifactRef'')))"
  by (simp add: artifact_from_row_def artifact_utc_def)

definition stored_artifacts :: "artifact_tables \<Rightarrow> string \<Rightarrow> artifact_record option" where
  "stored_artifacts s = map_of (map (\<lambda>r. (ar_id (af_ref r), artifact_utc r)) (atb_artifacts s))"

definition tables_inv :: "artifact_tables \<Rightarrow> bool" where
  "tables_inv s \<longleftrightarrow> distinct (map up_id (atb_uploads s)) \<and>
     distinct (map (\<lambda>r. ar_id (af_ref r)) (atb_artifacts s)) \<and>
     list_all (\<lambda>r. artifact_ref_ok (af_ref r)) (atb_artifacts s)"

lemma upload_row_view: "upload_row s i = stored_uploads s i"
  by (simp add: upload_row_def stored_uploads_def find_map_of map_of_map_values [of up_id upload_from_row])

lemma map_of_new: "k \<notin> f ` set xs \<Longrightarrow>
    [k \<mapsto> v] ++ map_of (map (\<lambda>x. (f x, g x)) xs) = (map_of (map (\<lambda>x. (f x, g x)) xs))(k \<mapsto> v)"
  by (induction xs) (auto simp: fun_upd_twist)

lemma filter_single: "distinct xs \<Longrightarrow> w \<in> set xs \<Longrightarrow> filter (\<lambda>y. y = w) xs = [w]"
  by (induction xs) (auto simp: filter_empty_conv)

lemma as_utc_column [simp]: "tz_aware t \<Longrightarrow> as_utc (to_column t) = t"
  by (cases t) simp_all

lemma stored_upload_row:
  assumes "tables_inv s" and "stored_uploads s i = Some x"
  obtains w where "w \<in> set (atb_uploads s)" and "up_id w = i" and "upload_from_row w = x"
    and "\<And>y. y \<in> set (atb_uploads s) \<Longrightarrow> up_id y = i \<longleftrightarrow> y = w"
proof -
  from assms(2) have "(i, x) \<in> set (map (\<lambda>x. (up_id x, upload_from_row x)) (atb_uploads s))"
    unfolding stored_uploads_def by (rule map_of_SomeD)
  then obtain w where w: "w \<in> set (atb_uploads s)" "up_id w = i" "upload_from_row w = x" by auto
  have "y = w" if "y \<in> set (atb_uploads s)" "up_id y = i" for y
    using assms(1) w that by (auto simp: tables_inv_def distinct_map inj_on_def)
  with w show ?thesis using that by blast
qed

lemma upload_from_row_status [simp]: "up_status (upload_from_row x) = up_status x" "up_id (upload_from_row x) = up_id x"
  by (simp_all add: upload_from_row_def)

text \<open>An update of the row of one upload.\<close>

lemma upload_row_updated:
  assumes "tables_inv s" and "stored_uploads s i = Some x" and "up_status x = from_status"
    and g: "\<And>y. up_id (g y) = up_id y" "\<And>y. upload_from_row (g y) = g (upload_from_row y)"
  shows "length (filter (\<lambda>y. up_id y = i \<and> up_status y = from_status) (atb_uploads s)) = 1"
    and "atb_uploads s' = map (\<lambda>y. if up_id y = i \<and> up_status y = from_status then g y else y) (atb_uploads s) \<Longrightarrow>
         stored_uploads s' = (stored_uploads s)(i \<mapsto> g x)"
    and "map up_id (map (\<lambda>y. if up_id y = i \<and> up_status y = from_status then g y else y) (atb_uploads s)) =
         map up_id (atb_uploads s)"
proof -
  obtain w where w: "w \<in> set (atb_uploads s)" "up_id w = i" "upload_from_row w = x"
    and only: "\<And>y. y \<in> set (atb_uploads s) \<Longrightarrow> up_id y = i \<longleftrightarrow> y = w"
    using stored_upload_row [OF assms(1,2)] by blast
  have hits: "up_id y = i \<and> up_status y = from_status \<longleftrightarrow> y = w" if "y \<in> set (atb_uploads s)" for y
    using only [OF that] w(2,3) assms(3) by auto
  have dist: "distinct (map up_id (atb_uploads s))" using assms(1) by (simp add: tables_inv_def)
  have "filter (\<lambda>y. up_id y = i \<and> up_status y = from_status) (atb_uploads s) = filter (\<lambda>y. y = w) (atb_uploads s)"
    using hits by (intro filter_cong) auto
  also have "\<dots> = [w]"
    using dist w(1) by (simp add: distinct_map filter_single)
  finally show "length (filter (\<lambda>y. up_id y = i \<and> up_status y = from_status) (atb_uploads s)) = 1" by simp
  show "stored_uploads s' = (stored_uploads s)(i \<mapsto> g x)"
    if "atb_uploads s' = map (\<lambda>y. if up_id y = i \<and> up_status y = from_status then g y else y) (atb_uploads s)"
    using map_of_update_row [OF dist w(1), where g = g and hit = "\<lambda>y. up_id y = i \<and> up_status y = from_status"
        and v = upload_from_row] g hits w(2,3)
    by (simp add: stored_uploads_def that)
  show "map up_id (map (\<lambda>y. if up_id y = i \<and> up_status y = from_status then g y else y) (atb_uploads s)) =
         map up_id (atb_uploads s)"
    by (simp add: comp_def g(1) if_distrib [of up_id] cong: if_cong)
qed

interpretation sql_artifact_store: artifact_store sql_artifacts stored_uploads stored_artifacts tables_inv
proof unfold_locales
  fix s :: artifact_tables and i
  show "aa_upload sql_artifacts s i = (case stored_uploads s i of None \<Rightarrow> Inl upload_missing | Some x \<Rightarrow> Inr x)"
    by (simp add: sql_artifacts_def atb_upload_def upload_row_view)
next
  fix s :: artifact_tables and x x' s'
  assume a: "tables_inv s" "tz_aware (up_created x)" "tz_aware (up_expires x)" "up_stored_sha x = None"
    "up_stored_size x = None" "aa_create sql_artifacts s x = Inr (x', s')"
  let ?row = "x\<lparr>up_stored_sha := None, up_stored_size := None, up_created := to_column (up_created x),
                up_expires := to_column (up_expires x)\<rparr>"
  from a(6) have new: "up_id x \<notin> set (map up_id (atb_uploads s))" and s': "s' = s\<lparr>atb_uploads := atb_uploads s @ [?row]\<rparr>"
    by (auto simp: sql_artifacts_def atb_create_def list_ex_iff split: if_splits)
  have "upload_from_row ?row = x"
    using a(2-5) by (simp add: upload_from_row_def)
  with a(1) new show "stored_uploads s (up_id x) = None \<and> tables_inv s' \<and>
      stored_uploads s' = (stored_uploads s)(up_id x \<mapsto> x) \<and> stored_artifacts s' = stored_artifacts s"
    by (simp add: s' stored_uploads_def stored_artifacts_def tables_inv_def map_of_new map_of_eq_None_iff image_image)
next
  fix s :: artifact_tables and a
  assume "tables_inv s"
  then show "aa_artifact sql_artifacts s a =
      (case stored_artifacts s a of None \<Rightarrow> Inl (ArtifactError ''artifact_not_found'') | Some r \<Rightarrow> Inr r)"
    by (auto simp: sql_artifacts_def atb_artifact_def stored_artifacts_def find_map_of row_of_artifact
        map_of_map_values [of "\<lambda>r. ar_id (af_ref r)" artifact_utc] tables_inv_def list_all_iff
        dest!: map_of_SomeD split: option.splits)
next
  fix s :: artifact_tables and i sha n x' s'
  assume inv: "tables_inv s" and run: "aa_mark sql_artifacts s i sha n = Inr (x', s')"
  let ?hit = "\<lambda>x. up_id x = i \<and> up_status x = UpPending"
  show "\<exists>x. stored_uploads s i = Some x \<and>
      (up_status x = UpUploaded \<and> s' = s \<or>
       up_status x = UpPending \<and> tables_inv s' \<and> stored_uploads s' = (stored_uploads s)(i \<mapsto> marked sha n x) \<and>
       stored_artifacts s' = stored_artifacts s)"
  proof (cases "length (filter ?hit (atb_uploads s)) = 1")
    case False
    with run show ?thesis
      by (auto simp: sql_artifacts_def atb_mark_def Let_def upload_row_view split: option.splits if_splits)
  next
    case True
    then obtain y where "filter ?hit (atb_uploads s) = [y]" by (auto simp: length_Suc_conv)
    then have "y \<in> set (filter ?hit (atb_uploads s))" by simp
    then have y: "y \<in> set (atb_uploads s)" "up_id y = i" "up_status y = UpPending" by simp_all
    have view: "stored_uploads s i = Some (upload_from_row y)"
      using y(1,2) inv by (auto simp: stored_uploads_def tables_inv_def comp_def intro!: map_of_is_SomeI)
    have pending: "up_status (upload_from_row y) = UpPending" using y(3) by simp
    have g: "upload_from_row (marked sha n z) = marked sha n (upload_from_row z)" "up_id (marked sha n z) = up_id z" for z
      by (simp_all add: marked_def upload_from_row_def)
    note row = upload_row_updated [OF inv view pending g(2,1)]
    from run True have "s' = s\<lparr>atb_uploads := map (\<lambda>x. if ?hit x then marked sha n x else x) (atb_uploads s)\<rparr>"
      by (auto simp: sql_artifacts_def atb_mark_def Let_def bindr_eq_Inr marked_def)
    then have "tables_inv s'" "stored_uploads s' = (stored_uploads s)(i \<mapsto> marked sha n (upload_from_row y))"
      "stored_artifacts s' = stored_artifacts s"
      using inv by (simp_all add: tables_inv_def stored_artifacts_def row del: map_map)
    with view pending show ?thesis by blast
  qed
next
  fix s :: artifact_tables and i x r r' s'
  assume inv: "tables_inv s" and view: "stored_uploads s i = Some x" and status: "up_status x = UpUploaded"
    and ok: "artifact_ref_ok (af_ref r)" and aware: "tz_aware (af_created r)"
    and run: "aa_finalize sql_artifacts s i r = Inr (r', s')"
  let ?a = "ar_id (af_ref r)"
  have g: "upload_from_row (completed ?a z) = completed ?a (upload_from_row z)" "up_id (completed ?a z) = up_id z" for z
    by (simp_all add: completed_def upload_from_row_def)
  note row = upload_row_updated [OF inv view status g(2,1)]
  from run view status have new: "?a \<notin> set (map (\<lambda>r. ar_id (af_ref r)) (atb_artifacts s))" and same: "r' = r"
    and uploads: "atb_uploads s' = map (\<lambda>y. if up_id y = i \<and> up_status y = UpUploaded then completed ?a y else y) (atb_uploads s)"
    and artifacts: "atb_artifacts s' = atb_artifacts s @ [r\<lparr>af_created := to_column (af_created r)\<rparr>]"
    by (auto simp: sql_artifacts_def atb_finalize_def upload_row_view Let_def list_ex_iff completed_def split: if_splits)
  have "artifact_utc (r\<lparr>af_created := to_column (af_created r)\<rparr>) = r"
    using aware by (simp add: artifact_utc_def)
  with inv new ok same show "r' = r \<and> tables_inv s' \<and> stored_uploads s' = (stored_uploads s)(i \<mapsto> completed ?a x) \<and>
      stored_artifacts s' = (stored_artifacts s)(?a \<mapsto> r)"
    by (simp add: tables_inv_def stored_artifacts_def uploads artifacts map_of_new row
        del: map_map)
qed

section \<open>Concurrent uploads\<close>

text \<open>
  The state that the calls in progress share: the stores, the uploads whose data passed the check but
  is not written yet, and the uploads whose data is written but not marked yet.
\<close>

record ('s, 'o) artifact_system =
  as_store :: 's
  as_objects :: 'o
  as_checked :: "(upload_session \<times> string) list"
  as_written :: "(string \<times> string) list"

inductive artifact_step ::
  "hostlib \<Rightarrow> (string \<Rightarrow> string) \<Rightarrow> 's artifact_api \<Rightarrow> 'o storage_api \<Rightarrow>
   ('s, 'o) artifact_system \<Rightarrow> ('s, 'o) artifact_system \<Rightarrow> bool"
  for h uuid5 api storage where
  session_created: "create_upload api (as_store y) who media sha n resources expires_in uuid now = Inr (x, s') \<Longrightarrow>
    tz_aware now \<Longrightarrow> CHR ''/'' \<notin> set uuid \<Longrightarrow>
    artifact_step h uuid5 api storage y (y\<lparr>as_store := s'\<rparr>)"
| data_checked: "upload_check h api (as_store y) i who chunks now = Inr (x, data) \<Longrightarrow>
    artifact_step h uuid5 api storage y (y\<lparr>as_checked := (x, data) # as_checked y\<rparr>)"
| data_written: "(x, data) \<in> set (as_checked y) \<Longrightarrow>
    st_put storage (as_objects y) (up_object x) data = (Inr (), objects) \<Longrightarrow>
    artifact_step h uuid5 api storage y
      (y\<lparr>as_objects := objects, as_written := (up_id x, data) # as_written y\<rparr>)"
| write_failed: "(x, data) \<in> set (as_checked y) \<Longrightarrow>
    st_put storage (as_objects y) (up_object x) data = (Inl e, objects) \<Longrightarrow>
    artifact_step h uuid5 api storage y (y\<lparr>as_objects := objects\<rparr>)"
| upload_marked: "(i, data) \<in> set (as_written y) \<Longrightarrow>
    aa_mark api (as_store y) i (sha256_hex h data) (int (length data)) = Inr (x, s') \<Longrightarrow>
    artifact_step h uuid5 api storage y (y\<lparr>as_store := s'\<rparr>)"
| upload_finalized: "finalize_upload uuid5 api (as_store y) i who reported now = Inr (ref, s') \<Longrightarrow>
    tz_aware now \<Longrightarrow> artifact_step h uuid5 api storage y (y\<lparr>as_store := s'\<rparr>)"

inductive_cases artifact_stepE: "artifact_step h uuid5 api storage y z"

definition upload_key :: "string \<Rightarrow> string \<Rightarrow> string" where
  "upload_key tenant i = ''capability-artifacts/'' @ tenant @ ''/'' @ i"

lemma upload_key_inj:
  assumes "CHR ''/'' \<notin> set i" and "CHR ''/'' \<notin> set j" and "upload_key a i = upload_key b j"
  shows "i = j"
proof -
  have split: "takeWhile (\<lambda>c. c \<noteq> CHR ''/'') (rev (upload_key a i)) = rev i" if "CHR ''/'' \<notin> set i" for a i
  proof -
    have "takeWhile (\<lambda>c. c \<noteq> CHR ''/'') (rev i @ CHR ''/'' # r) = rev i" for r
      using that by (subst takeWhile_append2) auto
    from this [of "rev (''capability-artifacts/'' @ a)"] show ?thesis by (simp add: upload_key_def)
  qed
  show ?thesis using split [OF assms(1), of a] split [OF assms(2), of b] assms(3) by simp
qed

text \<open>The data is what the contract of the session announces.\<close>

definition matches :: "hostlib \<Rightarrow> upload_session \<Rightarrow> string \<Rightarrow> bool" where
  "matches h x data \<longleftrightarrow> sha256_hex h data = up_sha x \<and> int (length data) = up_size x"

definition object_backs :: "hostlib \<Rightarrow> object_memory \<Rightarrow> string \<Rightarrow> string \<Rightarrow> int \<Rightarrow> bool" where
  "object_backs h objects key sha n \<longleftrightarrow>
     (\<exists>data. map_of objects key = Some data \<and> sha256_hex h data = sha \<and> int (length data) = n)"

definition contract_kept :: "upload_session \<Rightarrow> upload_session \<Rightarrow> bool" where
  "contract_kept x y \<longleftrightarrow> up_object y = up_object x \<and> up_sha y = up_sha x \<and> up_size y = up_size x"

lemma upload_check_passed:
  assumes "upload_check h api s i who chunks now = Inr (x, data)"
  shows "aa_upload api s i = Inr x" and "matches h x data" and "up_status x = UpPending"
  using assms by (auto simp: upload_check_def bindr_eq_Inr matches_def)

text \<open>What holds of a session, of an upload in progress and of an artifact.\<close>

definition session_backed :: "hostlib \<Rightarrow> object_memory \<Rightarrow> string \<Rightarrow> upload_session \<Rightarrow> bool" where
  "session_backed h objects i x \<longleftrightarrow> up_id x = i \<and> CHR ''/'' \<notin> set i \<and> (\<exists>tenant. up_object x = upload_key tenant i) \<and>
     (up_status x \<noteq> UpPending \<longrightarrow> up_stored_sha x = Some (up_sha x) \<and> up_stored_size x = Some (up_size x) \<and>
        object_backs h objects (up_object x) (up_sha x) (up_size x))"

definition check_backed :: "hostlib \<Rightarrow> (string \<Rightarrow> upload_session option) \<Rightarrow> upload_session \<Rightarrow> string \<Rightarrow> bool" where
  "check_backed h u x data \<longleftrightarrow> matches h x data \<and> (\<exists>x'. u (up_id x) = Some x' \<and> contract_kept x x')"

definition write_backed ::
  "hostlib \<Rightarrow> object_memory \<Rightarrow> (string \<Rightarrow> upload_session option) \<Rightarrow> string \<Rightarrow> string \<Rightarrow> bool" where
  "write_backed h objects u i data \<longleftrightarrow> (\<exists>x. u i = Some x \<and> matches h x data \<and>
     object_backs h objects (up_object x) (up_sha x) (up_size x))"

definition artifact_backed ::
  "(string \<Rightarrow> string) \<Rightarrow> (string \<Rightarrow> upload_session option) \<Rightarrow> string \<Rightarrow> artifact_record \<Rightarrow> bool" where
  "artifact_backed uuid5 u a r \<longleftrightarrow> ar_id (af_ref r) = a \<and> (\<exists>i x. u i = Some x \<and> up_status x = UpCompleted \<and>
     a = ''artifact_'' @ uuid5 i \<and> af_object r = up_object x \<and> ar_sha (af_ref r) = up_sha x \<and>
     ar_size (af_ref r) = up_size x)"

definition uploads_backed ::
  "hostlib \<Rightarrow> (string \<Rightarrow> string) \<Rightarrow> object_memory \<Rightarrow> (string \<Rightarrow> upload_session option) \<Rightarrow>
   (string \<Rightarrow> artifact_record option) \<Rightarrow> (upload_session \<times> string) list \<Rightarrow> (string \<times> string) list \<Rightarrow> bool" where
  "uploads_backed h uuid5 objects u arts checked written \<longleftrightarrow>
     (\<forall>i x. u i = Some x \<longrightarrow> session_backed h objects i x) \<and>
     (\<forall>x data. (x, data) \<in> set checked \<longrightarrow> check_backed h u x data) \<and>
     (\<forall>i data. (i, data) \<in> set written \<longrightarrow> write_backed h objects u i data) \<and>
     (\<forall>a r. arts a = Some r \<longrightarrow> artifact_backed uuid5 u a r)"

lemma uploads_backedD:
  assumes "uploads_backed h uuid5 objects u arts checked written"
  shows "u i = Some x \<Longrightarrow> session_backed h objects i x"
    and "(x, data) \<in> set checked \<Longrightarrow> check_backed h u x data"
    and "(i, data) \<in> set written \<Longrightarrow> write_backed h objects u i data"
    and "arts a = Some r \<Longrightarrow> artifact_backed uuid5 u a r"
  using assms unfolding uploads_backed_def by blast+

text \<open>A change of the sessions that keeps contracts and completion.\<close>

lemma backed_sessions:
  assumes b: "uploads_backed h uuid5 objects u arts checked written"
    and keep: "\<And>i x. u i = Some x \<Longrightarrow> \<exists>x'. u' i = Some x' \<and> contract_kept x x' \<and>
      (up_status x = UpCompleted \<longrightarrow> up_status x' = UpCompleted)"
    and sessions: "\<And>i x. u' i = Some x \<Longrightarrow> session_backed h objects i x"
    and arts: "\<And>a r. arts' a = Some r \<Longrightarrow> arts a = Some r \<or> artifact_backed uuid5 u' a r"
  shows "uploads_backed h uuid5 objects u' arts' checked written"
  unfolding uploads_backed_def
proof (intro conjI allI impI)
  fix i x assume "u' i = Some x"
  then show "session_backed h objects i x" by (rule sessions)
next
  fix x data assume "(x, data) \<in> set checked"
  from uploads_backedD(2) [OF b this] obtain x' where x': "matches h x data" "u (up_id x) = Some x'" "contract_kept x x'"
    unfolding check_backed_def by blast
  from keep [OF x'(2)] x'(1,3) show "check_backed h u' x data"
    unfolding check_backed_def contract_kept_def by metis
next
  fix i data assume "(i, data) \<in> set written"
  from uploads_backedD(3) [OF b this] obtain x where x: "u i = Some x" "matches h x data"
    "object_backs h objects (up_object x) (up_sha x) (up_size x)"
    unfolding write_backed_def by blast
  from keep [OF x(1)] x(2,3) show "write_backed h objects u' i data"
    unfolding write_backed_def contract_kept_def matches_def by metis
next
  fix a r assume "arts' a = Some r"
  from arts [OF this] show "artifact_backed uuid5 u' a r"
  proof
    assume "arts a = Some r"
    from uploads_backedD(4) [OF b this] obtain i x where r: "ar_id (af_ref r) = a" "u i = Some x"
      "up_status x = UpCompleted" "a = ''artifact_'' @ uuid5 i" "af_object r = up_object x"
      "ar_sha (af_ref r) = up_sha x" "ar_size (af_ref r) = up_size x"
      unfolding artifact_backed_def by blast
    from keep [OF r(2)] r show "artifact_backed uuid5 u' a r"
      unfolding artifact_backed_def contract_kept_def by metis
  qed
qed

text \<open>A write of checked data.\<close>

lemma backed_write:
  assumes b: "uploads_backed h uuid5 objects u arts checked written" and c: "(x, data) \<in> set checked"
  shows "uploads_backed h uuid5 (AList.update (up_object x) data objects) u arts checked ((up_id x, data) # written)"
proof -
  let ?objects = "AList.update (up_object x) data objects"
  from uploads_backedD(2) [OF b c] obtain x' where data: "matches h x data"
    and x': "u (up_id x) = Some x'" "contract_kept x x'"
    unfolding check_backed_def by blast
  have same: "sha256_hex h data = up_sha v \<and> int (length data) = up_size v"
    if "u i = Some v" "up_object v = up_object x" for i v
  proof -
    from uploads_backedD(1) [OF b that(1)] obtain a where a: "CHR ''/'' \<notin> set i" "up_object v = upload_key a i"
      unfolding session_backed_def by blast
    from uploads_backedD(1) [OF b x'(1)] obtain c where
      c: "CHR ''/'' \<notin> set (up_id x)" "up_object x' = upload_key c (up_id x)"
      unfolding session_backed_def by blast
    have "upload_key a i = upload_key c (up_id x)" using a(2) c(2) that(2) x'(2) by (simp add: contract_kept_def)
    from upload_key_inj [OF a(1) c(1) this] that(1) x' data show ?thesis
      by (simp add: contract_kept_def matches_def)
  qed
  have behind: "object_backs h ?objects (up_object v) (up_sha v) (up_size v)"
    if "u i = Some v" "object_backs h objects (up_object v) (up_sha v) (up_size v)" for i v
    using that(2) same [OF that(1)] by (cases "up_object v = up_object x") (auto simp: object_backs_def)
  have "write_backed h ?objects u (up_id x) data"
    using x' data by (auto simp: write_backed_def object_backs_def contract_kept_def matches_def)
  moreover have "write_backed h ?objects u i d" if "(i, d) \<in> set written" for i d
    using uploads_backedD(3) [OF b that] behind unfolding write_backed_def by blast
  moreover have "session_backed h ?objects i v" if "u i = Some v" for i v
    using uploads_backedD(1) [OF b that] behind [OF that] unfolding session_backed_def by blast
  ultimately show ?thesis using uploads_backedD(2,4) [OF b] unfolding uploads_backed_def by auto
qed

context artifact_store
begin

definition backed :: "hostlib \<Rightarrow> (string \<Rightarrow> string) \<Rightarrow> ('s, object_memory) artifact_system \<Rightarrow> bool" where
  "backed h uuid5 y \<longleftrightarrow> inv (as_store y) \<and>
     uploads_backed h uuid5 (as_objects y) (uploads (as_store y)) (artifacts (as_store y)) (as_checked y) (as_written y)"

definition artifacts_kept :: "('s, object_memory) artifact_system \<Rightarrow> ('s, object_memory) artifact_system \<Rightarrow> bool" where
  "artifacts_kept y z \<longleftrightarrow>
     (\<forall>a r. artifacts (as_store y) a = Some r \<longrightarrow> artifacts (as_store z) a = Some r)"

lemma created_keeps:
  assumes b: "backed h uuid5 y"
    and run: "create_upload api (as_store y) who media sha n resources expires_in uuid now = Inr (x, s')"
    and now: "tz_aware now" and hex: "CHR ''/'' \<notin> set uuid"
  shows "backed h uuid5 (y\<lparr>as_store := s'\<rparr>) \<and> artifacts_kept y (y\<lparr>as_store := s'\<rparr>)"
proof -
  let ?u = "uploads (as_store y)" and ?x = "new_upload who media sha n resources expires_in uuid now"
  have x: "up_id ?x = ''upload_'' @ uuid" "up_status ?x = UpPending" "up_stored_sha ?x = None"
      "up_stored_size ?x = None" "tz_aware (up_created ?x)" "tz_aware (up_expires ?x)"
      "up_object ?x = upload_key (tn_id (ci_tenant who)) (''upload_'' @ uuid)"
    using now by (simp_all add: new_upload_def upload_key_def)
  from run have made: "aa_create api (as_store y) ?x = Inr (x, s')" by (simp add: create_upload_def split: if_splits)
  have i: "inv (as_store y)" and u: "uploads_backed h uuid5 (as_objects y) ?u (artifacts (as_store y)) (as_checked y) (as_written y)"
    using b by (simp_all add: backed_def)
  note new = created [OF i x(5,6,3,4) made]
  have "uploads_backed h uuid5 (as_objects y) (uploads s') (artifacts s') (as_checked y) (as_written y)"
  proof (rule backed_sessions [OF u])
    fix i v assume "?u i = Some v"
    then show "\<exists>x'. uploads s' i = Some x' \<and> contract_kept v x' \<and>
        (up_status v = UpCompleted \<longrightarrow> up_status x' = UpCompleted)"
      using new by (cases "i = up_id ?x") (simp_all add: contract_kept_def)
  next
    fix i v assume "uploads s' i = Some v"
    then show "session_backed h (as_objects y) i v"
      using new uploads_backedD(1) [OF u] x hex
      by (cases "i = up_id ?x") (auto simp: session_backed_def)
  next
    fix a r assume "artifacts s' a = Some r"
    with new show "artifacts (as_store y) a = Some r \<or> artifact_backed uuid5 (uploads s') a r" by simp
  qed
  with new show ?thesis by (simp add: backed_def artifacts_kept_def)
qed

lemma marked_keeps:
  assumes b: "backed h uuid5 y" and member: "(i, data) \<in> set (as_written y)"
    and run: "aa_mark api (as_store y) i (sha256_hex h data) (int (length data)) = Inr (x', s')"
  shows "backed h uuid5 (y\<lparr>as_store := s'\<rparr>) \<and> artifacts_kept y (y\<lparr>as_store := s'\<rparr>)"
proof -
  let ?u = "uploads (as_store y)"
  have i: "inv (as_store y)" and u: "uploads_backed h uuid5 (as_objects y) ?u (artifacts (as_store y)) (as_checked y) (as_written y)"
    using b by (simp_all add: backed_def)
  from mark [OF i run] obtain x where x: "?u i = Some x" and cases:
    "s' = as_store y \<or> (up_status x = UpPending \<and> inv s' \<and>
      uploads s' = ?u(i \<mapsto> marked (sha256_hex h data) (int (length data)) x) \<and> artifacts s' = artifacts (as_store y))"
    by blast
  from cases show ?thesis
  proof
    assume "s' = as_store y"
    then show ?thesis using b by (simp add: artifacts_kept_def)
  next
    let ?x = "marked (sha256_hex h data) (int (length data)) x"
    assume new: "up_status x = UpPending \<and> inv s' \<and> uploads s' = ?u(i \<mapsto> ?x) \<and> artifacts s' = artifacts (as_store y)"
    from uploads_backedD(3) [OF u member] x have data: "matches h x data"
      "object_backs h (as_objects y) (up_object x) (up_sha x) (up_size x)"
      by (auto simp: write_backed_def)
    have "uploads_backed h uuid5 (as_objects y) (uploads s') (artifacts s') (as_checked y) (as_written y)"
    proof (rule backed_sessions [OF u])
      fix j v assume "?u j = Some v"
      then show "\<exists>v'. uploads s' j = Some v' \<and> contract_kept v v' \<and>
          (up_status v = UpCompleted \<longrightarrow> up_status v' = UpCompleted)"
        using new x by (cases "j = i") (simp_all add: contract_kept_def marked_def)
    next
      fix j v assume "uploads s' j = Some v"
      then show "session_backed h (as_objects y) j v"
        using new x data uploads_backedD(1) [OF u]
        by (cases "j = i") (auto simp: session_backed_def marked_def matches_def)
    next
      fix a r assume "artifacts s' a = Some r"
      with new show "artifacts (as_store y) a = Some r \<or> artifact_backed uuid5 (uploads s') a r" by simp
    qed
    with new show ?thesis by (simp add: backed_def artifacts_kept_def)
  qed
qed

lemma finalized_keeps:
  assumes b: "backed h uuid5 y" and names: "inj uuid5" and now: "tz_aware now"
    and run: "finalize_upload uuid5 api (as_store y) i who reported now = Inr (ref, s')"
  shows "backed h uuid5 (y\<lparr>as_store := s'\<rparr>) \<and> artifacts_kept y (y\<lparr>as_store := s'\<rparr>)"
proof -
  let ?u = "uploads (as_store y)"
  have i: "inv (as_store y)" and u: "uploads_backed h uuid5 (as_objects y) ?u (artifacts (as_store y)) (as_checked y) (as_written y)"
    using b by (simp_all add: backed_def)
  from run obtain x where x: "get_upload api (as_store y) i who = Inr x"
    by (auto simp: finalize_upload_def bindr_eq_Inr)
  then have view: "?u i = Some x" by (auto simp: get_upload_def bindr_eq_Inr upload [OF i] split: option.splits)
  show ?thesis
  proof (cases "up_status x = UpCompleted \<and> up_artifact x \<noteq> None \<and> up_artifact x \<noteq> Some []")
    case True
    with run x have "s' = as_store y" by (auto simp: finalize_upload_def bindr_eq_Inr)
    then show ?thesis using b by (simp add: artifacts_kept_def)
  next
    case False
    let ?r = "upload_record uuid5 x now" and ?a = "''artifact_'' @ uuid5 i"
    from uploads_backedD(1) [OF u view] have "up_id x = i" by (simp add: session_backed_def)
    then have a: "ar_id (af_ref ?r) = ?a" by (simp add: upload_record_def upload_ref_def)
    from False run x have check: "finalize_check x reported now = Inr ()" and ok: "artifact_ref_ok (af_ref ?r)"
      and fin: "\<exists>r'. aa_finalize api (as_store y) i ?r = Inr (r', s')"
      by (auto simp: finalize_upload_def bindr_eq_Inr upload_record_def split: if_splits)
    from check have status: "up_status x = UpUploaded" by (auto simp: finalize_check_def split: if_splits)
    have "tz_aware (af_created ?r)" using now by (simp add: upload_record_def)
    from fin finalized [OF i view status ok this] have new: "inv s'" "uploads s' = ?u(i \<mapsto> completed ?a x)"
      "artifacts s' = (artifacts (as_store y))(?a \<mapsto> ?r)"
      by (auto simp: a)
    have fresh: "artifacts (as_store y) ?a = None"
    proof (rule ccontr)
      assume "artifacts (as_store y) ?a \<noteq> None"
      then obtain r where "artifacts (as_store y) ?a = Some r" by blast
      from uploads_backedD(4) [OF u this] obtain j v where v: "?u j = Some v" "up_status v = UpCompleted"
        "?a = ''artifact_'' @ uuid5 j"
        unfolding artifact_backed_def by blast
      have "uuid5 i = uuid5 j" using v(3) by simp
      with names have "i = j" by (rule injD)
      with view v(1,2) status show False by simp
    qed
    have "uploads_backed h uuid5 (as_objects y) (uploads s') (artifacts s') (as_checked y) (as_written y)"
    proof (rule backed_sessions [OF u])
      fix j v assume "?u j = Some v"
      then show "\<exists>v'. uploads s' j = Some v' \<and> contract_kept v v' \<and>
          (up_status v = UpCompleted \<longrightarrow> up_status v' = UpCompleted)"
        using new view by (cases "j = i") (simp_all add: contract_kept_def completed_def)
    next
      fix j v assume "uploads s' j = Some v"
      then show "session_backed h (as_objects y) j v"
        using new(2) view status uploads_backedD(1) [OF u]
        by (cases "j = i") (auto simp: session_backed_def completed_def)
    next
      fix c r assume "artifacts s' c = Some r"
      moreover have "artifact_backed uuid5 (uploads s') ?a ?r"
        using uploads_backedD(1) [OF u view] status a
        by (auto simp: artifact_backed_def new(2) completed_def session_backed_def upload_record_def upload_ref_def)
      ultimately show "artifacts (as_store y) c = Some r \<or> artifact_backed uuid5 (uploads s') c r"
        using new(3) by (cases "c = ?a") simp_all
    qed
    with new fresh show ?thesis by (auto simp: backed_def artifacts_kept_def)
  qed
qed

lemma step_keeps:
  assumes "artifact_step h uuid5 api (memory_objects h) y z" and b: "backed h uuid5 y" and "inj uuid5"
  shows "backed h uuid5 z \<and> artifacts_kept y z"
  using assms(1)
proof cases
  case session_created
  then show ?thesis using created_keeps [OF b] by simp
next
  case (data_checked i who chunks now x data)
  note c = upload_check_passed [OF data_checked(2)]
  have i: "inv (as_store y)" using b by (simp add: backed_def)
  with c(1) have "uploads (as_store y) i = Some x" by (auto simp: upload split: option.splits)
  moreover from this b have "up_id x = i" unfolding backed_def by (auto dest: uploads_backedD(1) simp: session_backed_def)
  ultimately have "check_backed h (uploads (as_store y)) x data"
    using c(2) by (auto simp: check_backed_def contract_kept_def)
  with b show ?thesis unfolding data_checked(1) backed_def uploads_backed_def artifacts_kept_def by auto
next
  case (data_written x data objects)
  then have "objects = AList.update (up_object x) data (as_objects y)"
    by (simp add: memory_objects_def obj_put_def)
  with b backed_write [OF _ data_written(2)] show ?thesis
    unfolding data_written(1) backed_def artifacts_kept_def by simp
next
  case write_failed
  then show ?thesis by (simp add: memory_objects_def obj_put_def)
next
  case upload_marked
  then show ?thesis using marked_keeps [OF b] by simp
next
  case upload_finalized
  then show ?thesis using finalized_keeps [OF b assms(3)] by simp
qed

lemma run_keeps:
  assumes "(artifact_step h uuid5 api (memory_objects h))\<^sup>*\<^sup>* y z" and "backed h uuid5 y" and "inj uuid5"
  shows "backed h uuid5 z \<and> artifacts_kept y z"
  using assms(1)
proof (induction rule: rtranclp_induct)
  case base
  show ?case using assms(2) by (simp add: artifacts_kept_def)
next
  case (step z w)
  with step_keeps [OF step(2) _ assms(3)] show ?case by (auto simp: artifacts_kept_def)
qed

text \<open>A stored artifact can be read, now and later.\<close>

lemma artifact_readable:
  assumes b: "backed h uuid5 y" and "inj uuid5" and "aa_artifact api (as_store y) a = Inr r"
    and run: "(artifact_step h uuid5 api (memory_objects h))\<^sup>*\<^sup>* y z" and limit: "ar_size (af_ref r) \<le> limit"
  shows "aa_artifact api (as_store z) a = Inr r \<and>
    (\<exists>data. read_record h (memory_objects h) (as_objects z) r (af_ref r) limit = Inr data)"
proof -
  have i: "inv (as_store y)" using b by (simp add: backed_def)
  with assms(3) have r: "artifacts (as_store y) a = Some r" by (auto simp: artifact split: option.splits)
  from run_keeps [OF run b assms(2)] r have bz: "backed h uuid5 z" and rz: "artifacts (as_store z) a = Some r"
    by (auto simp: artifacts_kept_def)
  then have u: "uploads_backed h uuid5 (as_objects z) (uploads (as_store z)) (artifacts (as_store z)) (as_checked z) (as_written z)"
    and iz: "inv (as_store z)" by (simp_all add: backed_def)
  from uploads_backedD(4) [OF u rz] obtain i x where x: "uploads (as_store z) i = Some x" "up_status x = UpCompleted"
    "af_object r = up_object x" "ar_sha (af_ref r) = up_sha x" "ar_size (af_ref r) = up_size x"
    unfolding artifact_backed_def by blast
  from uploads_backedD(1) [OF u x(1)] x(2) obtain data where "map_of (as_objects z) (up_object x) = Some data"
    "sha256_hex h data = up_sha x" "int (length data) = up_size x"
    by (auto simp: session_backed_def object_backs_def)
  with x limit have "read_record h (memory_objects h) (as_objects z) r (af_ref r) limit = Inr data"
    by (simp add: read_record_def memory_objects_def obj_read_def)
  with rz iz show ?thesis by (auto simp: artifact)
qed

end

section \<open>Properties\<close>

definition artifacts_start :: "(artifact_tables, object_memory) artifact_system" where
  "artifacts_start = \<lparr>as_store = \<lparr>atb_uploads = [], atb_artifacts = [], atb_attachments = []\<rparr>,
     as_objects = [], as_checked = [], as_written = []\<rparr>"

lemma start_backed: "sql_artifact_store.backed h uuid5 artifacts_start"
  by (simp add: sql_artifact_store.backed_def artifacts_start_def tables_inv_def uploads_backed_def
      stored_uploads_def stored_artifacts_def)

lemma read_record_checked:
  "read_record h storage objects r ref limit = Inr data \<Longrightarrow>
    sha256_hex h data = ar_sha ref \<and> int (length data) = ar_size ref"
  by (auto simp: read_record_def bindr_eq_Inr split: if_splits)

text \<open>
  C26. An artifact never changes and never loses its content. Whatever callers create, upload, mark and
  finalize concurrently, with the SQL store and the in-memory object storage, an
  artifact that can be looked up once is looked up with the same record ever after, and reading
  it always returns data of the recorded digest and size. Name-based identifiers are taken to be
  collision free.
\<close>

theorem artifact_always_readable:
  assumes "inj uuid5" and "(artifact_step h uuid5 sql_artifacts (memory_objects h))\<^sup>*\<^sup>* artifacts_start y"
    and "atb_artifact (as_store y) a = Inr r"
    and "(artifact_step h uuid5 sql_artifacts (memory_objects h))\<^sup>*\<^sup>* y z" and "ar_size (af_ref r) \<le> limit"
  shows "atb_artifact (as_store z) a = Inr r \<and>
    (\<exists>data. read_record h (memory_objects h) (as_objects z) r (af_ref r) limit = Inr data \<and>
       sha256_hex h data = ar_sha (af_ref r) \<and> int (length data) = ar_size (af_ref r))"
proof -
  have "sql_artifact_store.backed h uuid5 y"
    using sql_artifact_store.run_keeps [OF assms(2) start_backed assms(1)] by blast
  from sql_artifact_store.artifact_readable [OF this assms(1) _ assms(4,5), of a] assms(3)
  obtain data where found: "atb_artifact (as_store z) a = Inr r"
    and data: "read_record h (memory_objects h) (as_objects z) r (af_ref r) limit = Inr data"
    by (auto simp: sql_artifacts_def)
  from found data read_record_checked [OF data] show ?thesis by (intro conjI exI [of _ data]) simp_all
qed

definition xa_sha :: string where
  "xa_sha = sha256_hex host_ascii ''hi''"

definition xa_opened :: "artifact_tables" where
  "xa_opened = snd (projr (create_upload sql_artifacts (as_store artifacts_start) xa_identity ''text/plain'' xa_sha 2 []
     1000 ''1'' (Aware 5)))"

definition xa_session :: upload_session where
  "xa_session = projr (atb_upload xa_opened ''upload_1'')"

definition xa_marked :: artifact_tables where
  "xa_marked = snd (projr (atb_mark xa_opened ''upload_1'' xa_sha 2))"

definition xa_final :: artifact_tables where
  "xa_final = snd (projr (finalize_upload (\<lambda>s. s) sql_artifacts xa_marked ''upload_1'' xa_identity xa_sha (Aware 9)))"

definition xa_artifact :: artifact_record where
  "xa_artifact = projr (atb_artifact xa_final ''artifact_upload_1'')"

definition xa_finished :: "(artifact_tables, object_memory) artifact_system" where
  "xa_finished = \<lparr>as_store = xa_final, as_objects = [(up_object xa_session, ''hi'')],
     as_checked = [(xa_session, ''hi'')], as_written = [(''upload_1'', ''hi'')]\<rparr>"

lemma xa_artifact_calls:
  "create_upload sql_artifacts (as_store artifacts_start) xa_identity ''text/plain'' xa_sha 2 [] 1000 ''1'' (Aware 5) =
     Inr (new_upload xa_identity ''text/plain'' xa_sha 2 [] 1000 ''1'' (Aware 5), xa_opened)"
  "upload_check host_ascii sql_artifacts xa_opened ''upload_1'' xa_identity [''hi''] (Aware 6) = Inr (xa_session, ''hi'')"
  "aa_mark sql_artifacts xa_opened ''upload_1'' (sha256_hex host_ascii ''hi'') (int (length ''hi'')) =
     Inr (projr (atb_upload xa_marked ''upload_1''), xa_marked)"
  "finalize_upload (\<lambda>s. s) sql_artifacts xa_marked ''upload_1'' xa_identity xa_sha (Aware 9) =
     Inr (af_ref xa_artifact, xa_final)"
  "atb_artifact xa_final ''artifact_upload_1'' = Inr xa_artifact"
  by code_simp+

lemma xa_artifact_run: "(artifact_step host_ascii (\<lambda>s. s) sql_artifacts (memory_objects host_ascii))\<^sup>*\<^sup>* artifacts_start xa_finished"
proof -
  let ?step = "artifact_step host_ascii (\<lambda>s. s) sql_artifacts (memory_objects host_ascii)"
  let ?y1 = "artifacts_start\<lparr>as_store := xa_opened\<rparr>"
  let ?y2 = "?y1\<lparr>as_checked := (xa_session, ''hi'') # as_checked ?y1\<rparr>"
  let ?y3 = "?y2\<lparr>as_objects := [(up_object xa_session, ''hi'')], as_written := (up_id xa_session, ''hi'') # as_written ?y2\<rparr>"
  let ?y4 = "?y3\<lparr>as_store := xa_marked\<rparr>"
  have "up_id xa_session = ''upload_1''" by code_simp
  then have last: "?y4\<lparr>as_store := xa_final\<rparr> = xa_finished" by (simp add: xa_finished_def artifacts_start_def)
  have "?step artifacts_start ?y1"
    by (rule session_created [OF xa_artifact_calls(1)]) simp_all
  moreover have "?step ?y1 ?y2" by (rule data_checked [where who = xa_identity and i = "''upload_1''" and chunks = "[''hi'']" and now = "Aware 6"])
      (simp add: xa_artifact_calls(2))
  moreover have "?step ?y2 ?y3"
    by (rule data_written) (simp_all add: memory_objects_def obj_put_def artifacts_start_def)
  moreover have "?step ?y3 ?y4"
    by (rule upload_marked [of "''upload_1''" "''hi''"]) (simp_all add: xa_artifact_calls(3) [simplified] \<open>up_id xa_session = _\<close>)
  moreover have "?step ?y4 xa_finished"
    unfolding last [symmetric] 
    by (rule upload_finalized [where who = xa_identity and i = "''upload_1''" and reported = xa_sha and now = "Aware 9"])
      (simp_all add: xa_artifact_calls(4))
  ultimately show ?thesis by (meson rtranclp.intros)
qed

theorem artifact_always_readable_witness:
  "atb_artifact (as_store xa_finished) ''artifact_upload_1'' = Inr xa_artifact \<and>
    (\<exists>data. read_record host_ascii (memory_objects host_ascii) (as_objects xa_finished) xa_artifact
       (af_ref xa_artifact) 2 = Inr data \<and>
       sha256_hex host_ascii data = ar_sha (af_ref xa_artifact) \<and> int (length data) = ar_size (af_ref xa_artifact))"
proof (rule artifact_always_readable [OF _ xa_artifact_run])
  show "inj (\<lambda>s :: string. s)" by simp
  show "atb_artifact (as_store xa_finished) ''artifact_upload_1'' = Inr xa_artifact"
    using xa_artifact_calls(5) by (simp add: xa_finished_def)
  show "ar_size (af_ref xa_artifact) \<le> 2" by code_simp
qed simp

lemma path_for_files: "path_for (s\<lparr>fs_files := files\<rparr>) key = path_for s key"
  by (simp add: path_for_def Let_def split: option.split)

text \<open>
  The file system storage breaks it. When two callers have both passed the check of the same pending
  upload, the second write fails because the file exists - and removes the file that the first one
  wrote. The first caller still marks the upload as uploaded, so it can be finalized, but every
  read of the artifact fails from then on.
\<close>

theorem second_write_removes_first:
  assumes "upload_check h api s i who chunks now = Inr (x, data)"
    and "upload_check h api s i who' chunks' now' = Inr (x', data')"
    and "fs_put files (up_object x) data = (Inr (), files1)"
  shows "\<exists>files2. fs_put files1 (up_object x') data' = (Inl (ArtifactRaised (OtherError ''FileExistsError'')), files2) \<and>
    (\<forall>r ref limit. af_object r = up_object x \<longrightarrow> isl (read_record h (file_objects h) files2 r ref limit))"
proof -
  have same: "x' = x" using upload_check_passed(1) [OF assms(1)] upload_check_passed(1) [OF assms(2)] by simp
  from assms(3) obtain path where path: "path_for files (up_object x) = Inr path"
    and files1: "files1 = files\<lparr>fs_files := AList.update path data (fs_files files)\<rparr>"
    by (auto simp: fs_put_def Let_def split: sum.splits if_splits)
  then have there: "path_for files1 (up_object x) = Inr path" by (simp add: path_for_files)
  let ?files2 = "files1\<lparr>fs_files := AList.delete path (fs_files files1)\<rparr>"
  have put: "fs_put files1 (up_object x') data' = (Inl (ArtifactRaised (OtherError ''FileExistsError'')), ?files2)"
    using there by (simp add: fs_put_def same files1)
  have "path_for ?files2 (up_object x) = Inr path" using there by (simp add: path_for_files)
  then have "fs_read ?files2 (up_object x) limit = Inl (ArtifactRaised (OtherError ''FileNotFoundError''))" for limit
    by (simp add: fs_read_def)
  then have "isl (read_record h (file_objects h) ?files2 r ref limit)" if "af_object r = up_object x" for r ref limit
    using that by (simp add: read_record_def file_objects_def)
  with put show ?thesis by blast
qed

definition xa_files :: file_system where
  "xa_files = \<lparr>fs_resolve = Some, fs_writable = (\<lambda>_. True), fs_files = []\<rparr>"

definition xa_written :: file_system where
  "xa_written = snd (fs_put xa_files (up_object xa_session) ''hi'')"

theorem second_write_removes_first_witness:
  "\<exists>files2. fs_put xa_written (up_object xa_session) ''hi'' =
      (Inl (ArtifactRaised (OtherError ''FileExistsError'')), files2) \<and>
    isl (read_record host_ascii (file_objects host_ascii) files2 xa_artifact (af_ref xa_artifact) 2)"
proof -
  have put: "fst (fs_put xa_files (up_object xa_session) ''hi'') = Inr ()" by code_simp
  then have "fs_put xa_files (up_object xa_session) ''hi'' = (Inr (), xa_written)"
    unfolding xa_written_def by (simp add: prod_eq_iff)
  from second_write_removes_first [OF xa_artifact_calls(2) xa_artifact_calls(2) this]
  show ?thesis
  proof (elim exE conjE)
    fix files2
    assume a: "fs_put xa_written (up_object xa_session) ''hi'' = (Inl (ArtifactRaised (OtherError ''FileExistsError'')), files2)"
      "\<forall>r ref limit. af_object r = up_object xa_session \<longrightarrow> isl (read_record host_ascii (file_objects host_ascii) files2 r ref limit)"
    have "af_object xa_artifact = up_object xa_session" by code_simp
    with a show ?thesis by blast
  qed
qed

lemma artifact_authorize_iff:
  "artifact_authorize tenant actor resources who granted = Inr u \<longleftrightarrow> tn_id (ci_tenant who) = tenant \<and>
     (granted = [] \<and> actor_id who = actor \<or>
      granted \<noteq> [] \<and> artifact_scopes_allow granted resources \<and> (actor_id who = actor \<or> resources \<noteq> []))"
  by (cases "granted = []"; cases "actor_id who = actor"; cases "resources = []")
    (simp_all add: artifact_authorize_def)

lemma artifact_authorize_denies:
  "artifact_authorize tenant actor resources who granted = Inl e \<Longrightarrow> \<exists>m. e = ArtifactDenied m"
  by (auto simp: artifact_authorize_def Let_def split: if_splits)

lemma download_iff:
  "authorize_download shared api s i who granted = Inr r \<longleftrightarrow> aa_artifact api s i = Inr r \<and>
     (shared r who \<or> artifact_authorize (af_tenant r) (af_actor r) (af_resources r) who granted = Inr ())"
proof (cases "aa_artifact api s i")
  case (Inr r')
  show ?thesis
  proof (cases "artifact_authorize (af_tenant r') (af_actor r') (af_resources r') who granted")
    case (Inl e)
    from artifact_authorize_denies [OF this] obtain m where "e = ArtifactDenied m" by blast
    with Inl Inr show ?thesis by (auto simp: authorize_download_def)
  qed (use Inr in \<open>auto simp: authorize_download_def\<close>)
qed (simp add: authorize_download_def)

text \<open>
  Who may download an artifact: exactly the callers of the artifact's tenant that own it, without
  further grants or with grants that cover its resources, the other callers of the tenant whose
  grants cover its resources when it has any, and the callers that the owning domain's policy
  admits. Whatever is read is data of the recorded digest and size within the caller's limit.
\<close>

theorem artifact_download_exact:
  "(authorize_download shared api s i who granted = Inr r \<longleftrightarrow> aa_artifact api s i = Inr r \<and>
     (shared r who \<or> tn_id (ci_tenant who) = af_tenant r \<and>
       (if granted = [] then actor_id who = af_actor r
        else artifact_scopes_allow granted (af_resources r) \<and>
          (actor_id who = af_actor r \<or> 0 < length (af_resources r))))) \<and>
   (read_record h storage objects r ref limit = Inr data \<longleftrightarrow> af_ref r = ref \<and> ar_size ref \<le> limit \<and>
     st_read storage objects (af_object r) limit = Inr data \<and> int (length data) = ar_size ref \<and>
     sha256_hex h data = ar_sha ref)"
proof
  show "authorize_download shared api s i who granted = Inr r \<longleftrightarrow> aa_artifact api s i = Inr r \<and>
     (shared r who \<or> tn_id (ci_tenant who) = af_tenant r \<and>
       (if granted = [] then actor_id who = af_actor r
        else artifact_scopes_allow granted (af_resources r) \<and>
          (actor_id who = af_actor r \<or> 0 < length (af_resources r))))"
    unfolding download_iff artifact_authorize_iff by auto
  show "read_record h storage objects r ref limit = Inr data \<longleftrightarrow> af_ref r = ref \<and> ar_size ref \<le> limit \<and>
     st_read storage objects (af_object r) limit = Inr data \<and> int (length data) = ar_size ref \<and>
     sha256_hex h data = ar_sha ref"
    by (auto simp: read_record_def bindr_eq_Inr)
qed

end
