(* ===== verification/RevisionSql.thy ===== *)
theory RevisionSql
  imports RevisionRepository "HOL-Library.Sublist"
begin

text \<open>
  The SQL revision store (\<open>SqlRevisionRepository\<close> of
  \<open>backend/capability_v2/revision/repository.py\<close>), which the running backend uses: its eight tables
  with the primary and unique keys of their migration, and each method as one transaction. A result
  carries the tables the transaction leaves, since a record that fails its validators may be built
  after the commit. A \<open>DATETIME\<close> column holds an instant without a zone. Columns that no method reads
  (\<open>created_at\<close> of repositories, snapshots, branches and diffs, \<open>updated_at\<close>) are left out, as are
  connection faults. The argument \<open>jc\<close> is what \<open>json.dumps\<close>, the \<open>JSON\<close> column and \<open>json.loads\<close> make
  of a value.
\<close>

section \<open>Rows and tables\<close>

record snapshot_row =
  qs_tenant :: string
  qs_snapshot :: snapshot

record commit_row =
  qc_tenant :: string
  qc_repository :: string
  qc_id :: string
  qc_snapshot :: string
  qc_hash :: string
  qc_author :: string
  qc_message :: string
  qc_created :: int

record parent_row =
  qp_tenant :: string
  qp_repository :: string
  qp_commit :: string
  qp_parent :: string
  qp_order :: nat

record branch_row =
  qb_tenant :: string
  qb_repository :: string
  qb_name :: string
  qb_head :: string
  qb_protected :: bool
  qb_policy :: "string option"
  qb_version :: nat

record changeset_row =
  qg_tenant :: string
  qg_repository :: string
  qg_id :: string
  qg_base :: string
  qg_changes :: "change list"
  qg_hash :: string
  qg_author :: string
  qg_created :: int

record diff_row =
  qd_tenant :: string
  qd_repository :: string
  qd_id :: string
  qd_from :: string
  qd_to :: string
  qd_changes :: "change list"

record lineage_row =
  ql_tenant :: string
  ql_id :: string
  ql_up_repository :: string
  ql_up_commit :: string
  ql_down_repository :: string
  ql_down_commit :: string
  ql_relation :: string
  ql_author :: string
  ql_created :: int

record rev_tables =
  rt_repositories :: "repository_ref list"
  rt_snapshots :: "snapshot_row list"
  rt_commits :: "commit_row list"
  rt_parents :: "parent_row list"
  rt_branches :: "branch_row list"
  rt_changesets :: "changeset_row list"
  rt_diffs :: "diff_row list"
  rt_lineage :: "lineage_row list"

definition empty_tables :: rev_tables where
  "empty_tables = \<lparr>rt_repositories = [], rt_snapshots = [], rt_commits = [], rt_parents = [],
     rt_branches = [], rt_changesets = [], rt_diffs = [], rt_lineage = []\<rparr>"

section \<open>Keys and inserts\<close>

text \<open>Two rows that a primary or unique key does not allow side by side.\<close>

definition clash_repository :: "repository_ref \<Rightarrow> repository_ref \<Rightarrow> bool" where
  "clash_repository x y \<longleftrightarrow> repo_key x = repo_key y"

definition clash_snapshot :: "snapshot_row \<Rightarrow> snapshot_row \<Rightarrow> bool" where
  "clash_snapshot x y \<longleftrightarrow> qs_tenant x = qs_tenant y \<and>
     (sn_id (qs_snapshot x) = sn_id (qs_snapshot y) \<or>
      sn_content_hash (qs_snapshot x) = sn_content_hash (qs_snapshot y))"

definition clash_commit :: "commit_row \<Rightarrow> commit_row \<Rightarrow> bool" where
  "clash_commit x y \<longleftrightarrow> qc_id x = qc_id y"

definition clash_parent :: "parent_row \<Rightarrow> parent_row \<Rightarrow> bool" where
  "clash_parent x y \<longleftrightarrow> qp_tenant x = qp_tenant y \<and> qp_repository x = qp_repository y \<and>
     qp_commit x = qp_commit y \<and> (qp_order x = qp_order y \<or> qp_parent x = qp_parent y)"

definition branch_row_key :: "branch_row \<Rightarrow> string \<times> string \<times> string" where
  "branch_row_key x = (qb_tenant x, qb_repository x, qb_name x)"

definition clash_branch :: "branch_row \<Rightarrow> branch_row \<Rightarrow> bool" where
  "clash_branch x y \<longleftrightarrow> branch_row_key x = branch_row_key y"

definition clash_changeset :: "changeset_row \<Rightarrow> changeset_row \<Rightarrow> bool" where
  "clash_changeset x y \<longleftrightarrow>
     qg_tenant x = qg_tenant y \<and> qg_repository x = qg_repository y \<and> qg_id x = qg_id y"

definition clash_diff :: "diff_row \<Rightarrow> diff_row \<Rightarrow> bool" where
  "clash_diff x y \<longleftrightarrow>
     qd_tenant x = qd_tenant y \<and> qd_repository x = qd_repository y \<and> qd_id x = qd_id y"

definition clash_lineage :: "lineage_row \<Rightarrow> lineage_row \<Rightarrow> bool" where
  "clash_lineage x y \<longleftrightarrow> ql_tenant x = ql_tenant y \<and> ql_id x = ql_id y"

text \<open>\<open>INSERT IGNORE\<close> and \<open>INSERT\<close>.\<close>

definition insert_ignore :: "('a \<Rightarrow> 'a \<Rightarrow> bool) \<Rightarrow> 'a \<Rightarrow> 'a list \<Rightarrow> 'a list" where
  "insert_ignore same x rows = (if list_ex (same x) rows then rows else rows @ [x])"

definition insert_row :: "('a \<Rightarrow> 'a \<Rightarrow> bool) \<Rightarrow> 'a \<Rightarrow> 'a list \<Rightarrow> rev_error + 'a list" where
  "insert_row same x rows =
     (if list_ex (same x) rows then Inl (Raised (OtherError ''IntegrityError'')) else Inr (rows @ [x]))"

text \<open>A transaction: an error rolls back to \<open>s\<close>.\<close>

definition transact :: "rev_tables \<Rightarrow> rev_error + 'a \<times> rev_tables \<Rightarrow> (rev_error + 'a) \<times> rev_tables" where
  "transact s r = (case r of Inl e \<Rightarrow> (Inl e, s) | Inr (x, s') \<Rightarrow> (Inr x, s'))"

section \<open>Writing\<close>

definition rq_insert_snapshot :: "string \<Rightarrow> snapshot \<Rightarrow> rev_tables \<Rightarrow> rev_tables" where
  "rq_insert_snapshot tenant x s =
     s\<lparr>rt_snapshots := insert_ignore clash_snapshot \<lparr>qs_tenant = tenant, qs_snapshot = x\<rparr> (rt_snapshots s)\<rparr>"

definition commit_row_of :: "commit \<Rightarrow> commit_row" where
  "commit_row_of c = \<lparr>qc_tenant = r_tenant (cm_repository c), qc_repository = r_id (cm_repository c),
     qc_id = cm_id c, qc_snapshot = sn_id (cm_snapshot c), qc_hash = cm_content_hash c,
     qc_author = cm_author c, qc_message = cm_message c, qc_created = instant (cm_created_at c)\<rparr>"

definition parent_row_of :: "commit \<Rightarrow> nat \<times> string \<Rightarrow> parent_row" where
  "parent_row_of c p = \<lparr>qp_tenant = r_tenant (cm_repository c), qp_repository = r_id (cm_repository c),
     qp_commit = cm_id c, qp_parent = snd p, qp_order = fst p\<rparr>"

definition rq_insert_commit :: "commit \<Rightarrow> rev_tables \<Rightarrow> rev_tables" where
  "rq_insert_commit c s =
     s\<lparr>rt_commits := insert_ignore clash_commit (commit_row_of c) (rt_commits s),
       rt_parents := fold (\<lambda>p. insert_ignore clash_parent (parent_row_of c p))
         (enumerate 0 (cm_parents c)) (rt_parents s)\<rparr>"

definition built_branch :: "branch \<Rightarrow> rev_error + branch" where
  "built_branch b = (if branch_valid b then Inr b else Inl (Raised (ValueError ''Branch'')))"

definition rq_initialize ::
  "rev_tables \<Rightarrow> repository_ref \<Rightarrow> branch_ref \<Rightarrow> commit \<Rightarrow> (rev_error + branch) \<times> rev_tables" where
  "rq_initialize s r b c =
     (if br_repository b \<noteq> r \<or> cm_repository c \<noteq> r \<or> cm_parents c \<noteq> []
      then (Inl (Raised (ValueError ''initial commit must be a root in the same repository'')), s)
      else
        (let inserted =
           bindr (insert_row clash_repository r (rt_repositories s)) (\<lambda>repositories.
             let s1 = rq_insert_commit c (rq_insert_snapshot (r_tenant r) (cm_snapshot c)
                        (s\<lparr>rt_repositories := repositories\<rparr>)) in
             bindr (insert_row clash_branch
                 \<lparr>qb_tenant = r_tenant r, qb_repository = r_id r, qb_name = br_name b, qb_head = cm_id c,
                  qb_protected = False, qb_policy = None, qb_version = 1\<rparr> (rt_branches s1)) (\<lambda>branches.
               Inr (s1\<lparr>rt_branches := branches\<rparr>))) in
         case inserted of
           Inl e \<Rightarrow> (Inl e, s)
         | Inr s' \<Rightarrow>
             (built_branch \<lparr>b_ref = b, b_head = cm_id c, b_protected = False, b_policy = None,
                b_version = 1\<rparr>, s')))"

definition rq_create_repository :: "rev_tables \<Rightarrow> repository_ref \<Rightarrow> (rev_error + unit) \<times> rev_tables" where
  "rq_create_repository s r =
     transact s (bindr (insert_row clash_repository r (rt_repositories s))
       (\<lambda>rows. Inr ((), s\<lparr>rt_repositories := rows\<rparr>)))"

definition rq_save_snapshot ::
  "rev_tables \<Rightarrow> string \<Rightarrow> snapshot \<Rightarrow> (rev_error + snapshot) \<times> rev_tables" where
  "rq_save_snapshot s tenant x = (Inr x, rq_insert_snapshot tenant x s)"

definition rq_create_branch :: "rev_tables \<Rightarrow> branch \<Rightarrow> (rev_error + unit) \<times> rev_tables" where
  "rq_create_branch s b =
     transact s (bindr (insert_row clash_branch
         \<lparr>qb_tenant = r_tenant (br_repository (b_ref b)), qb_repository = r_id (br_repository (b_ref b)),
          qb_name = br_name (b_ref b), qb_head = b_head b, qb_protected = b_protected b,
          qb_policy = b_policy b, qb_version = b_version b\<rparr> (rt_branches s))
       (\<lambda>rows. Inr ((), s\<lparr>rt_branches := rows\<rparr>)))"

definition rq_branch_row :: "rev_tables \<Rightarrow> branch_ref \<Rightarrow> branch_row option" where
  "rq_branch_row s b = List.find (\<lambda>x. branch_row_key x = branch_key b) (rt_branches s)"

text \<open>\<open>UPDATE ... WHERE tenant_id, repository_id, branch_name, version\<close>.\<close>

definition rq_update_branch ::
  "branch_ref \<Rightarrow> nat \<Rightarrow> (branch_row \<Rightarrow> branch_row) \<Rightarrow> rev_tables \<Rightarrow> rev_tables" where
  "rq_update_branch b version change s =
     s\<lparr>rt_branches := map (\<lambda>x. if branch_row_key x = branch_key b \<and> qb_version x = version
         then change (x\<lparr>qb_version := qb_version x + 1\<rparr>) else x) (rt_branches s)\<rparr>"

definition rq_append_commit ::
  "rev_tables \<Rightarrow> branch_ref \<Rightarrow> commit \<Rightarrow> string option \<Rightarrow> (rev_error + branch) \<times> rev_tables" where
  "rq_append_commit s b c expected =
     (if cm_repository c \<noteq> br_repository b
      then (Inl (RecordNotFound ''commit is outside branch repository''), s)
      else if cm_parents c = [] \<or> Some (hd (cm_parents c)) \<noteq> expected
      then (Inl (Raised (ValueError ''commit first parent must equal the expected branch head'')), s)
      else (case rq_branch_row s b of
          None \<Rightarrow> (Inl (RecordNotFound ''branch not found''), s)
        | Some current \<Rightarrow>
            (let want = (case expected of None \<Rightarrow> [] | Some e \<Rightarrow> e) in
             if qb_head current \<noteq> want then (Inl (CompareAndSwap want (qb_head current)), s)
             else
               (built_branch \<lparr>b_ref = b, b_head = cm_id c, b_protected = qb_protected current,
                  b_policy = qb_policy current, b_version = qb_version current + 1\<rparr>,
                rq_update_branch b (qb_version current) (\<lambda>x. x\<lparr>qb_head := cm_id c\<rparr>)
                  (rq_insert_commit c (rq_insert_snapshot (r_tenant (br_repository b)) (cm_snapshot c) s))))))"

text \<open>The column \<open>approval_policy\<close> is a \<open>VARCHAR(128)\<close>; the server runs in a strict mode.\<close>

definition rq_protect_branch ::
  "rev_tables \<Rightarrow> branch_ref \<Rightarrow> string \<Rightarrow> (rev_error + branch) \<times> rev_tables" where
  "rq_protect_branch s b pol =
     (case rq_branch_row s b of
        None \<Rightarrow> (Inl (RecordNotFound ''branch not found''), s)
      | Some current \<Rightarrow>
          if 128 < py_len pol then (Inl (Raised (OtherError ''DataError'')), s)
          else
            (built_branch \<lparr>b_ref = b, b_head = qb_head current, b_protected = True, b_policy = Some pol,
               b_version = qb_version current + 1\<rparr>,
             rq_update_branch b (qb_version current)
               (\<lambda>x. x\<lparr>qb_protected := True, qb_policy := Some pol\<rparr>) s))"

definition rq_save_changeset :: "rev_tables \<Rightarrow> changeset \<Rightarrow> (rev_error + changeset) \<times> rev_tables" where
  "rq_save_changeset s c =
     (Inr c, s\<lparr>rt_changesets := insert_ignore clash_changeset
        \<lparr>qg_tenant = r_tenant (cs_repository (c_ref c)), qg_repository = r_id (cs_repository (c_ref c)),
         qg_id = cs_id (c_ref c), qg_base = cs_base (c_ref c), qg_changes = c_changes c,
         qg_hash = c_result_hash c, qg_author = c_created_by c,
         qg_created = instant (c_created_at c)\<rparr> (rt_changesets s)\<rparr>)"

definition rq_save_diff :: "rev_tables \<Rightarrow> diff_record \<Rightarrow> (rev_error + diff_record) \<times> rev_tables" where
  "rq_save_diff s d =
     (Inr d, s\<lparr>rt_diffs := insert_ignore clash_diff
        \<lparr>qd_tenant = r_tenant (df_repository (dr_ref d)), qd_repository = r_id (df_repository (dr_ref d)),
         qd_id = df_id (dr_ref d), qd_from = df_from (dr_ref d), qd_to = df_to (dr_ref d),
         qd_changes = dr_changes d\<rparr> (rt_diffs s)\<rparr>)"

definition rq_save_lineage :: "rev_tables \<Rightarrow> lineage_edge \<Rightarrow> (rev_error + lineage_edge) \<times> rev_tables" where
  "rq_save_lineage s e =
     transact s (bindr (insert_row clash_lineage
         \<lparr>ql_tenant = r_tenant (cr_repository (le_upstream e)), ql_id = le_id e,
          ql_up_repository = r_id (cr_repository (le_upstream e)), ql_up_commit = cr_commit_id (le_upstream e),
          ql_down_repository = r_id (cr_repository (le_downstream e)),
          ql_down_commit = cr_commit_id (le_downstream e), ql_relation = le_relation e,
          ql_author = le_created_by e, ql_created = instant (le_created_at e)\<rparr> (rt_lineage s))
       (\<lambda>rows. Inr (e, s\<lparr>rt_lineage := rows\<rparr>)))"

section \<open>Reading\<close>

definition rq_repository_row :: "rev_tables \<Rightarrow> string \<times> string \<Rightarrow> repository_ref option" where
  "rq_repository_row s k = List.find (\<lambda>r. repo_key r = k) (rt_repositories s)"

definition rq_repository_exists :: "rev_tables \<Rightarrow> repository_ref \<Rightarrow> bool" where
  "rq_repository_exists s r \<longleftrightarrow>
     (case rq_repository_row s (repo_key r) of
        None \<Rightarrow> False
      | Some row \<Rightarrow> r_domain row = r_domain r \<and> r_resource row = r_resource r)"

definition rq_snapshot_row :: "rev_tables \<Rightarrow> string \<Rightarrow> string \<Rightarrow> snapshot option" where
  "rq_snapshot_row s tenant i =
     map_option qs_snapshot
       (List.find (\<lambda>x. qs_tenant x = tenant \<and> sn_id (qs_snapshot x) = i) (rt_snapshots s))"

definition built_snapshot :: "hostlib \<Rightarrow> snapshot \<Rightarrow> rev_error + snapshot" where
  "built_snapshot h x = (if snapshot_valid h x then Inr x else Inl (Raised (ValueError ''Snapshot'')))"

definition rq_get_snapshot ::
  "hostlib \<Rightarrow> (json \<Rightarrow> json) \<Rightarrow> rev_tables \<Rightarrow> string \<Rightarrow> string \<Rightarrow> rev_error + snapshot option" where
  "rq_get_snapshot h jc s tenant i =
     (case rq_snapshot_row s tenant i of
        None \<Rightarrow> Inr None
      | Some x \<Rightarrow> bindr (built_snapshot h (x\<lparr>sn_content := jc (sn_content x)\<rparr>)) (\<lambda>y. Inr (Some y)))"

definition rq_parents :: "rev_tables \<Rightarrow> string \<Rightarrow> string \<Rightarrow> string \<Rightarrow> string list" where
  "rq_parents s tenant repository i =
     map qp_parent (sort_key qp_order (filter
       (\<lambda>p. qp_tenant p = tenant \<and> qp_repository p = repository \<and> qp_commit p = i) (rt_parents s)))"

definition built_repository :: "repository_ref \<Rightarrow> rev_error + repository_ref" where
  "built_repository r =
     (if repository_ref_valid r then Inr r else Inl (Raised (ValueError ''RepositoryRef'')))"

definition built_commit :: "hostlib \<Rightarrow> commit \<Rightarrow> rev_error + commit" where
  "built_commit h c = (if commit_valid h c then Inr c else Inl (Raised (ValueError ''Commit'')))"

definition rq_get_commit ::
  "hostlib \<Rightarrow> (json \<Rightarrow> json) \<Rightarrow> rev_tables \<Rightarrow> string \<Rightarrow> rev_error + commit option" where
  "rq_get_commit h jc s i =
     (case List.find (\<lambda>x. qc_id x = i) (rt_commits s) of
        None \<Rightarrow> Inr None
      | Some row \<Rightarrow>
          (case (rq_repository_row s (qc_tenant row, qc_repository row),
                 rq_snapshot_row s (qc_tenant row) (qc_snapshot row)) of
             (Some r, Some x) \<Rightarrow>
               bindr (built_repository r) (\<lambda>repository.
               bindr (built_snapshot h (x\<lparr>sn_id := qc_snapshot row, sn_content_hash := qc_hash row,
                        sn_content := jc (sn_content x)\<rparr>)) (\<lambda>snap.
               bindr (built_commit h
                   \<lparr>cm_id = qc_id row, cm_repository = repository,
                    cm_parents = rq_parents s (qc_tenant row) (qc_repository row) i, cm_snapshot = snap,
                    cm_content_hash = qc_hash row, cm_author = qc_author row, cm_message = qc_message row,
                    cm_created_at = Naive (qc_created row)\<rparr>) (\<lambda>c.
               Inr (Some c))))
           | _ \<Rightarrow> Inr None))"

definition rq_get_branch :: "rev_tables \<Rightarrow> branch_ref \<Rightarrow> rev_error + branch option" where
  "rq_get_branch s b =
     (case rq_branch_row s b of
        None \<Rightarrow> Inr None
      | Some x \<Rightarrow> bindr (built_branch \<lparr>b_ref = b, b_head = qb_head x, b_protected = qb_protected x,
            b_policy = qb_policy x, b_version = qb_version x\<rparr>) (\<lambda>y. Inr (Some y)))"

text \<open>The changes of a column, each validated as a \<open>Change\<close> again.\<close>

definition column_change :: "(json \<Rightarrow> json) \<Rightarrow> change \<Rightarrow> change" where
  "column_change jc c = c\<lparr>ch_before := jc (ch_before c), ch_after := jc (ch_after c),
     resource_ref := jc (resource_ref c)\<rparr>"

definition built_changes :: "(json \<Rightarrow> json) \<Rightarrow> change list \<Rightarrow> rev_error + change list" where
  "built_changes jc cs =
     (if list_all change_valid (map (column_change jc) cs) then Inr (map (column_change jc) cs)
      else Inl (Raised (ValueError ''Change'')))"

definition rq_get_changeset ::
  "hostlib \<Rightarrow> (json \<Rightarrow> json) \<Rightarrow> rev_tables \<Rightarrow> changeset_ref \<Rightarrow> rev_error + changeset option" where
  "rq_get_changeset h jc s r =
     (case List.find (\<lambda>x. (qg_tenant x, qg_repository x, qg_id x) = item_key (cs_repository r) (cs_id r))
             (rt_changesets s) of
        None \<Rightarrow> Inr None
      | Some x \<Rightarrow>
          bindr (built_changes jc (qg_changes x)) (\<lambda>cs.
            let c = \<lparr>c_ref = r, c_changes = cs, c_result_hash = qg_hash x, c_created_by = qg_author x,
                     c_created_at = Naive (qg_created x)\<rparr> in
            if changeset_valid h c then Inr (Some c) else Inl (Raised (ValueError ''ChangeSet''))))"

definition rq_get_diff ::
  "hostlib \<Rightarrow> (json \<Rightarrow> json) \<Rightarrow> rev_tables \<Rightarrow> diff_ref \<Rightarrow> rev_error + diff_record option" where
  "rq_get_diff h jc s r =
     (case List.find (\<lambda>x. (qd_tenant x, qd_repository x, qd_id x) = item_key (df_repository r) (df_id r) \<and>
               qd_from x = df_from r \<and> qd_to x = df_to r) (rt_diffs s) of
        None \<Rightarrow> Inr None
      | Some x \<Rightarrow>
          bindr (built_changes jc (qd_changes x)) (\<lambda>cs.
            let d = \<lparr>dr_ref = r, dr_changes = cs\<rparr> in
            if diff_record_valid h d then Inr (Some d) else Inl (Raised (ValueError ''DiffRecord''))))"

text \<open>One end of an edge: the inner joins drop the edge when its repository or commit row is missing.\<close>

definition rq_end :: "rev_tables \<Rightarrow> string \<Rightarrow> string \<Rightarrow> string \<Rightarrow> commit_ref option" where
  "rq_end s tenant repository i =
     (case (rq_repository_row s (tenant, repository),
            List.find (\<lambda>x. qc_tenant x = tenant \<and> qc_repository x = repository \<and> qc_id x = i) (rt_commits s)) of
        (Some r, Some x) \<Rightarrow> Some \<lparr>cr_repository = r, cr_commit_id = i, cr_content_hash = qc_hash x\<rparr>
      | _ \<Rightarrow> None)"

definition commit_ref_valid :: "commit_ref \<Rightarrow> bool" where
  "commit_ref_valid r \<longleftrightarrow> commit_id_ok (cr_commit_id r) \<and> hash_ok (cr_content_hash r)"

definition built_edge :: "hostlib \<Rightarrow> commit_ref \<Rightarrow> commit_ref \<Rightarrow> lineage_row \<Rightarrow> rev_error + lineage_edge" where
  "built_edge h up down x =
     bindr (built_repository (cr_repository up)) (\<lambda>_.
     bindr (built_repository (cr_repository down)) (\<lambda>_.
       let e = \<lparr>le_id = ql_id x, le_upstream = up, le_downstream = down, le_relation = ql_relation x,
                le_created_by = ql_author x, le_created_at = Naive (ql_created x)\<rparr> in
       if \<not> commit_ref_valid up \<or> \<not> commit_ref_valid down
       then Inl (Raised (ValueError ''CommitRef''))
       else if \<not> lineage_edge_valid h e then Inl (Raised (ValueError ''LineageEdge''))
       else Inr e))"

definition rq_joined ::
  "rev_tables \<Rightarrow> lineage_row \<Rightarrow> (commit_ref \<times> commit_ref \<times> lineage_row) option" where
  "rq_joined s x =
     (case (rq_end s (ql_tenant x) (ql_up_repository x) (ql_up_commit x),
            rq_end s (ql_tenant x) (ql_down_repository x) (ql_down_commit x)) of
        (Some up, Some down) \<Rightarrow> Some (up, down, x)
      | _ \<Rightarrow> None)"

definition rq_list_lineage ::
  "hostlib \<Rightarrow> rev_tables \<Rightarrow> commit_ref \<Rightarrow> string \<Rightarrow> rev_error + lineage_edge list" where
  "rq_list_lineage h s r direction =
     (if direction \<notin> {''upstream'', ''downstream''}
      then Inl (Raised (ValueError ''lineage direction must be upstream or downstream''))
      else
        (let hit = (\<lambda>x. ql_tenant x = r_tenant (cr_repository r) \<and>
               (if direction = ''downstream''
                then ql_up_repository x = r_id (cr_repository r) \<and> ql_up_commit x = cr_commit_id r
                else ql_down_repository x = r_id (cr_repository r) \<and> ql_down_commit x = cr_commit_id r)) in
         mapr (\<lambda>(up, down, x). built_edge h up down x)
           (List.map_filter (rq_joined s) (sort_key ql_id (filter hit (rt_lineage s))))))"

end
