(* ===== verification/RevisionSqlProperties.thy ===== *)
theory RevisionSqlProperties
  imports RevisionSql RevisionProperties
begin

text \<open>
  Properties of the SQL revision store over every sequence of transactions: stored history is only
  ever added to, the compare-and-swap on a branch head follows the in-memory store, and the records
  that carry a time cannot be read back.
\<close>

section \<open>Inserts\<close>

lemma insert_ignore_prefix [simp]: "prefix rows (insert_ignore same x rows)"
  by (simp add: insert_ignore_def)

lemma insert_row_prefix: "insert_row same x rows = Inr rows' \<Longrightarrow> prefix rows rows'"
  by (auto simp: insert_row_def split: if_splits)

lemma fold_insert_prefix: "prefix rows (fold (\<lambda>p. insert_ignore same (f p)) ps rows)"
proof (induction ps arbitrary: rows)
  case (Cons p ps)
  have "prefix rows (insert_ignore same (f p) rows)" by simp
  then show ?case using Cons.IH prefix_order.trans by fastforce
qed simp

lemma transact_cases:
  "snd (transact s r) = s \<or> (\<exists>x. r = Inr (x, snd (transact s r)))"
  by (cases r) (auto simp: transact_def)

section \<open>Rows of branches\<close>

text \<open>A branch row keeps its key and changes only with its version, which never falls.\<close>

definition branch_moved :: "branch_row \<Rightarrow> branch_row \<Rightarrow> bool" where
  "branch_moved x y \<longleftrightarrow> branch_row_key x = branch_row_key y \<and> qb_version x \<le> qb_version y \<and>
     (qb_version x = qb_version y \<longrightarrow> x = y)"

lemma branch_moved_refl [simp]: "branch_moved x x"
  by (simp add: branch_moved_def)

lemma branch_moved_trans: "branch_moved x y \<Longrightarrow> branch_moved y z \<Longrightarrow> branch_moved x z"
  by (auto simp: branch_moved_def)

definition branches_kept :: "branch_row list \<Rightarrow> branch_row list \<Rightarrow> bool" where
  "branches_kept xs ys \<longleftrightarrow> list_all2 branch_moved xs (take (length xs) ys)"

lemma branches_kept_prefix: "prefix xs ys \<Longrightarrow> branches_kept xs ys"
  by (auto simp: branches_kept_def prefix_def list_all2_same)

lemma branches_kept_map: "(\<And>x. branch_moved x (f x)) \<Longrightarrow> branches_kept xs (map f xs)"
  by (simp add: branches_kept_def list_all2_conv_all_nth)

lemma branches_kept_trans:
  assumes "branches_kept xs ys" "branches_kept ys zs"
  shows "branches_kept xs zs"
proof -
  have len: "length xs \<le> length ys" "length ys \<le> length zs"
    using assms by (auto simp: branches_kept_def dest: list_all2_lengthD)
  have "branch_moved (xs ! i) (zs ! i)" if "i < length xs" for i
  proof -
    have "branch_moved (xs ! i) (ys ! i)" "branch_moved (ys ! i) (zs ! i)"
      using assms that len by (auto simp: branches_kept_def list_all2_conv_all_nth)
    then show ?thesis by (rule branch_moved_trans)
  qed
  then show ?thesis using len by (simp add: branches_kept_def list_all2_conv_all_nth)
qed

section \<open>History is only added to\<close>

definition rows_kept :: "rev_tables \<Rightarrow> rev_tables \<Rightarrow> bool" where
  "rows_kept s s' \<longleftrightarrow>
     prefix (rt_repositories s) (rt_repositories s') \<and> prefix (rt_snapshots s) (rt_snapshots s') \<and>
     prefix (rt_commits s) (rt_commits s') \<and> prefix (rt_parents s) (rt_parents s') \<and>
     prefix (rt_changesets s) (rt_changesets s') \<and> prefix (rt_diffs s) (rt_diffs s') \<and>
     prefix (rt_lineage s) (rt_lineage s') \<and> branches_kept (rt_branches s) (rt_branches s')"

lemma rows_kept_refl [simp]: "rows_kept s s"
  by (simp add: rows_kept_def branches_kept_prefix)

lemma rows_kept_trans: "rows_kept s t \<Longrightarrow> rows_kept t u \<Longrightarrow> rows_kept s u"
  by (meson branches_kept_trans prefix_order.trans rows_kept_def)

lemma insert_snapshot_kept: "rows_kept s (rq_insert_snapshot tenant x s)"
  by (simp add: rows_kept_def rq_insert_snapshot_def branches_kept_prefix)

lemma insert_commit_kept: "rows_kept s (rq_insert_commit c s)"
  by (simp add: rows_kept_def rq_insert_commit_def branches_kept_prefix fold_insert_prefix)

lemma update_branch_kept:
  assumes "\<And>x. branch_row_key (change x) = branch_row_key x \<and> qb_version (change x) = qb_version x"
  shows "rows_kept s (rq_update_branch b v change s)"
proof -
  have "branch_moved x (if branch_row_key x = branch_key b \<and> qb_version x = v
          then change (x\<lparr>qb_version := qb_version x + 1\<rparr>) else x)" for x
    using assms [of "x\<lparr>qb_version := qb_version x + 1\<rparr>"] by (auto simp: branch_moved_def branch_row_key_def)
  then show ?thesis by (simp add: rows_kept_def rq_update_branch_def branches_kept_map)
qed

inductive rq_step :: "rev_tables \<Rightarrow> rev_tables \<Rightarrow> bool" where
  initialize: "rq_step s (snd (rq_initialize s r b c))"
| create_repository: "rq_step s (snd (rq_create_repository s r))"
| save_snapshot: "rq_step s (snd (rq_save_snapshot s tenant x))"
| create_branch: "rq_step s (snd (rq_create_branch s br))"
| append_commit: "rq_step s (snd (rq_append_commit s b c expected))"
| protect_branch: "rq_step s (snd (rq_protect_branch s b pol))"
| save_changeset: "rq_step s (snd (rq_save_changeset s g))"
| save_diff: "rq_step s (snd (rq_save_diff s d))"
| save_lineage: "rq_step s (snd (rq_save_lineage s e))"

lemma initialize_kept: "rows_kept s (snd (rq_initialize s r b c))"
proof -
  have "rows_kept s (rq_insert_commit c (rq_insert_snapshot tenant x (s\<lparr>rt_repositories := rows\<rparr>))\<lparr>rt_branches := bs\<rparr>)"
    if "insert_row clash_repository r (rt_repositories s) = Inr rows"
      and "insert_row clash_branch y (rt_branches (rq_insert_commit c
             (rq_insert_snapshot tenant x (s\<lparr>rt_repositories := rows\<rparr>)))) = Inr bs"
    for rows bs tenant x y
    using insert_row_prefix [OF that(1)] insert_row_prefix [OF that(2)]
    by (simp add: rows_kept_def rq_insert_commit_def rq_insert_snapshot_def branches_kept_prefix
        fold_insert_prefix)
  then show ?thesis
    by (auto simp: rq_initialize_def Let_def bindr_eq_Inr split: sum.split)
qed

lemma append_kept: "rows_kept s (snd (rq_append_commit s b c expected))"
proof -
  have "rows_kept s (rq_update_branch b v (\<lambda>x. x\<lparr>qb_head := i\<rparr>)
          (rq_insert_commit c (rq_insert_snapshot tenant x s)))" for v i tenant x
  proof -
    have "rows_kept s (rq_insert_commit c (rq_insert_snapshot tenant x s))"
      using insert_snapshot_kept insert_commit_kept rows_kept_trans by blast
    moreover have "rows_kept t (rq_update_branch b v (\<lambda>x. x\<lparr>qb_head := i\<rparr>) t)" for t
      by (rule update_branch_kept) (simp add: branch_row_key_def)
    ultimately show ?thesis using rows_kept_trans by blast
  qed
  then show ?thesis by (simp add: rq_append_commit_def Let_def split: option.split)
qed

lemma protect_kept: "rows_kept s (snd (rq_protect_branch s b pol))"
proof -
  have "rows_kept s (rq_update_branch b v (\<lambda>x. x\<lparr>qb_protected := True, qb_policy := Some pol\<rparr>) s)" for v
    by (rule update_branch_kept) (simp add: branch_row_key_def)
  then show ?thesis by (simp add: rq_protect_branch_def split: option.split)
qed

lemma inserting_kept:
  "rows_kept s (snd (rq_create_repository s r))" "rows_kept s (snd (rq_create_branch s br))"
  "rows_kept s (snd (rq_save_lineage s e))"
  by (auto simp: rq_create_repository_def rq_create_branch_def rq_save_lineage_def transact_def
      rows_kept_def branches_kept_prefix bindr_eq_Inr dest!: insert_row_prefix split: sum.split)

lemma rq_step_kept: "rq_step s s' \<Longrightarrow> rows_kept s s'"
proof (induction rule: rq_step.induct)
  case (save_snapshot s tenant x)
  then show ?case by (simp add: rq_save_snapshot_def insert_snapshot_kept)
next
  case (save_changeset s g)
  then show ?case by (simp add: rq_save_changeset_def rows_kept_def branches_kept_prefix)
next
  case (save_diff s d)
  then show ?case by (simp add: rq_save_diff_def rows_kept_def branches_kept_prefix)
qed (rule initialize_kept append_kept protect_kept inserting_kept)+

lemma rq_steps_kept: "rq_step\<^sup>*\<^sup>* s s' \<Longrightarrow> rows_kept s s'"
  by (induction rule: rtranclp_induct) (auto dest: rq_step_kept intro: rows_kept_trans)

section \<open>The branch head\<close>

definition rq_append ::
  "rev_tables \<Rightarrow> branch_ref \<Rightarrow> commit \<Rightarrow> string option \<Rightarrow> rev_error + branch \<times> rev_tables" where
  "rq_append s b c expected =
     (case rq_append_commit s b c expected of (Inl e, _) \<Rightarrow> Inl e | (Inr r, s') \<Rightarrow> Inr (r, s'))"

definition rq_head :: "rev_tables \<Rightarrow> branch_ref \<Rightarrow> string option" where
  "rq_head s b = map_option qb_head (rq_branch_row s b)"

lemma insert_commit_branches [simp]:
  "rt_branches (rq_insert_commit c (rq_insert_snapshot tenant x s)) = rt_branches s"
  by (simp add: rq_insert_commit_def rq_insert_snapshot_def)

lemma find_update_hit:
  assumes "List.find (\<lambda>x. k x = i) xs = Some r" "hit r" "\<And>x. k (g x) = k x"
    and "\<And>x. hit x \<Longrightarrow> k x = i"
  shows "List.find (\<lambda>x. k x = i) (map (\<lambda>x. if hit x then g x else x) xs) = Some (g r)"
  using assms by (induction xs) (auto split: if_splits)

lemma find_update_other:
  assumes "\<And>x. hit x \<Longrightarrow> k x = i" "\<And>x. k (g x) = k x" "j \<noteq> i"
  shows "List.find (\<lambda>x. k x = j) (map (\<lambda>x. if hit x then g x else x) xs) = List.find (\<lambda>x. k x = j) xs"
  using assms by (induction xs) auto

lemma updated_row:
  assumes "rq_branch_row s b = Some x" "rt_branches t = rt_branches s"
    and "\<And>x. branch_row_key (change x) = branch_row_key x"
  shows "rq_branch_row (rq_update_branch b (qb_version x) change t) b' =
    (if branch_key b' = branch_key b then Some (change (x\<lparr>qb_version := qb_version x + 1\<rparr>))
     else rq_branch_row s b')"
proof -
  have key: "branch_row_key (change (x\<lparr>qb_version := n\<rparr>)) = branch_row_key x" for x n
    using assms(3) by (simp add: branch_row_key_def)
  have x: "branch_row_key x = branch_key b"
    using assms(1) by (auto simp: rq_branch_row_def find_Some_iff)
  show ?thesis
  proof (cases "branch_key b' = branch_key b")
    case True
    have "List.find (\<lambda>y. branch_row_key y = branch_key b) (map (\<lambda>y. if branch_row_key y = branch_key b \<and>
             qb_version y = qb_version x then change (y\<lparr>qb_version := qb_version y + 1\<rparr>) else y) (rt_branches s)) =
          Some (change (x\<lparr>qb_version := qb_version x + 1\<rparr>))"
      by (rule find_update_hit) (use assms(1) key x in \<open>simp_all add: rq_branch_row_def\<close>)
    then show ?thesis using True by (simp add: rq_branch_row_def rq_update_branch_def assms(2))
  next
    case False
    have "List.find (\<lambda>y. branch_row_key y = branch_key b') (map (\<lambda>y. if branch_row_key y = branch_key b \<and>
             qb_version y = qb_version x then change (y\<lparr>qb_version := qb_version y + 1\<rparr>) else y) (rt_branches s)) =
          List.find (\<lambda>y. branch_row_key y = branch_key b') (rt_branches s)"
      by (rule find_update_other [where i = "branch_key b"]) (use key False in simp_all)
    then show ?thesis using False by (simp add: rq_branch_row_def rq_update_branch_def assms(2))
  qed
qed

lemma rq_append_Inr:
  assumes "rq_append_commit s b c expected = (Inr r, s')"
  obtains x where "rq_branch_row s b = Some x" "expected = Some (qb_head x)"
    "cm_repository c = br_repository b" "cm_parents c \<noteq> []" "hd (cm_parents c) = qb_head x"
    "r = \<lparr>b_ref = b, b_head = cm_id c, b_protected = qb_protected x, b_policy = qb_policy x,
          b_version = qb_version x + 1\<rparr>"
    "\<And>b'. rq_branch_row s' b' =
       (if branch_key b' = branch_key b then Some (x\<lparr>qb_head := cm_id c, qb_version := qb_version x + 1\<rparr>)
        else rq_branch_row s b')"
proof -
  have guards: "cm_repository c = br_repository b" "cm_parents c \<noteq> []" "Some (hd (cm_parents c)) = expected"
    using assms by (auto simp: rq_append_commit_def split: if_splits)
  then obtain x where x: "rq_branch_row s b = Some x"
    using assms by (auto simp: rq_append_commit_def split: option.splits if_splits)
  then have head: "expected = Some (qb_head x)"
    and r: "built_branch \<lparr>b_ref = b, b_head = cm_id c, b_protected = qb_protected x,
              b_policy = qb_policy x, b_version = qb_version x + 1\<rparr> = Inr r"
    and s': "s' = rq_update_branch b (qb_version x) (\<lambda>x. x\<lparr>qb_head := cm_id c\<rparr>)
               (rq_insert_commit c (rq_insert_snapshot (r_tenant (br_repository b)) (cm_snapshot c) s))"
    using assms guards by (auto simp: rq_append_commit_def Let_def split: if_splits option.splits)
  have "rq_branch_row s' b' =
       (if branch_key b' = branch_key b then Some (x\<lparr>qb_head := cm_id c, qb_version := qb_version x + 1\<rparr>)
        else rq_branch_row s b')" for b'
    using updated_row [OF x, of _ "\<lambda>x. x\<lparr>qb_head := cm_id c\<rparr>" b'] by (simp add: s' branch_row_key_def)
  then show ?thesis
    using that x head guards r by (auto simp: built_branch_def split: if_splits)
qed

interpretation sql_heads: branch_heads rq_head rq_append
proof unfold_locales
  fix s b c e r and s' :: rev_tables and b'
  assume "rq_append s b c (Some e) = Inr (r, s')"
  then have a: "rq_append_commit s b c (Some e) = (Inr r, s')"
    by (auto simp: rq_append_def split: prod.splits sum.splits)
  show "rq_head s b = Some e \<or> rq_head s b = None \<and> e = []"
    by (rule rq_append_Inr [OF a]) (simp add: rq_head_def)
  show "rq_head s' b = Some (cm_id c)"
    by (rule rq_append_Inr [OF a]) (simp add: rq_head_def)
  show "cm_parents c \<noteq> [] \<and> hd (cm_parents c) = e"
    by (rule rq_append_Inr [OF a]) simp
  show "rq_head s' b' = rq_head s b'" if "branch_key b' \<noteq> branch_key b"
    by (rule rq_append_Inr [OF a]) (simp add: rq_head_def that)
qed

section \<open>The SQL heads refine the in-memory ones\<close>

definition memory_branch :: "repo_state \<Rightarrow> branch_ref \<Rightarrow> (string \<times> bool \<times> string option \<times> nat) option" where
  "memory_branch s b = map_option (\<lambda>x. (b_head x, b_protected x, b_policy x, b_version x)) (repo_get_branch s b)"

definition sql_branch :: "rev_tables \<Rightarrow> branch_ref \<Rightarrow> (string \<times> bool \<times> string option \<times> nat) option" where
  "sql_branch t b = map_option (\<lambda>x. (qb_head x, qb_protected x, qb_policy x, qb_version x)) (rq_branch_row t b)"

definition heads_agree :: "repo_state \<Rightarrow> rev_tables \<Rightarrow> bool" where
  "heads_agree s t \<longleftrightarrow> (\<forall>b. memory_branch s b = sql_branch t b)"

lemma heads_agree_empty: "heads_agree empty_repo empty_tables"
  by (simp add: heads_agree_def memory_branch_def sql_branch_def repo_get_branch_def empty_repo_def
      rq_branch_row_def empty_tables_def)

lemma heads_agree_none: "heads_agree s t \<Longrightarrow> repo_get_branch s b = None \<longleftrightarrow> rq_branch_row t b = None"
  by (drule heads_agree_def [THEN iffD1, THEN spec, of _ _ b])
     (auto simp: memory_branch_def sql_branch_def dest: sym)

lemma find_append_key:
  "List.find (\<lambda>x. k x = i) (xs @ [y]) =
     (case List.find (\<lambda>x. k x = i) xs of Some x \<Rightarrow> Some x | None \<Rightarrow> if k y = i then Some y else None)"
  by (induction xs) auto

lemma find_append_branch:
  "List.find (\<lambda>x. branch_row_key x = i) (xs @ [y]) =
     (case List.find (\<lambda>x. branch_row_key x = i) xs of Some x \<Rightarrow> Some x
      | None \<Rightarrow> if branch_row_key y = i then Some y else None)"
  by (rule find_append_key)

lemma initialize_refines:
  assumes agree: "heads_agree s t" and run: "repo_initialize s r b c = Inr (br, s')"
    and fresh: "rq_repository_row t (repo_key r) = None" and ok: "branch_valid br"
  shows "\<exists>t'. rq_initialize t r b c = (Inr br, t') \<and> heads_agree s' t'"
proof -
  have guards: "rs_branches s (branch_key b) = None" "br_repository b = r" "cm_repository c = r"
      "cm_parents c = []"
    and br: "br = \<lparr>b_ref = b, b_head = cm_id c, b_protected = False, b_policy = None, b_version = 1\<rparr>"
    and s': "rs_branches s' = (rs_branches s)(branch_key b \<mapsto> br)"
    using run by (auto simp: repo_initialize_def Let_def split: if_splits)
  let ?row = "\<lparr>qb_tenant = r_tenant r, qb_repository = r_id r, qb_name = br_name b, qb_head = cm_id c,
                  qb_protected = False, qb_policy = None, qb_version = 1\<rparr>"
  have key: "branch_row_key ?row = branch_key b"
    by (simp add: branch_row_key_def branch_key_def guards)
  have none: "rq_branch_row t b = None"
    using guards(1) heads_agree_none [OF agree, of b] by (simp add: repo_get_branch_def)
  have insert_branch: "insert_row clash_branch ?row (rt_branches t) = Inr (rt_branches t @ [?row])"
    using none key by (auto simp: insert_row_def rq_branch_row_def clash_branch_def find_None_iff list_ex_iff)
  have insert_repository: "insert_row clash_repository r (rt_repositories t) = Inr (rt_repositories t @ [r])"
    using fresh by (auto simp: insert_row_def rq_repository_row_def clash_repository_def find_None_iff list_ex_iff)
  obtain t' where t': "rq_initialize t r b c = (Inr br, t')" "rt_branches t' = rt_branches t @ [?row]"
    using insert_branch insert_repository ok
    by (simp add: rq_initialize_def guards built_branch_def br)
  have "memory_branch s' b' = sql_branch t' b'" for b'
  proof (cases "branch_key b' = branch_key b")
    case True
    then show ?thesis
      using none key
      by (simp add: memory_branch_def sql_branch_def repo_get_branch_def s' rq_branch_row_def t'(2)
          find_append_branch br)
  next
    case False
    then show ?thesis
      using agree key
      by (simp add: heads_agree_def memory_branch_def sql_branch_def repo_get_branch_def s'
          rq_branch_row_def t'(2) find_append_branch split: option.split)
  qed
  then show ?thesis using t'(1) by (auto simp: heads_agree_def)
qed

text \<open>
  The SQL store refines the in-memory reference on branches: if both hold the same branches, every
  commit that the reference appends to an existing branch is appended by SQL with the same result, and
  afterwards both hold the same branches again.
\<close>
theorem sql_append_refines:
  assumes agree: "heads_agree s t" and run: "repo_append_commit s b c (Some e) = Inr (br, s')"
    and exists: "repo_get_branch s b \<noteq> None" and ok: "branch_valid br"
  shows "\<exists>t'. rq_append_commit t b c (Some e) = (Inr br, t') \<and> heads_agree s' t'"
proof -
  obtain cur where guards: "cm_repository c = br_repository b" "cm_parents c \<noteq> []" "hd (cm_parents c) = e"
    and cur: "rs_branches s (branch_key b) = cur" "(case cur of None \<Rightarrow> [] | Some x \<Rightarrow> b_head x) = e"
    and br: "br = \<lparr>b_ref = b, b_head = cm_id c,
           b_protected = (case cur of None \<Rightarrow> False | Some x \<Rightarrow> b_protected x),
           b_policy = (case cur of None \<Rightarrow> None | Some x \<Rightarrow> b_policy x),
           b_version = (case cur of None \<Rightarrow> 1 | Some x \<Rightarrow> b_version x + 1)\<rparr>"
    and s': "rs_branches s' = (rs_branches s)(branch_key b \<mapsto> br)"
    by (rule repo_append_commit_Inr [OF run]) auto
  obtain x where x: "cur = Some x" using exists cur(1) by (auto simp: repo_get_branch_def)
  obtain row where row: "rq_branch_row t b = Some row"
    using heads_agree_none [OF agree, of b] exists by auto
  have same: "qb_head row = b_head x" "qb_protected row = b_protected x" "qb_policy row = b_policy x"
      "qb_version row = b_version x"
    using agree [unfolded heads_agree_def, rule_format, of b] cur(1) row
    by (auto simp: memory_branch_def sql_branch_def repo_get_branch_def x)
  obtain t' where t': "rq_append_commit t b c (Some e) = (Inr br, t')"
    using ok cur(2) same row guards
    by (simp add: rq_append_commit_def built_branch_def br x)
  have rows: "rq_branch_row t' b' = (if branch_key b' = branch_key b
      then Some (row\<lparr>qb_head := cm_id c, qb_version := qb_version row + 1\<rparr>) else rq_branch_row t b')" for b'
    by (rule rq_append_Inr [OF t']) (use row in auto)
  have "memory_branch s' b' = sql_branch t' b'" for b'
    using agree [unfolded heads_agree_def, rule_format, of b'] same
    by (simp add: memory_branch_def sql_branch_def repo_get_branch_def s' rows br x)
  then show ?thesis using t' by (auto simp: heads_agree_def)
qed

section \<open>Records without a zone\<close>

lemma built_edge_fails: "built_edge h up down x \<noteq> Inr e"
  by (auto simp: built_edge_def Let_def bindr_eq_Inr lineage_edge_valid_def)

lemma built_edges_empty: "mapr (\<lambda>(up, down, x). built_edge h up down x) xs \<noteq> Inr (e # es)"
  by (cases xs) (auto simp: bindr_eq_Inr built_edge_fails)

text \<open>
  No commit, no change set and no lineage edge can be read from the SQL store: the \<open>created_at\<close> of a
  row has no zone, which the validators of \<open>Commit\<close>, \<open>ChangeSet\<close> and \<open>LineageEdge\<close> refuse. Whatever
  the tables hold, \<open>get_commit\<close> and \<open>get_changeset\<close> return nothing or raise, and \<open>list_lineage\<close> returns
  no edge or raises.
\<close>
theorem sql_timed_records_unreadable:
  "rq_get_commit h jc s i \<noteq> Inr (Some c) \<and> rq_get_changeset h jc s r \<noteq> Inr (Some g) \<and>
   rq_list_lineage h s k direction \<noteq> Inr (e # es)"
proof (intro conjI)
  show "rq_get_commit h jc s i \<noteq> Inr (Some c)"
    by (auto simp: rq_get_commit_def built_commit_def commit_valid_def bindr_eq_Inr split: option.splits if_splits)
  show "rq_get_changeset h jc s r \<noteq> Inr (Some g)"
    by (auto simp: rq_get_changeset_def changeset_valid_def Let_def bindr_eq_Inr split: option.splits)
  show "rq_list_lineage h s k direction \<noteq> Inr (e # es)"
    by (auto simp: rq_list_lineage_def Let_def built_edges_empty)
qed

lemma find_insert_ignore:
  assumes "List.find p rows = None" "\<not> list_ex (same x) rows" "p x"
  shows "List.find p (insert_ignore same x rows) = Some x"
proof -
  have "List.find p (rows @ ys) = List.find p ys" for ys
    using assms(1) by (induction rows) (auto split: if_splits)
  then show ?thesis using assms(2,3) by (simp add: insert_ignore_def)
qed

text \<open>A commit that was just stored in a new repository is read with an exception.\<close>

lemma sql_stored_commit_raises:
  assumes "rq_initialize s r b c = (Inr br, s')"
    and "List.find (\<lambda>x. qc_id x = cm_id c) (rt_commits s) = None"
    and "rq_snapshot_row s' (r_tenant r) (sn_id (cm_snapshot c)) \<noteq> None"
  shows "\<exists>e. rq_get_commit h jc s' (cm_id c) = Inl e"
proof -
  from assms(1) have c: "cm_repository c = r"
    by (auto simp: rq_initialize_def split: if_splits)
  from assms(1) obtain rows where rows: "insert_row clash_repository r (rt_repositories s) = Inr rows"
    and tables: "rt_repositories s' = rows"
      "rt_commits s' = insert_ignore clash_commit (commit_row_of c) (rt_commits s)"
    by (auto simp: rq_initialize_def Let_def bindr_eq_Inr rq_insert_commit_def rq_insert_snapshot_def
        split: if_splits sum.splits)
  have "List.find (\<lambda>x. qc_id x = cm_id c) (rt_commits s') = Some (commit_row_of c)"
    unfolding tables using assms(2)
    by (intro find_insert_ignore) (auto simp: clash_commit_def commit_row_of_def find_None_iff list_ex_iff)
  moreover have "rq_repository_row s' (repo_key r) \<noteq> None"
    using rows by (auto simp: rq_repository_row_def tables find_None_iff insert_row_def split: if_splits)
  ultimately have "rq_get_commit h jc s' (cm_id c) \<noteq> Inr None"
    using assms(3) by (auto simp: rq_get_commit_def commit_row_of_def c repo_key_def bindr_eq_Inr)
  moreover have "rq_get_commit h jc s' (cm_id c) \<noteq> Inr (Some d)" for d
    by (auto simp: rq_get_commit_def built_commit_def commit_valid_def bindr_eq_Inr split: option.splits if_splits)
  ultimately show ?thesis
    by (cases "rq_get_commit h jc s' (cm_id c)") (metis option.exhaust)+
qed

text \<open>Recording an edge again, which the in-memory store answers with the stored edge, raises.\<close>

lemma sql_lineage_not_idempotent:
  assumes "rq_save_lineage s e = (Inr e, s')"
  shows "rq_save_lineage s' e = (Inl (Raised (OtherError ''IntegrityError'')), s')"
  using assms by (auto simp: rq_save_lineage_def transact_def insert_row_def clash_lineage_def
      split: if_splits sum.splits)

section \<open>Diffs\<close>

lemma built_changes_fixed:
  assumes "\<And>c. c \<in> set cs \<Longrightarrow> column_change jc c = c" "list_all change_valid cs"
  shows "built_changes jc cs = Inr cs"
proof -
  have "map (column_change jc) cs = cs" using assms(1) by (simp add: map_idI)
  then show ?thesis using assms(2) by (simp add: built_changes_def)
qed

text \<open>A diff, which has no time, is read back as it was saved.\<close>

lemma sql_diff_roundtrip:
  assumes "\<not> list_ex (\<lambda>x. (qd_tenant x, qd_repository x, qd_id x) =
             item_key (df_repository (dr_ref d)) (df_id (dr_ref d))) (rt_diffs s)"
    and "diff_record_valid h d" "list_all change_valid (dr_changes d)"
    and "\<And>c. c \<in> set (dr_changes d) \<Longrightarrow> column_change jc c = c"
  shows "rq_get_diff h jc (snd (rq_save_diff s d)) (dr_ref d) = Inr (Some d)"
proof -
  let ?row = "\<lparr>qd_tenant = r_tenant (df_repository (dr_ref d)), qd_repository = r_id (df_repository (dr_ref d)),
         qd_id = df_id (dr_ref d), qd_from = df_from (dr_ref d), qd_to = df_to (dr_ref d),
         qd_changes = dr_changes d\<rparr>"
  have "List.find (\<lambda>x. (qd_tenant x, qd_repository x, qd_id x) =
            item_key (df_repository (dr_ref d)) (df_id (dr_ref d)) \<and>
          qd_from x = df_from (dr_ref d) \<and> qd_to x = df_to (dr_ref d))
          (insert_ignore clash_diff ?row (rt_diffs s)) = Some ?row"
    by (rule find_insert_ignore)
       (use assms(1) in \<open>auto simp: find_None_iff list_ex_iff clash_diff_def item_key_def\<close>)
  then show ?thesis
    using built_changes_fixed [OF assms(4,3)] assms(2)
    by (simp add: rq_get_diff_def rq_save_diff_def Let_def diff_record_valid_def)
qed

section \<open>History\<close>

text \<open>
  C29. The SQL tables are append-only: over any sequence of transactions, failed ones included, the rows of
  repositories, snapshots, commits, parents, change sets, diffs and lineage edges that were stored stay
  stored, unchanged and in order; and each branch row keeps its key, never goes back to an earlier
  version, and changes only together with its version.
\<close>
theorem sql_history_append_only:
  assumes "rq_step\<^sup>*\<^sup>* s s'"
  shows "rows_kept s s'"
  using assms by (rule rq_steps_kept)

section \<open>A concrete history\<close>

definition ex_first :: commit where
  "ex_first = co_commit (fst (projr ex_init))"

definition ex_second :: commit where
  "ex_second = co_commit (fst (projr ex_commit))"

definition ex_memory :: "rev_error + branch \<times> repo_state" where
  "ex_memory = repo_initialize empty_repo ex_repository ex_branch ex_first"

definition ex_tables :: rev_tables where
  "ex_tables = snd (rq_initialize empty_tables ex_repository ex_branch ex_first)"

theorem sql_history_append_only_witness:
  "rows_kept ex_tables (snd (rq_append_commit ex_tables ex_branch ex_second (Some (cm_id ex_first)))) \<and>
   length (rt_commits ex_tables) = 1 \<and>
   length (rt_commits (snd (rq_append_commit ex_tables ex_branch ex_second (Some (cm_id ex_first))))) = 2"
proof (intro conjI)
  show "rows_kept ex_tables (snd (rq_append_commit ex_tables ex_branch ex_second (Some (cm_id ex_first))))"
    by (rule sql_history_append_only [OF r_into_rtranclp [where r = rq_step, OF rq_step.append_commit]])
qed code_simp+

definition ex_memory2 :: "rev_error + branch \<times> repo_state" where
  "ex_memory2 = repo_append_commit (snd (projr ex_memory)) ex_branch ex_second (Some (cm_id ex_first))"

lemma ex_agree: "heads_agree (snd (projr ex_memory)) ex_tables"
proof -
  have ok: "\<not> isl ex_memory" by code_simp
  have run: "repo_initialize empty_repo ex_repository ex_branch ex_first =
      Inr (fst (projr ex_memory), snd (projr ex_memory))"
    using sum.collapse(2) [OF ok] by (simp add: ex_memory_def)
  have "rq_repository_row empty_tables (repo_key ex_repository) = None" "branch_valid (fst (projr ex_memory))"
    by code_simp+
  then obtain t where "rq_initialize empty_tables ex_repository ex_branch ex_first = (Inr (fst (projr ex_memory)), t)"
      "heads_agree (snd (projr ex_memory)) t"
    using initialize_refines [OF heads_agree_empty run] by blast
  then show ?thesis by (simp add: ex_tables_def)
qed

theorem sql_append_refines_witness:
  "\<exists>t. rq_append_commit ex_tables ex_branch ex_second (Some (cm_id ex_first)) = (Inr (fst (projr ex_memory2)), t) \<and>
     heads_agree (snd (projr ex_memory2)) t \<and> b_version (fst (projr ex_memory2)) = 2"
proof -
  have ok: "\<not> isl ex_memory2" by code_simp
  have run: "repo_append_commit (snd (projr ex_memory)) ex_branch ex_second (Some (cm_id ex_first)) =
      Inr (fst (projr ex_memory2), snd (projr ex_memory2))"
    using sum.collapse(2) [OF ok] by (simp add: ex_memory2_def)
  have "repo_get_branch (snd (projr ex_memory)) ex_branch \<noteq> None" "branch_valid (fst (projr ex_memory2))"
      "b_version (fst (projr ex_memory2)) = 2"
    by code_simp+
  then show ?thesis using sql_append_refines [OF ex_agree run] by blast
qed

end
