(* ===== verification/DomainEvents.thy ===== *)
theory DomainEvents
  imports Artifacts Catalog
begin

text \<open>
  Domain events: the manifests of the official domains
  (\<open>backend/capability_v2/domain_manifest.py\<close>), the event envelope and the choice of a subscription
  (\<open>domain_events.py\<close>), and the transport that hands an envelope to the handlers of the domains that
  subscribe to it (\<open>event_transport.py\<close>). The handlers share a state and may raise; a poller of pending
  events is the record \<open>poller_api\<close>. The fields an envelope has from pydantic are checked by
  \<open>envelope_ok\<close>.
\<close>

section \<open>Manifests of domains\<close>

definition lower_name :: "string \<Rightarrow> bool" where
  "lower_name s = match_ident is_lower (\<lambda>c. is_lower c \<or> is_digit c \<or> c = CHR ''_'') 1 63 s"

definition export_id_ok :: "string \<Rightarrow> bool" where
  "export_id_ok s = match_ident is_lower (\<lambda>c. is_lower c \<or> is_digit c \<or> c \<in> set ''_.'') 2 127 s"

text \<open>A dotted name of \<open>n\<close> lower-case words.\<close>

definition dotted_ok :: "nat \<Rightarrow> string \<Rightarrow> bool" where
  "dotted_ok n s \<longleftrightarrow> length (str_split CHR ''.'' s) = n \<and>
     list_all (\<lambda>w. match_ident is_lower (\<lambda>c. is_lower c \<or> is_digit c \<or> c = CHR ''_'') 0 (length w) w)
       (str_split CHR ''.'' s)"

definition env_name_ok :: "string \<Rightarrow> string \<Rightarrow> bool" where
  "env_name_ok suffix s \<longleftrightarrow> str_prefix ''AI00_'' s \<and> str_suffix suffix s \<and> 5 + length suffix < length s \<and>
     list_all (\<lambda>c. is_upper c \<or> is_digit c \<or> c = CHR ''_'') (take (length s - 5 - length suffix) (drop 5 s))"

definition relative_path_ok :: "string \<Rightarrow> bool" where
  "relative_path_ok s \<longleftrightarrow> s \<noteq> [] \<and> CHR 0x5C \<notin> set s \<and> \<not> str_prefix ''/'' s \<and> key_parts s \<noteq> [] \<and>
     ''..'' \<notin> set (key_parts s)"

definition demand :: "bool \<Rightarrow> string \<Rightarrow> py_exn + unit" where
  "demand b message = (if b then Inr () else Inl (ValueError message))"

definition relative_path :: "string \<Rightarrow> string \<Rightarrow> py_exn + unit" where
  "relative_path field s = demand (relative_path_ok s) (field @ '' must be a repository-relative POSIX path'')"

record domain_database =
  db_name :: string
  db_runtime_env :: string
  db_ddl_env :: string
  db_migrations :: string
  db_schemas :: "string list"

definition database_fields_ok :: "domain_database \<Rightarrow> bool" where
  "database_fields_ok d \<longleftrightarrow> lower_name (db_name d) \<and> env_name_ok ''_DB_URL'' (db_runtime_env d) \<and>
     env_name_ok ''_DDL_DB_URL'' (db_ddl_env d)"

definition validate_migration_path :: "domain_database \<Rightarrow> py_exn + unit" where
  "validate_migration_path d =
     bindr (relative_path ''migration_path'' (db_migrations d)) (\<lambda>_.
     bindr (demand (db_schemas d \<noteq> []) ''schema_paths must not be empty'') (\<lambda>_.
     bindr (mapr (relative_path ''schema_paths'') (db_schemas d)) (\<lambda>_.
     bindr (demand (distinct (db_schemas d)) ''duplicate schema_paths'') (\<lambda>_.
     demand (db_migrations d \<in> set (db_schemas d)) ''schema_paths must include migration_path''))))"

record subscription =
  es_id :: string
  es_producer :: string
  es_type :: string
  es_min :: int
  es_max :: int

definition subscription_fields_ok :: "subscription \<Rightarrow> bool" where
  "subscription_fields_ok x \<longleftrightarrow> export_id_ok (es_id x) \<and> lower_name (es_producer x) \<and>
     dotted_ok 3 (es_type x) \<and> 1 \<le> es_min x \<and> 1 \<le> es_max x"

definition validate_version_range :: "subscription \<Rightarrow> py_exn + unit" where
  "validate_version_range x = demand (es_min x \<le> es_max x) ''min_version must not exceed max_version''"

record domain_manifest =
  dn_id :: string
  dn_artifact :: provider_artifact
  dn_path :: string
  dn_owners :: "string list"
  dn_database :: domain_database
  dn_search :: "(string \<times> int) option"
  dn_subscriptions :: "subscription list"

definition manifest_fields_ok :: "domain_manifest \<Rightarrow> bool" where
  "manifest_fields_ok m \<longleftrightarrow> lower_name (dn_id m) \<and> provider_artifact_ok (dn_artifact m) \<and>
     database_fields_ok (dn_database m) \<and> opt_ok (\<lambda>(i, v). export_id_ok i \<and> 1 \<le> v) (dn_search m) \<and>
     list_all subscription_fields_ok (dn_subscriptions m)"

definition validate_domain_contract :: "domain_manifest \<Rightarrow> py_exn + unit" where
  "validate_domain_contract m =
     bindr (relative_path ''artifact_path'' (dn_path m)) (\<lambda>_.
     bindr (demand (dn_id m \<in> set (dn_owners m)) ''allowed_owners must include domain_id'') (\<lambda>_.
     demand (distinct (map es_id (dn_subscriptions m))) ''duplicate subscription_id in domain manifest''))"

text \<open>\<open>_require_unique\<close> names the first value that was seen before.\<close>

fun require_unique :: "string \<Rightarrow> string list \<Rightarrow> string list \<Rightarrow> py_exn + unit" where
  "require_unique resource seen [] = Inr ()"
| "require_unique resource seen (v # vs) =
     (if v \<in> set seen then Inl (ValueError (''duplicate '' @ resource @ '': '' @ v))
      else require_unique resource (v # seen) vs)"

definition validate_unique_resources :: "domain_manifest list \<Rightarrow> py_exn + unit" where
  "validate_unique_resources ms =
     bindr (require_unique ''domain_id'' [] (map dn_id ms)) (\<lambda>_.
     bindr (require_unique ''plugin_id'' [] (map (pa_plugin \<circ> dn_artifact) ms)) (\<lambda>_.
     bindr (require_unique ''database_name'' [] (map (db_name \<circ> dn_database) ms)) (\<lambda>_.
     require_unique ''schema_path'' [] (concat (map (db_schemas \<circ> dn_database) ms)))))"

definition require_manifest :: "domain_manifest list \<Rightarrow> string \<Rightarrow> py_exn + domain_manifest" where
  "require_manifest ms i =
     (case List.find (\<lambda>m. dn_id m = i) ms of
        None \<Rightarrow> Inl (KeyError (''unknown domain_id: '' @ i)) | Some m \<Rightarrow> Inr m)"

section \<open>Envelopes\<close>

record envelope =
  ev_id :: string
  ev_type :: string
  ev_version :: int
  ev_producer :: string
  ev_tenant :: string
  ev_aggregate_type :: string
  ev_aggregate :: string
  ev_aggregate_version :: int
  ev_occurred :: timestamp
  ev_payload :: jobj
  ev_request :: string
  ev_trace :: string
  ev_causation :: string

definition envelope_fields_ok :: "envelope \<Rightarrow> bool" where
  "envelope_fields_ok e \<longleftrightarrow> identity_ok (ev_id e) \<and> dotted_ok 3 (ev_type e) \<and> 1 \<le> ev_version e \<and>
     lower_name (ev_producer e) \<and> identity_ok (ev_tenant e) \<and> dotted_ok 2 (ev_aggregate_type e) \<and>
     identity_ok (ev_aggregate e) \<and> 1 \<le> ev_aggregate_version e \<and> identity_ok (ev_request e) \<and>
     identity_ok (ev_trace e) \<and> identity_ok (ev_causation e)"

definition reserved_payload_fields :: "string list" where
  "reserved_payload_fields =
     [''tenant_id'', ''tenant_gid'', ''producer_domain'', ''aggregate_id'', ''aggregate_version'']"

definition closed_event_contract :: "envelope \<Rightarrow> py_exn + unit" where
  "closed_event_contract e =
     (if \<not> tz_aware (ev_occurred e) then Inl (ValueError ''occurred_at must be timezone-aware'')
      else (case sort (filter (\<lambda>k. map_of (ev_payload e) k \<noteq> None) reserved_payload_fields) of
          [] \<Rightarrow> Inr ()
        | k # _ \<Rightarrow> Inl (ValueError (''reserved event payload field: '' @ k))))"

definition built_envelope :: "envelope \<Rightarrow> py_exn + envelope" where
  "built_envelope e =
     (if \<not> envelope_fields_ok e then Inl (ValueError ''DomainEventEnvelope'')
      else bindr (closed_event_contract e) (\<lambda>_. Inr e))"

section \<open>Subscriptions of an event\<close>

datatype event_error =
    UnsupportedEventVersion string
  | EventRaised py_exn

definition subscribes :: "envelope \<Rightarrow> subscription \<Rightarrow> bool" where
  "subscribes e x \<longleftrightarrow> es_producer x = ev_producer e \<and> es_type x = ev_type e"

definition supports_event_version :: "subscription \<Rightarrow> envelope \<Rightarrow> bool" where
  "supports_event_version x e \<longleftrightarrow> es_producer x = ev_producer e \<and> es_type x = ev_type e \<and>
     es_min x \<le> ev_version e \<and> ev_version e \<le> es_max x"

definition require_event_subscription :: "subscription list \<Rightarrow> envelope \<Rightarrow> event_error + subscription" where
  "require_event_subscription xs e =
     (let matching = filter (subscribes e) xs in
      if matching = [] then Inl (UnsupportedEventVersion ''event_subscription_not_declared'')
      else (case List.find (\<lambda>x. supports_event_version x e) matching of
          Some x \<Rightarrow> Inr x
        | None \<Rightarrow> Inl (UnsupportedEventVersion ''event_version_unsupported'')))"

section \<open>The transport\<close>

type_synonym 'h handler = "'h \<Rightarrow> envelope \<Rightarrow> (event_error + bool) \<times> 'h"

record 'h transport =
  tr_subscriptions :: "subscription list list"
  tr_handlers :: "string \<Rightarrow> 'h handler option"

definition declared_for :: "'h transport \<Rightarrow> envelope \<Rightarrow> subscription list" where
  "declared_for t e = filter (subscribes e) (concat (tr_subscriptions t))"

definition supported_for :: "'h transport \<Rightarrow> envelope \<Rightarrow> subscription list" where
  "supported_for t e = filter (\<lambda>x. supports_event_version x e) (declared_for t e)"

fun call_handlers ::
  "'h transport \<Rightarrow> envelope \<Rightarrow> subscription list \<Rightarrow> 'h \<Rightarrow> (event_error + nat) \<times> 'h" where
  "call_handlers t e [] s = (Inr 0, s)"
| "call_handlers t e (x # xs) s =
     (case tr_handlers t (es_id x) of
        None \<Rightarrow> (Inl (EventRaised (RuntimeError (''event_handler_not_registered:'' @ es_id x))), s)
      | Some f \<Rightarrow>
          (case f s e of
             (Inl err, s') \<Rightarrow> (Inl err, s')
           | (Inr b, s') \<Rightarrow>
               (case call_handlers t e xs s' of
                  (Inl err, s'') \<Rightarrow> (Inl err, s'')
                | (Inr n, s'') \<Rightarrow> (Inr ((if b then 1 else 0) + n), s''))))"

definition deliver_event :: "'h transport \<Rightarrow> 'h \<Rightarrow> envelope \<Rightarrow> (event_error + nat) \<times> 'h" where
  "deliver_event t s e =
     (if declared_for t e = [] then (Inl (UnsupportedEventVersion ''event_subscription_not_declared''), s)
      else if supported_for t e = [] then (Inl (UnsupportedEventVersion ''event_version_unsupported''), s)
      else call_handlers t e (supported_for t e) s)"

section \<open>Delivering what is pending\<close>

record 'p poller_api =
  pl_poll :: "'p \<Rightarrow> nat \<Rightarrow> event_error + envelope list"
  pl_delivered :: "'p \<Rightarrow> string \<Rightarrow> 'p"
  pl_failed :: "'p \<Rightarrow> string \<Rightarrow> event_error \<Rightarrow> 'p"

fun deliver_each ::
  "'p poller_api \<Rightarrow> 'h transport \<Rightarrow> envelope list \<Rightarrow> 'h \<Rightarrow> 'p \<Rightarrow> nat \<times> 'h \<times> 'p" where
  "deliver_each api t [] s p = (0, s, p)"
| "deliver_each api t (e # es) s p =
     (case deliver_event t s e of
        (Inl err, s') \<Rightarrow> deliver_each api t es s' (pl_failed api p (ev_id e) err)
      | (Inr _, s') \<Rightarrow>
          (case deliver_each api t es s' (pl_delivered api p (ev_id e)) of
             (n, s'', p') \<Rightarrow> (Suc n, s'', p')))"

definition deliver_pending ::
  "'p poller_api \<Rightarrow> 'h transport \<Rightarrow> nat \<Rightarrow> 'h \<Rightarrow> 'p \<Rightarrow> (event_error + nat) \<times> 'h \<times> 'p" where
  "deliver_pending api t limit s p =
     (case pl_poll api p limit of
        Inl err \<Rightarrow> (Inl err, s, p)
      | Inr es \<Rightarrow> (case deliver_each api t es s p of (n, s', p') \<Rightarrow> (Inr n, s', p')))"

end
