(* ===== verification/EventDelivery.thy ===== *)
theory EventDelivery
  imports DomainEvents
begin

text \<open>
  The two ends of the Knowledge-to-Base event path: the inbox and search projection of Base
  (\<open>backend/base/inbox.py\<close>), in memory and in SQL, and the outbox of Knowledge with its poller
  (\<open>plugins/knowledge/knowledge_backend/infrastructure/domain_outbox.py\<close>) and the rows its publishers
  insert. What the database does in a transaction is a \<open>fault\<close>: nothing, a rollback with an exception,
  or a commit whose acknowledgement is lost. Time stamps that no statement reads are left out, and
  rows with the same \<open>created_at\<close> are taken in the order of insertion.
\<close>

section \<open>Text of a payload value\<close>

text \<open>\<open>str(value)\<close>; \<open>rep\<close> is the representation of a list or a dictionary.\<close>

record text_lib =
  tx_host :: hostlib
  tx_rep :: "json \<Rightarrow> string"

definition value_text :: "text_lib \<Rightarrow> json \<Rightarrow> string" where
  "value_text x v = (case v of JObj _ \<Rightarrow> tx_rep x v | JList _ \<Rightarrow> tx_rep x v | _ \<Rightarrow> py_str (tx_host x) v)"

lemma value_text_str [simp]: "value_text x (JStr s) = s"
  by (simp add: value_text_def)

definition payload_text :: "text_lib \<Rightarrow> envelope \<Rightarrow> string \<Rightarrow> event_error + string" where
  "payload_text x e k =
     (case map_of (ev_payload e) k of
        None \<Rightarrow> Inl (EventRaised (KeyError k)) | Some v \<Rightarrow> Inr (value_text x v))"

section \<open>The inbox in memory\<close>

record memory_inbox =
  mi_inbox :: "string set"
  mi_projection :: "(string \<times> jobj) list"
  mi_failures :: nat

definition mi_handle :: "text_lib \<Rightarrow> memory_inbox handler" where
  "mi_handle x s e =
     (if ev_id e \<in> mi_inbox s then (Inr False, s)
      else if 0 < mi_failures s
      then (Inl (EventRaised (RuntimeError ''transient projection failure'')),
            s\<lparr>mi_failures := mi_failures s - 1\<rparr>)
      else
        (let s' = s\<lparr>mi_inbox := insert (ev_id e) (mi_inbox s)\<rparr> in
         case payload_text x e ''document_ref'' of
           Inl err \<Rightarrow> (Inl err, s')
         | Inr ref \<Rightarrow> (Inr True, s'\<lparr>mi_projection := AList.update ref (ev_payload e) (mi_projection s)\<rparr>)))"

section \<open>The inbox in SQL\<close>

datatype fault = NoFault | RolledBack | LostAck

record inbox_row =
  ix_event :: envelope
  ix_completed :: bool

record projection_row =
  pj_version :: int
  pj_revision :: string

record sql_inbox =
  si_rows :: "inbox_row list"
  si_projection :: "((string \<times> string) \<times> projection_row) list"
  si_faults :: "fault list"

definition event_key :: "envelope \<Rightarrow> string \<times> string" where
  "event_key e = (ev_tenant e, ev_id e)"

definition database_error :: event_error where
  "database_error = EventRaised (OtherError ''OperationalError'')"

text \<open>\<open>INSERT IGNORE\<close>, the upsert of the projection, and the final \<open>UPDATE\<close> of one transaction.\<close>

definition si_apply :: "sql_inbox \<Rightarrow> envelope \<Rightarrow> string \<Rightarrow> string \<Rightarrow> sql_inbox" where
  "si_apply s e doc revision =
     s\<lparr>si_rows := map (\<lambda>r. if event_key (ix_event r) = event_key e then r\<lparr>ix_completed := True\<rparr> else r)
          (si_rows s @ [\<lparr>ix_event = e, ix_completed = False\<rparr>]),
       si_projection := AList.update (ev_tenant e, doc)
          \<lparr>pj_version = ev_aggregate_version e, pj_revision = revision\<rparr> (si_projection s)\<rparr>"

definition si_handle :: "text_lib \<Rightarrow> sql_inbox handler" where
  "si_handle x s e =
     (case (payload_text x e ''document_ref'', payload_text x e ''revision_ref'') of
        (Inl err, _) \<Rightarrow> (Inl err, s)
      | (Inr _, Inl err) \<Rightarrow> (Inl err, s)
      | (Inr doc, Inr revision) \<Rightarrow>
          (let fault = (case si_faults s of [] \<Rightarrow> NoFault | f # _ \<Rightarrow> f);
               s1 = s\<lparr>si_faults := drop 1 (si_faults s)\<rparr> in
           if fault = RolledBack then (Inl database_error, s1)
           else if list_ex (\<lambda>r. event_key (ix_event r) = event_key e) (si_rows s)
           then (if fault = LostAck then Inl database_error else Inr False, s1)
           else (if fault = LostAck then Inl database_error else Inr True, si_apply s1 e doc revision)))"

section \<open>The outbox of Knowledge\<close>

record outbox_row =
  ko_gid :: string
  ko_type :: string
  ko_version :: int
  ko_subject :: string
  ko_payload :: jobj
  ko_status :: string
  ko_attempts :: nat
  ko_error :: "string option"
  ko_created :: "int option"

record outbox =
  kx_rows :: "outbox_row list"
  kx_max_attempts :: nat
  kx_now :: int
  kx_error_text :: "event_error \<Rightarrow> string"

text \<open>\<open>removesuffix\<close>.\<close>

definition remove_suffix :: "string \<Rightarrow> string \<Rightarrow> string" where
  "remove_suffix suffix s = (if str_suffix suffix s then take (length s - length suffix) s else s)"

definition row_envelope :: "text_lib \<Rightarrow> int \<Rightarrow> outbox_row \<Rightarrow> event_error + envelope" where
  "row_envelope x now r =
     (case map_of (ko_payload r) ''tenant_gid'' of
        None \<Rightarrow> Inl (EventRaised (KeyError ''tenant_gid''))
      | Some tenant \<Rightarrow>
          (case built_envelope
             \<lparr>ev_id = ko_gid r,
              ev_type = remove_suffix (''.v'' @ str_of_int (ko_version r)) (ko_type r),
              ev_version = ko_version r, ev_producer = ''knowledge'', ev_tenant = value_text x tenant,
              ev_aggregate_type = ''knowledge.document'', ev_aggregate = ko_subject r,
              ev_aggregate_version = 1,
              ev_occurred = Aware (case ko_created r of None \<Rightarrow> now | Some t \<Rightarrow> t),
              ev_payload = AList.delete ''tenant_gid'' (ko_payload r), ev_request = ko_gid r,
              ev_trace = ko_gid r, ev_causation = ko_gid r\<rparr> of
             Inl err \<Rightarrow> Inl (EventRaised err)
           | Inr e \<Rightarrow> Inr e))"

definition row_live :: "nat \<Rightarrow> outbox_row \<Rightarrow> bool" where
  "row_live most r \<longleftrightarrow> ko_status r \<in> {''pending'', ''retry''} \<and> ko_attempts r < most"

text \<open>\<open>NULL\<close> comes first.\<close>

definition created_order :: "outbox_row \<Rightarrow> int \<times> int" where
  "created_order r = (case ko_created r of None \<Rightarrow> (0, 0) | Some t \<Rightarrow> (1, t))"

definition kx_page :: "outbox \<Rightarrow> nat \<Rightarrow> outbox_row list" where
  "kx_page p limit = take limit (sort_key created_order (filter (row_live (kx_max_attempts p)) (kx_rows p)))"

definition kx_poll :: "text_lib \<Rightarrow> outbox \<Rightarrow> nat \<Rightarrow> event_error + envelope list" where
  "kx_poll x p limit = mapr (row_envelope x (kx_now p)) (kx_page p limit)"

definition kx_mark :: "outbox \<Rightarrow> string \<Rightarrow> string \<Rightarrow> string option \<Rightarrow> outbox" where
  "kx_mark p i status err =
     p\<lparr>kx_rows := map (\<lambda>r. if ko_gid r = i
         then r\<lparr>ko_status := status, ko_attempts := ko_attempts r + 1, ko_error := err\<rparr> else r) (kx_rows p)\<rparr>"

definition kx_delivered :: "outbox \<Rightarrow> string \<Rightarrow> outbox" where
  "kx_delivered p i = kx_mark p i ''delivered'' None"

definition kx_failed :: "outbox \<Rightarrow> string \<Rightarrow> event_error \<Rightarrow> outbox" where
  "kx_failed p i err = kx_mark p i ''retry'' (Some (py_take 2048 (kx_error_text p err)))"

definition knowledge_poller :: "text_lib \<Rightarrow> outbox poller_api" where
  "knowledge_poller x = \<lparr>pl_poll = kx_poll x, pl_delivered = kx_delivered, pl_failed = kx_failed\<rparr>"

section \<open>What is published\<close>

text \<open>The row of a published document, and the row of a published reference data set.\<close>

definition document_event_row ::
  "string \<Rightarrow> string \<Rightarrow> string \<Rightarrow> string \<Rightarrow> string \<Rightarrow> int \<Rightarrow> outbox_row" where
  "document_event_row gid document doc_ref rev_ref tenant now =
     \<lparr>ko_gid = gid, ko_type = ''knowledge.document.published.v1'', ko_version = 1, ko_subject = document,
      ko_payload = [(''document_ref'', JStr doc_ref), (''revision_ref'', JStr rev_ref),
                    (''tenant_gid'', JStr tenant)],
      ko_status = ''pending'', ko_attempts = 0, ko_error = None, ko_created = Some now\<rparr>"

definition reference_event_row :: "string \<Rightarrow> string \<Rightarrow> string \<Rightarrow> int \<Rightarrow> outbox_row" where
  "reference_event_row gid dataset version now =
     \<lparr>ko_gid = gid, ko_type = ''knowledge.reference_data.published.v1'', ko_version = 1, ko_subject = dataset,
      ko_payload = [(''dataset_ref'', JStr (''knowledge-reference-dataset:'' @ dataset)),
                    (''dataset_version_ref'', JStr (''knowledge-reference-version:'' @ version))],
      ko_status = ''pending'', ko_attempts = 0, ko_error = None, ko_created = Some now\<rparr>"

definition publish_row :: "outbox \<Rightarrow> outbox_row \<Rightarrow> outbox" where
  "publish_row p r = p\<lparr>kx_rows := kx_rows p @ [r]\<rparr>"

text \<open>The composition that the manifests of the official domains declare.\<close>

definition base_subscription :: subscription where
  "base_subscription = \<lparr>es_id = ''base.knowledge_documents'', es_producer = ''knowledge'',
     es_type = ''knowledge.document.published'', es_min = 1, es_max = 1\<rparr>"

definition base_transport :: "'h handler \<Rightarrow> 'h transport" where
  "base_transport f = \<lparr>tr_subscriptions = [[base_subscription]],
     tr_handlers = (\<lambda>i. if i = ''base.knowledge_documents'' then Some f else None)\<rparr>"

end
