(* ===== verification/EventPath.thy ===== *)
theory EventPath
  imports EventProperties
begin

text \<open>
  The Knowledge-to-Base path as a whole: the states it reaches, what a delivered row guarantees, how many
  runs drain an outbox, and the two faults the path has: a row without a tenant stops every run, and
  a late retry takes the projection back to an earlier revision.
\<close>

lemma knowledge_poller_simps [simp]:
  "pl_poll (knowledge_poller x) = kx_poll x" "pl_delivered (knowledge_poller x) = kx_delivered"
  "pl_failed (knowledge_poller x) = kx_failed"
  by (simp_all add: knowledge_poller_def)

section \<open>Reachable states\<close>

inductive event_run :: "text_lib \<Rightarrow> sql_inbox \<Rightarrow> outbox \<Rightarrow> bool" for x where
  start: "event_run x \<lparr>si_rows = [], si_projection = [], si_faults = fs\<rparr>
     \<lparr>kx_rows = [], kx_max_attempts = m, kx_now = t, kx_error_text = txt\<rparr>"
| publish: "event_run x h p \<Longrightarrow> ko_status r = ''pending'' \<Longrightarrow> ko_gid r \<notin> set (gids p) \<Longrightarrow>
     event_run x h (publish_row p r)"
| environment: "event_run x h p \<Longrightarrow> event_run x (h\<lparr>si_faults := fs\<rparr>) (p\<lparr>kx_now := t\<rparr>)"
| deliver: "event_run x h p \<Longrightarrow>
     deliver_pending (knowledge_poller x) (base_transport (si_handle x)) limit h p = (r, h', p') \<Longrightarrow>
     event_run x h' p'"

definition live_event :: "outbox \<Rightarrow> envelope \<Rightarrow> bool" where
  "live_event p e \<longleftrightarrow> (\<exists>r\<in>set (kx_rows p). ko_gid r = ev_id e \<and> row_live (kx_max_attempts p) r)"

lemma polled_of_row:
  assumes "kx_poll x p limit = Inr es"
  shows "list_all (of_row x p) es" "list_all (live_event p) es"
proof -
  have "of_row x p e \<and> live_event p e" if e: "e \<in> set es" for e
  proof -
    obtain r where r: "r \<in> set (kx_rows p)" "row_live (kx_max_attempts p) r"
        "row_envelope x (kx_now p) r = Inr e"
      using polled_event [OF assms e] .
    then have "ko_gid r = ev_id e" "row_key x r = event_key e"
      by (auto elim: row_envelope_Inr intro: row_key_event)
    then show ?thesis using r by (auto simp: of_row_def live_event_def)
  qed
  then show "list_all (of_row x p) es" "list_all (live_event p) es" by (auto simp: list_all_iff)
qed

lemma deliver_pending_inv:
  assumes "path_inv x h p"
    and "deliver_pending (knowledge_poller x) (base_transport (si_handle x)) limit h p = (r, h', p')"
  shows "path_inv x h' p'"
proof (cases "kx_poll x p limit")
  case (Inl err)
  then show ?thesis using assms by (simp add: deliver_pending_def)
next
  case (Inr es)
  obtain n where "deliver_each (knowledge_poller x) (base_transport (si_handle x)) es h p = (n, h', p')"
    using assms(2) Inr
    by (cases "deliver_each (knowledge_poller x) (base_transport (si_handle x)) es h p") (simp add: deliver_pending_def)
  then show ?thesis using deliver_each_inv assms(1) polled_of_row(1) [OF Inr] by blast
qed

lemma event_run_inv: "event_run x h p \<Longrightarrow> path_inv x h p"
proof (induction rule: event_run.induct)
  case (publish h p r)
  then show ?case by (auto simp: path_inv_def publish_row_def)
next
  case (deliver h p limit r h' p')
  show ?case by (rule deliver_pending_inv [OF deliver.IH deliver.hyps(2)])
next
  case (environment h p fs t)
  then show ?case by (simp add: path_inv_def)
qed (simp add: path_inv_def)

section \<open>Draining an outbox\<close>

definition row_left :: "nat \<Rightarrow> outbox_row \<Rightarrow> nat" where
  "row_left m r = (if row_live m r then m - ko_attempts r else 0)"

definition outbox_left :: "outbox \<Rightarrow> nat" where
  "outbox_left p = sum_list (map (row_left (kx_max_attempts p)) (kx_rows p))"

lemma mark_left:
  assumes "distinct (gids p)" "r \<in> set (kx_rows p)" "row_live (kx_max_attempts p) r"
  shows "outbox_left (kx_mark p (ko_gid r) status err) < outbox_left p"
proof -
  obtain a b where rows: "kx_rows p = a @ r # b" using assms(2) by (meson split_list)
  define f :: "outbox_row \<Rightarrow> outbox_row" where "f y = (if ko_gid y = ko_gid r
     then y\<lparr>ko_status := status, ko_attempts := ko_attempts y + 1, ko_error := err\<rparr> else y)" for y
  have "ko_gid y \<noteq> ko_gid r" if "y \<in> set a \<union> set b" for y
    using assms(1) that by (auto simp: rows image_iff)
  then have "map f a = a" "map f b = b" by (auto simp: f_def intro!: map_idI)
  moreover have "kx_rows (kx_mark p (ko_gid r) status err) = map f (kx_rows p)"
    by (simp add: kx_mark_def f_def [abs_def])
  moreover have "row_left (kx_max_attempts p) (f r) < row_left (kx_max_attempts p) r"
    using assms(3) by (auto simp: row_left_def row_live_def f_def)
  ultimately show ?thesis by (simp add: outbox_left_def rows)
qed

lemma live_event_mark:
  assumes "live_event p e" "ev_id e \<noteq> i"
  shows "live_event (kx_mark p i status err) e"
proof -
  obtain r where r: "r \<in> set (kx_rows p)" "ko_gid r = ev_id e" "row_live (kx_max_attempts p) r"
    using assms(1) by (auto simp: live_event_def)
  then have "r \<in> set (kx_rows (kx_mark p i status err))"
    using assms(2) by (force simp: kx_mark_def)
  then show ?thesis using r by (auto simp: live_event_def)
qed

text \<open>What a run changes of an outbox: only marks.\<close>

definition same_events :: "outbox \<Rightarrow> outbox \<Rightarrow> bool" where
  "same_events p q \<longleftrightarrow> map row_body (kx_rows q) = map row_body (kx_rows p) \<and> gids q = gids p \<and>
     kx_max_attempts q = kx_max_attempts p \<and> kx_now q = kx_now p"

lemma same_events_mark [simp]: "same_events p (kx_mark p i status err)"
  by (simp add: same_events_def marked_bodies)

lemma same_events_trans: "same_events p q \<Longrightarrow> same_events q r \<Longrightarrow> same_events p r"
  by (simp add: same_events_def)

lemma deliver_each_left:
  assumes "distinct (gids p)" "distinct (map ev_id es)" "list_all (live_event p) es"
    and "deliver_each (knowledge_poller x) t es h p = (n, h', p')"
  shows "same_events p p' \<and> outbox_left p' + length es \<le> outbox_left p"
  using assms
proof (induction es arbitrary: h p n)
  case Nil
  then show ?case by (simp add: same_events_def)
next
  case (Cons e es)
  have step: "same_events p p' \<and> outbox_left p' + length (e # es) \<le> outbox_left p"
    if "deliver_each (knowledge_poller x) t es h1 (kx_mark p (ev_id e) status err) = (m, h', p')"
    for h1 status err m
  proof -
    obtain r where r: "r \<in> set (kx_rows p)" "ko_gid r = ev_id e" "row_live (kx_max_attempts p) r"
      using Cons.prems(3) by (auto simp: live_event_def)
    have "outbox_left (kx_mark p (ev_id e) status err) < outbox_left p"
      using mark_left [OF Cons.prems(1) r(1,3)] by (simp add: r(2))
    moreover have "live_event (kx_mark p (ev_id e) status err) y" if "y \<in> set es" for y
      by (rule live_event_mark) (use Cons.prems(2,3) that in \<open>auto simp: list_all_iff image_iff\<close>)
    then have "list_all (live_event (kx_mark p (ev_id e) status err)) es" by (simp add: list_all_iff)
    ultimately show ?thesis
      using Cons.IH [OF _ _ _ that] Cons.prems(1,2) same_events_trans [OF same_events_mark] by fastforce
  qed
  show ?case
    using Cons.prems(4) step
    by (auto simp: kx_delivered_def kx_failed_def split: prod.splits sum.splits)
qed

definition well_formed :: "text_lib \<Rightarrow> outbox \<Rightarrow> bool" where
  "well_formed x p \<longleftrightarrow> list_all (\<lambda>r. \<not> isl (row_envelope x (kx_now p) r)) (kx_rows p)"

lemma well_formed_same: "same_events p q \<Longrightarrow> well_formed x p \<Longrightarrow> well_formed x q"
proof -
  assume same: "same_events p q" and ok: "well_formed x p"
  have "list_all (\<lambda>r. \<not> isl (row_envelope x (kx_now p) r)) (map row_body (kx_rows p))"
    using ok by (simp add: well_formed_def list_all_iff row_envelope_body)
  then show "well_formed x q"
    using same unfolding same_events_def well_formed_def
    by (metis (no_types, lifting) list_all_iff list.set_map image_eqI row_envelope_body)
qed

lemma mapr_all: "list_all (\<lambda>r. \<not> isl (f r)) xs \<Longrightarrow> \<exists>ys. mapr f xs = Inr ys"
  by (induction xs) (auto simp: bindr_def isl_def split: sum.splits)

fun run_deliveries ::
  "text_lib \<Rightarrow> 'h transport \<Rightarrow> nat \<Rightarrow> nat \<Rightarrow> 'h \<Rightarrow> outbox \<Rightarrow> 'h \<times> outbox" where
  "run_deliveries x t limit 0 h p = (h, p)"
| "run_deliveries x t limit (Suc n) h p =
     (case deliver_pending (knowledge_poller x) t limit h p of
        (_, h', p') \<Rightarrow> run_deliveries x t limit n h' p')"

lemma deliver_pending_left:
  assumes "distinct (gids p)" "well_formed x p"
    and "deliver_pending (knowledge_poller x) t limit h p = (r, h', p')"
  shows "same_events p p' \<and> outbox_left p' + length (kx_page p limit) \<le> outbox_left p"
proof -
  have "list_all (\<lambda>r. \<not> isl (row_envelope x (kx_now p) r)) (kx_page p limit)"
    using assms(2) page_rows by (auto simp: well_formed_def list_all_iff)
  then obtain es where es: "kx_poll x p limit = Inr es" using mapr_all kx_poll_def by metis
  obtain n where "deliver_each (knowledge_poller x) t es h p = (n, h', p')"
    using assms(3) es
    by (cases "deliver_each (knowledge_poller x) t es h p") (simp add: deliver_pending_def)
  moreover have "list_all (live_event p) es" using polled_of_row(2) [OF es] .
  moreover have "map ev_id es = map ko_gid (kx_page p limit)" using polled_ids [OF es] .
  moreover have "length es = length (kx_page p limit)"
    using polled_ids [OF es] by (metis length_map)
  ultimately show ?thesis
    using deliver_each_left [OF assms(1)] page_distinct [OF assms(1)] by metis
qed

lemma no_page_no_left:
  assumes "0 < limit"
  shows "kx_page p limit = [] \<longleftrightarrow> outbox_left p = 0"
proof -
  have "row_left m r = 0 \<longleftrightarrow> \<not> row_live m r" for m r
    by (auto simp: row_left_def row_live_def)
  moreover have "sort_key created_order xs = [] \<longleftrightarrow> xs = []" for xs
    by (metis length_0_conv length_sort)
  ultimately show ?thesis
    using assms by (simp add: kx_page_def outbox_left_def sum_list_eq_0_iff filter_empty_conv)
qed

lemma runs_drain:
  assumes "0 < limit" "distinct (gids p)" "well_formed x p" "outbox_left p \<le> n"
  shows "outbox_left (snd (run_deliveries x t limit n h p)) = 0"
  using assms
proof (induction n arbitrary: h p)
  case (Suc n)
  obtain r h' p' where run: "deliver_pending (knowledge_poller x) t limit h p = (r, h', p')"
    by (metis surj_pair)
  from deliver_pending_left [OF Suc.prems(2,3) run]
  have same: "same_events p p'" and left: "outbox_left p' + length (kx_page p limit) \<le> outbox_left p" by auto
  have "outbox_left p' \<le> n"
    using left Suc.prems(4) no_page_no_left [OF Suc.prems(1), of p] by (cases "kx_page p limit") auto
  moreover have "distinct (gids p')" using same Suc.prems(2) by (simp add: same_events_def)
  ultimately show ?case
    using Suc.IH [OF Suc.prems(1)] well_formed_same [OF same Suc.prems(3)] by (simp add: run)
qed simp

section \<open>Blocking and late retries\<close>

lemma mapr_some_Inl:
  assumes "r \<in> set xs" "f r = Inl e"
  shows "\<exists>err. mapr f xs = Inl err"
proof (cases "mapr f xs")
  case (Inr ys)
  then obtain i where "i < length xs" "xs ! i = r" "f (xs ! i) = Inr (ys ! i)"
    using assms(1) mapr_Inr_nth by (metis in_set_conv_nth)
  then show ?thesis using assms(2) by simp
qed simp

lemma live_in_page:
  assumes "r \<in> set (kx_rows p)" "row_live (kx_max_attempts p) r" "length (kx_rows p) \<le> limit"
  shows "r \<in> set (kx_page p limit)"
proof -
  have "length (filter (row_live (kx_max_attempts p)) (kx_rows p)) \<le> limit"
    using assms(3) length_filter_le le_trans by blast
  then show ?thesis using assms(1,2) by (simp add: kx_page_def)
qed

lemma blocked_runs:
  assumes "kx_poll x p limit = Inl err"
  shows "run_deliveries x t limit n h p = (h, p)"
  by (induction n) (simp_all add: deliver_pending_def assms)

lemma si_handle_texts:
  assumes "payload_text x e ''document_ref'' = Inr doc" "payload_text x e ''revision_ref'' = Inr revision"
  shows "si_handle x s e =
    (let fault = (case si_faults s of [] \<Rightarrow> NoFault | f # _ \<Rightarrow> f); s1 = s\<lparr>si_faults := drop 1 (si_faults s)\<rparr> in
     if fault = RolledBack then (Inl database_error, s1)
     else if si_recorded s (event_key e)
     then (if fault = LostAck then Inl database_error else Inr False, s1)
     else (if fault = LostAck then Inl database_error else Inr True, si_apply s1 e doc revision))"
  unfolding si_handle_def assms si_recorded_def by simp

section \<open>A concrete path\<close>

definition ex_text :: text_lib where
  "ex_text = \<lparr>tx_host = host_ascii, tx_rep = (\<lambda>_. [])\<rparr>"

definition ex_inbox :: "fault list \<Rightarrow> sql_inbox" where
  "ex_inbox fs = \<lparr>si_rows = [], si_projection = [], si_faults = fs\<rparr>"

definition ex_outbox :: "outbox_row list \<Rightarrow> outbox" where
  "ex_outbox rows = \<lparr>kx_rows = rows, kx_max_attempts = 5, kx_now = 0, kx_error_text = (\<lambda>_. ''error'')\<rparr>"

definition ex_row :: "string \<Rightarrow> string \<Rightarrow> outbox_row" where
  "ex_row gid revision = document_event_row gid ''d1'' ''document:d1'' revision ''t1'' 7"

definition ex_transport :: "sql_inbox transport" where
  "ex_transport = base_transport (si_handle ex_text)"

definition ex_run :: "nat \<Rightarrow> fault list \<Rightarrow> outbox_row list \<Rightarrow> sql_inbox \<times> outbox" where
  "ex_run n fs rows = run_deliveries ex_text ex_transport 100 n (ex_inbox fs) (ex_outbox rows)"

lemma ex_started: "event_run ex_text (ex_inbox fs) (ex_outbox [])"
  by (simp add: ex_inbox_def ex_outbox_def event_run.start)

lemma ex_published: "event_run ex_text (ex_inbox fs) (ex_outbox [ex_row ''e1'' ''r1''])"
  using event_run.publish [OF ex_started, of "ex_row ''e1'' ''r1''" fs]
  by (simp add: publish_row_def ex_outbox_def ex_row_def document_event_row_def)

lemma ex_ran: "event_run ex_text (fst (ex_run 1 [] [ex_row ''e1'' ''r1''])) (snd (ex_run 1 [] [ex_row ''e1'' ''r1'']))"
proof -
  obtain r h p where run: "deliver_pending (knowledge_poller ex_text) ex_transport 100 (ex_inbox [])
      (ex_outbox [ex_row ''e1'' ''r1'']) = (r, h, p)"
    by (metis surj_pair)
  then have "event_run ex_text h p"
    using event_run.deliver [OF ex_published] by (simp add: ex_transport_def)
  then show ?thesis using run by (simp add: ex_run_def)
qed

definition ex_event :: "string \<Rightarrow> string \<Rightarrow> envelope" where
  "ex_event gid revision = projr (row_envelope ex_text 0 (ex_row gid revision))"

section \<open>Properties\<close>

text \<open>
  However often an event is delivered, with rollbacks and lost acknowledgements in between, both
  inboxes apply it at most once: over any sequence of calls, at most one call for a given event changes
  the inbox or the projection, by tenant and event in SQL and by event in memory.
\<close>
theorem inbox_applies_once:
  "effect_count (si_handle x) event_key (\<lambda>s. (si_rows s, si_projection s)) k s es \<le> 1 \<and>
   effect_count (mi_handle x) ev_id (\<lambda>s. (mi_inbox s, mi_projection s)) i m es \<le> 1"
  using sql_events.at_most_one_effect memory_events.at_most_one_effect by blast

text \<open>
  C23. A delivered row has reached Base: in every state that publications, runs of the poller and database
  faults lead to, each outbox row with status \<open>delivered\<close> has its event in the inbox of Base, under the
  tenant of its payload.
\<close>
theorem delivered_means_recorded:
  assumes "event_run x h p" "r \<in> set (kx_rows p)" "ko_status r = ''delivered''"
  shows "si_recorded h (row_key x r)"
  using event_run_inv [OF assms(1)] assms(2,3) by (simp add: path_inv_def)

theorem delivered_means_recorded_witness:
  "map ko_status (kx_rows (snd (ex_run 1 [] [ex_row ''e1'' ''r1'']))) = [''delivered''] \<and>
   si_recorded (fst (ex_run 1 [] [ex_row ''e1'' ''r1''])) (''t1'', ''e1'')"
proof -
  have status: "map ko_status (kx_rows (snd (ex_run 1 [] [ex_row ''e1'' ''r1'']))) = [''delivered'']"
    and keys: "map (row_key ex_text) (kx_rows (snd (ex_run 1 [] [ex_row ''e1'' ''r1'']))) = [(''t1'', ''e1'')]"
    by code_simp+
  then obtain r where "kx_rows (snd (ex_run 1 [] [ex_row ''e1'' ''r1''])) = [r]" "ko_status r = ''delivered''"
      "row_key ex_text r = (''t1'', ''e1'')" by auto
  then show ?thesis using status delivered_means_recorded [OF ex_ran, of r] by simp
qed

text \<open>
  C28. Runs of the poller come to an end: if every row of an outbox is a valid event and rows have distinct
  identifiers, and a run reads at least one row, then after as many
  runs as there are attempts left, whatever the handlers do, no row is pending any more and a further
  run finds nothing to deliver.
\<close>
theorem outbox_drains:
  assumes "0 < limit" "distinct (gids p)" "well_formed x p" "outbox_left p \<le> n"
  shows "kx_poll x (snd (run_deliveries x t limit n h p)) limit = Inr []"
proof -
  have "kx_page (snd (run_deliveries x t limit n h p)) limit = []"
    unfolding no_page_no_left [OF assms(1)] by (rule runs_drain [OF assms])
  then show ?thesis by (simp add: kx_poll_def)
qed

theorem outbox_drains_witness:
  "outbox_left (ex_outbox [ex_row ''e1'' ''r1'', ex_row ''e2'' ''r2'']) = 10 \<and>
   kx_poll ex_text (snd (ex_run 10 [RolledBack, LostAck] [ex_row ''e1'' ''r1'', ex_row ''e2'' ''r2''])) 100 = Inr []"
proof -
  let ?p = "ex_outbox [ex_row ''e1'' ''r1'', ex_row ''e2'' ''r2'']"
  have left: "outbox_left ?p = 10" by code_simp
  moreover have "distinct (gids ?p)" "well_formed ex_text ?p" by code_simp+
  ultimately show ?thesis
    unfolding ex_run_def by (intro conjI outbox_drains) simp_all
qed

text \<open>
  A published reference data set stops the path: its row has no \<open>tenant_gid\<close>, so as long as it is in the
  page of the poller every run raises before any event is delivered, and no number of runs changes
  the outbox or calls a handler.
\<close>
theorem reference_event_blocks:
  assumes "reference_event_row g d v now \<in> set (kx_rows p)" "0 < kx_max_attempts p"
    and "length (kx_rows p) \<le> limit"
  shows "run_deliveries x t limit n h p = (h, p) \<and>
    isl (fst (deliver_pending (knowledge_poller x) t limit h p))"
proof -
  let ?r = "reference_event_row g d v now"
  have "row_live (kx_max_attempts p) ?r" using assms(2) by (simp add: row_live_def reference_event_row_def)
  then have "?r \<in> set (kx_page p limit)" using live_in_page assms(1,3) by blast
  moreover have "row_envelope x (kx_now p) ?r = Inl (EventRaised (KeyError ''tenant_gid''))"
    by (simp add: row_envelope_def reference_event_row_def)
  ultimately obtain err where "kx_poll x p limit = Inl err"
    unfolding kx_poll_def using mapr_some_Inl by metis
  then show ?thesis using blocked_runs by (simp add: deliver_pending_def)
qed

theorem reference_event_blocks_witness:
  "snd (run_deliveries ex_text ex_transport 100 9 (ex_inbox [])
     (ex_outbox [ex_row ''e1'' ''r1'', reference_event_row ''e2'' ''d'' ''v'' 8])) =
   ex_outbox [ex_row ''e1'' ''r1'', reference_event_row ''e2'' ''d'' ''v'' 8]"
  using reference_event_blocks [of "''e2''" "''d''" "''v''" 8
      "ex_outbox [ex_row ''e1'' ''r1'', reference_event_row ''e2'' ''d'' ''v'' 8]" 100 ex_text ex_transport 9 "ex_inbox []"]
  by (simp add: ex_outbox_def)

text \<open>
  A late retry takes the projection back: when the transaction of one event rolls back, a later event
  of the same document is applied, and the first is delivered again, the projection shows the
  revision of the first event, although the second was published after it.
\<close>
theorem late_retry_reverts_projection:
  assumes "ev_tenant a = ev_tenant b" "ev_id a \<noteq> ev_id b"
    and "payload_text x a ''document_ref'' = Inr doc" "payload_text x a ''revision_ref'' = Inr old"
    and "payload_text x b ''document_ref'' = Inr doc" "payload_text x b ''revision_ref'' = Inr new"
    and "\<not> si_recorded s (event_key a)" "\<not> si_recorded s (event_key b)" "si_faults s = [RolledBack]"
  shows "map_of (si_projection (snd (si_handle x (snd (si_handle x (snd (si_handle x s a)) b)) a)))
    (ev_tenant a, doc) = Some \<lparr>pj_version = ev_aggregate_version a, pj_revision = old\<rparr>"
proof -
  have first: "snd (si_handle x s a) = s\<lparr>si_faults := []\<rparr>"
    by (simp add: si_handle_texts [OF assms(3,4)] assms(9))
  have second: "snd (si_handle x (s\<lparr>si_faults := []\<rparr>) b) = si_apply (s\<lparr>si_faults := []\<rparr>) b doc new"
    by (simp add: si_handle_texts [OF assms(5,6)] assms(8))
  have keys: "event_key a \<noteq> event_key b" using assms(2) by (simp add: event_key_def)
  have faults: "si_faults (si_apply (s\<lparr>si_faults := []\<rparr>) b doc new) = []" by (simp add: si_apply_def)
  have "snd (si_handle x (si_apply (s\<lparr>si_faults := []\<rparr>) b doc new) a) =
      si_apply (si_apply (s\<lparr>si_faults := []\<rparr>) b doc new) a doc old"
    by (simp add: si_handle_texts [OF assms(3,4)] assms(7) keys faults) (simp add: si_apply_def)
  then show ?thesis by (simp add: first second) (simp add: si_apply_def)
qed

theorem late_retry_reverts_projection_witness:
  "map_of (si_projection (snd (si_handle ex_text (snd (si_handle ex_text (snd (si_handle ex_text
     (ex_inbox [RolledBack]) (ex_event ''e1'' ''r1''))) (ex_event ''e2'' ''r2''))) (ex_event ''e1'' ''r1''))))
   (''t1'', ''document:d1'') = Some \<lparr>pj_version = 1, pj_revision = ''r1''\<rparr>"
proof -
  have tenant: "ev_tenant (ex_event ''e1'' ''r1'') = ''t1''" "ev_aggregate_version (ex_event ''e1'' ''r1'') = 1"
    by code_simp+
  have "map_of (si_projection (snd (si_handle ex_text (snd (si_handle ex_text (snd (si_handle ex_text
     (ex_inbox [RolledBack]) (ex_event ''e1'' ''r1''))) (ex_event ''e2'' ''r2''))) (ex_event ''e1'' ''r1''))))
   (ev_tenant (ex_event ''e1'' ''r1''), ''document:d1'') =
     Some \<lparr>pj_version = ev_aggregate_version (ex_event ''e1'' ''r1''), pj_revision = ''r1''\<rparr>"
    by (rule late_retry_reverts_projection [where new = "''r2''"]) code_simp+
  then show ?thesis by (simp only: tenant)
qed

end
