(* ===== verification/ConnectorPlan.thy ===== *)
theory ConnectorPlan
  imports WireCanonical
begin

text \<open>
  Plans and outcomes of the connector protocol (\<open>backend/contracts/connector_execution_plan_v2.py\<close>):
  signatures in unpadded base64url, UTC time stamps in ticks of 100 nanoseconds, the closed records
  with their validators, the bytes a signature covers and the verification of signatures. A record
  is what strict parsing makes of a mapping with the right fields. The elliptic curve arithmetic of
  the cryptography library is the parameter \<open>ecdsa\<close>: whether the coordinates are a public key that
  accepts a signature of some bytes, \<open>None\<close> where the library raises.
\<close>

section \<open>Unpadded base64url\<close>

definition base64url_alphabet :: string where
  "base64url_alphabet = ''ABCDEFGHIJKLMNOPQRSTUVWXYZabcdefghijklmnopqrstuvwxyz0123456789-_''"

definition base64url_chars :: "string \<Rightarrow> bool" where
  "base64url_chars s \<longleftrightarrow> s \<noteq> [] \<and> list_all (\<lambda>c. is_alnum c \<or> c \<in> set ''_-'') s"

definition sextet :: "char \<Rightarrow> nat" where
  "sextet c = index_of c base64url_alphabet"

text \<open>Four characters are three bytes; unused low bits of the last one are dropped.\<close>

fun base64_bytes :: "nat list \<Rightarrow> nat list option" where
  "base64_bytes (a # b # c # d # r) =
     map_option (\<lambda>t. (a * 4 + b div 16) # ((b mod 16) * 16 + c div 4) # ((c mod 4) * 64 + d) # t)
       (base64_bytes r)"
| "base64_bytes [a, b, c] = Some [a * 4 + b div 16, (b mod 16) * 16 + c div 4]"
| "base64_bytes [a, b] = Some [a * 4 + b div 16]"
| "base64_bytes [a] = None"
| "base64_bytes [] = Some []"

fun base64_sextets :: "nat list \<Rightarrow> nat list" where
  "base64_sextets (x # y # z # r) =
     (x div 4) # ((x mod 4) * 16 + y div 16) # ((y mod 16) * 4 + z div 64) # (z mod 64) # base64_sextets r"
| "base64_sextets [x, y] = [x div 4, (x mod 4) * 16 + y div 16, (y mod 16) * 4]"
| "base64_sextets [x] = [x div 4, (x mod 4) * 16]"
| "base64_sextets [] = []"

definition base64url_text :: "nat list \<Rightarrow> string" where
  "base64url_text bytes = map (\<lambda>n. base64url_alphabet ! n) (base64_sextets bytes)"

definition decode_base64url :: "string \<Rightarrow> nat \<Rightarrow> py_exn + nat list" where
  "decode_base64url value size' =
     (if \<not> base64url_chars value then Inl (ValueError ''unpadded_base64url_required'')
      else (case base64_bytes (map sextet value) of
          None \<Rightarrow> Inl (ValueError ''invalid_base64url'')
        | Some decoded \<Rightarrow>
            if length decoded \<noteq> size' then Inl (ValueError ''base64url_length_invalid'')
            else if base64url_text decoded \<noteq> value then Inl (ValueError ''non_canonical_base64url'')
            else Inr decoded))"

definition from_bytes :: "nat list \<Rightarrow> nat" where
  "from_bytes = foldl (\<lambda>n b. n * 256 + b) 0"

definition p256_order :: nat where
  "p256_order = 0xFFFFFFFF00000000FFFFFFFFFFFFFFFFBCE6FAADA7179E84F3B9CAC2FC632551"

definition decode_signature :: "string \<Rightarrow> py_exn + nat \<times> nat" where
  "decode_signature value =
     bindr (decode_base64url value 64) (\<lambda>raw.
       let r = from_bytes (take 32 raw); s = from_bytes (drop 32 raw) in
       if \<not> (0 < r \<and> r < p256_order) \<or> \<not> (0 < s \<and> s \<le> p256_order div 2)
       then Inl (ValueError ''low_s_p1363_signature_required'')
       else Inr (r, s))"

section \<open>Time stamps\<close>

definition number_at :: "string \<Rightarrow> nat \<Rightarrow> nat \<Rightarrow> int" where
  "number_at s i n = foldl (\<lambda>acc c. acc * 10 + digit_val c) 0 (take n (drop i s))"

definition between :: "int \<Rightarrow> int \<Rightarrow> int \<Rightarrow> bool" where
  "between lo hi n \<longleftrightarrow> lo \<le> n \<and> n \<le> hi"

definition digits_at :: "string \<Rightarrow> nat list \<Rightarrow> bool" where
  "digits_at s is \<longleftrightarrow> list_all (\<lambda>i. is_digit (s ! i)) is"

text \<open>The expression \<open>TIMESTAMP_PATTERN\<close>.\<close>

definition timestamp_shape :: "string \<Rightarrow> bool" where
  "timestamp_shape s \<longleftrightarrow> 20 \<le> length s \<and>
     digits_at s [0, 1, 2, 3, 5, 6, 8, 9, 11, 12, 14, 15, 17, 18] \<and>
     s ! 4 = CHR ''-'' \<and> s ! 7 = CHR ''-'' \<and> s ! 10 = CHR ''T'' \<and> s ! 13 = CHR '':'' \<and> s ! 16 = CHR '':'' \<and>
     between 1 12 (number_at s 5 2) \<and> between 1 31 (number_at s 8 2) \<and> between 0 23 (number_at s 11 2) \<and>
     between 0 59 (number_at s 14 2) \<and> between 0 59 (number_at s 17 2) \<and> s ! (length s - 1) = CHR ''Z'' \<and>
     (if length s = 20 then True
      else s ! 19 = CHR ''.'' \<and> 22 \<le> length s \<and> length s \<le> 28 \<and>
           list_all is_digit (take (length s - 21) (drop 20 s)))"

definition leap_year :: "int \<Rightarrow> bool" where
  "leap_year y \<longleftrightarrow> y mod 4 = 0 \<and> (y mod 100 \<noteq> 0 \<or> y mod 400 = 0)"

definition month_days :: "int \<Rightarrow> int list" where
  "month_days y = [31, if leap_year y then 29 else 28, 31, 30, 31, 30, 31, 31, 30, 31, 30, 31]"

definition days_before_year :: "int \<Rightarrow> int" where
  "days_before_year y = (y - 1) * 365 + (y - 1) div 4 - (y - 1) div 100 + (y - 1) div 400"

text \<open>\<open>date.toordinal\<close>.\<close>

definition ordinal :: "int \<Rightarrow> int \<Rightarrow> int \<Rightarrow> int" where
  "ordinal y m d = days_before_year y + sum_list (take (nat (m - 1)) (month_days y)) + d"

definition timestamp_ticks :: "string \<Rightarrow> py_exn + int" where
  "timestamp_ticks s =
     (let y = number_at s 0 4; m = number_at s 5 2; d = number_at s 8 2;
          fraction = (if 20 < length s then take (length s - 21) (drop 20 s) else []);
          fraction_ticks = number_at (fraction @ replicate (7 - length fraction) CHR ''0'') 0 7 in
      if y = 0 \<or> month_days y ! nat (m - 1) < d then Inl (ValueError ''day is out of range for month'')
      else Inr ((ordinal y m d * 86400 + number_at s 11 2 * 3600 + number_at s 14 2 * 60 + number_at s 17 2)
                * 10000000 + fraction_ticks))"

definition wire_time_ok :: "string \<Rightarrow> bool" where
  "wire_time_ok s \<longleftrightarrow> timestamp_shape s \<and> \<not> isl (timestamp_ticks s)"

definition ticks_of :: "string \<Rightarrow> int" where
  "ticks_of s = (case timestamp_ticks s of Inl _ \<Rightarrow> 0 | Inr t \<Rightarrow> t)"

section \<open>Field patterns\<close>

definition wire_operation_ok :: "string \<Rightarrow> bool" where
  "wire_operation_ok s \<longleftrightarrow>
     (case str_split CHR ''@'' s of
        [name, major] \<Rightarrow> capability_id_ok name \<and>
          match_ident (\<lambda>c. is_digit c \<and> c \<noteq> CHR ''0'') is_digit 0 (length major) major
      | _ \<Rightarrow> False)"

definition wire_hash_ok :: "string \<Rightarrow> bool" where
  "wire_hash_ok s \<longleftrightarrow> str_prefix ''sha256:'' s \<and> length s = 71 \<and> list_all is_hex (drop 7 s)"

definition plan_hash_ok :: "string \<Rightarrow> bool" where
  "plan_hash_ok s \<longleftrightarrow> length s = 64 \<and> list_all is_hex s"

definition wire_error_code_ok :: "string \<Rightarrow> bool" where
  "wire_error_code_ok s \<longleftrightarrow> 1 \<le> length s \<and> length s \<le> 128 \<and>
     list_all (\<lambda>c. is_lower c \<or> is_digit c \<or> c \<in> set ''_.-'') s"

definition product_version_ok :: "string \<Rightarrow> bool" where
  "product_version_ok s \<longleftrightarrow>
     (let parts = str_split CHR ''.'' s in
      2 \<le> length parts \<and> length parts \<le> 4 \<and> list_all (\<lambda>w. w \<noteq> [] \<and> list_all is_digit w) parts)"

definition version_tuple :: "string \<Rightarrow> int list" where
  "version_tuple s = map (\<lambda>w. number_at w 0 (length w)) (str_split CHR ''.'' s)"

section \<open>Records\<close>

record target_product =
  tp_id :: string
  tp_minimum :: string
  tp_maximum :: string

definition target_product_valid :: "target_product \<Rightarrow> bool" where
  "target_product_valid p \<longleftrightarrow> capability_id_ok (tp_id p) \<and> product_version_ok (tp_minimum p) \<and>
     product_version_ok (tp_maximum p) \<and> version_tuple (tp_minimum p) < version_tuple (tp_maximum p)"

datatype side_effect = ReadEffect | WriteEffect | DestructiveEffect

fun side_effect_value :: "side_effect \<Rightarrow> string" where
  "side_effect_value ReadEffect = ''read''"
| "side_effect_value WriteEffect = ''write''"
| "side_effect_value DestructiveEffect = ''destructive''"

record plan_step =
  ps_id :: string
  ps_operation :: string
  ps_contract :: string
  ps_depends :: "string list"
  ps_payload :: json
  ps_payload_hash :: string
  ps_timeout :: int
  ps_effect :: side_effect
  ps_probe :: "string option"

definition wire_digest :: "hostlib \<Rightarrow> json \<Rightarrow> py_exn + string" where
  "wire_digest h v = bindr (canonicalize_v2 h v) (\<lambda>bytes. Inr (sha256_hex h bytes))"

definition step_valid :: "hostlib \<Rightarrow> plan_step \<Rightarrow> bool" where
  "step_valid h p \<longleftrightarrow> identity_ok (ps_id p) \<and> wire_operation_ok (ps_operation p) \<and>
     wire_hash_ok (ps_contract p) \<and> wire_hash_ok (ps_payload_hash p) \<and> 1 \<le> ps_timeout p \<and> ps_timeout p \<le> 900 \<and>
     validate_json (ps_payload p) = Inr () \<and>
     (case wire_digest h (ps_payload p) of Inl _ \<Rightarrow> False | Inr d \<Rightarrow> ps_payload_hash p = ''sha256:'' @ d) \<and>
     distinct (ps_depends p) \<and> (ps_effect p = ReadEffect \<or> ps_probe p \<noteq> None)"

record execution_plan =
  xp_id :: string
  xp_capability :: string
  xp_major :: int
  xp_version :: string
  xp_definition :: string
  xp_release :: string
  xp_tenant :: string
  xp_actor :: string
  xp_device :: string
  xp_generation :: int
  xp_instance :: string
  xp_adapter :: string
  xp_adapter_major :: int
  xp_target :: target_product
  xp_input_hash :: string
  xp_receipt :: "string option"
  xp_key :: string
  xp_steps :: "plan_step list"
  xp_issued :: string
  xp_expires :: string
  xp_hash :: string
  xp_key_id :: string
  xp_signature :: string

definition optional_text :: "string option \<Rightarrow> json" where
  "optional_text v = (case v of None \<Rightarrow> JNull | Some s \<Rightarrow> JStr s)"

definition target_json :: "target_product \<Rightarrow> json" where
  "target_json p = JObj [(''product_id'', JStr (tp_id p)), (''minimum_version'', JStr (tp_minimum p)),
     (''maximum_version_exclusive'', JStr (tp_maximum p))]"

definition step_json :: "plan_step \<Rightarrow> json" where
  "step_json p = JObj [(''step_id'', JStr (ps_id p)), (''operation_id'', JStr (ps_operation p)),
     (''contract_hash'', JStr (ps_contract p)), (''depends_on'', JList (map JStr (ps_depends p))),
     (''payload'', ps_payload p), (''payload_hash'', JStr (ps_payload_hash p)),
     (''timeout_seconds'', JInt (ps_timeout p)),
     (''side_effect_classification'', JStr (side_effect_value (ps_effect p))),
     (''post_condition_probe_id'', optional_text (ps_probe p))]"

definition protocol_v2 :: string where
  "protocol_v2 = ''ai00.connector.execution-plan.v2''"

definition signature_algorithm :: string where
  "signature_algorithm = ''ecdsa-p256-sha256''"

definition plan_fields :: "execution_plan \<Rightarrow> jobj" where
  "plan_fields p = [(''protocol'', JStr protocol_v2), (''plan_id'', JStr (xp_id p)),
     (''capability_id'', JStr (xp_capability p)), (''major_version'', JInt (xp_major p)),
     (''capability_version_gid'', JStr (xp_version p)),
     (''business_definition_hash'', JStr (xp_definition p)), (''catalog_release'', JStr (xp_release p)),
     (''tenant_id'', JStr (xp_tenant p)), (''actor_id'', JStr (xp_actor p)),
     (''device_id'', JStr (xp_device p)), (''runtime_generation'', JInt (xp_generation p)),
     (''runtime_instance_id'', JStr (xp_instance p)), (''adapter_id'', JStr (xp_adapter p)),
     (''adapter_major'', JInt (xp_adapter_major p)), (''target_product'', target_json (xp_target p)),
     (''normalized_input_hash'', JStr (xp_input_hash p)),
     (''confirmation_receipt_id'', optional_text (xp_receipt p)), (''idempotency_key'', JStr (xp_key p)),
     (''steps'', JList (map step_json (xp_steps p))), (''issued_at'', JStr (xp_issued p)),
     (''expires_at'', JStr (xp_expires p)), (''plan_hash'', JStr (xp_hash p)),
     (''signature_algorithm'', JStr signature_algorithm), (''key_id'', JStr (xp_key_id p)),
     (''signature'', JStr (xp_signature p))]"

definition without_keys :: "string list \<Rightarrow> jobj \<Rightarrow> json" where
  "without_keys ks fields' = JObj (filter (\<lambda>(k, _). k \<notin> set ks) fields')"

definition compute_plan_hash :: "hostlib \<Rightarrow> execution_plan \<Rightarrow> py_exn + string" where
  "compute_plan_hash h p =
     bindr (validate_json_depth (JObj (plan_fields p)) 0) (\<lambda>_.
       wire_digest h (without_keys [''plan_hash'', ''signature''] (plan_fields p)))"

definition plan_signature_bytes :: "hostlib \<Rightarrow> execution_plan \<Rightarrow> py_exn + string" where
  "plan_signature_bytes h p =
     bindr (validate_json_depth (JObj (plan_fields p)) 0) (\<lambda>_.
       canonicalize_v2 h (without_keys [''signature''] (plan_fields p)))"

text \<open>The steps in order: no identifier twice, and dependencies on earlier steps only.\<close>

fun steps_ordered :: "string list \<Rightarrow> plan_step list \<Rightarrow> py_exn + unit" where
  "steps_ordered seen [] = Inr ()"
| "steps_ordered seen (p # ps) =
     (if ps_id p \<in> set seen then Inl (ValueError ''duplicate_step_id'')
      else if list_ex (\<lambda>d. d \<notin> set seen) (ps_depends p) then Inl (ValueError ''invalid_step_dependency'')
      else steps_ordered (ps_id p # seen) ps)"

definition plan_fields_valid :: "hostlib \<Rightarrow> execution_plan \<Rightarrow> bool" where
  "plan_fields_valid h p \<longleftrightarrow> identity_ok (xp_id p) \<and> capability_id_ok (xp_capability p) \<and> 1 \<le> xp_major p \<and>
     identity_ok (xp_version p) \<and> wire_hash_ok (xp_definition p) \<and> identity_ok (xp_release p) \<and>
     identity_ok (xp_tenant p) \<and> identity_ok (xp_actor p) \<and> identity_ok (xp_device p) \<and>
     1 \<le> xp_generation p \<and> identity_ok (xp_instance p) \<and> capability_id_ok (xp_adapter p) \<and>
     1 \<le> xp_adapter_major p \<and> target_product_valid (xp_target p) \<and> wire_hash_ok (xp_input_hash p) \<and>
     identity_ok (xp_key p) \<and> 1 \<le> length (xp_steps p) \<and> length (xp_steps p) \<le> 10000 \<and>
     list_all (step_valid h) (xp_steps p) \<and> wire_time_ok (xp_issued p) \<and> wire_time_ok (xp_expires p) \<and>
     plan_hash_ok (xp_hash p) \<and> identity_ok (xp_key_id p) \<and> \<not> isl (decode_signature (xp_signature p)) \<and>
     validate_json_depth (JObj (plan_fields p)) 0 = Inr ()"

definition verify_plan :: "hostlib \<Rightarrow> execution_plan \<Rightarrow> py_exn + execution_plan" where
  "verify_plan h p =
     (if \<not> plan_fields_valid h p then Inl (ValueError ''ConnectorExecutionPlanV2'')
      else if ticks_of (xp_expires p) \<le> ticks_of (xp_issued p)
      then Inl (ValueError ''plan_expiry_must_follow_issue_time'')
      else bindr (steps_ordered [] (xp_steps p)) (\<lambda>_.
           bindr (compute_plan_hash h p) (\<lambda>d.
             if xp_hash p \<noteq> d then Inl (ValueError ''plan_hash_mismatch'') else Inr p)))"

section \<open>Outcomes\<close>

datatype step_status = StepSucceeded | StepFailedWithoutEffect | StepOutcomeUnknown | StepManualReview

fun step_status_value :: "step_status \<Rightarrow> string" where
  "step_status_value StepSucceeded = ''succeeded''"
| "step_status_value StepFailedWithoutEffect = ''failed_without_effect''"
| "step_status_value StepOutcomeUnknown = ''outcome_unknown''"
| "step_status_value StepManualReview = ''manual_review_required''"

datatype reconciliation =
  NotRequired | ReconPending | ReconSucceeded | ReconFailedWithoutEffect | ReconManualReview

fun reconciliation_value :: "reconciliation \<Rightarrow> string" where
  "reconciliation_value NotRequired = ''not_required''"
| "reconciliation_value ReconPending = ''pending''"
| "reconciliation_value ReconSucceeded = ''succeeded''"
| "reconciliation_value ReconFailedWithoutEffect = ''failed_without_effect''"
| "reconciliation_value ReconManualReview = ''manual_review_required''"

record step_result =
  sr_id :: string
  sr_started :: string
  sr_completed :: string
  sr_status :: step_status
  sr_result :: json
  sr_hash :: "string option"
  sr_error :: "string option"
  sr_reconciliation :: reconciliation

definition step_result_valid :: "hostlib \<Rightarrow> step_result \<Rightarrow> bool" where
  "step_result_valid h r \<longleftrightarrow> identity_ok (sr_id r) \<and> wire_time_ok (sr_started r) \<and>
     wire_time_ok (sr_completed r) \<and> validate_json (sr_result r) = Inr () \<and>
     validate_json_depth (sr_result r) 1 = Inr () \<and> opt_ok wire_hash_ok (sr_hash r) \<and>
     opt_ok wire_error_code_ok (sr_error r) \<and> ticks_of (sr_started r) \<le> ticks_of (sr_completed r) \<and>
     (if sr_status r = StepSucceeded
      then (case wire_digest h (sr_result r) of
              Inl _ \<Rightarrow> False | Inr d \<Rightarrow> sr_hash r = Some (''sha256:'' @ d)) \<and> sr_error r = None
      else sr_error r \<noteq> None)"

definition step_result_json :: "step_result \<Rightarrow> json" where
  "step_result_json r = JObj [(''step_id'', JStr (sr_id r)), (''started_at'', JStr (sr_started r)),
     (''completed_at'', JStr (sr_completed r)), (''status'', JStr (step_status_value (sr_status r))),
     (''result'', sr_result r), (''result_hash'', optional_text (sr_hash r)),
     (''error_code'', optional_text (sr_error r)),
     (''reconciliation_state'', JStr (reconciliation_value (sr_reconciliation r)))]"

record plan_outcome =
  po_plan :: string
  po_plan_hash :: string
  po_lease :: string
  po_tenant :: string
  po_device :: string
  po_generation :: int
  po_instance :: string
  po_status :: step_status
  po_steps :: "step_result list"
  po_journal :: int
  po_reported :: string
  po_key :: string
  po_signature :: string

definition outcome_fields :: "plan_outcome \<Rightarrow> jobj" where
  "outcome_fields r = [(''protocol'', JStr protocol_v2), (''plan_id'', JStr (po_plan r)),
     (''plan_hash'', JStr (po_plan_hash r)), (''lease_id'', JStr (po_lease r)),
     (''tenant_id'', JStr (po_tenant r)), (''device_id'', JStr (po_device r)),
     (''runtime_generation'', JInt (po_generation r)), (''runtime_instance_id'', JStr (po_instance r)),
     (''overall_status'', JStr (step_status_value (po_status r))),
     (''steps'', JList (map step_result_json (po_steps r))), (''journal_sequence'', JInt (po_journal r)),
     (''reported_at'', JStr (po_reported r)), (''signature_algorithm'', JStr signature_algorithm),
     (''device_key_id'', JStr (po_key r)), (''signature'', JStr (po_signature r))]"

definition outcome_signature_bytes :: "hostlib \<Rightarrow> plan_outcome \<Rightarrow> py_exn + string" where
  "outcome_signature_bytes h r =
     bindr (validate_json_depth (JObj (outcome_fields r)) 0) (\<lambda>_.
       canonicalize_v2 h (without_keys [''signature''] (outcome_fields r)))"

definition verify_outcome :: "hostlib \<Rightarrow> plan_outcome \<Rightarrow> py_exn + plan_outcome" where
  "verify_outcome h r =
     (if \<not> (identity_ok (po_plan r) \<and> plan_hash_ok (po_plan_hash r) \<and> identity_ok (po_lease r) \<and>
            identity_ok (po_tenant r) \<and> identity_ok (po_device r) \<and> 1 \<le> po_generation r \<and>
            identity_ok (po_instance r) \<and> 1 \<le> length (po_steps r) \<and> length (po_steps r) \<le> 10000 \<and>
            list_all (step_result_valid h) (po_steps r) \<and> 1 \<le> po_journal r \<and>
            wire_time_ok (po_reported r) \<and> identity_ok (po_key r) \<and>
            \<not> isl (decode_signature (po_signature r)) \<and>
            validate_json_depth (JObj (outcome_fields r)) 0 = Inr ())
      then Inl (ValueError ''ConnectorPlanOutcomeV2'')
      else if \<not> distinct (map sr_id (po_steps r)) then Inl (ValueError ''duplicate_step_result'')
      else Inr r)"

section \<open>Signatures\<close>

text \<open>A public key as a mapping of texts: strict, closed, with canonical coordinates.\<close>

definition public_key :: "(string \<times> string) list \<Rightarrow> py_exn + nat \<times> nat" where
  "public_key jwk =
     (case (map_of jwk ''kty'', map_of jwk ''crv'', map_of jwk ''x'', map_of jwk ''y'') of
        (Some kty, Some crv, Some x, Some y) \<Rightarrow>
          if kty \<noteq> ''EC'' \<or> crv \<noteq> ''P-256'' \<or> fst ` set jwk \<noteq> {''kty'', ''crv'', ''x'', ''y''}
          then Inl (ValueError ''_PublicP256Jwk'')
          else bindr (decode_base64url x 32) (\<lambda>xs.
               bindr (decode_base64url y 32) (\<lambda>ys. Inr (from_bytes xs, from_bytes ys)))
      | _ \<Rightarrow> Inl (ValueError ''_PublicP256Jwk''))"

type_synonym ecdsa = "nat \<times> nat \<Rightarrow> nat \<times> nat \<Rightarrow> string \<Rightarrow> bool option"

definition signature_accepted ::
  "ecdsa \<Rightarrow> (string \<times> string) list \<Rightarrow> string \<Rightarrow> py_exn + string \<Rightarrow> bool" where
  "signature_accepted ecdsa jwk signature data =
     (case bindr (decode_signature signature) (\<lambda>rs. bindr data (\<lambda>bytes. bindr (public_key jwk) (\<lambda>key.
              Inr (ecdsa key rs bytes)))) of
        Inr (Some ok) \<Rightarrow> ok | _ \<Rightarrow> False)"

definition verify_plan_signature ::
  "hostlib \<Rightarrow> ecdsa \<Rightarrow> execution_plan \<Rightarrow> (string \<times> string) list \<Rightarrow> bool" where
  "verify_plan_signature h ecdsa p jwk \<longleftrightarrow>
     (case verify_plan h p of
        Inl _ \<Rightarrow> False
      | Inr q \<Rightarrow> signature_accepted ecdsa jwk (xp_signature q) (plan_signature_bytes h q))"

definition verify_outcome_signature ::
  "hostlib \<Rightarrow> ecdsa \<Rightarrow> plan_outcome \<Rightarrow> (string \<times> string) list \<Rightarrow> bool" where
  "verify_outcome_signature h ecdsa r jwk \<longleftrightarrow>
     (case verify_outcome h r of
        Inl _ \<Rightarrow> False
      | Inr q \<Rightarrow> signature_accepted ecdsa jwk (po_signature q) (outcome_signature_bytes h q))"

end
