(* ===== verification/ConnectorPlanProperties.thy ===== *)
theory ConnectorPlanProperties
  imports ConnectorPlan
begin

text \<open>
  Properties of connector plans: a signature text is accepted exactly when it is the one canonical
  encoding of a low-s pair, base64url without padding is its own inverse on bytes, and the order of
  steps that a valid plan has.
\<close>

section \<open>Bytes and sextets\<close>

definition bytes_ok :: "nat list \<Rightarrow> bool" where
  "bytes_ok xs \<longleftrightarrow> list_all (\<lambda>x. x < 256) xs"

lemma sextets_bounded: "bytes_ok xs \<Longrightarrow> list_all (\<lambda>x. x < 64) (base64_sextets xs)"
  by (induction xs rule: base64_sextets.induct) (auto simp: bytes_ok_def)

lemma bytes_sextets: "bytes_ok xs \<Longrightarrow> base64_bytes (base64_sextets xs) = Some xs"
proof (induction xs rule: base64_sextets.induct)
  case (1 x y z r)
  then have "x < 256" "y < 256" "z < 256" by (auto simp: bytes_ok_def)
  moreover have "((x mod 4) * 16 + y div 16) div 16 = x mod 4" "((y mod 16) * 4 + z div 64) div 4 = y mod 16"
    "((x mod 4) * 16 + y div 16) mod 16 = y div 16" "((y mod 16) * 4 + z div 64) mod 4 = z div 64"
    using \<open>y < 256\<close> \<open>z < 256\<close> by (auto simp: div_add1_eq mod_add_eq)
  ultimately show ?case using 1 by (simp add: bytes_ok_def mult.commute) 
next
  case (2 x y)
  then have "x < 256" "y < 256" by (auto simp: bytes_ok_def)
  moreover have "((x mod 4) * 16 + y div 16) div 16 = x mod 4" "((x mod 4) * 16 + y div 16) mod 16 = y div 16"
    using \<open>y < 256\<close> by auto
  ultimately show ?case by (simp add: mult.commute)
qed auto

lemma base64_bytes_ok:
  assumes "list_all (\<lambda>x. x < 64) xs" "base64_bytes xs = Some ys"
  shows "bytes_ok ys"
  using assms
proof (induction xs arbitrary: ys rule: base64_bytes.induct)
  case (1 a b c d r)
  then show ?case by (auto simp: bytes_ok_def)
qed (auto simp: bytes_ok_def)

lemma list_all_below: "list_all P [0..<n] \<Longrightarrow> i < n \<Longrightarrow> P i"
  by (simp only: list_all_iff set_upt atLeastLessThan_iff) simp

lemma sextet_alphabet: "n < 64 \<Longrightarrow> sextet (base64url_alphabet ! n) = n"
proof -
  have "list_all (\<lambda>n. sextet (base64url_alphabet ! n) = n) [0..<64]" by code_simp
  then show "n < 64 \<Longrightarrow> sextet (base64url_alphabet ! n) = n" by (rule list_all_below)
qed

lemma alphabet_chars: "n < 64 \<Longrightarrow> base64url_chars [base64url_alphabet ! n]"
proof -
  have "list_all (\<lambda>n. base64url_chars [base64url_alphabet ! n]) [0..<64]" by code_simp
  then show "n < 64 \<Longrightarrow> base64url_chars [base64url_alphabet ! n]" by (rule list_all_below)
qed

lemma chars_sextet: "base64url_chars [c] \<Longrightarrow> sextet c < 64"
proof -
  assume ok: "base64url_chars [c]"
  let ?n = "of_char c :: nat"
  have ranges: "list_all (\<lambda>n. sextet (char_of (n :: nat)) < 64) [48..<58]"
      "list_all (\<lambda>n. sextet (char_of (n :: nat)) < 64) [65..<91]"
      "list_all (\<lambda>n. sextet (char_of (n :: nat)) < 64) [97..<123]"
      "sextet CHR ''-'' < 64 \<and> sextet CHR ''_'' < 64"
    by code_simp+
  have below: "list_all P [a..<b] \<Longrightarrow> a \<le> i \<Longrightarrow> i < b \<Longrightarrow> P i" for P a b and i :: nat
    by (simp only: list_all_iff set_upt atLeastLessThan_iff)
  have "(48 \<le> ?n \<and> ?n < 58) \<or> (97 \<le> ?n \<and> ?n < 123) \<or> (65 \<le> ?n \<and> ?n < 91) \<or> c = CHR ''-'' \<or> c = CHR ''_''"
    using ok by (auto simp: base64url_chars_def is_alnum_def is_digit_def is_lower_def is_upper_def less_eq_char_def)
  then show "sextet c < 64"
    using below [OF ranges(1), of ?n] below [OF ranges(2), of ?n] below [OF ranges(3), of ?n] ranges(4)
    by (auto simp only: char_of_char)
qed

lemma base64url_chars_all: "base64url_chars s \<longleftrightarrow> s \<noteq> [] \<and> list_all (\<lambda>c. base64url_chars [c]) s"
  by (simp add: base64url_chars_def)

text \<open>Decoding is the inverse of the encoding, and accepts nothing but encodings.\<close>

lemma decode_base64url_iff:
  "decode_base64url v n = Inr xs \<longleftrightarrow> v = base64url_text xs \<and> xs \<noteq> [] \<and> length xs = n \<and> bytes_ok xs"
proof
  assume a: "decode_base64url v n = Inr xs"
  then have chars: "base64url_chars v" and bytes: "base64_bytes (map sextet v) = Some xs"
    and rest: "length xs = n" "v = base64url_text xs"
    by (auto simp: decode_base64url_def split: if_splits option.splits)
  have "list_all (\<lambda>x. x < 64) (map sextet v)"
    using chars chars_sextet unfolding base64url_chars_all [of v] by (auto simp: list_all_iff)
  moreover have "xs \<noteq> []"
    using chars rest(2) by (auto simp: base64url_chars_def base64url_text_def)
  ultimately show "v = base64url_text xs \<and> xs \<noteq> [] \<and> length xs = n \<and> bytes_ok xs"
    using base64_bytes_ok bytes rest by blast
next
  assume b: "v = base64url_text xs \<and> xs \<noteq> [] \<and> length xs = n \<and> bytes_ok xs"
  then have small: "list_all (\<lambda>x. x < 64) (base64_sextets xs)" using sextets_bounded by blast
  have "base64_sextets xs \<noteq> []" using b by (cases xs rule: base64_sextets.cases) auto
  then have "base64url_text xs \<noteq> []" by (simp add: base64url_text_def)
  moreover have "list_all (\<lambda>c. base64url_chars [c]) (base64url_text xs)"
    using small alphabet_chars by (auto simp: base64url_text_def list_all_iff)
  ultimately have "base64url_chars v" using b base64url_chars_all [of v] by simp
  moreover have "map sextet v = base64_sextets xs"
    using b small sextet_alphabet by (auto simp: base64url_text_def list_all_iff intro!: map_idI)
  ultimately show "decode_base64url v n = Inr xs"
    using b bytes_sextets by (simp add: decode_base64url_def)
qed

section \<open>Numbers as bytes\<close>

fun to_bytes :: "nat \<Rightarrow> nat \<Rightarrow> nat list" where
  "to_bytes 0 x = []"
| "to_bytes (Suc n) x = to_bytes n (x div 256) @ [x mod 256]"

lemma to_bytes_length [simp]: "length (to_bytes n x) = n"
  by (induction n arbitrary: x) auto

lemma to_bytes_ok: "bytes_ok (to_bytes n x)"
  by (induction n arbitrary: x) (auto simp: bytes_ok_def)

lemma from_bytes_snoc [simp]: "from_bytes (xs @ [b]) = from_bytes xs * 256 + b"
  by (simp add: from_bytes_def)

lemma from_to_bytes: "x < 256 ^ n \<Longrightarrow> from_bytes (to_bytes n x) = x"
proof (induction n arbitrary: x)
  case (Suc n)
  then have "x div 256 < 256 ^ n" by (simp add: less_mult_imp_div_less mult.commute)
  then show ?case using Suc.IH by simp
qed (simp add: from_bytes_def)

lemma to_from_bytes: "bytes_ok xs \<Longrightarrow> to_bytes (length xs) (from_bytes xs) = xs"
  by (induction xs rule: rev_induct) (auto simp: bytes_ok_def)

section \<open>Steps\<close>

lemma steps_ordered_Cons:
  "steps_ordered seen (p # ps) = Inr () \<longleftrightarrow>
     ps_id p \<notin> set seen \<and> set (ps_depends p) \<subseteq> set seen \<and> steps_ordered (ps_id p # seen) ps = Inr ()"
  by (auto simp: list_ex_iff)

lemma steps_ordered_iff:
  "steps_ordered seen ps = Inr () \<longleftrightarrow> distinct (map ps_id ps) \<and> set (map ps_id ps) \<inter> set seen = {} \<and>
     (\<forall>i<length ps. set (ps_depends (ps ! i)) \<subseteq> set seen \<union> set (map ps_id (take i ps)))"
proof (induction ps arbitrary: seen)
  case (Cons p ps)
  have "(\<forall>i<length (p # ps). set (ps_depends ((p # ps) ! i)) \<subseteq> set seen \<union> set (map ps_id (take i (p # ps)))) \<longleftrightarrow>
      set (ps_depends p) \<subseteq> set seen \<and>
      (\<forall>i<length ps. set (ps_depends (ps ! i)) \<subseteq> set (ps_id p # seen) \<union> set (map ps_id (take i ps)))"
    by (simp add: All_less_Suc2)
  then show ?case unfolding steps_ordered_Cons Cons.IH by (simp del: length_Cons) blast
qed simp

text \<open>The steps of a valid plan are distinct, and each depends on earlier steps only.\<close>

lemma plan_steps_ordered:
  assumes "verify_plan h p = Inr q" "i < length (xp_steps q)" "d \<in> set (ps_depends (xp_steps q ! i))"
  shows "\<exists>j<i. ps_id (xp_steps q ! j) = d"
proof -
  have "steps_ordered [] (xp_steps q) = Inr ()"
    using assms(1) by (auto simp: verify_plan_def bindr_eq_Inr split: if_splits)
  then have "d \<in> set (map ps_id (take i (xp_steps q)))"
    using assms(2,3) unfolding steps_ordered_iff by auto
  then obtain j where "j < length (take i (xp_steps q))" "map ps_id (take i (xp_steps q)) ! j = d"
    by (metis in_set_conv_nth length_map)
  then show ?thesis by (intro exI [of _ j]) simp
qed

section \<open>Signatures\<close>

definition encode_signature :: "nat \<Rightarrow> nat \<Rightarrow> string" where
  "encode_signature r s = base64url_text (to_bytes 32 r @ to_bytes 32 s)"

text \<open>
  C37. A signature has exactly one text: a text is decoded to the numbers r and s if and only if it is the
  unpadded base64url encoding of their two 32-byte big-endian forms, r lies between 1 and the order of
  the curve and s in the lower half. So neither the text nor the sign of s of an accepted signature
  can be changed.
\<close>
theorem signature_canonical:
  "decode_signature v = Inr (r, s) \<longleftrightarrow>
     v = encode_signature r s \<and> 0 < r \<and> r < p256_order \<and> 0 < s \<and> s \<le> p256_order div 2"
proof
  assume a: "decode_signature v = Inr (r, s)"
  then obtain raw where raw: "decode_base64url v 64 = Inr raw"
    and r: "r = from_bytes (take 32 raw)" "0 < r" "r < p256_order"
    and s: "s = from_bytes (drop 32 raw)" "0 < s" "s \<le> p256_order div 2"
    by (auto simp: decode_signature_def bindr_eq_Inr Let_def split: if_splits)
  from raw have v: "v = base64url_text raw" and len: "length raw = 64" and ok: "bytes_ok raw"
    by (auto simp: decode_base64url_iff)
  have "bytes_ok (take 32 raw)" "bytes_ok (drop 32 raw)"
    using ok by (auto simp: bytes_ok_def list_all_iff dest: in_set_takeD in_set_dropD)
  then have "to_bytes 32 r = take 32 raw" "to_bytes 32 s = drop 32 raw"
    using to_from_bytes [of "take 32 raw"] to_from_bytes [of "drop 32 raw"] len by (auto simp: r s)
  then show "v = encode_signature r s \<and> 0 < r \<and> r < p256_order \<and> 0 < s \<and> s \<le> p256_order div 2"
    using v r s by (simp add: encode_signature_def)
next
  assume b: "v = encode_signature r s \<and> 0 < r \<and> r < p256_order \<and> 0 < s \<and> s \<le> p256_order div 2"
  have order: "p256_order < 256 ^ 32" by (simp add: p256_order_def)
  then have fit: "from_bytes (to_bytes 32 r) = r" "from_bytes (to_bytes 32 s) = s"
    using b by (auto intro!: from_to_bytes)
  have "decode_base64url v 64 = Inr (to_bytes 32 r @ to_bytes 32 s)"
    using b to_bytes_ok [of 32 r] to_bytes_ok [of 32 s]
    by (auto simp: decode_base64url_iff encode_signature_def bytes_ok_def dest: arg_cong [of _ "[]" length])
  then show "decode_signature v = Inr (r, s)"
    using b fit by (simp add: decode_signature_def)
qed

end
