(* ===== verification/PluginLifecycle.thy ===== *)
theory PluginLifecycle
  imports Artifacts Catalog ConnectorPlan
begin

text \<open>
  Installation of plugins (\<open>backend/plugin_platform\<close>): the state machine of an installation
  (\<open>lifecycle.py\<close>), version ranges (\<open>compatibility.py\<close>), manifests (\<open>manifest.py\<close>), release
  signatures (\<open>signing.py\<close>) and the control plane over the plugin tables (\<open>service.py\<close>). Keys,
  the signature algorithm, pydantic's reading of a manifest, the capability registry, the catalog and
  the bindings of local providers are the fields of \<open>plugin_env\<close>; so is the collation of the tables,
  as the normal form under which two keys are equal. Digits of versions are ASCII, counters unbounded,
  column widths and row time stamps other than those of mount sessions are left out.
\<close>

datatype plugin_error =
    LifecycleError string
  | PluginLifecycleError string string
  | SignatureError string
  | ManifestError string
  | CompatibilityError string
  | PluginRaised py_exn

text \<open>Which of them an \<open>except (ValueError, TypeError)\<close> catches.\<close>

fun value_error :: "plugin_error \<Rightarrow> bool" where
  "value_error (PluginRaised (ValueError _)) = True"
| "value_error (PluginRaised (TypeError _)) = True"
| "value_error (PluginRaised _) = False"
| "value_error _ = True"

fun type_error :: "plugin_error \<Rightarrow> bool" where
  "type_error (PluginRaised (TypeError _)) = True"
| "type_error _ = False"

definition plugin_value_error :: "string \<Rightarrow> plugin_error" where
  "plugin_value_error m = PluginRaised (ValueError m)"

section \<open>The state machine\<close>

datatype plugin_state =
  PluginDisabled | PluginEnabled | PluginUpgrading | PluginFailed | PluginRolledBack | PluginRevoked | PluginUninstalled

fun plugin_state_value :: "plugin_state \<Rightarrow> string" where
  "plugin_state_value PluginDisabled = ''disabled''"
| "plugin_state_value PluginEnabled = ''enabled''"
| "plugin_state_value PluginUpgrading = ''upgrading''"
| "plugin_state_value PluginFailed = ''failed''"
| "plugin_state_value PluginRolledBack = ''rolled_back''"
| "plugin_state_value PluginRevoked = ''revoked''"
| "plugin_state_value PluginUninstalled = ''uninstalled''"

fun plugin_transitions :: "plugin_state \<Rightarrow> plugin_state list" where
  "plugin_transitions PluginDisabled = [PluginEnabled, PluginUpgrading, PluginUninstalled, PluginRevoked]"
| "plugin_transitions PluginEnabled = [PluginDisabled, PluginUpgrading, PluginUninstalled, PluginRevoked]"
| "plugin_transitions PluginUpgrading = [PluginEnabled, PluginFailed, PluginRolledBack, PluginRevoked]"
| "plugin_transitions PluginFailed = [PluginDisabled, PluginRolledBack, PluginUninstalled, PluginRevoked]"
| "plugin_transitions PluginRolledBack =
     [PluginEnabled, PluginDisabled, PluginUpgrading, PluginUninstalled, PluginRevoked]"
| "plugin_transitions PluginRevoked = [PluginUninstalled]"
| "plugin_transitions PluginUninstalled = []"

definition require_transition :: "plugin_state \<Rightarrow> plugin_state \<Rightarrow> plugin_error + unit" where
  "require_transition current target =
     unless_raise (target \<in> set (plugin_transitions current))
       (LifecycleError (''invalid plugin transition: '' @ plugin_state_value current @ '' -> '' @ plugin_state_value target))"

record upgrade_result =
  ur_current :: string
  ur_previous :: "string option"
  ur_state :: plugin_state

definition begin_upgrade :: "string \<Rightarrow> string \<Rightarrow> plugin_error + upgrade_result" where
  "begin_upgrade current target =
     (if current = target then Inl (LifecycleError ''target version is already installed'')
      else Inr \<lparr>ur_current = target, ur_previous = Some current, ur_state = PluginUpgrading\<rparr>)"

definition plan_rollback :: "string \<Rightarrow> string option \<Rightarrow> plugin_error + upgrade_result" where
  "plan_rollback current previous =
     (case previous of
        None \<Rightarrow> Inl (LifecycleError ''no previous version is available'')
      | Some [] \<Rightarrow> Inl (LifecycleError ''no previous version is available'')
      | Some v \<Rightarrow> Inr \<lparr>ur_current = v, ur_previous = Some current, ur_state = PluginRolledBack\<rparr>)"

section \<open>Version ranges\<close>

definition digits_value :: "string \<Rightarrow> nat" where
  "digits_value s = foldl (\<lambda>n c. n * 10 + (of_char c - 48)) 0 s"

definition take_number :: "string \<Rightarrow> (nat \<times> string) option" where
  "take_number s = map_option (\<lambda>r. (digits_value (takeWhile is_digit s), r)) (drop_number s)"

text \<open>Three numbers at the start of a string and what follows them.\<close>

definition version_prefix :: "string \<Rightarrow> ((nat \<times> nat \<times> nat) \<times> string) option" where
  "version_prefix s =
     Option.bind (take_number s) (\<lambda>(a, s1). Option.bind (drop_dot s1) (\<lambda>s2.
     Option.bind (take_number s2) (\<lambda>(b, s3). Option.bind (drop_dot s3) (\<lambda>s4.
     map_option (\<lambda>(c, s5). ((a, b, c), s5)) (take_number s4)))))"

definition plugin_version :: "string \<Rightarrow> plugin_error + nat \<times> nat \<times> nat" where
  "plugin_version s =
     (case version_prefix s of
        None \<Rightarrow> Inl (CompatibilityError (''invalid SemVer: '' @ s)) | Some (v, _) \<Rightarrow> Inr v)"

text \<open>\<open>s.split()\<close>: the words between white space.\<close>

fun take_word :: "string \<Rightarrow> string \<times> string" where
  "take_word [] = ([], [])"
| "take_word (c # s) =
     (if strip_prefix1 py_spaces (c # s) \<noteq> None then ([], c # s)
      else (case take_word s of (w, r) \<Rightarrow> (c # w, r)))"

lemma take_word_shorter: "length (snd (take_word s)) \<le> length s"
  by (induction s) (auto split: prod.splits)

lemma lstrip_with_fixed: "strip_prefix1 ws (lstrip_with ws s) = None"
  by (induction ws s rule: lstrip_with.induct) (subst lstrip_with.simps, auto split: option.splits)

lemma lstrip_with_shorter: "length (lstrip_with ws s) \<le> length s"
proof (induction ws s rule: lstrip_with.induct)
  case (1 ws s)
  then show ?case
    by (subst lstrip_with.simps) (fastforce split: option.split dest: strip_prefix1_shorter)
qed

function str_words :: "string \<Rightarrow> string list" where
  "str_words s =
     (case lstrip_with py_spaces s of
        [] \<Rightarrow> []
      | c # t \<Rightarrow> fst (take_word (c # t)) # str_words (snd (take_word (c # t))))"
  by pat_completeness auto
termination
proof (relation "measure length")
  fix s c t assume split: "lstrip_with py_spaces s = c # t"
  then have "strip_prefix1 py_spaces (c # t) = None" using lstrip_with_fixed [of py_spaces s] by simp
  then have "length (snd (take_word (c # t))) \<le> length t"
    using take_word_shorter [of t] by (auto split: prod.split)
  moreover have "length (c # t) \<le> length s" using lstrip_with_shorter [of py_spaces s] split by simp
  ultimately show "(snd (take_word (c # t)), s) \<in> measure length" by simp
qed simp

declare str_words.simps [simp del]

datatype range_op = OpGe | OpLe | OpGt | OpLt | OpEq | OpCaret | OpTilde

definition clause_op :: "string \<Rightarrow> range_op \<times> string" where
  "clause_op s =
     (if str_prefix ''>='' s then (OpGe, drop 2 s)
      else if str_prefix ''<='' s then (OpLe, drop 2 s)
      else (case s of
          [] \<Rightarrow> (OpEq, s)
        | c # r \<Rightarrow>
            if c = CHR ''>'' then (OpGt, r) else if c = CHR ''<'' then (OpLt, r)
            else if c = CHR ''='' then (OpEq, r) else if c = CHR 0x5E then (OpCaret, r)
            else if c = CHR ''~'' then (OpTilde, r) else (OpEq, s)))"

definition parse_clause :: "string \<Rightarrow> plugin_error + range_op \<times> nat \<times> nat \<times> nat" where
  "parse_clause s =
     (case clause_op s of (op', rest) \<Rightarrow>
      (case version_prefix rest of
         Some (v, []) \<Rightarrow> Inr (op', v)
       | _ \<Rightarrow> Inl (CompatibilityError (''unsupported compatibility clause: '' @ s))))"

fun clause_holds :: "range_op \<Rightarrow> nat \<times> nat \<times> nat \<Rightarrow> nat \<times> nat \<times> nat \<Rightarrow> bool" where
  "clause_holds OpGe current wanted = (current \<ge> wanted)"
| "clause_holds OpLe current wanted = (current \<le> wanted)"
| "clause_holds OpGt current wanted = (current > wanted)"
| "clause_holds OpLt current wanted = (current < wanted)"
| "clause_holds OpEq current wanted = (current = wanted)"
| "clause_holds OpCaret current wanted = (current \<ge> wanted \<and> current < (fst wanted + 1, 0, 0))"
| "clause_holds OpTilde current wanted =
     (current \<ge> wanted \<and> current < (fst wanted, fst (snd wanted) + 1, 0))"

text \<open>The clauses are read in order, and the first that fails decides.\<close>

fun clauses_hold :: "nat \<times> nat \<times> nat \<Rightarrow> string list \<Rightarrow> plugin_error + bool" where
  "clauses_hold current [] = Inr True"
| "clauses_hold current (s # ss) =
     bindr (parse_clause s) (\<lambda>(op', wanted).
       if clause_holds op' current wanted then clauses_hold current ss else Inr False)"

definition satisfies :: "string \<Rightarrow> string \<Rightarrow> plugin_error + bool" where
  "satisfies version expression =
     bindr (plugin_version version) (\<lambda>current.
       if str_words expression = [] then Inl (CompatibilityError ''empty compatibility range'')
       else clauses_hold current (str_words expression))"

section \<open>Manifests\<close>

record local_provider =
  lp_id :: string
  lp_major :: int
  lp_owner :: string
  lp_module :: string
  lp_export :: string
  lp_artifact_result :: bool

record plugin_manifest =
  pm_schema21 :: bool
  pm_plugin :: string
  pm_publisher :: string
  pm_name :: string
  pm_description :: string
  pm_version :: string
  pm_platform_api :: string
  pm_web_sdk :: string
  pm_web_entry :: "string option"
  pm_permissions :: "string list"
  pm_required :: "(string \<times> int) list"
  pm_optional :: "(string \<times> int) list"
  pm_plugins_required :: "(string \<times> string) list"
  pm_plugins_optional :: "(string \<times> string) list"
  pm_object_key :: string
  pm_sha :: string
  pm_size :: int
  pm_personal :: bool
  pm_retention :: string
  pm_uninstall :: string
  pm_provides :: "local_provider list"

text \<open>\<open>PLUGIN_ID\<close>: three to eight dotted segments, of which the first has no hyphen.\<close>

definition reverse_dns :: "string \<Rightarrow> bool" where
  "reverse_dns s =
     (case str_split CHR ''.'' s of
        [] \<Rightarrow> False
      | w # ws \<Rightarrow> match_ident is_lower (\<lambda>c. is_lower c \<or> is_digit c) 0 (length w) w \<and>
          2 \<le> length ws \<and> length ws \<le> 7 \<and>
          list_all (\<lambda>v. match_ident is_lower (\<lambda>c. is_lower c \<or> is_digit c \<or> c = CHR ''-'') 0 (length v) v) ws)"

text \<open>\<open>SEMVER\<close>: no leading zeros, an optional suffix after a hyphen and one after a plus.\<close>

definition plain_number :: "string \<Rightarrow> bool" where
  "plain_number s \<longleftrightarrow> s \<noteq> [] \<and> list_all is_digit s \<and> (hd s = CHR ''0'' \<longrightarrow> length s = 1)"

definition semver_suffix :: "string \<Rightarrow> bool" where
  "semver_suffix s \<longleftrightarrow> s \<noteq> [] \<and> list_all (\<lambda>c. is_alnum c \<or> c \<in> set ''.-'') s"

definition semver_core :: "string \<Rightarrow> bool" where
  "semver_core s \<longleftrightarrow> length (str_split CHR ''.'' s) = 3 \<and> list_all plain_number (str_split CHR ''.'' s)"

definition semver_ok :: "string \<Rightarrow> bool" where
  "semver_ok s =
     (let body = takeWhile (\<lambda>c. c \<noteq> CHR ''+'') s; build = dropWhile (\<lambda>c. c \<noteq> CHR ''+'') s;
          core = takeWhile (\<lambda>c. c \<noteq> CHR ''-'') body; pre = dropWhile (\<lambda>c. c \<noteq> CHR ''-'') body in
      semver_core core \<and> (pre \<noteq> [] \<longrightarrow> semver_suffix (tl pre)) \<and> (build \<noteq> [] \<longrightarrow> semver_suffix (tl build)))"

definition capability_word :: "string \<Rightarrow> bool" where
  "capability_word s = match_ident is_lower (\<lambda>c. is_lower c \<or> is_digit c \<or> c \<in> set ''_.-'') 2 127 s"

definition web_entry :: "string \<Rightarrow> string" where
  "web_entry s = str_replace1 CHR 0x5C ''/'' s"

definition safe_entry :: "string \<Rightarrow> bool" where
  "safe_entry s \<longleftrightarrow> \<not> str_prefix ''/'' (web_entry s) \<and> \<not> str_prefix ''http://'' (web_entry s) \<and>
     \<not> str_prefix ''https://'' (web_entry s) \<and> ''..'' \<notin> set (str_split CHR ''/'' (web_entry s))"

definition requirements_ok :: "('a \<times> 'b) list \<Rightarrow> ('a \<times> 'b) list \<Rightarrow> bool" where
  "requirements_ok required optional \<longleftrightarrow>
     distinct required \<and> distinct optional \<and> set required \<inter> set optional = {}"

definition module_ok :: "string \<Rightarrow> bool" where
  "module_ok s \<longleftrightarrow> str_suffix ''.mjs'' s \<and>
     list_all (\<lambda>w. w \<noteq> [] \<and> list_all (\<lambda>c. is_alnum c \<or> c \<in> set ''_-'') w)
       (str_split CHR ''/'' (take (length s - 4) s))"

definition local_provider_ok :: "local_provider \<Rightarrow> bool" where
  "local_provider_ok p \<longleftrightarrow> capability_word (lp_id p) \<and> 1 \<le> lp_major p \<and> lp_major p \<le> 2147483647 \<and>
     owner_domain_ok (lp_owner p) \<and> length_between 5 256 (lp_module p) \<and> module_ok (lp_module p) \<and>
     match_ident (\<lambda>c. is_lower c \<or> is_upper c \<or> c \<in> set ''_$'') (\<lambda>c. is_alnum c \<or> c \<in> set ''_$'') 0 63 (lp_export p) \<and>
     lp_export p \<notin> {''constructor'', ''prototype'', ''__proto__''}"

definition manifest_fields_valid :: "plugin_manifest \<Rightarrow> bool" where
  "manifest_fields_valid m \<longleftrightarrow> reverse_dns (pm_plugin m) \<and> length_between 3 128 (pm_publisher m) \<and>
     length_between 1 120 (pm_name m) \<and> length_between 0 2000 (pm_description m) \<and> semver_ok (pm_version m) \<and>
     length_between 1 64 (pm_platform_api m) \<and> length_between 1 64 (pm_web_sdk m) \<and>
     opt_ok (\<lambda>e. length_between 1 512 e \<and> safe_entry e) (pm_web_entry m) \<and>
     distinct (pm_permissions m) \<and> list_all capability_word (pm_permissions m) \<and>
     list_all (\<lambda>(i, v). capability_word i \<and> 1 \<le> v \<and> v \<le> 2147483647) (pm_required m @ pm_optional m) \<and>
     requirements_ok (pm_required m) (pm_optional m) \<and>
     list_all (\<lambda>(i, v). reverse_dns i \<and> semver_ok v) (pm_plugins_required m @ pm_plugins_optional m) \<and>
     requirements_ok (pm_plugins_required m) (pm_plugins_optional m) \<and>
     length_between 1 1024 (pm_object_key m) \<and> sha256_text (pm_sha m) \<and> 0 < pm_size m \<and>
     pm_size m \<le> 100 * 1024 * 1024 \<and>
     pm_retention m \<in> {''none'', ''while-installed'', ''tenant-policy''} \<and>
     pm_uninstall m \<in> {''delete'', ''retain'', ''export-then-delete''}"

definition publisher_owns_namespace :: "plugin_manifest \<Rightarrow> bool" where
  "publisher_owns_namespace m \<longleftrightarrow> str_prefix (pm_publisher m @ ''.'') (pm_plugin m) \<and> pm_web_entry m \<noteq> None"

definition validate_providers :: "plugin_manifest \<Rightarrow> bool" where
  "validate_providers m \<longleftrightarrow> pm_provides m \<noteq> [] \<and> length (pm_provides m) \<le> 32 \<and>
     list_all local_provider_ok (pm_provides m) \<and> distinct (map (\<lambda>p. (lp_id p, lp_major p)) (pm_provides m)) \<and>
     list_all (\<lambda>p. str_prefix (pm_publisher m @ ''.'') (lp_owner p) \<and> str_prefix (lp_owner p @ ''.'') (lp_id p))
       (pm_provides m)"

definition manifest_valid :: "plugin_manifest \<Rightarrow> bool" where
  "manifest_valid m \<longleftrightarrow> manifest_fields_valid m \<and> publisher_owns_namespace m \<and>
     (if pm_schema21 m then validate_providers m else pm_provides m = [])"

text \<open>The validators rewrite the web entry and sort the permissions.\<close>

definition manifest_normal :: "plugin_manifest \<Rightarrow> plugin_manifest" where
  "manifest_normal m = m\<lparr>pm_web_entry := map_option web_entry (pm_web_entry m),
     pm_permissions := sort (pm_permissions m)\<rparr>"

definition forbidden_keys :: "string list" where
  "forbidden_keys = [''backend'', ''routers_module'', ''python'', ''executable'', ''entrypoint'']"

text \<open>\<open>str.lower\<close> as far as it can give one of these keys: ASCII letters and the Kelvin sign.\<close>

fun lower_key :: "string \<Rightarrow> string" where
  "lower_key [] = []"
| "lower_key (c # s) =
     (if c = CHR 0xE2 \<and> take 2 s = [CHR 0x84, CHR 0xAA] then CHR ''k'' # lower_key (drop 2 s)
      else lower_char c # lower_key s)"

fun forbidden_found :: "json \<Rightarrow> string list" where
  "forbidden_found (JObj xs) =
     concat (map (\<lambda>(k, v). (if lower_key k \<in> set forbidden_keys then [k] else []) @ forbidden_found v) xs)"
| "forbidden_found (JList xs) = concat (map forbidden_found xs)"
| "forbidden_found _ = []"

text \<open>The document \<open>model_dump(mode="json")\<close> makes of a manifest.\<close>

definition pairs_json :: "string \<Rightarrow> ('a \<Rightarrow> json) \<Rightarrow> string \<Rightarrow> ('b \<Rightarrow> json) \<Rightarrow> ('a \<times> 'b) list \<Rightarrow> json" where
  "pairs_json k f l g xs = JList (map (\<lambda>(a, b). JObj [(k, f a), (l, g b)]) xs)"

definition provider_json :: "local_provider \<Rightarrow> json" where
  "provider_json p = JObj [(''id'', JStr (lp_id p)), (''major'', JInt (lp_major p)),
     (''owner_domain'', JStr (lp_owner p)), (''module'', JStr (lp_module p)), (''export'', JStr (lp_export p)),
     (''result'', JStr (if lp_artifact_result p then ''artifact'' else ''json''))]"

definition manifest_json :: "plugin_manifest \<Rightarrow> json" where
  "manifest_json m = JObj (
     [(''schema_version'', JStr (if pm_schema21 m then ''2.1'' else ''2.0'')),
      (''plugin_id'', JStr (pm_plugin m)), (''publisher_id'', JStr (pm_publisher m)), (''name'', JStr (pm_name m)),
      (''description'', JStr (pm_description m)), (''version'', JStr (pm_version m)),
      (''compatibility'', JObj [(''platform_api'', JStr (pm_platform_api m)), (''web_sdk'', JStr (pm_web_sdk m))]),
      (''runtimes'', JObj (case pm_web_entry m of None \<Rightarrow> []
         | Some e \<Rightarrow> [(''web'', JObj [(''entry'', JStr e), (''sandbox'', JStr ''allow-scripts'')])])),
      (''permissions'', JList (map JStr (pm_permissions m))),
      (''capabilities'', JObj [(''required'', pairs_json ''id'' JStr ''major'' JInt (pm_required m)),
         (''optional'', pairs_json ''id'' JStr ''major'' JInt (pm_optional m))]),
      (''plugins'', JObj [(''required'', pairs_json ''plugin_id'' JStr ''version'' JStr (pm_plugins_required m)),
         (''optional'', pairs_json ''plugin_id'' JStr ''version'' JStr (pm_plugins_optional m))]),
      (''artifact'', JObj [(''object_key'', JStr (pm_object_key m)), (''sha256'', JStr (pm_sha m)),
         (''size'', JInt (pm_size m)), (''media_type'', JStr ''application/zip'')]),
      (''data'', JObj [(''stores_personal_data'', JBool (pm_personal m)), (''retention'', JStr (pm_retention m)),
         (''uninstall'', JStr (pm_uninstall m))])] @
     (if pm_schema21 m then [(''provides'', JList (map provider_json (pm_provides m)))] else []))"

section \<open>The environment\<close>

text \<open>
  \<open>pe_key\<close> and \<open>pe_private_key\<close> tell whether a PEM text is a key of the signature algorithm, \<open>None\<close>
  when it cannot be read; \<open>pe_alnum\<close> and \<open>pe_lower\<close> are \<open>str.isalnum\<close> and \<open>str.lower\<close>; \<open>pe_callable\<close> is the flag of a registered capability; \<open>pe_own\<close> are the
  approved capabilities of a manifest's own providers and \<open>pe_tenant\<close> those of a tenant's plugins.
\<close>

record plugin_env =
  pe_norm :: "string \<Rightarrow> string"
  pe_alnum :: "string \<Rightarrow> bool"
  pe_lower :: "string \<Rightarrow> string"
  pe_host :: hostlib
  pe_parse :: "json \<Rightarrow> plugin_manifest option"
  pe_key :: "string \<Rightarrow> bool option"
  pe_accepts :: "string \<Rightarrow> nat list \<Rightarrow> string \<Rightarrow> bool"
  pe_fingerprint :: "string \<Rightarrow> string"
  pe_private_key :: "string \<Rightarrow> bool option"
  pe_sign :: "string \<Rightarrow> string \<Rightarrow> nat list"
  pe_public :: string
  pe_private :: string
  pe_platform_api :: string
  pe_web_sdk :: string
  pe_callable :: "string \<Rightarrow> bool option"
  pe_catalog :: "string \<Rightarrow> int \<Rightarrow> descriptor option"
  pe_own :: "plugin_manifest \<Rightarrow> plugin_error + descriptor list"
  pe_tenant :: "string \<Rightarrow> plugin_error + descriptor list"

definition same :: "plugin_env \<Rightarrow> string \<Rightarrow> string \<Rightarrow> bool" where
  "same e a b \<longleftrightarrow> pe_norm e a = pe_norm e b"

definition parse_manifest :: "plugin_env \<Rightarrow> json \<Rightarrow> plugin_error + plugin_manifest" where
  "parse_manifest e v =
     (if forbidden_found v \<noteq> []
      then Inl (ManifestError (''third-party executable declarations are forbidden: '' @
             str_join '', '' (sorted_strs (forbidden_found v))))
      else (case pe_parse e v of
          None \<Rightarrow> Inl (ManifestError ''validation error'')
        | Some m \<Rightarrow>
            if manifest_valid m then Inr (manifest_normal m) else Inl (ManifestError ''validation error'')))"

section \<open>Signatures of releases\<close>

definition base64_alphabet :: string where
  "base64_alphabet = ''ABCDEFGHIJKLMNOPQRSTUVWXYZabcdefghijklmnopqrstuvwxyz0123456789+/''"

definition base64_value :: "char \<Rightarrow> nat option" where
  "base64_value c = (if c \<in> set base64_alphabet then Some (index_of c base64_alphabet) else None)"

text \<open>
  \<open>b64encode\<close>, and \<open>b64decode(..., validate=True)\<close> as \<open>binascii.a2b_base64\<close> does it in its strict mode:
  the sextets of a text, given the sextets modulo four and the padding characters seen so far.
\<close>

definition b64encode :: "nat list \<Rightarrow> string" where
  "b64encode bytes =
     (let text = map (\<lambda>n. base64_alphabet ! n) (base64_sextets bytes) in
      text @ replicate ((4 - length text mod 4) mod 4) CHR ''='')"

fun strict_sextets :: "bool \<Rightarrow> nat \<Rightarrow> nat \<Rightarrow> string \<Rightarrow> nat list option" where
  "strict_sextets padded q pads [] = (if q = 0 then Some [] else None)"
| "strict_sextets padded q pads (c # s) =
     (if c = CHR ''='' then
        (if 2 \<le> q then
           (if 4 \<le> q + pads + 1 then (if s = [] then Some [] else None)
            else strict_sextets True q (pads + 1) s)
         else strict_sextets True q pads s)
      else (case base64_value c of
          None \<Rightarrow> None
        | Some n \<Rightarrow>
            if padded then None else map_option ((#) n) (strict_sextets padded (Suc q mod 4) 0 s)))"

definition b64decode_strict :: "string \<Rightarrow> nat list option" where
  "b64decode_strict s =
     (if str_prefix ''='' s then None else Option.bind (strict_sextets False 0 0 s) base64_bytes)"

definition canonical_release :: "hostlib \<Rightarrow> json \<Rightarrow> string \<Rightarrow> string" where
  "canonical_release h manifest sha = json_dumps h (JObj [(''artifact_sha256'', JStr sha), (''manifest'', manifest)])"

definition key_fingerprint :: "plugin_env \<Rightarrow> string \<Rightarrow> plugin_error + string" where
  "key_fingerprint e key =
     (case pe_key e key of
        None \<Rightarrow> Inl (plugin_value_error ''public key'')
      | Some False \<Rightarrow> Inl (SignatureError ''publisher key must be Ed25519'')
      | Some True \<Rightarrow> Inr (pe_fingerprint e key))"

definition verify_signature :: "plugin_env \<Rightarrow> string \<Rightarrow> string \<Rightarrow> string \<Rightarrow> plugin_error + unit" where
  "verify_signature e key message signature =
     (case pe_key e key of
        None \<Rightarrow> Inl (SignatureError ''invalid release signature'')
      | Some False \<Rightarrow> Inl (SignatureError ''publisher key must be Ed25519'')
      | Some True \<Rightarrow>
          (case b64decode_strict signature of
             None \<Rightarrow> Inl (SignatureError ''invalid release signature'')
           | Some raw \<Rightarrow> unless_raise (pe_accepts e key raw message) (SignatureError ''invalid release signature'')))"

definition sign_release :: "plugin_env \<Rightarrow> string \<Rightarrow> string \<Rightarrow> plugin_error + string" where
  "sign_release e key message =
     (case pe_private_key e key of
        None \<Rightarrow> Inl (SignatureError ''invalid platform signing key'')
      | Some False \<Rightarrow> Inl (SignatureError ''platform key must be Ed25519'')
      | Some True \<Rightarrow> Inr (b64encode (pe_sign e key message)))"

definition platform_public_key :: "plugin_env \<Rightarrow> plugin_error + string" where
  "platform_public_key e =
     (if pe_public e = [] then Inl (SignatureError ''platform verification key is not configured'')
      else Inr (pe_public e))"

end
