(* ===== verification/PluginService.thy ===== *)
theory PluginService
  imports PluginLifecycle
begin

text \<open>
  The tables of the plugin platform and the operations on them
  (\<open>backend/plugin_platform/service.py\<close>). Each operation runs in one transaction over locked rows, so
  it is a function from the tables to the tables after the commit, or an error that leaves them as they
  were. Identifiers of installations and the clock are arguments; identifiers of events are left out.
\<close>

section \<open>Tables\<close>

datatype release_status = ReleaseSubmitted | ReleasePublished | ReleaseRejected | ReleaseRevoked

record publisher =
  pb_id :: string
  pb_name :: string
  pb_key :: string
  pb_fingerprint :: string
  pb_active :: bool
  pb_created_by :: string

record plugin_release =
  pr_plugin :: string
  pr_version :: string
  pr_publisher :: string
  pr_manifest :: json
  pr_object :: string
  pr_sha :: string
  pr_publisher_signature :: string
  pr_signature :: "string option"
  pr_status :: release_status
  pr_note :: "string option"
  pr_submitted_by :: string
  pr_reviewed_by :: "string option"

record installation =
  in_tenant :: string
  in_plugin :: string
  in_version :: string
  in_previous :: "string option"
  in_state :: plugin_state
  in_granted :: "string list"
  in_previous_granted :: "string list option"
  in_installed_by :: string
  in_error :: "string option"
  in_id :: "string option"
  in_mount_revision :: int
  in_revision :: int

record lifecycle_event =
  le_tenant :: string
  le_plugin :: string
  le_from :: "plugin_state option"
  le_to :: plugin_state
  le_version :: string
  le_actor :: string
  le_detail :: json

record lifecycle_command =
  lc_tenant :: string
  lc_actor :: string
  lc_operation :: string
  lc_key :: string
  lc_sha :: string
  lc_result :: "json option"

record mount_session =
  ms_id :: string
  ms_user :: string
  ms_tenant :: string
  ms_installation :: string
  ms_plugin :: string
  ms_version :: string
  ms_sha :: string
  ms_catalog :: string
  ms_grants :: "string list"
  ms_resources :: "string list"
  ms_data :: "string list"
  ms_revision :: int
  ms_token_hash :: string
  ms_authenticated :: timestamp
  ms_created :: timestamp
  ms_expires :: timestamp
  ms_revoked :: "timestamp option"

record mount_row =
  mr_session :: mount_session
  mr_active :: bool

record plugin_db =
  pd_publishers :: "publisher list"
  pd_releases :: "plugin_release list"
  pd_installs :: "installation list"
  pd_events :: "lifecycle_event list"
  pd_commands :: "lifecycle_command list"
  pd_data :: "(string \<times> string) list"
  pd_mounts :: "mount_row list"

section \<open>Selections\<close>

definition release_at :: "plugin_env \<Rightarrow> string \<Rightarrow> string \<Rightarrow> plugin_release \<Rightarrow> bool" where
  "release_at e plugin version r \<longleftrightarrow> same e (pr_plugin r) plugin \<and> same e (pr_version r) version"

definition install_at :: "plugin_env \<Rightarrow> string \<Rightarrow> string \<Rightarrow> installation \<Rightarrow> bool" where
  "install_at e tenant plugin i \<longleftrightarrow> same e (in_tenant i) tenant \<and> same e (in_plugin i) plugin"

definition find_release :: "plugin_env \<Rightarrow> plugin_db \<Rightarrow> string \<Rightarrow> string \<Rightarrow> plugin_release option" where
  "find_release e db plugin version = List.find (release_at e plugin version) (pd_releases db)"

definition find_install :: "plugin_env \<Rightarrow> plugin_db \<Rightarrow> string \<Rightarrow> string \<Rightarrow> installation option" where
  "find_install e db tenant plugin = List.find (install_at e tenant plugin) (pd_installs db)"

definition update_release ::
  "plugin_env \<Rightarrow> string \<Rightarrow> string \<Rightarrow> (plugin_release \<Rightarrow> plugin_release) \<Rightarrow> plugin_db \<Rightarrow> plugin_db" where
  "update_release e plugin version f db =
     db\<lparr>pd_releases := map (\<lambda>r. if release_at e plugin version r then f r else r) (pd_releases db)\<rparr>"

definition update_install ::
  "plugin_env \<Rightarrow> string \<Rightarrow> string \<Rightarrow> (installation \<Rightarrow> installation) \<Rightarrow> plugin_db \<Rightarrow> plugin_db" where
  "update_install e tenant plugin f db =
     db\<lparr>pd_installs := map (\<lambda>i. if install_at e tenant plugin i then f i else i) (pd_installs db)\<rparr>"

definition record_event ::
  "string \<Rightarrow> string \<Rightarrow> plugin_state option \<Rightarrow> plugin_state \<Rightarrow> string \<Rightarrow> string \<Rightarrow> json \<Rightarrow> plugin_db \<Rightarrow> plugin_db" where
  "record_event tenant plugin old new version actor detail db =
     db\<lparr>pd_events := pd_events db @ [\<lparr>le_tenant = tenant, le_plugin = plugin, le_from = old, le_to = new,
        le_version = version, le_actor = actor, le_detail = detail\<rparr>]\<rparr>"

text \<open>Both counters of an installation go up with every change of its state.\<close>

definition bump :: "installation \<Rightarrow> installation" where
  "bump i = i\<lparr>in_mount_revision := in_mount_revision i + 1, in_revision := in_revision i + 1\<rparr>"

section \<open>Grants and dependencies\<close>

fun check_grants :: "plugin_env \<Rightarrow> string list \<Rightarrow> plugin_error + unit" where
  "check_grants e [] = Inr ()"
| "check_grants e (c # cs) =
     (case pe_callable e c of
        None \<Rightarrow> Inl (plugin_value_error (''unknown plugin capability: '' @ c))
      | Some b \<Rightarrow>
          if b then check_grants e cs
          else Inl (plugin_value_error (''capability is not exposed to plugins: '' @ c)))"

definition validate_capability_grants :: "plugin_env \<Rightarrow> string list \<Rightarrow> plugin_error + string list" where
  "validate_capability_grants e values =
     bindr (check_grants e (sorted_strs values)) (\<lambda>_. Inr (sorted_strs values))"

definition not_verified :: "string \<Rightarrow> plugin_error" where
  "not_verified m = PluginLifecycleError ''release_not_verified'' m"

definition stable_for_plugins :: "descriptor \<Rightarrow> bool" where
  "stable_for_plugins d \<longleftrightarrow> cd_lifecycle d = Stable \<and> ex_plugin (cd_exposure d)"

definition binding_for :: "descriptor list \<Rightarrow> string \<Rightarrow> int \<Rightarrow> descriptor option" where
  "binding_for ds i major = List.find (\<lambda>d. (cd_id d, cd_major d) = (i, major)) ds"

text \<open>The descriptor of a required capability: own provider, catalog, providers of required plugins.\<close>

definition required_capability ::
  "plugin_env \<Rightarrow> string \<Rightarrow> plugin_manifest \<Rightarrow> descriptor list \<Rightarrow> string \<Rightarrow> int \<Rightarrow> plugin_error + descriptor option" where
  "required_capability e tenant m own i major =
     (case binding_for (rev own) i major of
        Some d \<Rightarrow> Inr (Some d)
      | None \<Rightarrow>
          (case pe_catalog e i major of
             Some d \<Rightarrow> Inr (Some d)
           | None \<Rightarrow>
               if pm_plugins_required m = [] then Inr None
               else (case pe_tenant e tenant of
                   Inl (PluginRaised (KeyError _)) \<Rightarrow>
                     Inl (not_verified ''required stable plugin capability dependency is unavailable'')
                 | Inl err \<Rightarrow> Inl err
                 | Inr ds \<Rightarrow> Inr (binding_for ds i major))))"

fun resolve_capabilities ::
  "plugin_env \<Rightarrow> string \<Rightarrow> plugin_manifest \<Rightarrow> descriptor list \<Rightarrow> (string \<times> int) list \<Rightarrow> plugin_error + unit" where
  "resolve_capabilities e tenant m own [] = Inr ()"
| "resolve_capabilities e tenant m own ((i, major) # rest) =
     bindr (required_capability e tenant m own i major) (\<lambda>found.
       case found of
         None \<Rightarrow> Inl (not_verified ''required stable plugin capability dependency is unavailable'')
       | Some d \<Rightarrow>
           if stable_for_plugins d then resolve_capabilities e tenant m own rest
           else Inl (not_verified ''required stable plugin capability dependency is unavailable''))"

definition plugin_available :: "plugin_env \<Rightarrow> plugin_db \<Rightarrow> string \<Rightarrow> string \<times> string \<Rightarrow> bool" where
  "plugin_available e db tenant need =
     (case find_install e db tenant (fst need) of
        None \<Rightarrow> False
      | Some i \<Rightarrow> in_state i \<noteq> PluginUninstalled \<and> in_version i = snd need)"

definition resolve_dependencies ::
  "plugin_env \<Rightarrow> plugin_db \<Rightarrow> string \<Rightarrow> plugin_manifest \<Rightarrow> plugin_error + unit" where
  "resolve_dependencies e db tenant m =
     bindr (if pm_provides m = [] then Inr []
            else (case pe_own e m of
                Inl err \<Rightarrow> Inl (if value_error err \<and> \<not> type_error err
                  then not_verified ''local provider governance approval is unavailable'' else err)
              | Inr ds \<Rightarrow> Inr ds)) (\<lambda>own.
     bindr (resolve_capabilities e tenant m own (pm_required m)) (\<lambda>_.
       unless_raise (list_all (plugin_available e db tenant) (pm_plugins_required m))
         (not_verified ''required plugin dependency is unavailable'')))"

section \<open>Verified releases\<close>

definition verified_content ::
  "plugin_env \<Rightarrow> json \<Rightarrow> string \<Rightarrow> string \<Rightarrow> plugin_error + plugin_manifest" where
  "verified_content e manifest sha signature =
     (if \<not> is_obj manifest then Inl (ManifestError ''release manifest must be an object'')
      else bindr (platform_public_key e) (\<lambda>key.
        bindr (verify_signature e key (canonical_release (pe_host e) manifest sha) signature) (\<lambda>_.
        bindr (parse_manifest e manifest) (\<lambda>m.
          if pm_sha m \<noteq> sha then Inl (not_verified ''release artifact does not match signed manifest'')
          else Inr m))))"

fun closed_error :: "plugin_error \<Rightarrow> plugin_error" where
  "closed_error (PluginLifecycleError code m) = PluginLifecycleError code m"
| "closed_error err =
     (if value_error err then not_verified ''release signature or dependencies cannot be verified'' else err)"

definition close_errors :: "plugin_error + 'a \<Rightarrow> plugin_error + 'a" where
  "close_errors r = (case r of Inl err \<Rightarrow> Inl (closed_error err) | Inr x \<Rightarrow> Inr x)"

definition signed_by :: "plugin_release \<Rightarrow> string option" where
  "signed_by r = (case pr_signature r of None \<Rightarrow> None | Some s \<Rightarrow> if s = [] then None else Some s)"

definition verified_release ::
  "plugin_env \<Rightarrow> plugin_db \<Rightarrow> plugin_release option \<Rightarrow> string \<Rightarrow> string list \<Rightarrow> string \<Rightarrow> plugin_error + unit" where
  "verified_release e db release sha grants tenant =
     (case release of
        None \<Rightarrow> Inl (not_verified ''release is not published and platform-signed'')
      | Some r \<Rightarrow>
          (case signed_by r of
             None \<Rightarrow> Inl (not_verified ''release is not published and platform-signed'')
           | Some signature \<Rightarrow>
               if pr_status r \<noteq> ReleasePublished
               then Inl (not_verified ''release is not published and platform-signed'')
               else if sha \<noteq> ''sha256:'' @ pr_sha r
               then Inl (not_verified ''release hash does not match signed release'')
               else bindr (close_errors
                   (bindr (verified_content e (pr_manifest r) (pr_sha r) signature) (\<lambda>m.
                    bindr (resolve_dependencies e db tenant m) (\<lambda>_. Inr m)))) (\<lambda>m.
                 unless_raise (sort grants = sort (pm_permissions m))
                   (PluginLifecycleError ''invalid_input'' ''requested grants must exactly match signed release grants''))))"

definition verify_transition_release ::
  "plugin_env \<Rightarrow> plugin_db \<Rightarrow> plugin_release \<Rightarrow> string \<Rightarrow> string list \<Rightarrow> plugin_error + unit" where
  "verify_transition_release e db r tenant grants =
     verified_release e db (Some r) (''sha256:'' @ pr_sha r) grants tenant"

text \<open>\<open>manifest[key]\<close>, and an entry of it that the code takes for a string.\<close>

definition manifest_text :: "json \<Rightarrow> string \<Rightarrow> string \<Rightarrow> plugin_error + string" where
  "manifest_text manifest outer inner =
     (case jget manifest outer of
        None \<Rightarrow> Inl (PluginRaised (KeyError outer))
      | Some v \<Rightarrow>
          (case jget v inner of
             None \<Rightarrow> Inl (PluginRaised (KeyError inner))
           | Some (JStr s) \<Rightarrow> Inr s
           | Some _ \<Rightarrow> Inl (PluginRaised (OtherError ''AttributeError''))))"

definition compatible_release :: "plugin_env \<Rightarrow> json \<Rightarrow> plugin_error + unit" where
  "compatible_release e manifest =
     bindr (manifest_text manifest ''compatibility'' ''platform_api'') (\<lambda>api.
     bindr (satisfies (pe_platform_api e) api) (\<lambda>ok.
     bindr (unless_raise ok (plugin_value_error ''release is incompatible with current platform API'')) (\<lambda>_.
     bindr (manifest_text manifest ''compatibility'' ''web_sdk'') (\<lambda>sdk.
     bindr (satisfies (pe_web_sdk e) sdk) (\<lambda>ok.
       unless_raise ok (plugin_value_error ''release is incompatible with current Web Plugin SDK''))))))"

definition usable_release :: "plugin_env \<Rightarrow> plugin_db \<Rightarrow> string \<Rightarrow> string \<Rightarrow> plugin_error + plugin_release" where
  "usable_release e db plugin version =
     (case find_release e db plugin version of
        None \<Rightarrow> Inl (plugin_value_error ''release is not published and platform-signed'')
      | Some r \<Rightarrow>
          if pr_status r \<noteq> ReleasePublished \<or> signed_by r = None
          then Inl (plugin_value_error ''release is not published and platform-signed'')
          else bindr (compatible_release e (pr_manifest r)) (\<lambda>_. Inr r))"

text \<open>The strings of \<open>manifest.get("permissions", [])\<close>.\<close>

definition manifest_permissions :: "hostlib \<Rightarrow> json \<Rightarrow> string list" where
  "manifest_permissions h manifest = map (py_str h) (jlist (jget_null manifest ''permissions''))"

section \<open>Publishers and releases\<close>

definition publisher_id_ok :: "plugin_env \<Rightarrow> string \<Rightarrow> plugin_error + unit" where
  "publisher_id_ok e i =
     (if i = [] \<or> CHR ''.'' \<in> set i \<or> 128 < py_len i
      then Inl (plugin_value_error ''publisher_id must be a single lowercase namespace segment'')
      else unless_raise (pe_alnum e (str_replace1 CHR ''-'' [] i) \<and> pe_lower e i = i)
           (plugin_value_error ''publisher_id must contain lowercase letters, digits, or hyphens''))"

definition register_publisher ::
  "plugin_env \<Rightarrow> plugin_db \<Rightarrow> string \<Rightarrow> string \<Rightarrow> string \<Rightarrow> string \<Rightarrow> plugin_error + plugin_db" where
  "register_publisher e db i name key actor =
     bindr (key_fingerprint e key) (\<lambda>fingerprint.
     bindr (publisher_id_ok e i) (\<lambda>_.
       if list_ex (\<lambda>p. same e (pb_id p) i) (pd_publishers db)
       then Inl (plugin_value_error ''publisher already exists; key rotation requires a separate audited operation'')
       else Inr (db\<lparr>pd_publishers := pd_publishers db @ [\<lparr>pb_id = i, pb_name = py_take 255 name, pb_key = key,
              pb_fingerprint = fingerprint, pb_active = True, pb_created_by = actor\<rparr>]\<rparr>)))"

definition active_publisher :: "plugin_env \<Rightarrow> plugin_db \<Rightarrow> string \<Rightarrow> publisher option" where
  "active_publisher e db i = List.find (\<lambda>p. same e (pb_id p) i \<and> pb_active p) (pd_publishers db)"

definition submitted_release :: "plugin_manifest \<Rightarrow> string \<Rightarrow> string \<Rightarrow> plugin_release" where
  "submitted_release m signature actor =
     \<lparr>pr_plugin = pm_plugin m, pr_version = pm_version m, pr_publisher = pm_publisher m,
      pr_manifest = manifest_json m, pr_object = pm_object_key m, pr_sha = pm_sha m,
      pr_publisher_signature = signature, pr_signature = None, pr_status = ReleaseSubmitted, pr_note = None,
      pr_submitted_by = actor, pr_reviewed_by = None\<rparr>"

definition submit_release :: "plugin_env \<Rightarrow> plugin_db \<Rightarrow> json \<Rightarrow> string \<Rightarrow> string \<Rightarrow> plugin_error + plugin_db" where
  "submit_release e db value signature actor =
     bindr (parse_manifest e value) (\<lambda>m.
       case active_publisher e db (pm_publisher m) of
         None \<Rightarrow> Inl (plugin_value_error ''publisher is not active'')
       | Some p \<Rightarrow>
           bindr (verify_signature e (pb_key p) (canonical_release (pe_host e) (manifest_json m) (pm_sha m)) signature)
             (\<lambda>_.
           if find_release e db (pm_plugin m) (pm_version m) \<noteq> None
           then Inl (plugin_value_error ''release version is immutable and already exists'')
           else Inr (db\<lparr>pd_releases := pd_releases db @ [submitted_release m signature actor]\<rparr>)))"

definition digest_expected :: "string option \<Rightarrow> string \<Rightarrow> string \<Rightarrow> plugin_error + unit" where
  "digest_expected expected sha message =
     unless_raise (expected = None \<or> expected = Some (''sha256:'' @ sha)) (plugin_value_error message)"

text \<open>What the review decides: the status, the stored manifest and the platform signature.\<close>

definition review_outcome ::
  "plugin_env \<Rightarrow> plugin_release \<Rightarrow> bool \<Rightarrow> plugin_error + release_status \<times> json \<times> string option" where
  "review_outcome e r approved =
     (if \<not> approved then Inr (ReleaseRejected, pr_manifest r, None)
      else if pe_private e = []
      then Inl (SignatureError ''platform signing key is not configured; unsigned release cannot be published'')
      else bindr (parse_manifest e (pr_manifest r)) (\<lambda>m.
        bindr (validate_capability_grants e (pm_permissions m)) (\<lambda>_.
        bindr (sign_release e (pe_private e) (canonical_release (pe_host e) (manifest_json m) (pr_sha r))) (\<lambda>signature.
          Inr (ReleasePublished, manifest_json m, Some signature)))))"

definition review_release ::
  "plugin_env \<Rightarrow> plugin_db \<Rightarrow> string \<Rightarrow> string \<Rightarrow> bool \<Rightarrow> string \<Rightarrow> string \<Rightarrow> string option \<Rightarrow> plugin_error + plugin_db" where
  "review_release e db plugin version approved note actor expected =
     (case find_release e db plugin version of
        None \<Rightarrow> Inl (plugin_value_error ''only submitted releases can be reviewed'')
      | Some r \<Rightarrow>
          if pr_status r \<noteq> ReleaseSubmitted
          then Inl (plugin_value_error ''only submitted releases can be reviewed'')
          else bindr (digest_expected expected (pr_sha r) ''release digest changed; refresh before review'') (\<lambda>_.
            bindr (review_outcome e r approved) (\<lambda>(status, manifest, signature).
              Inr (update_release e plugin version (\<lambda>x. x\<lparr>pr_status := status, pr_manifest := manifest,
                pr_signature := signature, pr_note := Some (py_take 4000 note),
                pr_reviewed_by := Some actor\<rparr>) db))))"

text \<open>The loop over the installations of a revoked release; the table is updated one row at a time.\<close>

fun revoke_installs ::
  "plugin_env \<Rightarrow> string \<Rightarrow> string \<Rightarrow> string \<Rightarrow> string \<Rightarrow> installation list \<Rightarrow> plugin_db \<Rightarrow> plugin_error + plugin_db" where
  "revoke_installs e plugin version reason actor [] db = Inr db"
| "revoke_installs e plugin version reason actor (i # is) db =
     (if in_state i = PluginRevoked then revoke_installs e plugin version reason actor is db
      else bindr (require_transition (in_state i) PluginRevoked) (\<lambda>_.
        revoke_installs e plugin version reason actor is
          (record_event (in_tenant i) plugin (Some (in_state i)) PluginRevoked version actor
            (JObj [(''reason'', JStr reason)])
            (update_install e (in_tenant i) plugin
              (\<lambda>x. bump (x\<lparr>in_state := PluginRevoked, in_error := Some (py_take 4000 reason)\<rparr>)) db))))"

definition installed_version :: "plugin_env \<Rightarrow> string \<Rightarrow> string \<Rightarrow> installation \<Rightarrow> bool" where
  "installed_version e plugin version i \<longleftrightarrow> same e (in_plugin i) plugin \<and> same e (in_version i) version \<and>
     in_state i \<noteq> PluginUninstalled"

definition revoke_release ::
  "plugin_env \<Rightarrow> plugin_db \<Rightarrow> string \<Rightarrow> string \<Rightarrow> string \<Rightarrow> string \<Rightarrow> string option \<Rightarrow> plugin_error + plugin_db" where
  "revoke_release e db plugin version reason actor expected =
     (case find_release e db plugin version of
        None \<Rightarrow> Inl (plugin_value_error ''only a published release can be revoked'')
      | Some r \<Rightarrow>
          if pr_status r \<noteq> ReleasePublished
          then Inl (plugin_value_error ''only a published release can be revoked'')
          else bindr (digest_expected expected (pr_sha r) ''release digest changed; refresh before revocation'') (\<lambda>_.
            revoke_installs e plugin version reason actor
              (filter (installed_version e plugin version) (pd_installs db))
              (update_release e plugin version (\<lambda>x. x\<lparr>pr_status := ReleaseRevoked,
                pr_note := Some (py_take 4000 reason), pr_reviewed_by := Some actor\<rparr>) db)))"

section \<open>Installations\<close>

definition new_installation ::
  "string \<Rightarrow> string \<Rightarrow> string \<Rightarrow> string list \<Rightarrow> string \<Rightarrow> string \<Rightarrow> installation" where
  "new_installation tenant plugin version grants actor fresh =
     \<lparr>in_tenant = tenant, in_plugin = plugin, in_version = version, in_previous = None,
      in_state = PluginDisabled, in_granted = grants, in_previous_granted = None, in_installed_by = actor,
      in_error = None, in_id = Some (''installation_'' @ fresh), in_mount_revision = 1, in_revision = 1\<rparr>"

definition reinstalled :: "string \<Rightarrow> string list \<Rightarrow> string \<Rightarrow> string \<Rightarrow> installation \<Rightarrow> installation" where
  "reinstalled version grants actor fresh i =
     bump (i\<lparr>in_version := version, in_previous := None, in_state := PluginDisabled, in_granted := grants,
       in_previous_granted := None, in_installed_by := actor, in_error := None,
       in_id := Some (''installation_'' @ fresh)\<rparr>)"

definition consented_grants :: "plugin_env \<Rightarrow> plugin_release \<Rightarrow> string list \<Rightarrow> string \<Rightarrow> plugin_error + string list" where
  "consented_grants e r payload message =
     bindr (validate_capability_grants e (manifest_permissions (pe_host e) (pr_manifest r))) (\<lambda>requested.
     bindr (validate_capability_grants e payload) (\<lambda>consented.
     bindr (unless_raise (set consented = set requested) (plugin_value_error message)) (\<lambda>_.
       Inr consented)))"

definition install_plugin ::
  "plugin_env \<Rightarrow> plugin_db \<Rightarrow> string \<Rightarrow> string \<Rightarrow> string \<Rightarrow> string list \<Rightarrow> string \<Rightarrow> string \<Rightarrow>
   plugin_error + plugin_db" where
  "install_plugin e db tenant plugin version grants actor fresh =
     bindr (usable_release e db plugin version) (\<lambda>r.
       let existing = find_install e db tenant plugin in
       if existing \<noteq> None \<and> in_state (the existing) \<noteq> PluginUninstalled
       then Inl (plugin_value_error ''plugin is already installed; use upgrade'')
       else bindr (consented_grants e r grants
                ''granted_capabilities must exactly match the signed manifest permissions'') (\<lambda>consented.
         let stored = (if existing \<noteq> None
             then update_install e tenant plugin (reinstalled version consented actor fresh) db
             else db\<lparr>pd_installs := pd_installs db @
               [new_installation tenant plugin version consented actor fresh]\<rparr>) in
         Inr (record_event tenant plugin (if existing \<noteq> None then Some PluginUninstalled else None) PluginDisabled
           version actor
           (JObj [(''action'', JStr (if existing \<noteq> None then ''reinstall'' else ''install''))]) stored)))"

definition not_installed :: plugin_error where
  "not_installed = plugin_value_error ''plugin is not installed''"

text \<open>The data policy of an uninstallation: what it does with the rows of the plugin's namespace.\<close>

definition delete_plugin_data :: "plugin_env \<Rightarrow> string \<Rightarrow> string \<Rightarrow> plugin_db \<Rightarrow> plugin_db" where
  "delete_plugin_data e tenant plugin db =
     db\<lparr>pd_data := filter (\<lambda>(t, p). \<not> (same e t tenant \<and> same e p plugin)) (pd_data db)\<rparr>"

definition policy_text :: "json \<Rightarrow> string \<Rightarrow> string \<Rightarrow> json" where
  "policy_text policy key fallback = (case jget policy key of None \<Rightarrow> JStr fallback | Some v \<Rightarrow> v)"

definition apply_uninstall_data_policy ::
  "plugin_env \<Rightarrow> plugin_db \<Rightarrow> string \<Rightarrow> string \<Rightarrow> string \<Rightarrow> plugin_error + string \<times> plugin_db" where
  "apply_uninstall_data_policy e db tenant plugin version =
     (let manifest = (case find_release e db plugin version of None \<Rightarrow> JObj [] | Some r \<Rightarrow> pr_manifest r);
          policy = jget_null manifest ''data'';
          action = policy_text policy ''uninstall'' ''delete''; retention = policy_text policy ''retention'' ''none'' in
      if action = JStr ''export-then-delete''
      then Inl (plugin_value_error ''plugin data export is required before uninstall'')
      else if action = JStr ''delete'' \<or> retention = JStr ''none'' \<or> retention = JStr ''while-installed''
      then Inr (''deleted'', delete_plugin_data e tenant plugin db)
      else Inr (''retained'', db))"

definition transition_plugin ::
  "plugin_env \<Rightarrow> plugin_db \<Rightarrow> string \<Rightarrow> string \<Rightarrow> string \<Rightarrow> plugin_state \<Rightarrow> plugin_error + plugin_db" where
  "transition_plugin e db tenant plugin actor target =
     (case find_install e db tenant plugin of
        None \<Rightarrow> Inl not_installed
      | Some i \<Rightarrow>
          bindr (require_transition (in_state i) target) (\<lambda>_.
          bindr (if target = PluginEnabled
                 then bindr (usable_release e db plugin (in_version i)) (\<lambda>r.
                   verify_transition_release e db r tenant (in_granted i))
                 else Inr ()) (\<lambda>_.
          bindr (if target = PluginUninstalled
                 then bindr (apply_uninstall_data_policy e db tenant plugin (in_version i)) (\<lambda>(done', db').
                   Inr (JObj [(''data'', JStr done')], db'))
                 else Inr (JObj [], db)) (\<lambda>(detail, db').
            Inr (record_event tenant plugin (Some (in_state i)) target (in_version i) actor detail
              (update_install e tenant plugin (\<lambda>x. bump (x\<lparr>in_state := target\<rparr>)) db'))))))"

definition upgraded :: "upgrade_result \<Rightarrow> string list \<Rightarrow> installation \<Rightarrow> installation" where
  "upgraded result grants i =
     bump (i\<lparr>in_version := ur_current result, in_previous := ur_previous result, in_state := PluginUpgrading,
       in_previous_granted := Some (in_granted i), in_granted := grants\<rparr>)"

definition upgrade_plugin ::
  "plugin_env \<Rightarrow> plugin_db \<Rightarrow> string \<Rightarrow> string \<Rightarrow> string \<Rightarrow> string list \<Rightarrow> string \<Rightarrow> plugin_error + plugin_db" where
  "upgrade_plugin e db tenant plugin version grants actor =
     bindr (usable_release e db plugin version) (\<lambda>r.
     bindr (consented_grants e r grants
              ''granted_capabilities must exactly match the new signed manifest permissions'') (\<lambda>consented.
     bindr (verify_transition_release e db r tenant consented) (\<lambda>_.
       case find_install e db tenant plugin of
         None \<Rightarrow> Inl not_installed
       | Some i \<Rightarrow>
           bindr (require_transition (in_state i) PluginUpgrading) (\<lambda>_.
           bindr (begin_upgrade (in_version i) version) (\<lambda>result.
             Inr (record_event tenant plugin (Some (in_state i)) PluginUpgrading version actor
               (JObj [(''previous_version'', JStr (in_version i))])
               (update_install e tenant plugin (upgraded result consented) db)))))))"

definition finish_upgrade ::
  "plugin_env \<Rightarrow> plugin_db \<Rightarrow> string \<Rightarrow> string \<Rightarrow> string \<Rightarrow> bool \<Rightarrow> plugin_error + plugin_db" where
  "finish_upgrade e db tenant plugin actor healthy =
     transition_plugin e db tenant plugin actor (if healthy then PluginEnabled else PluginFailed)"

definition previous_grants :: "installation \<Rightarrow> string list" where
  "previous_grants i = (case in_previous_granted i of None \<Rightarrow> [] | Some g \<Rightarrow> g)"

definition rolled_back :: "upgrade_result \<Rightarrow> installation \<Rightarrow> installation \<Rightarrow> installation" where
  "rolled_back result read i =
     bump (i\<lparr>in_version := ur_current result, in_previous := ur_previous result, in_state := PluginRolledBack,
       in_granted := previous_grants read, in_previous_granted := Some (in_granted read)\<rparr>)"

definition rollback_plugin ::
  "plugin_env \<Rightarrow> plugin_db \<Rightarrow> string \<Rightarrow> string \<Rightarrow> string \<Rightarrow> plugin_error + plugin_db" where
  "rollback_plugin e db tenant plugin actor =
     (case find_install e db tenant plugin of
        None \<Rightarrow> Inl not_installed
      | Some i \<Rightarrow>
          bindr (require_transition (in_state i) PluginRolledBack) (\<lambda>_.
          bindr (plan_rollback (in_version i) (in_previous i)) (\<lambda>result.
          bindr (usable_release e db plugin (ur_current result)) (\<lambda>r.
            bindr (verify_transition_release e db r tenant (previous_grants i)) (\<lambda>_.
              Inr (record_event tenant plugin (Some (in_state i)) PluginRolledBack (ur_current result) actor
                (JObj [(''rolled_back_from'', JStr (in_version i))])
                (update_install e tenant plugin (rolled_back result i) db)))))))"

section \<open>Commands with an idempotency key\<close>

definition lifecycle_text :: "json \<Rightarrow> nat \<Rightarrow> plugin_error + string" where
  "lifecycle_text v maximum =
     (case v of
        JStr s \<Rightarrow> if str_strip s = [] \<or> maximum < py_len s
          then Inl (PluginLifecycleError ''invalid_input'' ''invalid_input'') else Inr (str_strip s)
      | _ \<Rightarrow> Inl (PluginLifecycleError ''invalid_input'' ''invalid_input''))"

definition lifecycle_actor :: "json \<Rightarrow> plugin_error + string \<times> string" where
  "lifecycle_actor actor =
     (if \<not> is_obj actor then Inl (PluginLifecycleError ''invalid_input'' ''invalid_actor'')
      else bindr (lifecycle_text (jget_null actor ''gid'') 128) (\<lambda>gid.
        bindr (lifecycle_text (jget_null actor ''tenant_gid'') 128) (\<lambda>tenant. Inr (gid, tenant))))"

record install_command =
  ic_plugin :: string
  ic_version :: string
  ic_sha :: string
  ic_grants :: "string list"
  ic_key :: string

record uninstall_command =
  uc_plugin :: string
  uc_revision :: int
  uc_key :: string

definition invalid_command :: plugin_error where
  "invalid_command = PluginLifecycleError ''invalid_input'' ''invalid_input''"

definition exact_keys :: "string list \<Rightarrow> json \<Rightarrow> bool" where
  "exact_keys keys v \<longleftrightarrow> is_obj v \<and> set (jkeys v) = set keys"

definition digest_text :: "json \<Rightarrow> plugin_error + string" where
  "digest_text v = (case v of
     JStr s \<Rightarrow> if str_prefix ''sha256:'' s \<and> sha256_text (drop 7 s) then Inr s else Inl invalid_command
   | _ \<Rightarrow> Inl invalid_command)"

definition grant_texts :: "json \<Rightarrow> plugin_error + string list" where
  "grant_texts v = (case v of
     JList xs \<Rightarrow>
       if list_all (\<lambda>x. case x of JStr s \<Rightarrow> capability_word s | _ \<Rightarrow> False) xs \<and>
          (let texts = map (\<lambda>x. case x of JStr s \<Rightarrow> s | _ \<Rightarrow> []) xs in texts = sorted_strs texts)
       then Inr (map (\<lambda>x. case x of JStr s \<Rightarrow> s | _ \<Rightarrow> []) xs) else Inl invalid_command
   | _ \<Rightarrow> Inl invalid_command)"

definition read_install_command :: "json \<Rightarrow> plugin_error + install_command" where
  "read_install_command v =
     (if \<not> exact_keys [''plugin_id'', ''release_version'', ''release_sha256'', ''requested_grants'', ''idempotency_key''] v
      then Inl invalid_command
      else bindr (lifecycle_text (jget_null v ''plugin_id'') 255) (\<lambda>plugin.
        bindr (lifecycle_text (jget_null v ''release_version'') 64) (\<lambda>version.
        bindr (lifecycle_text (jget_null v ''idempotency_key'') 512) (\<lambda>key.
        bindr (digest_text (jget_null v ''release_sha256'')) (\<lambda>sha.
        bindr (grant_texts (jget_null v ''requested_grants'')) (\<lambda>grants.
          Inr \<lparr>ic_plugin = plugin, ic_version = version, ic_sha = sha, ic_grants = grants, ic_key = key\<rparr>))))))"

definition read_uninstall_command :: "json \<Rightarrow> plugin_error + uninstall_command" where
  "read_uninstall_command v =
     (if \<not> exact_keys [''plugin_id'', ''expected_revision'', ''retain_tenant_data'', ''idempotency_key''] v
      then Inl invalid_command
      else bindr (lifecycle_text (jget_null v ''plugin_id'') 255) (\<lambda>plugin.
        bindr (lifecycle_text (jget_null v ''idempotency_key'') 512) (\<lambda>key.
        bindr (case jget_null v ''expected_revision'' of
            JInt n \<Rightarrow> if n < 1 then Inl invalid_command else Inr n | _ \<Rightarrow> Inl invalid_command) (\<lambda>revision.
        if jget_null v ''retain_tenant_data'' \<noteq> JBool True
        then Inl (PluginLifecycleError ''invalid_input'' ''uninstall never purges tenant data'')
        else Inr \<lparr>uc_plugin = plugin, uc_revision = revision, uc_key = key\<rparr>))))"

definition install_command_json :: "install_command \<Rightarrow> json" where
  "install_command_json c = JObj [(''plugin_id'', JStr (ic_plugin c)), (''release_version'', JStr (ic_version c)),
     (''release_sha256'', JStr (ic_sha c)), (''requested_grants'', JList (map JStr (ic_grants c))),
     (''idempotency_key'', JStr (ic_key c))]"

definition uninstall_command_json :: "uninstall_command \<Rightarrow> json" where
  "uninstall_command_json c = JObj [(''plugin_id'', JStr (uc_plugin c)), (''expected_revision'', JInt (uc_revision c)),
     (''retain_tenant_data'', JBool True), (''idempotency_key'', JStr (uc_key c))]"

definition command_digest :: "hostlib \<Rightarrow> json \<Rightarrow> string" where
  "command_digest h v = sha256_hex h (json_dumps h v)"

definition command_at :: "plugin_env \<Rightarrow> string \<Rightarrow> string \<Rightarrow> string \<Rightarrow> string \<Rightarrow> lifecycle_command \<Rightarrow> bool" where
  "command_at e tenant actor operation key c \<longleftrightarrow> same e (lc_tenant c) tenant \<and> same e (lc_actor c) actor \<and>
     same e (lc_operation c) operation \<and> same e (lc_key c) key"

text \<open>\<open>claim\<close>: the recorded result of the key, or the tables with the key taken.\<close>

definition claim_command ::
  "plugin_env \<Rightarrow> plugin_db \<Rightarrow> string \<Rightarrow> string \<Rightarrow> string \<Rightarrow> string \<Rightarrow> string \<Rightarrow> plugin_error + json option \<times> plugin_db" where
  "claim_command e db tenant actor operation key sha =
     (case List.find (command_at e tenant actor operation key) (pd_commands db) of
        None \<Rightarrow> Inr (None, db\<lparr>pd_commands := pd_commands db @ [\<lparr>lc_tenant = tenant, lc_actor = actor,
             lc_operation = operation, lc_key = key, lc_sha = sha, lc_result = None\<rparr>]\<rparr>)
      | Some c \<Rightarrow>
          if lc_sha c \<noteq> sha
          then Inl (PluginLifecycleError ''idempotency_conflict'' ''idempotency key is already bound to a different command'')
          else Inr (lc_result c, db))"

definition complete_command ::
  "plugin_env \<Rightarrow> string \<Rightarrow> string \<Rightarrow> string \<Rightarrow> string \<Rightarrow> string \<Rightarrow> json \<Rightarrow> plugin_db \<Rightarrow> plugin_db" where
  "complete_command e tenant actor operation key sha result db =
     db\<lparr>pd_commands := map (\<lambda>c. if command_at e tenant actor operation key c \<and> same e (lc_sha c) sha
       then c\<lparr>lc_result := Some result\<rparr> else c) (pd_commands db)\<rparr>"

text \<open>A row as \<open>_row\<close> reads it, and the upsert of \<open>save_installation\<close>.\<close>

record saved_row =
  sr_tenant :: string
  sr_plugin :: string
  sr_version :: string
  sr_state :: plugin_state
  sr_granted :: "string list"
  sr_installed_by :: string
  sr_id :: string
  sr_mount_revision :: int
  sr_revision :: int

definition or_one :: "int \<Rightarrow> int" where
  "or_one n = (if n = 0 then 1 else n)"

definition saved_row_of :: "installation \<Rightarrow> saved_row" where
  "saved_row_of i = \<lparr>sr_tenant = in_tenant i, sr_plugin = in_plugin i, sr_version = in_version i, sr_state = in_state i,
     sr_granted = in_granted i, sr_installed_by = in_installed_by i,
     sr_id = (case in_id i of None \<Rightarrow> [] | Some s \<Rightarrow> s), sr_mount_revision = or_one (in_mount_revision i),
     sr_revision = or_one (in_revision i)\<rparr>"

definition save_over :: "saved_row \<Rightarrow> installation \<Rightarrow> installation" where
  "save_over r i = i\<lparr>in_version := sr_version r, in_previous := None, in_state := sr_state r,
     in_granted := sr_granted r, in_installed_by := sr_installed_by r, in_id := Some (sr_id r),
     in_mount_revision := sr_mount_revision r, in_revision := sr_revision r\<rparr>"

definition save_installation :: "plugin_env \<Rightarrow> saved_row \<Rightarrow> plugin_db \<Rightarrow> plugin_db" where
  "save_installation e r db =
     (if find_install e db (sr_tenant r) (sr_plugin r) \<noteq> None
      then update_install e (sr_tenant r) (sr_plugin r) (save_over r) db
      else db\<lparr>pd_installs := pd_installs db @ [\<lparr>in_tenant = sr_tenant r, in_plugin = sr_plugin r,
        in_version = sr_version r, in_previous = None, in_state = sr_state r, in_granted = sr_granted r,
        in_previous_granted = None, in_installed_by = sr_installed_by r, in_error = None,
        in_id = Some (sr_id r), in_mount_revision = sr_mount_revision r, in_revision = sr_revision r\<rparr>]\<rparr>)"

definition row_result :: "saved_row \<Rightarrow> json" where
  "row_result r = JObj [(''plugin_id'', JStr (sr_plugin r)), (''release_version'', JStr (sr_version r)),
     (''state'', JStr (plugin_state_value (sr_state r))), (''revision'', JInt (sr_revision r)),
     (''granted_capabilities'', JList (map JStr (sr_granted r))), (''tenant_gid'', JStr (sr_tenant r))]"

section \<open>The owner of marketplace installations\<close>

definition list_installed :: "plugin_env \<Rightarrow> plugin_db \<Rightarrow> json \<Rightarrow> plugin_error + json" where
  "list_installed e db actor =
     bindr (lifecycle_actor actor) (\<lambda>(_, tenant).
       Inr (JObj [(''installations'', JList (map (row_result \<circ> saved_row_of)
         (sort_key (\<lambda>i. pe_norm e (in_plugin i)) (filter (\<lambda>i. same e (in_tenant i) tenant) (pd_installs db)))))]))"

definition requested_row ::
  "install_command \<Rightarrow> string \<Rightarrow> string \<Rightarrow> string \<Rightarrow> installation option \<Rightarrow> saved_row" where
  "requested_row c tenant actor fresh existing =
     \<lparr>sr_tenant = tenant, sr_plugin = ic_plugin c, sr_version = ic_version c, sr_state = PluginDisabled,
      sr_granted = ic_grants c, sr_installed_by = actor, sr_id = ''installation_'' @ fresh,
      sr_mount_revision = (case existing of None \<Rightarrow> 1 | Some i \<Rightarrow> sr_mount_revision (saved_row_of i) + 1),
      sr_revision = (case existing of None \<Rightarrow> 1 | Some i \<Rightarrow> sr_revision (saved_row_of i) + 1)\<rparr>"

definition store_install ::
  "plugin_env \<Rightarrow> plugin_db \<Rightarrow> install_command \<Rightarrow> string \<Rightarrow> string \<Rightarrow> string \<Rightarrow> string \<Rightarrow> json \<times> plugin_db" where
  "store_install e db c who tenant sha fresh =
     (let existing = find_install e db tenant (ic_plugin c); row = requested_row c tenant who fresh existing;
          result = row_result row in
      (result, record_event tenant (ic_plugin c) (map_option in_state existing) PluginDisabled (ic_version c) who
        (JObj [(''operation'', JStr ''request.create''), (''grants'', JList (map JStr (ic_grants c))),
           (''revision'', JInt (sr_revision row))])
        (complete_command e tenant who ''request.create'' (ic_key c) sha result (save_installation e row db))))"

definition new_install ::
  "plugin_env \<Rightarrow> plugin_db \<Rightarrow> install_command \<Rightarrow> string \<Rightarrow> string \<Rightarrow> string \<Rightarrow> string \<Rightarrow>
   plugin_error + json \<times> plugin_db" where
  "new_install e db c who tenant sha fresh =
     bindr (verified_release e db (find_release e db (ic_plugin c) (ic_version c)) (ic_sha c) (ic_grants c) tenant) (\<lambda>_.
       case find_install e db tenant (ic_plugin c) of
         None \<Rightarrow> Inr (store_install e db c who tenant sha fresh)
       | Some i \<Rightarrow>
           if in_state i \<noteq> PluginUninstalled
           then Inl (PluginLifecycleError ''already_installed'' ''plugin is already installed'')
           else Inr (store_install e db c who tenant sha fresh))"

definition request_install ::
  "plugin_env \<Rightarrow> plugin_db \<Rightarrow> json \<Rightarrow> json \<Rightarrow> string \<Rightarrow> plugin_error + json \<times> plugin_db" where
  "request_install e db actor command fresh =
     bindr (read_install_command command) (\<lambda>c.
     bindr (lifecycle_actor actor) (\<lambda>(who, tenant).
     let sha = command_digest (pe_host e) (install_command_json c) in
     bindr (claim_command e db tenant who ''request.create'' (ic_key c) sha) (\<lambda>(replay, db1).
       case replay of
         Some result \<Rightarrow> Inr (result, db1)
       | None \<Rightarrow> new_install e db1 c who tenant sha fresh)))"

definition revoke_mounts ::
  "string \<Rightarrow> string \<Rightarrow> string \<Rightarrow> timestamp \<Rightarrow> plugin_db \<Rightarrow> plugin_db" where
  "revoke_mounts tenant plugin i now db =
     db\<lparr>pd_mounts := map (\<lambda>m.
       if ms_tenant (mr_session m) = tenant \<and> ms_plugin (mr_session m) = plugin \<and>
          ms_installation (mr_session m) = i \<and> mr_active m
       then m\<lparr>mr_active := False, mr_session := (mr_session m)\<lparr>ms_revoked := Some now\<rparr>\<rparr> else m) (pd_mounts db)\<rparr>"

definition uninstalled_row :: "installation \<Rightarrow> saved_row" where
  "uninstalled_row i = (saved_row_of i)\<lparr>sr_state := PluginUninstalled, sr_granted := [],
     sr_revision := sr_revision (saved_row_of i) + 1, sr_mount_revision := sr_mount_revision (saved_row_of i) + 1\<rparr>"

definition store_uninstall ::
  "plugin_env \<Rightarrow> plugin_db \<Rightarrow> uninstall_command \<Rightarrow> installation \<Rightarrow> string \<Rightarrow> string \<Rightarrow> string \<Rightarrow> timestamp \<Rightarrow>
   json \<times> plugin_db" where
  "store_uninstall e db c i who tenant sha now =
     (let row = uninstalled_row i; result = row_result row in
      (result, record_event tenant (in_plugin i) (Some (in_state i)) PluginUninstalled (in_version i) who
        (JObj [(''operation'', JStr ''transition.uninstall''),
           (''grants_revoked'', JList (map JStr (in_granted i))), (''data_retained'', JBool True),
           (''revision'', JInt (sr_revision row))])
        (complete_command e tenant who ''transition.uninstall'' (uc_key c) sha result
          (save_installation e row
            (revoke_mounts tenant (in_plugin i) (sr_id (saved_row_of i)) now db)))))"

definition new_uninstall ::
  "plugin_env \<Rightarrow> plugin_db \<Rightarrow> uninstall_command \<Rightarrow> string \<Rightarrow> string \<Rightarrow> string \<Rightarrow> timestamp \<Rightarrow>
   plugin_error + json \<times> plugin_db" where
  "new_uninstall e db c who tenant sha now =
     (case find_install e db tenant (uc_plugin c) of
        None \<Rightarrow> Inl (PluginLifecycleError ''resource_not_found'' ''plugin installation not found'')
      | Some i \<Rightarrow>
          if sr_revision (saved_row_of i) \<noteq> uc_revision c
          then Inl (PluginLifecycleError ''revision_conflict'' ''plugin installation changed'')
          else if PluginUninstalled \<notin> set (plugin_transitions (in_state i))
          then Inl (PluginLifecycleError ''invalid_transition'' (''invalid plugin transition: '' @
                 plugin_state_value (in_state i) @ '' -> uninstalled''))
          else if find_release e db (in_plugin i) (in_version i) = None
          then Inl (not_verified ''installed release is unavailable'')
          else Inr (store_uninstall e db c i who tenant sha now))"

definition transition_uninstall ::
  "plugin_env \<Rightarrow> plugin_db \<Rightarrow> json \<Rightarrow> json \<Rightarrow> timestamp \<Rightarrow> plugin_error + json \<times> plugin_db" where
  "transition_uninstall e db actor command now =
     bindr (read_uninstall_command command) (\<lambda>c.
     bindr (lifecycle_actor actor) (\<lambda>(who, tenant).
     let sha = command_digest (pe_host e) (uninstall_command_json c) in
     bindr (claim_command e db tenant who ''transition.uninstall'' (uc_key c) sha) (\<lambda>(replay, db1).
       case replay of
         Some result \<Rightarrow> Inr (result, db1)
       | None \<Rightarrow> new_uninstall e db1 c who tenant sha now)))"

section \<open>Calls\<close>

text \<open>
  The calls the capabilities of the marketplace make. The direct ones are those of
  \<open>capabilities/plugin_marketplace_next.py\<close>, which name the targets of a transition.
\<close>

datatype plugin_call =
    RegisterPublisher string string string string
  | SubmitRelease json string string
  | ReviewRelease string string bool string string "string option"
  | RevokeRelease string string string string "string option"
  | InstallPlugin string string string "string list" string string
  | EnablePlugin string string string
  | DisablePlugin string string string
  | RevokePlugin string string string
  | UninstallPlugin string string string
  | UpgradePlugin string string string "string list" string
  | FinishUpgrade string string string bool
  | RollbackPlugin string string string
  | RequestInstall json json string
  | TransitionUninstall json json timestamp

fun plugin_exec :: "plugin_env \<Rightarrow> plugin_db \<Rightarrow> plugin_call \<Rightarrow> plugin_error + plugin_db" where
  "plugin_exec e db (RegisterPublisher i name key actor) = register_publisher e db i name key actor"
| "plugin_exec e db (SubmitRelease value signature actor) = submit_release e db value signature actor"
| "plugin_exec e db (ReviewRelease plugin version approved note actor expected) =
     review_release e db plugin version approved note actor expected"
| "plugin_exec e db (RevokeRelease plugin version reason actor expected) =
     revoke_release e db plugin version reason actor expected"
| "plugin_exec e db (InstallPlugin tenant plugin version grants actor fresh) =
     install_plugin e db tenant plugin version grants actor fresh"
| "plugin_exec e db (EnablePlugin tenant plugin actor) = transition_plugin e db tenant plugin actor PluginEnabled"
| "plugin_exec e db (DisablePlugin tenant plugin actor) = transition_plugin e db tenant plugin actor PluginDisabled"
| "plugin_exec e db (RevokePlugin tenant plugin actor) = transition_plugin e db tenant plugin actor PluginRevoked"
| "plugin_exec e db (UninstallPlugin tenant plugin actor) =
     transition_plugin e db tenant plugin actor PluginUninstalled"
| "plugin_exec e db (UpgradePlugin tenant plugin version grants actor) =
     upgrade_plugin e db tenant plugin version grants actor"
| "plugin_exec e db (FinishUpgrade tenant plugin actor healthy) = finish_upgrade e db tenant plugin actor healthy"
| "plugin_exec e db (RollbackPlugin tenant plugin actor) = rollback_plugin e db tenant plugin actor"
| "plugin_exec e db (RequestInstall actor command fresh) =
     bindr (request_install e db actor command fresh) (\<lambda>r. Inr (snd r))"
| "plugin_exec e db (TransitionUninstall actor command now) =
     bindr (transition_uninstall e db actor command now) (\<lambda>r. Inr (snd r))"

definition no_plugins :: plugin_db where
  "no_plugins = \<lparr>pd_publishers = [], pd_releases = [], pd_installs = [], pd_events = [], pd_commands = [],
     pd_data = [], pd_mounts = []\<rparr>"

section \<open>What the shell is given\<close>

definition mount_live :: "plugin_state \<Rightarrow> bool" where
  "mount_live s \<longleftrightarrow> s = PluginEnabled \<or> s = PluginRolledBack"

text \<open>The join of an installation with the published release of its current version.\<close>

definition live_join :: "plugin_env \<Rightarrow> plugin_db \<Rightarrow> (installation \<times> plugin_release) list" where
  "live_join e db = concat (map (\<lambda>i. map (\<lambda>r. (i, r))
     (filter (\<lambda>r. release_at e (in_plugin i) (in_version i) r \<and> pr_status r = ReleasePublished) (pd_releases db)))
     (filter (\<lambda>i. mount_live (in_state i)) (pd_installs db)))"

record registry_entry =
  re_plugin :: string
  re_version :: string
  re_permissions :: "string list"
  re_manifest :: json
  re_installation :: "string option"
  re_mount_revision :: int
  re_object :: string
  re_sha :: string
  re_signature :: "string option"

definition registry_entry_of :: "installation \<Rightarrow> plugin_release \<Rightarrow> registry_entry" where
  "registry_entry_of i r = \<lparr>re_plugin = in_plugin i, re_version = in_version i, re_permissions = in_granted i,
     re_manifest = pr_manifest r, re_installation = in_id i, re_mount_revision = or_one (in_mount_revision i),
     re_object = pr_object r, re_sha = pr_sha r, re_signature = pr_signature r\<rparr>"

definition tenant_registry :: "plugin_env \<Rightarrow> plugin_db \<Rightarrow> string \<Rightarrow> registry_entry list" where
  "tenant_registry e db tenant =
     map (\<lambda>(i, r). registry_entry_of i r) (filter (\<lambda>(i, _). same e (in_tenant i) tenant) (live_join e db))"

text \<open>Anything above the package's root, or with a colon in a part, is refused.\<close>

definition asset_parts :: "string \<Rightarrow> string list" where
  "asset_parts path = str_split CHR ''/'' (rev (dropWhile (\<lambda>c. c = CHR ''/'')
     (rev (dropWhile (\<lambda>c. c = CHR ''/'') (web_entry path)))))"

definition resolve_asset_object_key ::
  "plugin_env \<Rightarrow> plugin_db \<Rightarrow> string \<Rightarrow> string \<Rightarrow> string \<Rightarrow> string \<Rightarrow> string \<Rightarrow> plugin_error + string" where
  "resolve_asset_object_key e db tenant plugin version sha path =
     (let parts = asset_parts path in
      if parts = [[]] \<or> ''..'' \<in> set parts \<or> list_ex (\<lambda>p. CHR '':'' \<in> set p) parts
      then Inl (PluginRaised (OtherError ''unsafe plugin asset path''))
      else (case List.find (\<lambda>(i, r). install_at e tenant plugin i \<and> same e (in_version i) version \<and>
                same e (pr_sha r) sha) (live_join e db) of
          None \<Rightarrow> Inl (PluginRaised (OtherError ''plugin mount is disabled, revoked, changed, or unknown''))
        | Some (_, r) \<Rightarrow> Inr (str_join ''/''
            [''plugin-assets'', pr_publisher r, plugin, version, sha, str_join ''/'' parts])))"

end
