(* ===== verification/PluginMounts.thy ===== *)
theory PluginMounts
  imports PluginService
begin

text \<open>
  Mounts of plugins in the Web shell (\<open>backend/plugin_platform/mounts.py\<close>): sessions bound to a user, a
  tenant and an installation revision, the in-memory and the SQL store behind one interface, the signed
  tokens of their assets, and the service that issues and resolves them. The keyed digest and the JSON reader
  are fields of \<open>token_lib\<close>; random parts and the clock are arguments. The SQL store
  reads the tables of \<open>PluginService\<close>; the columns of its own table compare byte by byte.
\<close>

datatype mount_error =
    MountSessionError string
  | MountTokenError string
  | MountRaised py_exn

section \<open>Tokens\<close>

record token_lib =
  tk_secret :: string
  tk_hmac :: "string \<Rightarrow> string \<Rightarrow> nat list"
  tk_loads :: "nat list \<Rightarrow> json option"
  tk_host :: hostlib

definition mount_secret :: "token_lib \<Rightarrow> mount_error + string" where
  "mount_secret lib =
     (if length (tk_secret lib) < 32
      then Inl (MountTokenError ''AI00_PLUGIN_MOUNT_SECRET must contain at least 32 bytes'') else Inr (tk_secret lib))"

definition mount_encode :: "string \<Rightarrow> string" where
  "mount_encode data = base64url_text (map byte_value data)"

text \<open>
  \<open>urlsafe_b64decode\<close>: \<open>binascii.a2b_base64\<close> outside its strict mode skips what is not in the alphabet and
  stops at a complete padding.
\<close>

definition urlsafe_value :: "char \<Rightarrow> nat option" where
  "urlsafe_value c = base64_value (if c = CHR ''-'' then CHR ''+'' else if c = CHR ''_'' then CHR ''/'' else c)"

fun lenient_sextets :: "nat \<Rightarrow> nat \<Rightarrow> string \<Rightarrow> nat list option" where
  "lenient_sextets q pads [] = (if q = 0 then Some [] else None)"
| "lenient_sextets q pads (c # s) =
     (if c = CHR ''='' then
        (if 2 \<le> q then (if 4 \<le> q + pads + 1 then Some [] else lenient_sextets q (pads + 1) s)
         else lenient_sextets q pads s)
      else (case urlsafe_value c of
          None \<Rightarrow> lenient_sextets q pads s
        | Some n \<Rightarrow> map_option ((#) n) (lenient_sextets (Suc q mod 4) 0 s)))"

definition mount_decode :: "string \<Rightarrow> nat list option" where
  "mount_decode s =
     Option.bind (lenient_sextets 0 0 (s @ replicate ((4 - length s mod 4) mod 4) CHR ''='')) base64_bytes"

definition mount_signature :: "token_lib \<Rightarrow> string \<Rightarrow> string \<Rightarrow> string" where
  "mount_signature lib secret encoded = base64url_text (tk_hmac lib secret encoded)"

definition ascii_text :: "string \<Rightarrow> bool" where
  "ascii_text s = list_all (\<lambda>c. byte_value c < 128) s"

text \<open>\<open>json.dumps\<close> with its default escapes: every UTF-16 unit outside the printable ASCII range.\<close>

definition unit_text :: "nat \<Rightarrow> string" where
  "unit_text u =
     (if 32 \<le> u \<and> u \<le> 126 then [char_of u]
      else CHR 0x5C # ''u'' @ map (\<lambda>k. ''0123456789abcdef'' ! (u div 16 ^ k mod 16)) [3, 2, 1, 0])"

definition ascii_json :: "hostlib \<Rightarrow> json \<Rightarrow> string" where
  "ascii_json h v = concat (map unit_text (utf16_units (json_dumps h v)))"

definition sign_token :: "token_lib \<Rightarrow> json \<Rightarrow> mount_error + string" where
  "sign_token lib payload =
     (let encoded = mount_encode (ascii_json (tk_host lib) payload) in
      bindr (mount_secret lib) (\<lambda>secret. Inr (encoded @ ''.'' @ mount_signature lib secret encoded)))"

text \<open>The payload of a token with a valid signature; \<open>None\<close> stands for any other exception.\<close>

definition token_payload :: "token_lib \<Rightarrow> string \<Rightarrow> string \<Rightarrow> mount_error + json option" where
  "token_payload lib token mismatch =
     (if CHR ''.'' \<notin> set token then Inr None
      else
        (let encoded = str_before CHR ''.'' token; supplied = tl (dropWhile (\<lambda>c. c \<noteq> CHR ''.'') token) in
         case mount_secret lib of
           Inl e \<Rightarrow> Inl e
         | Inr secret \<Rightarrow>
             if \<not> ascii_text token then Inr None
             else if mount_signature lib secret encoded \<noteq> supplied then Inl (MountSessionError mismatch)
             else Inr (Option.bind (mount_decode encoded) (tk_loads lib))))"

definition token_number :: "json \<Rightarrow> string \<Rightarrow> int option" where
  "token_number v key =
     Option.bind (jget v key) (\<lambda>x. case py_int x of Inl _ \<Rightarrow> None | Inr n \<Rightarrow> Some n)"

definition token_text :: "token_lib \<Rightarrow> json \<Rightarrow> string \<Rightarrow> string option" where
  "token_text lib v key = map_option (py_str (tk_host lib)) (jget v key)"

text \<open>\<open>int(t.timestamp())\<close>, and the range of \<open>datetime.fromtimestamp\<close>.\<close>

definition epoch_seconds :: "timestamp \<Rightarrow> int" where
  "epoch_seconds t = (if 0 \<le> instant t then instant t div 1000000 else - ((- instant t) div 1000000))"

definition datetime_range :: "int \<Rightarrow> bool" where
  "datetime_range n \<longleftrightarrow> -62135596800 \<le> n \<and> n \<le> 253402300799"

definition asset_payload :: "string \<Rightarrow> timestamp \<Rightarrow> string \<Rightarrow> json" where
  "asset_payload i expires nonce =
     JObj [(''sid'', JStr i), (''exp'', JInt (epoch_seconds expires)), (''nonce'', JStr nonce)]"

definition issue_asset_token :: "token_lib \<Rightarrow> string \<Rightarrow> timestamp \<Rightarrow> string \<Rightarrow> mount_error + string" where
  "issue_asset_token lib i expires nonce = sign_token lib (asset_payload i expires nonce)"

definition malformed_asset_token :: mount_error where
  "malformed_asset_token = MountSessionError ''malformed mount asset token''"

definition verify_asset_token :: "token_lib \<Rightarrow> string \<Rightarrow> mount_error + string \<times> timestamp" where
  "verify_asset_token lib token =
     (case token_payload lib token ''invalid mount asset token signature'' of
        Inl (MountSessionError m) \<Rightarrow> Inl (MountSessionError m)
      | Inl _ \<Rightarrow> Inl malformed_asset_token
      | Inr None \<Rightarrow> Inl malformed_asset_token
      | Inr (Some v) \<Rightarrow>
          (case (token_text lib v ''sid'', token_number v ''exp'') of
             (Some i, Some n) \<Rightarrow> if datetime_range n then Inr (i, Aware (n * 1000000)) else Inl malformed_asset_token
           | _ \<Rightarrow> Inl malformed_asset_token))"

section \<open>Mount tokens without a session\<close>

record mount_claims =
  mc_tenant :: string
  mc_plugin :: string
  mc_version :: string
  mc_sha :: string
  mc_expires :: int

definition issue_mount_token ::
  "token_lib \<Rightarrow> string \<Rightarrow> string \<Rightarrow> string \<Rightarrow> string \<Rightarrow> int \<Rightarrow> int \<Rightarrow> string \<Rightarrow> mount_error + string" where
  "issue_mount_token lib tenant plugin version sha ttl now nonce =
     sign_token lib (JObj [(''t'', JStr tenant), (''p'', JStr plugin), (''v'', JStr version), (''h'', JStr sha),
       (''exp'', JInt (now + max 30 (min ttl 600))), (''n'', JStr nonce)])"

definition malformed_mount_token :: mount_error where
  "malformed_mount_token = MountTokenError ''malformed mount token''"

definition read_claims :: "token_lib \<Rightarrow> json \<Rightarrow> mount_claims option" where
  "read_claims lib v =
     Option.bind (token_text lib v ''t'') (\<lambda>tenant. Option.bind (token_text lib v ''p'') (\<lambda>plugin.
     Option.bind (token_text lib v ''v'') (\<lambda>version. Option.bind (token_text lib v ''h'') (\<lambda>sha.
     map_option (\<lambda>n. \<lparr>mc_tenant = tenant, mc_plugin = plugin, mc_version = version, mc_sha = sha, mc_expires = n\<rparr>)
       (token_number v ''exp'')))))"

definition verify_mount_token :: "token_lib \<Rightarrow> string \<Rightarrow> int \<Rightarrow> mount_error + mount_claims" where
  "verify_mount_token lib token now =
     (case token_payload lib token [] of
        Inl (MountTokenError m) \<Rightarrow> Inl (MountTokenError m)
      | Inl _ \<Rightarrow> Inl (MountTokenError ''invalid mount token signature'')
      | Inr payload \<Rightarrow>
          (case Option.bind payload (read_claims lib) of
             None \<Rightarrow> Inl malformed_mount_token
           | Some claims \<Rightarrow>
               if mc_expires claims < now then Inl (MountTokenError ''mount token expired'')
               else if py_len (mc_sha claims) \<noteq> 64 then Inl (MountTokenError ''invalid artifact binding'')
               else Inr claims))"

text \<open>\<open>urllib.parse.quote\<close> of the bytes of a text, and the address of an asset.\<close>

definition hex_upper :: "nat \<Rightarrow> char" where
  "hex_upper n = ''0123456789ABCDEF'' ! n"

definition quote_text :: "string \<Rightarrow> string \<Rightarrow> string" where
  "quote_text safe s = concat (map (\<lambda>c.
     if is_alnum c \<or> c \<in> set ''_.-~'' \<or> c \<in> set safe then [c]
     else [CHR ''%'', hex_upper (byte_value c div 16), hex_upper (byte_value c mod 16)]) s)"

definition mount_url :: "string \<Rightarrow> string \<Rightarrow> string \<Rightarrow> string \<Rightarrow> string" where
  "mount_url token plugin version entry =
     ''/api/v1/plugin-marketplace/assets/'' @ quote_text ''.'' token @ ''/'' @ quote_text ''.'' plugin @ ''/'' @
     quote_text ''.-'' version @ ''/'' @ str_join ''/'' (map (quote_text []) (str_split CHR ''/'' (web_entry entry)))"

section \<open>Sessions\<close>

definition timestamp_contract :: "mount_session \<Rightarrow> bool" where
  "timestamp_contract x \<longleftrightarrow> tz_aware (ms_authenticated x) \<and> tz_aware (ms_created x) \<and> tz_aware (ms_expires x) \<and>
     opt_ok tz_aware (ms_revoked x) \<and> instant (ms_created x) < instant (ms_expires x)"

definition catalog_id_ok :: "string \<Rightarrow> bool" where
  "catalog_id_ok s \<longleftrightarrow> str_prefix ''rel_'' s \<and> length s = 36 \<and> list_all is_hex (drop 4 s)"

definition mount_session_ok :: "mount_session \<Rightarrow> bool" where
  "mount_session_ok x \<longleftrightarrow> list_all identity_ok [ms_id x, ms_user x, ms_tenant x, ms_installation x, ms_plugin x] \<and>
     length_between 1 128 (ms_version x) \<and> sha256_text (ms_sha x) \<and> catalog_id_ok (ms_catalog x) \<and>
     1 \<le> ms_revision x \<and> sha256_text (ms_token_hash x) \<and> timestamp_contract x"

record 's mount_store =
  mst_save :: "'s \<Rightarrow> mount_session \<Rightarrow> mount_error + 's"
  mst_by_id :: "'s \<Rightarrow> timestamp \<Rightarrow> string \<Rightarrow> mount_error + mount_session"
  mst_by_hash :: "'s \<Rightarrow> timestamp \<Rightarrow> string \<Rightarrow> mount_error + mount_session"

subsection \<open>In memory\<close>

record mount_session_memory =
  mm_sessions :: "(string \<times> mount_session) list"
  mm_tokens :: "(string \<times> string) list"
  mm_revisions :: "(string \<times> int) list"

definition mm_save :: "mount_session_memory \<Rightarrow> mount_session \<Rightarrow> mount_error + mount_session_memory" where
  "mm_save s x =
     (if map_of (mm_sessions s) (ms_id x) \<noteq> None \<or> map_of (mm_tokens s) (ms_token_hash x) \<noteq> None
      then Inl (MountSessionError ''mount_session_exists'')
      else Inr (s\<lparr>mm_sessions := AList.update (ms_id x) x (mm_sessions s),
             mm_tokens := AList.update (ms_token_hash x) (ms_id x) (mm_tokens s),
             mm_revisions := (if map_of (mm_revisions s) (ms_installation x) \<noteq> None then mm_revisions s
               else AList.update (ms_installation x) (ms_revision x) (mm_revisions s))\<rparr>))"

definition mm_assert_live ::
  "mount_session_memory \<Rightarrow> timestamp \<Rightarrow> mount_session option \<Rightarrow> mount_error + mount_session" where
  "mm_assert_live s now found =
     (case found of
        None \<Rightarrow> Inl (MountSessionError ''mount session invalid'')
      | Some x \<Rightarrow>
          if ms_revoked x \<noteq> None then Inl (MountSessionError ''mount session revoked'')
          else if instant (ms_expires x) \<le> instant now then Inl (MountSessionError ''mount session expired'')
          else if map_of (mm_revisions s) (ms_installation x) \<noteq> Some (ms_revision x)
          then Inl (MountSessionError ''mount session revoked by installation change'')
          else Inr x)"

definition mm_by_id :: "mount_session_memory \<Rightarrow> timestamp \<Rightarrow> string \<Rightarrow> mount_error + mount_session" where
  "mm_by_id s now i = mm_assert_live s now (map_of (mm_sessions s) i)"

definition mm_by_hash :: "mount_session_memory \<Rightarrow> timestamp \<Rightarrow> string \<Rightarrow> mount_error + mount_session" where
  "mm_by_hash s now h = mm_assert_live s now
     (map_of (mm_sessions s) (case map_of (mm_tokens s) h of None \<Rightarrow> [] | Some i \<Rightarrow> i))"

definition mm_revoke_installation :: "mount_session_memory \<Rightarrow> string \<Rightarrow> int \<Rightarrow> mount_session_memory" where
  "mm_revoke_installation s i revision = s\<lparr>mm_revisions := AList.update i revision (mm_revisions s)\<rparr>"

definition mm_snapshot :: "mount_session_memory \<Rightarrow> mount_session list" where
  "mm_snapshot s = sort_key ms_id (map snd (mm_sessions s))"

definition memory_mounts :: "mount_session_memory mount_store" where
  "memory_mounts = \<lparr>mst_save = mm_save, mst_by_id = mm_by_id, mst_by_hash = mm_by_hash\<rparr>"

subsection \<open>In the plugin tables\<close>

definition to_columns :: "mount_session \<Rightarrow> mount_session" where
  "to_columns x = x\<lparr>ms_authenticated := to_column (ms_authenticated x), ms_created := to_column (ms_created x),
     ms_expires := to_column (ms_expires x), ms_revoked := map_option to_column (ms_revoked x)\<rparr>"

definition session_of_columns :: "mount_session \<Rightarrow> mount_session" where
  "session_of_columns x = x\<lparr>ms_authenticated := as_utc (ms_authenticated x), ms_created := as_utc (ms_created x),
     ms_expires := as_utc (ms_expires x), ms_revoked := map_option as_utc (ms_revoked x)\<rparr>"

definition sq_save :: "plugin_db \<Rightarrow> mount_session \<Rightarrow> mount_error + plugin_db" where
  "sq_save db x =
     (if list_ex (\<lambda>m. ms_id (mr_session m) = ms_id x \<or> ms_token_hash (mr_session m) = ms_token_hash x) (pd_mounts db)
      then Inl (MountRaised (OtherError ''IntegrityError''))
      else Inr (db\<lparr>pd_mounts := pd_mounts db @ [\<lparr>mr_session = to_columns x, mr_active = True\<rparr>]\<rparr>))"

text \<open>The join of a session with its installation and release, and its conditions.\<close>

definition session_joins :: "plugin_env \<Rightarrow> mount_session \<Rightarrow> installation \<Rightarrow> plugin_release \<Rightarrow> bool" where
  "session_joins e x i r \<longleftrightarrow> install_at e (ms_tenant x) (ms_plugin x) i \<and>
     (case in_id i of None \<Rightarrow> False | Some d \<Rightarrow> same e (ms_installation x) d) \<and>
     release_at e (ms_plugin x) (ms_version x) r \<and>
     in_mount_revision i = ms_revision x \<and> mount_live (in_state i) \<and> same e (ms_version x) (in_version i) \<and>
     pr_status r = ReleasePublished \<and> same e (ms_sha x) (pr_sha r)"

definition session_live :: "plugin_env \<Rightarrow> plugin_db \<Rightarrow> timestamp \<Rightarrow> mount_row \<Rightarrow> bool" where
  "session_live e db now m \<longleftrightarrow> mr_active m \<and> ms_revoked (mr_session m) = None \<and>
     instant now < instant (ms_expires (mr_session m)) \<and>
     list_ex (\<lambda>i. list_ex (session_joins e (mr_session m) i) (pd_releases db)) (pd_installs db)"

definition sq_select_live ::
  "plugin_env \<Rightarrow> plugin_db \<Rightarrow> timestamp \<Rightarrow> (mount_session \<Rightarrow> bool) \<Rightarrow> mount_error + mount_session" where
  "sq_select_live e db now hit =
     (case List.find (\<lambda>m. hit (mr_session m) \<and> session_live e db now m) (pd_mounts db) of
        None \<Rightarrow> Inl (MountSessionError ''mount session invalid, expired, or revoked'')
      | Some m \<Rightarrow>
          if mount_session_ok (session_of_columns (mr_session m)) then Inr (session_of_columns (mr_session m))
          else Inl (MountRaised (ValueError ''PluginMountSession'')))"

definition sql_mounts :: "plugin_env \<Rightarrow> plugin_db mount_store" where
  "sql_mounts e = \<lparr>mst_save = sq_save, mst_by_id = (\<lambda>db now i. sq_select_live e db now (\<lambda>x. ms_id x = i)),
     mst_by_hash = (\<lambda>db now h. sq_select_live e db now (\<lambda>x. ms_token_hash x = h))\<rparr>"

section \<open>The service\<close>

record mount_request =
  mq_user :: string
  mq_tenant :: string
  mq_installation :: string
  mq_plugin :: string
  mq_version :: string
  mq_sha :: string
  mq_catalog :: string
  mq_grants :: "string list"
  mq_resources :: "string list"
  mq_data :: "string list"
  mq_revision :: int
  mq_authenticated :: timestamp
  mq_ttl :: int

definition issued_session :: "mount_request \<Rightarrow> string \<Rightarrow> string \<Rightarrow> timestamp \<Rightarrow> mount_session" where
  "issued_session q i token_hash now =
     \<lparr>ms_id = i, ms_user = mq_user q, ms_tenant = mq_tenant q, ms_installation = mq_installation q,
      ms_plugin = mq_plugin q, ms_version = mq_version q, ms_sha = mq_sha q, ms_catalog = mq_catalog q,
      ms_grants = sorted_strs (mq_grants q), ms_resources = sorted_strs (mq_resources q),
      ms_data = sorted_strs (mq_data q), ms_revision = mq_revision q, ms_token_hash = token_hash,
      ms_authenticated = mq_authenticated q, ms_created = now, ms_expires = Aware (instant now + mq_ttl q),
      ms_revoked = None\<rparr>"

text \<open>Times to live are microseconds, between 30 seconds and 24 hours.\<close>

definition issue_mount ::
  "token_lib \<Rightarrow> 's mount_store \<Rightarrow> 's \<Rightarrow> mount_request \<Rightarrow> string \<Rightarrow> string \<Rightarrow> timestamp \<Rightarrow>
   mount_error + (mount_session \<times> string) \<times> 's" where
  "issue_mount lib st s q fresh nonce now =
     (if mq_ttl q < 30 * 1000000 \<or> 24 * 3600 * 1000000 < mq_ttl q
      then Inl (MountSessionError ''invalid mount session ttl'')
      else
        (let i = ''mount_'' @ fresh in
         bindr (issue_asset_token lib i (Aware (instant now + mq_ttl q)) nonce) (\<lambda>token.
           let x = issued_session q i (sha256_hex (tk_host lib) token) now in
           if \<not> mount_session_ok x then Inl (MountRaised (ValueError ''PluginMountSession''))
           else bindr (mst_save st s x) (\<lambda>s'. Inr ((x, token), s')))))"

definition resolve_for_user ::
  "'s mount_store \<Rightarrow> 's \<Rightarrow> timestamp \<Rightarrow> string \<Rightarrow> string \<Rightarrow> string \<Rightarrow> mount_error + mount_session" where
  "resolve_for_user st s now i user tenant =
     bindr (mst_by_id st s now i) (\<lambda>x.
       if ms_user x \<noteq> user then Inl (MountSessionError ''mount session user mismatch'')
       else if ms_tenant x \<noteq> tenant then Inl (MountSessionError ''mount session tenant mismatch'')
       else Inr x)"

text \<open>The claims of an asset are a session seen through its identifier, tenant, plugin, version and digest.\<close>

record asset_claims =
  as_session :: string
  as_tenant :: string
  as_plugin :: string
  as_version :: string
  as_sha :: string
  as_expires :: timestamp

definition claims_of :: "mount_session \<Rightarrow> asset_claims" where
  "claims_of x = \<lparr>as_session = ms_id x, as_tenant = ms_tenant x, as_plugin = ms_plugin x,
     as_version = ms_version x, as_sha = ms_sha x, as_expires = ms_expires x\<rparr>"

definition resolve_asset_token ::
  "token_lib \<Rightarrow> 's mount_store \<Rightarrow> 's \<Rightarrow> timestamp \<Rightarrow> string \<Rightarrow> (string \<times> string option) option \<Rightarrow>
   mount_error + asset_claims" where
  "resolve_asset_token lib st s now token expected =
     bindr (verify_asset_token lib token) (\<lambda>(i, expiry).
       if instant expiry \<le> instant now then Inl (MountSessionError ''mount asset token expired'')
       else bindr (mst_by_hash st s now (sha256_hex (tk_host lib) token)) (\<lambda>x.
         if ms_id x \<noteq> i then Inl (MountSessionError ''mount asset token binding mismatch'')
         else (case expected of
             None \<Rightarrow> Inr (claims_of x)
           | Some (plugin, version) \<Rightarrow>
               if ms_plugin x \<noteq> plugin \<or> Some (ms_version x) \<noteq> version
               then Inl (MountSessionError ''mount asset route mismatch'') else Inr (claims_of x))))"

section \<open>The routes\<close>

text \<open>An asset is served when its token resolves and the installation still has the artifact.\<close>

definition plugin_asset ::
  "plugin_env \<Rightarrow> token_lib \<Rightarrow> plugin_db \<Rightarrow> timestamp \<Rightarrow> string \<Rightarrow> string \<Rightarrow> string \<Rightarrow> string \<Rightarrow> mount_error + string" where
  "plugin_asset e lib db now token plugin version path =
     bindr (resolve_asset_token lib (sql_mounts e) db now token (Some (plugin, Some version))) (\<lambda>claims.
       case resolve_asset_object_key e db (as_tenant claims) (as_plugin claims) (as_version claims) (as_sha claims) path of
         Inl (PluginRaised x) \<Rightarrow> Inl (MountRaised x)
       | Inl _ \<Rightarrow> Inl (MountRaised (OtherError ''PermissionError''))
       | Inr key \<Rightarrow> Inr key)"

end
