(* ===== verification/PluginProperties.thy ===== *)
theory PluginProperties
  imports PluginService
begin

text \<open>
  What the plugin control plane guarantees: the log of lifecycle events of an installation is a path of
  the state machine that ends in its state and counts both of its revisions; a live installation runs a
  release whose signature, manifest and grants were verified and that is still published; a rollback
  restores what an upgrade replaced. Every operation is first shown to be a sequence of logged changes.
\<close>

section \<open>Logged changes\<close>

lemma same_refl [simp]: "same e a a"
  by (simp add: same_def)

lemma same_sym: "same e a b \<longleftrightarrow> same e b a"
  by (auto simp: same_def)

definition install_key :: "plugin_env \<Rightarrow> installation \<Rightarrow> string \<times> string" where
  "install_key e i = (pe_norm e (in_tenant i), pe_norm e (in_plugin i))"

definition lifecycle_key :: "plugin_env \<Rightarrow> lifecycle_event \<Rightarrow> string \<times> string" where
  "lifecycle_key e v = (pe_norm e (le_tenant v), pe_norm e (le_plugin v))"

definition key_of :: "plugin_env \<Rightarrow> string \<Rightarrow> string \<Rightarrow> string \<times> string" where
  "key_of e tenant plugin = (pe_norm e tenant, pe_norm e plugin)"

lemma install_at_key: "install_at e tenant plugin i \<longleftrightarrow> install_key e i = key_of e tenant plugin"
  by (auto simp: install_at_def install_key_def key_of_def same_def)

definition install_events :: "plugin_env \<Rightarrow> plugin_db \<Rightarrow> string \<Rightarrow> string \<Rightarrow> lifecycle_event list" where
  "install_events e db tenant plugin = filter (\<lambda>v. lifecycle_key e v = key_of e tenant plugin) (pd_events db)"

fun allowed_step :: "plugin_state option \<Rightarrow> plugin_state \<Rightarrow> bool" where
  "allowed_step None t = (t = PluginDisabled)"
| "allowed_step (Some s) t = (t \<in> set (plugin_transitions s) \<or> s = PluginUninstalled \<and> t = PluginDisabled)"

text \<open>
  One logged change of the installations and the events: a new row, or a row rewritten by \<open>f\<close>. The
  rewritten row satisfies \<open>ok\<close>.
\<close>

type_synonym log_state = "installation list \<times> lifecycle_event list"

inductive logged :: "plugin_env \<Rightarrow> (installation \<Rightarrow> bool) \<Rightarrow> log_state \<Rightarrow> log_state \<Rightarrow> bool"
  for e ok where
  logged_new: "install_key e i \<notin> install_key e ` set xs \<Longrightarrow> in_state i = PluginDisabled \<Longrightarrow>
    in_revision i = 1 \<Longrightarrow> in_mount_revision i = 1 \<Longrightarrow> lifecycle_key e v = install_key e i \<Longrightarrow>
    le_from v = None \<Longrightarrow> le_to v = PluginDisabled \<Longrightarrow> logged e ok (xs, es) (xs @ [i], es @ [v])"
| logged_change: "i \<in> set xs \<Longrightarrow> install_key e i = k \<Longrightarrow> install_key e (f i) = k \<Longrightarrow> ok (f i) \<Longrightarrow>
    allowed_step (Some (in_state i)) (in_state (f i)) \<Longrightarrow> in_revision (f i) = in_revision i + 1 \<Longrightarrow>
    in_mount_revision (f i) = in_mount_revision i + 1 \<Longrightarrow> lifecycle_key e v = k \<Longrightarrow>
    le_from v = Some (in_state i) \<Longrightarrow> le_to v = in_state (f i) \<Longrightarrow>
    logged e ok (xs, es) (map (\<lambda>x. if install_key e x = k then f x else x) xs, es @ [v])"

fun trail :: "plugin_state option \<Rightarrow> lifecycle_event list \<Rightarrow> bool" where
  "trail s [] = True"
| "trail s (v # vs) = (le_from v = s \<and> allowed_step s (le_to v) \<and> trail (Some (le_to v)) vs)"

definition end_state :: "plugin_state option \<Rightarrow> lifecycle_event list \<Rightarrow> plugin_state option" where
  "end_state s vs = (if vs = [] then s else Some (le_to (last vs)))"

lemma trail_append:
  "trail s (vs @ [v]) \<longleftrightarrow> trail s vs \<and> le_from v = end_state s vs \<and> allowed_step (le_from v) (le_to v)"
  by (induction vs arbitrary: s) (auto simp: end_state_def)

definition events_of :: "plugin_env \<Rightarrow> string \<times> string \<Rightarrow> lifecycle_event list \<Rightarrow> lifecycle_event list" where
  "events_of e k es = filter (\<lambda>v. lifecycle_key e v = k) es"

definition row_logged :: "plugin_env \<Rightarrow> lifecycle_event list \<Rightarrow> installation \<Rightarrow> bool" where
  "row_logged e es i \<longleftrightarrow> end_state None (events_of e (install_key e i) es) = Some (in_state i) \<and>
     in_revision i = int (length (events_of e (install_key e i) es)) \<and>
     in_mount_revision i = int (length (events_of e (install_key e i) es))"

definition log_inv :: "plugin_env \<Rightarrow> log_state \<Rightarrow> bool" where
  "log_inv e s \<longleftrightarrow> distinct (map (install_key e) (fst s)) \<and> (\<forall>k. trail None (events_of e k (snd s))) \<and>
     list_all (row_logged e (snd s)) (fst s) \<and> lifecycle_key e ` set (snd s) \<subseteq> install_key e ` set (fst s)"

lemma events_of_append [simp]:
  "events_of e k (es @ [v]) = (if lifecycle_key e v = k then events_of e k es @ [v] else events_of e k es)"
  by (simp add: events_of_def)

lemma end_state_append [simp]: "end_state s (vs @ [v]) = Some (le_to v)"
  by (simp add: end_state_def)

lemma events_of_none: "k \<notin> lifecycle_key e ` set es \<Longrightarrow> events_of e k es = []"
  by (auto simp: events_of_def filter_empty_conv)

lemma logged_row_kept:
  assumes "row_logged e es i" and "lifecycle_key e v \<noteq> install_key e i"
  shows "row_logged e (es @ [v]) i"
  using assms by (simp add: row_logged_def)

lemma logged_inv:
  assumes "logged e ok s s'" and "log_inv e s"
  shows "log_inv e s'"
  using assms
proof (induction rule: logged.induct)
  case (logged_new i xs v es)
  then have none: "events_of e (install_key e i) es = []"
    by (intro events_of_none) (auto simp: log_inv_def)
  have rows: "row_logged e (es @ [v]) x" if "x \<in> set xs" for x
    using logged_new that by (intro logged_row_kept) (auto simp: log_inv_def list_all_iff)
  note inv = logged_new.prems [unfolded log_inv_def fst_conv snd_conv]
  have "row_logged e (es @ [v]) i"
    using logged_new.hyps none by (simp add: row_logged_def end_state_def)
  then have "list_all (row_logged e (es @ [v])) (xs @ [i])"
    using rows by (simp add: list_all_iff)
  moreover have "trail None (events_of e k es)" for k using inv by blast
  then have "trail None (events_of e k (es @ [v]))" for k
    using none logged_new.hyps by (cases "k = install_key e i") simp_all
  moreover have "distinct (map (install_key e) (xs @ [i]))"
    using inv logged_new.hyps by simp
  moreover have "lifecycle_key e ` set (es @ [v]) \<subseteq> install_key e ` set (xs @ [i])"
    using inv logged_new.hyps(5) by auto
  ultimately show ?case unfolding log_inv_def fst_conv snd_conv by blast
next
  case (logged_change i xs k f v es)
  note inv = logged_change.prems [unfolded log_inv_def fst_conv snd_conv]
  note hyps = logged_change.hyps
  have logged: "row_logged e es x" if "x \<in> set xs" for x
    using inv that by (simp add: list_all_iff)
  have only: "x = i" if "x \<in> set xs" "install_key e x = k" for x
    using inv that hyps(1,2) by (simp add: distinct_map inj_on_def)
  let ?g = "\<lambda>x. if install_key e x = k then f x else x"
  have "install_key e (?g x) = install_key e x" if "x \<in> set xs" for x
    using only [OF that] hyps(2,3) by auto
  then have keys: "map (install_key e) (map ?g xs) = map (install_key e) xs"
    unfolding map_map comp_def by (intro map_cong refl)
  have "row_logged e (es @ [v]) (f i)"
    using logged [OF hyps(1)] hyps(2,3,6-10) by (simp add: row_logged_def)
  moreover have "row_logged e (es @ [v]) x" if "x \<in> set xs" "install_key e x \<noteq> k" for x
    using logged [OF that(1)] hyps(8) that(2) by (intro logged_row_kept) auto
  ultimately have rows: "list_all (row_logged e (es @ [v])) (map ?g xs)"
    unfolding list_all_iff set_map using only by (auto split: if_splits)
  have old: "trail None (events_of e k' es)" for k' using inv by blast
  have "end_state None (events_of e k es) = Some (in_state i)"
    using logged [OF hyps(1)] hyps(2) by (simp add: row_logged_def)
  then have trails: "trail None (events_of e k' (es @ [v]))" for k'
    using old hyps(5,8-10) by (cases "k' = k") (simp_all add: trail_append)
  have "install_key e ` set (map ?g xs) = install_key e ` set xs"
    using arg_cong [OF keys, of set] by (simp only: set_map)
  moreover have "lifecycle_key e ` set (es @ [v]) \<subseteq> install_key e ` set xs"
    using inv hyps(1,2,8) by auto
  ultimately have "lifecycle_key e ` set (es @ [v]) \<subseteq> install_key e ` set (map ?g xs)" by (simp only:)
  moreover have "distinct (map (install_key e) (map ?g xs))" unfolding keys using inv by blast
  ultimately show ?case
    unfolding log_inv_def fst_conv snd_conv using rows trails by blast
qed

section \<open>Every call is a sequence of logged changes\<close>

definition log_of :: "plugin_db \<Rightarrow> log_state" where
  "log_of db = (pd_installs db, pd_events db)"

lemma find_install_Some:
  assumes "find_install e db tenant plugin = Some i"
  shows "i \<in> set (pd_installs db)" and "install_key e i = key_of e tenant plugin"
  using assms by (auto simp: find_install_def find_Some_iff install_at_key)

lemma find_install_None:
  "find_install e db tenant plugin = None \<longleftrightarrow> key_of e tenant plugin \<notin> install_key e ` set (pd_installs db)"
  unfolding find_install_def find_None_iff install_at_key by (metis imageE imageI)

lemma find_install_cong:
  assumes "key_of e a b = key_of e c d"
  shows "find_install e db a b = find_install e db c d"
proof -
  have "install_at e a b = install_at e c d" by (rule ext) (simp add: install_at_key assms)
  then show ?thesis by (simp add: find_install_def)
qed

lemma update_install_fields [simp]:
  "pd_installs (update_install e tenant plugin f db) =
     map (\<lambda>x. if install_key e x = key_of e tenant plugin then f x else x) (pd_installs db)"
  "pd_events (update_install e tenant plugin f db) = pd_events db"
  "pd_releases (update_install e tenant plugin f db) = pd_releases db"
  "pd_mounts (update_install e tenant plugin f db) = pd_mounts db"
  by (simp_all add: update_install_def install_at_key)

lemma record_event_fields [simp]:
  "pd_installs (record_event tenant plugin old new version actor detail db) = pd_installs db"
  "pd_releases (record_event tenant plugin old new version actor detail db) = pd_releases db"
  "pd_mounts (record_event tenant plugin old new version actor detail db) = pd_mounts db"
  by (simp_all add: record_event_def)

lemma update_release_fields [simp]:
  "log_of (update_release e plugin version f db) = log_of db"
  "pd_mounts (update_release e plugin version f db) = pd_mounts db"
  by (simp_all add: update_release_def log_of_def)

lemma bump_fields [simp]:
  "in_state (bump i) = in_state i" "install_key e (bump i) = install_key e i"
  "in_revision (bump i) = in_revision i + 1" "in_mount_revision (bump i) = in_mount_revision i + 1"
  "in_version (bump i) = in_version i" "in_plugin (bump i) = in_plugin i" "in_granted (bump i) = in_granted i"
  by (simp_all add: bump_def install_key_def)

text \<open>The shape all changes of a stored row have.\<close>

lemma logged_update:
  assumes "find_install e db tenant plugin = Some i"
    and "key_of e tenant' plugin' = key_of e tenant plugin" "install_key e (f i) = install_key e i" and "ok (f i)"
    and "allowed_step (Some (in_state i)) new" and "in_state (f i) = new"
    and "in_revision (f i) = in_revision i + 1" and "in_mount_revision (f i) = in_mount_revision i + 1"
    and "pd_installs db' = pd_installs db" and "pd_events db' = pd_events db"
  shows "logged e ok (log_of db) (log_of (record_event tenant' plugin' (Some (in_state i)) new version actor detail
    (update_install e tenant plugin f db')))"
proof -
  note i = find_install_Some [OF assms(1)]
  let ?v = "\<lparr>le_tenant = tenant', le_plugin = plugin', le_from = Some (in_state i), le_to = new,
    le_version = version, le_actor = actor, le_detail = detail\<rparr>"
  have "lifecycle_key e ?v = key_of e tenant plugin"
    using assms(2) by (simp add: lifecycle_key_def key_of_def)
  then have "logged e ok (pd_installs db, pd_events db)
      (map (\<lambda>x. if install_key e x = key_of e tenant plugin then f x else x) (pd_installs db), pd_events db @ [?v])"
    using i assms by (intro logged_change) auto
  then show ?thesis using assms(9,10) by (simp add: log_of_def record_event_def update_install_def install_at_key)
qed

lemma logged_insert:
  assumes "find_install e db tenant plugin = None" and "install_key e i = key_of e tenant plugin"
    and "in_state i = PluginDisabled" and "in_revision i = 1" and "in_mount_revision i = 1"
    and "pd_installs db' = pd_installs db @ [i]" and "pd_events db' = pd_events db"
  shows "logged e ok (log_of db)
    (log_of (record_event tenant plugin None PluginDisabled version actor detail db'))"
proof -
  let ?v = "\<lparr>le_tenant = tenant, le_plugin = plugin, le_from = None, le_to = PluginDisabled,
    le_version = version, le_actor = actor, le_detail = detail\<rparr>"
  have "logged e ok (pd_installs db, pd_events db) (pd_installs db @ [i], pd_events db @ [?v])"
    using assms(1-5) by (intro logged_new) (simp_all add: find_install_None lifecycle_key_def key_of_def)
  then show ?thesis using assms(6,7) by (simp add: log_of_def record_event_def)
qed

abbreviation logged_many :: "plugin_env \<Rightarrow> (installation \<Rightarrow> bool) \<Rightarrow> log_state \<Rightarrow> log_state \<Rightarrow> bool" where
  "logged_many e ok \<equiv> (logged e ok)\<^sup>*\<^sup>*"

lemma logged_many_inv: "logged_many e ok s s' \<Longrightarrow> log_inv e s \<Longrightarrow> log_inv e s'"
  by (induction rule: rtranclp_induct) (auto intro: logged_inv)

lemma log_inv_row:
  assumes "log_inv e (log_of db)" and "find_install e db tenant plugin = Some i"
  shows "1 \<le> in_revision i" and "1 \<le> in_mount_revision i"
proof -
  have "row_logged e (pd_events db) i"
    using assms find_install_Some by (auto simp: log_inv_def log_of_def list_all_iff)
  then show "1 \<le> in_revision i" "1 \<le> in_mount_revision i"
    by (auto simp: row_logged_def end_state_def Suc_leI split: if_splits)
qed

text \<open>A live row is backed by a release: published, and its content and the grants verified.\<close>

definition release_verified :: "plugin_env \<Rightarrow> plugin_release \<Rightarrow> string list \<Rightarrow> bool" where
  "release_verified e r grants \<longleftrightarrow> (\<exists>signature m. signed_by r = Some signature \<and>
     verified_content e (pr_manifest r) (pr_sha r) signature = Inr m \<and> sort grants = sort (pm_permissions m))"

definition release_backs :: "plugin_env \<Rightarrow> plugin_release list \<Rightarrow> installation \<Rightarrow> bool" where
  "release_backs e rs i \<longleftrightarrow> (\<exists>r\<in>set rs. release_at e (in_plugin i) (in_version i) r \<and>
     pr_status r = ReleasePublished \<and> release_verified e r (in_granted i))"

definition row_backed :: "plugin_env \<Rightarrow> plugin_release list \<Rightarrow> installation \<Rightarrow> bool" where
  "row_backed e rs i \<longleftrightarrow> (mount_live (in_state i) \<longrightarrow> release_backs e rs i)"

lemma usable_releaseD:
  assumes "usable_release e db plugin version = Inr r"
  shows "r \<in> set (pd_releases db)" and "release_at e plugin version r" and "pr_status r = ReleasePublished"
proof -
  have found: "find_release e db plugin version = Some r" and status: "pr_status r = ReleasePublished"
    using assms by (auto simp: usable_release_def bindr_eq_Inr split: option.splits if_splits)
  then show "r \<in> set (pd_releases db)" "release_at e plugin version r"
    by (auto simp: find_release_def find_Some_iff)
  from status show "pr_status r = ReleasePublished" .
qed

lemma verified_releaseD:
  assumes "verified_release e db (Some r) sha grants tenant = Inr u"
  shows "release_verified e r grants" and "pr_status r = ReleasePublished"
  using assms by (auto simp: verified_release_def release_verified_def close_errors_def bindr_eq_Inr
      split: option.splits if_splits sum.splits)

lemma verified_backs:
  assumes "usable_release e db plugin version = Inr r"
    and "verify_transition_release e db r tenant grants = Inr u"
    and "same e (in_plugin i) plugin" and "in_version i = version" and "in_granted i = grants"
  shows "release_backs e (pd_releases db) i"
  using usable_releaseD [OF assms(1)] verified_releaseD assms(2-5)
  by (auto simp: release_backs_def verify_transition_release_def release_at_def same_def)

lemma data_policy_fields:
  assumes "apply_uninstall_data_policy e db tenant plugin version = Inr (done', db')"
  shows "pd_installs db' = pd_installs db" "pd_events db' = pd_events db" "pd_releases db' = pd_releases db"
    and "pd_mounts db' = pd_mounts db"
  using assms by (auto simp: apply_uninstall_data_policy_def Let_def delete_plugin_data_def split: if_splits)

lemma key_fields [simp]:
  "install_key e (i\<lparr>in_state := s\<rparr>) = install_key e i"
  "install_key e (i\<lparr>in_version := v\<rparr>) = install_key e i"
  "install_key e (i\<lparr>in_previous := p\<rparr>) = install_key e i"
  "install_key e (i\<lparr>in_granted := g\<rparr>) = install_key e i"
  "install_key e (i\<lparr>in_previous_granted := pg\<rparr>) = install_key e i"
  "install_key e (i\<lparr>in_installed_by := b\<rparr>) = install_key e i"
  "install_key e (i\<lparr>in_error := x\<rparr>) = install_key e i"
  "install_key e (i\<lparr>in_id := d\<rparr>) = install_key e i"
  by (simp_all add: install_key_def)

lemma require_transition_Inr [simp]:
  "require_transition s t = Inr u \<longleftrightarrow> t \<in> set (plugin_transitions s)"
  by (simp add: require_transition_def)

lemma key_same: "install_key e i = key_of e tenant plugin \<Longrightarrow> same e (in_plugin i) plugin"
  by (simp add: install_key_def key_of_def same_def)

lemma transition_logged:
  assumes "transition_plugin e db tenant plugin actor target = Inr db'" and "target \<noteq> PluginRolledBack"
  shows "logged e (row_backed e (pd_releases db)) (log_of db) (log_of db')" and "pd_releases db' = pd_releases db"
    and "pd_mounts db' = pd_mounts db"
proof -
  obtain i detail db1 where i: "find_install e db tenant plugin = Some i"
    and step: "target \<in> set (plugin_transitions (in_state i))"
    and verified: "target = PluginEnabled \<Longrightarrow> release_backs e (pd_releases db) i"
    and db1: "pd_installs db1 = pd_installs db" "pd_events db1 = pd_events db" "pd_releases db1 = pd_releases db"
      "pd_mounts db1 = pd_mounts db"
    and db': "db' = record_event tenant plugin (Some (in_state i)) target (in_version i) actor detail
      (update_install e tenant plugin (\<lambda>x. bump (x\<lparr>in_state := target\<rparr>)) db1)"
  proof -
    from assms(1) obtain i where i: "find_install e db tenant plugin = Some i"
      by (auto simp: transition_plugin_def split: option.splits)
    have backs: "release_backs e (pd_releases db) i"
      if "usable_release e db plugin (in_version i) = Inr r"
        "verify_transition_release e db r tenant (in_granted i) = Inr u" for r u
      by (rule verified_backs [OF that]) (auto intro: key_same find_install_Some(2) [OF i])
    from assms(1) i show thesis
      by (cases "target = PluginUninstalled"; cases "target = PluginEnabled")
        (auto simp: transition_plugin_def bindr_eq_Inr intro: that [OF i] backs dest: data_policy_fields)
  qed
  have "row_backed e (pd_releases db) (bump (i\<lparr>in_state := target\<rparr>))"
    using verified assms(2) by (auto simp: row_backed_def mount_live_def release_backs_def)
  then show "logged e (row_backed e (pd_releases db)) (log_of db) (log_of db')"
    unfolding db' using i step db1 by (intro logged_update) auto
  show "pd_releases db' = pd_releases db" "pd_mounts db' = pd_mounts db"
    using db' db1 by simp_all
qed

lemma upgrade_logged:
  assumes "upgrade_plugin e db tenant plugin version grants actor = Inr db'"
  shows "logged e (row_backed e (pd_releases db)) (log_of db) (log_of db')" and "pd_releases db' = pd_releases db"
    and "pd_mounts db' = pd_mounts db"
proof -
  obtain i where i: "find_install e db tenant plugin = Some i"
    using assms by (auto simp: upgrade_plugin_def bindr_eq_Inr split: option.splits)
  from assms i obtain consented result where step: "PluginUpgrading \<in> set (plugin_transitions (in_state i))"
    and db': "db' = record_event tenant plugin (Some (in_state i)) PluginUpgrading version actor
      (JObj [(''previous_version'', JStr (in_version i))])
      (update_install e tenant plugin (upgraded result consented) db)"
    by (clarsimp simp: upgrade_plugin_def bindr_eq_Inr)
  show "logged e (row_backed e (pd_releases db)) (log_of db) (log_of db')"
    unfolding db' using i step by (intro logged_update) (auto simp: upgraded_def row_backed_def mount_live_def)
  show "pd_releases db' = pd_releases db" "pd_mounts db' = pd_mounts db" using db' by simp_all
qed

lemma rollback_logged:
  assumes "rollback_plugin e db tenant plugin actor = Inr db'"
  shows "logged e (row_backed e (pd_releases db)) (log_of db) (log_of db')" and "pd_releases db' = pd_releases db"
    and "pd_mounts db' = pd_mounts db"
proof -
  obtain i where i: "find_install e db tenant plugin = Some i"
    using assms by (auto simp: rollback_plugin_def split: option.splits)
  from assms i obtain result r u where step: "PluginRolledBack \<in> set (plugin_transitions (in_state i))"
    and usable: "usable_release e db plugin (ur_current result) = Inr r"
    and verified: "verify_transition_release e db r tenant (previous_grants i) = Inr u"
    and db': "db' = record_event tenant plugin (Some (in_state i)) PluginRolledBack (ur_current result) actor
      (JObj [(''rolled_back_from'', JStr (in_version i))])
      (update_install e tenant plugin (rolled_back result i) db)"
    by (clarsimp simp: rollback_plugin_def bindr_eq_Inr Let_def)
  have "release_backs e (pd_releases db) (rolled_back result i i)"
    using key_same [OF find_install_Some(2) [OF i]]
    by (intro verified_backs [OF usable verified]) (auto simp: rolled_back_def)
  then have "row_backed e (pd_releases db) (rolled_back result i i)" by (simp add: row_backed_def)
  then show "logged e (row_backed e (pd_releases db)) (log_of db) (log_of db')"
    unfolding db' using i step by (intro logged_update) (auto simp: rolled_back_def)
  show "pd_releases db' = pd_releases db" "pd_mounts db' = pd_mounts db" using db' by simp_all
qed

lemma install_logged:
  assumes "install_plugin e db tenant plugin version grants actor fresh = Inr db'"
  shows "logged e (row_backed e (pd_releases db)) (log_of db) (log_of db')" and "pd_releases db' = pd_releases db"
    and "pd_mounts db' = pd_mounts db"
proof -
  obtain r consented where db': "db' = record_event tenant plugin
      (if find_install e db tenant plugin \<noteq> None then Some PluginUninstalled else None) PluginDisabled version actor
      (JObj [(''action'', JStr (if find_install e db tenant plugin \<noteq> None then ''reinstall'' else ''install''))])
      (if find_install e db tenant plugin \<noteq> None
       then update_install e tenant plugin (reinstalled version consented actor fresh) db
       else db\<lparr>pd_installs := pd_installs db @ [new_installation tenant plugin version consented actor fresh]\<rparr>)"
    and old: "\<And>i. find_install e db tenant plugin = Some i \<Longrightarrow> in_state i = PluginUninstalled"
    using assms by (auto simp: install_plugin_def bindr_eq_Inr Let_def split: if_splits)
  show "logged e (row_backed e (pd_releases db)) (log_of db) (log_of db')"
  proof (cases "find_install e db tenant plugin")
    case None
    then show ?thesis
      unfolding db' by (simp add: new_installation_def install_key_def key_of_def
          logged_insert [where i = "new_installation tenant plugin version consented actor fresh"])
  next
    case (Some i)
    have "logged e (row_backed e (pd_releases db)) (log_of db)
        (log_of (record_event tenant plugin (Some (in_state i)) PluginDisabled version actor
          (JObj [(''action'', JStr ''reinstall'')])
          (update_install e tenant plugin (reinstalled version consented actor fresh) db)))"
      using Some old [OF Some]
      by (intro logged_update) (auto simp: reinstalled_def row_backed_def mount_live_def)
    then show ?thesis using db' Some old [OF Some] by simp
  qed
  show "pd_releases db' = pd_releases db" "pd_mounts db' = pd_mounts db" using db' by auto
qed

text \<open>Claiming and completing a command touch neither the installations nor the log.\<close>

lemma claim_fields:
  assumes "claim_command e db tenant actor operation key sha = Inr (replay, db')"
  shows "log_of db' = log_of db" "pd_releases db' = pd_releases db" "pd_mounts db' = pd_mounts db"
  using assms by (auto simp: claim_command_def log_of_def split: option.splits if_splits)

lemma complete_fields [simp]:
  "pd_installs (complete_command e tenant actor operation key sha result db) = pd_installs db"
  "pd_events (complete_command e tenant actor operation key sha result db) = pd_events db"
  "pd_releases (complete_command e tenant actor operation key sha result db) = pd_releases db"
  "pd_mounts (complete_command e tenant actor operation key sha result db) = pd_mounts db"
  by (simp_all add: complete_command_def)

lemma save_fields [simp]:
  "pd_events (save_installation e r db) = pd_events db"
  "pd_releases (save_installation e r db) = pd_releases db"
  "pd_mounts (save_installation e r db) = pd_mounts db"
  by (simp_all add: save_installation_def)

lemma revoke_mounts_fields [simp]:
  "pd_installs (revoke_mounts tenant plugin i now db) = pd_installs db"
  "pd_events (revoke_mounts tenant plugin i now db) = pd_events db"
  "pd_releases (revoke_mounts tenant plugin i now db) = pd_releases db"
  by (simp_all add: revoke_mounts_def)

text \<open>The result of saving a row over the installation it was read from, and of saving a new one.\<close>

lemma saved_logged:
  assumes "find_install e db tenant plugin = Some i" and "key_of e (sr_tenant r) (sr_plugin r) = key_of e tenant plugin"
    and "allowed_step (Some (in_state i)) (sr_state r)" and "\<not> mount_live (sr_state r)"
    and "sr_revision r = in_revision i + 1" and "sr_mount_revision r = in_mount_revision i + 1"
    and "key_of e tenant' plugin' = key_of e tenant plugin"
    and "pd_installs db1 = pd_installs db" "pd_events db1 = pd_events db"
    and "pd_installs db' = pd_installs (save_installation e r db1)" "pd_events db' = pd_events db"
  shows "logged e (row_backed e rs) (log_of db)
    (log_of (record_event tenant' plugin' (Some (in_state i)) (sr_state r) version actor detail db'))"
proof -
  have find: "find_install e db1 (sr_tenant r) (sr_plugin r) = Some i"
    using assms(1,8) find_install_cong [OF assms(2), of db1] by (simp add: find_install_def)
  have "pd_installs db' = pd_installs (update_install e tenant plugin (save_over r) db1)"
    using assms(10) find assms(2) by (simp add: save_installation_def)
  moreover have "logged e (row_backed e rs) (log_of db)
      (log_of (record_event tenant' plugin' (Some (in_state i)) (sr_state r) version actor detail
        (update_install e tenant plugin (save_over r) db1)))"
    using assms by (intro logged_update) (auto simp: save_over_def row_backed_def install_key_def)
  ultimately show ?thesis using assms(9,11) by (simp add: log_of_def record_event_def)
qed

lemma or_one_pos [simp]: "1 \<le> n \<Longrightarrow> or_one n = n"
  by (simp add: or_one_def)

lemma store_install_logged:
  assumes "find_install e db tenant (ic_plugin c) = None \<or>
      (\<exists>i. find_install e db tenant (ic_plugin c) = Some i \<and> in_state i = PluginUninstalled)"
    and inv: "log_inv e (log_of db)" and result: "store_install e db c who tenant sha fresh = (result, db')"
  shows "logged e (row_backed e rs) (log_of db) (log_of db')" and "pd_releases db' = pd_releases db"
    and "pd_mounts db' = pd_mounts db"
proof -
  let ?found = "find_install e db tenant (ic_plugin c)"
  let ?row = "requested_row c tenant who fresh ?found"
  let ?saved = "complete_command e tenant who ''request.create'' (ic_key c) sha (row_result ?row)
    (save_installation e ?row db)"
  obtain detail where db': "db' = record_event tenant (ic_plugin c) (map_option in_state ?found) PluginDisabled
      (ic_version c) who detail ?saved"
    using result by (auto simp: store_install_def Let_def)
  then show "pd_releases db' = pd_releases db" "pd_mounts db' = pd_mounts db" by simp_all
  show "logged e (row_backed e rs) (log_of db) (log_of db')"
  proof (cases ?found)
    case None
    then obtain i where "pd_installs ?saved = pd_installs db @ [i]" and "in_tenant i = tenant"
      and "in_plugin i = ic_plugin c" and "in_state i = PluginDisabled" and "in_revision i = 1"
      and "in_mount_revision i = 1"
      by (auto simp: save_installation_def requested_row_def)
    then have "logged e (row_backed e rs) (log_of db)
        (log_of (record_event tenant (ic_plugin c) None PluginDisabled (ic_version c) who detail ?saved))"
      by (intro logged_insert [OF None]) (simp_all add: install_key_def key_of_def)
    then show ?thesis unfolding db' by (simp add: None)
  next
    case (Some i)
    then have old: "in_state i = PluginUninstalled" using assms(1) by auto
    have "logged e (row_backed e rs) (log_of db)
        (log_of (record_event tenant (ic_plugin c) (Some (in_state i)) (sr_state ?row) (ic_version c) who detail ?saved))"
      using Some old log_inv_row [OF inv Some]
      by (intro saved_logged [where tenant = tenant and plugin = "ic_plugin c" and ?db1.0 = db])
        (auto simp: requested_row_def saved_row_of_def mount_live_def)
    then show ?thesis unfolding db' using Some by (simp add: requested_row_def)
  qed
qed

lemma request_install_logged:
  assumes "request_install e db actor command fresh = Inr (result, db')" and inv: "log_inv e (log_of db)"
  shows "logged_many e (row_backed e rs) (log_of db) (log_of db') \<and> pd_releases db' = pd_releases db \<and>
    pd_mounts db' = pd_mounts db"
proof -
  obtain c who tenant replay db1 sha where
    claim: "claim_command e db tenant who ''request.create'' (ic_key c) sha = Inr (replay, db1)"
    and rest: "(case replay of Some result \<Rightarrow> Inr (result, db1)
      | None \<Rightarrow> new_install e db1 c who tenant sha fresh) = Inr (result, db')"
    using assms(1) unfolding request_install_def Let_def by (clarsimp simp: bindr_eq_Inr)
  note fields = claim_fields [OF claim]
  show ?thesis
  proof (cases replay)
    case (Some r)
    then show ?thesis using rest fields by simp
  next
    case None
    then have "store_install e db1 c who tenant sha fresh = (result, db')" and
      "find_install e db1 tenant (ic_plugin c) = None \<or>
        (\<exists>i. find_install e db1 tenant (ic_plugin c) = Some i \<and> in_state i = PluginUninstalled)"
      using rest by (auto simp: new_install_def bindr_eq_Inr split: option.splits if_splits)
    from store_install_logged [OF this(2) _ this(1)] inv fields show ?thesis by auto
  qed
qed

lemma store_uninstall_logged:
  assumes i: "find_install e db tenant (uc_plugin c) = Some i"
    and "PluginUninstalled \<in> set (plugin_transitions (in_state i))"
    and inv: "log_inv e (log_of db)" and result: "store_uninstall e db c i who tenant sha now = (result, db')"
  shows "logged e (row_backed e rs) (log_of db) (log_of db')" and "pd_releases db' = pd_releases db"
proof -
  let ?revoked = "revoke_mounts tenant (in_plugin i) (sr_id (saved_row_of i)) now db"
  let ?saved = "complete_command e tenant who ''transition.uninstall'' (uc_key c) sha (row_result (uninstalled_row i))
    (save_installation e (uninstalled_row i) ?revoked)"
  obtain detail where db': "db' = record_event tenant (in_plugin i) (Some (in_state i)) PluginUninstalled
      (in_version i) who detail ?saved"
    using result by (auto simp: store_uninstall_def Let_def)
  then show "pd_releases db' = pd_releases db" by simp
  have keys: "key_of e tenant (in_plugin i) = key_of e tenant (uc_plugin c)"
    "key_of e (in_tenant i) (in_plugin i) = key_of e tenant (uc_plugin c)"
    using find_install_Some(2) [OF i] by (auto simp: key_of_def install_key_def)
  have "logged e (row_backed e rs) (log_of db) (log_of (record_event tenant (in_plugin i) (Some (in_state i))
      (sr_state (uninstalled_row i)) (in_version i) who detail ?saved))"
    using assms(1,2) log_inv_row [OF inv i] keys
    by (intro saved_logged [where tenant = tenant and plugin = "uc_plugin c" and ?db1.0 = ?revoked])
      (auto simp: uninstalled_row_def saved_row_of_def mount_live_def)
  then show "logged e (row_backed e rs) (log_of db) (log_of db')"
    unfolding db' by (simp add: uninstalled_row_def)
qed

lemma uninstall_logged:
  assumes "transition_uninstall e db actor command now = Inr (result, db')" and inv: "log_inv e (log_of db)"
  shows "logged_many e (row_backed e rs) (log_of db) (log_of db') \<and> pd_releases db' = pd_releases db"
proof -
  obtain c who tenant replay db1 sha where
    claim: "claim_command e db tenant who ''transition.uninstall'' (uc_key c) sha = Inr (replay, db1)"
    and rest: "(case replay of Some result \<Rightarrow> Inr (result, db1)
      | None \<Rightarrow> new_uninstall e db1 c who tenant sha now) = Inr (result, db')"
    using assms(1) unfolding transition_uninstall_def Let_def by (clarsimp simp: bindr_eq_Inr)
  note fields = claim_fields [OF claim]
  show ?thesis
  proof (cases replay)
    case (Some r)
    then show ?thesis using rest fields by simp
  next
    case None
    then obtain i where "find_install e db1 tenant (uc_plugin c) = Some i"
      and "PluginUninstalled \<in> set (plugin_transitions (in_state i))"
      and "store_uninstall e db1 c i who tenant sha now = (result, db')"
      using rest by (auto simp: new_uninstall_def split: option.splits if_splits)
    from store_uninstall_logged [OF this(1,2) _ this(3)] inv fields show ?thesis by auto
  qed
qed

text \<open>Revoking the installations of a release, one after the other.\<close>

lemma revoke_installs_logged:
  assumes "revoke_installs e plugin version reason actor is db = Inr db'" and "set is \<subseteq> set (pd_installs db)"
    and "distinct (map (install_key e) is)" and "distinct (map (install_key e) (pd_installs db))"
    and "\<forall>i\<in>set is. same e (in_plugin i) plugin"
  shows "logged_many e (row_backed e rs) (log_of db) (log_of db') \<and> pd_releases db' = pd_releases db \<and>
    pd_mounts db' = pd_mounts db \<and>
    (\<forall>x\<in>set (pd_installs db'). in_state x = PluginRevoked \<or> x \<in> set (pd_installs db) \<and>
       (\<forall>i\<in>set is. install_key e x \<noteq> install_key e i))"
  using assms
proof (induction "is" arbitrary: db)
  case Nil
  then show ?case by simp
next
  case (Cons i "is")
  have at: "find_install e db (in_tenant i) plugin = Some i"
  proof -
    have key: "key_of e (in_tenant i) plugin = install_key e i"
      using Cons.prems(5) by (simp add: key_of_def install_key_def same_def)
    obtain y where y: "find_install e db (in_tenant i) plugin = Some y"
      using Cons.prems(2) key find_install_None [of e db "in_tenant i" plugin] by fastforce
    then have "install_key e y = install_key e i" using find_install_Some(2) key by metis
    then show ?thesis
      using y find_install_Some(1) [OF y] Cons.prems(2,4) by (auto simp: distinct_map dest: inj_onD)
  qed
  let ?f = "\<lambda>x. bump (x\<lparr>in_state := PluginRevoked, in_error := Some (py_take 4000 reason)\<rparr>)"
  let ?db1 = "record_event (in_tenant i) plugin (Some (in_state i)) PluginRevoked version actor
    (JObj [(''reason'', JStr reason)]) (update_install e (in_tenant i) plugin ?f db)"
  show ?case
  proof (cases "in_state i = PluginRevoked")
    case True
    then have "revoke_installs e plugin version reason actor is db = Inr db'" using Cons.prems(1) by simp
    from Cons.IH [OF this] Cons.prems have "logged_many e (row_backed e rs) (log_of db) (log_of db') \<and>
        pd_releases db' = pd_releases db \<and> pd_mounts db' = pd_mounts db \<and>
        (\<forall>x\<in>set (pd_installs db'). in_state x = PluginRevoked \<or> x \<in> set (pd_installs db) \<and>
          (\<forall>j\<in>set is. install_key e x \<noteq> install_key e j))" by simp
    moreover have "in_state x = PluginRevoked" if "x \<in> set (pd_installs db)" "install_key e x = install_key e i" for x
      using that True Cons.prems(2,4) by (auto simp: distinct_map dest: inj_onD)
    ultimately show ?thesis by auto
  next
    case False
    then have step: "PluginRevoked \<in> set (plugin_transitions (in_state i))"
      and rest: "revoke_installs e plugin version reason actor is ?db1 = Inr db'"
      using Cons.prems(1) by (auto simp: bindr_eq_Inr)
    have one: "logged e (row_backed e rs) (log_of db) (log_of ?db1)"
      using at step by (intro logged_update) (auto simp: row_backed_def mount_live_def)
    have key: "key_of e (in_tenant i) plugin = install_key e i" using find_install_Some(2) [OF at] by simp
    have rows: "set (pd_installs ?db1) \<subseteq> {x. in_state x = PluginRevoked} \<union>
        {x \<in> set (pd_installs db). install_key e x \<noteq> install_key e i}"
      using key by auto
    have kept: "x \<in> set (pd_installs ?db1)" if "x \<in> set is" for x
    proof -
      have "install_key e i \<notin> install_key e ` set is" using Cons.prems(3) by simp
      then have "install_key e x \<noteq> install_key e i" using that by (metis imageI)
      then show ?thesis using that Cons.prems(2) key by auto
    qed
    have keys: "map (install_key e) (pd_installs ?db1) = map (install_key e) (pd_installs db)"
      by (auto simp: comp_def)
    have "set is \<subseteq> set (pd_installs ?db1)" using kept by blast
    moreover have "distinct (map (install_key e) is)" using Cons.prems(3) by simp
    moreover have "distinct (map (install_key e) (pd_installs ?db1))" unfolding keys by (rule Cons.prems(4))
    moreover have "\<forall>j\<in>set is. same e (in_plugin j) plugin" using Cons.prems(5) by simp
    ultimately have later: "logged_many e (row_backed e rs) (log_of ?db1) (log_of db') \<and>
        pd_releases db' = pd_releases ?db1 \<and> pd_mounts db' = pd_mounts ?db1 \<and>
        (\<forall>x\<in>set (pd_installs db'). in_state x = PluginRevoked \<or> x \<in> set (pd_installs ?db1) \<and>
          (\<forall>j\<in>set is. install_key e x \<noteq> install_key e j))"
      by (rule Cons.IH [OF rest])
    have "logged_many e (row_backed e rs) (log_of db) (log_of db')"
      using one later by (blast intro: converse_rtranclp_into_rtranclp)
    moreover have "pd_releases db' = pd_releases db" "pd_mounts db' = pd_mounts db"
      using later by simp_all
    moreover have "in_state x = PluginRevoked \<or> x \<in> set (pd_installs db) \<and>
        (\<forall>j\<in>set (i # is). install_key e x \<noteq> install_key e j)" if "x \<in> set (pd_installs db')" for x
    proof (cases "in_state x = PluginRevoked")
      case False
      with later that have x: "x \<in> set (pd_installs ?db1)" "\<forall>j\<in>set is. install_key e x \<noteq> install_key e j"
        by blast+
      then show ?thesis using rows False by auto
    qed simp
    ultimately show ?thesis by blast
  qed
qed

section \<open>The invariant of the tables\<close>

definition releases_distinct :: "plugin_env \<Rightarrow> plugin_release list \<Rightarrow> bool" where
  "releases_distinct e rs \<longleftrightarrow> distinct (map (\<lambda>r. key_of e (pr_plugin r) (pr_version r)) rs)"

lemma release_at_key: "release_at e plugin version r \<longleftrightarrow> key_of e (pr_plugin r) (pr_version r) = key_of e plugin version"
  by (auto simp: release_at_def key_of_def same_def)

definition plugin_inv :: "plugin_env \<Rightarrow> plugin_db \<Rightarrow> bool" where
  "plugin_inv e db \<longleftrightarrow> log_inv e (log_of db) \<and> list_all (row_backed e (pd_releases db)) (pd_installs db)"

lemma logged_row:
  assumes "logged e ok s s'" and "log_inv e s" and "x \<in> set (fst s')"
  shows "x \<in> set (fst s) \<or> ok x \<or> in_state x = PluginDisabled"
  using assms(1)
proof (cases rule: logged.cases)
  case (logged_change i xs k f v es)
  have only: "y = i" if "y \<in> set xs" "install_key e y = k" for y
    using assms(2) that logged_change(1,3,4) by (simp add: log_inv_def distinct_map inj_on_def)
  obtain y where y: "y \<in> set xs" and x: "x = (if install_key e y = k then f y else y)"
    using assms(3) logged_change(2) by auto
  show ?thesis
  proof (cases "install_key e y = k")
    case True
    then show ?thesis using only [OF y True] x logged_change(6) by simp
  next
    case False
    then show ?thesis using x y logged_change(1) by simp
  qed
next
  case (logged_new i xs v es)
  then show ?thesis using assms(3) by auto
qed

lemma logged_rows:
  assumes "logged_many e (row_backed e rs) s s'" and "log_inv e s" and "list_all (row_backed e rs) (fst s)"
  shows "list_all (row_backed e rs) (fst s')"
  using assms
proof (induction rule: rtranclp_induct)
  case (step y z)
  have "row_backed e rs x" if "x \<in> set (fst z)" for x
    using logged_row [OF step.hyps(2) logged_many_inv [OF step.hyps(1) step.prems(1)] that] step.IH [OF step.prems]
    by (auto simp: list_all_iff row_backed_def mount_live_def)
  then show ?case by (simp add: list_all_iff)
qed

lemma logged_plugin_inv:
  assumes "logged_many e (row_backed e (pd_releases db)) (log_of db) (log_of db')"
    and "pd_releases db' = pd_releases db" and "plugin_inv e db"
  shows "plugin_inv e db'"
proof -
  have inv: "log_inv e (log_of db)" and "list_all (row_backed e (pd_releases db)) (fst (log_of db))"
    using assms(3) by (simp_all add: plugin_inv_def log_of_def)
  from logged_rows [OF assms(1) this] logged_many_inv [OF assms(1) inv] show ?thesis
    unfolding plugin_inv_def assms(2) by (simp add: log_of_def)
qed

text \<open>Releases may be added and unpublished ones changed; what backs a live row stays.\<close>

lemma releases_kept:
  assumes "plugin_inv e db" and "log_of db' = log_of db"
    and "\<And>r. r \<in> set (pd_releases db) \<Longrightarrow> pr_status r = ReleasePublished \<Longrightarrow> r \<in> set (pd_releases db')"
  shows "plugin_inv e db'"
proof -
  have "row_backed e (pd_releases db') i" if "row_backed e (pd_releases db) i" for i
    using that assms(3) by (auto simp: row_backed_def release_backs_def)
  then show ?thesis using assms(1,2) by (auto simp: plugin_inv_def log_of_def list_all_iff)
qed

lemma find_releaseD:
  assumes "find_release e db plugin version = Some r"
  shows "r \<in> set (pd_releases db)" and "release_at e plugin version r"
  using assms by (auto simp: find_release_def find_Some_iff)

lemma distinct_release:
  assumes "releases_distinct e rs" and "r \<in> set rs" and "r' \<in> set rs"
    and "release_at e plugin version r" and "release_at e plugin version r'"
  shows "r = r'"
proof (rule inj_onD)
  show "inj_on (\<lambda>r. key_of e (pr_plugin r) (pr_version r)) (set rs)"
    using assms(1) by (simp add: releases_distinct_def distinct_map)
  show "key_of e (pr_plugin r) (pr_version r) = key_of e (pr_plugin r') (pr_version r')"
    using assms(4,5) unfolding release_at_key by (rule trans [OF _ sym])
qed (rule assms)+

lemma update_release_set:
  "pd_releases (update_release e plugin version f db) =
     map (\<lambda>r. if release_at e plugin version r then f r else r) (pd_releases db)"
  by (simp add: update_release_def)

lemma distinct_updated:
  assumes "releases_distinct e (pd_releases db)" and "\<And>r. pr_plugin (f r) = pr_plugin r \<and> pr_version (f r) = pr_version r"
  shows "releases_distinct e (pd_releases (update_release e plugin version f db))"
proof -
  have "map (\<lambda>r. key_of e (pr_plugin r) (pr_version r)) (pd_releases (update_release e plugin version f db)) =
      map (\<lambda>r. key_of e (pr_plugin r) (pr_version r)) (pd_releases db)"
    using assms(2) by (simp add: update_release_set comp_def)
  then show ?thesis using assms(1) by (simp add: releases_distinct_def)
qed

lemma submit_inv:
  assumes "submit_release e db value signature actor = Inr db'" and "plugin_inv e db"
    and "releases_distinct e (pd_releases db)"
  shows "plugin_inv e db'" and "releases_distinct e (pd_releases db')" and "pd_mounts db' = pd_mounts db"
    and "log_of db' = log_of db"
proof -
  obtain m where db': "db' = db\<lparr>pd_releases := pd_releases db @ [submitted_release m signature actor]\<rparr>"
    and none: "find_release e db (pm_plugin m) (pm_version m) = None"
    using assms(1) by (auto simp: submit_release_def bindr_eq_Inr split: option.splits if_splits)
  then show "releases_distinct e (pd_releases db')"
    using assms(3) by (auto simp: releases_distinct_def find_release_def find_None_iff release_at_key submitted_release_def)
  show log: "log_of db' = log_of db" using db' by (simp add: log_of_def)
  show "plugin_inv e db'" by (rule releases_kept [OF assms(2) log]) (simp add: db')
  show "pd_mounts db' = pd_mounts db" using db' by simp
qed

lemma review_inv:
  assumes "review_release e db plugin version approved note actor expected = Inr db'" and "plugin_inv e db"
    and dist: "releases_distinct e (pd_releases db)"
  shows "plugin_inv e db'" and "releases_distinct e (pd_releases db')" and "pd_mounts db' = pd_mounts db"
    and "log_of db' = log_of db"
proof -
  obtain r f where found: "find_release e db plugin version = Some r" and status: "pr_status r = ReleaseSubmitted"
    and db': "db' = update_release e plugin version f db"
    and keys: "\<And>r. pr_plugin (f r) = pr_plugin r \<and> pr_version (f r) = pr_version r"
    using assms(1) by (auto simp: review_release_def bindr_eq_Inr split: option.splits if_splits prod.splits)
  show "releases_distinct e (pd_releases db')" unfolding db' by (rule distinct_updated [OF dist keys])
  show log: "log_of db' = log_of db" and "pd_mounts db' = pd_mounts db" using db' by simp_all
  show "plugin_inv e db'"
  proof (rule releases_kept [OF assms(2) log])
    fix x assume x: "x \<in> set (pd_releases db)" and "pr_status x = ReleasePublished"
    then have "\<not> release_at e plugin version x"
      using distinct_release [OF dist x find_releaseD(1) [OF found] _ find_releaseD(2) [OF found]] status by auto
    then show "x \<in> set (pd_releases db')" using x by (auto simp: db' update_release_set)
  qed
qed

lemma revoke_inv:
  assumes "revoke_release e db plugin version reason actor expected = Inr db'" and inv: "plugin_inv e db"
    and dist: "releases_distinct e (pd_releases db)"
  shows "plugin_inv e db'" and "releases_distinct e (pd_releases db')" and "pd_mounts db' = pd_mounts db"
    and "logged_many e (\<lambda>_. True) (log_of db) (log_of db')"
proof -
  let ?hit = "filter (installed_version e plugin version) (pd_installs db)"
  obtain f where run: "revoke_installs e plugin version reason actor ?hit (update_release e plugin version f db) = Inr db'"
    and keys: "\<And>r. pr_plugin (f r) = pr_plugin r \<and> pr_version (f r) = pr_version r"
    using assms(1) by (auto simp: revoke_release_def bindr_eq_Inr split: option.splits if_splits)
  let ?db1 = "update_release e plugin version f db"
  have log1: "log_of ?db1 = log_of db" by simp
  then have installs1: "pd_installs ?db1 = pd_installs db" by (simp add: log_of_def)
  have inst: "distinct (map (install_key e) (pd_installs db))"
    using inv by (simp add: plugin_inv_def log_inv_def log_of_def)
  have many: "logged_many e (row_backed e rs) (log_of ?db1) (log_of db') \<and> pd_releases db' = pd_releases ?db1 \<and>
      pd_mounts db' = pd_mounts ?db1 \<and>
      (\<forall>x\<in>set (pd_installs db'). in_state x = PluginRevoked \<or> x \<in> set (pd_installs ?db1) \<and>
         (\<forall>i\<in>set ?hit. install_key e x \<noteq> install_key e i))" for rs
    by (rule revoke_installs_logged [OF run])
      (use inst in \<open>auto simp: installs1 distinct_map_filter installed_version_def\<close>)
  then show "releases_distinct e (pd_releases db')" "pd_mounts db' = pd_mounts db"
    using distinct_updated [OF dist keys] by (simp_all del: update_release_fields) (simp_all add: update_release_def)
  have log: "log_inv e (log_of db')"
    using many [of "[]"] inv log1 logged_many_inv by (metis plugin_inv_def)
  have "row_backed e (pd_releases db') x" if "x \<in> set (pd_installs db')" for x
  proof (cases "mount_live (in_state x)")
    case True
    then have x: "x \<in> set (pd_installs db)" and "x \<notin> set ?hit"
      using many [of "[]"] that installs1 by (auto simp: mount_live_def)
    then have "\<not> (same e (in_plugin x) plugin \<and> same e (in_version x) version)"
      using True by (auto simp: installed_version_def mount_live_def)
    then have other: "\<not> release_at e plugin version r" if "release_at e (in_plugin x) (in_version x) r" for r
      using that by (auto simp: release_at_def same_def)
    have "row_backed e (pd_releases db) x" using inv x by (simp add: plugin_inv_def list_all_iff)
    then obtain r where "r \<in> set (pd_releases db)" and "release_at e (in_plugin x) (in_version x) r"
      and "pr_status r = ReleasePublished" and "release_verified e r (in_granted x)"
      using True by (auto simp: row_backed_def release_backs_def)
    moreover from this have "r \<in> set (pd_releases db')"
      using many [of "[]"] other by (auto simp: update_release_set)
    ultimately show ?thesis by (auto simp: row_backed_def release_backs_def)
  qed (simp add: row_backed_def)
  then show "plugin_inv e db'" using log by (simp add: plugin_inv_def list_all_iff)
  have "logged_many e (\<lambda>_. True) s s'" if "logged_many e ok s s'" for ok s s'
    using that by (rule rtranclp_mono [THEN predicate2D, rotated]) (auto elim!: logged.cases intro: logged.intros)
  then show "logged_many e (\<lambda>_. True) (log_of db) (log_of db')" using many [of "[]"] log1 by metis
qed

end
