(* ===== verification/PluginGuarantees.thy ===== *)
theory PluginGuarantees
  imports PluginProperties
begin

text \<open>
  The guarantees of the plugin control plane over the tables that any calls can reach, and a run of it on
  concrete plugins for the witnesses.
\<close>

section \<open>Reachable tables\<close>

inductive plugin_step :: "plugin_env \<Rightarrow> plugin_db \<Rightarrow> plugin_db \<Rightarrow> bool" for e where
  plugin_call: "plugin_exec e db c = Inr db' \<Longrightarrow> plugin_step e db db'"

abbreviation plugin_run :: "plugin_env \<Rightarrow> plugin_db \<Rightarrow> plugin_db \<Rightarrow> bool" where
  "plugin_run e \<equiv> (plugin_step e)\<^sup>*\<^sup>*"

definition tables_ok :: "plugin_env \<Rightarrow> plugin_db \<Rightarrow> bool" where
  "tables_ok e db \<longleftrightarrow> plugin_inv e db \<and> releases_distinct e (pd_releases db)"

text \<open>The log of the installations only grows, whatever the rows must satisfy.\<close>

lemma logged_weaken: "logged_many e ok s s' \<Longrightarrow> logged_many e (\<lambda>_. True) s s'"
  by (rule rtranclp_mono [THEN predicate2D, rotated]) (auto elim!: logged.cases intro: logged.intros)

lemma logged_ok:
  assumes "logged_many e (row_backed e (pd_releases db)) (log_of db) (log_of db')"
    and "pd_releases db' = pd_releases db" and "tables_ok e db"
  shows "tables_ok e db' \<and> logged_many e (\<lambda>_. True) (log_of db) (log_of db')"
  using logged_plugin_inv [OF assms(1,2)] logged_weaken [OF assms(1)] assms(2,3) by (simp add: tables_ok_def)

lemma log_of_fields: "log_of db = log_of db' \<Longrightarrow> pd_installs db = pd_installs db' \<and> pd_events db = pd_events db'"
  by (simp add: log_of_def)

lemma register_fields:
  assumes "register_publisher e db i name key actor = Inr db'"
  shows "log_of db' = log_of db" "pd_releases db' = pd_releases db" "pd_mounts db' = pd_mounts db"
  using assms by (auto simp: register_publisher_def bindr_eq_Inr log_of_def split: if_splits)

lemma tables_ok_log: "tables_ok e db \<Longrightarrow> log_inv e (log_of db)"
  by (simp add: tables_ok_def plugin_inv_def)

lemma transition_ok:
  assumes "transition_plugin e db tenant plugin actor target = Inr db'" and "target \<noteq> PluginRolledBack"
    and "tables_ok e db"
  shows "tables_ok e db' \<and> logged_many e (\<lambda>_. True) (log_of db) (log_of db') \<and> pd_releases db' = pd_releases db"
  using logged_ok [OF r_into_rtranclp [of "logged e (row_backed e (pd_releases db))", OF transition_logged(1)
      [OF assms(1,2)]] transition_logged(2) [OF assms(1,2)] assms(3)] transition_logged(2) [OF assms(1,2)]
  by blast

lemma finish_ok:
  assumes "finish_upgrade e db tenant plugin actor healthy = Inr db'" and "tables_ok e db"
  shows "tables_ok e db' \<and> logged_many e (\<lambda>_. True) (log_of db) (log_of db') \<and> pd_releases db' = pd_releases db"
  using transition_ok [OF assms(1) [unfolded finish_upgrade_def] _ assms(2)] by (cases healthy) simp_all

lemma exec_ok:
  assumes "plugin_exec e db c = Inr db'" and ok: "tables_ok e db"
  shows "tables_ok e db' \<and> logged_many e (\<lambda>_. True) (log_of db) (log_of db')"
proof (cases c)
  case (RegisterPublisher i name key actor)
  then have "register_publisher e db i name key actor = Inr db'" using assms(1) by simp
  note fields = register_fields [OF this]
  have "plugin_inv e db'" by (rule releases_kept [OF _ fields(1)]) (use ok fields(2) in \<open>simp_all add: tables_ok_def\<close>)
  with fields ok show ?thesis by (simp add: tables_ok_def)
next
  case (SubmitRelease doc signature actor)
  then have "submit_release e db doc signature actor = Inr db'" using assms(1) by simp
  from submit_inv [OF this] ok show ?thesis by (simp add: tables_ok_def)
next
  case (ReviewRelease plugin version approved remark actor expected)
  then have "review_release e db plugin version approved remark actor expected = Inr db'" using assms(1) by simp
  from review_inv [OF this] ok show ?thesis by (simp add: tables_ok_def)
next
  case (RevokeRelease plugin version reason actor expected)
  then have "revoke_release e db plugin version reason actor expected = Inr db'" using assms(1) by simp
  from revoke_inv [OF this] ok show ?thesis by (simp add: tables_ok_def)
next
  case (InstallPlugin tenant plugin version grants actor fresh)
  then have "install_plugin e db tenant plugin version grants actor fresh = Inr db'" using assms(1) by simp
  from install_logged [OF this] show ?thesis using ok by (intro logged_ok) auto
next
  case (UpgradePlugin tenant plugin version grants actor)
  then have "upgrade_plugin e db tenant plugin version grants actor = Inr db'" using assms(1) by simp
  from upgrade_logged [OF this] show ?thesis using ok by (intro logged_ok) auto
next
  case (RollbackPlugin tenant plugin actor)
  then have "rollback_plugin e db tenant plugin actor = Inr db'" using assms(1) by simp
  from rollback_logged [OF this] show ?thesis using ok by (intro logged_ok) auto
next
  case (RequestInstall actor command fresh)
  then obtain r where "request_install e db actor command fresh = Inr (r, db')"
    using assms(1) by (auto simp: bindr_eq_Inr)
  from request_install_logged [OF this tables_ok_log [OF ok]] show ?thesis using ok by (intro logged_ok) auto
next
  case (TransitionUninstall actor command now)
  then obtain r where "transition_uninstall e db actor command now = Inr (r, db')"
    using assms(1) by (auto simp: bindr_eq_Inr)
  from uninstall_logged [OF this tables_ok_log [OF ok]] show ?thesis using ok by (intro logged_ok) auto
qed (use assms(1) in \<open>auto dest: transition_ok [OF _ _ ok] finish_ok [OF _ ok]\<close>)

lemma start_ok: "tables_ok e no_plugins"
  by (simp add: tables_ok_def plugin_inv_def no_plugins_def log_inv_def log_of_def releases_distinct_def events_of_def)

lemma plugin_run_ok:
  assumes "plugin_run e db db'" and "tables_ok e db"
  shows "tables_ok e db' \<and> logged_many e (\<lambda>_. True) (log_of db) (log_of db')"
  using assms
proof (induction rule: rtranclp_induct)
  case (step y z)
  then obtain c where "plugin_exec e y c = Inr z" by (auto elim: plugin_step.cases)
  from exec_ok [OF this] step show ?case by auto
qed simp

lemma reachable_ok: "plugin_run e no_plugins db \<Longrightarrow> tables_ok e db"
  using plugin_run_ok start_ok by blast

section \<open>The log of an installation\<close>

lemma stored_row:
  assumes "tables_ok e db" and "find_install e db tenant plugin = Some i"
  shows "row_logged e (pd_events db) i" and "row_backed e (pd_releases db) i"
    and "install_key e i = key_of e tenant plugin"
  using assms find_install_Some [OF assms(2)]
  by (auto simp: tables_ok_def plugin_inv_def log_inv_def log_of_def list_all_iff)

lemma install_events_of: "install_events e db tenant plugin = events_of e (key_of e tenant plugin) (pd_events db)"
  by (simp add: install_events_def events_of_def)

text \<open>
  C36. In every state of the plugin tables that calls can reach, the lifecycle events recorded for an
  installation form a path of the state machine: the first leads from nothing to disabled, each
  later one starts where the one before ended and is a permitted transition (or a reinstallation),
  and the last ends in the stored state. The revision and the mount revocation version of the row are both
  the number of these events, so no change of an installation goes unlogged.
\<close>

theorem installation_trail:
  assumes "plugin_run e no_plugins db" and "find_install e db tenant plugin = Some i"
  shows "trail None (install_events e db tenant plugin) \<and>
    install_events e db tenant plugin \<noteq> [] \<and> le_to (last (install_events e db tenant plugin)) = in_state i \<and>
    in_revision i = int (length (install_events e db tenant plugin)) \<and>
    in_mount_revision i = int (length (install_events e db tenant plugin))"
proof -
  note ok = reachable_ok [OF assms(1)]
  have "trail None (events_of e (key_of e tenant plugin) (pd_events db))"
    using tables_ok_log [OF ok] unfolding log_inv_def log_of_def snd_conv by blast
  with stored_row(1,3) [OF ok assms(2)] show ?thesis
    unfolding install_events_of by (auto simp: row_logged_def end_state_def split: if_splits)
qed

section \<open>Live plugins\<close>

lemma find_release_unique:
  assumes "releases_distinct e (pd_releases db)" and "r \<in> set (pd_releases db)" and "release_at e plugin version r"
  shows "find_release e db plugin version = Some r"
proof (cases "find_release e db plugin version")
  case None
  then show ?thesis using assms(2,3) by (auto simp: find_release_def find_None_iff)
next
  case (Some x)
  then show ?thesis using distinct_release [OF assms(1) _ assms(2) _ assms(3)] find_releaseD [OF Some] by auto
qed

text \<open>
  C24. Whatever sequence of calls was made, an installation that is live, that is enabled or rolled back,
  so that it is offered to users and its assets are served, runs a release that is published at this
  moment, carries a signature of the platform's key over the stored manifest and the artifact
  digest, has a manifest that passes every rule and names the stored artifact, and grants exactly the
  permissions that the signed manifest asks for.
\<close>

theorem live_plugin_verified:
  assumes "plugin_run e no_plugins db" and "find_install e db tenant plugin = Some i" and "mount_live (in_state i)"
  shows "\<exists>r signature m. find_release e db (in_plugin i) (in_version i) = Some r \<and> pr_status r = ReleasePublished \<and>
    signed_by r = Some signature \<and>
    verify_signature e (pe_public e) (canonical_release (pe_host e) (pr_manifest r) (pr_sha r)) signature = Inr () \<and>
    parse_manifest e (pr_manifest r) = Inr m \<and> pm_sha m = pr_sha r \<and> sort (in_granted i) = sort (pm_permissions m)"
proof -
  note ok = reachable_ok [OF assms(1)]
  obtain r where r: "r \<in> set (pd_releases db)" "release_at e (in_plugin i) (in_version i) r"
    and "pr_status r = ReleasePublished" and verified: "release_verified e r (in_granted i)"
    using stored_row(2) [OF ok assms(2)] assms(3) by (auto simp: row_backed_def release_backs_def)
  moreover have "find_release e db (in_plugin i) (in_version i) = Some r"
    using find_release_unique r ok by (simp add: tables_ok_def)
  moreover from verified obtain signature m where "signed_by r = Some signature"
    and content: "verified_content e (pr_manifest r) (pr_sha r) signature = Inr m"
    and "sort (in_granted i) = sort (pm_permissions m)" by (auto simp: release_verified_def)
  moreover from content have "verify_signature e (pe_public e)
      (canonical_release (pe_host e) (pr_manifest r) (pr_sha r)) signature = Inr ()"
    and "parse_manifest e (pr_manifest r) = Inr m" and "pm_sha m = pr_sha r"
    by (auto simp: verified_content_def platform_public_key_def bindr_eq_Inr split: if_splits)
  ultimately show ?thesis by blast
qed

text \<open>A revoked release stays revoked.\<close>

definition release_revoked :: "plugin_db \<Rightarrow> plugin_release \<Rightarrow> bool" where
  "release_revoked db r \<longleftrightarrow> r \<in> set (pd_releases db) \<and> pr_status r = ReleaseRevoked"

lemma update_keeps_revoked:
  assumes "releases_distinct e (pd_releases db)" and "find_release e db plugin version = Some x"
    and "pr_status x \<noteq> ReleaseRevoked" and "release_revoked db r"
  shows "r \<in> set (pd_releases (update_release e plugin version f db))"
proof -
  have "\<not> release_at e plugin version r"
    using distinct_release [OF assms(1) _ find_releaseD(1) [OF assms(2)] _ find_releaseD(2) [OF assms(2)]] assms(3,4)
    by (auto simp: release_revoked_def)
  then show ?thesis using assms(4) by (auto simp: update_release_set release_revoked_def)
qed

lemma revoked_kept:
  assumes "plugin_exec e db c = Inr db'" and ok: "tables_ok e db" and "release_revoked db r"
  shows "release_revoked db' r"
proof -
  have dist: "releases_distinct e (pd_releases db)" using ok by (simp add: tables_ok_def)
  note r = assms(3) [unfolded release_revoked_def]
  have same: "release_revoked db' r" if "pd_releases db' = pd_releases db"
    using that assms(3) by (simp add: release_revoked_def)
  show ?thesis
  proof (cases c)
    case (RegisterPublisher i name key actor)
    then show ?thesis using assms(1) register_fields(2) by (intro same) simp
  next
    case (SubmitRelease doc signature actor)
    then show ?thesis using assms(1,3)
      by (auto simp: submit_release_def bindr_eq_Inr release_revoked_def split: option.splits if_splits)
  next
    case (ReviewRelease plugin version approved remark actor expected)
    then obtain x f where "find_release e db plugin version = Some x" and "pr_status x = ReleaseSubmitted"
      and "db' = update_release e plugin version f db"
      using assms(1) by (auto simp: review_release_def bindr_eq_Inr split: option.splits if_splits prod.splits)
    then show ?thesis using update_keeps_revoked [OF dist _ _ assms(3)] r by (simp add: release_revoked_def)
  next
    case (RevokeRelease plugin version reason actor expected)
    then obtain x f where x: "find_release e db plugin version = Some x" "pr_status x = ReleasePublished"
      and run: "revoke_installs e plugin version reason actor
        (filter (installed_version e plugin version) (pd_installs db)) (update_release e plugin version f db) = Inr db'"
      using assms(1) by (auto simp: revoke_release_def bindr_eq_Inr split: option.splits if_splits)
    have log: "log_of (update_release e plugin version f db) = log_of db" by simp
    have inst: "distinct (map (install_key e) (pd_installs db))"
      using tables_ok_log [OF ok] by (simp add: log_inv_def log_of_def)
    have installs: "pd_installs (update_release e plugin version f db) = pd_installs db"
      using log by (simp add: log_of_def)
    have "pd_releases db' = pd_releases (update_release e plugin version f db)"
      by (rule revoke_installs_logged [OF run, THEN conjunct2, THEN conjunct1])
        (use inst in \<open>simp_all add: installs distinct_map_filter installed_version_def\<close>)
    then show ?thesis using update_keeps_revoked [OF dist x(1) _ assms(3)] x(2) r by (simp add: release_revoked_def)
  next
    case (InstallPlugin tenant plugin version grants actor fresh)
    then show ?thesis using assms(1) install_logged(2) by (intro same) simp
  next
    case (UpgradePlugin tenant plugin version grants actor)
    then show ?thesis using assms(1) upgrade_logged(2) by (intro same) simp
  next
    case (RollbackPlugin tenant plugin actor)
    then show ?thesis using assms(1) rollback_logged(2) by (intro same) simp
  next
    case (RequestInstall actor command fresh)
    then show ?thesis
      using assms(1) request_install_logged tables_ok_log [OF ok] by (intro same) (fastforce simp: bindr_eq_Inr)
  next
    case (TransitionUninstall actor command now)
    then show ?thesis
      using assms(1) uninstall_logged tables_ok_log [OF ok] by (intro same) (fastforce simp: bindr_eq_Inr)
  qed (use assms(1) in \<open>auto intro!: same dest: transition_ok [OF _ _ ok] finish_ok [OF _ ok]\<close>)
qed

lemma revoked_run:
  assumes "plugin_run e db db'" and "tables_ok e db" and "release_revoked db r"
  shows "release_revoked db' r"
  using assms
proof (induction rule: rtranclp_induct)
  case (step y z)
  then obtain c where "plugin_exec e y c = Inr z" by (auto elim: plugin_step.cases)
  from revoked_kept [OF this] plugin_run_ok [OF step.hyps(1) step.prems(1)] step.IH [OF step.prems]
  show ?case by blast
qed

text \<open>
  C35. Revocation of a release is final: once a release is revoked, then after any further calls
  no installation of any tenant at that version is live, so it is neither offered to users nor served,
  whatever was upgraded, rolled back, reinstalled, enabled or reviewed in between.
\<close>

theorem release_revocation_final:
  assumes "plugin_run e no_plugins db" and "find_release e db plugin version = Some r"
    and "pr_status r = ReleaseRevoked" and "plugin_run e db db'"
  shows "find_install e db' tenant plugin' = Some i \<Longrightarrow> same e (in_plugin i) plugin \<Longrightarrow>
    same e (in_version i) version \<Longrightarrow> \<not> mount_live (in_state i)"
proof
  assume i: "find_install e db' tenant plugin' = Some i" and at: "same e (in_plugin i) plugin"
    "same e (in_version i) version" and live: "mount_live (in_state i)"
  have "release_revoked db r" using find_releaseD(1) [OF assms(2)] assms(3) by (simp add: release_revoked_def)
  from revoked_run [OF assms(4) reachable_ok [OF assms(1)] this] have r: "release_revoked db' r" .
  have ok: "tables_ok e db'" using assms(1,4) by (intro reachable_ok) simp
  obtain r' where r': "r' \<in> set (pd_releases db')" "release_at e (in_plugin i) (in_version i) r'"
    "pr_status r' = ReleasePublished"
    using stored_row(2) [OF ok i] live by (auto simp: row_backed_def release_backs_def)
  have "release_at e (in_plugin i) (in_version i) r"
    using find_releaseD(2) [OF assms(2)] at by (simp add: release_at_def same_def)
  then have "r' = r"
    using distinct_release [OF _ r'(1) _ r'(2)] r ok by (simp add: tables_ok_def release_revoked_def)
  then show False using r r'(3) by (simp add: release_revoked_def)
qed

section \<open>Rolling back\<close>

lemma found_updated:
  assumes "find_install e db tenant plugin = Some i" and "\<And>x. install_key e (f x) = install_key e x"
  shows "find_install e (record_event tenant' plugin' old new version actor detail (update_install e tenant plugin f db))
    tenant plugin = Some (f i)"
proof -
  let ?g = "\<lambda>x. if install_key e x = key_of e tenant plugin then f x else x"
  have "List.find (install_at e tenant plugin) (map ?g xs) = map_option f (List.find (install_at e tenant plugin) xs)" for xs
    using assms(2) by (induction xs) (simp_all add: install_at_key)
  then show ?thesis using assms(1) by (simp add: find_install_def)
qed

text \<open>
  Upgrading an installation, reporting the upgrade as unhealthy and rolling it back restores
  exactly the version and the granted capabilities it had before, with the failed version kept as the
  previous one. The state is not restored: the installation is live afterwards whatever it was, so a plugin
  that its tenant had disabled before the upgrade is offered and served again.
\<close>

theorem rollback_restores_upgrade:
  assumes "find_install e db tenant plugin = Some i"
    and "upgrade_plugin e db tenant plugin version grants actor = Inr db1"
    and "finish_upgrade e db1 tenant plugin actor False = Inr db2"
    and "rollback_plugin e db2 tenant plugin actor = Inr db3"
  shows "\<exists>j. find_install e db3 tenant plugin = Some j \<and> in_version j = in_version i \<and> in_granted j = in_granted i \<and>
    in_previous j = Some version \<and> in_state j = PluginRolledBack \<and> mount_live (in_state j)"
proof -
  obtain consented result where db1: "db1 = record_event tenant plugin (Some (in_state i)) PluginUpgrading version actor
      (JObj [(''previous_version'', JStr (in_version i))]) (update_install e tenant plugin (upgraded result consented) db)"
    and "begin_upgrade (in_version i) version = Inr result"
    using assms(1,2) by (clarsimp simp: upgrade_plugin_def bindr_eq_Inr)
  then have result: "ur_current result = version" "ur_previous result = Some (in_version i)"
    by (auto simp: begin_upgrade_def split: if_splits)
  have i1: "find_install e db1 tenant plugin = Some (upgraded result consented i)"
    unfolding db1 by (rule found_updated [OF assms(1)]) (simp add: upgraded_def)
  let ?failed = "bump ((upgraded result consented i)\<lparr>in_state := PluginFailed\<rparr>)"
  obtain detail where "db2 = record_event tenant plugin (Some (in_state (upgraded result consented i))) PluginFailed
      (in_version (upgraded result consented i)) actor detail
      (update_install e tenant plugin (\<lambda>x. bump (x\<lparr>in_state := PluginFailed\<rparr>)) db1)"
    using assms(3) i1 by (auto simp: finish_upgrade_def transition_plugin_def bindr_eq_Inr)
  then have i2: "find_install e db2 tenant plugin = Some ?failed"
    using found_updated [OF i1, where f = "\<lambda>x. bump (x\<lparr>in_state := PluginFailed\<rparr>)"] by simp
  obtain undo where "plan_rollback (in_version ?failed) (in_previous ?failed) = Inr undo"
    and db3: "db3 = record_event tenant plugin (Some (in_state ?failed)) PluginRolledBack (ur_current undo) actor
      (JObj [(''rolled_back_from'', JStr (in_version ?failed))])
      (update_install e tenant plugin (rolled_back undo ?failed) db2)"
    using assms(4) i2 by (clarsimp simp: rollback_plugin_def bindr_eq_Inr)
  moreover have "in_version ?failed = version" "in_previous ?failed = Some (in_version i)"
    using result by (simp_all add: upgraded_def bump_def)
  ultimately have undo: "ur_current undo = in_version i" "ur_previous undo = Some version"
    by (auto simp: plan_rollback_def split: list.splits)
  have "find_install e db3 tenant plugin = Some (rolled_back undo ?failed ?failed)"
    unfolding db3 by (rule found_updated [OF i2]) (simp add: rolled_back_def)
  then show ?thesis
    using undo by (auto simp: rolled_back_def previous_grants_def upgraded_def bump_def mount_live_def)
qed

section \<open>A run\<close>

definition xp_sha :: string where
  "xp_sha = replicate 64 CHR ''a''"

definition xp_manifest :: "string \<Rightarrow> plugin_manifest" where
  "xp_manifest v = \<lparr>pm_schema21 = False, pm_plugin = ''acme.tools.cut'', pm_publisher = ''acme'', pm_name = ''Cut'',
     pm_description = [], pm_version = v, pm_platform_api = ''^1.0.0'', pm_web_sdk = ''>=0.1.0'',
     pm_web_entry = Some ''index.html'', pm_permissions = [''craft.read''], pm_required = [], pm_optional = [],
     pm_plugins_required = [], pm_plugins_optional = [], pm_object_key = ''pkg/cut'', pm_sha = xp_sha, pm_size = 10,
     pm_personal = False, pm_retention = ''none'', pm_uninstall = ''delete'', pm_provides = []\<rparr>"

definition xp_env :: plugin_env where
  "xp_env = \<lparr>pe_norm = (\<lambda>s. s), pe_alnum = list_all is_alnum, pe_lower = map lower_char, pe_host = host_ascii,
     pe_parse = (\<lambda>v. case jget v ''version'' of Some (JStr s) \<Rightarrow> Some (xp_manifest s) | _ \<Rightarrow> None),
     pe_key = (\<lambda>_. Some True), pe_accepts = (\<lambda>_ raw _. raw = [1, 2, 3]), pe_fingerprint = (\<lambda>k. k),
     pe_private_key = (\<lambda>_. Some True), pe_sign = (\<lambda>_ _. [1, 2, 3]), pe_public = ''public'', pe_private = ''private'',
     pe_platform_api = ''1.2.0'', pe_web_sdk = ''0.1.0'', pe_callable = (\<lambda>_. Some True), pe_catalog = (\<lambda>_ _. None),
     pe_own = (\<lambda>_. Inr []), pe_tenant = (\<lambda>_. Inr [])\<rparr>"

fun exec_all :: "plugin_env \<Rightarrow> plugin_db \<Rightarrow> plugin_call list \<Rightarrow> plugin_error + plugin_db" where
  "exec_all e db [] = Inr db"
| "exec_all e db (c # cs) = bindr (plugin_exec e db c) (\<lambda>db'. exec_all e db' cs)"

lemma exec_all_run: "exec_all e db cs = Inr db' \<Longrightarrow> plugin_run e db db'"
  by (induction cs arbitrary: db)
    (auto simp: bindr_eq_Inr intro: converse_rtranclp_into_rtranclp plugin_call)

definition xp_release :: "string \<Rightarrow> plugin_release" where
  "xp_release v = \<lparr>pr_plugin = ''acme.tools.cut'', pr_version = v, pr_publisher = ''acme'',
     pr_manifest = manifest_json (xp_manifest v), pr_object = ''pkg/cut'', pr_sha = xp_sha,
     pr_publisher_signature = ''AQID'', pr_signature = Some ''AQID'', pr_status = ReleasePublished, pr_note = Some ''ok'',
     pr_submitted_by = ''dev'', pr_reviewed_by = Some ''root''\<rparr>"

definition xp_published :: plugin_db where
  "xp_published = no_plugins\<lparr>
     pd_publishers := [\<lparr>pb_id = ''acme'', pb_name = ''Acme'', pb_key = ''key'', pb_fingerprint = ''key'',
       pb_active = True, pb_created_by = ''root''\<rparr>],
     pd_releases := [xp_release ''1.0.0'', xp_release ''1.1.0'']\<rparr>"

lemma xp_published_run: "plugin_run xp_env no_plugins xp_published"
proof (rule exec_all_run)
  show "exec_all xp_env no_plugins
     [RegisterPublisher ''acme'' ''Acme'' ''key'' ''root'',
      SubmitRelease (manifest_json (xp_manifest ''1.0.0'')) ''AQID'' ''dev'',
      ReviewRelease ''acme.tools.cut'' ''1.0.0'' True ''ok'' ''root'' None,
      SubmitRelease (manifest_json (xp_manifest ''1.1.0'')) ''AQID'' ''dev'',
      ReviewRelease ''acme.tools.cut'' ''1.1.0'' True ''ok'' ''root'' None] = Inr xp_published"
    by code_simp
qed

text \<open>The installation of a tenant at a version and state, with its log.\<close>

definition xp_row :: "string \<Rightarrow> string option \<Rightarrow> plugin_state \<Rightarrow> int \<Rightarrow> installation" where
  "xp_row v previous s n = \<lparr>in_tenant = ''t'', in_plugin = ''acme.tools.cut'', in_version = v, in_previous = previous,
     in_state = s, in_granted = [''craft.read''],
     in_previous_granted = map_option (\<lambda>_. [''craft.read'']) previous, in_installed_by = ''ann'',
     in_error = None, in_id = Some ''installation_1'', in_mount_revision = n, in_revision = n\<rparr>"

definition xp_event :: "plugin_state option \<Rightarrow> plugin_state \<Rightarrow> string \<Rightarrow> string \<Rightarrow> json \<Rightarrow> lifecycle_event" where
  "xp_event old new v actor detail = \<lparr>le_tenant = ''t'', le_plugin = ''acme.tools.cut'', le_from = old, le_to = new,
     le_version = v, le_actor = actor, le_detail = detail\<rparr>"

definition xp_new :: plugin_db where
  "xp_new = xp_published\<lparr>pd_installs := [xp_row ''1.0.0'' None PluginDisabled 1],
     pd_events := [xp_event None PluginDisabled ''1.0.0'' ''ann'' (JObj [(''action'', JStr ''install'')])]\<rparr>"

definition xp_installed :: plugin_db where
  "xp_installed = xp_new\<lparr>pd_installs := [xp_row ''1.0.0'' None PluginEnabled 2],
     pd_events := pd_events xp_new @ [xp_event (Some PluginDisabled) PluginEnabled ''1.0.0'' ''ann'' (JObj [])]\<rparr>"

lemma xp_install: "plugin_exec xp_env xp_published
    (InstallPlugin ''t'' ''acme.tools.cut'' ''1.0.0'' [''craft.read''] ''ann'' ''1'') = Inr xp_new"
  by code_simp

lemma xp_enable: "plugin_exec xp_env xp_new (EnablePlugin ''t'' ''acme.tools.cut'' ''ann'') = Inr xp_installed"
  by code_simp

lemma xp_installed_run: "plugin_run xp_env no_plugins xp_installed"
  using xp_published_run plugin_call [OF xp_install] plugin_call [OF xp_enable] by (meson rtranclp.rtrancl_into_rtrancl)

lemma xp_installed_row:
  "find_install xp_env xp_installed ''t'' ''acme.tools.cut'' = Some (xp_row ''1.0.0'' None PluginEnabled 2)"
  "mount_live (in_state (xp_row ''1.0.0'' None PluginEnabled 2))"
  by code_simp+

theorem installation_trail_witness:
  "trail None (install_events xp_env xp_installed ''t'' ''acme.tools.cut'') \<and>
   length (install_events xp_env xp_installed ''t'' ''acme.tools.cut'') = 2"
  using installation_trail [OF xp_installed_run xp_installed_row(1)] by (simp add: xp_row_def)

theorem live_plugin_verified_witness:
  "\<exists>r. find_release xp_env xp_installed ''acme.tools.cut'' ''1.0.0'' = Some r \<and> pr_status r = ReleasePublished"
  using live_plugin_verified [OF xp_installed_run xp_installed_row] by (auto simp: xp_row_def)

lemma ran: "\<not> isl x \<Longrightarrow> x = Inr (projr x)"
  by (cases x) simp_all

text \<open>The release that is installed is revoked.\<close>

definition xp_revoked :: plugin_db where
  "xp_revoked = projr (plugin_exec xp_env xp_installed (RevokeRelease ''acme.tools.cut'' ''1.0.0'' ''bad'' ''root'' None))"

lemma xp_revoked_run: "plugin_run xp_env no_plugins xp_revoked"
proof -
  have "\<not> isl (plugin_exec xp_env xp_installed (RevokeRelease ''acme.tools.cut'' ''1.0.0'' ''bad'' ''root'' None))"
    by code_simp
  from plugin_call [OF ran [OF this, folded xp_revoked_def]] show ?thesis
    by (rule rtranclp.rtrancl_into_rtrancl [OF xp_installed_run])
qed

definition xp_bad :: plugin_release where
  "xp_bad = the (find_release xp_env xp_revoked ''acme.tools.cut'' ''1.0.0'')"

definition xp_dead :: installation where
  "xp_dead = the (find_install xp_env xp_revoked ''t'' ''acme.tools.cut'')"

lemma found_the: "x \<noteq> None \<Longrightarrow> x = Some (the x)"
  by auto

lemma xp_revoked_rows:
  "find_release xp_env xp_revoked ''acme.tools.cut'' ''1.0.0'' \<noteq> None" "pr_status xp_bad = ReleaseRevoked"
  "find_install xp_env xp_revoked ''t'' ''acme.tools.cut'' \<noteq> None"
  "same xp_env (in_plugin xp_dead) ''acme.tools.cut''" "same xp_env (in_version xp_dead) ''1.0.0''"
  by code_simp+

theorem release_revocation_final_witness: "\<not> mount_live (in_state xp_dead)"
  using release_revocation_final [OF xp_revoked_run found_the [OF xp_revoked_rows(1), folded xp_bad_def]
      xp_revoked_rows(2) rtranclp.rtrancl_refl found_the [OF xp_revoked_rows(3), folded xp_dead_def] xp_revoked_rows(4,5)] .

text \<open>An upgrade of a disabled installation fails and is rolled back.\<close>

definition xp_upgraded :: plugin_db where
  "xp_upgraded = projr (upgrade_plugin xp_env xp_new ''t'' ''acme.tools.cut'' ''1.1.0'' [''craft.read''] ''ann'')"

definition xp_failed :: plugin_db where
  "xp_failed = projr (finish_upgrade xp_env xp_upgraded ''t'' ''acme.tools.cut'' ''ann'' False)"

definition xp_restored :: plugin_db where
  "xp_restored = projr (rollback_plugin xp_env xp_failed ''t'' ''acme.tools.cut'' ''ann'')"

lemma xp_rollback_run:
  "\<not> isl (upgrade_plugin xp_env xp_new ''t'' ''acme.tools.cut'' ''1.1.0'' [''craft.read''] ''ann'')"
  "\<not> isl (finish_upgrade xp_env xp_upgraded ''t'' ''acme.tools.cut'' ''ann'' False)"
  "\<not> isl (rollback_plugin xp_env xp_failed ''t'' ''acme.tools.cut'' ''ann'')"
  by code_simp+

lemma xp_new_row: "find_install xp_env xp_new ''t'' ''acme.tools.cut'' = Some (xp_row ''1.0.0'' None PluginDisabled 1)"
  by code_simp

theorem rollback_restores_upgrade_witness:
  "in_state (xp_row ''1.0.0'' None PluginDisabled 1) = PluginDisabled \<and>
   (\<exists>j. find_install xp_env xp_restored ''t'' ''acme.tools.cut'' = Some j \<and> in_version j = ''1.0.0'' \<and>
     mount_live (in_state j))"
  using rollback_restores_upgrade [OF xp_new_row ran [OF xp_rollback_run(1), folded xp_upgraded_def]
      ran [OF xp_rollback_run(2), folded xp_failed_def] ran [OF xp_rollback_run(3), folded xp_restored_def]]
  by (auto simp: xp_row_def)

end
