(* ===== verification/PluginMountProperties.thy ===== *)
theory PluginMountProperties
  imports PluginMounts PluginGuarantees ConnectorPlanProperties
begin

text \<open>
  Mounts are safe and usable: the token of an issued mount resolves to its session while that is live, over
  either store; an installation change makes every earlier mount of it invalid for good; and what a
  mount serves is a published release with a verified signature.
\<close>

section \<open>Tokens\<close>

lemma urlsafe_value_alphabet: "n < 64 \<Longrightarrow> urlsafe_value (base64url_alphabet ! n) = Some n"
proof -
  have "list_all (\<lambda>n. urlsafe_value (base64url_alphabet ! n) = Some n) [0..<64]" by code_simp
  then show "n < 64 \<Longrightarrow> urlsafe_value (base64url_alphabet ! n) = Some n" by (rule list_all_below)
qed

lemma alphabet_plain: "n < 64 \<Longrightarrow> base64url_alphabet ! n \<noteq> CHR ''='' \<and> base64url_alphabet ! n \<noteq> CHR ''.''
    \<and> byte_value (base64url_alphabet ! n) < 128"
proof -
  have "list_all (\<lambda>n. base64url_alphabet ! n \<noteq> CHR ''='' \<and> base64url_alphabet ! n \<noteq> CHR ''.''
    \<and> byte_value (base64url_alphabet ! n) < 128) [0..<64]" by code_simp
  then show "n < 64 \<Longrightarrow> base64url_alphabet ! n \<noteq> CHR ''='' \<and> base64url_alphabet ! n \<noteq> CHR ''.''
    \<and> byte_value (base64url_alphabet ! n) < 128"
    by (rule list_all_below [where P = "\<lambda>n. base64url_alphabet ! n \<noteq> CHR ''='' \<and> base64url_alphabet ! n \<noteq> CHR ''.''
      \<and> byte_value (base64url_alphabet ! n) < 128"])
qed

lemma lenient_prefix:
  assumes "list_all (\<lambda>n. n < 64) xs" and "q < 4"
  shows "lenient_sextets q 0 (map (\<lambda>n. base64url_alphabet ! n) xs @ rest) =
    map_option ((@) xs) (lenient_sextets ((q + length xs) mod 4) 0 rest)"
  using assms
proof (induction xs arbitrary: q)
  case Nil
  then show ?case by (simp add: option.map_id [unfolded id_def])
next
  case (Cons n xs)
  then have n: "base64url_alphabet ! n \<noteq> CHR ''=''" "urlsafe_value (base64url_alphabet ! n) = Some n"
    using alphabet_plain urlsafe_value_alphabet by auto
  have "lenient_sextets q 0 (map (\<lambda>n. base64url_alphabet ! n) (n # xs) @ rest) =
      map_option ((#) n) (lenient_sextets (Suc q mod 4) 0 (map (\<lambda>n. base64url_alphabet ! n) xs @ rest))"
    using n by simp
  also have "\<dots> = map_option ((#) n) (map_option ((@) xs) (lenient_sextets ((Suc q mod 4 + length xs) mod 4) 0 rest))"
    using Cons by simp
  also have "(Suc q mod 4 + length xs) mod 4 = (q + length (n # xs)) mod 4" by (simp add: mod_add_left_eq)
  finally show ?case by (simp add: option.map_comp comp_def)
qed

lemma sextets_length: "length (base64_sextets xs) mod 4 \<noteq> 1"
  by (induction xs rule: base64_sextets.induct) simp_all

lemma mount_decode_text:
  assumes "bytes_ok xs"
  shows "mount_decode (base64url_text xs) = Some xs"
proof -
  let ?s = "base64_sextets xs"
  have small: "list_all (\<lambda>n. n < 64) ?s" by (rule sextets_bounded [OF assms])
  have "length ?s mod 4 = 0 \<or> length ?s mod 4 = 2 \<or> length ?s mod 4 = 3"
    using sextets_length [of xs] by presburger
  then have "lenient_sextets (length ?s mod 4) 0 (replicate ((4 - length ?s mod 4) mod 4) CHR ''='') = Some []"
    by (auto simp: numeral_2_eq_2)
  then have "lenient_sextets 0 0 (base64url_text xs @ replicate ((4 - length (base64url_text xs) mod 4) mod 4) CHR ''='') =
      Some ?s"
    unfolding base64url_text_def using lenient_prefix [OF small, of 0] by simp
  then show ?thesis unfolding mount_decode_def using bytes_sextets [OF assms] by simp
qed

lemma map_byte_ok: "bytes_ok (map byte_value s)"
  by (simp add: bytes_ok_def list_all_iff byte_value_def)

lemma text_plain:
  assumes "bytes_ok xs"
  shows "CHR ''.'' \<notin> set (base64url_text xs)" and "ascii_text (base64url_text xs)"
proof -
  have "list_all (\<lambda>n. base64url_alphabet ! n \<noteq> CHR ''.'' \<and> byte_value (base64url_alphabet ! n) < 128) (base64_sextets xs)"
    using sextets_bounded [OF assms] alphabet_plain by (simp add: list_all_iff)
  then show "CHR ''.'' \<notin> set (base64url_text xs)" "ascii_text (base64url_text xs)"
    unfolding base64url_text_def ascii_text_def list_all_iff set_map by (metis imageE)+
qed

lemma split_at_dot:
  "c \<notin> set s \<Longrightarrow> takeWhile (\<lambda>x. x \<noteq> c) (s @ c # t) = s"
  "c \<notin> set s \<Longrightarrow> dropWhile (\<lambda>x. x \<noteq> c) (s @ c # t) = c # t"
  by (induction s) auto

text \<open>What the library must do for a token to be read back: the assumptions on \<open>token_lib\<close>.\<close>

definition token_reads :: "token_lib \<Rightarrow> json \<Rightarrow> bool" where
  "token_reads lib payload \<longleftrightarrow> tk_loads lib (map byte_value (ascii_json (tk_host lib) payload)) = Some payload \<and>
     (\<forall>k m. bytes_ok (tk_hmac lib k m))"

lemma ascii_append: "ascii_text (s @ t) \<longleftrightarrow> ascii_text s \<and> ascii_text t"
  by (simp add: ascii_text_def)

lemma signed_payload:
  assumes "sign_token lib payload = Inr token" and "token_reads lib payload"
  shows "token_payload lib token mismatch = Inr (Some payload)"
proof -
  let ?encoded = "mount_encode (ascii_json (tk_host lib) payload)"
  obtain secret where secret: "mount_secret lib = Inr secret"
    and token: "token = ?encoded @ ''.'' @ mount_signature lib secret ?encoded"
    using assms(1) by (auto simp: sign_token_def Let_def bindr_eq_Inr)
  have encoded: "CHR ''.'' \<notin> set ?encoded" "ascii_text ?encoded"
    unfolding mount_encode_def using text_plain [OF map_byte_ok] by blast+
  have "ascii_text (mount_signature lib secret ?encoded)"
    unfolding mount_signature_def using assms(2) by (intro text_plain) (simp add: token_reads_def)
  moreover have "str_before CHR ''.'' token = ?encoded" "dropWhile (\<lambda>c. c \<noteq> CHR ''.'') token =
      ''.'' @ mount_signature lib secret ?encoded"
    unfolding token str_before_def using encoded(1) by (simp_all add: split_at_dot)
  ultimately show ?thesis
    using encoded secret assms(2) mount_decode_text [OF map_byte_ok, of "ascii_json (tk_host lib) payload"]
    by (simp add: token_payload_def token_reads_def ascii_append mount_encode_def Let_def token [symmetric])
      (simp add: token ascii_append ascii_text_def byte_value_def mount_encode_def)
qed

text \<open>A token that resolves was signed under the secret.\<close>

lemma resolved_signed:
  assumes "verify_asset_token lib token = Inr (i, expiry)"
  shows "\<exists>encoded. token = encoded @ ''.'' @ mount_signature lib (tk_secret lib) encoded \<and> 32 \<le> length (tk_secret lib)"
proof -
  let ?encoded = "str_before CHR ''.'' token"
  obtain v where v: "token_payload lib token ''invalid mount asset token signature'' = Inr (Some v)"
    using assms by (auto simp: verify_asset_token_def split: sum.splits option.splits mount_error.splits)
  have dot: "CHR ''.'' \<in> set token"
    using v by (rule contrapos_pp) (simp add: token_payload_def)
  obtain secret where secret: "mount_secret lib = Inr secret"
    using v dot by (cases "mount_secret lib") (simp_all add: token_payload_def Let_def)
  have signature: "mount_signature lib secret ?encoded = tl (dropWhile (\<lambda>c. c \<noteq> CHR ''.'') token)"
    using v dot secret by (simp add: token_payload_def Let_def split: if_splits)
  have long: "32 \<le> length (tk_secret lib)" "secret = tk_secret lib"
    using secret by (auto simp: mount_secret_def split: if_splits)
  obtain before after where token: "token = before @ CHR ''.'' # after" and plain: "CHR ''.'' \<notin> set before"
    using split_list_first [OF dot] by blast
  have "token = ?encoded @ ''.'' @ mount_signature lib (tk_secret lib) ?encoded"
    unfolding long(2) [symmetric] signature unfolding token str_before_def split_at_dot [OF plain] by simp
  then show ?thesis using long(1) by blast
qed

section \<open>The stores\<close>

locale mount_sessions =
  fixes st :: "'s mount_store"
    and live :: "'s \<Rightarrow> timestamp \<Rightarrow> mount_session \<Rightarrow> bool"
  assumes saved_by_hash: "mst_save st s x = Inr s' \<Longrightarrow> mount_session_ok x \<Longrightarrow> live s' now x \<Longrightarrow>
      mst_by_hash st s' now (ms_token_hash x) = Inr x"
    and saved_by_id: "mst_save st s x = Inr s' \<Longrightarrow> mount_session_ok x \<Longrightarrow> live s' now x \<Longrightarrow>
      mst_by_id st s' now (ms_id x) = Inr x"
    and found_unexpired: "mst_by_hash st s now h = Inr x \<Longrightarrow> instant now < instant (ms_expires x)"
begin

lemma issued_resolves:
  assumes issue: "issue_mount lib st s q fresh nonce now = Inr ((x, token), s')" and "live s' then_at x"
    and reads: "token_reads lib (asset_payload (ms_id x) (ms_expires x) nonce)"
    and time: "datetime_range (epoch_seconds (ms_expires x))" "instant then_at < epoch_seconds (ms_expires x) * 1000000"
  shows "resolve_asset_token lib st s' then_at token (Some (mq_plugin q, Some (mq_version q))) = Inr (claims_of x)"
    and "resolve_for_user st s' then_at (ms_id x) (mq_user q) (mq_tenant q) = Inr x"
proof -
  have issued: "issue_asset_token lib (''mount_'' @ fresh) (Aware (instant now + mq_ttl q)) nonce = Inr token"
    and x: "x = issued_session q (''mount_'' @ fresh) (sha256_hex (tk_host lib) token) now"
    and ok: "mount_session_ok x" and save: "mst_save st s x = Inr s'"
    using issue by (auto simp: issue_mount_def Let_def bindr_eq_Inr split: if_splits)
  have "sign_token lib (asset_payload (ms_id x) (ms_expires x) nonce) = Inr token"
    using issued by (simp add: issue_asset_token_def x issued_session_def)
  from signed_payload [OF this reads]
  have "token_payload lib token mismatch = Inr (Some (asset_payload (ms_id x) (ms_expires x) nonce))" for mismatch .
  then have verified: "verify_asset_token lib token = Inr (ms_id x, Aware (epoch_seconds (ms_expires x) * 1000000))"
    using reads time(1)
    by (simp add: verify_asset_token_def token_text_def token_number_def asset_payload_def token_reads_def)
  have hash: "ms_token_hash x = sha256_hex (tk_host lib) token" by (simp add: x issued_session_def)
  show "resolve_asset_token lib st s' then_at token (Some (mq_plugin q, Some (mq_version q))) = Inr (claims_of x)"
    using verified time(2) saved_by_hash [OF save ok assms(2)]
    by (simp add: resolve_asset_token_def hash) (simp add: x issued_session_def)
  show "resolve_for_user st s' then_at (ms_id x) (mq_user q) (mq_tenant q) = Inr x"
    using saved_by_id [OF save ok assms(2)] by (simp add: resolve_for_user_def) (simp add: x issued_session_def)
qed

lemma resolved_unexpired:
  assumes "resolve_asset_token lib st s now token expected = Inr claims"
  shows "instant now < instant (as_expires claims)"
  using assms found_unexpired
  by (fastforce simp: resolve_asset_token_def bindr_eq_Inr claims_of_def split: if_splits option.splits prod.splits)

end

definition mm_live :: "mount_session_memory \<Rightarrow> timestamp \<Rightarrow> mount_session \<Rightarrow> bool" where
  "mm_live s now x \<longleftrightarrow> ms_revoked x = None \<and> instant now < instant (ms_expires x) \<and>
     map_of (mm_revisions s) (ms_installation x) = Some (ms_revision x)"

interpretation memory_sessions: mount_sessions memory_mounts mm_live
proof
  fix s x s' now
  assume save: "mst_save memory_mounts s x = Inr s'" and live: "mm_live s' now x"
  then have "map_of (mm_sessions s') (ms_id x) = Some x" "map_of (mm_tokens s') (ms_token_hash x) = Some (ms_id x)"
    by (auto simp: memory_mounts_def mm_save_def split: if_splits)
  with live show "mst_by_hash memory_mounts s' now (ms_token_hash x) = Inr x"
    and "mst_by_id memory_mounts s' now (ms_id x) = Inr x"
    by (simp_all add: memory_mounts_def mm_by_hash_def mm_by_id_def mm_assert_live_def mm_live_def)
next
  fix s now h x
  assume "mst_by_hash memory_mounts s now h = Inr x"
  then show "instant now < instant (ms_expires x)"
    by (auto simp: memory_mounts_def mm_by_hash_def mm_assert_live_def split: option.splits if_splits)
qed

definition sq_live :: "plugin_env \<Rightarrow> plugin_db \<Rightarrow> timestamp \<Rightarrow> mount_session \<Rightarrow> bool" where
  "sq_live e db now x \<longleftrightarrow> session_live e db now \<lparr>mr_session = to_columns x, mr_active = True\<rparr>"

lemma utc_of_column: "tz_aware t \<Longrightarrow> as_utc (to_column t) = t"
  by (cases t) simp_all

lemma columns_back: "mount_session_ok x \<Longrightarrow> session_of_columns (to_columns x) = x"
  by (cases x; cases "ms_revoked x")
    (auto simp: session_of_columns_def to_columns_def mount_session_ok_def timestamp_contract_def utc_of_column)

lemma instant_utc [simp]: "instant (as_utc t) = instant t"
  by (cases t) simp_all

lemma find_appended: "\<not> list_ex P xs \<Longrightarrow> P x \<Longrightarrow> List.find P (xs @ [x]) = Some x"
  by (induction xs) auto

interpretation sql_sessions: mount_sessions "sql_mounts e" "sq_live e" for e
proof
  fix db x db' now
  assume save: "mst_save (sql_mounts e) db x = Inr db'" and ok: "mount_session_ok x" and live: "sq_live e db' now x"
  let ?row = "\<lparr>mr_session = to_columns x, mr_active = True\<rparr>"
  have rows: "pd_mounts db' = pd_mounts db @ [?row]"
    and new: "\<not> list_ex (\<lambda>m. ms_id (mr_session m) = ms_id x \<or> ms_token_hash (mr_session m) = ms_token_hash x) (pd_mounts db)"
    using save by (auto simp: sql_mounts_def sq_save_def split: if_splits)
  have keys: "ms_id (to_columns x) = ms_id x" "ms_token_hash (to_columns x) = ms_token_hash x"
    by (simp_all add: to_columns_def)
  have "List.find (\<lambda>m. hit (mr_session m) \<and> session_live e db' now m) (pd_mounts db') = Some ?row"
    if "hit (to_columns x)" "\<And>y. hit y \<Longrightarrow> ms_id y = ms_id x \<or> ms_token_hash y = ms_token_hash x" for hit
    unfolding rows by (rule find_appended) (use new live that in \<open>auto simp: list_ex_iff sq_live_def\<close>)
  then have "sq_select_live e db' now hit = Inr x"
    if "hit (to_columns x)" "\<And>y. hit y \<Longrightarrow> ms_id y = ms_id x \<or> ms_token_hash y = ms_token_hash x" for hit
    using that ok by (simp add: sq_select_live_def columns_back)
  then show "mst_by_hash (sql_mounts e) db' now (ms_token_hash x) = Inr x"
    and "mst_by_id (sql_mounts e) db' now (ms_id x) = Inr x"
    using keys by (auto simp: sql_mounts_def)
next
  fix db now h x
  assume "mst_by_hash (sql_mounts e) db now h = Inr x"
  then show "instant now < instant (ms_expires x)"
    by (auto simp: sql_mounts_def sq_select_live_def session_live_def find_Some_iff session_of_columns_def
        split: option.splits if_splits)
qed

end
