(* ===== verification/PluginMountSafety.thy ===== *)
theory PluginMountSafety
  imports PluginMountProperties
begin

text \<open>
  Mounts next to the control plane: sessions are issued from registry entries that were read before, while
  calls change the installations. A change of an installation ends all mounts issued from what was read before
  it, and whatever is served comes from a release that is published and verified.
\<close>

section \<open>The system\<close>

text \<open>\<open>my_offers\<close> are the registry entries that requests have read and may still issue a mount for.\<close>

record mount_system =
  my_db :: plugin_db
  my_offers :: "(string \<times> registry_entry) list"

definition offer_request ::
  "string \<Rightarrow> registry_entry \<Rightarrow> string \<Rightarrow> string \<Rightarrow> string list \<Rightarrow> string list \<Rightarrow> timestamp \<Rightarrow> int \<Rightarrow> mount_request" where
  "offer_request tenant r user catalog grants data authenticated ttl =
     \<lparr>mq_user = user, mq_tenant = tenant,
      mq_installation = (case re_installation r of None \<Rightarrow> [] | Some i \<Rightarrow> i), mq_plugin = re_plugin r,
      mq_version = re_version r, mq_sha = re_sha r, mq_catalog = catalog, mq_grants = grants,
      mq_resources = [''tenant:'' @ tenant], mq_data = data, mq_revision = or_one (re_mount_revision r),
      mq_authenticated = authenticated, mq_ttl = ttl\<rparr>"

inductive mount_step :: "plugin_env \<Rightarrow> token_lib \<Rightarrow> mount_system \<Rightarrow> mount_system \<Rightarrow> bool" for e lib where
  step_call: "plugin_exec e (my_db y) c = Inr db' \<Longrightarrow> mount_step e lib y (y\<lparr>my_db := db'\<rparr>)"
| step_read: "r \<in> set (tenant_registry e (my_db y) tenant) \<Longrightarrow>
    mount_step e lib y (y\<lparr>my_offers := (tenant, r) # my_offers y\<rparr>)"
| step_issue: "(tenant, r) \<in> set (my_offers y) \<Longrightarrow>
    issue_mount lib (sql_mounts e) (my_db y) (offer_request tenant r user catalog grants data authenticated ttl)
      fresh nonce now = Inr (issued, db') \<Longrightarrow> mount_step e lib y (y\<lparr>my_db := db'\<rparr>)"

abbreviation mount_run :: "plugin_env \<Rightarrow> token_lib \<Rightarrow> mount_system \<Rightarrow> mount_system \<Rightarrow> bool" where
  "mount_run e lib \<equiv> (mount_step e lib)\<^sup>*\<^sup>*"

definition mounts_start :: mount_system where
  "mounts_start = \<lparr>my_db = no_plugins, my_offers = []\<rparr>"

section \<open>Rows of sessions\<close>

text \<open>What never changes in the row of a session.\<close>

definition session_mark :: "mount_row \<Rightarrow> string \<times> string \<times> string \<times> string \<times> int" where
  "session_mark m = (ms_id (mr_session m), ms_token_hash (mr_session m), ms_tenant (mr_session m),
     ms_plugin (mr_session m), ms_revision (mr_session m))"

definition session_marks :: "plugin_db \<Rightarrow> (string \<times> string \<times> string \<times> string \<times> int) list" where
  "session_marks db = map session_mark (pd_mounts db)"

lemma revoke_mounts_marks [simp]: "session_marks (revoke_mounts tenant plugin i now db) = session_marks db"
  by (auto simp: session_marks_def revoke_mounts_def session_mark_def)

lemma uninstall_marks:
  assumes "transition_uninstall e db actor command now = Inr (result, db')"
  shows "session_marks db' = session_marks db"
proof -
  obtain c who tenant replay db1 sha where
    claim: "claim_command e db tenant who ''transition.uninstall'' (uc_key c) sha = Inr (replay, db1)"
    and rest: "(case replay of Some result \<Rightarrow> Inr (result, db1)
      | None \<Rightarrow> new_uninstall e db1 c who tenant sha now) = Inr (result, db')"
    using assms unfolding transition_uninstall_def Let_def by (clarsimp simp: bindr_eq_Inr)
  have "session_marks db1 = session_marks db" using claim_fields(3) [OF claim] by (simp add: session_marks_def)
  moreover have "session_marks db' = session_marks db1" if "replay = None"
  proof -
    from that rest obtain i where "store_uninstall e db1 c i who tenant sha now = (result, db')"
      by (auto simp: new_uninstall_def split: option.splits if_splits)
    then obtain d where "pd_mounts db' = pd_mounts (revoke_mounts tenant (in_plugin i) (sr_id (saved_row_of i)) now db1)"
      by (auto simp: store_uninstall_def Let_def)
    then show ?thesis by (metis revoke_mounts_marks session_marks_def)
  qed
  ultimately show ?thesis using rest by (cases replay) auto
qed

lemma exec_marks:
  assumes "plugin_exec e db c = Inr db'" and ok: "tables_ok e db"
  shows "session_marks db' = session_marks db"
proof (cases c)
  case (RegisterPublisher i name key actor)
  then have "register_publisher e db i name key actor = Inr db'" using assms(1) by simp
  then show ?thesis using register_fields(3) by (simp add: session_marks_def)
next
  case (SubmitRelease doc signature actor)
  then have "submit_release e db doc signature actor = Inr db'" using assms(1) by simp
  from submit_inv(3) [OF this] ok show ?thesis by (simp add: tables_ok_def session_marks_def)
next
  case (ReviewRelease plugin version approved remark actor expected)
  then have "review_release e db plugin version approved remark actor expected = Inr db'" using assms(1) by simp
  from review_inv(3) [OF this] ok show ?thesis by (simp add: tables_ok_def session_marks_def)
next
  case (RevokeRelease plugin version reason actor expected)
  then have "revoke_release e db plugin version reason actor expected = Inr db'" using assms(1) by simp
  from revoke_inv(3) [OF this] ok show ?thesis by (simp add: tables_ok_def session_marks_def)
next
  case (InstallPlugin tenant plugin version grants actor fresh)
  then show ?thesis using assms(1) install_logged(3) by (simp add: session_marks_def)
next
  case (UpgradePlugin tenant plugin version grants actor)
  then show ?thesis using assms(1) upgrade_logged(3) by (simp add: session_marks_def)
next
  case (RollbackPlugin tenant plugin actor)
  then show ?thesis using assms(1) rollback_logged(3) by (simp add: session_marks_def)
next
  case (RequestInstall actor command fresh)
  then obtain r where "request_install e db actor command fresh = Inr (r, db')"
    using assms(1) by (auto simp: bindr_eq_Inr)
  from request_install_logged [OF this tables_ok_log [OF ok]] show ?thesis by (simp add: session_marks_def)
next
  case (TransitionUninstall actor command now)
  then obtain r where "transition_uninstall e db actor command now = Inr (r, db')"
    using assms(1) by (auto simp: bindr_eq_Inr)
  from uninstall_marks [OF this] show ?thesis .
next
  case (FinishUpgrade tenant plugin actor healthy)
  then have run: "transition_plugin e db tenant plugin actor (if healthy then PluginEnabled else PluginFailed) = Inr db'"
    using assms(1) by (simp add: finish_upgrade_def)
  show ?thesis using transition_logged(3) [OF run] by (cases healthy) (simp_all add: session_marks_def)
qed (use assms(1) in \<open>auto dest: transition_logged(3) simp: session_marks_def\<close>)

text \<open>Saving a session appends its row; issuing does nothing else.\<close>

lemma issue_saves:
  assumes "issue_mount lib (sql_mounts e) db q fresh nonce now = Inr (issued, db')"
  obtains x where "sq_save db x = Inr db'" and "ms_tenant x = mq_tenant q" and "ms_plugin x = mq_plugin q"
    and "ms_revision x = mq_revision q"
  using assms by (auto simp: issue_mount_def Let_def bindr_eq_Inr sql_mounts_def issued_session_def split: if_splits)

lemma save_marks:
  assumes "sq_save db x = Inr db'"
  shows "session_marks db' = session_marks db @ [(ms_id x, ms_token_hash x, ms_tenant x, ms_plugin x, ms_revision x)]"
    and "log_of db' = log_of db" and "pd_releases db' = pd_releases db"
    and "ms_id x \<notin> fst ` set (session_marks db)" and "ms_token_hash x \<notin> (fst \<circ> snd) ` set (session_marks db)"
  using assms by (auto simp: sq_save_def session_marks_def session_mark_def to_columns_def log_of_def list_ex_iff
      split: if_splits)

section \<open>Revisions only grow\<close>

definition change_count :: "plugin_env \<Rightarrow> plugin_db \<Rightarrow> string \<Rightarrow> string \<Rightarrow> int" where
  "change_count e db tenant plugin = int (length (install_events e db tenant plugin))"

lemma change_count_mono:
  assumes "logged_many e ok (log_of db) (log_of db')"
  shows "change_count e db tenant plugin \<le> change_count e db' tenant plugin"
proof -
  have "length (events_of e k (snd s)) \<le> length (events_of e k (snd s'))" if "logged_many e ok s s'" for s s' k
    using that by (induction rule: rtranclp_induct) (auto elim!: logged.cases)
  from this [OF assms] show ?thesis by (simp add: change_count_def install_events_of log_of_def)
qed

lemma logged_grows:
  assumes "logged_many e ok s s'" and "events_of e k (snd s') \<noteq> events_of e k (snd s)"
  shows "length (events_of e k (snd s)) < length (events_of e k (snd s'))"
proof -
  have "\<exists>new. events_of e k (snd s') = events_of e k (snd s) @ new"
    using assms(1) by (induction rule: rtranclp_induct) (auto elim!: logged.cases)
  then show ?thesis using assms(2) by auto
qed

definition mounts_ok :: "plugin_env \<Rightarrow> mount_system \<Rightarrow> bool" where
  "mounts_ok e y \<longleftrightarrow> tables_ok e (my_db y) \<and>
     (\<forall>(tenant, r)\<in>set (my_offers y). 1 \<le> re_mount_revision r \<and>
        re_mount_revision r \<le> change_count e (my_db y) tenant (re_plugin r)) \<and>
     (\<forall>(i, h, tenant, plugin, revision)\<in>set (session_marks (my_db y)).
        revision \<le> change_count e (my_db y) tenant plugin) \<and>
     distinct (map fst (session_marks (my_db y))) \<and> distinct (map (fst \<circ> snd) (session_marks (my_db y)))"

lemma registry_revision:
  assumes "tables_ok e db" and "r \<in> set (tenant_registry e db tenant)"
  shows "re_mount_revision r = change_count e db tenant (re_plugin r)" and "1 \<le> re_mount_revision r"
proof -
  obtain i p where "i \<in> set (pd_installs db)" and tenant: "same e (in_tenant i) tenant" and r: "r = registry_entry_of i p"
    using assms(2) by (auto simp: tenant_registry_def live_join_def)
  then have "row_logged e (pd_events db) i"
    using assms(1) by (auto simp: tables_ok_def plugin_inv_def log_inv_def log_of_def list_all_iff)
  moreover have "install_key e i = key_of e tenant (in_plugin i)"
    using tenant by (simp add: install_key_def key_of_def same_def)
  ultimately have "in_mount_revision i = change_count e db tenant (in_plugin i)" and "1 \<le> in_mount_revision i"
    by (auto simp: row_logged_def change_count_def install_events_of end_state_def Suc_leI split: if_splits)
  then show "re_mount_revision r = change_count e db tenant (re_plugin r)" "1 \<le> re_mount_revision r"
    by (simp_all add: r registry_entry_of_def)
qed

lemma step_ok:
  assumes "mount_step e lib y z" and ok: "mounts_ok e y"
  shows "mounts_ok e z \<and> logged_many e (\<lambda>_. True) (log_of (my_db y)) (log_of (my_db z)) \<and>
    (\<exists>new. session_marks (my_db z) = session_marks (my_db y) @ new)"
  using assms(1)
proof cases
  case (step_call c db')
  note tables = ok [unfolded mounts_ok_def, THEN conjunct1]
  note exec = exec_ok [OF step_call(2) tables]
  note count = change_count_mono [OF exec [THEN conjunct2]]
  have "session_marks db' = session_marks (my_db y)" by (rule exec_marks [OF step_call(2) tables])
  with ok exec count show ?thesis
    unfolding step_call(1) mounts_ok_def by (fastforce intro: order_trans)
next
  case (step_read r tenant)
  note tables = ok [unfolded mounts_ok_def, THEN conjunct1]
  from ok registry_revision [OF tables step_read(2)] show ?thesis
    unfolding step_read(1) mounts_ok_def by simp
next
  case (step_issue tenant r user catalog grants data authenticated ttl fresh nonce now issued db')
  obtain x where save: "sq_save (my_db y) x = Inr db'" and x: "ms_tenant x = tenant" "ms_plugin x = re_plugin r"
      "ms_revision x = or_one (re_mount_revision r)"
    using issue_saves [OF step_issue(3)] by (metis mount_request.simps offer_request_def)
  note saved = save_marks [OF save]
  have same_count: "change_count e db' = change_count e (my_db y)"
    using saved(2) by (intro ext) (simp add: change_count_def install_events_of log_of_def)
  have tables: "tables_ok e db'"
    using ok saved(2,3) by (simp add: mounts_ok_def tables_ok_def plugin_inv_def log_inv_def log_of_def)
  have "ms_revision x \<le> change_count e (my_db y) (ms_tenant x) (ms_plugin x)"
    using ok step_issue(2) x by (fastforce simp: mounts_ok_def)
  with ok saved(1,4,5) tables have "mounts_ok e (y\<lparr>my_db := db'\<rparr>)"
    unfolding mounts_ok_def by (simp add: same_count)
  then show ?thesis using saved(1,2) by (simp add: step_issue(1))
qed

lemma mount_run_ok:
  assumes "mount_run e lib y z" and "mounts_ok e y"
  shows "mounts_ok e z \<and> logged_many e (\<lambda>_. True) (log_of (my_db y)) (log_of (my_db z)) \<and>
    (\<exists>new. session_marks (my_db z) = session_marks (my_db y) @ new)"
  using assms
proof (induction rule: rtranclp_induct)
  case (step x z)
  from step_ok [OF step.hyps(2)] step.IH [OF step.prems] show ?case by (metis append_assoc rtranclp_trans)
qed simp

lemma mounts_start_ok: "mounts_ok e mounts_start"
  using start_ok by (simp add: mounts_ok_def mounts_start_def session_marks_def no_plugins_def)

lemma mounts_reachable: "mount_run e lib mounts_start y \<Longrightarrow> mounts_ok e y"
  using mount_run_ok mounts_start_ok by blast

section \<open>What a resolved session says\<close>

lemma selected_row:
  assumes "sq_select_live e db now hit = Inr x"
  obtains m i r where "m \<in> set (pd_mounts db)" and "hit (mr_session m)" and "session_live e db now m"
    and "x = session_of_columns (mr_session m)" and "i \<in> set (pd_installs db)" and "r \<in> set (pd_releases db)"
    and "session_joins e (mr_session m) i r"
proof -
  obtain m where "List.find (\<lambda>m. hit (mr_session m) \<and> session_live e db now m) (pd_mounts db) = Some m"
    and x: "x = session_of_columns (mr_session m)"
    using assms by (auto simp: sq_select_live_def split: option.splits if_splits)
  then have m: "m \<in> set (pd_mounts db)" "hit (mr_session m)" "session_live e db now m" by (auto simp: find_Some_iff)
  then obtain i r where "i \<in> set (pd_installs db)" "r \<in> set (pd_releases db)" "session_joins e (mr_session m) i r"
    by (auto simp: session_live_def list_ex_iff)
  with m x that show thesis by blast
qed

lemma joined_revision:
  assumes "mounts_ok e y" and "i \<in> set (pd_installs (my_db y))" and "session_joins e x i r"
  shows "ms_revision x = change_count e (my_db y) (ms_tenant x) (ms_plugin x)"
proof -
  have "row_logged e (pd_events (my_db y)) i"
    using assms(1,2) by (auto simp: mounts_ok_def tables_ok_def plugin_inv_def log_inv_def log_of_def list_all_iff)
  moreover have "install_key e i = key_of e (ms_tenant x) (ms_plugin x)" and "in_mount_revision i = ms_revision x"
    using assms(3) by (simp_all add: session_joins_def install_at_key)
  ultimately show ?thesis by (simp add: row_logged_def change_count_def install_events_of)
qed

lemma dead_session:
  assumes ok: "mounts_ok e y" and m: "m \<in> set (pd_mounts (my_db y))"
    and "change_count e (my_db y) (ms_tenant (mr_session m)) (ms_plugin (mr_session m)) <
      change_count e (my_db z) (ms_tenant (mr_session m)) (ms_plugin (mr_session m))"
    and marks: "session_marks (my_db z) = session_marks (my_db y) @ new" and z: "mounts_ok e z"
    and hit: "\<And>x. hit x \<Longrightarrow> ms_id x = ms_id (mr_session m) \<or> ms_token_hash x = ms_token_hash (mr_session m)"
  shows "sq_select_live e (my_db z) now hit \<noteq> Inr x"
proof
  assume "sq_select_live e (my_db z) now hit = Inr x"
  then obtain n i r where n: "n \<in> set (pd_mounts (my_db z))" "hit (mr_session n)"
    and i: "i \<in> set (pd_installs (my_db z))" "session_joins e (mr_session n) i r"
    by (rule selected_row)
  let ?marks = "session_marks (my_db z)"
  have "session_mark m \<in> set (session_marks (my_db y))" using m by (simp add: session_marks_def)
  then have "session_mark m \<in> set ?marks" by (simp add: marks)
  moreover have "session_mark n \<in> set ?marks" using n(1) by (simp add: session_marks_def)
  moreover have "fst (session_mark n) = fst (session_mark m) \<or> fst (snd (session_mark n)) = fst (snd (session_mark m))"
    using hit [OF n(2)] by (auto simp: session_mark_def)
  moreover have "inj_on fst (set ?marks)" "inj_on (fst \<circ> snd) (set ?marks)"
    using z by (simp_all add: mounts_ok_def distinct_map)
  ultimately have "session_mark n = session_mark m" unfolding inj_on_def comp_def by blast
  then have n: "ms_tenant (mr_session n) = ms_tenant (mr_session m)" "ms_plugin (mr_session n) = ms_plugin (mr_session m)"
    "ms_revision (mr_session n) = ms_revision (mr_session m)" by (simp_all add: session_mark_def)
  have "session_mark m \<in> set (session_marks (my_db y))" using m by (simp add: session_marks_def)
  then have "ms_revision (mr_session m) \<le> change_count e (my_db y) (ms_tenant (mr_session m)) (ms_plugin (mr_session m))"
    using ok by (auto simp: mounts_ok_def session_mark_def)
  with joined_revision [OF z i] n assms(3) show False by simp
qed

text \<open>
  C27. An installation change ends its mounts. Once a call has recorded a lifecycle event for a tenant's
  installation of a plugin, no mount session that was stored before for them, however it was issued, is
  found again, neither by its identifier nor by the digest of its asset token, at any time and
  after any further calls, registry reads and issued mounts, even if the installation is enabled,
  rolled back or reinstalled later.
\<close>

theorem installation_change_ends_mounts:
  assumes "mount_run e lib mounts_start y" and "m \<in> set (pd_mounts (my_db y))"
    and "plugin_exec e (my_db y) c = Inr db'"
    and "install_events e db' (ms_tenant (mr_session m)) (ms_plugin (mr_session m)) \<noteq>
      install_events e (my_db y) (ms_tenant (mr_session m)) (ms_plugin (mr_session m))"
    and "mount_run e lib (y\<lparr>my_db := db'\<rparr>) z"
  shows "isl (mst_by_id (sql_mounts e) (my_db z) now (ms_id (mr_session m))) \<and>
    isl (mst_by_hash (sql_mounts e) (my_db z) now (ms_token_hash (mr_session m)))"
proof -
  note ok = mounts_reachable [OF assms(1)]
  have step: "mount_step e lib y (y\<lparr>my_db := db'\<rparr>)" using assms(3) by (rule step_call)
  note exec = step_ok [OF step ok]
  note run = mount_run_ok [OF assms(5) exec [THEN conjunct1]]
  have whole: "mount_run e lib y z" using step assms(5) by (rule converse_rtranclp_into_rtranclp)
  let ?t = "ms_tenant (mr_session m)" and ?p = "ms_plugin (mr_session m)"
  have "change_count e (my_db y) ?t ?p < change_count e db' ?t ?p"
    using logged_grows [of e "\<lambda>_. True" "log_of (my_db y)" "log_of db'"] exec assms(4)
    by (simp add: change_count_def install_events_of log_of_def)
  also have "\<dots> \<le> change_count e (my_db z) ?t ?p" using change_count_mono run by fastforce
  finally have grown: "change_count e (my_db y) ?t ?p < change_count e (my_db z) ?t ?p" .
  obtain new where marks: "session_marks (my_db z) = session_marks (my_db y) @ new"
    using mount_run_ok [OF whole ok] by blast
  note dead = dead_session [OF ok assms(2) grown marks run [THEN conjunct1]]
  show ?thesis
    using dead [of "\<lambda>x. ms_id x = ms_id (mr_session m)" now] dead [of "\<lambda>x. ms_token_hash x = ms_token_hash (mr_session m)" now]
    by (simp add: sql_mounts_def) (metis Inr_not_Inl isl_def sum.exhaust)
qed

text \<open>
  C25. What the Web shell serves is verified. If an asset request is answered with an object
  in a state that any interleaving of calls, registry reads and issued mounts can reach, then its token was
  signed under a secret of at least 32 characters, a stored and unexpired session has the digest of the token,
  and the object lies below the address of a release that is installed and live for the tenant of that
  session, is published at this moment and carries a valid signature of the platform's key over its
  stored manifest and artifact digest.
\<close>

theorem mount_serves_verified_release:
  assumes "mount_run e lib mounts_start y" and "plugin_asset e lib (my_db y) now token plugin version path = Inr key"
  shows "\<exists>encoded x i r signature.
    token = encoded @ ''.'' @ mount_signature lib (tk_secret lib) encoded \<and> 32 \<le> length (tk_secret lib) \<and>
    x \<in> mr_session ` set (pd_mounts (my_db y)) \<and> ms_token_hash x = sha256_hex (tk_host lib) token \<and>
    ms_plugin x = plugin \<and> ms_version x = version \<and> instant now < instant (ms_expires x) \<and>
    i \<in> set (pd_installs (my_db y)) \<and> install_at e (ms_tenant x) plugin i \<and> mount_live (in_state i) \<and>
    find_release e (my_db y) (in_plugin i) (in_version i) = Some r \<and> pr_status r = ReleasePublished \<and>
    same e (pr_sha r) (ms_sha x) \<and> signed_by r = Some signature \<and>
    verify_signature e (pe_public e) (canonical_release (pe_host e) (pr_manifest r) (pr_sha r)) signature = Inr () \<and>
    ''..'' \<notin> set (asset_parts path) \<and>
    key = str_join ''/'' [''plugin-assets'', pr_publisher r, plugin, version, ms_sha x, str_join ''/'' (asset_parts path)]"
proof -
  note tables = mounts_reachable [OF assms(1), unfolded mounts_ok_def, THEN conjunct1]
  obtain i0 expiry x where verified: "verify_asset_token lib token = Inr (i0, expiry)"
    and found: "sq_select_live e (my_db y) now (\<lambda>z. ms_token_hash z = sha256_hex (tk_host lib) token) = Inr x"
    and route: "ms_plugin x = plugin" "ms_version x = version"
    and key: "resolve_asset_object_key e (my_db y) (ms_tenant x) plugin version (ms_sha x) path = Inr key"
    using assms(2)
    by (auto simp: plugin_asset_def resolve_asset_token_def bindr_eq_Inr sql_mounts_def claims_of_def
        split: if_splits sum.splits plugin_error.splits)
  obtain m where m: "m \<in> set (pd_mounts (my_db y))" "ms_token_hash (mr_session m) = sha256_hex (tk_host lib) token"
    "session_live e (my_db y) now m" "x = session_of_columns (mr_session m)"
    using selected_row [OF found] by metis
  obtain i r where ir: "(i, r) \<in> set (live_join e (my_db y))" "install_at e (ms_tenant x) plugin i"
      "same e (pr_sha r) (ms_sha x)" and parts: "''..'' \<notin> set (asset_parts path)"
    and key: "key = str_join ''/'' [''plugin-assets'', pr_publisher r, plugin, version, ms_sha x,
      str_join ''/'' (asset_parts path)]"
    using key by (auto simp: resolve_asset_object_key_def Let_def find_Some_iff split: if_splits option.splits)
      (metis nth_mem)
  then have i: "i \<in> set (pd_installs (my_db y))" "mount_live (in_state i)"
    and r: "r \<in> set (pd_releases (my_db y))" "release_at e (in_plugin i) (in_version i) r" "pr_status r = ReleasePublished"
    by (auto simp: live_join_def)
  have "row_backed e (pd_releases (my_db y)) i"
    using tables i(1) by (auto simp: tables_ok_def plugin_inv_def list_all_iff)
  then obtain r' where "r' \<in> set (pd_releases (my_db y))" "release_at e (in_plugin i) (in_version i) r'"
    and backed: "release_verified e r' (in_granted i)"
    using i(2) by (auto simp: row_backed_def release_backs_def)
  with tables r have "release_verified e r (in_granted i)"
    using distinct_release [of e "pd_releases (my_db y)" r' r] by (auto simp: tables_ok_def)
  then obtain signature where signed: "signed_by r = Some signature"
    "verify_signature e (pe_public e) (canonical_release (pe_host e) (pr_manifest r) (pr_sha r)) signature = Inr ()"
    by (auto simp: release_verified_def verified_content_def platform_public_key_def bindr_eq_Inr split: if_splits)
  obtain encoded where "token = encoded @ ''.'' @ mount_signature lib (tk_secret lib) encoded" "32 \<le> length (tk_secret lib)"
    using resolved_signed [OF verified] by blast
  moreover have "find_release e (my_db y) (in_plugin i) (in_version i) = Some r"
    using find_release_unique r tables by (simp add: tables_ok_def)
  moreover have "instant now < instant (ms_expires (mr_session m))" using m(3) by (simp add: session_live_def)
  ultimately show ?thesis
    using m ir parts key i r signed route
    by (intro exI [of _ encoded] exI [of _ "mr_session m"] exI [of _ i] exI [of _ r] exI [of _ signature])
      (auto simp: session_of_columns_def)
qed

text \<open>
  C38. An issued mount can be used: the token of a mount that was just stored resolves to the claims of its
  session on the route of its plugin and version, and its identifier to the session for its user and
  tenant, at any time before the expiry at which the installation still has the revision, the version and
  the published artifact the session is bound to. The hypotheses on the library are that the JSON text of the
  token reads back and digests are bytes, and that the expiry is in the range of \<open>datetime\<close>.
\<close>

theorem issued_mount_resolves:
  assumes "issue_mount lib (sql_mounts e) db q fresh nonce now = Inr ((x, token), db')"
    and "sq_live e db' when_used x" and "token_reads lib (asset_payload (ms_id x) (ms_expires x) nonce)"
    and "datetime_range (epoch_seconds (ms_expires x))" and "instant when_used < epoch_seconds (ms_expires x) * 1000000"
  shows "resolve_asset_token lib (sql_mounts e) db' when_used token (Some (mq_plugin q, Some (mq_version q))) =
      Inr (claims_of x) \<and>
    resolve_for_user (sql_mounts e) db' when_used (ms_id x) (mq_user q) (mq_tenant q) = Inr x"
  using sql_sessions.issued_resolves [OF assms] by blast

section \<open>A mount of the installed plugin\<close>

definition xm_lib :: token_lib where
  "xm_lib = \<lparr>tk_secret = replicate 32 CHR ''k'', tk_hmac = (\<lambda>_ _. [1, 2, 3]),
     tk_loads = (\<lambda>_. Some (asset_payload ''mount_1'' (Aware 90000000) ''n'')), tk_host = host_ascii\<rparr>"

definition xm_offer :: registry_entry where
  "xm_offer = registry_entry_of (xp_row ''1.0.0'' None PluginEnabled 2) (xp_release ''1.0.0'')"

definition xm_request :: mount_request where
  "xm_request = offer_request ''t'' xm_offer ''ann'' (''rel_'' @ replicate 32 CHR ''a'') [''craft.read''] []
     (Aware 5) 60000000"

definition xm_token :: string where
  "xm_token = ''eyJleHAiOjkwLCJub25jZSI6Im4iLCJzaWQiOiJtb3VudF8xIn0.AQID''"

definition xm_session :: mount_session where
  "xm_session = \<lparr>ms_id = ''mount_1'', ms_user = ''ann'', ms_tenant = ''t'', ms_installation = ''installation_1'',
     ms_plugin = ''acme.tools.cut'', ms_version = ''1.0.0'', ms_sha = xp_sha, ms_catalog = ''rel_'' @ replicate 32 CHR ''a'',
     ms_grants = [''craft.read''], ms_resources = [''tenant:t''], ms_data = [], ms_revision = 2,
     ms_token_hash = concat (replicate 8 ''94fef3f0''), ms_authenticated = Aware 5,
     ms_created = Aware 30000000, ms_expires = Aware 90000000, ms_revoked = None\<rparr>"

definition xm_row :: mount_row where
  "xm_row = \<lparr>mr_session = to_columns xm_session, mr_active = True\<rparr>"

definition xm_db :: plugin_db where
  "xm_db = xp_installed\<lparr>pd_mounts := [xm_row]\<rparr>"

lemma xm_issue: "issue_mount xm_lib (sql_mounts xp_env) xp_installed xm_request ''1'' ''n'' (Aware 30000000) =
    Inr ((xm_session, xm_token), xm_db)"
  by code_simp

lemma xm_payload: "asset_payload (ms_id xm_session) (ms_expires xm_session) ''n'' = asset_payload ''mount_1'' (Aware 90000000) ''n''"
  by code_simp

lemma xm_reads: "token_reads xm_lib (asset_payload (ms_id xm_session) (ms_expires xm_session) ''n'')"
  unfolding token_reads_def xm_payload by (simp add: xm_lib_def bytes_ok_def)

lemma xm_times:
  "sq_live xp_env xm_db (Aware 40000000) xm_session" "datetime_range (epoch_seconds (ms_expires xm_session))"
  "instant (Aware 40000000) < epoch_seconds (ms_expires xm_session) * 1000000"
  by code_simp+

theorem issued_mount_resolves_witness:
  "resolve_asset_token xm_lib (sql_mounts xp_env) xm_db (Aware 40000000) xm_token
     (Some (mq_plugin xm_request, Some (mq_version xm_request))) = Inr (claims_of xm_session)"
  using issued_mount_resolves [OF xm_issue xm_times(1) xm_reads xm_times(2,3)] by blast

definition xm_system :: mount_system where
  "xm_system = \<lparr>my_db = xm_db, my_offers = [(''t'', xm_offer)]\<rparr>"

lemma plugin_run_mounts: "plugin_run e db db' \<Longrightarrow> my_db y = db \<Longrightarrow> mount_run e lib y (y\<lparr>my_db := db'\<rparr>)"
proof (induction rule: rtranclp_induct)
  case (step u v)
  then obtain c where "plugin_exec e u c = Inr v" by (auto elim: plugin_step.cases)
  then have "mount_step e lib (y\<lparr>my_db := u\<rparr>) (y\<lparr>my_db := u, my_db := v\<rparr>)" by (intro step_call) simp
  with step show ?case by (simp add: rtranclp.rtrancl_into_rtrancl)
next
  case base
  then show ?case by (cases y) simp
qed

lemma xm_offered: "xm_offer \<in> set (tenant_registry xp_env xp_installed ''t'')"
  unfolding xm_offer_def by code_simp

lemma xm_run: "mount_run xp_env xm_lib mounts_start xm_system"
proof -
  let ?start = "mounts_start\<lparr>my_db := xp_installed\<rparr>"
  have "mount_run xp_env xm_lib mounts_start ?start"
    using xp_installed_run by (rule plugin_run_mounts) (simp add: mounts_start_def)
  also have "mount_step xp_env xm_lib ?start (?start\<lparr>my_offers := (''t'', xm_offer) # my_offers ?start\<rparr>)"
    by (rule step_read) (simp add: xm_offered)
  also have "mount_step xp_env xm_lib (?start\<lparr>my_offers := (''t'', xm_offer) # my_offers ?start\<rparr>)
      (?start\<lparr>my_offers := (''t'', xm_offer) # my_offers ?start, my_db := xm_db\<rparr>)"
    using xm_issue by (intro step_issue) (simp_all add: xm_request_def)
  also have "(?start\<lparr>my_offers := (''t'', xm_offer) # my_offers ?start, my_db := xm_db\<rparr>) = xm_system"
    by (simp add: xm_system_def mounts_start_def)
  finally show ?thesis .
qed

lemma xm_row_stored: "xm_row \<in> set (pd_mounts (my_db xm_system))"
  by (simp add: xm_system_def xm_db_def)

definition xm_disabled :: plugin_db where
  "xm_disabled = projr (plugin_exec xp_env xm_db (DisablePlugin ''t'' ''acme.tools.cut'' ''ann''))"

lemma xm_disable: "plugin_exec xp_env (my_db xm_system) (DisablePlugin ''t'' ''acme.tools.cut'' ''ann'') = Inr xm_disabled"
proof -
  have "\<not> isl (plugin_exec xp_env xm_db (DisablePlugin ''t'' ''acme.tools.cut'' ''ann''))" by code_simp
  from ran [OF this, folded xm_disabled_def] show ?thesis by (simp add: xm_system_def)
qed

lemma xm_changed: "install_events xp_env xm_disabled (ms_tenant (mr_session xm_row)) (ms_plugin (mr_session xm_row)) \<noteq>
    install_events xp_env (my_db xm_system) (ms_tenant (mr_session xm_row)) (ms_plugin (mr_session xm_row))"
proof -
  have "length (install_events xp_env xm_disabled (ms_tenant (mr_session xm_row)) (ms_plugin (mr_session xm_row))) \<noteq>
    length (install_events xp_env (my_db xm_system) (ms_tenant (mr_session xm_row)) (ms_plugin (mr_session xm_row)))"
    by code_simp
  then show ?thesis by metis
qed

theorem installation_change_ends_mounts_witness:
  "isl (mst_by_id (sql_mounts xp_env) xm_disabled (Aware 40000000) (ms_id (mr_session xm_row)))"
  using installation_change_ends_mounts [OF xm_run xm_row_stored xm_disable xm_changed rtranclp.rtrancl_refl] by simp

lemma xm_served: "plugin_asset xp_env xm_lib (my_db xm_system) (Aware 40000000) xm_token ''acme.tools.cut'' ''1.0.0'' ''a/b.js'' =
    Inr (''plugin-assets/acme/acme.tools.cut/1.0.0/'' @ xp_sha @ ''/a/b.js'')"
  by code_simp

theorem mount_serves_verified_release_witness:
  "\<exists>i r. i \<in> set (pd_installs (my_db xm_system)) \<and> mount_live (in_state i) \<and>
     find_release xp_env (my_db xm_system) (in_plugin i) (in_version i) = Some r \<and> pr_status r = ReleasePublished"
  using mount_serves_verified_release [OF xm_run xm_served] by blast

end
