(* ===== verification/Spec2Isabelle.thy ===== *)
theory Spec2Isabelle
  imports RevisionProperties ApprovalsAndRates OperationProperties DelegationProperties AuthorizationProperties
    CatalogProperties GatewayOutcomes GatewaySlots GatewayStreams ArtifactProperties
    RevisionSqlProperties EventPath ConnectorPlanProperties PluginMountSafety
begin

text \<open>
  The capability core of the backend: governed invocation of business capabilities and revision
  control of business documents. All sources are under \<open>src/backend\<close>.

  \<^bold>\<open>The program.\<close> A consumer (web page, plugin, agent, external tool, worker) sends an invocation
  envelope to \<open>CapabilityGatewayService.invoke\<close> (\<open>capability_v2/gateway.py\<close>). The gateway resolves the
  capability in the bound catalog release (\<open>catalog.py\<close>) and the registry
  (\<open>capabilities/registry_next.py\<close>), lets the policy (\<open>policies.py\<close>, \<open>authorization.py\<close>) authorize the
  identity that the broker built (\<open>identity.py\<close>, \<open>delegation.py\<close>), validates the payload
  (\<open>capabilities/validation_next.py\<close>), replays a known outcome or takes a lease on the idempotency scope
  (\<open>reliability.py\<close> over \<open>outcomes.py\<close>), has approvals checked, takes an admission slot
  (\<open>resource_budget.py\<close>), creates an asynchronous operation where the capability asks for one
  (\<open>operations.py\<close>), calls the provider, commits or rolls back its transaction together with the durable
  outcome, projects the result for the consumer (\<open>projection.py\<close>) and records a metric. Plugins reach
  it through mounts: \<open>plugin_platform\<close> admits signed releases, installs them per tenant and gives the Web
  shell mount sessions and signed asset tokens. One of the providers is revision control (\<open>capability_v2/revision\<close>): canonical documents, structural diffs,
  three-way merges and a store of commits, branches and lineage.

  \<^bold>\<open>Theories and sources.\<close>
  \<^item> \<open>Prelude\<close>: strings, exceptions as values (\<open>py_exn\<close>), the sum monad \<open>bindr\<close>/\<open>mapr\<close>, rows of tables,
    times, the named collections. \<open>PyJson\<close>: JSON values with Python's equality and truth,
    \<open>normalize_json\<close> and the canonical bytes (\<open>revision/canonical.py\<close>). SHA-256, Unicode normal form
    and the text of floats are the fields of \<open>hostlib\<close>.
  \<^item> \<open>RevisionDiff\<close>, \<open>RevisionMerge\<close>, \<open>RevisionModels\<close>, \<open>RevisionRepository\<close>, \<open>RevisionService\<close>:
    \<open>diff.py\<close>, \<open>merge.py\<close>, \<open>models.py\<close>, the in-memory store of \<open>repository.py\<close> and \<open>service.py\<close> of
    \<open>capability_v2/revision\<close>, function by function; the store is the record \<open>repo_state\<close>, a service call
    is a function of the state that returns a sum of an error and a value. \<open>RevisionProperties\<close> has the
    reachable states of the service and what holds in them. \<open>RevisionSql\<close> is the SQL store of
    \<open>repository.py\<close>, which the backend runs with, over its eight tables (\<open>rev_tables\<close>);
    \<open>RevisionSqlProperties\<close> shows that history is append-only there, that its branch heads refine the
    in-memory ones, and that records with a time cannot be read back.
  \<^item> \<open>Contracts\<close>: the records and validators of \<open>contracts.py\<close>; \<open>PayloadValidation\<close>: the schema validator.
  \<^item> \<open>Outcomes\<close>, \<open>OutcomeLedger\<close>: both outcome stores and their common abstract ledger, a locale that
    both interpret; \<open>Reliability\<close>, \<open>ReliabilityProperties\<close>: the coordinator with leases, replays,
    approvals and rates; \<open>ApprovalsAndRates\<close>: approvals and rate windows.
  \<^item> \<open>Operations\<close>, \<open>OperationProperties\<close>: the operation stores, the transition table, the service and
    the reconciler.
  \<^item> \<open>Authorization\<close>, \<open>AuthorizationProperties\<close>: grants, selectors, data scopes and the two policies;
    \<open>Delegation\<close>, \<open>DelegationProperties\<close>: delegation grants, mounts, principals and the identity broker.
  \<^item> \<open>Admission\<close>, \<open>AdmissionProperties\<close>: memory pressure, counters, waiting and leases of the admission
    controller and the metrics ring. \<open>Projection\<close>: results for consumers that are language models.
    \<open>Catalog\<close>, \<open>CatalogProperties\<close>: releases, compatibility, stores, resolver and registry.
    \<open>WireCanonical\<close>, \<open>ConnectorPlan\<close>, \<open>ConnectorPlanProperties\<close>: the canonical form, the plans and
    outcomes and the signatures of \<open>contracts/connector_execution_plan_v2.py\<close>, with one text for each
    signature and steps that depend on earlier steps.
  \<^item> \<open>Artifacts\<close>, \<open>ArtifactProperties\<close>: upload sessions, artifact records, both stores, the in-memory and
    the file system object storage and the service of \<open>artifacts.py\<close>, with concurrent uploads as a
    step relation.
  \<^item> \<open>DomainEvents\<close>: manifests of domains, event envelopes, subscriptions and the transport
    (\<open>domain_manifest.py\<close>, \<open>domain_events.py\<close>, \<open>event_transport.py\<close>). \<open>EventDelivery\<close>: the outbox poller
    of Knowledge (\<open>plugins/knowledge/knowledge_backend/infrastructure/domain_outbox.py\<close> under \<open>src\<close>)
    and the inbox of Base (\<open>base/inbox.py\<close>). \<open>EventProperties\<close>, \<open>EventPath\<close>: an event is applied at
    most once, a delivered row is recorded, a well-formed outbox drains, and what breaks the path.
  \<^item> \<open>PluginLifecycle\<close>, \<open>PluginService\<close>, \<open>PluginMounts\<close>: the state machine, version ranges, manifests and
    signatures, the control plane over the plugin tables (\<open>plugin_db\<close>) with every call that changes
    them (\<open>plugin_exec\<close>), and the mounts with both session stores (\<open>lifecycle.py\<close>, \<open>compatibility.py\<close>,
    \<open>manifest.py\<close>, \<open>signing.py\<close>, \<open>service.py\<close>, \<open>mounts.py\<close> of \<open>plugin_platform\<close>). \<open>PluginProperties\<close>: what each
    call does to the log of an installation; \<open>PluginGuarantees\<close>: live plugins are verified, revocation is
    final, upgrades roll back; \<open>PluginMountProperties\<close>, \<open>PluginMountSafety\<close>: tokens read back, changes of an
    installation end its mounts, and what is served is verified.
  \<^item> \<open>Gateway\<close>: the whole pipeline as stages over the record \<open>gateway_world\<close>; \<open>GatewayLemmas\<close>: what a
    stage that let an invocation pass has checked, and which effects a stage may have;
    \<open>GatewayProperties\<close>, \<open>GatewayIdempotency\<close>, \<open>GatewayOutcomes\<close>, \<open>GatewaySlots\<close>, \<open>GatewayStreams\<close>: the
    guards before a provider call, single execution over sequences of invocations, atomic
    finalisation, return of admission slots, and streams.

  \<^bold>\<open>Conventions.\<close> Python integers are \<open>int\<close>, texts are lists of the bytes of their UTF-8 form,
  dictionaries whose order matters are association lists. Every \<open>raise\<close> is an \<open>Inl\<close>. A provider handler,
  clocks, random identifiers, memory readings and the fate of awaited calls are arguments; effects
  outside the gateway are appended to a trace. SQL tables are lists of rows with the keys of the
  schema checked on insertion. A lock of the source makes a whole operation one step; interleavings
  are sequences of such steps.

  \<^bold>\<open>Assumptions on atomicity and hashing.\<close> A call of the revision service is one atomic step, and reachable stores are
  those of calls that do not overlap. In the source this is stronger than its locks: \<open>_write_commit\<close> reads the
  protection of the branch and then appends the commit, and \<open>link_lineage\<close> walks the lineage graph and then
  saves the edge, under separate acquisitions of the lock of the store. A branch that is protected between the two halves,
  or two edges that close a cycle and are linked at the same time, are outside the model; this bears on
  \<open>revision_store_invariant\<close> (acyclic lineage) and \<open>revision_protected_branch\<close>. Likewise an invocation of the gateway, a
  call of the plugin platform and a transaction of a SQL store are single steps, except where a theory has
  a step relation with smaller steps (operations, artifact uploads, event delivery). \<open>svc_step\<close> admits the
  creation of a repository only under \<open>no_collision\<close>, the absence of a SHA-256 collision of its root commit and
  snapshot with stored ones, since \<open>initialize\<close> does not look for one. Object keys are strings, so the
  \<open>TypeError\<close> of \<open>normalize_json\<close> for other keys does not occur, nor does the encoding error of a
  lone surrogate.

  \<^bold>\<open>Bounds and fuel.\<close> Walks over the commit graph and the lineage graph recurse on an explicit measure or
  on a bound that the source states (history limit, ancestor limit); where a loop has fuel, a lemma
  shows that it does not run out. \<open>odd_part\<close> needs at most 1024 halvings because larger integers are
  refused before. The gateway's wait for a slot recurses on the list of wake-ups. The runs of an outbox
  poller are counted; the attempts left in the outbox are enough of them.

  \<^bold>\<open>Interfaces.\<close> The locales state what a client relies on: the ledger laws of an outcome store, the
  executed scopes a store remembers, one-time approvals, the compare-and-swap of an operation store, the
  grants of a delegation store, the heads of a revision store (\<open>branch_heads\<close>, which the SQL store
  satisfies too, and \<open>revision_store\<close> with reads, which it does not), the artifacts of an artifact
  store, the at-most-once effect of an event inbox, the saved sessions of a mount store. Each is interpreted on the stores of
  the code.

  \<^bold>\<open>Not modelled.\<close> Start-up wiring of the default gateway, local plugin providers and the nested domain
  client; cancellation before dispatch except the settlement of its lease; the loading of release
  files; the parsing of mappings by pydantic; column widths and connection faults of the SQL stores, but for
  the inbox of Base; package archives, local provider jobs and the namespace storage of plugins; the
  routers, the database tooling, audits and reports, and the business plugins,
  which to the gateway are provider handlers. Regular expressions of schemas and redactions, SHA-256,
  random tokens, signature algorithms and the collation of the plugin tables are parameters.
\<close>

end
